(* ===== verification/Prelude.thy ===== *)
theory Prelude
  imports Complex_Main "HOL-Library.Word" "HOL-Library.Product_Lexorder" "HOL-Library.Sublist"
begin

text \<open>
  Shared vocabulary of the development: the exceptions of the service as values, the two
  kinds of effectful computation (a database transaction that is rolled back when it
  raises, and an action made of several transactions that keeps what was committed before
  an exception), datetimes, the fragment of Python's strings and bytes the service uses,
  and generic lemmas about tables of rows.

  Strings are character lists; a character is a code point below 256 (Latin-1). Datetimes
  are microseconds since the epoch, aware or naive; two aware datetimes are equal when they
  denote the same instant, as in Python, whatever their offset.
\<close>

section \<open>Proof collections\<close>

named_theorems tx_defs \<open>the definitions of transactions and of the helpers they call\<close>
named_theorems row_simps \<open>how the row updates of a transaction act on the tables\<close>
named_theorems inv_intros \<open>introduction rules for the invariants of the components\<close>

section \<open>Exceptions as values\<close>

text \<open>
  One constructor per exception class the code raises or catches. The classes
  \<open>ProofValidationError\<close>, \<open>BitcoinEvidenceInvalid\<close>, \<open>PaymentSignatureError\<close> and
  \<open>ResendWebhookSignatureError\<close> derive from \<open>ValueError\<close> in the source, so an \<open>except ValueError\<close> catches them too.
\<close>

datatype exn =
    ValueError string
  | ProofValidationError string
  | BitcoinEvidenceInvalid string
  | BitcoinRpcResponseError int string
  | PaymentSignatureError string
  | PaymentProviderError string
  | ManualReviewError string
  | RetryableFulfillmentError string
  | ConfirmationPending string
  | BitcoinVerifierUnavailable string
  | CalendarUnavailable string
  | SpecificJobRetryable string
  | TaskDispatchUnavailable string
  | CheckoutUnavailable string
  | IdempotencyConflict string
  | CheckoutInProgress string
  | ResendRetryableError string "int option"
  | ResendPermanentError string "int option"
  | ResendWebhookSignatureError string
  | MetbullNotFound string
  | MetbullNotOfficial string
  | MetbullUnavailable string
  | HTTPException int string
  | RuntimeError string
  | IntegrityError
  | TypeError
  | AssertionError
  | KeyError
  | OtherException string

fun is_ValueError :: "exn \<Rightarrow> bool" where
  "is_ValueError (ValueError _) = True"
| "is_ValueError (ProofValidationError _) = True"
| "is_ValueError (BitcoinEvidenceInvalid _) = True"
| "is_ValueError (BitcoinRpcResponseError _ _) = True"
| "is_ValueError (PaymentSignatureError _) = True"
| "is_ValueError (ResendWebhookSignatureError _) = True"
| "is_ValueError _ = False"

definition bind_res :: "exn + 'a \<Rightarrow> ('a \<Rightarrow> exn + 'b) \<Rightarrow> exn + 'b" where
  "bind_res r k = (case r of Inl e \<Rightarrow> Inl e | Inr x \<Rightarrow> k x)"

lemma bind_res_simps [simp]:
  "bind_res (Inl e) k = Inl e"
  "bind_res (Inr x) k = k x"
  by (simp_all add: bind_res_def)

lemma bind_res_Inr_iff: "bind_res r k = Inr y \<longleftrightarrow> (\<exists>x. r = Inr x \<and> k x = Inr y)"
  by (cases r) simp_all

lemma bind_res_Inl_iff: "bind_res r k = Inl e \<longleftrightarrow> r = Inl e \<or> (\<exists>x. r = Inr x \<and> k x = Inl e)"
  by (cases r) auto

section \<open>Transactions and actions\<close>

text \<open>
  \<open>with session_factory() as session, session.begin()\<close> commits when the block ends and
  rolls back when it raises: a transaction maps the database to an exception, or to a
  result and the new database. A handler runs several transactions one after the other: an
  action returns the database also when it raises, so that what was committed stays.
\<close>

type_synonym ('s, 'a) tx = "'s \<Rightarrow> exn + 'a \<times> 's"
type_synonym ('s, 'a) action = "'s \<Rightarrow> (exn + 'a) \<times> 's"

definition transaction :: "('s, 'a) tx \<Rightarrow> ('s, 'a) action" where
  "transaction t s = (case t s of Inl e \<Rightarrow> (Inl e, s) | Inr (x, s') \<Rightarrow> (Inr x, s'))"

definition return_act :: "'a \<Rightarrow> ('s, 'a) action" where
  "return_act x s = (Inr x, s)"

definition raise_act :: "exn \<Rightarrow> ('s, 'a) action" where
  "raise_act e s = (Inl e, s)"

definition bind_act :: "('s, 'a) action \<Rightarrow> ('a \<Rightarrow> ('s, 'b) action) \<Rightarrow> ('s, 'b) action" where
  "bind_act m k s = (case m s of (Inl e, s') \<Rightarrow> (Inl e, s') | (Inr x, s') \<Rightarrow> k x s')"

definition read_act :: "('s \<Rightarrow> exn + 'a) \<Rightarrow> ('s, 'a) action" where
  "read_act f s = (f s, s)"

definition lift_act :: "exn + 'a \<Rightarrow> ('s, 'a) action" where
  "lift_act r s = (r, s)"

definition catch_act :: "('s, 'a) action \<Rightarrow> (exn \<Rightarrow> ('s, 'a) action) \<Rightarrow> ('s, 'a) action" where
  "catch_act m h s = (case m s of (Inl e, s') \<Rightarrow> h e s' | (Inr x, s') \<Rightarrow> (Inr x, s'))"

lemma transaction_cases:
  obtains (rollback) e where "t s = Inl e" "transaction t s = (Inl e, s)"
  | (commit) x s' where "t s = Inr (x, s')" "transaction t s = (Inr x, s')"
  by (cases "t s") (auto simp: transaction_def)

lemma transaction_simps [simp]:
  "t s = Inl e \<Longrightarrow> transaction t s = (Inl e, s)"
  "t s = Inr (x, s') \<Longrightarrow> transaction t s = (Inr x, s')"
  by (simp_all add: transaction_def)

lemma act_simps [simp]:
  "return_act x s = (Inr x, s)"
  "raise_act e s = (Inl e, s)"
  "read_act f s = (f s, s)"
  "lift_act r s = (r, s)"
  by (simp_all add: return_act_def raise_act_def read_act_def lift_act_def)

lemma bind_act_eq:
  "bind_act m k s = (case fst (m s) of Inl e \<Rightarrow> (Inl e, snd (m s)) | Inr x \<Rightarrow> k x (snd (m s)))"
  by (simp add: bind_act_def split: prod.splits sum.splits)

text \<open>
  What every action of a component keeps of the database is proved once for the
  transactions and carried through the sequencing.
\<close>

definition keeps :: "('s \<Rightarrow> 's \<Rightarrow> bool) \<Rightarrow> ('s, 'a) action \<Rightarrow> bool" where
  "keeps R m \<longleftrightarrow> (\<forall>s. R s (snd (m s)))"

locale preorder_on_states =
  fixes R :: "'s \<Rightarrow> 's \<Rightarrow> bool"
  assumes R_refl: "R s s"
    and R_trans: "R s t \<Longrightarrow> R t u \<Longrightarrow> R s u"
begin

lemma keeps_return: "keeps R (return_act x)"
  by (simp add: keeps_def R_refl)

lemma keeps_raise: "keeps R (raise_act e)"
  by (simp add: keeps_def R_refl)

lemma keeps_read: "keeps R (read_act f)"
  by (simp add: keeps_def R_refl)

lemma keeps_lift: "keeps R (lift_act r)"
  by (simp add: keeps_def R_refl)

lemma keeps_transaction:
  assumes "\<And>s x s'. t s = Inr (x, s') \<Longrightarrow> R s s'"
  shows "keeps R (transaction t)"
  using assms by (auto simp: keeps_def transaction_def R_refl split: sum.splits)

lemma keeps_bind:
  assumes m: "keeps R m" and k: "\<And>x. keeps R (k x)"
  shows "keeps R (bind_act m k)"
  unfolding keeps_def
proof
  fix s
  have "R s (snd (m s))" using m by (simp add: keeps_def)
  moreover have "R (snd (m s)) (snd (k x (snd (m s))))" for x using k by (simp add: keeps_def)
  ultimately show "R s (snd (bind_act m k s))"
    by (auto simp: bind_act_eq split: sum.splits intro: R_trans)
qed

lemma keeps_catch:
  assumes m: "keeps R m" and h: "\<And>e. keeps R (h e)"
  shows "keeps R (catch_act m h)"
  unfolding keeps_def
proof
  fix s
  have "R s (snd (m s))" using m by (simp add: keeps_def)
  moreover have "R (snd (m s)) (snd (h e (snd (m s))))" for e using h by (simp add: keeps_def)
  ultimately show "R s (snd (catch_act m h s))"
    by (auto simp: catch_act_def split: sum.splits prod.splits intro: R_trans)
qed

lemma keeps_pair: "keeps R (Pair r)"
  by (simp add: keeps_def R_refl)

lemmas keeps_rules = keeps_pair keeps_return keeps_raise keeps_read keeps_lift keeps_bind keeps_catch

end

section \<open>Datetimes\<close>

datatype datetime = Aware int | Naive int

fun micros :: "datetime \<Rightarrow> int" where
  "micros (Aware t) = t"
| "micros (Naive t) = t"

fun is_aware :: "datetime \<Rightarrow> bool" where
  "is_aware (Aware _) = True"
| "is_aware (Naive _) = False"

text \<open>\<open>_aware\<close>: a naive value read from the database is taken as UTC.\<close>

definition aware :: "datetime \<Rightarrow> datetime" where
  "aware d = Aware (micros d)"

text \<open>Ordering two datetimes raises when only one of them is aware.\<close>

definition dt_le :: "datetime \<Rightarrow> datetime \<Rightarrow> exn + bool" where
  "dt_le a b = (if is_aware a = is_aware b then Inr (micros a \<le> micros b) else Inl TypeError)"

definition dt_add :: "datetime \<Rightarrow> int \<Rightarrow> datetime" where
  "dt_add d n = (case d of Aware t \<Rightarrow> Aware (t + n) | Naive t \<Rightarrow> Naive (t + n))"

definition seconds :: "int \<Rightarrow> int" where "seconds n = n * 1000000"
definition minutes :: "int \<Rightarrow> int" where "minutes n = seconds (60 * n)"
definition hours :: "int \<Rightarrow> int" where "hours n = minutes (60 * n)"
definition days :: "int \<Rightarrow> int" where "days n = hours (24 * n)"

lemmas duration_defs = seconds_def minutes_def hours_def days_def

text \<open>\<open>int(d.timestamp())\<close>: the whole seconds, truncated towards zero.\<close>

definition timestamp_seconds :: "datetime \<Rightarrow> int" where
  "timestamp_seconds d = (if micros d \<ge> 0 then micros d div 1000000 else - ((- micros d) div 1000000))"

lemma micros_aware [simp]: "micros (aware d) = micros d"
  by (simp add: aware_def)

lemma is_aware_aware [simp]: "is_aware (aware d)"
  by (simp add: aware_def)

lemma aware_idem [simp]: "aware (aware d) = aware d"
  by (simp add: aware_def)

lemma aware_of_aware [simp]: "is_aware d \<Longrightarrow> aware d = d"
  by (cases d) (simp_all add: aware_def)

lemma micros_dt_add [simp]: "micros (dt_add d n) = micros d + n"
  by (simp add: dt_add_def split: datetime.splits)

lemma is_aware_dt_add [simp]: "is_aware (dt_add d n) = is_aware d"
  by (simp add: dt_add_def split: datetime.splits)

section \<open>Strings\<close>

definition code :: "char \<Rightarrow> nat" where
  "code c = of_char c"

definition is_digit :: "char \<Rightarrow> bool" where
  "is_digit c \<longleftrightarrow> 48 \<le> code c \<and> code c \<le> 57"

definition is_lower :: "char \<Rightarrow> bool" where
  "is_lower c \<longleftrightarrow> 97 \<le> code c \<and> code c \<le> 122"

definition is_upper :: "char \<Rightarrow> bool" where
  "is_upper c \<longleftrightarrow> 65 \<le> code c \<and> code c \<le> 90"

definition is_alnum :: "char \<Rightarrow> bool" where
  "is_alnum c \<longleftrightarrow> is_digit c \<or> is_lower c \<or> is_upper c"

definition is_lower_hex :: "char \<Rightarrow> bool" where
  "is_lower_hex c \<longleftrightarrow> is_digit c \<or> (97 \<le> code c \<and> code c \<le> 102)"

lemmas char_class_defs = code_def is_digit_def is_lower_def is_upper_def is_alnum_def is_lower_hex_def

text \<open>\<open>re.fullmatch\<close> for the two shapes of pattern the service uses: a class repeated
  between two bounds, and a first character followed by at most \<open>n\<close> of another class.\<close>

definition match_class :: "(char \<Rightarrow> bool) \<Rightarrow> nat \<Rightarrow> nat \<Rightarrow> string \<Rightarrow> bool" where
  "match_class C lo hi s \<longleftrightarrow> lo \<le> length s \<and> length s \<le> hi \<and> list_all C s"

definition match_head :: "(char \<Rightarrow> bool) \<Rightarrow> (char \<Rightarrow> bool) \<Rightarrow> nat \<Rightarrow> string \<Rightarrow> bool" where
  "match_head H T n s = (case s of [] \<Rightarrow> False | c # cs \<Rightarrow> H c \<and> list_all T cs \<and> length cs \<le> n)"

text \<open>\<open>str.lower\<close> and \<open>str.isalpha\<close> on Latin-1.\<close>

definition lower_char :: "char \<Rightarrow> char" where
  "lower_char c =
     (if is_upper c \<or> (192 \<le> code c \<and> code c \<le> 222 \<and> code c \<noteq> 215) then char_of (code c + 32) else c)"

definition str_lower :: "string \<Rightarrow> string" where
  "str_lower s = map lower_char s"

definition alpha_char :: "char \<Rightarrow> bool" where
  "alpha_char c \<longleftrightarrow> is_lower c \<or> is_upper c \<or> code c \<in> {170, 181, 186} \<or>
     (192 \<le> code c \<and> code c \<le> 255 \<and> code c \<noteq> 215 \<and> code c \<noteq> 247)"

definition str_isalpha :: "string \<Rightarrow> bool" where
  "str_isalpha s \<longleftrightarrow> s \<noteq> [] \<and> list_all alpha_char s"

text \<open>\<open>a in b\<close> on strings and bytes.\<close>

fun contains :: "'a list \<Rightarrow> 'a list \<Rightarrow> bool" where
  "contains [] needle = (needle = [])"
| "contains (x # xs) needle = (prefix needle (x # xs) \<or> contains xs needle)"

lemma contains_iff_sublist: "contains xs needle \<longleftrightarrow> sublist needle xs"
  by (induction xs) (auto simp: sublist_Cons_right)

text \<open>Decimal rendering of integers in f-strings.\<close>

definition digit_char :: "nat \<Rightarrow> char" where
  "digit_char n = char_of (48 + n)"

fun nat_str :: "nat \<Rightarrow> string" where
  "nat_str n = (if n < 10 then [digit_char n] else nat_str (n div 10) @ [digit_char (n mod 10)])"

declare nat_str.simps [simp del]

definition int_str :: "int \<Rightarrow> string" where
  "int_str i = (if i < 0 then CHR ''-'' # nat_str (nat (- i)) else nat_str (nat i))"

lemma code_digit_char: "n < 10 \<Longrightarrow> code (digit_char n) = 48 + n"
  by (simp add: code_def digit_char_def)

lemma digit_char_inject: "m < 10 \<Longrightarrow> n < 10 \<Longrightarrow> digit_char m = digit_char n \<longleftrightarrow> m = n"
  by (metis add_left_cancel code_digit_char)

lemma nat_str_digits: "list_all is_digit (nat_str n)"
proof (induction n rule: nat_str.induct)
  case (1 n)
  show ?case
  proof (cases "n < 10")
    case True
    then show ?thesis by (subst nat_str.simps) (simp add: is_digit_def code_digit_char)
  next
    case False
    have "is_digit (digit_char (n mod 10))" by (simp add: is_digit_def code_digit_char)
    with 1 False show ?thesis by (subst nat_str.simps) simp
  qed
qed

lemma nat_str_nonempty [simp]: "nat_str n \<noteq> []"
  by (subst nat_str.simps) simp

lemma nat_str_length_le: "n < 10 ^ k \<Longrightarrow> k \<noteq> 0 \<Longrightarrow> length (nat_str n) \<le> k"
proof (induction n arbitrary: k rule: nat_str.induct)
  case (1 n)
  show ?case
  proof (cases "n < 10")
    case True
    then show ?thesis using "1.prems" by (subst nat_str.simps) simp
  next
    case False
    obtain j where k: "k = Suc j" using "1.prems" by (cases k) auto
    then have "n div 10 < 10 ^ j" using "1.prems" by (simp add: less_mult_imp_div_less mult.commute)
    moreover then have "j \<noteq> 0" using False by (intro notI) simp
    ultimately show ?thesis using "1.IH" [of j] False k by (subst nat_str.simps) simp
  qed
qed

lemma nat_str_length_ge: "10 ^ k \<le> n \<Longrightarrow> k < length (nat_str n)"
proof (induction n arbitrary: k rule: nat_str.induct)
  case (1 n)
  show ?case
  proof (cases k)
    case (Suc j)
    then have "10 ^ j \<le> n div 10" using "1.prems" by (simp add: less_eq_div_iff_mult_less_eq mult.commute)
    moreover have "\<not> n < 10"
    proof
      assume "n < 10"
      then have "n div 10 = 0" by simp
      with \<open>10 ^ j \<le> n div 10\<close> show False by simp
    qed
    ultimately show ?thesis using "1.IH" [of j] Suc by (subst nat_str.simps) simp
  qed simp
qed

lemma nat_str_head: "0 < n \<Longrightarrow> hd (nat_str n) \<noteq> CHR ''0''"
proof (induction n rule: nat_str.induct)
  case (1 n)
  show ?case
  proof (cases "n < 10")
    case True
    have "digit_char n \<noteq> digit_char 0" using digit_char_inject [of n 0] True "1.prems" by simp
    moreover have "digit_char 0 = CHR ''0''" by code_simp
    ultimately show ?thesis using True by (subst nat_str.simps) simp
  next
    case False
    then show ?thesis using 1 by (subst nat_str.simps) simp
  qed
qed

fun nat_of_str :: "string \<Rightarrow> nat \<Rightarrow> nat" where
  "nat_of_str [] acc = acc"
| "nat_of_str (c # cs) acc = nat_of_str cs (10 * acc + (code c - 48))"

lemma nat_of_str_append: "nat_of_str (xs @ ys) acc = nat_of_str ys (nat_of_str xs acc)"
  by (induction xs arbitrary: acc) simp_all

lemma nat_of_nat_str: "nat_of_str (nat_str n) 0 = n"
proof (induction n rule: nat_str.induct)
  case (1 n)
  show ?case
    using 1 by (subst nat_str.simps) (auto simp: nat_of_str_append code_digit_char)
qed

lemma nat_str_inject [simp]: "nat_str m = nat_str n \<longleftrightarrow> m = n"
  by (metis nat_of_nat_str)

lemma int_str_inject [simp]: "int_str a = int_str b \<longleftrightarrow> a = b"
proof -
  have minus: "\<not> is_digit (CHR ''-'')" by (simp add: is_digit_def code_def)
  have "nat_str m \<noteq> CHR ''-'' # s" for m s
    using nat_str_digits [of m] minus by auto
  then show ?thesis
    by (auto simp: int_str_def) (metis minus)+
qed

section \<open>Bytes\<close>

type_synonym bytes = "8 word list"

text \<open>\<open>encode("ascii")\<close> of an ASCII text.\<close>

definition ascii_bytes :: "string \<Rightarrow> bytes" where
  "ascii_bytes s = map (\<lambda>c. word_of_nat (code c)) s"

definition hex_digit :: "nat \<Rightarrow> char" where
  "hex_digit n = (if n < 10 then char_of (48 + n) else char_of (87 + n))"

text \<open>\<open>bytes.hex\<close>.\<close>

definition hex :: "bytes \<Rightarrow> string" where
  "hex bs = concat (map (\<lambda>b. [hex_digit (unat b div 16), hex_digit (unat b mod 16)]) bs)"

text \<open>The value of a hexadecimal digit of either case, as \<open>bytes.fromhex\<close> reads it.\<close>

definition hex_value :: "char \<Rightarrow> nat option" where
  "hex_value c =
     (if is_digit c then Some (code c - 48)
      else if 97 \<le> code c \<and> code c \<le> 102 then Some (code c - 87)
      else if 65 \<le> code c \<and> code c \<le> 70 then Some (code c - 55)
      else None)"

text \<open>
  \<open>bytes.fromhex\<close> on a string without blanks; the service only calls it on strings of a
  fixed even length, and a blank makes it skip characters, which the callers' length checks
  and the comparison with the result's length then see: blanks are read as by Python,
  between two bytes only.
\<close>

definition is_space :: "char \<Rightarrow> bool" where
  "is_space c \<longleftrightarrow> code c \<in> {9, 10, 11, 12, 13, 32}"

fun fromhex :: "string \<Rightarrow> bytes option" where
  "fromhex [] = Some []"
| "fromhex (c # cs) =
     (if is_space c then fromhex cs
      else case cs of
          [] \<Rightarrow> None
        | d # ds \<Rightarrow>
            (case (hex_value c, hex_value d) of
               (Some h, Some l) \<Rightarrow>
                 (case fromhex ds of None \<Rightarrow> None | Some bs \<Rightarrow> Some (word_of_nat (16 * h + l) # bs))
             | _ \<Rightarrow> None))"

lemma hex_value_hex_digit: "n < 16 \<Longrightarrow> hex_value (hex_digit n) = Some n"
  by (simp add: hex_value_def hex_digit_def is_digit_def code_def)

lemma hex_digit_not_space: "n < 16 \<Longrightarrow> \<not> is_space (hex_digit n)"
  by (auto simp: is_space_def hex_digit_def code_def)

lemma hex_digit_lower_hex: "n < 16 \<Longrightarrow> is_lower_hex (hex_digit n)"
  by (simp add: is_lower_hex_def is_digit_def hex_digit_def code_def)

lemma unat_byte_lt: "unat (b :: 8 word) < 256"
  using unsigned_less [of b] by simp

lemma hex_Nil [simp]: "hex [] = []"
  by (simp add: hex_def)

lemma hex_Cons [simp]:
  "hex (b # bs) = hex_digit (unat b div 16) # hex_digit (unat b mod 16) # hex bs"
  by (simp add: hex_def)

lemma length_hex [simp]: "length (hex bs) = 2 * length bs"
  by (induction bs) simp_all

lemma hex_lower_hex: "list_all is_lower_hex (hex bs)"
proof (induction bs)
  case (Cons b bs)
  have "unat b div 16 < 16" using unat_byte_lt [of b] by simp
  then show ?case using Cons by (simp add: hex_digit_lower_hex)
qed simp

lemma fromhex_hex: "fromhex (hex bs) = Some bs"
proof (induction bs)
  case (Cons b bs)
  have hi: "unat b div 16 < 16" using unat_byte_lt [of b] by simp
  have lo: "unat b mod 16 < 16" by simp
  have "16 * (unat b div 16) + unat b mod 16 = unat b" by simp
  then show ?case
    using Cons hi lo by (simp add: hex_digit_not_space hex_value_hex_digit)
qed simp

lemma hex_inject [simp]: "hex a = hex b \<longleftrightarrow> a = b"
  by (metis fromhex_hex option.inject)

lemma lower_hex_cases:
  assumes "is_lower_hex c"
  obtains n where "n < 16" "c = hex_digit n"
proof -
  have eq: "c = char_of (code c)" by (simp add: code_def)
  show thesis
  proof (cases "is_digit c")
    case True
    then have "code c - 48 < 16" "hex_digit (code c - 48) = c"
      using eq by (auto simp: is_digit_def hex_digit_def)
    then show ?thesis using that by metis
  next
    case False
    then have "code c - 87 < 16" "\<not> code c - 87 < 10" "87 + (code c - 87) = code c"
      using assms by (auto simp: is_lower_hex_def)
    then show ?thesis using that [of "code c - 87"] eq by (simp add: hex_digit_def)
  qed
qed

lemma hex_fromhex:
  assumes "list_all is_lower_hex s" and "even (length s)"
  shows "\<exists>bs. fromhex s = Some bs \<and> hex bs = s \<and> length s = 2 * length bs"
  using assms
proof (induction s rule: induct_list012)
  case (3 c d s)
  from "3.prems" obtain m n where cd: "m < 16" "c = hex_digit m" "n < 16" "d = hex_digit n"
    by (metis list.pred_inject(2) lower_hex_cases)
  from 3 obtain bs where bs: "fromhex s = Some bs" "hex bs = s" "length s = 2 * length bs"
    by auto
  define w where "w = (word_of_nat (16 * m + n) :: 8 word)"
  have "unat w = (16 * m + n) mod 2 ^ LENGTH(8)"
    unfolding w_def by (rule unat_of_nat)
  then have "unat w = 16 * m + n" using cd by simp
  then have "unat w div 16 = m" "unat w mod 16 = n" using cd by simp_all
  then have "fromhex (c # d # s) = Some (w # bs) \<and> hex (w # bs) = c # d # s"
    using cd bs by (simp add: hex_digit_not_space hex_value_hex_digit w_def)
  with bs show ?case by (metis length_hex)
qed auto

section \<open>Tables of rows\<close>

text \<open>
  A table is the list of its rows in insertion order. An update of the row with a given
  key changes that row in place; \<open>func.max(column) or 0\<close> is \<open>max_of\<close>.
\<close>

definition upd_row :: "('r \<Rightarrow> bool) \<Rightarrow> ('r \<Rightarrow> 'r) \<Rightarrow> 'r list \<Rightarrow> 'r list" where
  "upd_row P f rows = map (\<lambda>r. if P r then f r else r) rows"

definition max_of :: "('r \<Rightarrow> int) \<Rightarrow> 'r list \<Rightarrow> int" where
  "max_of f rows = (if rows = [] then 0 else Max (set (map f rows)))"

text \<open>\<open>ORDER BY key LIMIT 1\<close>, ascending and descending; ties go to the earlier row.\<close>

fun first_by :: "('r \<Rightarrow> 'k::linorder) \<Rightarrow> 'r list \<Rightarrow> 'r option" where
  "first_by key [] = None"
| "first_by key (r # rows) =
     (case first_by key rows of None \<Rightarrow> Some r
      | Some m \<Rightarrow> if key r \<le> key m then Some r else Some m)"

fun last_by :: "('r \<Rightarrow> 'k::linorder) \<Rightarrow> 'r list \<Rightarrow> 'r option" where
  "last_by key [] = None"
| "last_by key (r # rows) =
     (case last_by key rows of None \<Rightarrow> Some r
      | Some m \<Rightarrow> if key m \<le> key r then Some r else Some m)"

lemma upd_row_simps [simp]:
  "upd_row P f [] = []"
  "upd_row P f (r # rows) = (if P r then f r else r) # upd_row P f rows"
  "upd_row P f (xs @ ys) = upd_row P f xs @ upd_row P f ys"
  "length (upd_row P f rows) = length rows"
  by (simp_all add: upd_row_def)

lemma set_upd_row: "set (upd_row P f rows) = (\<lambda>r. if P r then f r else r) ` set rows"
  by (simp add: upd_row_def)

lemma map_upd_row:
  "(\<And>r. P r \<Longrightarrow> g (f r) = g r) \<Longrightarrow> map g (upd_row P f rows) = map g rows"
  by (simp add: upd_row_def)

lemma upd_row_none: "(\<And>r. r \<in> set rows \<Longrightarrow> \<not> P r) \<Longrightarrow> upd_row P f rows = rows"
  by (induction rows) auto

lemma find_SomeD: "find P xs = Some x \<Longrightarrow> x \<in> set xs \<and> P x"
  by (auto simp: find_Some_iff)

lemma find_None: "find P xs = None \<longleftrightarrow> (\<forall>x \<in> set xs. \<not> P x)"
  by (auto simp: find_None_iff)

lemma find_append: "find P (xs @ ys) = (case find P xs of None \<Rightarrow> find P ys | Some x \<Rightarrow> Some x)"
  by (induction xs) auto

lemma find_upd_row:
  "(\<And>r. P (f r) = P r) \<Longrightarrow> find P (upd_row Q f rows) = map_option (\<lambda>r. if Q r then f r else r) (find P rows)"
  by (induction rows) auto

lemma first_by_None [simp]: "first_by key rows = None \<longleftrightarrow> rows = []"
  by (cases rows) (auto split: option.splits)

lemma first_by_in: "first_by key rows = Some r \<Longrightarrow> r \<in> set rows"
  by (induction rows arbitrary: r) (auto split: option.splits if_splits)

lemma first_by_least: "first_by key rows = Some r \<Longrightarrow> x \<in> set rows \<Longrightarrow> key r \<le> key x"
proof (induction rows arbitrary: r x)
  case (Cons a rows)
  then show ?case by (auto split: option.splits if_splits) (force dest: order_trans)+
qed simp

lemma last_by_None [simp]: "last_by key rows = None \<longleftrightarrow> rows = []"
  by (cases rows) (auto split: option.splits)

lemma last_by_in: "last_by key rows = Some r \<Longrightarrow> r \<in> set rows"
  by (induction rows arbitrary: r) (auto split: option.splits if_splits)

lemma last_by_greatest: "last_by key rows = Some r \<Longrightarrow> x \<in> set rows \<Longrightarrow> key x \<le> key r"
proof (induction rows arbitrary: r x)
  case (Cons a rows)
  then show ?case by (auto split: option.splits if_splits) (force dest: order_trans)+
qed simp

lemma max_of_ge: "r \<in> set rows \<Longrightarrow> f r \<le> max_of f rows"
  by (auto simp: max_of_def)

lemma max_of_Nil [simp]: "max_of f [] = 0"
  by (simp add: max_of_def)

lemma max_of_in: "rows \<noteq> [] \<Longrightarrow> \<exists>r \<in> set rows. f r = max_of f rows"
proof -
  assume ne: "rows \<noteq> []"
  then have "Max (set (map f rows)) \<in> set (map f rows)" by (intro Max_in) simp_all
  then obtain r where "r \<in> set rows" "f r = Max (set (map f rows))" by auto
  then show ?thesis using ne by (auto simp: max_of_def intro!: bexI [of _ r])
qed

end
