(* ===== verification/Domain.thy ===== *)
theory Domain
  imports Prelude
begin

text \<open>
  The domain layer, \<open>app/domain\<close>: the manifest digest and its hexadecimal form
  (\<open>digest.py\<close>), the three identifier classes with their patterns (\<open>identifiers.py\<close>), and
  the order with its two state machines (\<open>order.py\<close>). A constructor whose
  \<open>__post_init__\<close> raises is a function into \<open>exn + _\<close>. The two transition tables are
  interpretations of one locale of acyclic tables, which gives the bounds on histories.
\<close>

section \<open>digest.py\<close>

type_synonym manifest_digest = bytes

definition ManifestDigest :: "bytes \<Rightarrow> exn + manifest_digest" where
  "ManifestDigest value =
     (if length value \<noteq> 32 then Inl (ValueError ''manifest digest must contain exactly 32 bytes'')
      else Inr value)"

definition LOWER_SHA256 :: "string \<Rightarrow> bool" where
  "LOWER_SHA256 s \<longleftrightarrow> match_class is_lower_hex 64 64 s"

definition digest_from_hex :: "string \<Rightarrow> exn + manifest_digest" where
  "digest_from_hex value =
     (if \<not> LOWER_SHA256 value
      then Inl (ValueError ''manifest digest must be 64 lowercase hexadecimal characters'')
      else case fromhex value of
          None \<Rightarrow> Inl (ValueError ''non-hexadecimal number found in fromhex() arg'')
        | Some bs \<Rightarrow> ManifestDigest bs)"

definition digest_from_bytes :: "bytes \<Rightarrow> exn + manifest_digest" where
  "digest_from_bytes value = ManifestDigest value"

definition digest_hex :: "manifest_digest \<Rightarrow> string" where
  "digest_hex d = hex d"

definition ots_target :: "manifest_digest \<Rightarrow> bytes" where
  "ots_target d = d"

section \<open>identifiers.py\<close>

type_synonym order_reference = string
type_synonym certificate_reference = string

definition CERTIFICATE :: "string \<Rightarrow> bool" where
  "CERTIFICATE s \<longleftrightarrow> match_head is_alnum (\<lambda>c. is_alnum c \<or> c \<in> set ''._:/-'') 127 s"

text \<open>The class \<open>[0-9A-HJKMNP-TV-Z]\<close>: Crockford's base 32 alphabet.\<close>

definition crockford_char :: "char \<Rightarrow> bool" where
  "crockford_char c \<longleftrightarrow> is_digit c \<or> (65 \<le> code c \<and> code c \<le> 72) \<or> c \<in> set ''JKMN'' \<or>
     (80 \<le> code c \<and> code c \<le> 84) \<or> (86 \<le> code c \<and> code c \<le> 90)"

definition ORDER_REFERENCE :: "string \<Rightarrow> bool" where
  "ORDER_REFERENCE s \<longleftrightarrow> take 3 s = ''ts_'' \<and> match_class crockford_char 26 26 (drop 3 s)"

definition OPAQUE_ID :: "string \<Rightarrow> bool" where
  "OPAQUE_ID s \<longleftrightarrow> match_head is_alnum (\<lambda>c. is_alnum c \<or> c \<in> set ''_-'') 127 s"

definition CertificateReference :: "string \<Rightarrow> exn + certificate_reference" where
  "CertificateReference value =
     (if \<not> CERTIFICATE value then Inl (ValueError ''invalid certificate reference'') else Inr value)"

definition OrderReference :: "string \<Rightarrow> exn + order_reference" where
  "OrderReference value =
     (if \<not> ORDER_REFERENCE value then Inl (ValueError ''invalid order reference'') else Inr value)"

definition ProviderReference :: "string \<Rightarrow> exn + string" where
  "ProviderReference value =
     (if \<not> OPAQUE_ID value then Inl (ValueError ''invalid provider reference'') else Inr value)"

section \<open>order.py\<close>

datatype payment_state =
  CHECKOUT_OPEN | PROCESSING | PAID | FAILED | EXPIRED | REFUNDED | DISPUTED

datatype fulfillment_state =
  AWAITING_PAYMENT | QUEUED | STAMPING | CALENDAR_PENDING | BITCOIN_VERIFIED | DELIVERED
| MANUAL_REVIEW

fun payment_value :: "payment_state \<Rightarrow> string" where
  "payment_value CHECKOUT_OPEN = ''checkout_open''"
| "payment_value PROCESSING = ''processing''"
| "payment_value PAID = ''paid''"
| "payment_value FAILED = ''failed''"
| "payment_value EXPIRED = ''expired''"
| "payment_value REFUNDED = ''refunded''"
| "payment_value DISPUTED = ''disputed''"

fun fulfillment_value :: "fulfillment_state \<Rightarrow> string" where
  "fulfillment_value AWAITING_PAYMENT = ''awaiting_payment''"
| "fulfillment_value QUEUED = ''queued''"
| "fulfillment_value STAMPING = ''stamping''"
| "fulfillment_value CALENDAR_PENDING = ''calendar_pending''"
| "fulfillment_value BITCOIN_VERIFIED = ''bitcoin_verified''"
| "fulfillment_value DELIVERED = ''delivered''"
| "fulfillment_value MANUAL_REVIEW = ''manual_review''"

fun payment_transitions :: "payment_state \<Rightarrow> payment_state set" where
  "payment_transitions CHECKOUT_OPEN = {PROCESSING, PAID, FAILED, EXPIRED, REFUNDED, DISPUTED}"
| "payment_transitions PROCESSING = {PAID, FAILED, EXPIRED, REFUNDED, DISPUTED}"
| "payment_transitions PAID = {REFUNDED, DISPUTED}"
| "payment_transitions DISPUTED = {REFUNDED}"
| "payment_transitions FAILED = {}"
| "payment_transitions EXPIRED = {}"
| "payment_transitions REFUNDED = {}"

fun fulfillment_transitions :: "fulfillment_state \<Rightarrow> fulfillment_state set" where
  "fulfillment_transitions AWAITING_PAYMENT = {QUEUED, MANUAL_REVIEW}"
| "fulfillment_transitions QUEUED = {STAMPING, MANUAL_REVIEW}"
| "fulfillment_transitions STAMPING = {CALENDAR_PENDING, MANUAL_REVIEW}"
| "fulfillment_transitions CALENDAR_PENDING = {BITCOIN_VERIFIED, MANUAL_REVIEW}"
| "fulfillment_transitions BITCOIN_VERIFIED = {DELIVERED, MANUAL_REVIEW}"
| "fulfillment_transitions DELIVERED = {MANUAL_REVIEW}"
| "fulfillment_transitions MANUAL_REVIEW = {}"

record order_snapshot =
  snap_order_reference :: order_reference
  snap_certificate_reference :: certificate_reference
  snap_manifest_digest :: manifest_digest
  snap_email :: string
  snap_amount_minor :: int
  snap_currency :: string
  snap_product_version :: string
  snap_payment_mode :: string
  snap_consent_terms_version :: string
  snap_consent_privacy_version :: string
  snap_consent_accepted_at :: datetime

definition OrderSnapshot :: "order_snapshot \<Rightarrow> exn + order_snapshot" where
  "OrderSnapshot s =
     (if \<not> (1 \<le> length (snap_email s) \<and> length (snap_email s) \<le> 254)
      then Inl (ValueError ''email must contain 1 through 254 characters'')
      else if snap_amount_minor s < 0 then Inl (ValueError ''amount cannot be negative'')
      else if length (snap_currency s) \<noteq> 3 \<or> str_lower (snap_currency s) \<noteq> snap_currency s \<or>
              \<not> str_isalpha (snap_currency s)
      then Inl (ValueError ''currency must be a lowercase ISO-style code'')
      else Inr s)"

record order_state =
  st_snapshot :: order_snapshot
  st_payment :: payment_state
  st_fulfillment :: fulfillment_state

text \<open>The defaults of the two state fields.\<close>

definition OrderState :: "order_snapshot \<Rightarrow> order_state" where
  "OrderState snap = \<lparr>st_snapshot = snap, st_payment = CHECKOUT_OPEN, st_fulfillment = AWAITING_PAYMENT\<rparr>"

definition transition_payment :: "order_state \<Rightarrow> payment_state \<Rightarrow> exn + order_state" where
  "transition_payment s target =
     (if target = st_payment s then Inr s
      else if target \<notin> payment_transitions (st_payment s)
      then Inl (ValueError (''illegal payment transition: '' @ payment_value (st_payment s) @ '' -> '' @
                            payment_value target))
      else Inr (s\<lparr>st_payment := target\<rparr>))"

definition transition_fulfillment :: "order_state \<Rightarrow> fulfillment_state \<Rightarrow> exn + order_state" where
  "transition_fulfillment s target =
     (if target = st_fulfillment s then Inr s
      else if target \<notin> fulfillment_transitions (st_fulfillment s)
      then Inl (ValueError (''illegal fulfillment transition: '' @ fulfillment_value (st_fulfillment s) @
                            '' -> '' @ fulfillment_value target))
      else (let starts_fulfillment = (st_fulfillment s = AWAITING_PAYMENT \<and> target = QUEUED)
            in if st_payment s \<noteq> PAID \<and> starts_fulfillment
               then Inl (ValueError ''fulfillment cannot be queued before payment'')
               else Inr (s\<lparr>st_fulfillment := target\<rparr>)))"

section \<open>Acyclic transition tables\<close>

text \<open>
  The contract of a transition table: a rank that every allowed change increases. It bounds
  every history and forbids coming back to a state that was left.
\<close>

locale acyclic_table =
  fixes table :: "'s \<Rightarrow> 's set" and rank :: "'s \<Rightarrow> nat" and height :: nat
  assumes rank_increases: "t \<in> table s \<Longrightarrow> rank s < rank t"
    and rank_bounded: "rank s \<le> height"
begin

lemma reach_rank: "(\<lambda>s t. t \<in> table s)\<^sup>*\<^sup>* s t \<Longrightarrow> rank s \<le> rank t"
  by (induction rule: rtranclp_induct) (auto dest: rank_increases)

lemma no_return: "t \<in> table s \<Longrightarrow> \<not> (\<lambda>s t. t \<in> table s)\<^sup>*\<^sup>* t s"
  using reach_rank rank_increases by (metis not_less)

lemma history_rank:
  "successively (\<lambda>s t. t \<in> table s) (s # hist) \<Longrightarrow> rank s + length hist \<le> height"
proof (induction hist arbitrary: s)
  case Nil
  then show ?case by (simp add: rank_bounded)
next
  case (Cons t hist)
  then have "rank t + length hist \<le> height" "rank s < rank t"
    by (auto simp: rank_increases)
  then show ?case by simp
qed

lemma history_length:
  "successively (\<lambda>s t. t \<in> table s) hist \<Longrightarrow> length hist \<le> Suc height"
proof (cases hist)
  case (Cons s hist')
  assume "successively (\<lambda>s t. t \<in> table s) hist"
  with Cons history_rank [of s hist'] show ?thesis by simp
qed simp

lemma history_distinct: "successively (\<lambda>s t. t \<in> table s) hist \<Longrightarrow> distinct hist"
proof (induction hist)
  case (Cons s hist)
  have later: "rank s < rank t" if "t \<in> set hist" for t
    using Cons.prems that
  proof (induction hist arbitrary: s)
    case (Cons u hist)
    then show ?case by (auto dest: rank_increases intro: less_trans)
  qed simp
  with Cons show ?case by (cases hist) auto
qed simp

end

fun payment_rank :: "payment_state \<Rightarrow> nat" where
  "payment_rank CHECKOUT_OPEN = 0"
| "payment_rank PROCESSING = 1"
| "payment_rank PAID = 2"
| "payment_rank FAILED = 2"
| "payment_rank EXPIRED = 2"
| "payment_rank DISPUTED = 3"
| "payment_rank REFUNDED = 4"

fun fulfillment_rank :: "fulfillment_state \<Rightarrow> nat" where
  "fulfillment_rank AWAITING_PAYMENT = 0"
| "fulfillment_rank QUEUED = 1"
| "fulfillment_rank STAMPING = 2"
| "fulfillment_rank CALENDAR_PENDING = 3"
| "fulfillment_rank BITCOIN_VERIFIED = 4"
| "fulfillment_rank DELIVERED = 5"
| "fulfillment_rank MANUAL_REVIEW = 6"

interpretation payment_table: acyclic_table payment_transitions payment_rank 4
proof
  show "payment_rank s < payment_rank t" if "t \<in> payment_transitions s" for s t
    using that by (cases s) auto
  show "payment_rank s \<le> 4" for s by (cases s) auto
qed

interpretation fulfillment_table: acyclic_table fulfillment_transitions fulfillment_rank 6
proof
  show "fulfillment_rank s < fulfillment_rank t" if "t \<in> fulfillment_transitions s" for s t
    using that by (cases s) auto
  show "fulfillment_rank s \<le> 6" for s by (cases s) auto
qed

section \<open>The order as a state machine\<close>

text \<open>An order moves by its two transition methods, in any order and with any target.\<close>

inductive order_step :: "order_state \<Rightarrow> order_state \<Rightarrow> bool" where
  payment: "transition_payment s target = Inr s' \<Longrightarrow> order_step s s'"
| fulfillment: "transition_fulfillment s target = Inr s' \<Longrightarrow> order_step s s'"

inductive_cases order_stepE: "order_step s s'"

text \<open>The check constraint \<open>ck_orders_paid_before_work\<close> of the orders table.\<close>

definition work_states :: "fulfillment_state set" where
  "work_states = {QUEUED, STAMPING, CALENDAR_PENDING, BITCOIN_VERIFIED, DELIVERED}"

definition settled_payments :: "payment_state set" where
  "settled_payments = {PAID, REFUNDED, DISPUTED}"

definition paid_before_work :: "payment_state \<Rightarrow> fulfillment_state \<Rightarrow> bool" where
  "paid_before_work p f \<longleftrightarrow> f \<notin> work_states \<or> p \<in> settled_payments"

lemmas state_set_defs = work_states_def settled_payments_def paid_before_work_def

lemma transition_payment_Inr:
  "transition_payment s target = Inr s' \<longleftrightarrow>
     s' = s\<lparr>st_payment := target\<rparr> \<and> (target = st_payment s \<or> target \<in> payment_transitions (st_payment s))"
  by (auto simp: transition_payment_def)

lemma transition_fulfillment_Inr:
  "transition_fulfillment s target = Inr s' \<longleftrightarrow>
     s' = s\<lparr>st_fulfillment := target\<rparr> \<and>
     (target = st_fulfillment s \<or>
      target \<in> fulfillment_transitions (st_fulfillment s) \<and>
      \<not> (st_fulfillment s = AWAITING_PAYMENT \<and> target = QUEUED \<and> st_payment s \<noteq> PAID))"
  by (auto simp: transition_fulfillment_def Let_def)

lemma payment_stays_settled:
  "p \<in> settled_payments \<Longrightarrow> q \<in> payment_transitions p \<Longrightarrow> q \<in> settled_payments"
  by (cases p) (auto simp: settled_payments_def)

lemma work_entered_from:
  "g \<in> fulfillment_transitions f \<Longrightarrow> g \<in> work_states \<Longrightarrow> f \<in> work_states \<or> f = AWAITING_PAYMENT \<and> g = QUEUED"
  by (cases f) (auto simp: work_states_def)

lemma paid_before_work_payment:
  "paid_before_work p f \<Longrightarrow> q \<in> payment_transitions p \<Longrightarrow> paid_before_work q f"
  using payment_stays_settled by (auto simp: paid_before_work_def)

lemma paid_before_work_fulfillment:
  assumes "paid_before_work p f" and "g \<in> fulfillment_transitions f"
    and "\<not> (f = AWAITING_PAYMENT \<and> g = QUEUED \<and> p \<noteq> PAID)"
  shows "paid_before_work p g"
  using assms work_entered_from by (auto simp: paid_before_work_def settled_payments_def)

lemma order_step_paid_before_work:
  assumes "order_step s s'" and "paid_before_work (st_payment s) (st_fulfillment s)"
  shows "paid_before_work (st_payment s') (st_fulfillment s')"
  using assms
  by (elim order_stepE)
    (auto simp: transition_payment_Inr transition_fulfillment_Inr
      intro: paid_before_work_payment paid_before_work_fulfillment)

lemma order_step_snapshot: "order_step s s' \<Longrightarrow> st_snapshot s' = st_snapshot s"
  by (elim order_stepE) (auto simp: transition_payment_Inr transition_fulfillment_Inr)

lemma order_step_fulfillment:
  "order_step s s' \<Longrightarrow>
     st_fulfillment s' = st_fulfillment s \<or> st_fulfillment s' \<in> fulfillment_transitions (st_fulfillment s)"
  by (elim order_stepE) (auto simp: transition_payment_Inr transition_fulfillment_Inr)

section \<open>Properties\<close>

text \<open>The textual form of a digest loses nothing: \<open>from_hex\<close> accepts exactly the strings
  of 64 lowercase hexadecimal characters, the digest it returns has 32 bytes and prints back
  to the same text, and every digest is read back from its own text.\<close>

theorem digest_hex_roundtrip:
  "(digest_from_hex s = Inr d) \<longleftrightarrow> (ManifestDigest d = Inr d \<and> digest_hex d = s)"
proof
  assume "digest_from_hex s = Inr d"
  then have s: "LOWER_SHA256 s" and f: "(case fromhex s of None \<Rightarrow> Inl (ValueError
      ''non-hexadecimal number found in fromhex() arg'') | Some bs \<Rightarrow> ManifestDigest bs) = Inr d"
    by (auto simp: digest_from_hex_def split: if_splits)
  obtain bs where bs: "fromhex s = Some bs" "hex bs = s" "length s = 2 * length bs"
    using s hex_fromhex [of s] by (auto simp: LOWER_SHA256_def match_class_def)
  then have "length bs = 32" using s by (auto simp: LOWER_SHA256_def match_class_def)
  with bs f show "ManifestDigest d = Inr d \<and> digest_hex d = s"
    by (auto simp: ManifestDigest_def digest_hex_def)
next
  assume "ManifestDigest d = Inr d \<and> digest_hex d = s"
  then have d: "length d = 32" "hex d = s"
    by (auto simp: ManifestDigest_def digest_hex_def split: if_splits)
  then have "LOWER_SHA256 s"
    using hex_lower_hex [of d] length_hex [of d] by (simp add: LOWER_SHA256_def match_class_def)
  with d fromhex_hex [of d] show "digest_from_hex s = Inr d"
    by (simp add: digest_from_hex_def ManifestDigest_def)
qed

text \<open>C5. Whatever sequence of payment and fulfillment transitions an order goes through from
  the state a checkout creates, work is only ever in progress on an order whose payment is
  paid, refunded or disputed, and its snapshot is the one it was created with.\<close>

theorem order_paid_before_work:
  assumes "order_step\<^sup>*\<^sup>* (OrderState snap) s"
  shows "paid_before_work (st_payment s) (st_fulfillment s) \<and> st_snapshot s = snap"
  using assms
proof (induction rule: rtranclp_induct)
  case base
  show ?case by (simp add: OrderState_def state_set_defs)
next
  case (step s s')
  then show ?case using order_step_paid_before_work order_step_snapshot by metis
qed

text \<open>An order's fulfillment never comes back to a state it left, and goes through at most
  seven states: every history of changes the table allows is free of repetitions, at most
  seven states long, and \<open>manual_review\<close> ends it.\<close>

theorem fulfillment_history:
  "successively (\<lambda>s t. t \<in> fulfillment_transitions s) hist \<Longrightarrow>
     distinct hist \<and> length hist \<le> 7 \<and> MANUAL_REVIEW \<notin> set (butlast hist)"
proof (intro conjI)
  assume h: "successively (\<lambda>s t. t \<in> fulfillment_transitions s) hist"
  show "distinct hist" using h by (rule fulfillment_table.history_distinct)
  show "length hist \<le> 7" using fulfillment_table.history_length [OF h] by simp
  show "MANUAL_REVIEW \<notin> set (butlast hist)"
    using h by (induction hist rule: induct_list012) auto
qed

section \<open>Witnesses\<close>

text \<open>A concrete snapshot and the history of an order that is paid, refunded while the work is
  in progress, and delivered.\<close>

definition sample_snapshot :: order_snapshot where
  "sample_snapshot = \<lparr>snap_order_reference = ''ts_01K1EXAMPLE0000000000000AB'',
     snap_certificate_reference = ''COA-1'', snap_manifest_digest = replicate 32 7,
     snap_email = ''a@b.c'', snap_amount_minor = 500, snap_currency = ''usd'',
     snap_product_version = ''v1'', snap_payment_mode = ''stripe_test'',
     snap_consent_terms_version = ''t1'', snap_consent_privacy_version = ''p1'',
     snap_consent_accepted_at = Aware 0\<rparr>"

theorem order_paid_before_work_witness:
  "order_step\<^sup>*\<^sup>* (OrderState sample_snapshot)
     \<lparr>st_snapshot = sample_snapshot, st_payment = REFUNDED, st_fulfillment = QUEUED\<rparr> \<and>
   paid_before_work REFUNDED QUEUED"
proof -
  let ?s = "\<lambda>p f. \<lparr>st_snapshot = sample_snapshot, st_payment = p, st_fulfillment = f\<rparr>"
  have "order_step (?s CHECKOUT_OPEN AWAITING_PAYMENT) (?s PAID AWAITING_PAYMENT)"
    by (rule order_step.payment [of _ PAID]) (simp add: transition_payment_def)
  moreover have "order_step (?s PAID AWAITING_PAYMENT) (?s PAID QUEUED)"
    by (rule order_step.fulfillment [of _ QUEUED]) (simp add: transition_fulfillment_def)
  moreover have "order_step (?s PAID QUEUED) (?s REFUNDED QUEUED)"
    by (rule order_step.payment [of _ REFUNDED]) (simp add: transition_payment_def)
  ultimately have r: "order_step\<^sup>*\<^sup>* (OrderState sample_snapshot) (?s REFUNDED QUEUED)"
    by (auto simp: OrderState_def)
  from order_paid_before_work [OF r] r show ?thesis by simp
qed

theorem fulfillment_history_witness:
  "distinct [AWAITING_PAYMENT, QUEUED, STAMPING, CALENDAR_PENDING, BITCOIN_VERIFIED, DELIVERED, MANUAL_REVIEW]
   \<and> length [AWAITING_PAYMENT, QUEUED, STAMPING, CALENDAR_PENDING, BITCOIN_VERIFIED, DELIVERED, MANUAL_REVIEW] \<le> 7"
  using fulfillment_history
    [of "[AWAITING_PAYMENT, QUEUED, STAMPING, CALENDAR_PENDING, BITCOIN_VERIFIED, DELIVERED, MANUAL_REVIEW]"]
  by simp

end
