(* ===== verification/Proof_Store.thy ===== *)
theory Proof_Store
  imports Domain
begin

text \<open>
  Proofs and their evidence: the result of a Bitcoin verification (\<open>ports/bitcoin.py\<close>), the
  stored proof (\<open>ports/proof.py\<close>), the structural validation of a detached OpenTimestamps
  proof (\<open>timestamping/detached.py\<close>) and the append-only proof store
  (\<open>proofs/store.py\<close>), whose contract is the locale \<open>proof_store\<close>.

  SHA-256 is a parameter \<open>sha\<close>. The \<open>opentimestamps\<close> package is not part of the
  repository: its parser and the application of an operation to a message are the
  parameters \<open>parse\<close> and \<open>apply_op\<close>; the datatypes below have the parts of its objects the
  service reads, and nothing is assumed about the parameters.
\<close>

section \<open>ports/bitcoin.py\<close>

record bitcoin_verification =
  bv_verified :: bool
  bv_method :: string
  bv_verified_at :: "datetime option"
  bv_block_height :: "int option"
  bv_block_hash :: "string option"
  bv_block_time :: "datetime option"
  bv_confirmation_policy :: "string option"
  bv_confirmations :: "int option"

definition metadata_present :: "bitcoin_verification \<Rightarrow> bool list" where
  "metadata_present v = [bv_verified_at v \<noteq> None, bv_block_height v \<noteq> None, bv_block_hash v \<noteq> None,
     bv_block_time v \<noteq> None, bv_confirmation_policy v \<noteq> None]"

definition BitcoinVerification :: "bitcoin_verification \<Rightarrow> exn + bitcoin_verification" where
  "BitcoinVerification v =
     (if bv_verified v \<and> False \<in> set (metadata_present v)
      then Inl (ValueError ''verified Bitcoin result requires complete metadata'')
      else if \<not> bv_verified v \<and> True \<in> set (metadata_present v)
      then Inl (ValueError ''unverified Bitcoin result cannot carry confirmation metadata'')
      else if bv_verified v \<and> (case bv_confirmations v of None \<Rightarrow> True | Some n \<Rightarrow> n < 1)
      then Inl (ValueError ''verified Bitcoin result requires at least one confirmation'')
      else if \<not> bv_verified v \<and> (case bv_confirmations v of None \<Rightarrow> False | Some n \<Rightarrow> n < 0)
      then Inl (ValueError ''Bitcoin confirmation count is invalid'')
      else Inr v)"

definition unverified :: "string \<Rightarrow> int option \<Rightarrow> bitcoin_verification" where
  "unverified method confirmations = \<lparr>bv_verified = False, bv_method = method, bv_verified_at = None,
     bv_block_height = None, bv_block_hash = None, bv_block_time = None,
     bv_confirmation_policy = None, bv_confirmations = confirmations\<rparr>"

definition disabled_verify_exact_digest :: "manifest_digest \<Rightarrow> bytes \<Rightarrow> exn + bitcoin_verification" where
  "disabled_verify_exact_digest digest proof_bytes = BitcoinVerification (unverified ''disabled'' None)"

lemma BitcoinVerification_Inr:
  "BitcoinVerification v = Inr w \<longleftrightarrow> w = v \<and>
     (if bv_verified v
      then (\<exists>vat height bhash time policy n. bv_verified_at v = Some vat \<and> bv_block_height v = Some height \<and>
              bv_block_hash v = Some bhash \<and> bv_block_time v = Some time \<and>
              bv_confirmation_policy v = Some policy \<and> bv_confirmations v = Some n \<and> 1 \<le> n)
      else bv_verified_at v = None \<and> bv_block_height v = None \<and> bv_block_hash v = None \<and>
           bv_block_time v = None \<and> bv_confirmation_policy v = None \<and>
           (\<forall>n. bv_confirmations v = Some n \<longrightarrow> 0 \<le> n))"
  by (auto simp: BitcoinVerification_def metadata_present_def split: if_splits option.splits)

section \<open>ports/proof.py\<close>

definition MAX_PROOF_BYTES :: nat where "MAX_PROOF_BYTES = 262144"

datatype proof_state = PS_CALENDAR_PENDING | PS_BITCOIN_VERIFIED

fun proof_state_value :: "proof_state \<Rightarrow> string" where
  "proof_state_value PS_CALENDAR_PENDING = ''calendar_pending''"
| "proof_state_value PS_BITCOIN_VERIFIED = ''bitcoin_verified''"

record stored_proof =
  sp_order_reference :: order_reference
  sp_version :: int
  sp_target_digest :: manifest_digest
  sp_proof_bytes :: bytes
  sp_proof_sha256 :: bytes
  sp_proof_state :: proof_state
  sp_calendar_submitted_at :: datetime
  sp_verification :: "bitcoin_verification option"

text \<open>The shape of a block hash both validators ask for.\<close>

definition valid_block_hash :: "string \<Rightarrow> bool" where
  "valid_block_hash h \<longleftrightarrow> length h = 64 \<and> str_lower h = h \<and> fromhex h \<noteq> None"

definition validate_verification :: "bitcoin_verification \<Rightarrow> exn + unit" where
  "validate_verification v =
     (if (case bv_verified_at v of None \<Rightarrow> True | Some t \<Rightarrow> \<not> is_aware t) \<or>
         (case bv_block_time v of None \<Rightarrow> True | Some t \<Rightarrow> \<not> is_aware t)
      then Inl (ValueError ''verification_timestamps_must_be_timezone_aware'')
      else if (case bv_block_height v of None \<Rightarrow> True | Some h \<Rightarrow> h < 0)
      then Inl (ValueError ''verification_block_height_invalid'')
      else if (case bv_block_hash v of None \<Rightarrow> True | Some h \<Rightarrow> \<not> valid_block_hash h)
      then Inl (ValueError ''verification_block_hash_invalid'')
      else if \<not> (1 \<le> length (bv_method v) \<and> length (bv_method v) \<le> 128) \<or>
              (case bv_confirmation_policy v of None \<Rightarrow> True | Some p \<Rightarrow> p = [] \<or> 128 < length p)
      then Inl (ValueError ''verification_method_or_policy_invalid'')
      else Inr ())"

definition StoredProof :: "(bytes \<Rightarrow> bytes) \<Rightarrow> stored_proof \<Rightarrow> exn + stored_proof" where
  "StoredProof sha p =
     (if sp_version p < 1 then Inl (ValueError ''proof_version_must_be_positive'')
      else if \<not> (1 \<le> length (sp_proof_bytes p) \<and> length (sp_proof_bytes p) \<le> MAX_PROOF_BYTES)
      then Inl (ValueError ''proof_size_invalid'')
      else if sha (sp_proof_bytes p) \<noteq> sp_proof_sha256 p then Inl (ValueError ''proof_checksum_mismatch'')
      else if \<not> is_aware (sp_calendar_submitted_at p)
      then Inl (ValueError ''calendar_submission_time_must_be_timezone_aware'')
      else case sp_proof_state p of
          PS_CALENDAR_PENDING \<Rightarrow>
            (if sp_verification p \<noteq> None then Inl (ValueError ''pending_proof_cannot_carry_verification'')
             else Inr p)
        | PS_BITCOIN_VERIFIED \<Rightarrow>
            (case sp_verification p of
               None \<Rightarrow> Inl (ValueError ''verified_proof_requires_complete_verification'')
             | Some v \<Rightarrow>
                 (if \<not> bv_verified v
                  then Inl (ValueError ''verified_proof_requires_complete_verification'')
                  else bind_res (validate_verification v) (\<lambda>_. Inr p))))"

definition proof_byte_length :: "stored_proof \<Rightarrow> nat" where
  "proof_byte_length p = length (sp_proof_bytes p)"

lemma StoredProof_Inr_same: "StoredProof sha p = Inr q \<Longrightarrow> q = p"
  by (auto simp: StoredProof_def bind_res_Inr_iff split: if_splits proof_state.splits option.splits)

lemma StoredProof_InrD:
  "StoredProof sha p = Inr q \<Longrightarrow>
     1 \<le> sp_version p \<and> 1 \<le> length (sp_proof_bytes p) \<and> length (sp_proof_bytes p) \<le> MAX_PROOF_BYTES \<and>
     sha (sp_proof_bytes p) = sp_proof_sha256 p \<and> is_aware (sp_calendar_submitted_at p) \<and>
     (sp_proof_state p = PS_CALENDAR_PENDING \<longleftrightarrow> sp_verification p = None)"
  by (auto simp: StoredProof_def bind_res_Inr_iff split: if_splits proof_state.splits option.splits)

section \<open>timestamping/detached.py\<close>

datatype attestation =
    PendingAttestation string
  | BitcoinBlockHeaderAttestation int
  | UnknownAttestation

datatype ots_op = OpAppend bytes | OpPrepend bytes | OpSHA256 | OtherOp

datatype timestamp =
  Timestamp (ts_msg: bytes) (ts_attestations: "attestation list") (ts_ops: "(ots_op \<times> timestamp) list")

record detached_file =
  df_file_hash_op :: ots_op
  df_file_digest :: bytes
  df_timestamp :: timestamp

definition MAX_TIMESTAMP_NODES :: nat where "MAX_TIMESTAMP_NODES = 256"
definition MAX_OPERATIONS :: nat where "MAX_OPERATIONS = 255"
definition MAX_ATTESTATIONS :: nat where "MAX_ATTESTATIONS = 256"
definition MAX_PENDING_ATTESTATIONS :: nat where "MAX_PENDING_ATTESTATIONS = 16"
definition MAX_OPERATION_ARGUMENT_BYTES :: nat where "MAX_OPERATION_ARGUMENT_BYTES = 64"

text \<open>
  The loop of \<open>validate_timestamp_tree\<close>: the inner loop over the attestations of a node
  with the two counters, the inner loop over its operations with the counter and the stack,
  and the outer loop over the stack. The head of the list is the top of the stack: \<open>pop()\<close>
  takes it, \<open>append\<close> puts the child there.
\<close>

fun check_attestations :: "attestation list \<Rightarrow> nat \<Rightarrow> nat \<Rightarrow> exn + nat \<times> nat" where
  "check_attestations [] atts pend = Inr (atts, pend)"
| "check_attestations (a # as) atts pend =
     (let atts = atts + 1 in
      if MAX_ATTESTATIONS < atts then Inl (ProofValidationError ''proof_attestation_limit_exceeded'')
      else case a of
          PendingAttestation _ \<Rightarrow>
            (let pend = pend + 1 in
             if MAX_PENDING_ATTESTATIONS < pend
             then Inl (ProofValidationError ''proof_pending_attestation_limit_exceeded'')
             else check_attestations as atts pend)
        | BitcoinBlockHeaderAttestation _ \<Rightarrow> check_attestations as atts pend
        | UnknownAttestation \<Rightarrow> Inl (ProofValidationError ''proof_attestation_type_unsupported''))"

fun operation_argument_ok :: "ots_op \<Rightarrow> bool" where
  "operation_argument_ok (OpAppend arg) = (1 \<le> length arg \<and> length arg \<le> MAX_OPERATION_ARGUMENT_BYTES)"
| "operation_argument_ok (OpPrepend arg) = (1 \<le> length arg \<and> length arg \<le> MAX_OPERATION_ARGUMENT_BYTES)"
| "operation_argument_ok _ = True"

fun check_operations ::
  "(ots_op \<Rightarrow> bytes \<Rightarrow> bytes) \<Rightarrow> bytes \<Rightarrow> (ots_op \<times> timestamp) list \<Rightarrow> nat \<Rightarrow> timestamp list
     \<Rightarrow> exn + nat \<times> timestamp list" where
  "check_operations apply_op msg [] nops stack = Inr (nops, stack)"
| "check_operations apply_op msg ((op, child) # ops) nops stack =
     (let nops = nops + 1 in
      if MAX_OPERATIONS < nops then Inl (ProofValidationError ''proof_operation_limit_exceeded'')
      else if op = OtherOp then Inl (ProofValidationError ''proof_operation_unsupported'')
      else if \<not> operation_argument_ok op then Inl (ProofValidationError ''proof_operation_argument_invalid'')
      else if ts_msg child \<noteq> apply_op op msg
      then Inl (ProofValidationError ''proof_operation_result_mismatch'')
      else check_operations apply_op msg ops nops (child # stack))"

fun node_count :: "timestamp \<Rightarrow> nat" where
  "node_count (Timestamp msg atts ops) = Suc (sum_list (map (\<lambda>(op, child). node_count child) ops))"

lemma node_count_children:
  "node_count t = Suc (sum_list (map (\<lambda>(op, child). node_count child) (ts_ops t)))"
  by (cases t) simp

lemma check_operations_size:
  "check_operations apply_op msg ops nops stack = Inr (nops', stack') \<Longrightarrow>
     sum_list (map node_count stack') =
     sum_list (map node_count stack) + sum_list (map (\<lambda>(op, child). node_count child) ops)"
  by (induction ops arbitrary: nops stack) (auto simp: Let_def split: if_splits)

lemma check_operations_less:
  "check_operations apply_op (ts_msg t) (ts_ops t) nops stack = Inr (nops', stack') \<Longrightarrow>
     sum_list (map node_count stack') < node_count t + sum_list (map node_count stack)"
  by (simp add: check_operations_size node_count_children [of t])

function validate_loop ::
  "(ots_op \<Rightarrow> bytes \<Rightarrow> bytes) \<Rightarrow> timestamp list \<Rightarrow> nat \<Rightarrow> nat \<Rightarrow> nat \<Rightarrow> nat
     \<Rightarrow> exn + nat \<times> nat \<times> nat \<times> nat" where
  "validate_loop apply_op [] nodes nops atts pend = Inr (nodes, nops, atts, pend)"
| "validate_loop apply_op (t # stack) nodes nops atts pend =
     (if MAX_TIMESTAMP_NODES < nodes + 1 then Inl (ProofValidationError ''proof_node_limit_exceeded'')
      else case check_attestations (ts_attestations t) atts pend of
          Inl e \<Rightarrow> Inl e
        | Inr (atts', pend') \<Rightarrow>
            (case check_operations apply_op (ts_msg t) (ts_ops t) nops stack of
               Inl e \<Rightarrow> Inl e
             | Inr (nops', stack') \<Rightarrow> validate_loop apply_op stack' (nodes + 1) nops' atts' pend'))"
  by pat_completeness auto
termination
  by (relation "measure (\<lambda>(apply_op, stack, _). sum_list (map node_count stack))")
    (auto dest!: check_operations_less)

definition validate_timestamp_tree ::
  "(ots_op \<Rightarrow> bytes \<Rightarrow> bytes) \<Rightarrow> timestamp \<Rightarrow> exn + nat \<times> nat \<times> nat \<times> nat" where
  "validate_timestamp_tree apply_op timestamp = validate_loop apply_op [timestamp] 0 0 0 0"

record parsed_proof =
  pp_detached :: detached_file
  pp_node_count :: nat
  pp_operation_count :: nat
  pp_attestation_count :: nat
  pp_pending_attestation_count :: nat

definition deserialize_exact_proof ::
  "(bytes \<Rightarrow> bytes) \<Rightarrow> (ots_op \<Rightarrow> bytes \<Rightarrow> bytes) \<Rightarrow> (bytes \<Rightarrow> detached_file option)
     \<Rightarrow> manifest_digest \<Rightarrow> bytes \<Rightarrow> bytes option \<Rightarrow> exn + parsed_proof" where
  "deserialize_exact_proof sha apply_op parse digest proof_bytes expected_sha256 =
     (if proof_bytes = [] \<or> MAX_PROOF_BYTES < length proof_bytes
      then Inl (ProofValidationError ''proof_size_invalid'')
      else if (case expected_sha256 of None \<Rightarrow> False
               | Some expected \<Rightarrow> length expected \<noteq> 32 \<or> sha proof_bytes \<noteq> expected)
      then Inl (ProofValidationError ''proof_checksum_mismatch'')
      else case parse proof_bytes of
          None \<Rightarrow> Inl (ProofValidationError ''proof_deserialization_failed'')
        | Some detached \<Rightarrow>
            (if df_file_hash_op detached \<noteq> OpSHA256
             then Inl (ProofValidationError ''proof_hash_operation_mismatch'')
             else if df_file_digest detached \<noteq> ots_target digest
             then Inl (ProofValidationError ''proof_target_mismatch'')
             else bind_res (validate_timestamp_tree apply_op (df_timestamp detached))
               (\<lambda>(nodes, nops, atts, pend). Inr \<lparr>pp_detached = detached, pp_node_count = nodes,
                  pp_operation_count = nops, pp_attestation_count = atts,
                  pp_pending_attestation_count = pend\<rparr>)))"

definition validate_exact_proof ::
  "(bytes \<Rightarrow> bytes) \<Rightarrow> (ots_op \<Rightarrow> bytes \<Rightarrow> bytes) \<Rightarrow> (bytes \<Rightarrow> detached_file option)
     \<Rightarrow> manifest_digest \<Rightarrow> bytes \<Rightarrow> bytes option \<Rightarrow> exn + unit" where
  "validate_exact_proof sha apply_op parse digest proof_bytes expected_sha256 =
     bind_res (deserialize_exact_proof sha apply_op parse digest proof_bytes expected_sha256) (\<lambda>_. Inr ())"

text \<open>\<open>serialize_detached\<close> with the package's serializer as the parameter \<open>serialize\<close>.\<close>

definition serialize_detached ::
  "(ots_op \<Rightarrow> bytes \<Rightarrow> bytes) \<Rightarrow> (detached_file \<Rightarrow> bytes) \<Rightarrow> detached_file \<Rightarrow> exn + bytes" where
  "serialize_detached apply_op serialize detached =
     bind_res (validate_timestamp_tree apply_op (df_timestamp detached)) (\<lambda>_.
       let proof_bytes = serialize detached in
       if proof_bytes = [] \<or> MAX_PROOF_BYTES < length proof_bytes
       then Inl (ProofValidationError ''proof_size_invalid'') else Inr proof_bytes)"

definition new_detached_exact_digest :: "manifest_digest \<Rightarrow> detached_file" where
  "new_detached_exact_digest digest = \<lparr>df_file_hash_op = OpSHA256, df_file_digest = ots_target digest,
     df_timestamp = Timestamp (ots_target digest) [] []\<rparr>"

section \<open>What the tree validation accepts\<close>

text \<open>The reference: the same conditions by recursion on the tree, and the four counts.\<close>

definition attestation_ok :: "attestation \<Rightarrow> bool" where
  "attestation_ok a \<longleftrightarrow> a \<noteq> UnknownAttestation"

fun is_pending :: "attestation \<Rightarrow> bool" where
  "is_pending (PendingAttestation _) = True"
| "is_pending _ = False"

fun tree_ok :: "(ots_op \<Rightarrow> bytes \<Rightarrow> bytes) \<Rightarrow> timestamp \<Rightarrow> bool" where
  "tree_ok apply_op (Timestamp msg atts ops) \<longleftrightarrow>
     list_all attestation_ok atts \<and>
     (\<forall>(op, child) \<in> set ops. op \<noteq> OtherOp \<and> operation_argument_ok op \<and>
        ts_msg child = apply_op op msg \<and> tree_ok apply_op child)"

fun operation_count :: "timestamp \<Rightarrow> nat" where
  "operation_count (Timestamp msg atts ops) =
     length ops + sum_list (map (\<lambda>(op, child). operation_count child) ops)"

fun attestation_count :: "timestamp \<Rightarrow> nat" where
  "attestation_count (Timestamp msg atts ops) =
     length atts + sum_list (map (\<lambda>(op, child). attestation_count child) ops)"

fun pending_count :: "timestamp \<Rightarrow> nat" where
  "pending_count (Timestamp msg atts ops) =
     length (filter is_pending atts) + sum_list (map (\<lambda>(op, child). pending_count child) ops)"

text \<open>Sums over a work list, so that the loop's invariant can be stated for any stack.\<close>

definition over :: "(timestamp \<Rightarrow> nat) \<Rightarrow> timestamp list \<Rightarrow> nat" where
  "over f stack = sum_list (map f stack)"

lemma over_simps [simp]: "over f [] = 0" "over f (t # stack) = f t + over f stack"
  by (simp_all add: over_def)

lemma check_attestations_Inr:
  "atts \<le> MAX_ATTESTATIONS \<Longrightarrow> pend \<le> MAX_PENDING_ATTESTATIONS \<Longrightarrow>
   check_attestations as atts pend = Inr (atts', pend') \<longleftrightarrow>
     list_all attestation_ok as \<and> atts' = atts + length as \<and> pend' = pend + length (filter is_pending as) \<and>
     atts' \<le> MAX_ATTESTATIONS \<and> pend' \<le> MAX_PENDING_ATTESTATIONS"
proof (induction as arbitrary: atts pend)
  case (Cons a as)
  show ?case
    using Cons.prems Cons.IH [of "atts + 1" pend] Cons.IH [of "atts + 1" "pend + 1"]
    by (cases a) (auto simp: Let_def attestation_ok_def)
qed auto

lemma check_operations_Inr:
  "nops \<le> MAX_OPERATIONS \<Longrightarrow>
   check_operations apply_op msg ops nops stack = Inr (nops', stack') \<longleftrightarrow>
     (\<forall>(op, child) \<in> set ops. op \<noteq> OtherOp \<and> operation_argument_ok op \<and> ts_msg child = apply_op op msg) \<and>
     nops' = nops + length ops \<and> stack' = rev (map snd ops) @ stack \<and> nops' \<le> MAX_OPERATIONS"
proof (induction ops arbitrary: nops stack)
  case (Cons p ops)
  obtain op child where p: "p = (op, child)" by (cases p)
  show ?case
    using Cons.prems Cons.IH [of "nops + 1" "child # stack"]
    by (auto simp: p Let_def)
qed auto

lemma over_children:
  "over f (rev (map snd ops) @ stack) = sum_list (map (\<lambda>(op, child). f child) ops) + over f stack"
  by (induction ops arbitrary: stack) (auto simp: over_def case_prod_beta)

lemma tree_ok_children:
  "tree_ok apply_op t \<longleftrightarrow> list_all attestation_ok (ts_attestations t) \<and>
     (\<forall>(op, child) \<in> set (ts_ops t). op \<noteq> OtherOp \<and> operation_argument_ok op \<and>
        ts_msg child = apply_op op (ts_msg t)) \<and>
     list_all (tree_ok apply_op) (rev (map snd (ts_ops t)))"
  by (cases t) (auto simp: list_all_iff)

lemma counts_unfold:
  "node_count t = 1 + sum_list (map (\<lambda>(op, child). node_count child) (ts_ops t))"
  "operation_count t = length (ts_ops t) + sum_list (map (\<lambda>(op, child). operation_count child) (ts_ops t))"
  "attestation_count t =
     length (ts_attestations t) + sum_list (map (\<lambda>(op, child). attestation_count child) (ts_ops t))"
  "pending_count t = length (filter is_pending (ts_attestations t)) +
     sum_list (map (\<lambda>(op, child). pending_count child) (ts_ops t))"
  by (cases t; simp)+


text \<open>The loop on any work list: it adds what the work list still holds to its counters.\<close>

lemma validate_loop_Inr:
  assumes "nodes \<le> MAX_TIMESTAMP_NODES" "nops \<le> MAX_OPERATIONS" "atts \<le> MAX_ATTESTATIONS"
    "pend \<le> MAX_PENDING_ATTESTATIONS"
  shows "validate_loop apply_op stack nodes nops atts pend = Inr (n, m, a, p) \<longleftrightarrow>
     list_all (tree_ok apply_op) stack \<and>
     n = nodes + over node_count stack \<and> m = nops + over operation_count stack \<and>
     a = atts + over attestation_count stack \<and> p = pend + over pending_count stack \<and>
     n \<le> MAX_TIMESTAMP_NODES \<and> m \<le> MAX_OPERATIONS \<and> a \<le> MAX_ATTESTATIONS \<and>
     p \<le> MAX_PENDING_ATTESTATIONS"
  using assms
proof (induction apply_op stack nodes nops atts pend rule: validate_loop.induct)
  case (1 apply_op nodes nops atts pend)
  then show ?case by auto
next
  case (2 apply_op t stack nodes nops atts pend)
  define atts' where "atts' = atts + length (ts_attestations t)"
  define pend' where "pend' = pend + length (filter is_pending (ts_attestations t))"
  define nops' where "nops' = nops + length (ts_ops t)"
  define stack' where "stack' = rev (map snd (ts_ops t)) @ stack"
  define okA where "okA \<longleftrightarrow> list_all attestation_ok (ts_attestations t) \<and>
     atts' \<le> MAX_ATTESTATIONS \<and> pend' \<le> MAX_PENDING_ATTESTATIONS"
  define okO where "okO \<longleftrightarrow> (\<forall>(op, child) \<in> set (ts_ops t). op \<noteq> OtherOp \<and>
     operation_argument_ok op \<and> ts_msg child = apply_op op (ts_msg t)) \<and> nops' \<le> MAX_OPERATIONS"
  have A: "check_attestations (ts_attestations t) atts pend = Inr (x, y) \<longleftrightarrow> okA \<and> x = atts' \<and> y = pend'"
    for x y using "2.prems" by (auto simp: check_attestations_Inr okA_def atts'_def pend'_def)
  have O: "check_operations apply_op (ts_msg t) (ts_ops t) nops stack = Inr (x, y) \<longleftrightarrow>
      okO \<and> x = nops' \<and> y = stack'"
    for x y using "2.prems" by (auto simp: check_operations_Inr okO_def nops'_def stack'_def)
  have unfold: "validate_loop apply_op (t # stack) nodes nops atts pend = Inr (n, m, a, p) \<longleftrightarrow>
      nodes + 1 \<le> MAX_TIMESTAMP_NODES \<and> okA \<and> okO \<and>
      validate_loop apply_op stack' (nodes + 1) nops' atts' pend' = Inr (n, m, a, p)"
  proof (cases "okA \<and> okO")
    case True
    then have "check_attestations (ts_attestations t) atts pend = Inr (atts', pend')"
      "check_operations apply_op (ts_msg t) (ts_ops t) nops stack = Inr (nops', stack')"
      using A O by simp_all
    with True show ?thesis by auto
  next
    case False
    then show ?thesis using A O by (auto split: sum.splits)
  qed
  have sums: "over node_count stack' + 1 = over node_count (t # stack)"
    "length (ts_ops t) + over operation_count stack' = over operation_count (t # stack)"
    "length (ts_attestations t) + over attestation_count stack' = over attestation_count (t # stack)"
    "length (filter is_pending (ts_attestations t)) + over pending_count stack' =
       over pending_count (t # stack)"
    by (simp_all add: stack'_def over_children counts_unfold [of t])
  have oks: "list_all (tree_ok apply_op) (t # stack) \<longleftrightarrow>
      list_all attestation_ok (ts_attestations t) \<and>
      (\<forall>(op, child) \<in> set (ts_ops t). op \<noteq> OtherOp \<and> operation_argument_ok op \<and>
        ts_msg child = apply_op op (ts_msg t)) \<and> list_all (tree_ok apply_op) stack'"
    by (auto simp: stack'_def tree_ok_children [of apply_op t])
  have IH: "validate_loop apply_op stack' (nodes + 1) nops' atts' pend' = Inr (n, m, a, p) \<longleftrightarrow>
     list_all (tree_ok apply_op) stack' \<and>
     n = nodes + 1 + over node_count stack' \<and> m = nops' + over operation_count stack' \<and>
     a = atts' + over attestation_count stack' \<and> p = pend' + over pending_count stack' \<and>
     n \<le> MAX_TIMESTAMP_NODES \<and> m \<le> MAX_OPERATIONS \<and> a \<le> MAX_ATTESTATIONS \<and>
     p \<le> MAX_PENDING_ATTESTATIONS" if "nodes + 1 \<le> MAX_TIMESTAMP_NODES" okA okO
    using "2.IH" [of "(atts', pend')" atts' pend' "(nops', stack')" nops' stack'] A O that
    by (simp add: okA_def okO_def)
  show ?case
    unfolding unfold oks
    using IH sums by (auto simp: okA_def okO_def atts'_def pend'_def nops'_def)
qed

section \<open>Properties of the validation\<close>

text \<open>C11. The explicit stack of \<open>validate_timestamp_tree\<close> visits every node of the timestamp: it
  returns exactly when the tree satisfies the conditions by recursion and the four counts
  are within the limits, and then it returns the counts.\<close>

theorem validate_timestamp_tree_iff:
  "validate_timestamp_tree apply_op t = Inr (n, m, a, p) \<longleftrightarrow>
     tree_ok apply_op t \<and> n = node_count t \<and> m = operation_count t \<and> a = attestation_count t \<and>
     p = pending_count t \<and> n \<le> 256 \<and> m \<le> 255 \<and> a \<le> 256 \<and> p \<le> 16"
  by (simp add: validate_timestamp_tree_def validate_loop_Inr del: validate_loop.simps)
    (simp add: MAX_TIMESTAMP_NODES_def MAX_OPERATIONS_def
      MAX_ATTESTATIONS_def MAX_PENDING_ATTESTATIONS_def)


section \<open>proofs/store.py\<close>

text \<open>The third-party parser and \<open>op(msg)\<close>, with \<open>hashlib.sha256\<close>.\<close>

record ots_library =
  ots_sha256 :: "bytes \<Rightarrow> bytes"
  ots_apply :: "ots_op \<Rightarrow> bytes \<Rightarrow> bytes"
  ots_parse :: "bytes \<Rightarrow> detached_file option"

abbreviation validate_proof :: "ots_library \<Rightarrow> manifest_digest \<Rightarrow> bytes \<Rightarrow> bytes option \<Rightarrow> exn + unit" where
  "validate_proof lib \<equiv> validate_exact_proof (ots_sha256 lib) (ots_apply lib) (ots_parse lib)"

definition make_stored_proof ::
  "ots_library \<Rightarrow> order_reference \<Rightarrow> int \<Rightarrow> manifest_digest \<Rightarrow> bytes \<Rightarrow> proof_state \<Rightarrow> datetime
     \<Rightarrow> bitcoin_verification option \<Rightarrow> exn + stored_proof" where
  "make_stored_proof lib ref version target_digest proof_bytes state submitted_at verification =
     (if version < 1 then Inl (ValueError ''proof_version_must_be_positive'')
      else bind_res (validate_proof lib target_digest proof_bytes None) (\<lambda>_.
        StoredProof (ots_sha256 lib)
          \<lparr>sp_order_reference = ref, sp_version = version, sp_target_digest = target_digest,
           sp_proof_bytes = proof_bytes, sp_proof_sha256 = ots_sha256 lib proof_bytes,
           sp_proof_state = state, sp_calendar_submitted_at = submitted_at,
           sp_verification = verification\<rparr>))"

text \<open>\<open>self._proofs\<close>: the dictionary of the in-memory store; a missing key reads as \<open>()\<close>.\<close>

type_synonym memory_store = "order_reference \<Rightarrow> stored_proof list option"

definition memory_versions :: "memory_store \<Rightarrow> order_reference \<Rightarrow> stored_proof list" where
  "memory_versions store ref = (case store ref of None \<Rightarrow> [] | Some ps \<Rightarrow> ps)"

definition memory_latest :: "memory_store \<Rightarrow> order_reference \<Rightarrow> stored_proof option" where
  "memory_latest store ref =
     (let existing = memory_versions store ref in if existing \<noteq> [] then Some (last existing) else None)"

definition memory_append :: "ots_library \<Rightarrow> memory_store \<Rightarrow> stored_proof \<Rightarrow> exn + memory_store" where
  "memory_append lib store p =
     bind_res (validate_proof lib (sp_target_digest p) (sp_proof_bytes p) (Some (sp_proof_sha256 p))) (\<lambda>_.
       if sp_version p < 1 then Inl (ValueError ''proof_version_must_be_positive'')
       else let existing = memory_versions store (sp_order_reference p);
                added = store(sp_order_reference p \<mapsto> existing @ [p])
            in if existing \<noteq> [] then
                 let latest = last existing
                 in if sp_target_digest p \<noteq> sp_target_digest latest
                    then Inl (ValueError ''proof_target_is_immutable'')
                    else if sp_version p \<noteq> sp_version latest + 1 then
                      if sp_version p = sp_version latest \<and> p = latest then Inr store
                      else Inl (ValueError ''proof_version_must_append'')
                    else Inr added
               else if sp_version p \<noteq> 1 then Inl (ValueError ''first_proof_version_must_be_one'')
               else Inr added)"

section \<open>The contract of a proof store\<close>

text \<open>
  \<open>ProofStore\<close> of \<open>ports/proof.py\<close> as a locale: the operations and what one successful append
  promises. \<open>history_ok\<close>, the shape of a history, follows for every sequence of appends.
\<close>

definition history_ok :: "stored_proof list \<Rightarrow> bool" where
  "history_ok ps \<longleftrightarrow> (\<forall>i < length ps. sp_version (ps ! i) = int i + 1) \<and>
     (\<forall>p \<in> set ps. \<forall>q \<in> set ps. sp_target_digest p = sp_target_digest q)"

lemma history_ok_Nil [simp]: "history_ok []"
  by (simp add: history_ok_def)

lemma history_ok_last: "history_ok ps \<Longrightarrow> ps \<noteq> [] \<Longrightarrow> sp_version (last ps) = int (length ps)"
  by (simp add: history_ok_def last_conv_nth Suc_leI of_nat_diff)

lemma history_ok_snoc:
  assumes ok: "history_ok ps" and v: "sp_version p = int (length ps) + 1"
    and d: "ps \<noteq> [] \<Longrightarrow> sp_target_digest p = sp_target_digest (last ps)"
  shows "history_ok (ps @ [p])"
  unfolding history_ok_def
proof
  show "\<forall>i < length (ps @ [p]). sp_version ((ps @ [p]) ! i) = int i + 1"
    using ok v by (auto simp: history_ok_def nth_append less_Suc_eq)
  have last: "sp_target_digest q = sp_target_digest p" if "q \<in> set ps" for q
    using ok d that last_in_set [of ps] unfolding history_ok_def by (metis empty_iff list.set(1))
  show "\<forall>q \<in> set (ps @ [p]). \<forall>r \<in> set (ps @ [p]). sp_target_digest q = sp_target_digest r"
    by (simp add: last)
qed

text \<open>Any sequence of append calls, each of which may raise and then leaves the store alone.\<close>

definition run_appends :: "('s \<Rightarrow> stored_proof \<Rightarrow> exn + 's) \<Rightarrow> 's \<Rightarrow> stored_proof list \<Rightarrow> 's" where
  "run_appends append_proof = foldl (\<lambda>s p. case append_proof s p of Inl e \<Rightarrow> s | Inr s' \<Rightarrow> s')"

lemma run_appends_simps [simp]:
  "run_appends f s [] = s"
  "run_appends f s (p # ps) = run_appends f (case f s p of Inl e \<Rightarrow> s | Inr s' \<Rightarrow> s') ps"
  "run_appends f s (ps @ qs) = run_appends f (run_appends f s ps) qs"
  by (simp_all add: run_appends_def)

locale proof_store =
  fixes versions :: "'s \<Rightarrow> order_reference \<Rightarrow> stored_proof list"
    and latest :: "'s \<Rightarrow> order_reference \<Rightarrow> stored_proof option"
    and append_proof :: "'s \<Rightarrow> stored_proof \<Rightarrow> exn + 's"
    and ok :: "'s \<Rightarrow> bool"
  assumes latest_versions:
      "ok s \<Longrightarrow> latest s ref = (if versions s ref = [] then None else Some (last (versions s ref)))"
    and append_numbered:
      "ok s \<Longrightarrow> append_proof s p = Inr s' \<Longrightarrow>
         versions s' (sp_order_reference p) = versions s (sp_order_reference p) \<and>
         latest s (sp_order_reference p) = Some p \<or>
         versions s' (sp_order_reference p) = versions s (sp_order_reference p) @ [p] \<and>
         (case latest s (sp_order_reference p) of None \<Rightarrow> sp_version p = 1
          | Some q \<Rightarrow> sp_version p = sp_version q + 1 \<and> sp_target_digest p = sp_target_digest q)"
    and append_other: "ok s \<Longrightarrow> append_proof s p = Inr s' \<Longrightarrow> ref \<noteq> sp_order_reference p \<Longrightarrow>
         versions s' ref = versions s ref"
    and append_keeps_ok: "ok s \<Longrightarrow> append_proof s p = Inr s' \<Longrightarrow> ok s'"
begin

lemma append_keeps_prefix:
  "ok s \<Longrightarrow> append_proof s p = Inr s' \<Longrightarrow> prefix (versions s ref) (versions s' ref)"
  using append_numbered append_other by (cases "ref = sp_order_reference p") fastforce+

lemma append_latest: "ok s \<Longrightarrow> append_proof s p = Inr s' \<Longrightarrow> latest s' (sp_order_reference p) = Some p"
  using append_numbered [of s p s'] latest_versions [of s "sp_order_reference p"]
    latest_versions [of s' "sp_order_reference p"] append_keeps_ok [of s p s']
  by (auto split: if_splits)

lemma append_history:
  assumes ok: "ok s" and app: "append_proof s p = Inr s'" and hist: "history_ok (versions s ref)"
  shows "history_ok (versions s' ref)"
proof (cases "ref = sp_order_reference p \<and> versions s' ref \<noteq> versions s ref")
  case True
  with append_numbered [OF ok app] have new: "versions s' ref = versions s ref @ [p]"
    and next_version: "case latest s ref of None \<Rightarrow> sp_version p = 1
       | Some q \<Rightarrow> sp_version p = sp_version q + 1 \<and> sp_target_digest p = sp_target_digest q" by auto
  show ?thesis
    unfolding new
    by (rule history_ok_snoc)
      (use hist next_version history_ok_last [OF hist] in \<open>auto simp: latest_versions [OF ok] split: if_splits\<close>)
next
  case False
  then have "versions s' ref = versions s ref" using append_other [OF ok app, of ref] by blast
  with hist show ?thesis by simp
qed

lemma run_history:
  assumes "ok s" "\<And>ref. history_ok (versions s ref)"
  shows "history_ok (versions (run_appends append_proof s ps) ref) \<and>
     prefix (versions s ref) (versions (run_appends append_proof s ps) ref)"
  using assms
proof (induction ps arbitrary: s)
  case (Cons p ps)
  define s1 where "s1 = (case append_proof s p of Inl e \<Rightarrow> s | Inr s' \<Rightarrow> s')"
  have "ok s1" "history_ok (versions s1 ref')" "prefix (versions s ref) (versions s1 ref)" for ref'
    using Cons.prems append_keeps_ok append_history append_keeps_prefix
    by (auto simp: s1_def split: sum.splits)
  with Cons.IH [of s1] show ?case by (auto simp: s1_def intro: prefix_order.trans)
qed simp

end

text \<open>What an append to the in-memory store did.\<close>

lemma memory_append_Inr:
  assumes "memory_append lib s p = Inr s'"
  defines "existing \<equiv> memory_versions s (sp_order_reference p)"
  shows "s' = s \<and> existing \<noteq> [] \<and> p = last existing \<or>
    s' = s(sp_order_reference p \<mapsto> existing @ [p]) \<and>
    (if existing = [] then sp_version p = 1
     else sp_version p = sp_version (last existing) + 1 \<and>
          sp_target_digest p = sp_target_digest (last existing))"
  using assms(1) unfolding memory_append_def existing_def [symmetric] bind_res_Inr_iff Let_def
  by (cases "existing = []") (simp_all split: if_splits)

interpretation memory_store: proof_store memory_versions memory_latest "memory_append lib" "\<lambda>_. True"
proof
  fix s s' :: memory_store and p :: stored_proof and ref :: order_reference
  show "memory_latest s ref = (if memory_versions s ref = [] then None else Some (last (memory_versions s ref)))"
    by (simp add: memory_latest_def Let_def)
  assume app: "memory_append lib s p = Inr s'"
  show "memory_versions s' (sp_order_reference p) = memory_versions s (sp_order_reference p) \<and>
      memory_latest s (sp_order_reference p) = Some p \<or>
      memory_versions s' (sp_order_reference p) = memory_versions s (sp_order_reference p) @ [p] \<and>
      (case memory_latest s (sp_order_reference p) of None \<Rightarrow> sp_version p = 1
       | Some q \<Rightarrow> sp_version p = sp_version q + 1 \<and> sp_target_digest p = sp_target_digest q)"
    using memory_append_Inr [OF app]
    by (elim disjE) (simp_all add: memory_latest_def memory_versions_def Let_def split: if_splits)
  show "ref \<noteq> sp_order_reference p \<Longrightarrow> memory_versions s' ref = memory_versions s ref"
    using memory_append_Inr [OF app] by (auto simp: memory_versions_def)
qed simp

text \<open>Whatever sequence of appends the in-memory store receives, with any proofs in any order,
  the versions of an order are numbered 1, 2, 3, ... without a gap, all have the same target
  digest, and no stored proof is lost or changed.\<close>

theorem memory_store_append_only:
  "history_ok (memory_versions (run_appends (memory_append lib) (\<lambda>_. None) (ps @ qs)) ref) \<and>
     prefix (memory_versions (run_appends (memory_append lib) (\<lambda>_. None) ps) ref)
       (memory_versions (run_appends (memory_append lib) (\<lambda>_. None) (ps @ qs)) ref)"
proof -
  have start: "history_ok (memory_versions (\<lambda>_. None) ref)" for ref
    by (simp add: memory_versions_def)
  have "history_ok (memory_versions (run_appends (memory_append lib) (\<lambda>_. None) ps) ref)" for ref ps
    using memory_store.run_history [of "\<lambda>_. None" lib ps ref] start by simp
  then show ?thesis
    using memory_store.run_history [of "run_appends (memory_append lib) (\<lambda>_. None) ps" lib qs ref] by simp
qed

end
