(* ===== verification/Database.thy ===== *)
theory Database
  imports Proof_Store
begin

text \<open>
  The relational schema, \<open>app/db/models.py\<close>: one record per mapped class, the database as
  the record of its tables, the insertions with the constraints of each table, and the
  update of an order behind the listener that rejects a change of its snapshot. A table is
  the list of its rows in insertion order. Columns whose check constraint enumerates the
  values are datatypes. The surrogate key of a table that no code reads (tokens, attempts,
  events, verifications, bundles) is left out; the others (orders, jobs, reservations,
  observations, outbox) are uuids given by the caller, as \<open>uuid4\<close> gives them to the code.
  The width of a \<open>String(n)\<close> column is not a constraint of SQLite and is not modelled.
\<close>

section \<open>UUIDs\<close>

type_synonym uuid = "128 word"

text \<open>\<open>UUID.hex\<close> and \<open>str(UUID)\<close>: 32 digits, and the same in the groups 8-4-4-4-12.\<close>

definition hex_digits :: "nat \<Rightarrow> nat \<Rightarrow> string" where
  "hex_digits k n = map (\<lambda>i. hex_digit (n div 16 ^ i mod 16)) (rev [0..<k])"

definition uuid_hex :: "uuid \<Rightarrow> string" where
  "uuid_hex u = hex_digits 32 (unat u)"

definition uuid_str :: "uuid \<Rightarrow> string" where
  "uuid_str u = (let h = uuid_hex u in
     take 8 h @ ''-'' @ take 4 (drop 8 h) @ ''-'' @ take 4 (drop 12 h) @ ''-'' @ take 4 (drop 16 h) @ ''-'' @
     drop 20 h)"

text \<open>
  \<open>uuid.UUID(text)\<close>: the prefixes \<open>urn:\<close> and \<open>uuid:\<close>, enclosing braces and hyphens are
  dropped, and 32 characters must remain, which are read with \<open>int(_, 16)\<close>: that takes
  blanks at both ends, a plus sign, a \<open>0x\<close> prefix and single underscores between digits (a
  minus sign cannot be left, it is a hyphen).
\<close>

function remove_all :: "string \<Rightarrow> string \<Rightarrow> string" where
  "remove_all needle s =
     (case s of [] \<Rightarrow> []
      | c # cs \<Rightarrow> if needle \<noteq> [] \<and> prefix needle s then remove_all needle (drop (length needle) s)
                 else c # remove_all needle cs)"
  by pat_completeness auto
termination
  by (relation "measure (\<lambda>(needle, s). length s)") (auto simp: Suc_le_eq)

declare remove_all.simps [simp del]

definition strip_chars :: "(char \<Rightarrow> bool) \<Rightarrow> string \<Rightarrow> string" where
  "strip_chars C s = rev (dropWhile C (rev (dropWhile C s)))"

definition is_py_space :: "char \<Rightarrow> bool" where
  "is_py_space c \<longleftrightarrow> (9 \<le> code c \<and> code c \<le> 13) \<or> (28 \<le> code c \<and> code c \<le> 32) \<or> code c = 133 \<or> code c = 160"

text \<open>The flag says that the character before was a digit.\<close>

fun hex_nat :: "string \<Rightarrow> bool \<Rightarrow> nat \<Rightarrow> nat option" where
  "hex_nat [] prev acc = (if prev then Some acc else None)"
| "hex_nat (c # cs) prev acc =
     (if c = CHR ''_'' then (if prev then hex_nat cs False acc else None)
      else case hex_value c of None \<Rightarrow> None | Some d \<Rightarrow> hex_nat cs True (16 * acc + d))"

definition drop_prefix_0x :: "string \<Rightarrow> string" where
  "drop_prefix_0x s =
     (if take 2 s = ''0x'' \<or> take 2 s = ''0X''
      then (case drop 2 s of c # cs \<Rightarrow> if c = CHR ''_'' then cs else c # cs | [] \<Rightarrow> [])
      else s)"

definition drop_plus :: "string \<Rightarrow> string" where
  "drop_plus s = (case s of c # cs \<Rightarrow> if c = CHR ''+'' then cs else s | [] \<Rightarrow> [])"

definition int_base_16 :: "string \<Rightarrow> nat option" where
  "int_base_16 s = hex_nat (drop_prefix_0x (drop_plus (strip_chars is_py_space s))) False 0"

definition UUID :: "string \<Rightarrow> uuid option" where
  "UUID text =
     (let h = filter (\<lambda>c. c \<noteq> CHR ''-'')
                (strip_chars (\<lambda>c. c \<in> set ''{}'') (remove_all ''uuid:'' (remove_all ''urn:'' text)))
      in if length h \<noteq> 32 then None
         else case int_base_16 h of None \<Rightarrow> None | Some n \<Rightarrow> if n < 2 ^ 128 then Some (word_of_nat n) else None)"

text \<open>\<open>_uuid\<close> of the adapters.\<close>

definition parse_uuid :: "string \<Rightarrow> exn + uuid" where
  "parse_uuid value = (case UUID value of None \<Rightarrow> Inl (ValueError ''invalid_order_id'') | Some u \<Rightarrow> Inr u)"

subsection \<open>The textual form of a UUID can be read back\<close>

lemma length_hex_digits [simp]: "length (hex_digits k n) = k"
  by (simp add: hex_digits_def)

lemma hex_digits_Suc: "hex_digits (Suc k) n = hex_digit (n div 16 ^ k mod 16) # hex_digits k n"
  by (simp add: hex_digits_def)

lemma length_uuid_hex [simp]: "length (uuid_hex u) = 32"
  by (simp add: uuid_hex_def)

lemma hex_digit_not_underscore: "n < 16 \<Longrightarrow> hex_digit n \<noteq> CHR ''_''"
  using hex_digit_lower_hex [of n] by (auto simp: is_lower_hex_def is_digit_def code_def)

lemma hex_nat_digits:
  "k \<noteq> 0 \<or> prev \<Longrightarrow> hex_nat (hex_digits k n) prev acc = Some (acc * 16 ^ k + n mod 16 ^ k)"
proof (induction k arbitrary: acc prev)
  case 0
  then show ?case by (simp add: hex_digits_def)
next
  case (Suc k)
  define d where "d = n div 16 ^ k mod 16"
  have split: "n mod (16 * 16 ^ k) = 16 ^ k * d + n mod 16 ^ k"
    using mod_mult2_eq [of n "16 ^ k" 16] by (simp add: mult.commute d_def)
  have "d < 16" by (simp add: d_def)
  then have "hex_value (hex_digit d) = Some d" "hex_digit d \<noteq> CHR ''_''"
    by (simp_all add: hex_value_hex_digit hex_digit_not_underscore)
  then show ?case
    using Suc.IH [of True "16 * acc + d"] by (simp add: hex_digits_Suc d_def [symmetric] split algebra_simps)
qed

lemma hex_digits_lower_hex: "list_all is_lower_hex (hex_digits k n)"
  by (simp add: hex_digits_def list_all_iff hex_digit_lower_hex)

lemma uuid_hex_lower_hex: "c \<in> set (uuid_hex u) \<Longrightarrow> is_lower_hex c"
  using hex_digits_lower_hex [of 32 "unat u"] by (simp add: uuid_hex_def list_all_iff)

lemma unat_uuid_lt: "unat (u :: uuid) < 2 ^ 128"
proof -
  have "unat u < 2 ^ LENGTH(128)" by (rule unsigned_less)
  then show ?thesis by simp
qed

lemma hex_nat_uuid_hex: "hex_nat (uuid_hex u) False 0 = Some (unat u)"
  using unat_uuid_lt [of u] by (simp add: uuid_hex_def hex_nat_digits)

lemma strip_chars_absent: "(\<And>c. c \<in> set s \<Longrightarrow> \<not> C c) \<Longrightarrow> strip_chars C s = s"
proof -
  assume absent: "\<And>c. c \<in> set s \<Longrightarrow> \<not> C c"
  have stay: "dropWhile C t = t" if "set t \<subseteq> set s" for t
    using that absent by (cases t) simp_all
  have "dropWhile C s = s" "dropWhile C (rev s) = rev s" by (rule stay; simp)+
  then show ?thesis by (simp add: strip_chars_def)
qed

lemma drop_plus_hex: "(\<And>c. c \<in> set s \<Longrightarrow> is_lower_hex c) \<Longrightarrow> drop_plus s = s"
proof (cases s)
  case (Cons c cs)
  assume "\<And>c. c \<in> set s \<Longrightarrow> is_lower_hex c"
  then have "is_lower_hex c" using Cons by simp
  moreover have "\<not> is_lower_hex (CHR ''+'')" by (simp add: is_lower_hex_def is_digit_def code_def)
  ultimately have "c \<noteq> CHR ''+''" by metis
  then show ?thesis by (simp add: Cons drop_plus_def)
qed (simp add: drop_plus_def)

lemma drop_prefix_0x_hex: "(\<And>c. c \<in> set s \<Longrightarrow> is_lower_hex c) \<Longrightarrow> drop_prefix_0x s = s"
proof -
  assume hex: "\<And>c. c \<in> set s \<Longrightarrow> is_lower_hex c"
  have "\<not> is_lower_hex (CHR ''x'')" "\<not> is_lower_hex (CHR ''X'')"
    by (simp_all add: is_lower_hex_def is_digit_def code_def)
  then have "take 2 s \<noteq> ''0x''" "take 2 s \<noteq> ''0X''"
    using hex in_set_takeD [of _ 2 s] by (metis list.set_intros(1) list.set_intros(2))+
  then show ?thesis by (simp add: drop_prefix_0x_def)
qed

lemma int_base_16_uuid_hex: "int_base_16 (uuid_hex u) = Some (unat u)"
proof -
  have "strip_chars is_py_space (uuid_hex u) = uuid_hex u"
    by (rule strip_chars_absent)
      (auto dest!: uuid_hex_lower_hex simp: is_py_space_def is_lower_hex_def is_digit_def)
  then show ?thesis
    by (simp add: int_base_16_def drop_plus_hex drop_prefix_0x_hex uuid_hex_lower_hex hex_nat_uuid_hex)
qed

lemma remove_all_absent:
  assumes "c \<in> set needle" and "c \<notin> set s"
  shows "remove_all needle s = s"
  using assms(2)
proof (induction s)
  case (Cons x xs)
  have "\<not> prefix needle (x # xs)"
    using assms(1) Cons.prems set_mono_prefix [of needle "x # xs"] by blast
  then show ?case using Cons by (subst remove_all.simps) simp
qed (simp add: remove_all.simps)

lemma uuid_str_chars: "c \<in> set (uuid_str u) \<Longrightarrow> is_lower_hex c \<or> c = CHR ''-''"
  using hex_digits_lower_hex [of 32 "unat u"]
  by (auto simp: uuid_str_def uuid_hex_def Let_def list_all_iff dest: in_set_takeD in_set_dropD)

lemma no_hyphen_in_hex: "list_all is_lower_hex s \<Longrightarrow> filter (\<lambda>c. c \<noteq> CHR ''-'') s = s"
  by (auto simp: list_all_iff filter_id_conv is_lower_hex_def is_digit_def code_def)

lemma take_drop_chunk: "take k (drop j h) @ drop (j + k) h = drop j h"
  by (metis add.commute append_take_drop_id drop_drop)

lemma uuid_str_without_hyphens: "filter (\<lambda>c. c \<noteq> CHR ''-'') (uuid_str u) = uuid_hex u"
proof -
  define h where "h = uuid_hex u"
  have hex: "list_all is_lower_hex h" using uuid_hex_lower_hex by (auto simp: h_def list_all_iff)
  have part: "filter (\<lambda>c. c \<noteq> CHR ''-'') (take k (drop j h)) = take k (drop j h)"
    "filter (\<lambda>c. c \<noteq> CHR ''-'') (drop j h) = drop j h" for j k
    by (rule no_hyphen_in_hex, use hex in \<open>auto simp: list_all_iff dest: in_set_takeD in_set_dropD\<close>)+
  have "take 8 h @ take 4 (drop 8 h) @ take 4 (drop 12 h) @ take 4 (drop 16 h) @ drop 20 h = h"
    using take_drop_chunk [of 8 0 h] take_drop_chunk [of 4 8 h] take_drop_chunk [of 4 12 h]
      take_drop_chunk [of 4 16 h] by simp
  then show ?thesis
    using part(1) [of 8 0] part(1) [of 4 8] part(1) [of 4 12] part(1) [of 4 16] part(2) [of 20]
    by (simp add: uuid_str_def Let_def h_def [symmetric])
qed

lemma UUID_str [simp]: "UUID (uuid_str u) = Some u"
proof -
  have chars: "c \<noteq> CHR '':'' \<and> c \<notin> set ''{}''" if "c \<in> set (uuid_str u)" for c
    using uuid_str_chars [OF that] by (auto simp: is_lower_hex_def is_digit_def code_def)
  have "remove_all ''urn:'' (uuid_str u) = uuid_str u" "remove_all ''uuid:'' (uuid_str u) = uuid_str u"
    by (rule remove_all_absent [of "CHR '':''"]; use chars in auto)+
  moreover have "strip_chars (\<lambda>c. c \<in> set ''{}'') (uuid_str u) = uuid_str u"
    by (rule strip_chars_absent) (use chars in auto)
  ultimately show ?thesis
    using unat_uuid_lt [of u]
    by (simp add: UUID_def uuid_str_without_hyphens int_base_16_uuid_hex del: list.set)
qed

lemma parse_uuid_str [simp]: "parse_uuid (uuid_str u) = Inr u"
  by (simp add: parse_uuid_def)

lemma uuid_str_inject [simp]: "uuid_str u = uuid_str v \<longleftrightarrow> u = v"
  by (metis UUID_str option.inject)

lemma length_uuid_str [simp]: "length (uuid_str u) = 36"
  by (simp add: uuid_str_def Let_def)

lemma uuid_hex_inject [simp]: "uuid_hex u = uuid_hex v \<longleftrightarrow> u = v"
  by (metis hex_nat_uuid_hex option.inject word_unat_eq_iff)

section \<open>Rows\<close>

datatype job_state = AVAILABLE | LEASED | RETRY | COMPLETE | JOB_MANUAL_REVIEW | DEAD_LETTER

datatype job_outcome = O_COMPLETE | O_RETRY | O_MANUAL_REVIEW | O_DEAD_LETTER

datatype checkout_state = CS_RESERVED | CS_PROCESSING | CS_COMPLETED

datatype dispatch_state = PENDING | DISPATCHED

datatype outbox_state = OB_AVAILABLE | OB_RETRY | OB_LEASED | OB_ACCEPTED | OB_DELIVERED | OB_FAILED | OB_DEAD_LETTER

record order_row =
  o_id :: uuid
  o_order_reference :: string
  o_certificate_reference :: string
  o_manifest_digest :: bytes
  o_email :: string
  o_amount_minor :: int
  o_currency :: string
  o_product_version :: string
  o_payment_mode :: string
  o_payment_state :: payment_state
  o_fulfillment_state :: fulfillment_state
  o_consent_terms_version :: string
  o_consent_privacy_version :: string
  o_consent_accepted_at :: datetime
  o_checkout_session_id :: "string option"
  o_payment_intent_id :: "string option"
  o_fulfillment_key :: string
  o_calendar_submitted_at :: "datetime option"
  o_created_at :: datetime
  o_updated_at :: datetime

record token_row =
  tk_order_id :: uuid
  tk_version :: int
  tk_pepper_version :: int
  tk_token_hash :: bytes
  tk_revoked_at :: "datetime option"
  tk_expires_at :: datetime
  tk_created_at :: datetime

text \<open>\<open>response_body\<close>: the four keys of the stored response.\<close>

record response_body =
  rb_order_reference :: string
  rb_checkout_url :: string
  rb_payment_state :: payment_state
  rb_fulfillment_state :: fulfillment_state

record idempotency_row =
  ir_id :: uuid
  ir_endpoint :: string
  ir_key_hash :: bytes
  ir_request_hash :: bytes
  ir_order_id :: uuid
  ir_provider_idempotency_key :: string
  ir_provider_price_id :: string
  ir_success_url :: string
  ir_cancel_url :: string
  ir_checkout_state :: checkout_state
  ir_checkout_lease_id :: "string option"
  ir_checkout_lease_expires_at :: "datetime option"
  ir_response_status :: "int option"
  ir_response_body :: "response_body option"
  ir_completed_at :: "datetime option"
  ir_created_at :: datetime

record rate_row =
  rc_endpoint :: string
  rc_key_hash :: bytes
  rc_window_started_at :: datetime
  rc_request_count :: int

record stripe_event_row =
  se_stripe_event_id :: string
  se_event_type :: string
  se_livemode :: bool
  se_payload_sha256 :: bytes
  se_processed_at :: "datetime option"
  se_safe_error_code :: "string option"
  se_created_at :: datetime

record job_row =
  j_id :: uuid
  j_job_key :: string
  j_order_id :: uuid
  j_kind :: string
  j_state :: job_state
  j_generation :: int
  j_attempt_count :: int
  j_max_attempts :: int
  j_available_at :: datetime
  j_lease_owner :: "string option"
  j_lease_until :: "datetime option"
  j_safe_error_code :: "string option"
  j_created_at :: datetime
  j_updated_at :: datetime

record dispatch_row =
  td_job_id :: uuid
  td_generation :: int
  td_task_name :: string
  td_schedule_at :: datetime
  td_state :: dispatch_state
  td_attempt_count :: int
  td_dispatched_at :: "datetime option"
  td_safe_error_code :: "string option"
  td_created_at :: datetime
  td_updated_at :: datetime

record job_attempt_row =
  ja_job_id :: uuid
  ja_attempt_number :: int
  ja_worker_id :: string
  ja_started_at :: datetime
  ja_finished_at :: "datetime option"
  ja_outcome :: "job_outcome option"
  ja_safe_error_code :: "string option"
  ja_created_at :: datetime

text \<open>
  \<open>verification_metadata\<close>: the JSON object \<open>_verification_payload\<close> writes, with the two
  times kept as datetimes (\<open>isoformat\<close> and \<open>fromisoformat\<close> are inverse on aware datetimes).
\<close>

record verification_metadata =
  vm_block_height :: int
  vm_block_hash :: string
  vm_block_time :: datetime
  vm_confirmation_policy :: string
  vm_confirmations :: int
  vm_method :: string
  vm_verified_at :: datetime

record proof_row =
  pv_order_id :: uuid
  pv_version :: int
  pv_target_digest :: bytes
  pv_proof_bytes :: bytes
  pv_proof_sha256 :: bytes
  pv_proof_byte_length :: int
  pv_proof_state :: proof_state
  pv_calendar_submitted_at :: datetime
  pv_verification_metadata :: "verification_metadata option"
  pv_created_at :: datetime

record verification_row =
  ve_order_id :: uuid
  ve_proof_version :: int
  ve_method :: string
  ve_verified_at :: datetime
  ve_block_height :: int
  ve_block_hash :: string
  ve_block_time :: datetime
  ve_confirmation_policy :: string
  ve_created_at :: datetime

record bundle_row =
  pb_order_id :: uuid
  pb_proof_version :: int
  pb_bundle_bytes :: bytes
  pb_bundle_sha256 :: bytes
  pb_bundle_byte_length :: int
  pb_created_at :: datetime

record observation_row =
  ob_id :: uuid
  ob_order_id :: uuid
  ob_proof_version :: int
  ob_observed_confirmations :: int
  ob_block_height :: int
  ob_block_hash :: string
  ob_method :: string
  ob_confirmation_policy :: string
  ob_observed_at :: datetime
  ob_event_key :: string
  ob_created_at :: datetime

text \<open>The JSON evidence of a state event, one constructor per shape the code writes.\<close>

datatype evidence =
    NoEvidence
  | CalendarEvidence datetime
  | DownloadEvidence int string string
  | NotificationEvidence string "int option" "int option"

record state_event_row =
  ev_order_id :: uuid
  ev_sequence :: int
  ev_event_key :: string
  ev_source :: string
  ev_previous_payment_state :: "payment_state option"
  ev_payment_state :: payment_state
  ev_previous_fulfillment_state :: "fulfillment_state option"
  ev_fulfillment_state :: fulfillment_state
  ev_evidence :: evidence
  ev_created_at :: datetime

text \<open>The JSON payload of an outbox message: the two keys it may have.\<close>

record outbox_payload =
  pl_template :: "string option"
  pl_order_reference :: "string option"

record outbox_row =
  om_id :: uuid
  om_message_key :: string
  om_order_id :: uuid
  om_kind :: string
  om_recipient :: string
  om_payload :: outbox_payload
  om_state :: outbox_state
  om_attempt_count :: int
  om_max_attempts :: int
  om_available_at :: datetime
  om_lease_owner :: "string option"
  om_lease_until :: "datetime option"
  om_lease_token :: "string option"
  om_proof_version :: "int option"
  om_confirmation_count :: "int option"
  om_confirmation_observation_id :: "uuid option"
  om_provider_message_id :: "string option"
  om_accepted_at :: "datetime option"
  om_delivered_at :: "datetime option"
  om_idempotency_expires_at :: datetime
  om_safe_error_code :: "string option"
  om_created_at :: datetime
  om_updated_at :: datetime

record notification_attempt_row =
  na_outbox_id :: uuid
  na_attempt_number :: int
  na_worker_id :: string
  na_lease_token :: string
  na_started_at :: datetime
  na_finished_at :: "datetime option"
  na_outcome :: "string option"
  na_response_status :: "int option"
  na_provider_message_id :: "string option"
  na_safe_error_code :: "string option"
  na_created_at :: datetime

record resend_event_row =
  rw_svix_event_id :: string
  rw_event_type :: string
  rw_provider_message_id :: string
  rw_payload_sha256 :: bytes
  rw_event_created_at :: datetime
  rw_processed_at :: datetime
  rw_created_at :: datetime

section \<open>The database\<close>

record db =
  orders :: "order_row list"
  order_tokens :: "token_row list"
  idempotency_requests :: "idempotency_row list"
  rate_counters :: "rate_row list"
  stripe_events :: "stripe_event_row list"
  durable_jobs :: "job_row list"
  task_dispatches :: "dispatch_row list"
  job_attempts :: "job_attempt_row list"
  proof_versions :: "proof_row list"
  proof_verifications :: "verification_row list"
  proof_bundles :: "bundle_row list"
  confirmation_observations :: "observation_row list"
  state_events :: "state_event_row list"
  outbox :: "outbox_row list"
  notification_attempts :: "notification_attempt_row list"
  resend_webhook_events :: "resend_event_row list"

definition empty_db :: db where
  "empty_db = \<lparr>orders = [], order_tokens = [], idempotency_requests = [], rate_counters = [],
     stripe_events = [], durable_jobs = [], task_dispatches = [], job_attempts = [], proof_versions = [],
     proof_verifications = [], proof_bundles = [], confirmation_observations = [], state_events = [],
     outbox = [], notification_attempts = [], resend_webhook_events = []\<rparr>"

type_synonym 'a db_tx = "(db, 'a) tx"
type_synonym 'a db_action = "(db, 'a) action"

section \<open>Constraints and insertions\<close>

text \<open>
  An insertion checks the table's constraints as the database does: unique columns against
  the rows that are there (NULLs never collide), check constraints, and foreign keys.
\<close>

definition require :: "bool \<Rightarrow> exn \<Rightarrow> exn + unit" where
  "require b e = (if b then Inr () else Inl e)"

lemma require_Inr [simp]: "require b e = Inr x \<longleftrightarrow> b"
  by (simp add: require_def)

definition unique_among :: "('r \<Rightarrow> 'k) \<Rightarrow> 'r \<Rightarrow> 'r list \<Rightarrow> bool" where
  "unique_among key r rows \<longleftrightarrow> list_all (\<lambda>r'. key r' \<noteq> key r) rows"

definition unique_opt_among :: "('r \<Rightarrow> 'k option) \<Rightarrow> 'r \<Rightarrow> 'r list \<Rightarrow> bool" where
  "unique_opt_among key r rows \<longleftrightarrow> key r = None \<or> list_all (\<lambda>r'. key r' \<noteq> key r) rows"

definition find_order :: "uuid \<Rightarrow> db \<Rightarrow> order_row option" where
  "find_order oid d = find (\<lambda>r. o_id r = oid) (orders d)"

definition find_order_by_reference :: "string \<Rightarrow> db \<Rightarrow> order_row option" where
  "find_order_by_reference ref d = find (\<lambda>r. o_order_reference r = ref) (orders d)"

definition order_check :: "order_row \<Rightarrow> bool" where
  "order_check r \<longleftrightarrow> length (o_manifest_digest r) = 32 \<and> 0 \<le> o_amount_minor r \<and>
     length (o_currency r) = 3 \<and> str_lower (o_currency r) = o_currency r \<and>
     1 \<le> length (o_email r) \<and> length (o_email r) \<le> 254 \<and>
     paid_before_work (o_payment_state r) (o_fulfillment_state r)"

definition insert_order :: "order_row \<Rightarrow> unit db_tx" where
  "insert_order r d =
     (if order_check r \<and> unique_among o_id r (orders d) \<and> unique_among o_order_reference r (orders d) \<and>
         unique_opt_among o_checkout_session_id r (orders d) \<and>
         unique_opt_among o_payment_intent_id r (orders d) \<and> unique_among o_fulfillment_key r (orders d)
      then Inr ((), d\<lparr>orders := orders d @ [r]\<rparr>) else Inl IntegrityError)"

text \<open>\<open>reject_order_snapshot_mutation\<close>: the listener that runs before an order is updated.\<close>

definition same_snapshot_fields :: "order_row \<Rightarrow> order_row \<Rightarrow> bool" where
  "same_snapshot_fields a b \<longleftrightarrow>
     o_order_reference a = o_order_reference b \<and> o_certificate_reference a = o_certificate_reference b \<and>
     o_manifest_digest a = o_manifest_digest b \<and> o_email a = o_email b \<and>
     o_amount_minor a = o_amount_minor b \<and> o_currency a = o_currency b \<and>
     o_product_version a = o_product_version b \<and> o_payment_mode a = o_payment_mode b \<and>
     o_consent_terms_version a = o_consent_terms_version b \<and>
     o_consent_privacy_version a = o_consent_privacy_version b \<and>
     o_consent_accepted_at a = o_consent_accepted_at b \<and> o_fulfillment_key a = o_fulfillment_key b"

definition reject_order_snapshot_mutation :: "order_row \<Rightarrow> order_row \<Rightarrow> exn + unit" where
  "reject_order_snapshot_mutation before after =
     require (same_snapshot_fields before after)
       (ValueError ''immutable order snapshot fields cannot be changed'')"

text \<open>The flush of a changed order: the listener, then the constraints of the table.\<close>

definition update_order :: "order_row \<Rightarrow> unit db_tx" where
  "update_order r d =
     (case find_order (o_id r) d of
        None \<Rightarrow> Inl IntegrityError
      | Some old \<Rightarrow>
          bind_res (reject_order_snapshot_mutation old r) (\<lambda>_.
            let others = filter (\<lambda>r'. o_id r' \<noteq> o_id r) (orders d) in
            if order_check r \<and> unique_opt_among o_checkout_session_id r others \<and>
               unique_opt_among o_payment_intent_id r others
            then Inr ((), d\<lparr>orders := upd_row (\<lambda>r'. o_id r' = o_id r) (\<lambda>_. r) (orders d)\<rparr>)
            else Inl IntegrityError))"

definition insert_job :: "job_row \<Rightarrow> unit db_tx" where
  "insert_job r d =
     (if unique_among j_id r (durable_jobs d) \<and> unique_among j_job_key r (durable_jobs d) \<and>
         find_order (j_order_id r) d \<noteq> None \<and> 0 \<le> j_attempt_count r \<and> 0 < j_max_attempts r \<and>
         0 < j_generation r \<and> (j_lease_until r = None \<or> j_lease_owner r \<noteq> None)
      then Inr ((), d\<lparr>durable_jobs := durable_jobs d @ [r]\<rparr>) else Inl IntegrityError)"

definition find_job :: "uuid \<Rightarrow> db \<Rightarrow> job_row option" where
  "find_job jid d = find (\<lambda>r. j_id r = jid) (durable_jobs d)"

definition insert_dispatch :: "dispatch_row \<Rightarrow> unit db_tx" where
  "insert_dispatch r d =
     (if unique_among (\<lambda>r. (td_job_id r, td_generation r)) r (task_dispatches d) \<and>
         unique_among td_task_name r (task_dispatches d) \<and> find_job (td_job_id r) d \<noteq> None \<and>
         0 < td_generation r \<and> 0 \<le> td_attempt_count r \<and> (td_state r = PENDING \<longleftrightarrow> td_dispatched_at r = None)
      then Inr ((), d\<lparr>task_dispatches := task_dispatches d @ [r]\<rparr>) else Inl IntegrityError)"

definition insert_attempt :: "job_attempt_row \<Rightarrow> unit db_tx" where
  "insert_attempt r d =
     (if unique_among (\<lambda>r. (ja_job_id r, ja_attempt_number r)) r (job_attempts d) \<and>
         find_job (ja_job_id r) d \<noteq> None
      then Inr ((), d\<lparr>job_attempts := job_attempts d @ [r]\<rparr>) else Inl IntegrityError)"

definition insert_token :: "token_row \<Rightarrow> unit db_tx" where
  "insert_token r d =
     (if unique_among (\<lambda>r. (tk_order_id r, tk_version r)) r (order_tokens d) \<and>
         unique_among tk_token_hash r (order_tokens d) \<and> find_order (tk_order_id r) d \<noteq> None \<and>
         length (tk_token_hash r) = 32 \<and> 0 < tk_version r \<and> 0 < tk_pepper_version r
      then Inr ((), d\<lparr>order_tokens := order_tokens d @ [r]\<rparr>) else Inl IntegrityError)"

definition completion_ok :: "idempotency_row \<Rightarrow> bool" where
  "completion_ok r \<longleftrightarrow>
     (case ir_checkout_state r of
        CS_RESERVED \<Rightarrow> ir_checkout_lease_id r = None \<and> ir_checkout_lease_expires_at r = None \<and>
          ir_response_status r = None \<and> ir_response_body r = None \<and> ir_completed_at r = None
      | CS_PROCESSING \<Rightarrow> ir_checkout_lease_id r \<noteq> None \<and> ir_checkout_lease_expires_at r \<noteq> None \<and>
          ir_response_status r = None \<and> ir_response_body r = None \<and> ir_completed_at r = None
      | CS_COMPLETED \<Rightarrow> ir_checkout_lease_id r \<noteq> None \<and> ir_checkout_lease_expires_at r \<noteq> None \<and>
          ir_response_status r \<noteq> None \<and> ir_response_body r \<noteq> None \<and> ir_completed_at r \<noteq> None)"

definition insert_idempotency :: "idempotency_row \<Rightarrow> unit db_tx" where
  "insert_idempotency r d =
     (if unique_among ir_id r (idempotency_requests d) \<and>
         unique_among (\<lambda>r. (ir_endpoint r, ir_key_hash r)) r (idempotency_requests d) \<and>
         unique_among ir_order_id r (idempotency_requests d) \<and>
         unique_among ir_provider_idempotency_key r (idempotency_requests d) \<and>
         find_order (ir_order_id r) d \<noteq> None \<and> length (ir_key_hash r) = 32 \<and>
         length (ir_request_hash r) = 32 \<and> completion_ok r
      then Inr ((), d\<lparr>idempotency_requests := idempotency_requests d @ [r]\<rparr>) else Inl IntegrityError)"

definition update_idempotency :: "idempotency_row \<Rightarrow> unit db_tx" where
  "update_idempotency r d =
     (if completion_ok r
      then Inr ((), d\<lparr>idempotency_requests :=
                        upd_row (\<lambda>r'. ir_id r' = ir_id r) (\<lambda>_. r) (idempotency_requests d)\<rparr>)
      else Inl IntegrityError)"

definition insert_stripe_event :: "stripe_event_row \<Rightarrow> unit db_tx" where
  "insert_stripe_event r d =
     (if unique_among se_stripe_event_id r (stripe_events d) \<and> length (se_payload_sha256 r) = 32
      then Inr ((), d\<lparr>stripe_events := stripe_events d @ [r]\<rparr>) else Inl IntegrityError)"

definition find_proof :: "uuid \<Rightarrow> int \<Rightarrow> db \<Rightarrow> proof_row option" where
  "find_proof oid v d = find (\<lambda>r. pv_order_id r = oid \<and> pv_version r = v) (proof_versions d)"

definition insert_proof :: "proof_row \<Rightarrow> unit db_tx" where
  "insert_proof r d =
     (if unique_among (\<lambda>r. (pv_order_id r, pv_version r)) r (proof_versions d) \<and>
         find_order (pv_order_id r) d \<noteq> None \<and> 0 < pv_version r \<and> length (pv_target_digest r) = 32 \<and>
         length (pv_proof_sha256 r) = 32 \<and> 1 \<le> pv_proof_byte_length r \<and> pv_proof_byte_length r \<le> 262144 \<and>
         pv_proof_byte_length r = int (length (pv_proof_bytes r)) \<and>
         (pv_proof_state r = PS_CALENDAR_PENDING \<longleftrightarrow> pv_verification_metadata r = None)
      then Inr ((), d\<lparr>proof_versions := proof_versions d @ [r]\<rparr>) else Inl IntegrityError)"

definition insert_verification_row :: "verification_row \<Rightarrow> unit db_tx" where
  "insert_verification_row r d =
     (if unique_among (\<lambda>r. (ve_order_id r, ve_proof_version r)) r (proof_verifications d) \<and>
         find_proof (ve_order_id r) (ve_proof_version r) d \<noteq> None \<and> 0 < ve_proof_version r \<and>
         0 \<le> ve_block_height r \<and> length (ve_block_hash r) = 64 \<and> str_lower (ve_block_hash r) = ve_block_hash r
      then Inr ((), d\<lparr>proof_verifications := proof_verifications d @ [r]\<rparr>) else Inl IntegrityError)"

definition insert_bundle :: "bundle_row \<Rightarrow> unit db_tx" where
  "insert_bundle r d =
     (if unique_among (\<lambda>r. (pb_order_id r, pb_proof_version r)) r (proof_bundles d) \<and>
         find_proof (pb_order_id r) (pb_proof_version r) d \<noteq> None \<and> 0 < pb_proof_version r \<and>
         length (pb_bundle_sha256 r) = 32 \<and> 0 < pb_bundle_byte_length r \<and>
         pb_bundle_byte_length r = int (length (pb_bundle_bytes r)) \<and> pb_bundle_byte_length r \<le> 12582912
      then Inr ((), d\<lparr>proof_bundles := proof_bundles d @ [r]\<rparr>) else Inl IntegrityError)"

definition insert_observation :: "observation_row \<Rightarrow> unit db_tx" where
  "insert_observation r d =
     (if unique_among ob_id r (confirmation_observations d) \<and>
         unique_among (\<lambda>r. (ob_order_id r, ob_event_key r)) r (confirmation_observations d) \<and>
         find_proof (ob_order_id r) (ob_proof_version r) d \<noteq> None \<and> 0 < ob_proof_version r \<and>
         0 < ob_observed_confirmations r \<and> 0 \<le> ob_block_height r \<and> length (ob_block_hash r) = 64 \<and>
         str_lower (ob_block_hash r) = ob_block_hash r
      then Inr ((), d\<lparr>confirmation_observations := confirmation_observations d @ [r]\<rparr>)
      else Inl IntegrityError)"

definition insert_state_event :: "state_event_row \<Rightarrow> unit db_tx" where
  "insert_state_event r d =
     (if unique_among (\<lambda>r. (ev_order_id r, ev_sequence r)) r (state_events d) \<and>
         unique_among (\<lambda>r. (ev_order_id r, ev_event_key r)) r (state_events d) \<and>
         find_order (ev_order_id r) d \<noteq> None
      then Inr ((), d\<lparr>state_events := state_events d @ [r]\<rparr>) else Inl IntegrityError)"

definition outbox_check :: "outbox_row \<Rightarrow> bool" where
  "outbox_check r \<longleftrightarrow> 0 \<le> om_attempt_count r \<and> 0 < om_max_attempts r \<and>
     (om_lease_until r = None \<or> om_lease_owner r \<noteq> None) \<and>
     (case om_proof_version r of None \<Rightarrow> True | Some v \<Rightarrow> 0 < v) \<and>
     (case om_confirmation_count r of None \<Rightarrow> True | Some n \<Rightarrow> 0 < n)"

definition insert_outbox :: "outbox_row \<Rightarrow> unit db_tx" where
  "insert_outbox r d =
     (if unique_among om_id r (outbox d) \<and> unique_among om_message_key r (outbox d) \<and>
         unique_opt_among om_provider_message_id r (outbox d) \<and> find_order (om_order_id r) d \<noteq> None \<and>
         outbox_check r \<and>
         (case om_confirmation_observation_id r of None \<Rightarrow> True
          | Some i \<Rightarrow> list_ex (\<lambda>ob. ob_id ob = i) (confirmation_observations d))
      then Inr ((), d\<lparr>outbox := outbox d @ [r]\<rparr>) else Inl IntegrityError)"

definition update_outbox :: "outbox_row \<Rightarrow> unit db_tx" where
  "update_outbox r d =
     (if outbox_check r \<and>
         unique_opt_among om_provider_message_id r (filter (\<lambda>r'. om_id r' \<noteq> om_id r) (outbox d))
      then Inr ((), d\<lparr>outbox := upd_row (\<lambda>r'. om_id r' = om_id r) (\<lambda>_. r) (outbox d)\<rparr>)
      else Inl IntegrityError)"

definition insert_notification_attempt :: "notification_attempt_row \<Rightarrow> unit db_tx" where
  "insert_notification_attempt r d =
     (if unique_among (\<lambda>r. (na_outbox_id r, na_attempt_number r)) r (notification_attempts d) \<and>
         list_ex (\<lambda>m. om_id m = na_outbox_id r) (outbox d) \<and> 0 < na_attempt_number r \<and>
         (case na_response_status r of None \<Rightarrow> True | Some n \<Rightarrow> 100 \<le> n \<and> n \<le> 599)
      then Inr ((), d\<lparr>notification_attempts := notification_attempts d @ [r]\<rparr>) else Inl IntegrityError)"

definition insert_resend_event :: "resend_event_row \<Rightarrow> unit db_tx" where
  "insert_resend_event r d =
     (if unique_among rw_svix_event_id r (resend_webhook_events d) \<and> length (rw_payload_sha256 r) = 32
      then Inr ((), d\<lparr>resend_webhook_events := resend_webhook_events d @ [r]\<rparr>) else Inl IntegrityError)"

text \<open>\<open>bind_tx\<close> runs one statement of a transaction after another.\<close>

definition bind_tx :: "('s, 'a) tx \<Rightarrow> ('a \<Rightarrow> ('s, 'b) tx) \<Rightarrow> ('s, 'b) tx" where
  "bind_tx m k s = (case m s of Inl e \<Rightarrow> Inl e | Inr (x, s') \<Rightarrow> k x s')"

definition return_tx :: "'a \<Rightarrow> ('s, 'a) tx" where
  "return_tx x s = Inr (x, s)"

definition lift_tx :: "exn + 'a \<Rightarrow> ('s, 'a) tx" where
  "lift_tx r s = (case r of Inl e \<Rightarrow> Inl e | Inr x \<Rightarrow> Inr (x, s))"

lemma bind_tx_Inr:
  "bind_tx m k s = Inr (y, s'') \<longleftrightarrow> (\<exists>x s'. m s = Inr (x, s') \<and> k x s' = Inr (y, s''))"
  by (auto simp: bind_tx_def split: sum.splits)

lemma return_tx_Inr [simp]: "return_tx x s = Inr (y, s') \<longleftrightarrow> y = x \<and> s' = s"
  by (auto simp: return_tx_def)

lemma lift_tx_Inr [simp]: "lift_tx r s = Inr (y, s') \<longleftrightarrow> r = Inr y \<and> s' = s"
  by (auto simp: lift_tx_def split: sum.splits)

lemmas insert_defs = insert_order_def insert_job_def insert_dispatch_def insert_attempt_def insert_token_def
  insert_idempotency_def insert_stripe_event_def insert_proof_def insert_verification_row_def insert_bundle_def
  insert_observation_def insert_state_event_def insert_outbox_def insert_notification_attempt_def
  insert_resend_event_def

lemmas unique_defs = unique_among_def unique_opt_among_def

end
