(* ===== verification/Jobs.thy ===== *)
theory Jobs
  imports Database
begin

text \<open>
  Durable jobs: the specification and the backoff of \<open>jobs/models.py\<close>, the task records and
  the dispatch coordinator of \<open>tasks/dispatch.py\<close>, and \<open>SqlJobClaimStore\<close> of
  \<open>db/repositories.py\<close>. A call to the clock or to \<open>uuid4\<close> is an argument. The Cloud Tasks
  client is the parameter \<open>create\<close>: the outcome of creating a task of a given name, payload
  and schedule. Row locks and \<open>skip_locked\<close> have no counterpart: every transaction is atomic.
\<close>

section \<open>jobs/models.py\<close>

record job_spec =
  spec_job_key :: string
  spec_kind :: string
  spec_order_id :: string
  spec_max_attempts :: int

definition JobSpec :: "job_spec \<Rightarrow> exn + job_spec" where
  "JobSpec s = (if spec_job_key s = [] \<or> 160 < length (spec_job_key s) \<or> spec_max_attempts s < 1
     then Inl (ValueError ''invalid durable job specification'') else Inr s)"

record claimed_job =
  cj_id :: string
  cj_spec :: job_spec
  cj_attempt :: int
  cj_lease_owner :: string
  cj_lease_until :: datetime

fun outcome_state :: "job_outcome \<Rightarrow> job_state" where
  "outcome_state O_COMPLETE = COMPLETE"
| "outcome_state O_RETRY = RETRY"
| "outcome_state O_MANUAL_REVIEW = JOB_MANUAL_REVIEW"
| "outcome_state O_DEAD_LETTER = DEAD_LETTER"

text \<open>
  The floats of \<open>BackoffPolicy\<close> are exact rationals here; the delay is given in seconds, before
  \<open>timedelta\<close> rounds it to microseconds. For attempts above 1024 the float product overflows
  in Python; a job has at most some tens of attempts.
\<close>

record backoff_policy =
  base_seconds :: rat
  maximum_seconds :: rat
  jitter_ratio :: rat

definition BackoffPolicy :: backoff_policy where
  "BackoffPolicy = \<lparr>base_seconds = 30, maximum_seconds = 21600, jitter_ratio = 1 / 5\<rparr>"

definition backoff_delay :: "backoff_policy \<Rightarrow> int \<Rightarrow> rat \<Rightarrow> exn + rat" where
  "backoff_delay p attempt jitter_unit =
     (if attempt < 1 \<or> \<not> (0 \<le> jitter_unit \<and> jitter_unit \<le> 1) \<or>
         \<not> (0 \<le> jitter_ratio p \<and> jitter_ratio p \<le> 1)
      then Inl (ValueError ''invalid retry calculation inputs'')
      else let exponential = min (maximum_seconds p) (base_seconds p * 2 ^ nat (attempt - 1));
               factor = 1 - jitter_ratio p + 2 * jitter_ratio p * jitter_unit
           in Inr (max 0 (exponential * factor)))"

section \<open>tasks/dispatch.py: names, payloads, rows\<close>

definition TASK_NAME :: "string \<Rightarrow> bool" where
  "TASK_NAME s \<longleftrightarrow> take 10 s = ''timestamp-'' \<and> match_class is_lower_hex 32 32 (take 32 (drop 10 s)) \<and>
     take 2 (drop 42 s) = ''-g'' \<and>
     match_head (\<lambda>c. is_digit c \<and> c \<noteq> CHR ''0'') is_digit 8 (drop 44 s)"

definition deterministic_task_name :: "uuid \<Rightarrow> int \<Rightarrow> exn + string" where
  "deterministic_task_name job_id generation =
     (if generation < 1 then Inl (ValueError ''task_generation_invalid'')
      else let name = ''timestamp-'' @ uuid_hex job_id @ ''-g'' @ int_str generation
           in if \<not> TASK_NAME name then Inl (ValueError ''task_name_invalid'') else Inr name)"

text \<open>\<open>json.dumps\<close> of the two keys in sorted order, without blanks; the keys and values are
  ASCII and need no escape.\<close>

definition quoted :: "string \<Rightarrow> string" where
  "quoted s = CHR 0x22 # s @ [CHR 0x22]"

definition task_payload :: "uuid \<Rightarrow> int \<Rightarrow> exn + string" where
  "task_payload job_id generation =
     (let payload = ''{'' @ quoted ''generation'' @ '':'' @ int_str generation @ '','' @ quoted ''job_id'' @ '':'' @
            quoted (uuid_str job_id) @ ''}''
      in if 128 < length payload \<or> contains payload ''@'' \<or> contains (str_lower payload) ''token''
         then Inl (ValueError ''task_payload_invalid'') else Inr payload)"

definition add_task_dispatch :: "job_row \<Rightarrow> datetime \<Rightarrow> datetime \<Rightarrow> unit db_tx" where
  "add_task_dispatch job schedule_at now d =
     (if \<not> is_aware schedule_at then Inl (ValueError ''task_schedule_must_be_aware'')
      else bind_res (deterministic_task_name (j_id job) (j_generation job)) (\<lambda>name.
        insert_dispatch
          \<lparr>td_job_id = j_id job, td_generation = j_generation job, td_task_name = name,
           td_schedule_at = schedule_at, td_state = PENDING, td_attempt_count = 0,
           td_dispatched_at = None, td_safe_error_code = None, td_created_at = now,
           td_updated_at = now\<rparr> d))"

section \<open>tasks/dispatch.py: the coordinator\<close>

type_synonym task_creator = "string \<Rightarrow> string \<Rightarrow> datetime \<Rightarrow> exn option"

text \<open>\<open>CloudTasksCreator.create\<close>: a task that is there already counts as created.\<close>

datatype create_outcome = Created | AlreadyExists | CreateFailed exn

definition cloud_tasks_create :: "(string \<Rightarrow> string \<Rightarrow> datetime \<Rightarrow> create_outcome) \<Rightarrow> string \<Rightarrow> task_creator" where
  "cloud_tasks_create client parent task_name payload schedule_at =
     (case client (parent @ ''/tasks/'' @ task_name) payload schedule_at of
        Created \<Rightarrow> None
      | AlreadyExists \<Rightarrow> None
      | CreateFailed e \<Rightarrow> Some e)"

definition find_dispatch :: "uuid \<Rightarrow> int \<Rightarrow> db \<Rightarrow> dispatch_row option" where
  "find_dispatch job_id generation d =
     find (\<lambda>r. td_job_id r = job_id \<and> td_generation r = generation) (task_dispatches d)"

definition is_dispatch :: "uuid \<Rightarrow> int \<Rightarrow> dispatch_row \<Rightarrow> bool" where
  "is_dispatch job_id generation r \<longleftrightarrow> td_job_id r = job_id \<and> td_generation r = generation"

text \<open>The two transactions that follow the call to Cloud Tasks.\<close>

definition mark_create_failed :: "uuid \<Rightarrow> int \<Rightarrow> datetime \<Rightarrow> unit db_tx" where
  "mark_create_failed job_id generation now d =
     (case find_dispatch job_id generation d of
        None \<Rightarrow> Inr ((), d)
      | Some current \<Rightarrow>
          if td_state current = PENDING
          then Inr ((), d\<lparr>task_dispatches := upd_row (is_dispatch job_id generation)
                 (\<lambda>r. r\<lparr>td_attempt_count := td_attempt_count r + 1,
                        td_safe_error_code := Some ''cloud_tasks_create_failed'', td_updated_at := now\<rparr>)
                 (task_dispatches d)\<rparr>)
          else Inr ((), d))"

definition mark_dispatched :: "uuid \<Rightarrow> int \<Rightarrow> datetime \<Rightarrow> bool db_tx" where
  "mark_dispatched job_id generation now d =
     (case find_dispatch job_id generation d of
        None \<Rightarrow> Inr (False, d)
      | Some current \<Rightarrow>
          if td_state current = DISPATCHED then Inr (False, d)
          else Inr (True, d\<lparr>task_dispatches := upd_row (is_dispatch job_id generation)
                 (\<lambda>r. r\<lparr>td_state := DISPATCHED, td_attempt_count := td_attempt_count r + 1,
                        td_dispatched_at := Some now, td_safe_error_code := None, td_updated_at := now\<rparr>)
                 (task_dispatches d)\<rparr>))"

definition dispatch :: "task_creator \<Rightarrow> uuid \<Rightarrow> int \<Rightarrow> datetime \<Rightarrow> bool db_action" where
  "dispatch create job_id generation now d =
     (case find_dispatch job_id generation d of
        None \<Rightarrow> (Inr False, d)
      | Some record \<Rightarrow>
          if td_state record = DISPATCHED then (Inr False, d)
          else let outcome = (case task_payload job_id generation of Inl e \<Rightarrow> Some e
                 | Inr payload \<Rightarrow> create (td_task_name record) payload (aware (td_schedule_at record)))
               in case outcome of
                   Some error \<Rightarrow>
                     bind_act (transaction (mark_create_failed job_id generation now)) (\<lambda>_.
                       raise_act (TaskDispatchUnavailable ''cloud_tasks_create_failed'')) d
                 | None \<Rightarrow> transaction (mark_dispatched job_id generation now) d)"

text \<open>Dispatching a list of jobs one after the other, counting the dispatched ones; the first
  exception ends the loop.\<close>

fun dispatch_each :: "task_creator \<Rightarrow> (uuid \<times> int) list \<Rightarrow> datetime \<Rightarrow> int \<Rightarrow> int db_action" where
  "dispatch_each create [] now count = return_act count"
| "dispatch_each create ((job_id, generation) # rest) now count =
     bind_act (dispatch create job_id generation now) (\<lambda>ok.
       dispatch_each create rest now (count + (if ok then 1 else 0)))"

fun insert_by :: "('r \<Rightarrow> 'k::linorder) \<Rightarrow> 'r \<Rightarrow> 'r list \<Rightarrow> 'r list" where
  "insert_by key r [] = [r]"
| "insert_by key r (x # xs) = (if key r \<le> key x then r # x # xs else x # insert_by key r xs)"

definition order_by :: "('r \<Rightarrow> 'k::linorder) \<Rightarrow> 'r list \<Rightarrow> 'r list" where
  "order_by key rows = foldr (insert_by key) rows []"

definition pending_query :: "nat \<Rightarrow> uuid option \<Rightarrow> db \<Rightarrow> dispatch_row list" where
  "pending_query limit order_id d =
     take limit (order_by (\<lambda>r. (micros (td_schedule_at r), micros (td_created_at r)))
       (filter (\<lambda>r. td_state r = PENDING \<and>
            (case find_job (td_job_id r) d of None \<Rightarrow> False
             | Some job \<Rightarrow> (case order_id of None \<Rightarrow> True | Some oid \<Rightarrow> j_order_id job = oid)))
         (task_dispatches d)))"

record reconcile_result =
  rr_selected :: int
  rr_dispatched :: int

definition reconcile :: "task_creator \<Rightarrow> int \<Rightarrow> uuid option \<Rightarrow> datetime \<Rightarrow> reconcile_result db_action" where
  "reconcile create limit order_id now d =
     (if \<not> (1 \<le> limit \<and> limit \<le> 1000) then (Inl (ValueError ''task_reconcile_limit_invalid''), d)
      else let selected = map (\<lambda>r. (td_job_id r, td_generation r)) (pending_query (nat limit) order_id d)
           in bind_act (dispatch_each create selected now 0) (\<lambda>dispatched.
                return_act \<lparr>rr_selected = int (length selected), rr_dispatched = dispatched\<rparr>) d)"

definition MIN_STALE_DISPATCH_GRACE :: int where "MIN_STALE_DISPATCH_GRACE = hours 2"
definition MAX_STALE_DISPATCH_GRACE :: int where "MAX_STALE_DISPATCH_GRACE = days 30"

definition lease_free :: "datetime \<Rightarrow> job_row \<Rightarrow> bool" where
  "lease_free now job = (case j_lease_until job of None \<Rightarrow> True | Some t \<Rightarrow> micros t < micros now)"

definition open_state :: "job_state \<Rightarrow> bool" where
  "open_state s \<longleftrightarrow> s = AVAILABLE \<or> s = RETRY \<or> s = LEASED"

definition stale_query :: "datetime \<Rightarrow> datetime \<Rightarrow> nat \<Rightarrow> db \<Rightarrow> (job_row \<times> dispatch_row) list" where
  "stale_query stale_before recovered_at limit d =
     take limit (order_by (\<lambda>(job, r). (micros (j_available_at job),
            case td_dispatched_at r of None \<Rightarrow> 0 | Some t \<Rightarrow> micros t))
       (filter (\<lambda>(job, r). td_state r = DISPATCHED \<and> micros (td_schedule_at r) \<le> micros stale_before \<and>
            (case td_dispatched_at r of None \<Rightarrow> False | Some t \<Rightarrow> micros t \<le> micros stale_before) \<and>
            open_state (j_state job) \<and> micros (j_available_at job) \<le> micros stale_before \<and>
            j_attempt_count job < j_max_attempts job \<and> lease_free recovered_at job)
         (concat (map (\<lambda>job. map (Pair job)
              (filter (is_dispatch (j_id job) (j_generation job)) (task_dispatches d)))
           (durable_jobs d)))))"

definition update_job :: "job_row \<Rightarrow> db \<Rightarrow> db" where
  "update_job job d = d\<lparr>durable_jobs := upd_row (\<lambda>r. j_id r = j_id job) (\<lambda>_. job) (durable_jobs d)\<rparr>"

definition is_open_attempt :: "uuid \<Rightarrow> int \<Rightarrow> job_attempt_row \<Rightarrow> bool" where
  "is_open_attempt job_id n a \<longleftrightarrow> ja_job_id a = job_id \<and> ja_attempt_number a = n \<and> ja_finished_at a = None"

text \<open>The body of the loop over the stale jobs.\<close>

definition recover_one :: "datetime \<Rightarrow> job_row \<Rightarrow> (uuid \<times> int) db_tx" where
  "recover_one recovered_at job d =
     (let d1 = d\<lparr>task_dispatches := upd_row (is_dispatch (j_id job) (j_generation job))
                  (\<lambda>r. r\<lparr>td_safe_error_code := Some ''superseded_stale_dispatch'',
                         td_updated_at := recovered_at\<rparr>) (task_dispatches d)\<rparr>;
          leased = j_lease_owner job \<noteq> None;
          d2 = (if leased
                then d1\<lparr>job_attempts := upd_row (is_open_attempt (j_id job) (j_attempt_count job))
                       (\<lambda>a. a\<lparr>ja_finished_at := Some recovered_at, ja_outcome := Some O_RETRY,
                              ja_safe_error_code := Some ''lease_expired_recovered''\<rparr>) (job_attempts d1)\<rparr>
                else d1);
          job1 = (if leased then job\<lparr>j_state := AVAILABLE, j_lease_owner := None, j_lease_until := None\<rparr>
                  else job);
          job2 = job1\<lparr>j_generation := j_generation job + 1, j_updated_at := recovered_at\<rparr>
      in bind_tx (add_task_dispatch job2 recovered_at recovered_at)
           (\<lambda>_. return_tx (j_id job2, j_generation job2)) (update_job job2 d2))"

fun recover_each :: "datetime \<Rightarrow> job_row list \<Rightarrow> (uuid \<times> int) list db_tx" where
  "recover_each recovered_at [] = return_tx []"
| "recover_each recovered_at (job # jobs) =
     bind_tx (recover_one recovered_at job) (\<lambda>p. bind_tx (recover_each recovered_at jobs) (\<lambda>ps. return_tx (p # ps)))"

definition recover_stale_tx :: "int \<Rightarrow> nat \<Rightarrow> datetime \<Rightarrow> (uuid \<times> int) list db_tx" where
  "recover_stale_tx stale_grace limit recovered_at d =
     recover_each recovered_at
       (map fst (stale_query (dt_add recovered_at (- stale_grace)) recovered_at limit d)) d"

definition recover_stale_dispatched ::
  "task_creator \<Rightarrow> int \<Rightarrow> int \<Rightarrow> datetime \<Rightarrow> datetime \<Rightarrow> reconcile_result db_action" where
  "recover_stale_dispatched create stale_grace limit recovered_at now d =
     (if \<not> (1 \<le> limit \<and> limit \<le> 1000) then (Inl (ValueError ''task_reconcile_limit_invalid''), d)
      else if \<not> (MIN_STALE_DISPATCH_GRACE \<le> stale_grace \<and> stale_grace \<le> MAX_STALE_DISPATCH_GRACE)
      then (Inl (ValueError ''task_stale_grace_invalid''), d)
      else if \<not> is_aware recovered_at then (Inl (ValueError ''task_recovery_now_must_be_aware''), d)
      else bind_act (transaction (recover_stale_tx stale_grace (nat limit) recovered_at)) (\<lambda>recovered.
             bind_act (dispatch_each create recovered now 0) (\<lambda>dispatched.
               return_act \<lparr>rr_selected = int (length recovered), rr_dispatched = dispatched\<rparr>)) d)"

section \<open>db/repositories.py: SqlJobClaimStore\<close>

definition claimable :: "datetime \<Rightarrow> job_row \<Rightarrow> bool" where
  "claimable now job \<longleftrightarrow> open_state (j_state job) \<and> micros (j_available_at job) \<le> micros now \<and>
     lease_free now job \<and> j_attempt_count job < j_max_attempts job"

definition claim_query :: "datetime \<Rightarrow> db \<Rightarrow> job_row option" where
  "claim_query now d = first_by (\<lambda>job. (micros (j_available_at job), micros (j_created_at job)))
     (filter (claimable now) (durable_jobs d))"

definition lease_job :: "job_row \<Rightarrow> string \<Rightarrow> datetime \<Rightarrow> int \<Rightarrow> claimed_job db_tx" where
  "lease_job job worker_id now lease_for d =
     (let job1 = job\<lparr>j_attempt_count := j_attempt_count job + 1, j_state := LEASED,
                    j_lease_owner := Some worker_id, j_lease_until := Some (dt_add now lease_for),
                    j_updated_at := now\<rparr>
      in bind_tx (insert_attempt
             \<lparr>ja_job_id = j_id job1, ja_attempt_number = j_attempt_count job1, ja_worker_id = worker_id,
              ja_started_at = now, ja_finished_at = None, ja_outcome = None, ja_safe_error_code = None,
              ja_created_at = now\<rparr>)
           (\<lambda>_. lift_tx (bind_res (JobSpec
                 \<lparr>spec_job_key = j_job_key job1, spec_kind = j_kind job1,
                  spec_order_id = uuid_str (j_order_id job1), spec_max_attempts = j_max_attempts job1\<rparr>) (\<lambda>spec.
               Inr \<lparr>cj_id = uuid_str (j_id job1), cj_spec = spec, cj_attempt = j_attempt_count job1,
                    cj_lease_owner = worker_id, cj_lease_until = dt_add now lease_for\<rparr>)))
           (update_job job1 d))"

definition claim_tx :: "string \<Rightarrow> datetime \<Rightarrow> int \<Rightarrow> claimed_job option db_tx" where
  "claim_tx worker_id now lease_for d =
     (case claim_query now d of
        None \<Rightarrow> Inr (None, d)
      | Some job \<Rightarrow> bind_tx (lease_job job worker_id now lease_for) (\<lambda>c. return_tx (Some c)) d)"

definition claim :: "string \<Rightarrow> datetime \<Rightarrow> int \<Rightarrow> claimed_job option db_action" where
  "claim worker_id now lease_for = transaction (claim_tx worker_id now lease_for)"

definition claim_specific_tx :: "uuid \<Rightarrow> int \<Rightarrow> string \<Rightarrow> datetime \<Rightarrow> int \<Rightarrow> claimed_job option db_tx" where
  "claim_specific_tx ident generation worker_id now lease_for d =
     (case find_job ident d of
        None \<Rightarrow> Inl (SpecificJobRetryable ''specific_job_not_committed'')
      | Some job \<Rightarrow>
          (case find_dispatch ident generation d of
             None \<Rightarrow> Inl (SpecificJobRetryable ''specific_dispatch_not_committed'')
           | Some r \<Rightarrow>
               if j_generation job \<noteq> generation then Inr (None, d)
               else if \<not> open_state (j_state job) then Inr (None, d)
               else if micros now < micros (j_available_at job)
               then Inl (SpecificJobRetryable ''specific_job_not_due'')
               else if \<not> lease_free now job
               then Inl (SpecificJobRetryable ''specific_job_lease_active'')
               else if j_max_attempts job \<le> j_attempt_count job then Inr (None, d)
               else bind_tx (lease_job job worker_id now lease_for) (\<lambda>c. return_tx (Some c)) d))"

definition claim_specific :: "string \<Rightarrow> int \<Rightarrow> string \<Rightarrow> datetime \<Rightarrow> int \<Rightarrow> claimed_job option db_action" where
  "claim_specific job_id generation worker_id now lease_for d =
     (if generation < 1 then (Inl (ValueError ''task_generation_invalid''), d)
      else case UUID job_id of
          None \<Rightarrow> (Inl (ValueError ''job_id_must_be_uuid''), d)
        | Some ident \<Rightarrow> transaction (claim_specific_tx ident generation worker_id now lease_for) d)"

text \<open>\<open>uuid.UUID(job_id)\<close> where the code does not translate the exception.\<close>

definition raw_uuid :: "string \<Rightarrow> exn + uuid" where
  "raw_uuid s = (case UUID s of None \<Rightarrow> Inl (ValueError ''badly formed hexadecimal UUID string'') | Some u \<Rightarrow> Inr u)"

definition heartbeat_tx :: "string \<Rightarrow> string \<Rightarrow> int \<Rightarrow> datetime \<Rightarrow> datetime \<Rightarrow> bool db_tx" where
  "heartbeat_tx job_id worker_id attempt lease_until now d =
     bind_res (raw_uuid job_id) (\<lambda>ident.
       case find_job ident d of
         None \<Rightarrow> Inr (False, d)
       | Some job \<Rightarrow>
           if j_lease_owner job \<noteq> Some worker_id \<or> j_attempt_count job \<noteq> attempt \<or> j_state job \<noteq> LEASED
           then Inr (False, d)
           else Inr (True, update_job (job\<lparr>j_lease_until := Some lease_until, j_updated_at := now\<rparr>) d))"

definition heartbeat :: "string \<Rightarrow> string \<Rightarrow> int \<Rightarrow> datetime \<Rightarrow> datetime \<Rightarrow> bool db_action" where
  "heartbeat job_id worker_id attempt lease_until now = transaction (heartbeat_tx job_id worker_id attempt lease_until now)"

definition is_attempt :: "uuid \<Rightarrow> int \<Rightarrow> job_attempt_row \<Rightarrow> bool" where
  "is_attempt job_id n a \<longleftrightarrow> ja_job_id a = job_id \<and> ja_attempt_number a = n"

definition final_outcome :: "job_row \<Rightarrow> job_outcome \<Rightarrow> job_outcome" where
  "final_outcome stored outcome =
     (if outcome = O_RETRY \<and> j_max_attempts stored \<le> j_attempt_count stored then O_DEAD_LETTER else outcome)"

definition finish_tx ::
  "claimed_job \<Rightarrow> job_outcome \<Rightarrow> datetime \<Rightarrow> datetime option \<Rightarrow> string option \<Rightarrow> (uuid \<times> int) option db_tx" where
  "finish_tx job outcome now retry_at safe_error_code d =
     bind_res (raw_uuid (cj_id job)) (\<lambda>ident.
       case find_job ident d of
         None \<Rightarrow> Inl (ValueError ''job lease is no longer owned by this attempt'')
       | Some stored \<Rightarrow>
           if j_lease_owner stored \<noteq> Some (cj_lease_owner job) \<or> j_attempt_count stored \<noteq> cj_attempt job
           then Inl (ValueError ''job lease is no longer owned by this attempt'')
           else if \<not> list_ex (is_attempt (j_id stored) (j_attempt_count stored)) (job_attempts d)
           then Inl (ValueError ''job attempt history is missing'')
           else let final = final_outcome stored outcome
             in if final = O_RETRY \<and> retry_at = None then Inl (ValueError ''retry outcome requires retry_at'')
                else let stored1 = stored\<lparr>j_state := outcome_state final,
                         j_available_at := (case retry_at of None \<Rightarrow> j_available_at stored | Some t \<Rightarrow> t),
                         j_lease_owner := None, j_lease_until := None, j_safe_error_code := safe_error_code,
                         j_updated_at := now\<rparr>;
                       d1 = d\<lparr>job_attempts := upd_row (is_attempt (j_id stored) (j_attempt_count stored))
                              (\<lambda>a. a\<lparr>ja_finished_at := Some now, ja_outcome := Some final,
                                     ja_safe_error_code := safe_error_code\<rparr>) (job_attempts d)\<rparr>
                  in case (final, retry_at) of
                      (O_RETRY, Some t) \<Rightarrow>
                        (let stored2 = stored1\<lparr>j_generation := j_generation stored + 1\<rparr>
                         in bind_tx (add_task_dispatch stored2 t now)
                              (\<lambda>_. return_tx (Some (j_id stored2, j_generation stored2)))
                              (update_job stored2 d1))
                    | _ \<Rightarrow> Inr (None, update_job stored1 d1))"

text \<open>\<open>await self.task_dispatch.dispatch(...)\<close> when a coordinator is configured.\<close>

definition dispatch_if :: "task_creator option \<Rightarrow> (uuid \<times> int) option \<Rightarrow> datetime \<Rightarrow> unit db_action" where
  "dispatch_if create target now =
     (case (create, target) of
        (Some c, Some (job_id, generation)) \<Rightarrow> bind_act (dispatch c job_id generation now) (\<lambda>_. return_act ())
      | _ \<Rightarrow> return_act ())"

definition finish ::
  "task_creator option \<Rightarrow> claimed_job \<Rightarrow> job_outcome \<Rightarrow> datetime \<Rightarrow> datetime option \<Rightarrow> string option
     \<Rightarrow> datetime \<Rightarrow> unit db_action" where
  "finish create job outcome now retry_at safe_error_code later =
     bind_act (transaction (finish_tx job outcome now retry_at safe_error_code)) (\<lambda>target.
       dispatch_if create target later)"

definition new_job :: "uuid \<Rightarrow> string \<Rightarrow> uuid \<Rightarrow> string \<Rightarrow> int \<Rightarrow> datetime \<Rightarrow> datetime \<Rightarrow> job_row" where
  "new_job jid key order_id kind max_attempts available_at now =
     \<lparr>j_id = jid, j_job_key = key, j_order_id = order_id, j_kind = kind, j_state = AVAILABLE,
      j_generation = 1, j_attempt_count = 0, j_max_attempts = max_attempts, j_available_at = available_at,
      j_lease_owner = None, j_lease_until = None, j_safe_error_code = None, j_created_at = now,
      j_updated_at = now\<rparr>"

definition enqueue_tx :: "uuid \<Rightarrow> job_spec \<Rightarrow> datetime \<Rightarrow> datetime \<Rightarrow> uuid db_tx" where
  "enqueue_tx new_id spec available_at now d =
     bind_res (raw_uuid (spec_order_id spec)) (\<lambda>order_id.
       let job = new_job new_id (spec_job_key spec) order_id (spec_kind spec) (spec_max_attempts spec) available_at now
       in bind_tx (insert_job job) (\<lambda>_. bind_tx (add_task_dispatch job available_at now) (\<lambda>_. return_tx new_id)) d)"

definition find_job_by_key :: "string \<Rightarrow> db \<Rightarrow> job_row option" where
  "find_job_by_key key d = find (\<lambda>r. j_job_key r = key) (durable_jobs d)"

definition enqueue_once ::
  "task_creator option \<Rightarrow> uuid \<Rightarrow> job_spec \<Rightarrow> datetime \<Rightarrow> datetime \<Rightarrow> datetime \<Rightarrow> bool db_action" where
  "enqueue_once create new_id spec available_at now later d =
     (case enqueue_tx new_id spec available_at now d of
        Inr (job_id, d') \<Rightarrow>
          bind_act (dispatch_if create (Some (job_id, 1)) later) (\<lambda>_. return_act True) d'
      | Inl e \<Rightarrow>
          if e = IntegrityError
          then bind_act (dispatch_if create
                   (map_option (\<lambda>r. (j_id r, j_generation r)) (find_job_by_key (spec_job_key spec) d)) later)
                 (\<lambda>_. return_act False) d
          else (Inl e, d))"

definition enqueue_fulfillment_once :: "uuid \<Rightarrow> order_row \<Rightarrow> datetime \<Rightarrow> unit db_tx" where
  "enqueue_fulfillment_once new_id order now =
     (let job = new_job new_id (o_fulfillment_key order) (o_id order) ''stamp_manifest_digest'' 10 now now
      in bind_tx (insert_job job) (\<lambda>_. add_task_dispatch job now now))"

section \<open>worker/operator.py: replay of a job\<close>

text \<open>
  The transaction of \<open>SqlOperatorCommands.replay\<close>: either the job of a terminal order, whose
  order id is returned for the recovery checks, or the task to dispatch.
\<close>

definition operator_uuid :: "string \<Rightarrow> exn + uuid" where
  "operator_uuid s = (case UUID s of None \<Rightarrow> Inl (ValueError ''identifier_must_be_uuid'') | Some u \<Rightarrow> Inr u)"

definition replay_tx :: "string \<Rightarrow> datetime \<Rightarrow> (uuid + uuid \<times> int) db_tx" where
  "replay_tx job_id now d =
     bind_res (operator_uuid job_id) (\<lambda>ident.
       case find_job ident d of
         None \<Rightarrow> Inl (ValueError ''job_not_found'')
       | Some job \<Rightarrow>
           if j_state job = JOB_MANUAL_REVIEW \<or> j_state job = DEAD_LETTER then Inr (Inl (j_order_id job), d)
           else if j_state job \<noteq> RETRY then Inl (ValueError ''job_not_replayable'')
           else let job1 = job\<lparr>j_state := AVAILABLE, j_available_at := now, j_lease_owner := None,
                      j_lease_until := None, j_safe_error_code := None,
                      j_max_attempts := max (j_max_attempts job) (j_attempt_count job + 10),
                      j_generation := j_generation job + 1, j_updated_at := now\<rparr>
                in bind_tx (add_task_dispatch job1 now now)
                     (\<lambda>_. return_tx (Inr (j_id job1, j_generation job1))) (update_job job1 d))"

section \<open>The invariant of the job tables\<close>

definition attempt_keys :: "db \<Rightarrow> (uuid \<times> int) list" where
  "attempt_keys d = map (\<lambda>a. (ja_job_id a, ja_attempt_number a)) (job_attempts d)"

definition dispatch_keys :: "db \<Rightarrow> (uuid \<times> int) list" where
  "dispatch_keys d = map (\<lambda>r. (td_job_id r, td_generation r)) (task_dispatches d)"

definition numbers_of :: "uuid \<Rightarrow> (uuid \<times> int) list \<Rightarrow> int list" where
  "numbers_of i keys = map snd (filter (\<lambda>k. fst k = i) keys)"

text \<open>
  A job row by itself: its attempts are within the limit, and it has an owner and a deadline
  exactly while it is leased. In the database: its attempts are recorded as 1, 2, ..., and
  there is one task record per generation 1, 2, ....
\<close>

definition job_row_ok :: "job_row \<Rightarrow> bool" where
  "job_row_ok job \<longleftrightarrow> 0 \<le> j_attempt_count job \<and> j_attempt_count job \<le> j_max_attempts job \<and>
     1 \<le> j_max_attempts job \<and> 1 \<le> j_generation job \<and>
     (j_state job = LEASED \<longleftrightarrow> j_lease_owner job \<noteq> None) \<and>
     (j_state job = LEASED \<longleftrightarrow> j_lease_until job \<noteq> None) \<and>
     j_job_key job \<noteq> [] \<and> length (j_job_key job) \<le> 160"

definition job_ok :: "db \<Rightarrow> job_row \<Rightarrow> bool" where
  "job_ok d job \<longleftrightarrow> job_row_ok job \<and> numbers_of (j_id job) (attempt_keys d) = [1..j_attempt_count job] \<and>
     numbers_of (j_id job) (dispatch_keys d) = [1..j_generation job]"

definition jobs_inv :: "db \<Rightarrow> bool" where
  "jobs_inv d \<longleftrightarrow> distinct (map j_id (durable_jobs d)) \<and> distinct (map j_job_key (durable_jobs d)) \<and>
     (\<forall>job \<in> set (durable_jobs d). job_ok d job) \<and>
     fst ` set (attempt_keys d) \<subseteq> j_id ` set (durable_jobs d) \<and>
     fst ` set (dispatch_keys d) \<subseteq> j_id ` set (durable_jobs d)"

lemma jobs_invD:
  assumes "jobs_inv d" "job \<in> set (durable_jobs d)"
  shows "job_row_ok job" "numbers_of (j_id job) (attempt_keys d) = [1..j_attempt_count job]"
    "numbers_of (j_id job) (dispatch_keys d) = [1..j_generation job]"
  using assms by (auto simp: jobs_inv_def job_ok_def)

lemma find_job_SomeD: "find_job i d = Some job \<Longrightarrow> job \<in> set (durable_jobs d) \<and> j_id job = i"
  unfolding find_job_def by (auto dest: find_SomeD)

lemma find_job_same_id:
  assumes "jobs_inv d" "job \<in> set (durable_jobs d)"
  shows "find_job (j_id job) d = Some job"
proof -
  obtain r where r: "find_job (j_id job) d = Some r"
    using assms(2) by (cases "find_job (j_id job) d") (auto simp: find_job_def find_None)
  then have "r \<in> set (durable_jobs d)" "j_id r = j_id job" by (auto dest: find_job_SomeD)
  then have "r = job" using assms by (auto simp: jobs_inv_def distinct_map inj_on_def)
  with r show ?thesis by simp
qed

lemma numbers_of_append [simp]:
  "numbers_of i (xs @ ys) = numbers_of i xs @ numbers_of i ys"
  "numbers_of i [k] = (if fst k = i then [snd k] else [])"
  by (simp_all add: numbers_of_def)

lemma key_simps [simp]:
  "attempt_keys (update_job job d) = attempt_keys d"
  "dispatch_keys (update_job job d) = dispatch_keys d"
  "attempt_keys (d\<lparr>task_dispatches := ts\<rparr>) = attempt_keys d"
  "dispatch_keys (d\<lparr>job_attempts := as\<rparr>) = dispatch_keys d"
  "dispatch_keys (d\<lparr>task_dispatches := task_dispatches d @ [r]\<rparr>) = dispatch_keys d @ [(td_job_id r, td_generation r)]"
  "attempt_keys (d\<lparr>job_attempts := job_attempts d @ [a]\<rparr>) = attempt_keys d @ [(ja_job_id a, ja_attempt_number a)]"
  "(\<And>a. ja_job_id (f a) = ja_job_id a \<and> ja_attempt_number (f a) = ja_attempt_number a) \<Longrightarrow>
     attempt_keys (d\<lparr>job_attempts := upd_row P f (job_attempts d)\<rparr>) = attempt_keys d"
  "(\<And>r. td_job_id (g r) = td_job_id r \<and> td_generation (g r) = td_generation r) \<Longrightarrow>
     dispatch_keys (d\<lparr>task_dispatches := upd_row Q g (task_dispatches d)\<rparr>) = dispatch_keys d"
  by (simp_all add: update_job_def attempt_keys_def dispatch_keys_def upd_row_def)

lemma update_job_simps [simp]:
  "job_attempts (update_job job d) = job_attempts d"
  "task_dispatches (update_job job d) = task_dispatches d"
  "orders (update_job job d) = orders d"
  "map j_id (durable_jobs (update_job job d)) = map j_id (durable_jobs d)"
  by (simp_all add: update_job_def upd_row_def)

lemma find_job_update [simp]:
  "find_job i (update_job job d) = (if i = j_id job then map_option (\<lambda>_. job) (find_job i d) else find_job i d)"
proof -
  have "find (\<lambda>r. j_id r = i) (upd_row (\<lambda>r. j_id r = j_id job) (\<lambda>_. job) rows) =
      (if i = j_id job then map_option (\<lambda>_. job) (find (\<lambda>r. j_id r = i) rows) else find (\<lambda>r. j_id r = i) rows)"
    for rows by (induction rows) auto
  then show ?thesis by (simp add: find_job_def update_job_def)
qed

lemma set_update_job:
  "job' \<in> set (durable_jobs (update_job job d)) \<longleftrightarrow>
     job' = job \<and> j_id job \<in> j_id ` set (durable_jobs d) \<or> job' \<in> set (durable_jobs d) \<and> j_id job' \<noteq> j_id job"
proof -
  have "(\<exists>r \<in> set (durable_jobs d). j_id r = j_id job) \<longleftrightarrow> j_id job \<in> j_id ` set (durable_jobs d)"
    by (auto simp: image_iff) metis
  then show ?thesis by (auto simp: update_job_def set_upd_row)
qed

text \<open>Every transaction changes at most one job row and appends at most one attempt and one
  task record of that job: this lemma carries the invariant over all of them.\<close>

lemma jobs_inv_change:
  assumes inv: "jobs_inv d" and old: "old \<in> set (durable_jobs d)"
    and new: "j_id new = j_id old" "j_job_key new = j_job_key old"
    and jobs: "durable_jobs d' = durable_jobs (update_job new d)"
    and ok: "job_row_ok new" "numbers_of (j_id old) (attempt_keys d') = [1..j_attempt_count new]"
      "numbers_of (j_id old) (dispatch_keys d') = [1..j_generation new]"
    and others: "\<And>i. i \<noteq> j_id old \<Longrightarrow> numbers_of i (attempt_keys d') = numbers_of i (attempt_keys d)"
      "\<And>i. i \<noteq> j_id old \<Longrightarrow> numbers_of i (dispatch_keys d') = numbers_of i (dispatch_keys d)"
    and fk: "fst ` set (attempt_keys d') \<subseteq> j_id ` set (durable_jobs d)"
      "fst ` set (dispatch_keys d') \<subseteq> j_id ` set (durable_jobs d)"
  shows "jobs_inv d'"
proof -
  have uniq: "r = old" if "r \<in> set (durable_jobs d)" "j_id r = j_id old" for r
    using that inv old by (auto simp: jobs_inv_def distinct_map inj_on_def)
  have ids: "map j_id (durable_jobs d') = map j_id (durable_jobs d)"
    by (simp add: jobs)
  then have id_set: "j_id ` set (durable_jobs d') = j_id ` set (durable_jobs d)"
    by (metis set_map)
  have "map j_job_key (durable_jobs d') = map j_job_key (durable_jobs d)"
    unfolding jobs update_job_def by (auto simp: upd_row_def new dest: uniq)
  moreover have "job_ok d' job" if "job \<in> set (durable_jobs d')" for job
    using that inv ok others new unfolding jobs set_update_job jobs_inv_def job_ok_def by auto
  ultimately show ?thesis
    using inv fk unfolding jobs_inv_def ids id_set by auto
qed


lemma jobs_inv_job_id: "jobs_inv d \<Longrightarrow> job \<in> set (durable_jobs d) \<Longrightarrow> j_id job \<in> j_id ` set (durable_jobs d)"
  by simp

text \<open>What adding a task record does.\<close>

lemma add_task_dispatch_Inr:
  assumes "add_task_dispatch job at_time now d = Inr (u, d')"
  shows "\<exists>r. d' = d\<lparr>task_dispatches := task_dispatches d @ [r]\<rparr> \<and> td_job_id r = j_id job \<and>
     td_generation r = j_generation job \<and> find_job (j_id job) d \<noteq> None \<and>
     deterministic_task_name (j_id job) (j_generation job) = Inr (td_task_name r) \<and> td_state r = PENDING"
  using assms
  by (auto simp: add_task_dispatch_def bind_res_Inr_iff insert_dispatch_def split: if_splits)

lemma upto_snoc: "0 \<le> n \<Longrightarrow> [1..n] @ [n + 1] = [1..n + 1 :: int]"
  using upto_rec2 [of 1 "n + 1"] by simp

text \<open>Leasing a claimable job always succeeds and does exactly this.\<close>

definition leased_row :: "job_row \<Rightarrow> string \<Rightarrow> datetime \<Rightarrow> int \<Rightarrow> job_row" where
  "leased_row job worker_id now lease_for =
     job\<lparr>j_attempt_count := j_attempt_count job + 1, j_state := LEASED, j_lease_owner := Some worker_id,
         j_lease_until := Some (dt_add now lease_for), j_updated_at := now\<rparr>"

definition opened_attempt :: "job_row \<Rightarrow> string \<Rightarrow> datetime \<Rightarrow> job_attempt_row" where
  "opened_attempt job worker_id now =
     \<lparr>ja_job_id = j_id job, ja_attempt_number = j_attempt_count job + 1, ja_worker_id = worker_id,
      ja_started_at = now, ja_finished_at = None, ja_outcome = None, ja_safe_error_code = None,
      ja_created_at = now\<rparr>"

definition claim_of :: "job_row \<Rightarrow> string \<Rightarrow> datetime \<Rightarrow> int \<Rightarrow> claimed_job" where
  "claim_of job worker_id now lease_for =
     \<lparr>cj_id = uuid_str (j_id job),
      cj_spec = \<lparr>spec_job_key = j_job_key job, spec_kind = j_kind job,
                 spec_order_id = uuid_str (j_order_id job), spec_max_attempts = j_max_attempts job\<rparr>,
      cj_attempt = j_attempt_count job + 1, cj_lease_owner = worker_id,
      cj_lease_until = dt_add now lease_for\<rparr>"

lemma lease_job_eq:
  assumes inv: "jobs_inv d" and job: "job \<in> set (durable_jobs d)"
  shows "lease_job job worker_id now lease_for d =
    Inr (claim_of job worker_id now lease_for,
      (update_job (leased_row job worker_id now lease_for) d)
        \<lparr>job_attempts := job_attempts d @ [opened_attempt job worker_id now]\<rparr>)"
proof -
  have row: "job_row_ok job" and nums: "numbers_of (j_id job) (attempt_keys d) = [1..j_attempt_count job]"
    using jobs_invD [OF inv job] by simp_all
  have "\<not> (ja_job_id a = j_id job \<and> ja_attempt_number a = j_attempt_count job + 1)"
    if "a \<in> set (job_attempts d)" for a
  proof
    assume "ja_job_id a = j_id job \<and> ja_attempt_number a = j_attempt_count job + 1"
    then have "j_attempt_count job + 1 \<in> set (numbers_of (j_id job) (attempt_keys d))"
      using that by (force simp: numbers_of_def attempt_keys_def)
    then show False by (simp add: nums)
  qed
  then have fresh: "list_all (\<lambda>a. (ja_job_id a, ja_attempt_number a) \<noteq> (j_id job, j_attempt_count job + 1)) (job_attempts d)"
    by (auto simp: list_all_iff)
  have spec: "j_job_key job \<noteq> []" "length (j_job_key job) \<le> 160" "1 \<le> j_max_attempts job"
    using row by (simp_all add: job_row_ok_def)
  show ?thesis
    using fresh spec find_job_same_id [OF inv job]
    by (simp add: lease_job_def Let_def bind_tx_def insert_attempt_def unique_defs lift_tx_def JobSpec_def
        leased_row_def opened_attempt_def claim_of_def)
qed

section \<open>What every job transaction keeps\<close>

text \<open>
  A job keeps its identity, and its attempts, its generation and its limit only grow.
  \<open>job_safe\<close> says that a step keeps the invariant and this order; it is a preorder, so the
  lemmas of \<open>preorder_on_states\<close> carry it from the transactions to the actions and handlers.
\<close>

definition job_grows :: "job_row \<Rightarrow> job_row \<Rightarrow> bool" where
  "job_grows job job' \<longleftrightarrow> j_id job' = j_id job \<and> j_job_key job' = j_job_key job \<and>
     j_order_id job' = j_order_id job \<and> j_kind job' = j_kind job \<and>
     j_attempt_count job \<le> j_attempt_count job' \<and> j_generation job \<le> j_generation job' \<and>
     j_max_attempts job \<le> j_max_attempts job'"

definition job_le :: "db \<Rightarrow> db \<Rightarrow> bool" where
  "job_le d d' \<longleftrightarrow> (\<forall>i job. find_job i d = Some job \<longrightarrow> (\<exists>job'. find_job i d' = Some job' \<and> job_grows job job'))"

definition job_safe :: "db \<Rightarrow> db \<Rightarrow> bool" where
  "job_safe d d' \<longleftrightarrow> (jobs_inv d \<longrightarrow> jobs_inv d' \<and> job_le d d')"

lemma job_grows_refl [simp]: "job_grows job job"
  by (simp add: job_grows_def)

lemma job_le_refl: "job_le d d"
  by (simp add: job_le_def)

lemma job_grows_trans: "job_grows a b \<Longrightarrow> job_grows b c \<Longrightarrow> job_grows a c"
  by (simp add: job_grows_def)

lemma job_le_trans: "job_le a b \<Longrightarrow> job_le b c \<Longrightarrow> job_le a c"
  unfolding job_le_def by (meson job_grows_trans)

interpretation job_keeping: preorder_on_states job_safe
  by unfold_locales (auto simp: job_safe_def intro: job_le_refl job_le_trans)

lemma job_safe_frame:
  "durable_jobs d' = durable_jobs d \<Longrightarrow> attempt_keys d' = attempt_keys d \<Longrightarrow>
   dispatch_keys d' = dispatch_keys d \<Longrightarrow> job_safe d d'"
  by (simp add: job_safe_def jobs_inv_def job_ok_def job_le_def find_job_def)

lemma job_le_update:
  assumes "find_job (j_id new) d = Some old" "job_grows old new"
    and "durable_jobs d' = durable_jobs (update_job new d)"
  shows "job_le d d'"
proof -
  have "find_job i d' = find_job i (update_job new d)" for i
    using assms(3) by (simp add: find_job_def)
  then show ?thesis using assms(1,2) by (auto simp: job_le_def)
qed

text \<open>A change of one row with at most one new attempt and one new task record, numbered next.\<close>

lemma job_safe_change:
  assumes find: "find_job (j_id new) d = Some old" and grows: "job_grows old new"
    and row: "job_row_ok old \<Longrightarrow> job_row_ok new"
    and jobs: "durable_jobs d' = durable_jobs (update_job new d)"
    and atts: "attempt_keys d' = attempt_keys d \<and> j_attempt_count new = j_attempt_count old \<or>
      attempt_keys d' = attempt_keys d @ [(j_id new, j_attempt_count old + 1)] \<and>
      j_attempt_count new = j_attempt_count old + 1"
    and gens: "dispatch_keys d' = dispatch_keys d \<and> j_generation new = j_generation old \<or>
      dispatch_keys d' = dispatch_keys d @ [(j_id new, j_generation old + 1)] \<and>
      j_generation new = j_generation old + 1"
  shows "job_safe d d'"
proof -
  have old: "old \<in> set (durable_jobs d)" "j_id old = j_id new"
    using find_job_SomeD [OF find] by simp_all
  then have id: "j_id new \<in> j_id ` set (durable_jobs d)" by (metis imageI)
  have "jobs_inv d'" if inv: "jobs_inv d"
  proof (rule jobs_inv_change [OF inv old(1), of new])
    note facts = jobs_invD [OF inv old(1)]
    show "job_row_ok new" using row facts by simp
    show "numbers_of (j_id old) (attempt_keys d') = [1..j_attempt_count new]"
      using atts facts old(2) upto_snoc [of "j_attempt_count old"] by (auto simp: job_row_ok_def)
    show "numbers_of (j_id old) (dispatch_keys d') = [1..j_generation new]"
      using gens facts old(2) upto_snoc [of "j_generation old"] by (auto simp: job_row_ok_def)
    show "fst ` set (attempt_keys d') \<subseteq> j_id ` set (durable_jobs d)"
      using atts inv id by (elim disjE) (simp_all add: jobs_inv_def)
    show "fst ` set (dispatch_keys d') \<subseteq> j_id ` set (durable_jobs d)"
      using gens inv id by (elim disjE) (simp_all add: jobs_inv_def)
  qed (use grows jobs atts gens old in \<open>auto simp: job_grows_def\<close>)
  moreover have "job_le d d'"
    by (rule job_le_update [OF find grows jobs])
  ultimately show ?thesis by (simp add: job_safe_def)
qed


text \<open>The claims.\<close>

lemma claim_query_Some:
  "claim_query now d = Some job \<Longrightarrow> job \<in> set (durable_jobs d) \<and> claimable now job"
  unfolding claim_query_def by (auto dest!: first_by_in)

lemma claim_query_None: "claim_query now d = None \<longleftrightarrow> (\<forall>job \<in> set (durable_jobs d). \<not> claimable now job)"
  by (auto simp: claim_query_def filter_empty_conv)

lemma job_safe_lease:
  assumes inv: "jobs_inv d" and job: "job \<in> set (durable_jobs d)"
    and room: "j_attempt_count job < j_max_attempts job"
    and lease: "lease_job job worker_id now lease_for d = Inr (c, d')"
  shows "job_safe d d'"
proof (rule job_safe_change [of "leased_row job worker_id now lease_for" d job])
  have d': "d' = (update_job (leased_row job worker_id now lease_for) d)
      \<lparr>job_attempts := job_attempts d @ [opened_attempt job worker_id now]\<rparr>"
    using lease lease_job_eq [OF inv job] by simp
  show "find_job (j_id (leased_row job worker_id now lease_for)) d = Some job"
    using find_job_same_id [OF inv job] by (simp add: leased_row_def)
  show "durable_jobs d' = durable_jobs (update_job (leased_row job worker_id now lease_for) d)"
    by (simp add: d')
  show "attempt_keys d' = attempt_keys d \<and>
      j_attempt_count (leased_row job worker_id now lease_for) = j_attempt_count job \<or>
      attempt_keys d' = attempt_keys d @ [(j_id (leased_row job worker_id now lease_for), j_attempt_count job + 1)] \<and>
      j_attempt_count (leased_row job worker_id now lease_for) = j_attempt_count job + 1"
    by (simp add: d' attempt_keys_def opened_attempt_def leased_row_def)
  show "dispatch_keys d' = dispatch_keys d \<and> j_generation (leased_row job worker_id now lease_for) = j_generation job \<or>
      dispatch_keys d' = dispatch_keys d @ [(j_id (leased_row job worker_id now lease_for), j_generation job + 1)] \<and>
      j_generation (leased_row job worker_id now lease_for) = j_generation job + 1"
    by (simp add: d' leased_row_def)
qed (use room in \<open>auto simp: job_grows_def leased_row_def job_row_ok_def\<close>)

lemma job_safe_claim: "claim_tx worker_id now lease_for d = Inr (c, d') \<Longrightarrow> job_safe d d'"
proof (cases "claim_query now d")
  case None
  assume "claim_tx worker_id now lease_for d = Inr (c, d')"
  with None show ?thesis by (simp add: claim_tx_def job_keeping.R_refl)
next
  case (Some job)
  assume "claim_tx worker_id now lease_for d = Inr (c, d')"
  with Some obtain c' where lease: "lease_job job worker_id now lease_for d = Inr (c', d')"
    by (auto simp: claim_tx_def bind_tx_Inr)
  have job: "job \<in> set (durable_jobs d)" "j_attempt_count job < j_max_attempts job"
    using claim_query_Some [OF Some] by (simp_all add: claimable_def)
  show ?thesis
    using job_safe_lease [OF _ job lease] by (auto simp: job_safe_def)
qed

lemma job_safe_claim_specific:
  assumes "claim_specific_tx ident generation worker_id now lease_for d = Inr (c, d')"
  shows "job_safe d d'"
proof -
  consider "d' = d"
    | job c' where "find_job ident d = Some job" "j_attempt_count job < j_max_attempts job"
      "lease_job job worker_id now lease_for d = Inr (c', d')"
    using assms by (auto simp: claim_specific_tx_def bind_tx_Inr split: option.splits if_splits)
  then show ?thesis
  proof cases
    case 1
    then show ?thesis by (simp add: job_keeping.R_refl)
  next
    case (2 job c')
    then show ?thesis
      using job_safe_lease [of d job worker_id now lease_for c' d'] find_job_SomeD [of ident d job]
      by (auto simp: job_safe_def)
  qed
qed

lemma job_safe_heartbeat:
  assumes "heartbeat_tx job_id worker_id attempt lease_until now d = Inr (x, d')"
  shows "job_safe d d'"
proof -
  consider "d' = d"
    | ident job where "find_job ident d = Some job" "j_lease_owner job = Some worker_id" "j_state job = LEASED"
      "d' = update_job (job\<lparr>j_lease_until := Some lease_until, j_updated_at := now\<rparr>) d"
    using assms by (auto simp: heartbeat_tx_def bind_res_Inr_iff split: option.splits if_splits)
  then show ?thesis
  proof cases
    case 1
    then show ?thesis by (simp add: job_keeping.R_refl)
  next
    case (2 ident job)
    show ?thesis
      by (rule job_safe_change [of "job\<lparr>j_lease_until := Some lease_until, j_updated_at := now\<rparr>" d job])
        (use 2 find_job_SomeD [OF 2(1)] in \<open>auto simp: job_grows_def job_row_ok_def\<close>)
  qed
qed


lemma finish_tx_cases:
  assumes "finish_tx job outcome now retry_at err d = Inr (target, d')"
  obtains ident stored final new d1 where
    "UUID (cj_id job) = Some ident" "find_job ident d = Some stored"
    "j_lease_owner stored = Some (cj_lease_owner job)" "j_attempt_count stored = cj_attempt job"
    "final = final_outcome stored outcome"
    "new = stored\<lparr>j_state := outcome_state final,
       j_available_at := (case retry_at of None \<Rightarrow> j_available_at stored | Some t \<Rightarrow> t),
       j_lease_owner := None, j_lease_until := None, j_safe_error_code := err, j_updated_at := now,
       j_generation := j_generation stored + (if final = O_RETRY then 1 else 0)\<rparr>"
    "d1 = d\<lparr>job_attempts := upd_row (is_attempt (j_id stored) (j_attempt_count stored))
       (\<lambda>a. a\<lparr>ja_finished_at := Some now, ja_outcome := Some final, ja_safe_error_code := err\<rparr>)
       (job_attempts d)\<rparr>"
    "final \<noteq> O_RETRY \<and> target = None \<and> d' = update_job new d1 \<or>
     final = O_RETRY \<and> (\<exists>t. retry_at = Some t \<and> add_task_dispatch new t now (update_job new d1) = Inr ((), d')) \<and>
     target = Some (j_id new, j_generation new)"
proof -
  from assms obtain ident where ident: "UUID (cj_id job) = Some ident"
    by (auto simp: finish_tx_def raw_uuid_def bind_res_Inr_iff split: option.splits)
  from assms ident obtain stored where stored: "find_job ident d = Some stored"
    by (auto simp: finish_tx_def raw_uuid_def split: option.splits)
  have owner: "j_lease_owner stored = Some (cj_lease_owner job)" "j_attempt_count stored = cj_attempt job"
    using assms by (auto simp: finish_tx_def raw_uuid_def ident stored split: if_splits)
  define final where "final = final_outcome stored outcome"
  have "final \<noteq> O_RETRY \<or> (\<exists>t. retry_at = Some t)"
    using assms owner by (auto simp: finish_tx_def raw_uuid_def ident stored final_def Let_def split: if_splits)
  then show thesis
    using that [OF ident stored owner final_def refl refl] assms owner
    by (cases final; cases retry_at)
      (auto simp: finish_tx_def raw_uuid_def ident stored Let_def final_def [symmetric] bind_tx_Inr split: if_splits)
qed

lemma job_safe_finish:
  assumes "finish_tx job outcome now retry_at err d = Inr (target, d')"
  shows "job_safe d d'"
  using assms
proof (cases rule: finish_tx_cases)
  case (1 ident stored final new d1)
  have id: "j_id stored = ident" using find_job_SomeD [OF 1(2)] by simp
  have keys: "attempt_keys d1 = attempt_keys d" "dispatch_keys d1 = dispatch_keys d" "durable_jobs d1 = durable_jobs d"
    by (simp_all add: 1(7))
  have jobs: "durable_jobs (update_job new d1) = durable_jobs (update_job new d)"
    by (simp add: update_job_def keys)
  show ?thesis
  proof (rule job_safe_change [of new d stored])
    show "find_job (j_id new) d = Some stored" using 1(2,6) id by simp
    show "job_grows stored new" using 1(6) by (simp add: job_grows_def)
    show "job_row_ok stored \<Longrightarrow> job_row_ok new"
      using 1(3,6) by (cases final) (auto simp: job_row_ok_def)
    show "durable_jobs d' = durable_jobs (update_job new d)"
      using 1(8) jobs by (auto dest!: add_task_dispatch_Inr)
    show "attempt_keys d' = attempt_keys d \<and> j_attempt_count new = j_attempt_count stored \<or>
        attempt_keys d' = attempt_keys d @ [(j_id new, j_attempt_count stored + 1)] \<and>
        j_attempt_count new = j_attempt_count stored + 1"
      using 1(6,8) keys by (auto dest!: add_task_dispatch_Inr)
    show "dispatch_keys d' = dispatch_keys d \<and> j_generation new = j_generation stored \<or>
        dispatch_keys d' = dispatch_keys d @ [(j_id new, j_generation stored + 1)] \<and>
        j_generation new = j_generation stored + 1"
      using 1(6,8) keys by (auto dest!: add_task_dispatch_Inr simp: dispatch_keys_def)
  qed
qed

lemma job_safe_insert:
  assumes jobs: "durable_jobs d' = durable_jobs d @ [job]" and row: "job_row_ok job"
    and zero: "j_attempt_count job = 0" "j_generation job = 1"
    and fresh: "unique_among j_id job (durable_jobs d)" "unique_among j_job_key job (durable_jobs d)"
    and keys: "attempt_keys d' = attempt_keys d" "dispatch_keys d' = dispatch_keys d @ [(j_id job, 1)]"
  shows "job_safe d d'"
proof -
  have new_id: "j_id job \<notin> j_id ` set (durable_jobs d)" "j_job_key job \<notin> j_job_key ` set (durable_jobs d)"
    using fresh by (auto simp: unique_among_def list_all_iff)
  have none: "numbers_of (j_id job) ks = []" if "fst ` set ks \<subseteq> j_id ` set (durable_jobs d)" for ks
    using that new_id by (auto simp: numbers_of_def filter_empty_conv)
  have "jobs_inv d'" if inv: "jobs_inv d"
  proof -
    have "fst ` set (attempt_keys d) \<subseteq> j_id ` set (durable_jobs d)"
      "fst ` set (dispatch_keys d) \<subseteq> j_id ` set (durable_jobs d)"
      using inv by (simp_all add: jobs_inv_def)
    then have "job_ok d' job"
      using none row zero by (simp add: job_ok_def keys)
    moreover have "job_ok d' r" if "r \<in> set (durable_jobs d)" for r
      using inv that new_id by (auto simp: jobs_inv_def job_ok_def keys)
    ultimately show ?thesis
      using inv new_id by (auto simp: jobs_inv_def jobs keys)
  qed
  moreover have "job_le d d'"
    by (auto simp: job_le_def find_job_def jobs find_append split: option.splits)
  ultimately show ?thesis by (simp add: job_safe_def)
qed

lemma insert_job_Inr:
  "insert_job job d = Inr (u, d') \<Longrightarrow> d' = d\<lparr>durable_jobs := durable_jobs d @ [job]\<rparr> \<and>
     unique_among j_id job (durable_jobs d) \<and> unique_among j_job_key job (durable_jobs d)"
  by (auto simp: insert_job_def split: if_splits)

lemma job_safe_insert_dispatch:
  assumes ins: "insert_job job d = Inr (u, d1)" and add: "add_task_dispatch job at_time now d1 = Inr (v, d')"
    and job: "job = new_job i key order_id kind n available_at now"
    and key: "key \<noteq> []" "length key \<le> 160" "1 \<le> n"
  shows "job_safe d d'"
proof (rule job_safe_insert [of d' d job])
  note facts = insert_job_Inr [OF ins] add_task_dispatch_Inr [OF add]
  show "durable_jobs d' = durable_jobs d @ [job]" using facts by auto
  show "unique_among j_id job (durable_jobs d)" "unique_among j_job_key job (durable_jobs d)"
    using facts by simp_all
  show "attempt_keys d' = attempt_keys d" using facts by (auto simp: attempt_keys_def)
  show "dispatch_keys d' = dispatch_keys d @ [(j_id job, 1)]"
    using facts by (auto simp: dispatch_keys_def job new_job_def)
qed (use key in \<open>simp_all add: job new_job_def job_row_ok_def\<close>)

lemma job_safe_enqueue:
  assumes "JobSpec spec = Inr spec" "enqueue_tx new_id spec available_at now d = Inr (x, d')"
  shows "job_safe d d'"
  using assms
  by (auto simp: enqueue_tx_def bind_res_Inr_iff bind_tx_Inr Let_def JobSpec_def split: if_splits
      intro: job_safe_insert_dispatch)

lemma job_safe_enqueue_fulfillment:
  assumes "enqueue_fulfillment_once new_id order now d = Inr (x, d')"
    and "o_fulfillment_key order \<noteq> []" "length (o_fulfillment_key order) \<le> 160"
  shows "job_safe d d'"
  using assms
  by (auto simp: enqueue_fulfillment_once_def bind_tx_Inr Let_def intro: job_safe_insert_dispatch)


lemma job_safe_replay:
  assumes "replay_tx job_id now d = Inr (x, d')"
  shows "job_safe d d'"
proof -
  consider "d' = d"
    | ident job where "find_job ident d = Some job" "j_state job = RETRY"
      "add_task_dispatch (job\<lparr>j_state := AVAILABLE, j_available_at := now, j_lease_owner := None,
         j_lease_until := None, j_safe_error_code := None,
         j_max_attempts := max (j_max_attempts job) (j_attempt_count job + 10),
         j_generation := j_generation job + 1, j_updated_at := now\<rparr>) now now
       (update_job (job\<lparr>j_state := AVAILABLE, j_available_at := now, j_lease_owner := None,
         j_lease_until := None, j_safe_error_code := None,
         j_max_attempts := max (j_max_attempts job) (j_attempt_count job + 10),
         j_generation := j_generation job + 1, j_updated_at := now\<rparr>) d) = Inr ((), d')"
    using assms by (auto simp: replay_tx_def bind_res_Inr_iff bind_tx_Inr Let_def split: option.splits if_splits)
  then show ?thesis
  proof cases
    case 1
    then show ?thesis by (simp add: job_keeping.R_refl)
  next
    case (2 ident job)
    define new where "new = job\<lparr>j_state := AVAILABLE, j_available_at := now, j_lease_owner := None,
         j_lease_until := None, j_safe_error_code := None,
         j_max_attempts := max (j_max_attempts job) (j_attempt_count job + 10),
         j_generation := j_generation job + 1, j_updated_at := now\<rparr>"
    have add: "add_task_dispatch new now now (update_job new d) = Inr ((), d')"
      using 2(3) by (simp add: new_def)
    show ?thesis
    proof (rule job_safe_change [of new d job])
      show "find_job (j_id new) d = Some job"
        using 2(1) find_job_SomeD [OF 2(1)] by (simp add: new_def)
      show "job_row_ok job \<Longrightarrow> job_row_ok new" using 2(2) by (auto simp: job_row_ok_def new_def)
      show "dispatch_keys d' = dispatch_keys d \<and> j_generation new = j_generation job \<or>
          dispatch_keys d' = dispatch_keys d @ [(j_id new, j_generation job + 1)] \<and>
          j_generation new = j_generation job + 1"
        using add_task_dispatch_Inr [OF add] by (auto simp: new_def dispatch_keys_def)
    qed (use add_task_dispatch_Inr [OF add] in \<open>auto simp: job_grows_def new_def\<close>)
  qed
qed

text \<open>The recovery of stale tasks. The rows it reads at the start are still current when the loop
  reaches them, since each turn changes another job.\<close>

definition recovered_row :: "datetime \<Rightarrow> job_row \<Rightarrow> job_row" where
  "recovered_row recovered_at job =
     (if j_lease_owner job \<noteq> None then job\<lparr>j_state := AVAILABLE, j_lease_owner := None, j_lease_until := None\<rparr>
      else job)\<lparr>j_generation := j_generation job + 1, j_updated_at := recovered_at\<rparr>"

lemma recover_one_Inr:
  assumes "recover_one recovered_at job d = Inr (p, d')"
  shows "durable_jobs d' = durable_jobs (update_job (recovered_row recovered_at job) d) \<and>
     attempt_keys d' = attempt_keys d \<and> dispatch_keys d' = dispatch_keys d @ [(j_id job, j_generation job + 1)] \<and>
     p = (j_id job, j_generation job + 1)"
proof -
  define d1 where "d1 = d\<lparr>task_dispatches := upd_row (is_dispatch (j_id job) (j_generation job))
        (\<lambda>r. r\<lparr>td_safe_error_code := Some ''superseded_stale_dispatch'', td_updated_at := recovered_at\<rparr>)
        (task_dispatches d)\<rparr>"
  define d2 where "d2 = (if j_lease_owner job \<noteq> None
      then d1\<lparr>job_attempts := upd_row (is_open_attempt (j_id job) (j_attempt_count job))
             (\<lambda>a. a\<lparr>ja_finished_at := Some recovered_at, ja_outcome := Some O_RETRY,
                    ja_safe_error_code := Some ''lease_expired_recovered''\<rparr>) (job_attempts d1)\<rparr>
      else d1)"
  have frame: "durable_jobs d2 = durable_jobs d" "attempt_keys d2 = attempt_keys d" "dispatch_keys d2 = dispatch_keys d"
    by (simp_all add: d2_def d1_def attempt_keys_def dispatch_keys_def upd_row_def)
  have add: "add_task_dispatch (recovered_row recovered_at job) recovered_at recovered_at
      (update_job (recovered_row recovered_at job) d2) = Inr ((), d')"
    and p: "p = (j_id job, j_generation job + 1)"
    using assms unfolding recover_one_def Let_def d1_def [symmetric] d2_def [symmetric]
    by (auto simp: bind_tx_Inr recovered_row_def split: if_splits)
  have jobs: "durable_jobs (update_job r d2) = durable_jobs (update_job r d)" for r
    by (simp add: update_job_def frame)
  obtain r where r: "d' = (update_job (recovered_row recovered_at job) d2)
      \<lparr>task_dispatches := task_dispatches (update_job (recovered_row recovered_at job) d2) @ [r]\<rparr>"
    "td_job_id r = j_id job" "td_generation r = j_generation job + 1"
    using add_task_dispatch_Inr [OF add] by (auto simp: recovered_row_def)
  have "dispatch_keys d' = dispatch_keys d2 @ [(j_id job, j_generation job + 1)]"
    by (simp add: dispatch_keys_def r)
  then show ?thesis using frame jobs p by (simp add: r attempt_keys_def)
qed

lemma job_safe_recover_one:
  assumes "recover_one recovered_at job d = Inr (p, d')" and "find_job (j_id job) d = Some job"
  shows "job_safe d d'"
  by (rule job_safe_change [of "recovered_row recovered_at job" d job])
    (use recover_one_Inr [OF assms(1)] assms(2) in \<open>auto simp: recovered_row_def job_grows_def job_row_ok_def\<close>)

lemma job_safe_recover_each:
  assumes "recover_each recovered_at jobs d = Inr (ps, d')"
    and "distinct (map j_id jobs)" "\<And>job. job \<in> set jobs \<Longrightarrow> find_job (j_id job) d = Some job"
  shows "job_safe d d'"
  using assms
proof (induction jobs arbitrary: d ps)
  case Nil
  then show ?case by (simp add: job_keeping.R_refl)
next
  case (Cons job jobs)
  then obtain p d1 qs where one: "recover_one recovered_at job d = Inr (p, d1)"
    and rest: "recover_each recovered_at jobs d1 = Inr (qs, d')"
    by (auto simp: bind_tx_Inr)
  have "find_job (j_id job') d1 = Some job'" if "job' \<in> set jobs" for job'
  proof -
    have "durable_jobs d1 = durable_jobs (update_job (recovered_row recovered_at job) d)"
      using recover_one_Inr [OF one] by simp
    then have "find_job (j_id job') d1 = find_job (j_id job') (update_job (recovered_row recovered_at job) d)"
      by (simp add: find_job_def)
    also have "\<dots> = find_job (j_id job') d"
    proof -
      have "j_id job' \<noteq> j_id job" using Cons.prems(2) imageI [OF that, of j_id] by auto
      then show ?thesis by (simp add: recovered_row_def)
    qed
    finally show ?thesis using Cons.prems(3) that by simp
  qed
  then have "job_safe d1 d'"
    using Cons.IH [OF rest] Cons.prems(2) by simp
  moreover have "job_safe d d1"
    using job_safe_recover_one [OF one] Cons.prems(3) by simp
  ultimately show ?case by (rule job_keeping.R_trans [rotated])
qed


lemma set_insert_by [simp]: "set (insert_by key r rows) = insert r (set rows)"
  by (induction rows) auto

lemma set_order_by [simp]: "set (order_by key rows) = set rows"
  by (induction rows) (auto simp: order_by_def)

lemma insert_by_distinct: "distinct (map f (insert_by key r rows)) \<longleftrightarrow> distinct (map f (r # rows))"
  by (induction rows) auto

lemma distinct_order_by: "distinct (map f (order_by key rows)) \<longleftrightarrow> distinct (map f rows)"
proof (induction rows)
  case (Cons r rows)
  have "order_by key (r # rows) = insert_by key r (order_by key rows)" by (simp add: order_by_def)
  moreover have "f ` set (order_by key rows) = f ` set rows" by simp
  ultimately show ?case using Cons by (simp add: insert_by_distinct)
qed (simp add: order_by_def)

lemma numbers_distinct_keys:
  assumes "distinct (numbers_of i keys)" "length (filter (\<lambda>k. k = (i, n)) keys) \<noteq> 0"
  shows "length (filter (\<lambda>k. k = (i, n)) keys) = 1"
  using assms
proof (induction keys)
  case (Cons k keys)
  show ?case
  proof (cases "k = (i, n)")
    case True
    then have "n \<notin> set (numbers_of i keys)" using Cons.prems(1) by (simp add: numbers_of_def)
    then have "filter (\<lambda>k. k = (i, n)) keys = []" by (force simp: filter_empty_conv numbers_of_def)
    then show ?thesis using True by simp
  next
    case False
    then show ?thesis using Cons by (auto simp: numbers_of_def split: if_splits)
  qed
qed simp

text \<open>A job joins with at most one task record of its generation, so the query lists it at most once.\<close>

lemma join_at_most_one:
  assumes "jobs_inv d" "job \<in> set (durable_jobs d)"
  shows "length (filter (is_dispatch (j_id job) g) (task_dispatches d)) \<le> 1"
proof -
  have "distinct (numbers_of (j_id job) (dispatch_keys d))"
    using jobs_invD(3) [OF assms] by simp
  then have "length (filter (\<lambda>k. k = (j_id job, g)) (dispatch_keys d)) \<le> 1"
    using numbers_distinct_keys [of "j_id job" "dispatch_keys d" g]
    by (cases "length (filter (\<lambda>k. k = (j_id job, g)) (dispatch_keys d)) = 0") simp_all
  then show ?thesis
    by (simp add: dispatch_keys_def filter_map comp_def is_dispatch_def [abs_def])
qed

lemma distinct_map_take: "distinct (map f xs) \<Longrightarrow> distinct (map f (take n xs))"
  by (simp add: take_map [symmetric])

lemma distinct_join:
  assumes "distinct (map key jobs)" "\<And>job. job \<in> set jobs \<Longrightarrow> length (part job) \<le> 1"
  shows "distinct (map (\<lambda>p. key (fst p)) (filter P (concat (map (\<lambda>job. map (Pair job) (part job)) jobs))))"
  using assms
proof (induction jobs)
  case (Cons job jobs)
  have in_rest: "fst p \<in> set jobs" if "p \<in> set (concat (map (\<lambda>job. map (Pair job) (part job)) jobs))" for p
    using that by auto
  have "length (filter P (map (Pair job) (part job))) \<le> 1"
    by (rule order_trans [OF length_filter_le]) (use Cons.prems(2) [of job] in simp)
  then consider "filter P (map (Pair job) (part job)) = []" | p where "filter P (map (Pair job) (part job)) = [p]"
    by (cases "filter P (map (Pair job) (part job))") auto
  then show ?case
  proof cases
    case 1
    then show ?thesis using Cons by simp
  next
    case (2 p)
    then have "p \<in> set (filter P (map (Pair job) (part job)))" by simp
    then have "fst p = job" by auto
    then show ?thesis using Cons 2 in_rest by fastforce
  qed
qed simp

lemma stale_query_jobs:
  assumes inv: "jobs_inv d"
  shows "distinct (map j_id (map fst (stale_query before at_time limit d)))"
    and "job \<in> set (map fst (stale_query before at_time limit d)) \<Longrightarrow> job \<in> set (durable_jobs d) \<and>
      j_attempt_count job < j_max_attempts job \<and> open_state (j_state job) \<and> lease_free at_time job"
proof -
  have ids: "distinct (map j_id (durable_jobs d))" using inv by (simp add: jobs_inv_def)
  show "distinct (map j_id (map fst (stale_query before at_time limit d)))"
    unfolding stale_query_def map_map comp_def
    by (intro distinct_map_take) (use distinct_join [OF ids join_at_most_one [OF inv]] in \<open>simp add: distinct_order_by\<close>)
  show "job \<in> set (durable_jobs d) \<and> j_attempt_count job < j_max_attempts job \<and> open_state (j_state job) \<and>
      lease_free at_time job"
    if "job \<in> set (map fst (stale_query before at_time limit d))"
    using that unfolding stale_query_def by (auto dest!: in_set_takeD)
qed

lemma job_safe_recover:
  assumes "recover_stale_tx stale_grace limit recovered_at d = Inr (ps, d')"
  shows "job_safe d d'"
proof -
  have "job_safe d d'" if inv: "jobs_inv d"
    using assms stale_query_jobs [OF inv] find_job_same_id [OF inv]
    unfolding recover_stale_tx_def by (intro job_safe_recover_each) auto
  then show ?thesis by (auto simp: job_safe_def)
qed

lemma job_safe_marks:
  "mark_create_failed job_id generation now d = Inr (x, d') \<Longrightarrow> job_safe d d'"
  "mark_dispatched job_id generation now d = Inr (y, d') \<Longrightarrow> job_safe d d'"
  by (auto simp: mark_create_failed_def mark_dispatched_def split: option.splits if_splits
      intro!: job_safe_frame)

lemmas job_safe_txs = job_safe_claim job_safe_claim_specific job_safe_heartbeat job_safe_finish job_safe_replay
  job_safe_recover job_safe_marks

end
