(* ===== verification/Leases.thy ===== *)
theory Leases
  imports Jobs
begin

text \<open>
  The properties of the durable jobs: the invariant over every sequence of job transactions,
  fencing of stale leases through the contract \<open>fenced_leases\<close>, what a claim returns, the
  behaviour of task names, payloads, dispatch and backoff.
\<close>

section \<open>Runs of job transactions\<close>

text \<open>
  The steps of the job tables: the committed transactions of the claim store, the dispatch
  coordinator and the operator, in any order and by any number of workers.
\<close>

inductive job_step :: "db \<Rightarrow> db \<Rightarrow> bool" where
  enqueued: "JobSpec spec = Inr spec \<Longrightarrow> enqueue_tx new_id spec available_at now d = Inr (x, d') \<Longrightarrow> job_step d d'"
| claimed: "claim_tx worker_id now lease_for d = Inr (c, d') \<Longrightarrow> job_step d d'"
| claimed_specific: "claim_specific_tx ident generation worker_id now lease_for d = Inr (c, d') \<Longrightarrow> job_step d d'"
| heartbeat: "heartbeat_tx job_id worker_id attempt lease_until now d = Inr (b, d') \<Longrightarrow> job_step d d'"
| finished: "finish_tx job outcome now retry_at err d = Inr (t, d') \<Longrightarrow> job_step d d'"
| create_failed: "mark_create_failed jid generation now d = Inr (u, d') \<Longrightarrow> job_step d d'"
| dispatched: "mark_dispatched jid generation now d = Inr (b, d') \<Longrightarrow> job_step d d'"
| recovered: "recover_stale_tx stale_grace limit recovered_at d = Inr (ps, d') \<Longrightarrow> job_step d d'"
| replayed: "replay_tx job_id now d = Inr (r, d') \<Longrightarrow> job_step d d'"
| elsewhere: "durable_jobs d' = durable_jobs d \<Longrightarrow> job_attempts d' = job_attempts d \<Longrightarrow>
    task_dispatches d' = task_dispatches d \<Longrightarrow> job_step d d'"

lemma job_step_safe: "job_step d d' \<Longrightarrow> job_safe d d'"
  by (induction rule: job_step.induct)
    (auto intro: job_safe_txs job_safe_enqueue job_safe_frame simp: attempt_keys_def dispatch_keys_def)

lemma job_steps_safe: "job_step\<^sup>*\<^sup>* d d' \<Longrightarrow> job_safe d d'"
  by (induction rule: rtranclp_induct) (auto intro: job_keeping.R_refl job_keeping.R_trans job_step_safe)

lemma jobs_inv_empty: "jobs_inv empty_db"
  by (simp add: jobs_inv_def empty_db_def attempt_keys_def dispatch_keys_def)

section \<open>Fencing\<close>

text \<open>
  The contract of a store of leases with attempt numbers: attempts only grow, a claim takes
  the next number, and a completion is accepted only for the current number. Two things
  follow for every client: no two claims of one key share a number, and a holder whose key
  was claimed again can no longer complete.
\<close>

locale fenced_leases =
  fixes inv :: "'s \<Rightarrow> bool" and step :: "'s \<Rightarrow> 's \<Rightarrow> bool" and attempts :: "'s \<Rightarrow> 'k \<Rightarrow> int"
    and claims :: "'s \<Rightarrow> 'k \<Rightarrow> int \<Rightarrow> 's \<Rightarrow> bool" and completes :: "'s \<Rightarrow> 'k \<Rightarrow> int \<Rightarrow> bool"
  assumes step_inv: "inv s \<Longrightarrow> step s t \<Longrightarrow> inv t"
    and step_attempts: "inv s \<Longrightarrow> step s t \<Longrightarrow> attempts s k \<le> attempts t k"
    and claim_step: "inv s \<Longrightarrow> claims s k n t \<Longrightarrow> step s t"
    and claim_next: "inv s \<Longrightarrow> claims s k n t \<Longrightarrow> n = attempts s k + 1 \<and> attempts t k = n"
    and complete_current: "inv s \<Longrightarrow> completes s k n \<Longrightarrow> n = attempts s k"
begin

lemma steps_attempts: "step\<^sup>*\<^sup>* s t \<Longrightarrow> inv s \<Longrightarrow> inv t \<and> attempts s k \<le> attempts t k"
  by (induction rule: rtranclp_induct) (auto dest: step_inv step_attempts [of _ _ k] intro: order_trans)

lemma later_claim_greater:
  assumes "inv s" "claims s k n t" "step\<^sup>*\<^sup>* t u" "claims u k m v"
  shows "n < m"
proof -
  have "inv t" using assms step_inv claim_step by blast
  then have "inv u" "attempts t k \<le> attempts u k" using steps_attempts [OF assms(3)] by auto
  then show ?thesis using claim_next [OF assms(1,2)] claim_next [OF _ assms(4)] by simp
qed

lemma stale_holder_rejected:
  assumes "inv s" "claims s k n t" "step\<^sup>*\<^sup>* t u" "claims u k m v" "step\<^sup>*\<^sup>* v w"
  shows "\<not> completes w k n"
proof
  assume "completes w k n"
  have "inv t" using assms step_inv claim_step by blast
  then have "inv u" using steps_attempts [OF assms(3)] by auto
  then have "inv v" using assms(4) step_inv claim_step by blast
  then have "inv w" "attempts v k \<le> attempts w k" using steps_attempts [OF assms(5)] by auto
  then show False
    using later_claim_greater [OF assms(1-4)] claim_next [OF \<open>inv u\<close> assms(4)]
      complete_current [OF \<open>inv w\<close> \<open>completes w k n\<close>] by simp
qed

end

definition job_attempt_count :: "db \<Rightarrow> uuid \<Rightarrow> int" where
  "job_attempt_count d i = (case find_job i d of None \<Rightarrow> 0 | Some job \<Rightarrow> j_attempt_count job)"

definition job_claims :: "db \<Rightarrow> uuid \<Rightarrow> int \<Rightarrow> db \<Rightarrow> bool" where
  "job_claims d i n d' \<longleftrightarrow> (\<exists>c. cj_id c = uuid_str i \<and> cj_attempt c = n \<and>
     ((\<exists>worker_id now lease_for. claim_tx worker_id now lease_for d = Inr (Some c, d')) \<or>
      (\<exists>ident generation worker_id now lease_for.
         claim_specific_tx ident generation worker_id now lease_for d = Inr (Some c, d'))))"

definition job_completes :: "db \<Rightarrow> uuid \<Rightarrow> int \<Rightarrow> bool" where
  "job_completes d i n \<longleftrightarrow> (\<exists>c outcome now retry_at err r. cj_id c = uuid_str i \<and> cj_attempt c = n \<and>
     finish_tx c outcome now retry_at err d = Inr r)"

text \<open>What a successful claim did.\<close>

definition leased_db :: "job_row \<Rightarrow> string \<Rightarrow> datetime \<Rightarrow> int \<Rightarrow> db \<Rightarrow> db" where
  "leased_db job worker_id now lease_for d = (update_job (leased_row job worker_id now lease_for) d)
     \<lparr>job_attempts := job_attempts d @ [opened_attempt job worker_id now]\<rparr>"

lemma find_job_other_tables [simp]:
  "find_job i (d\<lparr>job_attempts := as\<rparr>) = find_job i d"
  "find_job i (d\<lparr>task_dispatches := ts\<rparr>) = find_job i d"
  by (simp_all add: find_job_def)

lemma find_job_leased [simp]:
  "find_job i (leased_db job worker_id now lease_for d) =
     (if i = j_id job then map_option (\<lambda>_. leased_row job worker_id now lease_for) (find_job i d) else find_job i d)"
  by (simp add: leased_db_def) (simp add: leased_row_def)

lemma claim_effect:
  assumes inv: "jobs_inv d" and claim: "claim_tx worker_id now lease_for d = Inr (Some c, d')"
  obtains job where "claim_query now d = Some job" "job \<in> set (durable_jobs d)" "claimable now job"
    "c = claim_of job worker_id now lease_for"
    "d' = leased_db job worker_id now lease_for d"
proof -
  from claim obtain job where query: "claim_query now d = Some job"
    by (auto simp: claim_tx_def split: option.splits)
  with claim show thesis
    using that claim_query_Some [OF query] lease_job_eq [OF inv]
    by (auto simp: claim_tx_def bind_tx_def leased_db_def)
qed

lemma claim_specific_effect:
  assumes inv: "jobs_inv d"
    and claim: "claim_specific_tx ident generation worker_id now lease_for d = Inr (Some c, d')"
  obtains job where "find_job ident d = Some job" "j_generation job = generation" "claimable now job"
    "c = claim_of job worker_id now lease_for"
    "d' = leased_db job worker_id now lease_for d"
proof -
  from claim obtain job where job: "find_job ident d = Some job" "j_generation job = generation"
      "claimable now job" "lease_job job worker_id now lease_for d = Inr (c, d')"
    by (auto simp: claim_specific_tx_def claimable_def bind_tx_Inr not_le not_less
        split: option.splits if_splits)
  then show thesis
    using that lease_job_eq [OF inv] find_job_SomeD [OF job(1)] by (auto simp: leased_db_def)
qed

lemma job_claims_effect:
  assumes inv: "jobs_inv d" and claims: "job_claims d i n d'"
  obtains job where "find_job i d = Some job" "n = j_attempt_count job + 1"
    "\<exists>worker_id now lease_for. claimable now job \<and>
       d' = leased_db job worker_id now lease_for d"
proof -
  from claims obtain c where c: "cj_id c = uuid_str i" "cj_attempt c = n"
    and "(\<exists>worker_id now lease_for. claim_tx worker_id now lease_for d = Inr (Some c, d')) \<or>
      (\<exists>ident generation worker_id now lease_for.
         claim_specific_tx ident generation worker_id now lease_for d = Inr (Some c, d'))"
    unfolding job_claims_def by blast
  then consider (any) worker_id now lease_for where "claim_tx worker_id now lease_for d = Inr (Some c, d')"
    | (specific) ident generation worker_id now lease_for where
        "claim_specific_tx ident generation worker_id now lease_for d = Inr (Some c, d')"
    by blast
  then show thesis
  proof cases
    case any
    then obtain job where "job \<in> set (durable_jobs d)" "claimable now job"
      "c = claim_of job worker_id now lease_for" "d' = leased_db job worker_id now lease_for d"
      using claim_effect [OF inv] by metis
    then show ?thesis using that [of job] find_job_same_id [OF inv] c by (auto simp: claim_of_def)
  next
    case specific
    then obtain job where "find_job ident d = Some job" "claimable now job"
      "c = claim_of job worker_id now lease_for" "d' = leased_db job worker_id now lease_for d"
      using claim_specific_effect [OF inv] by metis
    then show ?thesis using that [of job] find_job_SomeD [of ident d job] c by (auto simp: claim_of_def)
  qed
qed

interpretation job_fence: fenced_leases jobs_inv job_step job_attempt_count job_claims job_completes
proof
  show "jobs_inv t" if "jobs_inv s" "job_step s t" for s t
    using that job_step_safe by (auto simp: job_safe_def)
  show "job_attempt_count s k \<le> job_attempt_count t k" if "jobs_inv s" "job_step s t" for s t k
  proof (cases "find_job k s")
    case None
    have "0 \<le> j_attempt_count job" if "find_job k t = Some job" for job
      using jobs_invD(1) [of t job] find_job_SomeD [OF that] job_step_safe [OF \<open>job_step s t\<close>] \<open>jobs_inv s\<close>
      by (simp add: job_safe_def job_row_ok_def)
    with None show ?thesis by (simp add: job_attempt_count_def split: option.splits)
  next
    case (Some job)
    with job_step_safe [OF \<open>job_step s t\<close>] \<open>jobs_inv s\<close>
    obtain job' where "find_job k t = Some job'" "job_grows job job'"
      by (auto simp: job_safe_def job_le_def)
    with Some show ?thesis by (simp add: job_attempt_count_def job_grows_def)
  qed
  show "job_step s t" if "jobs_inv s" "job_claims s k n t" for s k n t
    using that by (auto simp: job_claims_def intro: job_step.intros)
  show "n = job_attempt_count s k + 1 \<and> job_attempt_count t k = n"
    if "jobs_inv s" "job_claims s k n t" for s k n t
  proof -
    from that obtain job worker_id now lease_for where
      "find_job k s = Some job" "n = j_attempt_count job + 1"
      "t = leased_db job worker_id now lease_for s"
      by (metis job_claims_effect)
    moreover then have "j_id job = k" using find_job_SomeD by blast
    ultimately show ?thesis
      by (simp add: job_attempt_count_def leased_row_def)
  qed
  show "n = job_attempt_count s k" if "jobs_inv s" "job_completes s k n" for s k n
    using that
    by (auto simp: job_completes_def job_attempt_count_def elim!: finish_tx_cases)
qed

section \<open>Task names\<close>

lemma task_name_parts:
  "TASK_NAME (''timestamp-'' @ uuid_hex job_id @ ''-g'' @ digits) \<longleftrightarrow>
     match_head (\<lambda>c. is_digit c \<and> c \<noteq> CHR ''0'') is_digit 8 digits"
proof -
  have "list_all is_lower_hex (uuid_hex job_id)" using uuid_hex_lower_hex by (auto simp: list_all_iff)
  moreover have "drop 10 (''timestamp-'' @ s) = s" "drop 42 (''timestamp-'' @ s) = drop 32 s"
    "drop 44 (''timestamp-'' @ s) = drop 34 s" for s by simp_all
  ultimately show ?thesis by (simp add: TASK_NAME_def match_class_def)
qed

lemma int_str_generation:
  assumes "1 \<le> generation"
  shows "match_head (\<lambda>c. is_digit c \<and> c \<noteq> CHR ''0'') is_digit 8 (int_str generation) \<longleftrightarrow> generation \<le> 999999999"
proof -
  define n where "n = nat generation"
  obtain c cs where str: "nat_str n = c # cs" by (cases "nat_str n") auto
  have "0 < n" using assms by (simp add: n_def)
  then have "is_digit c \<and> c \<noteq> CHR ''0'' \<and> list_all is_digit cs"
    using nat_str_head [of n] nat_str_digits [of n] str by simp
  moreover have "length cs \<le> 8 \<longleftrightarrow> n < 10 ^ 9"
    using nat_str_length_le [of n 9] nat_str_length_ge [of 9 n] str by (cases "n < 10 ^ 9") auto
  moreover have "n < 10 ^ 9 \<longleftrightarrow> generation \<le> 999999999" using assms by (auto simp: n_def)
  ultimately show ?thesis using assms by (auto simp: int_str_def n_def [symmetric] str match_head_def)
qed

lemma deterministic_task_name_eq:
  "deterministic_task_name job_id generation =
     (if generation < 1 then Inl (ValueError ''task_generation_invalid'')
      else if generation \<le> 999999999
      then Inr (''timestamp-'' @ uuid_hex job_id @ ''-g'' @ int_str generation)
      else Inl (ValueError ''task_name_invalid''))"
proof -
  have "TASK_NAME (''timestamp-'' @ uuid_hex job_id @ ''-g'' @ int_str generation) \<longleftrightarrow> generation \<le> 999999999"
    if "\<not> generation < 1"
    using that by (simp only: task_name_parts int_str_generation not_less)
  then show ?thesis unfolding deterministic_task_name_def Let_def by simp
qed

section \<open>A sample database\<close>

definition sample_order :: order_row where
  "sample_order = \<lparr>o_id = 7, o_order_reference = ''ts_01ARZ3NDEKTSV4RRFFQ69G5FAV'',
     o_certificate_reference = ''SR-1'', o_manifest_digest = replicate 32 1, o_email = ''a@b.test'',
     o_amount_minor = 500, o_currency = ''usd'', o_product_version = ''1'', o_payment_mode = ''stripe_test'',
     o_payment_state = PAID, o_fulfillment_state = QUEUED, o_consent_terms_version = ''t1'',
     o_consent_privacy_version = ''p1'', o_consent_accepted_at = Aware 0,
     o_checkout_session_id = Some ''cs_test_1'', o_payment_intent_id = Some ''pi_1'',
     o_fulfillment_key = ''stamp:'' @ uuid_str 7, o_calendar_submitted_at = None, o_created_at = Aware 0,
     o_updated_at = Aware 0\<rparr>"

definition sample_job :: job_row where
  "sample_job = new_job 21 (o_fulfillment_key sample_order) 7 ''stamp_manifest_digest'' 10 (Aware 0) (Aware 0)"

definition sample_dispatch :: dispatch_row where
  "sample_dispatch = \<lparr>td_job_id = 21, td_generation = 1, td_task_name = ''timestamp-'' @ uuid_hex 21 @ ''-g1'',
     td_schedule_at = Aware 0, td_state = PENDING, td_attempt_count = 0, td_dispatched_at = None,
     td_safe_error_code = None, td_created_at = Aware 0, td_updated_at = Aware 0\<rparr>"

definition sample_db :: db where
  "sample_db = empty_db\<lparr>orders := [sample_order], durable_jobs := [sample_job], task_dispatches := [sample_dispatch]\<rparr>"

lemma sample_jobs_inv: "jobs_inv sample_db"
  by (simp add: jobs_inv_def sample_db_def sample_job_def sample_dispatch_def new_job_def job_ok_def job_row_ok_def
      empty_db_def attempt_keys_def dispatch_keys_def numbers_of_def sample_order_def)

lemma sample_claim:
  "claim_tx ''w1'' (Aware 0) (minutes 2) sample_db =
     Inr (Some (claim_of sample_job ''w1'' (Aware 0) (minutes 2)),
       leased_db sample_job ''w1'' (Aware 0) (minutes 2) sample_db)"
proof -
  have "claim_query (Aware 0) sample_db = Some sample_job" "sample_job \<in> set (durable_jobs sample_db)"
    by (simp_all add: claim_query_def sample_db_def claimable_def sample_job_def new_job_def open_state_def lease_free_def)
  then show ?thesis
    by (simp add: claim_tx_def lease_job_eq [OF sample_jobs_inv] bind_tx_def leased_db_def return_tx_def)
qed

lemma sample_task_names: "int_str 2 \<noteq> ''1''" "int_str 1 = ''1''" "''1'' \<noteq> int_str 2"
  by code_simp+

section \<open>Properties of the job store\<close>

text \<open>C6. After any sequence of enqueues, claims, heartbeats, completions, dispatches, recoveries and
  replays, by any number of workers, every job has used at most its allowed attempts, its
  attempts are recorded as 1, 2, ..., n without gap or duplicate, there is exactly one task
  record per generation, and it has an owner and a deadline exactly while it is leased.\<close>

theorem job_invariant_reachable:
  assumes "job_step\<^sup>*\<^sup>* empty_db d" and "job \<in> set (durable_jobs d)"
  shows "0 \<le> j_attempt_count job \<and> j_attempt_count job \<le> j_max_attempts job \<and>
     map ja_attempt_number (filter (\<lambda>a. ja_job_id a = j_id job) (job_attempts d)) = [1..j_attempt_count job] \<and>
     map td_generation (filter (\<lambda>r. td_job_id r = j_id job) (task_dispatches d)) = [1..j_generation job] \<and>
     (j_state job = LEASED \<longleftrightarrow> j_lease_owner job \<noteq> None) \<and> (j_state job = LEASED \<longleftrightarrow> j_lease_until job \<noteq> None)"
proof -
  have "jobs_inv d"
    using job_steps_safe [OF assms(1)] jobs_inv_empty by (simp add: job_safe_def)
  note facts = jobs_invD [OF this assms(2)]
  then show ?thesis
    unfolding job_row_ok_def numbers_of_def attempt_keys_def dispatch_keys_def
    by (auto simp: filter_map comp_def)
qed

theorem job_invariant_reachable_witness:
  "\<exists>d job. job_step\<^sup>*\<^sup>* empty_db d \<and> job \<in> set (durable_jobs d) \<and> 0 \<le> j_attempt_count job \<and>
     j_attempt_count job \<le> j_max_attempts job"
proof -
  define spec where "spec = \<lparr>spec_job_key = o_fulfillment_key sample_order, spec_kind = ''stamp_manifest_digest'',
    spec_order_id = uuid_str 7, spec_max_attempts = 10\<rparr>"
  define d0 where "d0 = empty_db\<lparr>orders := [sample_order]\<rparr>"
  have one: "int_str 1 = ''1''" by code_simp
  have 1: "job_step empty_db d0"
    by (rule job_step.elsewhere) (simp_all add: d0_def)
  have "JobSpec spec = Inr spec" by (simp add: JobSpec_def spec_def sample_order_def)
  moreover have "enqueue_tx 21 spec (Aware 0) (Aware 0) d0 = Inr (21, sample_db)"
    by (simp add: enqueue_tx_def raw_uuid_def spec_def Let_def bind_tx_def insert_job_def unique_defs d0_def
        empty_db_def find_order_def sample_order_def new_job_def add_task_dispatch_def deterministic_task_name_eq
        insert_dispatch_def find_job_def sample_db_def sample_job_def sample_dispatch_def one)
  ultimately have 2: "job_step d0 sample_db" by (rule job_step.enqueued)
  have reach: "job_step\<^sup>*\<^sup>* empty_db sample_db" using 1 2 by simp
  have job: "sample_job \<in> set (durable_jobs sample_db)" by (simp add: sample_db_def)
  show ?thesis using job_invariant_reachable [OF reach job] reach job by blast
qed

text \<open>C7. Fencing: once a job was claimed again, by whichever worker and after whatever other
  transactions, the completion of the earlier claim is refused and changes nothing, and its
  heartbeat is refused as well.\<close>

theorem stale_finish_rejected:
  assumes "jobs_inv d0" and "claim_tx w1 t1 l1 d0 = Inr (Some c, d1)" and "job_step\<^sup>*\<^sup>* d1 d2"
    and "claim_tx w2 t2 l2 d2 = Inr (Some c', d3)" and "cj_id c' = cj_id c" and "job_step\<^sup>*\<^sup>* d3 d4"
  shows "(\<exists>e. finish_tx c outcome now retry_at err d4 = Inl e) \<and>
     snd (finish create c outcome now retry_at err later d4) = d4 \<and>
     heartbeat_tx (cj_id c) w (cj_attempt c) lease_until now d4 = Inr (False, d4)"
proof -
  obtain job where job: "c = claim_of job w1 t1 l1" "job \<in> set (durable_jobs d0)"
    using claim_effect [OF assms(1,2)] by metis
  define i where "i = j_id job"
  have id: "cj_id c = uuid_str i" by (simp add: job i_def claim_of_def)
  have claims: "job_claims d0 i (cj_attempt c) d1" "job_claims d2 i (cj_attempt c') d3"
    using assms(2,4,5) id by (auto simp: job_claims_def)
  have rejected: "\<not> job_completes d4 i (cj_attempt c)"
    by (rule job_fence.stale_holder_rejected [OF assms(1) claims(1) assms(3) claims(2) assms(6)])
  then have "\<exists>e. finish_tx c outcome now retry_at err d4 = Inl e"
    using id unfolding job_completes_def by (metis sum.exhaust)
  moreover have "snd (finish create c outcome now retry_at err later d4) = d4"
    using calculation by (auto simp: finish_def bind_act_def)
  moreover have "heartbeat_tx (cj_id c) w (cj_attempt c) lease_until now d4 = Inr (False, d4)"
  proof -
    have d1: "jobs_inv d1" "jobs_inv d2" "jobs_inv d3"
      using assms job_fence.steps_attempts job_fence.step_inv job_step.claimed by blast+
    have "cj_attempt c < cj_attempt c'"
      by (rule job_fence.later_claim_greater [OF assms(1) claims(1) assms(3) claims(2)])
    moreover have "cj_attempt c' \<le> job_attempt_count d4 i"
      using job_fence.claim_next [OF d1(2) claims(2)] job_fence.steps_attempts [OF assms(6) d1(3), of i] by simp
    ultimately show ?thesis
      by (auto simp: heartbeat_tx_def raw_uuid_def id job_attempt_count_def split: option.splits)
  qed
  ultimately show ?thesis by blast
qed

theorem stale_finish_rejected_witness:
  "\<exists>c d1 c' d3. claim_tx ''w1'' (Aware 0) (minutes 2) sample_db = Inr (Some c, d1) \<and>
     claim_tx ''w2'' (Aware (minutes 3)) (minutes 2) d1 = Inr (Some c', d3) \<and> cj_id c' = cj_id c \<and>
     (\<exists>e. finish_tx c O_COMPLETE (Aware (minutes 4)) None None d3 = Inl e)"
proof -
  define c where "c = claim_of sample_job ''w1'' (Aware 0) (minutes 2)"
  define d1 where "d1 = leased_db sample_job ''w1'' (Aware 0) (minutes 2) sample_db"
  define job1 where "job1 = leased_row sample_job ''w1'' (Aware 0) (minutes 2)"
  define c' where "c' = claim_of job1 ''w2'' (Aware (minutes 3)) (minutes 2)"
  define d3 where "d3 = leased_db job1 ''w2'' (Aware (minutes 3)) (minutes 2) d1"
  have 1: "claim_tx ''w1'' (Aware 0) (minutes 2) sample_db = Inr (Some c, d1)"
    unfolding c_def d1_def by (rule sample_claim)
  have inv1: "jobs_inv d1"
    using 1 job_safe_claim sample_jobs_inv by (auto simp: job_safe_def)
  have query2: "claim_query (Aware (minutes 3)) d1 = Some job1" and mem2: "job1 \<in> set (durable_jobs d1)"
    by (simp_all add: claim_query_def d1_def leased_db_def update_job_def sample_db_def claimable_def sample_job_def
        new_job_def open_state_def lease_free_def leased_row_def job1_def duration_defs dt_add_def)
  have 2: "claim_tx ''w2'' (Aware (minutes 3)) (minutes 2) d1 = Inr (Some c', d3)"
    unfolding c'_def d3_def
    by (simp add: claim_tx_def query2 lease_job_eq [OF inv1] mem2 bind_tx_def leased_db_def return_tx_def)
  have 3: "cj_id c' = cj_id c" by (simp add: c_def c'_def job1_def claim_of_def leased_row_def)
  show ?thesis
    using stale_finish_rejected [OF sample_jobs_inv 1 rtranclp.rtrancl_refl 2 3 rtranclp.rtrancl_refl] 1 2 3
    by blast
qed

text \<open>C10. A claim takes a due job that nobody holds: it returns nothing exactly when no open job is due,
  unleased and below its attempt limit; otherwise it leases, among those, one that became
  available first (the oldest of them), for the given worker and time. It never raises.\<close>

theorem claim_takes_earliest_due:
  assumes "jobs_inv d"
  shows "(\<exists>job \<in> set (durable_jobs d). claimable now job \<and>
       (\<forall>other \<in> set (durable_jobs d). claimable now other \<longrightarrow>
          (micros (j_available_at job), micros (j_created_at job)) \<le>
          (micros (j_available_at other), micros (j_created_at other))) \<and>
       claim_tx worker_id now lease_for d =
         Inr (Some (claim_of job worker_id now lease_for), leased_db job worker_id now lease_for d)) \<or>
     claim_tx worker_id now lease_for d = Inr (None, d) \<and> (\<forall>job \<in> set (durable_jobs d). \<not> claimable now job)"
proof (cases "claim_query now d")
  case None
  then have "\<forall>job \<in> set (durable_jobs d). \<not> claimable now job" by (simp add: claim_query_None)
  moreover have "claim_tx worker_id now lease_for d = Inr (None, d)" using None by (simp add: claim_tx_def)
  ultimately show ?thesis by blast
next
  case (Some job)
  have "claim_tx worker_id now lease_for d =
      Inr (Some (claim_of job worker_id now lease_for), leased_db job worker_id now lease_for d)"
    using Some claim_query_Some [OF Some] lease_job_eq [OF assms]
    by (simp add: claim_tx_def bind_tx_def return_tx_def leased_db_def)
  moreover have "(micros (j_available_at job), micros (j_created_at job)) \<le>
      (micros (j_available_at other), micros (j_created_at other))"
    if "other \<in> set (durable_jobs d)" "claimable now other" for other
    using first_by_least [OF Some [unfolded claim_query_def], of other] that by simp
  ultimately show ?thesis using claim_query_Some [OF Some] by blast
qed

theorem claim_takes_earliest_due_witness:
  "claim_tx ''w1'' (Aware 0) (minutes 2) sample_db \<noteq> Inr (None, sample_db)"
  using claim_takes_earliest_due [OF sample_jobs_inv, of "Aware 0" "''w1''" "minutes 2"]
  by (auto simp: sample_db_def claimable_def sample_job_def new_job_def open_state_def lease_free_def)

text \<open>A job whose retry is accepted comes back: when attempts are left, completing with a retry
  time publishes a task record of the next generation, and from that time on a worker that
  receives that task obtains the next attempt.\<close>

theorem retry_is_reclaimable:
  assumes inv: "jobs_inv d" and fin: "finish_tx c O_RETRY now (Some t) err d = Inr (target, d')"
    and room: "cj_attempt c < j_max_attempts job" and job: "find_job ident d = Some job"
    and c: "cj_id c = uuid_str ident" and due: "micros t \<le> micros now'"
  shows "\<exists>c' d''. target = Some (ident, j_generation job + 1) \<and>
     claim_specific_tx ident (j_generation job + 1) worker_id now' lease_for d' = Inr (Some c', d'') \<and>
     cj_attempt c' = cj_attempt c + 1"
  using fin
proof (cases rule: finish_tx_cases)
  case (1 ident' stored final new d1)
  have same: "ident' = ident" "stored = job" using 1(1,2) c job by simp_all
  have final: "final = O_RETRY" using 1(4,5) room same by (simp add: final_outcome_def)
  have id: "j_id job = ident" using find_job_SomeD [OF job] by simp
  from 1(8) final have add: "add_task_dispatch new t now (update_job new d1) = Inr ((), d')"
    and target: "target = Some (j_id new, j_generation new)" by auto
  have new: "new = job\<lparr>j_state := RETRY, j_available_at := t, j_lease_owner := None, j_lease_until := None,
      j_safe_error_code := err, j_updated_at := now, j_generation := j_generation job + 1\<rparr>"
    using 1(6) same final by simp
  obtain r where d': "d' = (update_job new d1)\<lparr>task_dispatches := task_dispatches d1 @ [r]\<rparr>"
    "td_job_id r = ident" "td_generation r = j_generation job + 1"
    using add_task_dispatch_Inr [OF add] id by (auto simp: new)
  have "find_job ident d1 = Some job" using job 1(7) by simp
  then have found: "find_job ident d' = Some new" using id by (simp add: d' new)
  have disp: "find_dispatch ident (j_generation job + 1) d' \<noteq> None"
    using d' by (simp add: find_dispatch_def find_append split: option.splits)
  have inv': "jobs_inv d'" using job_safe_finish [OF fin] inv by (simp add: job_safe_def)
  have "lease_job new worker_id now' lease_for d' =
      Inr (claim_of new worker_id now' lease_for, leased_db new worker_id now' lease_for d')"
    using lease_job_eq [OF inv'] find_job_SomeD [OF found] by (simp add: leased_db_def)
  moreover have "j_attempt_count job = cj_attempt c" using 1(4) same by simp
  ultimately show ?thesis
    using found disp due room target id
    by (auto simp: claim_specific_tx_def new open_state_def lease_free_def bind_tx_def return_tx_def claim_of_def
        split: option.splits)
qed

theorem retry_is_reclaimable_witness:
  "\<exists>c d1 target d2 c' d3. claim_tx ''w1'' (Aware 0) (minutes 2) sample_db = Inr (Some c, d1) \<and>
     finish_tx c O_RETRY (Aware 1) (Some (Aware 30)) None d1 = Inr (target, d2) \<and>
     target = Some (21, 2) \<and>
     claim_specific_tx 21 2 ''w2'' (Aware 40) (minutes 2) d2 = Inr (Some c', d3) \<and> cj_attempt c' = 2"
proof -
  define c where "c = claim_of sample_job ''w1'' (Aware 0) (minutes 2)"
  define d1 where "d1 = leased_db sample_job ''w1'' (Aware 0) (minutes 2) sample_db"
  define job1 where "job1 = leased_row sample_job ''w1'' (Aware 0) (minutes 2)"
  have claim: "claim_tx ''w1'' (Aware 0) (minutes 2) sample_db = Inr (Some c, d1)"
    unfolding c_def d1_def by (rule sample_claim)
  have inv1: "jobs_inv d1" using claim job_safe_claim sample_jobs_inv by (auto simp: job_safe_def)
  have job1: "find_job 21 d1 = Some job1"
    by (simp add: d1_def job1_def sample_db_def find_job_def sample_job_def new_job_def leased_db_def update_job_def
        leased_row_def)
  have c: "cj_id c = uuid_str 21" "cj_attempt c = 1" "cj_lease_owner c = ''w1''"
    by (simp_all add: c_def claim_of_def sample_job_def new_job_def)
  have row: "j_generation job1 = 1" "j_max_attempts job1 = 10" "j_attempt_count job1 = 1"
    "j_lease_owner job1 = Some ''w1''" "j_id job1 = 21"
    by (simp_all add: job1_def leased_row_def sample_job_def new_job_def)
  have "\<exists>r. finish_tx c O_RETRY (Aware 1) (Some (Aware 30)) None d1 = Inr r"
    by (simp add: finish_tx_def raw_uuid_def c job1 row final_outcome_def Let_def bind_tx_def add_task_dispatch_def
        deterministic_task_name_eq insert_dispatch_def unique_defs return_tx_def)
      (simp add: d1_def leased_db_def is_attempt_def opened_attempt_def update_job_def sample_db_def empty_db_def
        sample_job_def new_job_def sample_dispatch_def find_job_def leased_row_def sample_task_names)
  then obtain target d2 where fin: "finish_tx c O_RETRY (Aware 1) (Some (Aware 30)) None d1 = Inr (target, d2)"
    by (metis surj_pair)
  show ?thesis
    using retry_is_reclaimable [OF inv1 fin, of job1 21 "Aware 40" "''w2''" "minutes 2"] claim fin c row job1
    by auto
qed

text \<open>C40. A worker that dies during the last allowed attempt leaves the job leased for ever: neither a
  claim, nor the delivery of any of its tasks, nor the recovery of stale tasks takes it up
  again, however much time passes, and the operator's replay refuses it.\<close>

theorem exhausted_lease_is_stuck:
  assumes inv: "jobs_inv d" and job: "find_job ident d = Some job"
    and exhausted: "j_attempt_count job = j_max_attempts job" and leased: "j_state job = LEASED"
  shows "(claim_tx worker_id now lease_for d = Inr (c, d1) \<longrightarrow> find_job ident d1 = Some job) \<and>
     (claim_specific_tx ident generation worker_id now lease_for d = Inr (c', d2) \<longrightarrow> c' = None \<and> d2 = d) \<and>
     (recover_stale_tx grace limit now d = Inr (ps, d3) \<longrightarrow> find_job ident d3 = Some job) \<and>
     replay_tx (uuid_str ident) now d = Inl (ValueError ''job_not_replayable'')"
proof (intro conjI impI)
  assume "claim_tx worker_id now lease_for d = Inr (c, d1)"
  then show "find_job ident d1 = Some job"
  proof (cases c)
    case (Some c0)
    then obtain job0 where "claimable now job0" "job0 \<in> set (durable_jobs d)"
      "d1 = leased_db job0 worker_id now lease_for d"
      using claim_effect [OF inv] \<open>claim_tx worker_id now lease_for d = Inr (c, d1)\<close> by metis
    moreover then have "j_id job0 \<noteq> ident"
      using find_job_same_id [OF inv, of job0] job exhausted by (auto simp: claimable_def)
    ultimately show ?thesis using job by simp
  qed (use job in \<open>auto simp: claim_tx_def bind_tx_Inr split: option.splits\<close>)
next
  assume spec: "claim_specific_tx ident generation worker_id now lease_for d = Inr (c', d2)"
  show "c' = None" "d2 = d"
    using spec job exhausted leased
    by (auto simp: claim_specific_tx_def open_state_def split: option.splits if_splits)
next
  assume rec: "recover_stale_tx grace limit now d = Inr (ps, d3)"
  define jobs where "jobs = map fst (stale_query (dt_add now (- grace)) now limit d)"
  have "j_id r \<noteq> ident" if "r \<in> set jobs" for r
    using stale_query_jobs(2) [OF inv] that find_job_same_id [OF inv, of r] job exhausted
    by (fastforce simp: jobs_def)
  moreover have "recover_each now jobs d = Inr (ps, d3)" using rec by (simp add: recover_stale_tx_def jobs_def)
  ultimately show "find_job ident d3 = Some job"
    using job
  proof (induction jobs arbitrary: d ps)
    case (Cons r rs)
    then obtain p e qs where one: "recover_one now r d = Inr (p, e)" and rest: "recover_each now rs e = Inr (qs, d3)"
      by (auto simp: bind_tx_Inr)
    have "find_job ident e = find_job ident (update_job (recovered_row now r) d)"
      using recover_one_Inr [OF one] by (simp add: find_job_def)
    also have "\<dots> = Some job"
    proof -
      have "j_id r \<noteq> ident" using Cons.prems(1) by simp
      then show ?thesis using Cons.prems(3) by (simp add: recovered_row_def)
    qed
    finally show ?case using Cons.IH [OF _ rest] Cons.prems by simp
  qed simp
next
  show "replay_tx (uuid_str ident) now d = Inl (ValueError ''job_not_replayable'')"
    using job leased by (simp add: replay_tx_def operator_uuid_def)
qed


theorem exhausted_lease_is_stuck_witness:
  "\<exists>d job. jobs_inv d \<and> find_job 21 d = Some job \<and> j_state job = LEASED \<and>
     replay_tx (uuid_str 21) (Aware (days 30)) d = Inl (ValueError ''job_not_replayable'')"
proof -
  define job where "job = sample_job\<lparr>j_state := LEASED, j_attempt_count := 10, j_lease_owner := Some ''w1'',
      j_lease_until := Some (Aware 0)\<rparr>"
  define d where "d = sample_db\<lparr>durable_jobs := [job],
      job_attempts := map (\<lambda>n. (opened_attempt sample_job ''w1'' (Aware 0))\<lparr>ja_attempt_number := n\<rparr>) [1..10]\<rparr>"
  have inv: "jobs_inv d"
    by (simp add: jobs_inv_def d_def job_def sample_db_def sample_job_def sample_dispatch_def new_job_def job_ok_def
        job_row_ok_def empty_db_def attempt_keys_def dispatch_keys_def numbers_of_def sample_order_def
        opened_attempt_def upto.simps)
  have job: "find_job 21 d = Some job" "j_attempt_count job = j_max_attempts job" "j_state job = LEASED"
    by (simp_all add: d_def job_def find_job_def sample_job_def new_job_def)
  show ?thesis
    using exhausted_lease_is_stuck [OF inv job(1,2,3), of "''w''" "Aware (days 30)"] inv job by blast
qed

text \<open>Enqueueing is idempotent on the job key: when a job with the key exists, a second
  \<open>enqueue_once\<close>, whatever else the specification asks for, reports that nothing was created
  and leaves every table as it is (with a coordinator it re-sends the task of that job).\<close>

theorem enqueue_once_idempotent:
  assumes "find_job_by_key (spec_job_key spec) d = Some job" and "UUID (spec_order_id spec) = Some oid"
  shows "enqueue_once None new_id spec available_at now later d = (Inr False, d)"
proof -
  have "job \<in> set (durable_jobs d)" "j_job_key job = spec_job_key spec"
    using assms(1) find_SomeD [of "\<lambda>r. j_job_key r = spec_job_key spec"] by (auto simp: find_job_by_key_def)
  then have "\<not> unique_among j_job_key
      (new_job new_id (spec_job_key spec) oid (spec_kind spec) (spec_max_attempts spec) available_at now) (durable_jobs d)"
    by (auto simp: unique_among_def list_all_iff new_job_def)
  then have "enqueue_tx new_id spec available_at now d = Inl IntegrityError"
    using assms(2) by (simp add: enqueue_tx_def raw_uuid_def Let_def bind_tx_def insert_job_def)
  then show ?thesis
    by (simp add: enqueue_once_def assms(1) dispatch_if_def bind_act_def)
qed

theorem enqueue_once_idempotent_witness:
  "enqueue_once None 99 \<lparr>spec_job_key = ''stamp:'' @ uuid_str 7, spec_kind = ''other'', spec_order_id = uuid_str 7,
     spec_max_attempts = 3\<rparr> (Aware 5) (Aware 5) (Aware 6) sample_db = (Inr False, sample_db)"
proof (rule enqueue_once_idempotent [where job = sample_job and oid = 7])
  show "find_job_by_key (spec_job_key \<lparr>spec_job_key = ''stamp:'' @ uuid_str 7, spec_kind = ''other'',
      spec_order_id = uuid_str 7, spec_max_attempts = 3\<rparr>) sample_db = Some sample_job"
    by (simp add: find_job_by_key_def sample_db_def sample_job_def new_job_def sample_order_def)
qed simp

text \<open>A task name identifies the job and the generation: it is defined exactly for the generations
  1 to 999999999, and two tasks with the same name are the same task.\<close>

theorem deterministic_task_name_injective:
  "((\<exists>n. deterministic_task_name job_id generation = Inr n) \<longleftrightarrow> 1 \<le> generation \<and> generation \<le> 999999999) \<and>
   (case (deterministic_task_name job_id generation, deterministic_task_name job_id' generation') of
      (Inr n, Inr n') \<Rightarrow> n = n' \<longleftrightarrow> job_id = job_id' \<and> generation = generation'
    | _ \<Rightarrow> True)"
proof -
  have "(''timestamp-'' @ uuid_hex job_id @ ''-g'' @ int_str generation =
      ''timestamp-'' @ uuid_hex job_id' @ ''-g'' @ int_str generation') \<longleftrightarrow>
      job_id = job_id' \<and> generation = generation'"
    by (simp add: append_eq_append_conv)
  then show ?thesis by (auto simp: deterministic_task_name_eq)
qed

text \<open>The payload of a task holds no character of a secret: it is built from these characters.\<close>

lemma payload_chars:
  "list_all (\<lambda>c. lower_char c = c \<and> c \<noteq> CHR ''@'' \<and> c \<noteq> CHR ''k'') (nat_str n)"
  "list_all (\<lambda>c. lower_char c = c \<and> c \<noteq> CHR ''@'' \<and> c \<noteq> CHR ''k'') (uuid_str u)"
proof -
  have digit: "lower_char c = c \<and> c \<noteq> CHR ''@'' \<and> c \<noteq> CHR ''k''" if "is_lower_hex c \<or> c = CHR ''-''" for c
    using that
    by (auto simp: is_lower_hex_def is_digit_def lower_char_def is_upper_def code_def)
  show "list_all (\<lambda>c. lower_char c = c \<and> c \<noteq> CHR ''@'' \<and> c \<noteq> CHR ''k'') (nat_str n)"
    using nat_str_digits [of n] digit by (auto simp: list_all_iff is_lower_hex_def)
  show "list_all (\<lambda>c. lower_char c = c \<and> c \<noteq> CHR ''@'' \<and> c \<noteq> CHR ''k'') (uuid_str u)"
    using uuid_str_chars [of _ u] digit by (auto simp: list_all_iff)
qed

lemma contains_char: "contains xs needle \<Longrightarrow> c \<in> set needle \<Longrightarrow> c \<in> set xs"
  by (auto simp: contains_iff_sublist dest: set_mono_sublist)

lemma task_payload_ok:
  assumes "1 \<le> generation" "generation \<le> 999999999"
  shows "task_payload job_id generation = Inr (''{'' @ quoted ''generation'' @ '':'' @ int_str generation @ '','' @
     quoted ''job_id'' @ '':'' @ quoted (uuid_str job_id) @ ''}'')"
proof -
  define payload where "payload = ''{'' @ quoted ''generation'' @ '':'' @ int_str generation @ '','' @
     quoted ''job_id'' @ '':'' @ quoted (uuid_str job_id) @ ''}''"
  have str: "int_str generation = nat_str (nat generation)" using assms by (simp add: int_str_def)
  have const: "list_all (\<lambda>c. lower_char c = c \<and> c \<noteq> CHR ''@'' \<and> c \<noteq> CHR ''k'') (''{'' @ quoted ''generation'' @ '':'')"
    "list_all (\<lambda>c. lower_char c = c \<and> c \<noteq> CHR ''@'' \<and> c \<noteq> CHR ''k'') ('','' @ quoted ''job_id'' @ '':'' @ quoted '''' @ ''}'')"
    by code_simp+
  have chars: "list_all (\<lambda>c. lower_char c = c \<and> c \<noteq> CHR ''@'' \<and> c \<noteq> CHR ''k'') payload"
    using const payload_chars(1) [of "nat generation"] payload_chars(2) [of job_id]
    by (simp add: payload_def str quoted_def)
  have "str_lower payload = payload"
    using chars by (simp add: str_lower_def list_all_iff map_idI)
  moreover have "\<not> contains payload ''@''" "\<not> contains payload ''token''"
    using chars contains_char [of payload "''@''" "CHR ''@''"] contains_char [of payload "''token''" "CHR ''k''"]
    by (auto simp: list_all_iff)
  moreover have "length payload \<le> 128"
  proof -
    have "nat generation < 10 ^ 9" using assms by simp
    then have "length (nat_str (nat generation)) \<le> 9" using nat_str_length_le [of "nat generation" 9] by simp
    then show ?thesis by (simp add: payload_def quoted_def str)
  qed
  ultimately show ?thesis
    unfolding task_payload_def Let_def payload_def [symmetric] by simp
qed

text \<open>What is sent to Cloud Tasks is the generation and the job id and nothing else: for every
  generation a task name exists for, the payload is built, has at most 128 bytes, and the
  checks for an address or a token never fire.\<close>

theorem task_payload_total:
  assumes "deterministic_task_name job_id generation = Inr name"
  shows "\<exists>payload. task_payload job_id generation = Inr payload \<and> length payload \<le> 128 \<and>
     payload = ''{'' @ quoted ''generation'' @ '':'' @ int_str generation @ '','' @ quoted ''job_id'' @ '':'' @
       quoted (uuid_str job_id) @ ''}''"
proof -
  have range: "1 \<le> generation" "generation \<le> 999999999"
    using assms by (auto simp: deterministic_task_name_eq split: if_splits)
  then have "length (int_str generation) \<le> 9"
    using nat_str_length_le [of "nat generation" 9] by (simp add: int_str_def)
  then show ?thesis using task_payload_ok [OF range] by (simp add: quoted_def)
qed

theorem task_payload_total_witness:
  "\<exists>payload. task_payload 21 3 = Inr payload \<and> length payload \<le> 128"
proof -
  have "deterministic_task_name 21 3 = Inr (''timestamp-'' @ uuid_hex 21 @ ''-g'' @ int_str 3)"
    by (simp add: deterministic_task_name_eq)
  from task_payload_total [OF this] show ?thesis by blast
qed

text \<open>The retry delay is never negative and never exceeds the maximum by more than the jitter; with
  the default policy the first delays are 24 to 36 seconds and none exceeds 7.2 hours.\<close>

theorem backoff_delay_bounds:
  "(case backoff_delay BackoffPolicy attempt jitter of
      Inl e \<Rightarrow> attempt < 1 \<or> jitter < 0 \<or> 1 < jitter
    | Inr delay \<Rightarrow> 1 \<le> attempt \<and> 24 \<le> delay \<and> delay \<le> 25920 \<and> delay \<le> 36 * 2 ^ nat (attempt - 1))"
proof (cases "attempt < 1 \<or> \<not> (0 \<le> jitter \<and> jitter \<le> 1)")
  case False
  define x :: rat where "x = 2 ^ nat (attempt - 1)"
  define e where "e = min 21600 (30 * x)"
  define f where "f = 4 / 5 + 2 / 5 * jitter"
  have x: "1 \<le> x" by (simp add: x_def)
  have e: "30 \<le> e" "e \<le> 21600" "e \<le> 30 * x" using x by (auto simp: e_def)
  have f: "4 / 5 \<le> f" "f \<le> 6 / 5" using False by (auto simp: f_def)
  have low: "24 \<le> e * f" using mult_mono [OF e(1) f(1)] e by simp
  have high: "e * f \<le> 25920" "e * f \<le> 36 * x"
    using mult_mono [OF e(2) f(2)] mult_mono [OF e(3) f(2)] e f x by auto
  have val: "backoff_delay BackoffPolicy attempt jitter = Inr (max 0 (e * f))"
    using False by (simp add: backoff_delay_def BackoffPolicy_def Let_def e_def f_def x_def algebra_simps)
  show ?thesis
    using low high False by (auto simp: val max_def e_def x_def)
qed (auto simp: backoff_delay_def BackoffPolicy_def)

end
