(* ===== verification/Evidence.thy ===== *)
theory Evidence
  imports Leases
begin

text \<open>
  The SQL adapters of fulfillment, \<open>db/fulfillment_adapters.py\<close>, and the confirmation
  observations of \<open>db/notification_adapters.py\<close>: the proof store, the order repository with
  its audited transitions, the verifications, the observations and the bundles. Each method
  is a transaction or a read of the database. SHA-256 is the parameter \<open>sha\<close>; the clock is
  an argument. \<open>session.get\<close> of the row whose metadata was just read in the same transaction
  yields that row, so the two re-checks of \<open>latest_for_order\<close> cannot fail here.
\<close>

section \<open>Helpers\<close>

definition merge_calendar_time :: "order_row \<Rightarrow> datetime option \<Rightarrow> exn + order_row" where
  "merge_calendar_time order supplied =
     (case supplied of
        None \<Rightarrow> Inr order
      | Some t \<Rightarrow>
          (case o_calendar_submitted_at order of
             None \<Rightarrow> Inr (order\<lparr>o_calendar_submitted_at := Some (aware t)\<rparr>)
           | Some t' \<Rightarrow> if aware t' \<noteq> aware t then Inl (ValueError ''calendar_submission_time_conflict'')
                       else Inr order))"

text \<open>The flush of an order at the end of a transaction: only a changed row is written.\<close>

definition flush_order :: "order_row \<Rightarrow> order_row \<Rightarrow> unit db_tx" where
  "flush_order before after d = (if after = before then Inr ((), d) else update_order after d)"

definition require_aware :: "datetime \<Rightarrow> string \<Rightarrow> exn + unit" where
  "require_aware t error_code = require (is_aware t) (ValueError error_code)"

definition validate_verified :: "bitcoin_verification \<Rightarrow> exn + unit" where
  "validate_verified v =
     (if \<not> bv_verified v then Inl (ValueError ''verification_result_must_be_verified'')
      else case (bv_verified_at v, bv_block_time v) of
          (Some verified_at, Some block_time) \<Rightarrow>
            bind_res (require_aware verified_at ''verification_time_invalid'') (\<lambda>_.
            bind_res (require_aware block_time ''verification_block_time_invalid'') (\<lambda>_.
              if (case bv_block_height v of None \<Rightarrow> True | Some h \<Rightarrow> h < 0)
              then Inl (ValueError ''verification_height_invalid'')
              else if (case bv_block_hash v of None \<Rightarrow> True | Some h \<Rightarrow> \<not> valid_block_hash h)
              then Inl (ValueError ''verification_block_hash_invalid'')
              else if \<not> (1 \<le> length (bv_method v) \<and> length (bv_method v) \<le> 128) \<or>
                      (case bv_confirmation_policy v of None \<Rightarrow> True | Some p \<Rightarrow> p = [] \<or> 128 < length p)
              then Inl (ValueError ''verification_method_or_policy_invalid'')
              else if (case bv_confirmations v of None \<Rightarrow> True | Some n \<Rightarrow> n < 1)
              then Inl (ValueError ''verification_confirmation_count_invalid'')
              else Inr ()))
        | _ \<Rightarrow> Inl (ValueError ''verification_metadata_incomplete''))"

text \<open>The columns of a verified result; \<open>validate_verified\<close> has made sure that they are there.\<close>

record verified_columns =
  vc_verified_at :: datetime
  vc_block_height :: int
  vc_block_hash :: string
  vc_block_time :: datetime
  vc_confirmation_policy :: string
  vc_confirmations :: int

definition verified_columns_of :: "bitcoin_verification \<Rightarrow> exn + verified_columns" where
  "verified_columns_of v =
     bind_res (validate_verified v) (\<lambda>_.
       case (bv_verified_at v, bv_block_height v, bv_block_hash v, bv_block_time v, bv_confirmation_policy v,
             bv_confirmations v) of
         (Some va, Some h, Some bh, Some bt, Some cp, Some n) \<Rightarrow>
           Inr \<lparr>vc_verified_at = va, vc_block_height = h, vc_block_hash = bh, vc_block_time = bt,
                vc_confirmation_policy = cp, vc_confirmations = n\<rparr>
       | _ \<Rightarrow> Inl AssertionError)"

definition verification_payload :: "bitcoin_verification \<Rightarrow> exn + verification_metadata" where
  "verification_payload v =
     bind_res (verified_columns_of v) (\<lambda>c.
       Inr \<lparr>vm_block_height = vc_block_height c, vm_block_hash = vc_block_hash c, vm_block_time = vc_block_time c,
            vm_confirmation_policy = vc_confirmation_policy c, vm_confirmations = vc_confirmations c,
            vm_method = bv_method v, vm_verified_at = vc_verified_at c\<rparr>)"

definition verification_from_payload :: "verification_metadata \<Rightarrow> exn + bitcoin_verification" where
  "verification_from_payload m =
     (case BitcoinVerification \<lparr>bv_verified = True, bv_method = vm_method m, bv_verified_at = Some (vm_verified_at m),
             bv_block_height = Some (vm_block_height m), bv_block_hash = Some (vm_block_hash m),
             bv_block_time = Some (vm_block_time m), bv_confirmation_policy = Some (vm_confirmation_policy m),
             bv_confirmations = Some (vm_confirmations m)\<rparr> of
        Inl e \<Rightarrow> if is_ValueError e then Inl (ValueError ''stored_verification_metadata_invalid'') else Inl e
      | Inr v \<Rightarrow> Inr v)"

definition insert_verification :: "uuid \<Rightarrow> int \<Rightarrow> bitcoin_verification \<Rightarrow> datetime \<Rightarrow> unit db_tx" where
  "insert_verification order_id proof_version v now d =
     bind_res (verified_columns_of v) (\<lambda>c.
       insert_verification_row
         \<lparr>ve_order_id = order_id, ve_proof_version = proof_version, ve_method = bv_method v,
          ve_verified_at = vc_verified_at c, ve_block_height = vc_block_height c, ve_block_hash = vc_block_hash c,
          ve_block_time = vc_block_time c, ve_confirmation_policy = vc_confirmation_policy c, ve_created_at = now\<rparr> d)"

definition verification_of_row :: "verification_row \<Rightarrow> int \<Rightarrow> exn + bitcoin_verification" where
  "verification_of_row r confirmations =
     BitcoinVerification \<lparr>bv_verified = True, bv_method = ve_method r, bv_verified_at = Some (aware (ve_verified_at r)),
       bv_block_height = Some (ve_block_height r), bv_block_hash = Some (ve_block_hash r),
       bv_block_time = Some (aware (ve_block_time r)), bv_confirmation_policy = Some (ve_confirmation_policy r),
       bv_confirmations = Some confirmations\<rparr>"

definition stored_proof_of ::
  "(bytes \<Rightarrow> bytes) \<Rightarrow> proof_row \<Rightarrow> string \<Rightarrow> verification_row option \<Rightarrow> int option \<Rightarrow> bool \<Rightarrow> exn + stored_proof" where
  "stored_proof_of sha r order_reference separate confirmation_count project =
     bind_res (case (separate, confirmation_count, project) of
         (Some v, Some n, True) \<Rightarrow> bind_res (verification_of_row v n) (\<lambda>b. Inr (Some b))
       | _ \<Rightarrow> Inr None) (\<lambda>verification0.
     bind_res (case (verification0, pv_verification_metadata r) of
         (None, Some m) \<Rightarrow> if project then bind_res (verification_from_payload m) (\<lambda>b. Inr (Some b)) else Inr None
       | _ \<Rightarrow> Inr verification0) (\<lambda>verification.
     if pv_proof_byte_length r \<noteq> int (length (pv_proof_bytes r)) then Inl (ValueError ''stored_proof_length_invalid'')
     else bind_res (OrderReference order_reference) (\<lambda>ref.
       bind_res (digest_from_bytes (pv_target_digest r)) (\<lambda>digest.
         StoredProof sha
           \<lparr>sp_order_reference = ref, sp_version = pv_version r, sp_target_digest = digest,
            sp_proof_bytes = pv_proof_bytes r, sp_proof_sha256 = pv_proof_sha256 r,
            sp_proof_state = (if verification \<noteq> None then PS_BITCOIN_VERIFIED else PS_CALENDAR_PENDING),
            sp_calendar_submitted_at = aware (pv_calendar_submitted_at r), sp_verification = verification\<rparr>))))"

record fulfillment_order =
  fo_id :: string
  fo_state :: order_state
  fo_calendar_submitted_at :: "datetime option"

definition order_state_of :: "order_row \<Rightarrow> exn + order_state" where
  "order_state_of r =
     bind_res (OrderReference (o_order_reference r)) (\<lambda>ref.
     bind_res (CertificateReference (o_certificate_reference r)) (\<lambda>cert.
     bind_res (digest_from_bytes (o_manifest_digest r)) (\<lambda>digest.
     bind_res (OrderSnapshot
         \<lparr>snap_order_reference = ref, snap_certificate_reference = cert, snap_manifest_digest = digest,
          snap_email = o_email r, snap_amount_minor = o_amount_minor r, snap_currency = o_currency r,
          snap_product_version = o_product_version r, snap_payment_mode = o_payment_mode r,
          snap_consent_terms_version = o_consent_terms_version r,
          snap_consent_privacy_version = o_consent_privacy_version r,
          snap_consent_accepted_at = aware (o_consent_accepted_at r)\<rparr>) (\<lambda>snap.
       Inr \<lparr>st_snapshot = snap, st_payment = o_payment_state r, st_fulfillment = o_fulfillment_state r\<rparr>))))"

definition fulfillment_order_of :: "order_row \<Rightarrow> exn + fulfillment_order" where
  "fulfillment_order_of r =
     bind_res (order_state_of r) (\<lambda>st.
       Inr \<lparr>fo_id = uuid_str (o_id r), fo_state = st,
            fo_calendar_submitted_at = map_option aware (o_calendar_submitted_at r)\<rparr>)"

section \<open>SqlProofStore\<close>

definition latest_proof :: "uuid \<Rightarrow> db \<Rightarrow> proof_row option" where
  "latest_proof order_id d = last_by pv_version (filter (\<lambda>r. pv_order_id r = order_id) (proof_versions d))"

definition find_verification :: "uuid \<Rightarrow> int \<Rightarrow> db \<Rightarrow> verification_row option" where
  "find_verification order_id v d =
     find (\<lambda>r. ve_order_id r = order_id \<and> ve_proof_version r = v) (proof_verifications d)"

definition latest_observation :: "uuid \<Rightarrow> int \<Rightarrow> db \<Rightarrow> observation_row option" where
  "latest_observation order_id v d =
     last_by (\<lambda>r. (micros (ob_observed_at r), micros (ob_created_at r), ob_id r))
       (filter (\<lambda>r. ob_order_id r = order_id \<and> ob_proof_version r = v) (confirmation_observations d))"

definition validate_metadata :: "proof_row \<Rightarrow> exn + unit" where
  "validate_metadata r =
     (if \<not> (1 \<le> pv_proof_byte_length r \<and> pv_proof_byte_length r \<le> int MAX_PROOF_BYTES) \<or>
         int (length (pv_proof_bytes r)) \<noteq> pv_proof_byte_length r \<or>
         length (pv_proof_sha256 r) \<noteq> 32 \<or> length (pv_target_digest r) \<noteq> 32
      then Inl (ValueError ''stored_proof_metadata_invalid'') else Inr ())"

definition latest_for_order :: "(bytes \<Rightarrow> bytes) \<Rightarrow> order_row \<Rightarrow> db \<Rightarrow> exn + stored_proof option" where
  "latest_for_order sha order d =
     (case latest_proof (o_id order) d of
        None \<Rightarrow> Inr None
      | Some proof \<Rightarrow>
          bind_res (validate_metadata proof) (\<lambda>_.
            let verification = find_verification (o_id order) (pv_version proof) d;
                observation = (if verification \<noteq> None then latest_observation (o_id order) (pv_version proof) d else None);
                project_verification =
                  (o_fulfillment_state order = BITCOIN_VERIFIED \<or> o_fulfillment_state order = DELIVERED)
            in bind_res (stored_proof_of sha proof (o_order_reference order) verification
                   (map_option ob_observed_confirmations observation) project_verification) (\<lambda>p. Inr (Some p))))"

definition proofs_latest :: "(bytes \<Rightarrow> bytes) \<Rightarrow> order_reference \<Rightarrow> db \<Rightarrow> exn + stored_proof option" where
  "proofs_latest sha ref d =
     (case find_order_by_reference ref d of None \<Rightarrow> Inr None | Some order \<Rightarrow> latest_for_order sha order d)"

definition append_tx :: "(bytes \<Rightarrow> bytes) \<Rightarrow> stored_proof \<Rightarrow> datetime \<Rightarrow> unit db_tx" where
  "append_tx sha p now d =
     (if \<not> (1 \<le> proof_byte_length p \<and> proof_byte_length p \<le> MAX_PROOF_BYTES)
      then Inl (ValueError ''proof_size_invalid'')
      else case find_order_by_reference (sp_order_reference p) d of
          None \<Rightarrow> Inl (ValueError ''proof_order_not_found'')
        | Some order \<Rightarrow>
            if o_manifest_digest order \<noteq> sp_target_digest p
            then Inl (ValueError ''proof_target_does_not_match_order'')
            else bind_res (merge_calendar_time order (Some (sp_calendar_submitted_at p))) (\<lambda>order1.
              let latest = latest_proof (o_id order) d;
                  add = (\<lambda>metadata.
                    bind_tx (flush_order order order1) (\<lambda>_.
                    bind_tx (insert_proof
                      \<lparr>pv_order_id = o_id order, pv_version = sp_version p, pv_target_digest = sp_target_digest p,
                       pv_proof_bytes = sp_proof_bytes p, pv_proof_sha256 = sp_proof_sha256 p,
                       pv_proof_byte_length = int (proof_byte_length p), pv_proof_state = sp_proof_state p,
                       pv_calendar_submitted_at = sp_calendar_submitted_at p,
                       pv_verification_metadata = metadata, pv_created_at = now\<rparr>) (\<lambda>_.
                      case sp_verification p of
                        None \<Rightarrow> return_tx ()
                      | Some v \<Rightarrow> insert_verification (o_id order) (sp_version p) v now)) d)
              in if (case latest of None \<Rightarrow> False | Some l \<Rightarrow> sp_version p = pv_version l)
                 then (case latest of
                         None \<Rightarrow> Inl AssertionError
                       | Some l \<Rightarrow>
                           bind_res (stored_proof_of sha l (o_order_reference order) None None True) (\<lambda>stored.
                             if stored = p then flush_order order order1 d
                             else Inl (ValueError ''proof_version_conflict'')))
                 else if latest = None \<and> sp_version p \<noteq> 1
                 then Inl (ValueError ''first_proof_version_must_be_one'')
                 else if (case latest of None \<Rightarrow> False | Some l \<Rightarrow> sp_version p \<noteq> pv_version l + 1)
                 then Inl (ValueError ''proof_version_must_append'')
                 else if (case latest of None \<Rightarrow> False | Some l \<Rightarrow> pv_target_digest l \<noteq> sp_target_digest p)
                 then Inl (ValueError ''proof_target_is_immutable'')
                 else case sp_verification p of
                     None \<Rightarrow> add None
                   | Some v \<Rightarrow> bind_res (verification_payload v) (\<lambda>m. add (Some m))))"

section \<open>SqlFulfillmentRepository\<close>

definition get_for_fulfillment :: "string \<Rightarrow> db \<Rightarrow> exn + fulfillment_order option" where
  "get_for_fulfillment order_id d =
     bind_res (parse_uuid order_id) (\<lambda>i.
       case find_order i d of
         None \<Rightarrow> Inr None
       | Some order \<Rightarrow> bind_res (fulfillment_order_of order) (\<lambda>fo. Inr (Some fo)))"

definition next_sequence :: "uuid \<Rightarrow> db \<Rightarrow> int" where
  "next_sequence order_id d = max_of ev_sequence (filter (\<lambda>e. ev_order_id e = order_id) (state_events d)) + 1"

definition find_event :: "uuid \<Rightarrow> string \<Rightarrow> db \<Rightarrow> state_event_row option" where
  "find_event order_id event_key d =
     find (\<lambda>e. ev_order_id e = order_id \<and> ev_event_key e = event_key) (state_events d)"

definition transition_fulfillment_once_tx ::
  "string \<Rightarrow> fulfillment_state \<Rightarrow> string \<Rightarrow> datetime option \<Rightarrow> datetime \<Rightarrow> fulfillment_order db_tx" where
  "transition_fulfillment_once_tx order_id target event_key calendar_submitted_at now d =
     (if event_key = [] \<or> 160 < length event_key then Inl (ValueError ''fulfillment_event_key_invalid'')
      else bind_res (case calendar_submitted_at of None \<Rightarrow> Inr ()
            | Some t \<Rightarrow> require_aware t ''calendar_submission_time_invalid'') (\<lambda>_.
        bind_res (parse_uuid order_id) (\<lambda>i.
        case find_order i d of
          None \<Rightarrow> Inl (ValueError ''fulfillment_order_not_found'')
        | Some order \<Rightarrow>
            (case find_event (o_id order) event_key d of
               Some existing \<Rightarrow>
                 if ev_fulfillment_state existing \<noteq> target then Inl (ValueError ''fulfillment_event_key_conflict'')
                 else bind_res (merge_calendar_time order calendar_submitted_at) (\<lambda>order1.
                        bind_tx (lift_tx (fulfillment_order_of order1)) (\<lambda>fo.
                        bind_tx (flush_order order order1) (\<lambda>_. return_tx fo)) d)
             | None \<Rightarrow>
                 bind_res (order_state_of order) (\<lambda>current.
                 bind_res (transition_fulfillment current target) (\<lambda>transitioned.
                 bind_res (merge_calendar_time order calendar_submitted_at) (\<lambda>order1.
                   if target = CALENDAR_PENDING \<and> o_calendar_submitted_at order1 = None
                   then Inl (ValueError ''calendar_submission_time_required'')
                   else let order2 = order1\<lparr>o_fulfillment_state := st_fulfillment transitioned, o_updated_at := now\<rparr>
                     in bind_tx (flush_order order order2) (\<lambda>_.
                        bind_tx (insert_state_event
                          \<lparr>ev_order_id = o_id order, ev_sequence = next_sequence (o_id order) d,
                           ev_event_key = event_key, ev_source = ''fulfillment_worker'',
                           ev_previous_payment_state = Some (o_payment_state order),
                           ev_payment_state = o_payment_state order2,
                           ev_previous_fulfillment_state = Some (o_fulfillment_state order),
                           ev_fulfillment_state = o_fulfillment_state order2,
                           ev_evidence = (case o_calendar_submitted_at order2 of None \<Rightarrow> NoEvidence
                             | Some t \<Rightarrow> CalendarEvidence (aware t)),
                           ev_created_at = o_updated_at order2\<rparr>) (\<lambda>_.
                        lift_tx (fulfillment_order_of order2))) d)))))))"

section \<open>SqlVerificationRepository\<close>

definition stored_verification_matches :: "verification_row \<Rightarrow> bitcoin_verification \<Rightarrow> bool" where
  "stored_verification_matches stored result \<longleftrightarrow>
     ve_method stored = bv_method result \<and> Some (ve_block_height stored) = bv_block_height result \<and>
     Some (ve_block_hash stored) = bv_block_hash result \<and>
     Some (aware (ve_block_time stored)) = map_option aware (bv_block_time result) \<and>
     Some (ve_confirmation_policy stored) = bv_confirmation_policy result"

definition put_verified_once_tx :: "string \<Rightarrow> int \<Rightarrow> bitcoin_verification \<Rightarrow> datetime \<Rightarrow> unit db_tx" where
  "put_verified_once_tx order_id proof_version result now d =
     bind_res (validate_verified result) (\<lambda>_.
     bind_res (parse_uuid order_id) (\<lambda>i.
       case find_order i d of
         None \<Rightarrow> Inl (ValueError ''verification_order_not_found'')
       | Some order \<Rightarrow>
           (case find_proof i proof_version d of
              None \<Rightarrow> Inl (ValueError ''verification_proof_not_found'')
            | Some proof \<Rightarrow>
                if pv_target_digest proof \<noteq> o_manifest_digest order
                then Inl (ValueError ''verification_proof_target_conflict'')
                else (case find_verification i proof_version d of
                        Some existing \<Rightarrow>
                          if \<not> stored_verification_matches existing result
                          then Inl (ValueError ''verification_conflict'') else Inr ((), d)
                      | None \<Rightarrow> insert_verification i proof_version result now d))))"

definition observation_matches_verification :: "observation_row \<Rightarrow> verification_row \<Rightarrow> bool" where
  "observation_matches_verification ob v \<longleftrightarrow>
     ob_block_height ob = ve_block_height v \<and> ob_block_hash ob = ve_block_hash v \<and>
     ob_method ob = ve_method v \<and> ob_confirmation_policy ob = ve_confirmation_policy v"

definition get_verified :: "string \<Rightarrow> int \<Rightarrow> db \<Rightarrow> exn + bitcoin_verification option" where
  "get_verified order_id proof_version d =
     bind_res (parse_uuid order_id) (\<lambda>i.
       case find_verification i proof_version d of
         None \<Rightarrow> Inr None
       | Some v \<Rightarrow>
           (case latest_observation i proof_version d of
              None \<Rightarrow> Inl (ValueError ''verification_confirmation_observation_missing'')
            | Some ob \<Rightarrow>
                if \<not> observation_matches_verification ob v
                then Inl (ValueError ''verification_confirmation_observation_mismatch'')
                else bind_res (verification_of_row v (ob_observed_confirmations ob)) (\<lambda>b. Inr (Some b))))"

section \<open>SqlBundleRepository\<close>

text \<open>\<open>bytes.lower\<close> changes the ASCII letters; \<open>str.encode\<close> writes a Latin-1 character above 127 as
  two bytes.\<close>

definition byte_lower :: "8 word \<Rightarrow> 8 word" where
  "byte_lower b = (if 65 \<le> b \<and> b \<le> 90 then b + 32 else b)"

definition bytes_lower :: "bytes \<Rightarrow> bytes" where
  "bytes_lower bs = map byte_lower bs"

definition utf8_char :: "char \<Rightarrow> bytes" where
  "utf8_char c = (if code c < 128 then [word_of_nat (code c)]
     else [word_of_nat (192 + code c div 64), word_of_nat (128 + code c mod 64)])"

definition utf8 :: "string \<Rightarrow> bytes" where
  "utf8 s = concat (map utf8_char s)"

definition bundle_is_sensitive :: "string \<Rightarrow> bytes \<Rightarrow> bool" where
  "bundle_is_sensitive email bundle \<longleftrightarrow>
     (let lowered = bytes_lower bundle in
      contains lowered (utf8 (str_lower email)) \<or> contains lowered (utf8 ''status_token'') \<or>
      contains lowered (utf8 ''authorization: bearer''))"

definition find_bundle :: "uuid \<Rightarrow> int \<Rightarrow> db \<Rightarrow> bundle_row option" where
  "find_bundle order_id v d =
     find (\<lambda>r. pb_order_id r = order_id \<and> pb_proof_version r = v) (proof_bundles d)"

definition MAX_BUNDLE_BYTES :: nat where "MAX_BUNDLE_BYTES = 12582912"

definition put_bundle_once_tx :: "(bytes \<Rightarrow> bytes) \<Rightarrow> string \<Rightarrow> int \<Rightarrow> bytes \<Rightarrow> datetime \<Rightarrow> unit db_tx" where
  "put_bundle_once_tx sha order_id proof_version bundle now d =
     (if \<not> (1 \<le> length bundle \<and> length bundle \<le> MAX_BUNDLE_BYTES) then Inl (ValueError ''bundle_size_invalid'')
      else bind_res (parse_uuid order_id) (\<lambda>i.
        case find_order i d of
          None \<Rightarrow> Inl (ValueError ''bundle_order_not_found'')
        | Some order \<Rightarrow>
            if bundle_is_sensitive (o_email order) bundle
            then Inl (ValueError ''bundle_contains_sensitive_data'')
            else (case find_proof i proof_version d of
                    None \<Rightarrow> Inl (ValueError ''bundle_proof_not_found'')
                  | Some proof \<Rightarrow>
                      if pv_target_digest proof \<noteq> o_manifest_digest order
                      then Inl (ValueError ''bundle_proof_target_conflict'')
                      else (case find_bundle i proof_version d of
                              Some existing \<Rightarrow>
                                if pb_bundle_byte_length existing \<noteq> int (length bundle) \<or>
                                   pb_bundle_sha256 existing \<noteq> sha bundle \<or> pb_bundle_bytes existing \<noteq> bundle
                                then Inl (ValueError ''bundle_conflict'') else Inr ((), d)
                            | None \<Rightarrow>
                                insert_bundle \<lparr>pb_order_id = i, pb_proof_version = proof_version,
                                  pb_bundle_bytes = bundle, pb_bundle_sha256 = sha bundle,
                                  pb_bundle_byte_length = int (length bundle), pb_created_at = now\<rparr> d))))"

definition get_bundle :: "(bytes \<Rightarrow> bytes) \<Rightarrow> string \<Rightarrow> int \<Rightarrow> db \<Rightarrow> exn + bytes option" where
  "get_bundle sha order_id proof_version d =
     bind_res (parse_uuid order_id) (\<lambda>i.
       case find_bundle i proof_version d of
         None \<Rightarrow> Inr None
       | Some record \<Rightarrow>
           if pb_bundle_byte_length record \<noteq> int (length (pb_bundle_bytes record)) \<or>
              sha (pb_bundle_bytes record) \<noteq> pb_bundle_sha256 record
           then Inl (ValueError ''stored_bundle_invalid'') else Inr (Some (pb_bundle_bytes record)))"

section \<open>SqlBitcoinConfirmationObservations\<close>

record confirmation_observation =
  co_id :: string
  co_order_id :: string
  co_proof_version :: int
  co_confirmations :: int
  co_block_height :: int
  co_block_hash :: string
  co_method :: string
  co_confirmation_policy :: string
  co_observed_at :: datetime
  co_event_key :: string

definition project_observation :: "observation_row \<Rightarrow> confirmation_observation" where
  "project_observation r =
     \<lparr>co_id = uuid_str (ob_id r), co_order_id = uuid_str (ob_order_id r), co_proof_version = ob_proof_version r,
      co_confirmations = ob_observed_confirmations r, co_block_height = ob_block_height r,
      co_block_hash = ob_block_hash r, co_method = ob_method r, co_confirmation_policy = ob_confirmation_policy r,
      co_observed_at = aware (ob_observed_at r), co_event_key = ob_event_key r\<rparr>"

definition SAFE_EVENT_KEY :: "string \<Rightarrow> bool" where
  "SAFE_EVENT_KEY s \<longleftrightarrow> match_class (\<lambda>c. is_alnum c \<or> c \<in> set '':_-'') 1 160 s"

definition validate_observation_input :: "int \<Rightarrow> string \<Rightarrow> bitcoin_verification \<Rightarrow> exn + unit" where
  "validate_observation_input proof_version event_key v =
     (if proof_version < 1 \<or> \<not> SAFE_EVENT_KEY event_key
      then Inl (ValueError ''confirmation_observation_identity_invalid'')
      else if \<not> bv_verified v \<or> (case bv_confirmations v of None \<Rightarrow> True | Some n \<Rightarrow> n < 1) \<or>
              bv_verified_at v = None \<or> bv_block_height v = None \<or> bv_block_hash v = None \<or>
              bv_block_time v = None \<or> bv_confirmation_policy v = None
      then Inl (ValueError ''confirmation_observation_verification_invalid'')
      else Inr ())"

definition observation_matches_result :: "observation_row \<Rightarrow> int \<Rightarrow> bitcoin_verification \<Rightarrow> bool" where
  "observation_matches_result ob proof_version result \<longleftrightarrow>
     ob_proof_version ob = proof_version \<and> Some (ob_observed_confirmations ob) = bv_confirmations result \<and>
     Some (ob_block_height ob) = bv_block_height result \<and> Some (ob_block_hash ob) = bv_block_hash result \<and>
     ob_method ob = bv_method result \<and> Some (ob_confirmation_policy ob) = bv_confirmation_policy result \<and>
     Some (aware (ob_observed_at ob)) = map_option aware (bv_verified_at result)"

definition record_once_tx ::
  "uuid \<Rightarrow> string \<Rightarrow> int \<Rightarrow> string \<Rightarrow> bitcoin_verification \<Rightarrow> datetime \<Rightarrow> confirmation_observation db_tx" where
  "record_once_tx new_id order_id proof_version event_key v now d =
     bind_res (validate_observation_input proof_version event_key v) (\<lambda>_.
     bind_res (parse_uuid order_id) (\<lambda>i.
     case (bv_confirmations v, bv_block_height v, bv_block_hash v, bv_verified_at v, bv_confirmation_policy v) of
       (Some confirmations, Some height, Some bhash, Some verified_at, Some policy) \<Rightarrow>
         (case find_order i d of
            None \<Rightarrow> Inl (ValueError ''confirmation_observation_order_not_found'')
          | Some order \<Rightarrow>
              if (case latest_proof (o_id order) d of None \<Rightarrow> True
                  | Some proof \<Rightarrow> pv_version proof \<noteq> proof_version \<or>
                      pv_target_digest proof \<noteq> o_manifest_digest order)
              then Inl (ValueError ''confirmation_observation_proof_not_current'')
              else if (case find_verification (o_id order) proof_version d of None \<Rightarrow> True
                       | Some stored \<Rightarrow> \<not> stored_verification_matches stored v)
              then Inl (ValueError ''confirmation_observation_verification_mismatch'')
              else (case find (\<lambda>r. ob_order_id r = o_id order \<and> ob_event_key r = event_key)
                          (confirmation_observations d) of
                      Some existing \<Rightarrow>
                        if \<not> observation_matches_result existing proof_version v
                        then Inl (ValueError ''confirmation_observation_event_conflict'')
                        else Inr (project_observation existing, d)
                    | None \<Rightarrow>
                        let ob = \<lparr>ob_id = new_id, ob_order_id = o_id order, ob_proof_version = proof_version,
                              ob_observed_confirmations = confirmations, ob_block_height = height,
                              ob_block_hash = bhash, ob_method = bv_method v, ob_confirmation_policy = policy,
                              ob_observed_at = aware verified_at, ob_event_key = event_key, ob_created_at = now\<rparr>
                        in bind_tx (insert_observation ob) (\<lambda>_. return_tx (project_observation ob)) d))
     | _ \<Rightarrow> Inl AssertionError))"

definition observations_latest :: "string \<Rightarrow> int \<Rightarrow> db \<Rightarrow> exn + confirmation_observation option" where
  "observations_latest order_id proof_version d =
     bind_res (parse_uuid order_id) (\<lambda>i. Inr (map_option project_observation (latest_observation i proof_version d)))"

end
