(* ===== verification/Audit_Log.thy ===== *)
theory Audit_Log
  imports Evidence
begin

text \<open>
  What the order and evidence tables promise, as an abstract machine. \<open>audit_step\<close> lists the only
  changes there may be: an order appears with its first audit event; an order is touched
  without a change of state; an order moves along the two transition tables together with an
  audit event that records the move; a proof, a verification, an observation or a bundle is
  added; other tables change. The transactions of the adapters, of the payments and of the
  notifications are proved to be sequences of such steps, and the invariant and the
  append-only order are proved once, for the steps.
\<close>

section \<open>Changes of an order\<close>

definition once_set :: "'a option \<Rightarrow> 'a option \<Rightarrow> bool" where
  "once_set a b \<longleftrightarrow> a = None \<or> b = a"

text \<open>What no change of an order may touch, and what may only be set once.\<close>

definition order_keeps :: "order_row \<Rightarrow> order_row \<Rightarrow> bool" where
  "order_keeps a b \<longleftrightarrow> o_id b = o_id a \<and> same_snapshot_fields a b \<and> o_created_at b = o_created_at a \<and>
     once_set (o_calendar_submitted_at a) (o_calendar_submitted_at b) \<and>
     once_set (o_checkout_session_id a) (o_checkout_session_id b) \<and>
     once_set (o_payment_intent_id a) (o_payment_intent_id b)"

definition same_states :: "order_row \<Rightarrow> order_row \<Rightarrow> bool" where
  "same_states a b \<longleftrightarrow> o_payment_state b = o_payment_state a \<and> o_fulfillment_state b = o_fulfillment_state a"

definition legal_payment :: "payment_state \<Rightarrow> payment_state \<Rightarrow> bool" where
  "legal_payment p q \<longleftrightarrow> q = p \<or> q \<in> payment_transitions p"

definition legal_fulfillment :: "fulfillment_state \<Rightarrow> fulfillment_state \<Rightarrow> bool" where
  "legal_fulfillment f g \<longleftrightarrow> g = f \<or> g \<in> fulfillment_transitions f"

definition legal_move :: "order_row \<Rightarrow> order_row \<Rightarrow> bool" where
  "legal_move a b \<longleftrightarrow> legal_payment (o_payment_state a) (o_payment_state b) \<and>
     legal_fulfillment (o_fulfillment_state a) (o_fulfillment_state b)"

lemma once_set_refl [simp]: "once_set a a"
  by (simp add: once_set_def)

lemma once_set_trans: "once_set a b \<Longrightarrow> once_set b c \<Longrightarrow> once_set a c"
  by (auto simp: once_set_def)

lemma order_keeps_refl [simp]: "order_keeps a a"
  by (simp add: order_keeps_def same_snapshot_fields_def)

lemma order_keeps_trans: "order_keeps a b \<Longrightarrow> order_keeps b c \<Longrightarrow> order_keeps a c"
  unfolding order_keeps_def same_snapshot_fields_def by (auto intro: once_set_trans)

lemma same_states_refl [simp]: "same_states a a"
  by (simp add: same_states_def)

lemma legal_refl [simp]: "legal_payment p p" "legal_fulfillment f f" "legal_move a a"
  by (simp_all add: legal_payment_def legal_fulfillment_def legal_move_def)

section \<open>Audit events\<close>

definition events_of :: "db \<Rightarrow> uuid \<Rightarrow> state_event_row list" where
  "events_of d oid = filter (\<lambda>e. ev_order_id e = oid) (state_events d)"

definition records_move :: "state_event_row \<Rightarrow> order_row \<Rightarrow> order_row \<Rightarrow> bool" where
  "records_move e a b \<longleftrightarrow> ev_order_id e = o_id a \<and>
     ev_previous_payment_state e = Some (o_payment_state a) \<and> ev_payment_state e = o_payment_state b \<and>
     ev_previous_fulfillment_state e = Some (o_fulfillment_state a) \<and>
     ev_fulfillment_state e = o_fulfillment_state b"

definition legal_event :: "state_event_row \<Rightarrow> bool" where
  "legal_event e \<longleftrightarrow> (case (ev_previous_payment_state e, ev_previous_fulfillment_state e) of
     (Some p, Some f) \<Rightarrow> legal_payment p (ev_payment_state e) \<and> legal_fulfillment f (ev_fulfillment_state e)
   | _ \<Rightarrow> False)"

definition chained :: "state_event_row \<Rightarrow> state_event_row \<Rightarrow> bool" where
  "chained e e' \<longleftrightarrow> ev_previous_payment_state e' = Some (ev_payment_state e) \<and>
     ev_previous_fulfillment_state e' = Some (ev_fulfillment_state e)"

text \<open>
  The log of an order: numbered 1, 2, 3, ..., every event legal, every event starting where the one
  before ended, from the open checkout to the states the order has now.
\<close>

definition log_ok :: "order_row \<Rightarrow> state_event_row list \<Rightarrow> bool" where
  "log_ok order es \<longleftrightarrow> es \<noteq> [] \<and> map ev_sequence es = [1..int (length es)] \<and> list_all legal_event es \<and>
     successively chained es \<and>
     ev_previous_payment_state (hd es) = Some CHECKOUT_OPEN \<and>
     ev_previous_fulfillment_state (hd es) = Some AWAITING_PAYMENT \<and>
     ev_payment_state (last es) = o_payment_state order \<and>
     ev_fulfillment_state (last es) = o_fulfillment_state order"

lemma max_of_upto: "map f rows = [1..int (length rows)] \<Longrightarrow> max_of f rows = int (length rows)"
proof (cases "rows = []")
  case False
  assume eq: "map f rows = [1..int (length rows)]"
  then have "set (map f rows) = {1..int (length rows)}" by simp
  moreover have "Max {1..int (length rows)} = int (length rows)"
    using False by (intro Max_eqI) (auto simp: Suc_leI)
  ultimately show ?thesis using False by (simp add: max_of_def)
qed simp

lemma log_ok_next: "log_ok order (events_of d oid) \<Longrightarrow> next_sequence oid d = int (length (events_of d oid)) + 1"
  unfolding log_ok_def next_sequence_def events_of_def [symmetric]
  using max_of_upto [of ev_sequence "events_of d oid"] by simp

lemma log_ok_snoc:
  assumes ok: "log_ok a es" and e: "records_move e a b" "ev_sequence e = int (length es) + 1" and move: "legal_move a b"
  shows "log_ok b (es @ [e])"
proof -
  have "chained (last es) e" using ok e(1) by (simp add: chained_def log_ok_def records_move_def)
  moreover have "legal_event e" using e(1) move by (simp add: legal_event_def records_move_def legal_move_def)
  moreover have "map ev_sequence (es @ [e]) = [1..int (length (es @ [e]))]"
    using ok e(2) upto_snoc [of "int (length es)"] by (simp add: log_ok_def add.commute)
  ultimately show ?thesis
    using ok e(1) by (simp add: log_ok_def records_move_def successively_append_iff)
qed

section \<open>The invariant\<close>

definition proofs_of :: "db \<Rightarrow> uuid \<Rightarrow> proof_row list" where
  "proofs_of d oid = filter (\<lambda>r. pv_order_id r = oid) (proof_versions d)"

definition orders_ok :: "db \<Rightarrow> bool" where
  "orders_ok d \<longleftrightarrow> distinct (map o_id (orders d)) \<and> distinct (map o_order_reference (orders d)) \<and>
     distinct (map o_fulfillment_key (orders d)) \<and> list_all order_check (orders d)"

definition audit_ok :: "db \<Rightarrow> bool" where
  "audit_ok d \<longleftrightarrow> (\<forall>order \<in> set (orders d). log_ok order (events_of d (o_id order))) \<and>
     ev_order_id ` set (state_events d) \<subseteq> o_id ` set (orders d)"

definition proof_row_ok :: "(bytes \<Rightarrow> bytes) \<Rightarrow> order_row \<Rightarrow> proof_row \<Rightarrow> bool" where
  "proof_row_ok sha order r \<longleftrightarrow> pv_target_digest r = o_manifest_digest order \<and>
     pv_proof_sha256 r = sha (pv_proof_bytes r) \<and> pv_proof_byte_length r = int (length (pv_proof_bytes r))"

definition proofs_ok :: "(bytes \<Rightarrow> bytes) \<Rightarrow> db \<Rightarrow> bool" where
  "proofs_ok sha d \<longleftrightarrow>
     (\<forall>order \<in> set (orders d). map pv_version (proofs_of d (o_id order)) = [1..int (length (proofs_of d (o_id order)))] \<and>
        list_all (proof_row_ok sha order) (proofs_of d (o_id order))) \<and>
     pv_order_id ` set (proof_versions d) \<subseteq> o_id ` set (orders d)"

definition verifications_ok :: "db \<Rightarrow> bool" where
  "verifications_ok d \<longleftrightarrow>
     distinct (map (\<lambda>v. (ve_order_id v, ve_proof_version v)) (proof_verifications d)) \<and>
     (\<forall>v \<in> set (proof_verifications d). find_proof (ve_order_id v) (ve_proof_version v) d \<noteq> None) \<and>
     (\<forall>ob \<in> set (confirmation_observations d). 0 < ob_observed_confirmations ob \<and>
        (\<exists>v \<in> set (proof_verifications d). ve_order_id v = ob_order_id ob \<and>
           ve_proof_version v = ob_proof_version ob \<and> observation_matches_verification ob v))"

definition bundles_ok :: "(bytes \<Rightarrow> bytes) \<Rightarrow> db \<Rightarrow> bool" where
  "bundles_ok sha d \<longleftrightarrow>
     distinct (map (\<lambda>b. (pb_order_id b, pb_proof_version b)) (proof_bundles d)) \<and>
     (\<forall>b \<in> set (proof_bundles d). pb_bundle_sha256 b = sha (pb_bundle_bytes b) \<and>
        pb_bundle_byte_length b = int (length (pb_bundle_bytes b)) \<and>
        (\<exists>order \<in> set (orders d). o_id order = pb_order_id b \<and>
           \<not> bundle_is_sensitive (o_email order) (pb_bundle_bytes b)))"

definition store_inv :: "(bytes \<Rightarrow> bytes) \<Rightarrow> db \<Rightarrow> bool" where
  "store_inv sha d \<longleftrightarrow> orders_ok d \<and> audit_ok d \<and> proofs_ok sha d \<and> verifications_ok d \<and> bundles_ok sha d"

lemmas store_inv_defs = store_inv_def orders_ok_def audit_ok_def proofs_ok_def verifications_ok_def bundles_ok_def

text \<open>The append-only order on databases.\<close>

definition store_le :: "db \<Rightarrow> db \<Rightarrow> bool" where
  "store_le d d' \<longleftrightarrow>
     (\<forall>order \<in> set (orders d). \<exists>order' \<in> set (orders d'). order_keeps order order' \<and>
        legal_payment\<^sup>*\<^sup>* (o_payment_state order) (o_payment_state order') \<and>
        legal_fulfillment\<^sup>*\<^sup>* (o_fulfillment_state order) (o_fulfillment_state order')) \<and>
     prefix (state_events d) (state_events d') \<and> prefix (proof_versions d) (proof_versions d') \<and>
     prefix (proof_verifications d) (proof_verifications d') \<and> prefix (proof_bundles d) (proof_bundles d') \<and>
     prefix (confirmation_observations d) (confirmation_observations d')"

definition store_safe :: "(bytes \<Rightarrow> bytes) \<Rightarrow> db \<Rightarrow> db \<Rightarrow> bool" where
  "store_safe sha d d' \<longleftrightarrow> (store_inv sha d \<longrightarrow> store_inv sha d' \<and> store_le d d')"

lemma store_le_refl [simp]: "store_le d d"
  unfolding store_le_def by (auto intro: order_keeps_refl)

lemma store_le_trans: "store_le a b \<Longrightarrow> store_le b c \<Longrightarrow> store_le a c"
  unfolding store_le_def
  by (intro conjI ballI; (elim conjE)?)
    (meson order_keeps_trans rtranclp_trans, (meson prefix_order.trans)+)

interpretation store_keeping: preorder_on_states "store_safe sha"
  by unfold_locales (auto simp: store_safe_def intro: store_le_trans)

section \<open>The abstract machine\<close>

definition evidence_tables ::
  "db \<Rightarrow> order_row list \<times> state_event_row list \<times> proof_row list \<times> verification_row list \<times> bundle_row list \<times>
     observation_row list" where
  "evidence_tables d = (orders d, state_events d, proof_versions d, proof_verifications d, proof_bundles d,
     confirmation_observations d)"

definition put_order :: "order_row \<Rightarrow> order_row list \<Rightarrow> order_row list" where
  "put_order order rows = upd_row (\<lambda>r. o_id r = o_id order) (\<lambda>_. order) rows"

inductive audit_step :: "(bytes \<Rightarrow> bytes) \<Rightarrow> db \<Rightarrow> db \<Rightarrow> bool" for sha where
  created: "order_check order \<Longrightarrow> unique_among o_id order (orders d) \<Longrightarrow>
    unique_among o_order_reference order (orders d) \<Longrightarrow> unique_among o_fulfillment_key order (orders d) \<Longrightarrow>
    o_payment_state order = CHECKOUT_OPEN \<Longrightarrow> o_fulfillment_state order = AWAITING_PAYMENT \<Longrightarrow>
    records_move e order order \<Longrightarrow> ev_sequence e = next_sequence (o_id order) d \<Longrightarrow>
    evidence_tables d' = (orders d @ [order], state_events d @ [e], proof_versions d, proof_verifications d,
      proof_bundles d, confirmation_observations d) \<Longrightarrow> audit_step sha d d'"
| touched: "order \<in> set (orders d) \<Longrightarrow> order_keeps order order' \<Longrightarrow> same_states order order' \<Longrightarrow>
    order_check order' \<Longrightarrow>
    evidence_tables d' = (put_order order' (orders d), state_events d, proof_versions d, proof_verifications d,
      proof_bundles d, confirmation_observations d) \<Longrightarrow> audit_step sha d d'"
| moved: "order \<in> set (orders d) \<Longrightarrow> order_keeps order order' \<Longrightarrow> legal_move order order' \<Longrightarrow>
    order_check order' \<Longrightarrow> records_move e order order' \<Longrightarrow> ev_sequence e = next_sequence (o_id order) d \<Longrightarrow>
    evidence_tables d' = (put_order order' (orders d), state_events d @ [e], proof_versions d,
      proof_verifications d, proof_bundles d, confirmation_observations d) \<Longrightarrow> audit_step sha d d'"
| proof_added: "order \<in> set (orders d) \<Longrightarrow> pv_order_id r = o_id order \<Longrightarrow>
    pv_version r = int (length (proofs_of d (o_id order))) + 1 \<Longrightarrow> proof_row_ok sha order r \<Longrightarrow>
    evidence_tables d' = (orders d, state_events d, proof_versions d @ [r], proof_verifications d,
      proof_bundles d, confirmation_observations d) \<Longrightarrow> audit_step sha d d'"
| verification_added: "unique_among (\<lambda>v. (ve_order_id v, ve_proof_version v)) v (proof_verifications d) \<Longrightarrow>
    find_proof (ve_order_id v) (ve_proof_version v) d \<noteq> None \<Longrightarrow>
    evidence_tables d' = (orders d, state_events d, proof_versions d, proof_verifications d @ [v],
      proof_bundles d, confirmation_observations d) \<Longrightarrow> audit_step sha d d'"
| observation_added: "v \<in> set (proof_verifications d) \<Longrightarrow> ve_order_id v = ob_order_id ob \<Longrightarrow>
    ve_proof_version v = ob_proof_version ob \<Longrightarrow> observation_matches_verification ob v \<Longrightarrow>
    0 < ob_observed_confirmations ob \<Longrightarrow>
    evidence_tables d' = (orders d, state_events d, proof_versions d, proof_verifications d, proof_bundles d,
      confirmation_observations d @ [ob]) \<Longrightarrow> audit_step sha d d'"
| bundle_added: "order \<in> set (orders d) \<Longrightarrow> o_id order = pb_order_id b \<Longrightarrow>
    \<not> bundle_is_sensitive (o_email order) (pb_bundle_bytes b) \<Longrightarrow> pb_bundle_sha256 b = sha (pb_bundle_bytes b) \<Longrightarrow>
    pb_bundle_byte_length b = int (length (pb_bundle_bytes b)) \<Longrightarrow>
    unique_among (\<lambda>b. (pb_order_id b, pb_proof_version b)) b (proof_bundles d) \<Longrightarrow>
    evidence_tables d' = (orders d, state_events d, proof_versions d, proof_verifications d,
      proof_bundles d @ [b], confirmation_observations d) \<Longrightarrow> audit_step sha d d'"
| elsewhere: "evidence_tables d' = evidence_tables d \<Longrightarrow> audit_step sha d d'"

lemma evidence_tablesD:
  "evidence_tables d' = (a, b, c, e, f, g) \<Longrightarrow> orders d' = a \<and> state_events d' = b \<and> proof_versions d' = c \<and>
     proof_verifications d' = e \<and> proof_bundles d' = f \<and> confirmation_observations d' = g"
  by (simp add: evidence_tables_def)

lemma put_order_unique:
  assumes "distinct (map o_id rows)" "order \<in> set rows" "o_id order' = o_id order"
  shows "x \<in> set (put_order order' rows) \<longleftrightarrow> x = order' \<or> x \<in> set rows \<and> o_id x \<noteq> o_id order"
proof -
  have "r = order" if "r \<in> set rows" "o_id r = o_id order" for r
    using that assms by (auto simp: distinct_map inj_on_def)
  then show ?thesis using assms by (auto simp: put_order_def set_upd_row image_iff)
qed

lemma put_order_maps:
  assumes "distinct (map o_id rows)" "order \<in> set rows" "order_keeps order order'"
  shows "map o_id (put_order order' rows) = map o_id rows"
    "map o_order_reference (put_order order' rows) = map o_order_reference rows"
    "map o_fulfillment_key (put_order order' rows) = map o_fulfillment_key rows"
proof -
  have same: "r = order" if "r \<in> set rows" "o_id r = o_id order'" for r
    using that assms by (auto simp: distinct_map inj_on_def order_keeps_def)
  show "map o_id (put_order order' rows) = map o_id rows"
    by (auto simp: put_order_def upd_row_def)
  show "map o_order_reference (put_order order' rows) = map o_order_reference rows"
    using assms(3) by (auto simp: put_order_def upd_row_def order_keeps_def same_snapshot_fields_def dest: same)
  show "map o_fulfillment_key (put_order order' rows) = map o_fulfillment_key rows"
    using assms(3) by (auto simp: put_order_def upd_row_def order_keeps_def same_snapshot_fields_def dest: same)
qed

text \<open>The part of the invariant that a change of an order has to keep.\<close>

lemma put_order_inv:
  assumes inv: "store_inv sha d" and order: "order \<in> set (orders d)" and keeps: "order_keeps order order'"
    and check: "order_check order'"
    and d': "orders d' = put_order order' (orders d)" "proof_versions d' = proof_versions d"
      "proof_verifications d' = proof_verifications d" "proof_bundles d' = proof_bundles d"
      "confirmation_observations d' = confirmation_observations d"
    and events: "set (state_events d') \<subseteq> set (state_events d) \<union> {e. ev_order_id e = o_id order}"
      "\<And>oid. oid \<noteq> o_id order \<Longrightarrow> events_of d' oid = events_of d oid"
    and log: "log_ok order' (events_of d' (o_id order))"
  shows "store_inv sha d'"
proof -
  have dist: "distinct (map o_id (orders d))" using inv by (simp add: store_inv_defs)
  have id: "o_id order' = o_id order" "o_manifest_digest order' = o_manifest_digest order" "o_email order' = o_email order"
    using keeps by (simp_all add: order_keeps_def same_snapshot_fields_def)
  note member = put_order_unique [OF dist order id(1)]
  note maps = put_order_maps [OF dist order keeps]
  have ids: "o_id ` set (orders d') = o_id ` set (orders d)"
    using maps(1) by (metis d'(1) set_map)
  have other: "x \<in> set (orders d) \<and> o_id x \<noteq> o_id order \<or> x = order'" if "x \<in> set (orders d')" for x
    using that member by (auto simp: d')
  have checks: "order_check x" if "x \<in> set (orders d')" for x
    using other [OF that] inv check by (auto simp: store_inv_defs list_all_iff)
  have "orders_ok d'"
    using inv checks unfolding store_inv_def orders_ok_def d'(1) maps by (simp add: list_all_iff)
  moreover have "audit_ok d'"
    unfolding audit_ok_def
  proof (intro conjI ballI)
    fix x assume "x \<in> set (orders d')"
    from other [OF this] show "log_ok x (events_of d' (o_id x))"
    proof (elim disjE conjE)
      assume "x \<in> set (orders d)" "o_id x \<noteq> o_id order"
      then show ?thesis using inv events(2) by (simp add: store_inv_def audit_ok_def)
    qed (use log id in simp)
  next
    show "ev_order_id ` set (state_events d') \<subseteq> o_id ` set (orders d')"
      using events(1) inv order unfolding ids store_inv_def audit_ok_def by blast
  qed
  moreover have "proofs_of d' i = proofs_of d i" for i by (simp add: proofs_of_def d')
  then have "proofs_ok sha d'"
    unfolding proofs_ok_def ids
  proof (intro conjI ballI)
    fix x assume "x \<in> set (orders d')"
    from other [OF this] obtain y where "y \<in> set (orders d)" "o_id y = o_id x" "o_manifest_digest y = o_manifest_digest x"
      using order id by auto
    moreover then have "proof_row_ok sha x = proof_row_ok sha y" by (auto simp: proof_row_ok_def)
    ultimately show "map pv_version (proofs_of d' (o_id x)) = [1..int (length (proofs_of d' (o_id x)))]"
      "list_all (proof_row_ok sha x) (proofs_of d' (o_id x))"
      using inv \<open>\<And>i. proofs_of d' i = proofs_of d i\<close> by (auto simp: store_inv_def proofs_ok_def)
  qed (use inv in \<open>simp add: d' store_inv_def proofs_ok_def\<close>)
  moreover have "verifications_ok d'"
    using inv by (simp add: store_inv_defs d' find_proof_def)
  moreover have "bundles_ok sha d'"
  proof -
    have "\<exists>x \<in> set (orders d'). o_id x = i \<and> \<not> bundle_is_sensitive (o_email x) bs"
      if "\<exists>x \<in> set (orders d). o_id x = i \<and> \<not> bundle_is_sensitive (o_email x) bs" for i bs
    proof (cases "i = o_id order")
      case True
      then have "\<not> bundle_is_sensitive (o_email order) bs"
        using that dist order by (auto simp: distinct_map inj_on_def)
      then show ?thesis using True id member by (auto simp: d')
    next
      case False
      then show ?thesis using that member by (auto simp: d')
    qed
    then show ?thesis using inv by (simp add: store_inv_defs d')
  qed
  ultimately show ?thesis by (simp add: store_inv_def)
qed

section \<open>Every step keeps the invariant and the append-only order\<close>

lemma events_of_snoc:
  "state_events d' = state_events d @ [e] \<Longrightarrow>
     events_of d' oid = events_of d oid @ (if ev_order_id e = oid then [e] else [])"
  by (simp add: events_of_def)

lemma no_events_of_new:
  "audit_ok d \<Longrightarrow> unique_among o_id order (orders d) \<Longrightarrow> events_of d (o_id order) = []"
  by (auto simp: audit_ok_def events_of_def unique_among_def list_all_iff filter_empty_conv image_iff subset_iff)

lemma no_proofs_of_new:
  "proofs_ok sha d \<Longrightarrow> unique_among o_id order (orders d) \<Longrightarrow> proofs_of d (o_id order) = []"
  by (auto simp: proofs_ok_def proofs_of_def unique_among_def list_all_iff filter_empty_conv image_iff subset_iff)

lemma created_inv:
  assumes inv: "store_inv sha d" and order: "order_check order" "unique_among o_id order (orders d)"
      "unique_among o_order_reference order (orders d)" "unique_among o_fulfillment_key order (orders d)"
      "o_payment_state order = CHECKOUT_OPEN" "o_fulfillment_state order = AWAITING_PAYMENT"
    and e: "records_move e order order" "ev_sequence e = next_sequence (o_id order) d"
    and d': "evidence_tables d' = (orders d @ [order], state_events d @ [e], proof_versions d,
      proof_verifications d, proof_bundles d, confirmation_observations d)"
  shows "store_inv sha d'"
proof -
  note tables = evidence_tablesD [OF d']
  have new: "events_of d (o_id order) = []" "proofs_of d (o_id order) = []"
    using inv order no_events_of_new no_proofs_of_new by (auto simp: store_inv_def)
  have not_in: "o_id order \<noteq> o_id x" if "x \<in> set (orders d)" for x
    using order(2) that by (auto simp: unique_among_def list_all_iff)
  have "orders_ok d'"
    using inv order tables by (auto simp: store_inv_def orders_ok_def unique_among_def list_all_iff)
  moreover have "audit_ok d'"
  proof -
    have seq: "ev_sequence e = 1"
      using e(2) new(1) by (simp add: next_sequence_def events_of_def)
    have "log_ok order [e]"
      using e(1) order(5,6) seq by (simp add: log_ok_def records_move_def legal_event_def)
    moreover have "ev_order_id e = o_id order" using e(1) by (simp add: records_move_def)
    ultimately show ?thesis
      using inv not_in new tables
      by (auto simp: store_inv_def audit_ok_def events_of_snoc [of d' d e])
  qed
  moreover have "proofs_of d' i = proofs_of d i" for i using tables by (simp add: proofs_of_def)
  then have "proofs_ok sha d'"
    using inv new tables by (auto simp: store_inv_def proofs_ok_def)
  moreover have "verifications_ok d'" "bundles_ok sha d'"
    using inv tables by (auto simp: store_inv_def verifications_ok_def bundles_ok_def find_proof_def)
  ultimately show ?thesis by (simp add: store_inv_def)
qed

lemma proof_added_inv:
  assumes inv: "store_inv sha d" and order: "order \<in> set (orders d)" "pv_order_id r = o_id order"
      "pv_version r = int (length (proofs_of d (o_id order))) + 1" "proof_row_ok sha order r"
    and d': "evidence_tables d' = (orders d, state_events d, proof_versions d @ [r],
      proof_verifications d, proof_bundles d, confirmation_observations d)"
  shows "store_inv sha d'"
proof -
  note tables = evidence_tablesD [OF d']
  have same: "x = order" if "x \<in> set (orders d)" "o_id x = o_id order" for x
    using inv order(1) that by (auto simp: store_inv_def orders_ok_def distinct_map inj_on_def)
  have proofs: "proofs_of d' i = proofs_of d i @ (if o_id order = i then [r] else [])" for i
    using tables order(2) by (simp add: proofs_of_def)
  have "proofs_ok sha d'"
    unfolding proofs_ok_def
  proof (intro conjI ballI)
    fix x assume x: "x \<in> set (orders d')"
    then have old: "map pv_version (proofs_of d (o_id x)) = [1..int (length (proofs_of d (o_id x)))]"
      "list_all (proof_row_ok sha x) (proofs_of d (o_id x))"
      using inv tables by (auto simp: store_inv_def proofs_ok_def)
    show "map pv_version (proofs_of d' (o_id x)) = [1..int (length (proofs_of d' (o_id x)))]"
      using old order(3) upto_snoc [of "int (length (proofs_of d (o_id x)))"] by (auto simp: proofs add.commute)
    show "list_all (proof_row_ok sha x) (proofs_of d' (o_id x))"
      using old order(4) same x tables by (auto simp: proofs)
  qed (use inv tables order in \<open>auto simp: store_inv_def proofs_ok_def\<close>)
  moreover have "find_proof i n d \<noteq> None \<Longrightarrow> find_proof i n d' \<noteq> None" for i n
    using tables by (auto simp: find_proof_def find_append split: option.splits)
  then have "verifications_ok d'"
    using inv tables by (auto simp: store_inv_def verifications_ok_def)
  ultimately show ?thesis
    using inv tables by (auto simp: store_inv_def orders_ok_def audit_ok_def bundles_ok_def events_of_def)
qed

lemma evidence_added_inv:
  assumes inv: "store_inv sha d"
  shows "unique_among (\<lambda>v. (ve_order_id v, ve_proof_version v)) v (proof_verifications d) \<Longrightarrow>
      find_proof (ve_order_id v) (ve_proof_version v) d \<noteq> None \<Longrightarrow>
      evidence_tables d' = (orders d, state_events d, proof_versions d, proof_verifications d @ [v],
        proof_bundles d, confirmation_observations d) \<Longrightarrow> store_inv sha d'"
    and "w \<in> set (proof_verifications d) \<Longrightarrow> ve_order_id w = ob_order_id ob \<Longrightarrow>
      ve_proof_version w = ob_proof_version ob \<Longrightarrow> observation_matches_verification ob w \<Longrightarrow>
      0 < ob_observed_confirmations ob \<Longrightarrow>
      evidence_tables d' = (orders d, state_events d, proof_versions d, proof_verifications d, proof_bundles d,
        confirmation_observations d @ [ob]) \<Longrightarrow> store_inv sha d'"
    and "order \<in> set (orders d) \<Longrightarrow> o_id order = pb_order_id b \<Longrightarrow>
      \<not> bundle_is_sensitive (o_email order) (pb_bundle_bytes b) \<Longrightarrow> pb_bundle_sha256 b = sha (pb_bundle_bytes b) \<Longrightarrow>
      pb_bundle_byte_length b = int (length (pb_bundle_bytes b)) \<Longrightarrow>
      unique_among (\<lambda>b. (pb_order_id b, pb_proof_version b)) b (proof_bundles d) \<Longrightarrow>
      evidence_tables d' = (orders d, state_events d, proof_versions d, proof_verifications d,
        proof_bundles d @ [b], confirmation_observations d) \<Longrightarrow> store_inv sha d'"
    and "evidence_tables d' = evidence_tables d \<Longrightarrow> store_inv sha d'"
proof -
  have frame: "orders_ok d'" "audit_ok d'" "proofs_ok sha d'"
    if "orders d' = orders d" "state_events d' = state_events d" "proof_versions d' = proof_versions d"
    using inv that by (simp_all add: store_inv_def orders_ok_def audit_ok_def proofs_ok_def events_of_def proofs_of_def)
  {
    assume v: "unique_among (\<lambda>v. (ve_order_id v, ve_proof_version v)) v (proof_verifications d)"
      "find_proof (ve_order_id v) (ve_proof_version v) d \<noteq> None"
      and t: "evidence_tables d' = (orders d, state_events d, proof_versions d, proof_verifications d @ [v],
        proof_bundles d, confirmation_observations d)"
    note tables = evidence_tablesD [OF t]
    have "verifications_ok d'"
      using inv v tables
      by (auto simp: store_inv_def verifications_ok_def unique_among_def list_all_iff find_proof_def)
    moreover have "bundles_ok sha d'" using inv tables by (simp add: store_inv_def bundles_ok_def)
    ultimately show "store_inv sha d'" using frame tables by (simp add: store_inv_def)
  next
    assume w: "w \<in> set (proof_verifications d)" "ve_order_id w = ob_order_id ob"
      "ve_proof_version w = ob_proof_version ob" "observation_matches_verification ob w"
      "0 < ob_observed_confirmations ob"
      and t: "evidence_tables d' = (orders d, state_events d, proof_versions d, proof_verifications d, proof_bundles d,
        confirmation_observations d @ [ob])"
    note tables = evidence_tablesD [OF t]
    have "verifications_ok d'"
      using inv w tables by (auto simp: store_inv_def verifications_ok_def find_proof_def)
    moreover have "bundles_ok sha d'" using inv tables by (simp add: store_inv_def bundles_ok_def)
    ultimately show "store_inv sha d'" using frame tables by (simp add: store_inv_def)
  next
    assume b: "order \<in> set (orders d)" "o_id order = pb_order_id b"
      "\<not> bundle_is_sensitive (o_email order) (pb_bundle_bytes b)" "pb_bundle_sha256 b = sha (pb_bundle_bytes b)"
      "pb_bundle_byte_length b = int (length (pb_bundle_bytes b))"
      "unique_among (\<lambda>b. (pb_order_id b, pb_proof_version b)) b (proof_bundles d)"
      and t: "evidence_tables d' = (orders d, state_events d, proof_versions d, proof_verifications d,
        proof_bundles d @ [b], confirmation_observations d)"
    note tables = evidence_tablesD [OF t]
    have "bundles_ok sha d'"
      using inv b tables by (auto simp: store_inv_def bundles_ok_def unique_among_def list_all_iff)
    moreover have "verifications_ok d'" using inv tables by (simp add: store_inv_def verifications_ok_def find_proof_def)
    ultimately show "store_inv sha d'" using frame tables by (simp add: store_inv_def)
  next
    assume "evidence_tables d' = evidence_tables d"
    then have "orders d' = orders d" "state_events d' = state_events d" "proof_versions d' = proof_versions d"
      "proof_verifications d' = proof_verifications d" "proof_bundles d' = proof_bundles d"
      "confirmation_observations d' = confirmation_observations d"
      by (simp_all add: evidence_tables_def)
    then show "store_inv sha d'"
      using inv frame by (simp add: store_inv_def verifications_ok_def bundles_ok_def find_proof_def)
  }
qed

lemma store_le_append:
  assumes "orders d' = orders d @ os" "prefix (state_events d) (state_events d')"
    "prefix (proof_versions d) (proof_versions d')" "prefix (proof_verifications d) (proof_verifications d')"
    "prefix (proof_bundles d) (proof_bundles d')" "prefix (confirmation_observations d) (confirmation_observations d')"
  shows "store_le d d'"
  unfolding store_le_def using assms by (auto intro!: bexI order_keeps_refl)

lemma store_le_put:
  assumes dist: "distinct (map o_id (orders d))" and order: "order \<in> set (orders d)"
    and keeps: "order_keeps order order'" "legal_move order order'"
    and d': "orders d' = put_order order' (orders d)" "prefix (state_events d) (state_events d')"
      "proof_versions d' = proof_versions d" "proof_verifications d' = proof_verifications d"
      "proof_bundles d' = proof_bundles d" "confirmation_observations d' = confirmation_observations d"
  shows "store_le d d'"
proof -
  have id: "o_id order' = o_id order" using keeps by (simp add: order_keeps_def)
  have "\<exists>y \<in> set (orders d'). order_keeps x y \<and> legal_payment\<^sup>*\<^sup>* (o_payment_state x) (o_payment_state y) \<and>
      legal_fulfillment\<^sup>*\<^sup>* (o_fulfillment_state x) (o_fulfillment_state y)" if x: "x \<in> set (orders d)" for x
  proof (cases "o_id x = o_id order")
    case True
    then have "x = order" using x order dist by (auto simp: distinct_map inj_on_def)
    moreover have "order' \<in> set (orders d')" using put_order_unique [OF dist order id] by (simp add: d')
    ultimately show ?thesis using keeps by (auto simp: legal_move_def)
  next
    case False
    then have "x \<in> set (orders d')" using put_order_unique [OF dist order id] x by (simp add: d')
    then show ?thesis by (auto intro: order_keeps_refl)
  qed
  then show ?thesis using d' by (simp add: store_le_def)
qed

lemma same_states_legal: "same_states a b \<Longrightarrow> legal_move a b"
  by (simp add: same_states_def legal_move_def)

theorem audit_step_safe: "audit_step sha d d' \<Longrightarrow> store_safe sha d d'"
proof (induction rule: audit_step.induct)
  case (created order d e d')
  then show ?case
    using created_inv [of sha d order e d'] evidence_tablesD
    by (auto simp: store_safe_def dest!: evidence_tablesD intro!: store_le_append)
next
  case (touched order d order' d')
  note tables = evidence_tablesD [OF touched(5)]
  show ?case
    unfolding store_safe_def
  proof
    assume inv: "store_inv sha d"
    have id: "o_id order' = o_id order" using touched by (simp add: order_keeps_def)
    have ev: "events_of d' i = events_of d i" for i using tables by (simp add: events_of_def)
    have "log_ok order' (events_of d (o_id order))"
      using inv touched by (auto simp: store_inv_def audit_ok_def log_ok_def same_states_def)
    then have "store_inv sha d'"
      using put_order_inv [OF inv touched(1,2,4), of d'] tables ev by simp
    moreover have "store_le d d'"
      using store_le_put [of d order order' d'] inv touched tables same_states_legal
      by (simp add: store_inv_def orders_ok_def)
    ultimately show "store_inv sha d' \<and> store_le d d'" by simp
  qed
next
  case (moved order d order' e d')
  note tables = evidence_tablesD [OF moved(7)]
  show ?case
    unfolding store_safe_def
  proof
    assume inv: "store_inv sha d"
    have id: "ev_order_id e = o_id order" using moved by (simp add: records_move_def)
    have log: "log_ok order (events_of d (o_id order))"
      using inv moved by (auto simp: store_inv_def audit_ok_def)
    have "log_ok order' (events_of d' (o_id order))"
      using log_ok_snoc [OF log moved(5) _ moved(3)] moved(6) log_ok_next [OF log] tables id
      by (simp add: events_of_snoc [of d' d e])
    then have "store_inv sha d'"
      using put_order_inv [OF inv moved(1,2,4), of d'] tables id
      by (auto simp: events_of_snoc [of d' d e])
    moreover have "store_le d d'"
      using store_le_put [of d order order' d'] inv moved tables
      by (simp add: store_inv_def orders_ok_def)
    ultimately show "store_inv sha d' \<and> store_le d d'" by simp
  qed
next
  case (proof_added order d r d')
  then show ?case
    using proof_added_inv [of sha d order r d']
    by (auto simp: store_safe_def dest!: evidence_tablesD intro!: store_le_append [where os = "[]"])
next
  case (verification_added v d d')
  then show ?case
    using evidence_added_inv(1) [of sha d v d']
    by (auto simp: store_safe_def dest!: evidence_tablesD intro!: store_le_append [where os = "[]"])
next
  case (observation_added v d ob d')
  then show ?case
    using evidence_added_inv(2) [of sha d v ob d']
    by (auto simp: store_safe_def dest!: evidence_tablesD intro!: store_le_append [where os = "[]"])
next
  case (bundle_added order d b d')
  then show ?case
    using evidence_added_inv(3) [of sha d order b d']
    by (auto simp: store_safe_def dest!: evidence_tablesD intro!: store_le_append [where os = "[]"])
next
  case (elsewhere d' d)
  then have "store_le d d'"
    by (intro store_le_append [where os = "[]"]) (simp_all add: evidence_tables_def)
  then show ?case
    using evidence_added_inv(4) [of sha d d'] elsewhere by (simp add: store_safe_def)
qed

lemma audit_steps_safe: "(audit_step sha)\<^sup>*\<^sup>* d d' \<Longrightarrow> store_safe sha d d'"
  by (induction rule: rtranclp_induct)
    (auto intro: store_keeping.R_refl store_keeping.R_trans audit_step_safe)

end
