(* ===== verification/Evidence_Audit.thy ===== *)
theory Evidence_Audit
  imports Audit_Log
begin

text \<open>
  The refinement of the abstract machine by the SQL adapters: every committed transaction of the
  proof store, the fulfillment repository, the verification, observation and bundle
  repositories is a sequence of steps of \<open>audit_step\<close>. With it the properties of the evidence
  kept for an order, and the interpretation of the proof store's contract by the SQL store.
\<close>

section \<open>Refinement as a relation kept by actions\<close>

definition audited :: "(bytes \<Rightarrow> bytes) \<Rightarrow> db \<Rightarrow> db \<Rightarrow> bool" where
  "audited sha d d' \<longleftrightarrow> (store_inv sha d \<longrightarrow> (audit_step sha)\<^sup>*\<^sup>* d d')"

lemma audited_safe: "audited sha d d' \<Longrightarrow> store_safe sha d d'"
  unfolding audited_def using audit_steps_safe store_safe_def by blast

interpretation audit_keeping: preorder_on_states "audited sha"
proof
  show "audited sha s s" for s by (simp add: audited_def)
  show "audited sha s u" if "audited sha s t" "audited sha t u" for s t u
    using that audited_safe [OF that(1)] unfolding audited_def store_safe_def by (meson rtranclp_trans)
qed

lemma audited_step: "(store_inv sha d \<Longrightarrow> audit_step sha d d') \<Longrightarrow> audited sha d d'"
  by (auto simp: audited_def)

lemma audited_frame: "evidence_tables d' = evidence_tables d \<Longrightarrow> audited sha d d'"
  by (intro audited_step audit_step.elsewhere)

section \<open>Statements on the orders table\<close>

lemma find_order_Some: "find_order i d = Some order \<Longrightarrow> order \<in> set (orders d) \<and> o_id order = i"
  unfolding find_order_def by (auto dest: find_SomeD)

lemma find_order_by_reference_Some:
  "find_order_by_reference ref d = Some order \<Longrightarrow> order \<in> set (orders d) \<and> o_order_reference order = ref"
  unfolding find_order_by_reference_def by (auto dest: find_SomeD)

lemma find_order_member:
  assumes "store_inv sha d" "order \<in> set (orders d)"
  shows "find_order (o_id order) d = Some order"
proof -
  obtain r where r: "find_order (o_id order) d = Some r"
    using assms(2) by (cases "find_order (o_id order) d") (auto simp: find_order_def find_None)
  then have "r = order"
    using assms find_order_Some [OF r] by (auto simp: store_inv_def orders_ok_def distinct_map inj_on_def)
  with r show ?thesis by simp
qed

lemma put_order_same:
  "distinct (map o_id rows) \<Longrightarrow> order \<in> set rows \<Longrightarrow> put_order order rows = rows"
  unfolding put_order_def upd_row_def by (intro map_idI) (auto simp: distinct_map inj_on_def)

lemma update_order_Inr:
  "update_order order d = Inr (u, d') \<Longrightarrow> d' = d\<lparr>orders := put_order order (orders d)\<rparr> \<and> order_check order"
  by (auto simp: update_order_def bind_res_Inr_iff Let_def put_order_def split: option.splits if_splits)

lemma flush_order_Inr:
  assumes inv: "store_inv sha d" and order: "order \<in> set (orders d)"
    and id: "o_id order' = o_id order" and flush: "flush_order order order' d = Inr (u, d')"
  shows "d' = d\<lparr>orders := put_order order' (orders d)\<rparr> \<and> order_check order'"
proof (cases "order' = order")
  case True
  have "distinct (map o_id (orders d))" "order_check order"
    using inv order by (auto simp: store_inv_def orders_ok_def list_all_iff)
  then show ?thesis using True flush order by (simp add: flush_order_def put_order_same)
next
  case False
  then show ?thesis using flush update_order_Inr by (simp add: flush_order_def)
qed

lemma flush_touched:
  assumes "store_inv sha d" "order \<in> set (orders d)" "order_keeps order order'" "same_states order order'"
    and "flush_order order order' d = Inr (u, d')"
  shows "audit_step sha d d'"
  using assms flush_order_Inr [of sha d order order' u d']
  by (intro audit_step.touched [of order d order']) (auto simp: order_keeps_def evidence_tables_def)

lemma flush_moved:
  assumes inv: "store_inv sha d" "order \<in> set (orders d)" "order_keeps order order'" "legal_move order order'"
    and flush: "flush_order order order' d = Inr (u, d1)"
    and event: "insert_state_event e d1 = Inr (v, d')" "records_move e order order'"
      "ev_sequence e = next_sequence (o_id order) d"
  shows "audit_step sha d d'"
proof -
  have "d1 = d\<lparr>orders := put_order order' (orders d)\<rparr> \<and> order_check order'"
    using flush_order_Inr [OF inv(1,2) _ flush] inv(3) by (simp add: order_keeps_def)
  moreover have "d' = d1\<lparr>state_events := state_events d1 @ [e]\<rparr>"
    using event(1) by (auto simp: insert_state_event_def split: if_splits)
  ultimately show ?thesis
    using inv event by (intro audit_step.moved [of order d order' e]) (auto simp: evidence_tables_def)
qed

lemma merge_calendar_time_Inr:
  "merge_calendar_time order supplied = Inr order' \<Longrightarrow>
     order_keeps order order' \<and> same_states order order' \<and> order' = order\<lparr>o_calendar_submitted_at := o_calendar_submitted_at order'\<rparr>"
  by (auto simp: merge_calendar_time_def order_keeps_def same_snapshot_fields_def same_states_def once_set_def
      split: option.splits if_splits)

lemma merge_calendar_time_again: "merge_calendar_time order cal = Inr order1 \<Longrightarrow> merge_calendar_time order1 cal = Inr order1"
  by (auto simp: merge_calendar_time_def split: option.splits if_splits)

lemma merge_calendar_time_stable:
  assumes "merge_calendar_time order cal = Inr order1"
  shows "merge_calendar_time (order1\<lparr>o_fulfillment_state := f, o_updated_at := t\<rparr>) cal =
    Inr (order1\<lparr>o_fulfillment_state := f, o_updated_at := t\<rparr>)"
proof (cases cal)
  case (Some supplied)
  have "\<exists>t'. o_calendar_submitted_at order1 = Some t' \<and> aware t' = aware supplied"
    using assms by (auto simp: merge_calendar_time_def Some split: option.splits if_splits)
  then show ?thesis by (auto simp: merge_calendar_time_def Some)
qed (simp add: merge_calendar_time_def)

section \<open>The audited transition\<close>

definition transition_event ::
  "order_row \<Rightarrow> order_row \<Rightarrow> string \<Rightarrow> db \<Rightarrow> state_event_row" where
  "transition_event order order2 event_key d =
     \<lparr>ev_order_id = o_id order, ev_sequence = next_sequence (o_id order) d,
      ev_event_key = event_key, ev_source = ''fulfillment_worker'',
      ev_previous_payment_state = Some (o_payment_state order), ev_payment_state = o_payment_state order2,
      ev_previous_fulfillment_state = Some (o_fulfillment_state order),
      ev_fulfillment_state = o_fulfillment_state order2,
      ev_evidence = (case o_calendar_submitted_at order2 of None \<Rightarrow> NoEvidence | Some t \<Rightarrow> CalendarEvidence (aware t)),
      ev_created_at = o_updated_at order2\<rparr>"

lemma transition_cases:
  assumes tx: "transition_fulfillment_once_tx order_id target event_key cal now d = Inr (fo, d')"
  obtains (replay) order existing order1 where
    "parse_uuid order_id = Inr (o_id order)" "find_order (o_id order) d = Some order"
    "find_event (o_id order) event_key d = Some existing" "ev_fulfillment_state existing = target"
    "merge_calendar_time order cal = Inr order1" "fulfillment_order_of order1 = Inr fo"
    "flush_order order order1 d = Inr ((), d')"
  | (new) order current transitioned order1 order2 d1 where
    "parse_uuid order_id = Inr (o_id order)" "find_order (o_id order) d = Some order"
    "find_event (o_id order) event_key d = None" "order_state_of order = Inr current"
    "transition_fulfillment current target = Inr transitioned" "merge_calendar_time order cal = Inr order1"
    "order2 = order1\<lparr>o_fulfillment_state := target, o_updated_at := now\<rparr>"
    "target = CALENDAR_PENDING \<Longrightarrow> o_calendar_submitted_at order2 \<noteq> None"
    "flush_order order order2 d = Inr ((), d1)"
    "insert_state_event (transition_event order order2 event_key d) d1 = Inr ((), d')"
    "fulfillment_order_of order2 = Inr fo"
proof -
  from tx obtain i where i: "parse_uuid order_id = Inr i"
    by (auto simp: transition_fulfillment_once_tx_def bind_res_Inr_iff split: if_splits)
  with tx obtain order where find: "find_order i d = Some order"
    by (cases "find_order i d") (auto simp: transition_fulfillment_once_tx_def bind_res_Inr_iff split: if_splits)
  have id: "i = o_id order" using find_order_Some [OF find] by simp
  show thesis
  proof (cases "find_event (o_id order) event_key d")
    case (Some existing)
    then show ?thesis
      using tx i find replay [of order existing] id
      by (auto simp: transition_fulfillment_once_tx_def bind_res_Inr_iff bind_tx_Inr split: if_splits)
  next
    case None
    obtain current transitioned order1 where cur: "order_state_of order = Inr current"
      and tr: "transition_fulfillment current target = Inr transitioned"
      and merge: "merge_calendar_time order cal = Inr order1"
      and req: "target = CALENDAR_PENDING \<Longrightarrow> o_calendar_submitted_at order1 \<noteq> None"
      using tx i find None by (auto simp: transition_fulfillment_once_tx_def bind_res_Inr_iff split: if_splits)
    have st: "st_fulfillment transitioned = target" using tr by (auto simp: transition_fulfillment_Inr)
    define order2 where "order2 = order1\<lparr>o_fulfillment_state := target, o_updated_at := now\<rparr>"
    define e where "e = transition_event order order2 event_key d"
    have "bind_tx (flush_order order order2) (\<lambda>_. bind_tx (insert_state_event e) (\<lambda>_.
        lift_tx (fulfillment_order_of order2))) d = Inr (fo, d')"
      using tx i find None cur tr merge
      by (simp add: transition_fulfillment_once_tx_def Let_def bind_res_Inr_iff st order2_def [symmetric]
          transition_event_def [symmetric] e_def [symmetric] split: if_splits)
    then obtain d1 where "flush_order order order2 d = Inr ((), d1)" "insert_state_event e d1 = Inr ((), d')"
      "fulfillment_order_of order2 = Inr fo"
      by (auto simp: bind_tx_Inr)
    then show ?thesis
      using new [OF i [unfolded id] find [unfolded id] None cur tr merge order2_def] req
      by (simp add: order2_def e_def)
  qed
qed

lemma transition_new_Inr:
  assumes "event_key \<noteq> []" "length event_key \<le> 160"
    "(case cal of None \<Rightarrow> Inr () | Some t \<Rightarrow> require_aware t ''calendar_submission_time_invalid'') = Inr ()"
    "parse_uuid order_id = Inr i" "find_order i d = Some order" "find_event (o_id order) event_key d = None"
    "order_state_of order = Inr current" "transition_fulfillment current target = Inr transitioned"
    "merge_calendar_time order cal = Inr order1 \<and> (target = CALENDAR_PENDING \<longrightarrow> o_calendar_submitted_at order1 \<noteq> None)"
    "order2 = order1\<lparr>o_fulfillment_state := target, o_updated_at := now\<rparr>" "flush_order order order2 d = Inr ((), d1)"
    "insert_state_event (transition_event order order2 event_key d) d1 = Inr ((), d')"
    "fulfillment_order_of order2 = Inr fo"
  shows "transition_fulfillment_once_tx order_id target event_key cal now d = Inr (fo, d')"
proof -
  have st: "st_fulfillment transitioned = target" using assms(8) by (auto simp: transition_fulfillment_Inr)
  show ?thesis
    using assms
    by (simp add: transition_fulfillment_once_tx_def Let_def st transition_event_def bind_tx_def lift_tx_def)
qed

lemma transition_moves:
  assumes "order_state_of order = Inr current" "transition_fulfillment current target = Inr transitioned"
    "merge_calendar_time order cal = Inr order1"
    "order2 = order1\<lparr>o_fulfillment_state := target, o_updated_at := now\<rparr>"
  shows "order_keeps order order2" "legal_move order order2"
proof -
  have state: "st_payment current = o_payment_state order" "st_fulfillment current = o_fulfillment_state order"
    using assms(1) by (auto simp: order_state_of_def bind_res_Inr_iff)
  show "order_keeps order order2"
    using merge_calendar_time_Inr [OF assms(3)] by (auto simp: assms(4) order_keeps_def same_snapshot_fields_def)
  show "legal_move order order2"
    using assms(2) state merge_calendar_time_Inr [OF assms(3)]
    by (auto simp: transition_fulfillment_Inr legal_move_def legal_fulfillment_def assms(4) same_states_def)
qed

lemma transition_audited:
  assumes "transition_fulfillment_once_tx order_id target event_key cal now d = Inr (fo, d')"
  shows "audited sha d d'"
proof (rule audited_step)
  assume inv: "store_inv sha d"
  from assms show "audit_step sha d d'"
  proof (cases rule: transition_cases)
    case (replay order existing order1)
    then show ?thesis
      using flush_touched [OF inv _ _ _ replay(7)] merge_calendar_time_Inr [OF replay(5)] find_order_Some by blast
  next
    case (new order current transitioned order1 order2 d1)
    have "records_move (transition_event order order2 event_key d) order order2"
      "ev_sequence (transition_event order order2 event_key d) = next_sequence (o_id order) d"
      by (simp_all add: transition_event_def records_move_def)
    then show ?thesis
      using flush_moved [OF inv _ transition_moves [OF new(4-7)] new(9,10)] find_order_Some [OF new(2)] by blast
  qed
qed

section \<open>The proof store\<close>

lemma latest_proof_length:
  assumes inv: "store_inv sha d" and order: "order \<in> set (orders d)"
  shows "latest_proof (o_id order) d = None \<Longrightarrow> proofs_of d (o_id order) = []"
    and "latest_proof (o_id order) d = Some r \<Longrightarrow> pv_version r = int (length (proofs_of d (o_id order))) \<and>
      r \<in> set (proofs_of d (o_id order))"
proof -
  define ps where "ps = proofs_of d (o_id order)"
  have versions: "map pv_version ps = [1..int (length ps)]"
    using inv order by (simp add: store_inv_def proofs_ok_def ps_def)
  have latest: "latest_proof (o_id order) d = last_by pv_version ps"
    by (simp add: latest_proof_def ps_def proofs_of_def)
  show "latest_proof (o_id order) d = None \<Longrightarrow> proofs_of d (o_id order) = []"
    using latest by (simp add: ps_def)
  assume some: "latest_proof (o_id order) d = Some r"
  then have r: "r \<in> set ps" "\<And>x. x \<in> set ps \<Longrightarrow> pv_version x \<le> pv_version r"
    using last_by_in last_by_greatest by (fastforce simp: latest)+
  have "set (map pv_version ps) = {1..int (length ps)}" by (simp add: versions)
  moreover have "ps \<noteq> []" using r(1) by auto
  ultimately have "int (length ps) \<in> set (map pv_version ps)" "pv_version r \<in> {1..int (length ps)}"
    using r(1) by (auto simp: Suc_leI)
  then show "pv_version r = int (length (proofs_of d (o_id order))) \<and> r \<in> set (proofs_of d (o_id order))"
    using r by (force simp: ps_def)
qed

lemma insert_verification_Inr:
  assumes "insert_verification order_id v result now d = Inr (u, d')"
  obtains row where "d' = d\<lparr>proof_verifications := proof_verifications d @ [row]\<rparr>"
    "ve_order_id row = order_id" "ve_proof_version row = v" "stored_verification_matches row result"
    "unique_among (\<lambda>r. (ve_order_id r, ve_proof_version r)) row (proof_verifications d)"
    "find_proof order_id v d \<noteq> None" "bv_verified result"
proof -
  from assms obtain c where c: "verified_columns_of result = Inr c"
    by (auto simp: insert_verification_def bind_res_Inr_iff)
  define row where "row = \<lparr>ve_order_id = order_id, ve_proof_version = v, ve_method = bv_method result,
      ve_verified_at = vc_verified_at c, ve_block_height = vc_block_height c, ve_block_hash = vc_block_hash c,
      ve_block_time = vc_block_time c, ve_confirmation_policy = vc_confirmation_policy c, ve_created_at = now\<rparr>"
  have "insert_verification_row row d = Inr (u, d')"
    using assms c by (simp add: insert_verification_def row_def)
  moreover have "stored_verification_matches row result" "bv_verified result"
    using c by (auto simp: verified_columns_of_def validate_verified_def bind_res_Inr_iff row_def
        stored_verification_matches_def split: option.splits if_splits)
  ultimately show thesis
    by (intro that [of row]) (auto simp: insert_verification_row_def row_def split: if_splits)
qed

lemma insert_verification_audited:
  "insert_verification order_id v result now d = Inr (u, d') \<Longrightarrow> audit_step sha d d'"
  by (erule insert_verification_Inr, rule audit_step.verification_added)
    (auto simp: evidence_tables_def)

text \<open>What a committed append is: a replay of the stored version, or the next version.\<close>

definition row_of_proof :: "uuid \<Rightarrow> stored_proof \<Rightarrow> verification_metadata option \<Rightarrow> datetime \<Rightarrow> proof_row" where
  "row_of_proof oid p metadata now =
     \<lparr>pv_order_id = oid, pv_version = sp_version p, pv_target_digest = sp_target_digest p,
      pv_proof_bytes = sp_proof_bytes p, pv_proof_sha256 = sp_proof_sha256 p,
      pv_proof_byte_length = int (proof_byte_length p), pv_proof_state = sp_proof_state p,
      pv_calendar_submitted_at = sp_calendar_submitted_at p, pv_verification_metadata = metadata,
      pv_created_at = now\<rparr>"

lemma append_tx_cases:
  assumes tx: "append_tx sha p now d = Inr (u, d')"
  obtains (replay) order order1 latest where
    "find_order_by_reference (sp_order_reference p) d = Some order" "o_manifest_digest order = sp_target_digest p"
    "merge_calendar_time order (Some (sp_calendar_submitted_at p)) = Inr order1"
    "latest_proof (o_id order) d = Some latest" "sp_version p = pv_version latest"
    "stored_proof_of sha latest (o_order_reference order) None None True = Inr p"
    "flush_order order order1 d = Inr ((), d')"
  | (new) order order1 metadata d1 d2 where
    "find_order_by_reference (sp_order_reference p) d = Some order" "o_manifest_digest order = sp_target_digest p"
    "merge_calendar_time order (Some (sp_calendar_submitted_at p)) = Inr order1"
    "case latest_proof (o_id order) d of None \<Rightarrow> sp_version p = 1
       | Some l \<Rightarrow> sp_version p = pv_version l + 1 \<and> pv_target_digest l = sp_target_digest p"
    "flush_order order order1 d = Inr ((), d1)"
    "insert_proof (row_of_proof (o_id order) p metadata now) d1 = Inr ((), d2)"
    "case sp_verification p of None \<Rightarrow> metadata = None \<and> d' = d2
       | Some v \<Rightarrow> (\<exists>m. verification_payload v = Inr m \<and> metadata = Some m) \<and>
           insert_verification (o_id order) (sp_version p) v now d2 = Inr ((), d')"
proof -
  from tx obtain order where order: "find_order_by_reference (sp_order_reference p) d = Some order"
    by (cases "find_order_by_reference (sp_order_reference p) d") (auto simp: append_tx_def split: if_splits)
  from tx order have digest: "o_manifest_digest order = sp_target_digest p"
    by (auto simp: append_tx_def split: if_splits)
  from tx order digest obtain order1 where merge: "merge_calendar_time order (Some (sp_calendar_submitted_at p)) = Inr order1"
    by (auto simp: append_tx_def bind_res_Inr_iff split: if_splits)
  note facts = tx [unfolded append_tx_def row_of_proof_def [symmetric] Let_def] order digest merge
  consider (same) latest where "latest_proof (o_id order) d = Some latest" "sp_version p = pv_version latest"
    | (other) "case latest_proof (o_id order) d of None \<Rightarrow> True | Some l \<Rightarrow> sp_version p \<noteq> pv_version l"
    by (cases "latest_proof (o_id order) d") auto
  then show thesis
  proof cases
    case same
    then show ?thesis
      using replay [OF order digest merge same] facts by (auto simp: bind_res_Inr_iff split: if_splits)
  next
    case other
    have next_version: "case latest_proof (o_id order) d of None \<Rightarrow> sp_version p = 1
       | Some l \<Rightarrow> sp_version p = pv_version l + 1 \<and> pv_target_digest l = sp_target_digest p"
      using facts other by (cases "latest_proof (o_id order) d") (auto split: if_splits)
    show ?thesis
    proof (cases "sp_verification p")
      case None
      then show ?thesis
        using new [OF order digest merge next_version, of _ None] facts other
        by (cases "latest_proof (o_id order) d") (auto simp: bind_tx_Inr split: if_splits)
    next
      case (Some v)
      then show ?thesis
        using new [OF order digest merge next_version] facts other
        by (cases "latest_proof (o_id order) d") (auto simp: bind_res_Inr_iff bind_tx_Inr split: if_splits)
    qed
  qed
qed

lemma append_audited:
  assumes valid: "StoredProof sha p = Inr p" and tx: "append_tx sha p now d = Inr (u, d')"
  shows "audited sha d d'"
  unfolding audited_def
proof
  assume inv: "store_inv sha d"
  from tx show "(audit_step sha)\<^sup>*\<^sup>* d d'"
  proof (cases rule: append_tx_cases)
    case (replay order order1 latest)
    then show ?thesis
      using flush_touched [OF inv _ _ _ replay(7)] find_order_by_reference_Some [OF replay(1)]
        merge_calendar_time_Inr [OF replay(3)] by blast
  next
    case (new order order1 metadata d1 d2)
    have order: "order \<in> set (orders d)" using find_order_by_reference_Some [OF new(1)] by simp
    have step1: "audit_step sha d d1"
      using flush_touched [OF inv order _ _ new(5)] merge_calendar_time_Inr [OF new(3)] by blast
    have inv1: "store_inv sha d1" using audit_step_safe [OF step1] inv by (simp add: store_safe_def)
    have keeps: "o_id order1 = o_id order" "o_manifest_digest order1 = o_manifest_digest order"
      using merge_calendar_time_Inr [OF new(3)] by (simp_all add: order_keeps_def same_snapshot_fields_def)
    have d1: "d1 = d\<lparr>orders := put_order order1 (orders d)\<rparr>"
      using flush_order_Inr [OF inv order _ new(5)] keeps by simp
    have order1: "order1 \<in> set (orders d1)"
      using put_order_unique [of "orders d" order order1] inv order keeps
      by (simp add: d1 store_inv_def orders_ok_def)
    define r where "r = row_of_proof (o_id order) p metadata now"
    have d2: "d2 = d1\<lparr>proof_versions := proof_versions d1 @ [r]\<rparr>"
      using new(6) by (auto simp: insert_proof_def r_def split: if_splits)
    have "pv_version r = int (length (proofs_of d1 (o_id order1))) + 1"
      using new(4) latest_proof_length [OF inv order] keeps
      by (auto simp: r_def row_of_proof_def d1 proofs_of_def split: option.splits)
    moreover have "proof_row_ok sha order1 r"
      using StoredProof_InrD [OF valid] new(2) keeps
      by (simp add: proof_row_ok_def r_def row_of_proof_def proof_byte_length_def)
    ultimately have step2: "audit_step sha d1 d2"
      using order1 keeps by (intro audit_step.proof_added [of order1 d1 r]) (auto simp: d2 evidence_tables_def r_def row_of_proof_def)
    show ?thesis
    proof (cases "sp_verification p")
      case None
      then show ?thesis using step1 step2 new(7) by (auto intro: rtranclp.rtrancl_into_rtrancl)
    next
      case (Some v)
      then have "audit_step sha d2 d'" using new(7) insert_verification_audited by auto
      then show ?thesis using step1 step2 by (meson converse_rtranclp_into_rtranclp rtranclp.rtrancl_refl)
    qed
  qed
qed

section \<open>Verifications, observations, bundles\<close>

lemma find_verification_Some:
  "find_verification i v d = Some r \<Longrightarrow> r \<in> set (proof_verifications d) \<and> ve_order_id r = i \<and> ve_proof_version r = v"
  unfolding find_verification_def by (auto dest: find_SomeD)

lemma put_verified_audited:
  assumes "put_verified_once_tx order_id v result now d = Inr (u, d')"
  shows "audited sha d d'"
proof -
  have "d' = d \<or> (\<exists>i. insert_verification i v result now d = Inr (u, d'))"
    using assms
    by (auto simp: put_verified_once_tx_def bind_res_Inr_iff split: option.splits if_splits)
  then show ?thesis
    using insert_verification_audited by (auto intro: audited_step audit_keeping.R_refl)
qed

lemma record_once_cases:
  assumes "record_once_tx new_id order_id v key result now d = Inr (co, d')"
  obtains order stored where "parse_uuid order_id = Inr (o_id order)" "find_order (o_id order) d = Some order"
    "find_verification (o_id order) v d = Some stored" "stored_verification_matches stored result"
    "bv_verified result"
    "(\<exists>ob \<in> set (confirmation_observations d). co = project_observation ob \<and> d' = d \<and>
        ob_order_id ob = o_id order \<and> ob_event_key ob = key \<and> observation_matches_result ob v result) \<or>
     (\<exists>ob. co = project_observation ob \<and> d' = d\<lparr>confirmation_observations := confirmation_observations d @ [ob]\<rparr> \<and>
        ob_order_id ob = o_id order \<and> ob_event_key ob = key \<and> observation_matches_result ob v result \<and>
        ob_id ob = new_id \<and> 0 < ob_observed_confirmations ob)"
proof -
  from assms obtain i where i: "parse_uuid order_id = Inr i" and valid: "validate_observation_input v key result = Inr ()"
    by (auto simp: record_once_tx_def bind_res_Inr_iff)
  from valid obtain n h bh va cp where cols: "bv_confirmations result = Some n" "bv_block_height result = Some h"
    "bv_block_hash result = Some bh" "bv_verified_at result = Some va" "bv_confirmation_policy result = Some cp"
    "bv_verified result" "1 \<le> n"
    by (auto simp: validate_observation_input_def split: if_splits option.splits)
  note facts = assms [unfolded record_once_tx_def, simplified i valid cols Let_def, simplified]
  from facts obtain order where order: "find_order i d = Some order"
    by (cases "find_order i d") auto
  have id: "i = o_id order" using find_order_Some [OF order] by simp
  from facts order obtain stored where stored: "find_verification (o_id order) v d = Some stored"
    "stored_verification_matches stored result"
    by (cases "find_verification (o_id order) v d") (auto split: if_splits)
  show thesis
  proof (cases "find (\<lambda>r. ob_order_id r = o_id order \<and> ob_event_key r = key) (confirmation_observations d)")
    case None
    define ob where "ob = \<lparr>ob_id = new_id, ob_order_id = o_id order, ob_proof_version = v,
        ob_observed_confirmations = n, ob_block_height = h, ob_block_hash = bh, ob_method = bv_method result,
        ob_confirmation_policy = cp, ob_observed_at = aware va, ob_event_key = key, ob_created_at = now\<rparr>"
    have "bind_tx (insert_observation ob) (\<lambda>_. return_tx (project_observation ob)) d = Inr (co, d')"
      using facts order stored None by (auto simp: ob_def split: if_splits)
    then have new: "co = project_observation ob" "d' = d\<lparr>confirmation_observations := confirmation_observations d @ [ob]\<rparr>"
      by (auto simp: bind_tx_Inr insert_observation_def split: if_splits)
    have "ob_order_id ob = o_id order" "ob_event_key ob = key" "observation_matches_result ob v result"
      "ob_id ob = new_id" "0 < ob_observed_confirmations ob"
      using cols by (simp_all add: ob_def observation_matches_result_def)
    then show ?thesis
      using that [of order stored] i order stored id cols(6) new by blast
  next
    case (Some ob)
    then have "ob \<in> set (confirmation_observations d) \<and> ob_order_id ob = o_id order \<and> ob_event_key ob = key"
      using find_SomeD [OF Some] by simp
    then show ?thesis
      using that [of order stored] i order stored id facts Some cols by (auto split: if_splits)
  qed
qed

lemma record_once_audited:
  assumes "record_once_tx new_id order_id v key result now d = Inr (co, d')"
  shows "audited sha d d'"
  using assms
proof (cases rule: record_once_cases)
  case (1 order stored)
  from 1(6) show ?thesis
  proof (elim disjE bexE exE conjE)
    fix ob
    assume d': "d' = d\<lparr>confirmation_observations := confirmation_observations d @ [ob]\<rparr>"
      and ob: "ob_order_id ob = o_id order" "observation_matches_result ob v result" "0 < ob_observed_confirmations ob"
    have "observation_matches_verification ob stored" "ve_proof_version stored = ob_proof_version ob"
      using 1(4) ob(2) find_verification_Some [OF 1(3)]
      by (auto simp: observation_matches_verification_def observation_matches_result_def
          stored_verification_matches_def dest: sym)
    then show ?thesis
      using ob d' find_verification_Some [OF 1(3)]
      by (intro audited_step audit_step.observation_added [of stored d ob]) (auto simp: evidence_tables_def)
  qed (simp add: audit_keeping.R_refl)
qed

lemma put_bundle_cases:
  assumes "put_bundle_once_tx sha order_id v bundle now d = Inr (u, d')"
  obtains order where "parse_uuid order_id = Inr (o_id order)" "find_order (o_id order) d = Some order"
    "\<not> bundle_is_sensitive (o_email order) bundle"
    "d' = d \<and> (\<exists>b. find_bundle (o_id order) v d = Some b \<and> pb_bundle_bytes b = bundle) \<or>
     (\<exists>b. find_bundle (o_id order) v d = None \<and> insert_bundle b d = Inr (u, d') \<and> pb_order_id b = o_id order \<and>
        pb_proof_version b = v \<and> pb_bundle_bytes b = bundle \<and> pb_bundle_sha256 b = sha bundle \<and>
        pb_bundle_byte_length b = int (length bundle))"
proof -
  from assms obtain i where i: "parse_uuid order_id = Inr i"
    by (auto simp: put_bundle_once_tx_def bind_res_Inr_iff split: if_splits)
  note facts = assms [unfolded put_bundle_once_tx_def, simplified i, simplified]
  from facts obtain order where order: "find_order i d = Some order"
    by (cases "find_order i d") (auto split: if_splits)
  have id: "i = o_id order" using find_order_Some [OF order] by simp
  from facts order obtain pr where p: "find_proof i v d = Some pr"
    by (cases "find_proof i v d") (auto split: if_splits)
  show thesis
    using that [of order] i order id facts p
    by (cases "find_bundle i v d") (force split: if_splits)+
qed

lemma put_bundle_audited:
  assumes "put_bundle_once_tx sha order_id v bundle now d = Inr (u, d')"
  shows "audited sha d d'"
  using assms
proof (cases rule: put_bundle_cases)
  case (1 order)
  have order: "order \<in> set (orders d)" using find_order_Some [OF 1(2)] by simp
  from 1(4) show ?thesis
  proof (elim disjE exE conjE)
    fix b
    assume b: "insert_bundle b d = Inr (u, d')" "pb_order_id b = o_id order" "pb_bundle_bytes b = bundle"
      "pb_bundle_sha256 b = sha bundle" "pb_bundle_byte_length b = int (length bundle)"
    then show ?thesis
      using order 1(3)
      by (intro audited_step audit_step.bundle_added [of order d b])
        (auto simp: insert_bundle_def evidence_tables_def split: if_splits)
  qed (simp add: audit_keeping.R_refl)
qed

section \<open>The SQL proof store as a proof store\<close>

text \<open>
  The rows of an order as the append compares them: the stored proof without the separate
  verification. A proof that was appended reads back as it was, so the SQL store satisfies the
  contract \<open>proof_store\<close> that the in-memory store satisfies.
\<close>

definition order_id_of :: "order_reference \<Rightarrow> db \<Rightarrow> uuid option" where
  "order_id_of ref d = map_option o_id (find_order_by_reference ref d)"

definition row_view :: "(bytes \<Rightarrow> bytes) \<Rightarrow> order_reference \<Rightarrow> proof_row \<Rightarrow> exn + stored_proof" where
  "row_view sha ref r = stored_proof_of sha r ref None None True"

definition sql_versions :: "(bytes \<Rightarrow> bytes) \<Rightarrow> db \<Rightarrow> order_reference \<Rightarrow> stored_proof list" where
  "sql_versions sha d ref = (case order_id_of ref d of None \<Rightarrow> []
     | Some i \<Rightarrow> map (\<lambda>r. projr (row_view sha ref r)) (proofs_of d i))"

definition sql_latest :: "(bytes \<Rightarrow> bytes) \<Rightarrow> db \<Rightarrow> order_reference \<Rightarrow> stored_proof option" where
  "sql_latest sha d ref = (case order_id_of ref d of None \<Rightarrow> None
     | Some i \<Rightarrow> map_option (\<lambda>r. projr (row_view sha ref r)) (latest_proof i d))"

text \<open>A caller can only pass a proof that went through the two constructors.\<close>

definition sql_append :: "(bytes \<Rightarrow> bytes) \<Rightarrow> datetime \<Rightarrow> db \<Rightarrow> stored_proof \<Rightarrow> exn + db" where
  "sql_append sha now d p =
     bind_res (OrderReference (sp_order_reference p)) (\<lambda>_. bind_res (StoredProof sha p) (\<lambda>p.
       bind_res (append_tx sha p now d) (\<lambda>r. Inr (snd r))))"

definition sql_ok :: "(bytes \<Rightarrow> bytes) \<Rightarrow> db \<Rightarrow> bool" where
  "sql_ok sha d \<longleftrightarrow> store_inv sha d \<and>
     (\<forall>order \<in> set (orders d). \<forall>r \<in> set (proofs_of d (o_id order)). \<exists>p. row_view sha (o_order_reference order) r = Inr p)"

lemma verification_payload_roundtrip:
  assumes "verification_payload v = Inr m"
  shows "verification_from_payload m = Inr v"
proof -
  from assms obtain c where c: "verified_columns_of v = Inr c"
    and m: "m = \<lparr>vm_block_height = vc_block_height c, vm_block_hash = vc_block_hash c, vm_block_time = vc_block_time c,
      vm_confirmation_policy = vc_confirmation_policy c, vm_confirmations = vc_confirmations c,
      vm_method = bv_method v, vm_verified_at = vc_verified_at c\<rparr>"
    by (auto simp: verification_payload_def bind_res_Inr_iff)
  have "bv_verified v" "bv_verified_at v = Some (vc_verified_at c)" "bv_block_height v = Some (vc_block_height c)"
    "bv_block_hash v = Some (vc_block_hash c)" "bv_block_time v = Some (vc_block_time c)"
    "bv_confirmation_policy v = Some (vc_confirmation_policy c)" "bv_confirmations v = Some (vc_confirmations c)"
    "1 \<le> vc_confirmations c"
    using c by (auto simp: verified_columns_of_def validate_verified_def bind_res_Inr_iff split: option.splits if_splits)
  then show ?thesis
    by (simp add: verification_from_payload_def m BitcoinVerification_def metadata_present_def)
qed

lemma row_view_of_proof:
  assumes valid: "StoredProof sha p = Inr p" "OrderReference (sp_order_reference p) = Inr (sp_order_reference p)"
    "length (sp_target_digest p) = 32"
    and metadata: "case sp_verification p of None \<Rightarrow> metadata = None
      | Some v \<Rightarrow> \<exists>m. verification_payload v = Inr m \<and> metadata = Some m"
  shows "row_view sha (sp_order_reference p) (row_of_proof oid p metadata now) = Inr p"
proof -
  have state: "sp_proof_state p = (if sp_verification p \<noteq> None then PS_BITCOIN_VERIFIED else PS_CALENDAR_PENDING)"
    "is_aware (sp_calendar_submitted_at p)"
    using StoredProof_InrD [OF valid(1)] by (auto, cases "sp_proof_state p", auto)
  show ?thesis
    using valid metadata state verification_payload_roundtrip
    by (cases p) (auto simp: row_view_def stored_proof_of_def row_of_proof_def proof_byte_length_def
        digest_from_bytes_def ManifestDigest_def split: option.splits)
qed

lemma row_view_fields:
  "row_view sha ref r = Inr p \<Longrightarrow> sp_order_reference p = ref \<and> sp_version p = pv_version r \<and>
     sp_target_digest p = pv_target_digest r"
  by (auto simp: row_view_def stored_proof_of_def bind_res_Inr_iff OrderReference_def digest_from_bytes_def
      ManifestDigest_def dest!: StoredProof_Inr_same split: if_splits)

lemma order_id_of_cong:
  assumes "map o_id (orders d') = map o_id (orders d)"
    and "map o_order_reference (orders d') = map o_order_reference (orders d)"
  shows "order_id_of ref d' = order_id_of ref d"
proof -
  have "map_option o_id (find (\<lambda>r. o_order_reference r = ref) rows) =
      map_option o_id (find (\<lambda>r. o_order_reference r = ref) rows')"
    if "map o_id rows = map o_id rows'" "map o_order_reference rows = map o_order_reference rows'" for rows rows'
    using that
  proof (induction rows arbitrary: rows')
    case (Cons r rows)
    then obtain r' rest where "rows' = r' # rest" by (cases rows') auto
    with Cons show ?case by auto
  qed simp
  then show ?thesis using assms by (simp add: order_id_of_def find_order_by_reference_def)
qed

lemma order_id_of_Some:
  assumes "store_inv sha d" "order_id_of ref d = Some i"
  obtains order where "order \<in> set (orders d)" "o_id order = i" "o_order_reference order = ref"
  using assms find_order_by_reference_Some by (auto simp: order_id_of_def)

lemma sql_append_InrD:
  assumes "sql_append sha now d p = Inr d'"
  shows "OrderReference (sp_order_reference p) = Inr (sp_order_reference p) \<and> StoredProof sha p = Inr p \<and>
    append_tx sha p now d = Inr ((), d')"
proof (cases "StoredProof sha p")
  case (Inr q)
  then have "q = p" by (rule StoredProof_Inr_same)
  then show ?thesis
    using assms Inr by (auto simp: sql_append_def bind_res_Inr_iff OrderReference_def split: if_splits)
qed (use assms in \<open>auto simp: sql_append_def bind_res_Inr_iff\<close>)

lemma sql_append_audited: "sql_append sha now d p = Inr d' \<Longrightarrow> audited sha d d'"
  using sql_append_InrD append_audited by blast

lemma sql_append_cases:
  assumes ok: "sql_ok sha d" and app: "sql_append sha now d p = Inr d'"
  obtains order order1 where "order \<in> set (orders d)" "o_order_reference order = sp_order_reference p"
    "order_id_of (sp_order_reference p) d = Some (o_id order)"
    "orders d' = put_order order1 (orders d)" "order_keeps order order1"
    "proof_versions d' = proof_versions d \<and> (\<exists>r. latest_proof (o_id order) d = Some r \<and>
        row_view sha (sp_order_reference p) r = Inr p) \<or>
     (\<exists>metadata. proof_versions d' = proof_versions d @ [row_of_proof (o_id order) p metadata now] \<and>
        row_view sha (sp_order_reference p) (row_of_proof (o_id order) p metadata now) = Inr p \<and>
        (case latest_proof (o_id order) d of None \<Rightarrow> sp_version p = 1
         | Some l \<Rightarrow> sp_version p = pv_version l + 1 \<and> pv_target_digest l = sp_target_digest p))"
proof -
  have inv: "store_inv sha d" using ok by (simp add: sql_ok_def)
  have ref: "OrderReference (sp_order_reference p) = Inr (sp_order_reference p)" and valid: "StoredProof sha p = Inr p"
    and tx: "append_tx sha p now d = Inr ((), d')"
    using sql_append_InrD [OF app] by simp_all
  from tx show thesis
  proof (cases rule: append_tx_cases)
    case (replay order order1 latest)
    note order = find_order_by_reference_Some [OF replay(1)]
    have keeps: "order_keeps order order1" using merge_calendar_time_Inr [OF replay(3)] by simp
    then have "d' = d\<lparr>orders := put_order order1 (orders d)\<rparr>"
      using flush_order_Inr [OF inv _ _ replay(7)] order by (simp add: order_keeps_def)
    then show ?thesis
      using that [of order order1] order keeps replay(1,4,6) by (simp add: order_id_of_def row_view_def)
  next
    case (new order order1 metadata d1 d2)
    note order = find_order_by_reference_Some [OF new(1)]
    have keeps: "order_keeps order order1" using merge_calendar_time_Inr [OF new(3)] by simp
    then have d1: "d1 = d\<lparr>orders := put_order order1 (orders d)\<rparr>"
      using flush_order_Inr [OF inv _ _ new(5)] order by (simp add: order_keeps_def)
    have d2: "d2 = d1\<lparr>proof_versions := proof_versions d1 @ [row_of_proof (o_id order) p metadata now]\<rparr>"
      and len: "length (sp_target_digest p) = 32"
      using new(6) by (auto simp: insert_proof_def row_of_proof_def split: if_splits)
    have d': "orders d' = orders d2" "proof_versions d' = proof_versions d2"
      using new(7) by (auto split: option.splits elim!: insert_verification_Inr)
    have meta: "case sp_verification p of None \<Rightarrow> metadata = None
        | Some v \<Rightarrow> \<exists>m. verification_payload v = Inr m \<and> metadata = Some m"
      using new(7) by (auto split: option.splits)
    have "row_view sha (sp_order_reference p) (row_of_proof (o_id order) p metadata now) = Inr p"
      by (rule row_view_of_proof [OF valid ref len meta])
    then show ?thesis
      using that [of order order1] order keeps new(1,4) d' d1 d2 by (auto simp: order_id_of_def)
  qed
qed

lemma latest_is_last_proof:
  assumes inv: "store_inv sha d" and order: "order \<in> set (orders d)"
  shows "latest_proof (o_id order) d =
     (if proofs_of d (o_id order) = [] then None else Some (last (proofs_of d (o_id order))))"
proof (cases "latest_proof (o_id order) d")
  case None
  then show ?thesis using latest_proof_length(1) [OF inv order] by simp
next
  case (Some r)
  define ps where "ps = proofs_of d (o_id order)"
  have versions: "map pv_version ps = [1..int (length ps)]"
    using inv order by (simp add: store_inv_def proofs_ok_def ps_def)
  have r: "pv_version r = int (length ps)" "r \<in> set ps"
    using latest_proof_length(2) [OF inv order Some] by (simp_all add: ps_def)
  then have ne: "ps \<noteq> []" by auto
  have "pv_version (last ps) = last (map pv_version ps)" using ne by (simp add: last_map)
  also have "\<dots> = int (length ps)"
    using ne unfolding versions by (subst upto_rec2) (simp_all add: Suc_leI)
  finally have "pv_version r = pv_version (last ps)" using r by simp
  moreover have "distinct (map pv_version ps)" by (simp add: versions)
  ultimately have "r = last ps" using r(2) ne by (auto simp: distinct_map inj_on_def)
  then show ?thesis using Some ne by (simp add: ps_def)
qed


lemma sql_latest_versions:
  assumes ok: "sql_ok sha d"
  shows "sql_latest sha d ref = (if sql_versions sha d ref = [] then None else Some (last (sql_versions sha d ref)))"
proof (cases "order_id_of ref d")
  case (Some i)
  have inv: "store_inv sha d" using ok by (simp add: sql_ok_def)
  obtain order where "order \<in> set (orders d)" "o_id order = i" using order_id_of_Some [OF inv Some] by blast
  then show ?thesis
    using latest_is_last_proof [OF inv, of order] Some
    by (simp add: sql_latest_def sql_versions_def last_map)
qed (simp add: sql_latest_def sql_versions_def)

lemma sql_ok_append:
  assumes ok: "sql_ok sha d" and app: "sql_append sha now d p = Inr d'"
  shows "sql_ok sha d'"
proof -
  have inv: "store_inv sha d" using ok by (simp add: sql_ok_def)
  have inv': "store_inv sha d'"
    using audited_safe [OF sql_append_audited [OF app]] inv by (simp add: store_safe_def)
  from ok app obtain order order1 where order: "order \<in> set (orders d)" "o_order_reference order = sp_order_reference p"
    "orders d' = put_order order1 (orders d)" "order_keeps order order1"
    and change: "proof_versions d' = proof_versions d \<or>
     (\<exists>metadata. proof_versions d' = proof_versions d @ [row_of_proof (o_id order) p metadata now] \<and>
        row_view sha (sp_order_reference p) (row_of_proof (o_id order) p metadata now) = Inr p)"
    by (cases rule: sql_append_cases) blast
  have dist: "distinct (map o_id (orders d))" using inv by (simp add: store_inv_def orders_ok_def)
  have id: "o_id order1 = o_id order" "o_order_reference order1 = o_order_reference order"
    using order(4) by (simp_all add: order_keeps_def same_snapshot_fields_def)
  have "\<exists>q. row_view sha (o_order_reference x) r = Inr q"
    if "x \<in> set (orders d')" "r \<in> set (proofs_of d' (o_id x))" for x r
  proof -
    have "x = order1 \<or> x \<in> set (orders d)"
      using that(1) put_order_unique [OF dist order(1) id(1), of x] order(3) by auto
    then obtain y where y: "y \<in> set (orders d)" "o_id y = o_id x" "o_order_reference y = o_order_reference x"
      using order(1) id by (metis)
    have "r \<in> set (proof_versions d')" "pv_order_id r = o_id y" using that(2) y(2) by (auto simp: proofs_of_def)
    then have "r \<in> set (proofs_of d (o_id y)) \<or> o_id y = o_id order \<and> row_view sha (sp_order_reference p) r = Inr p"
      using change by (auto simp: proofs_of_def row_of_proof_def)
    then consider "r \<in> set (proofs_of d (o_id y))"
      | "o_id y = o_id order" "row_view sha (sp_order_reference p) r = Inr p" by blast
    then show ?thesis
    proof cases
      case 1
      then show ?thesis using ok y by (auto simp: sql_ok_def)
    next
      case 2
      then have "y = order" using y(1) order(1) dist by (auto simp: distinct_map inj_on_def)
      then show ?thesis using 2 y order by auto
    qed
  qed
  with inv' show ?thesis by (simp add: sql_ok_def)
qed

lemma sql_versions_append:
  assumes ok: "sql_ok sha d" and app: "sql_append sha now d p = Inr d'"
  shows "sql_versions sha d' (sp_order_reference p) = sql_versions sha d (sp_order_reference p) \<and>
      sql_latest sha d (sp_order_reference p) = Some p \<or>
     sql_versions sha d' (sp_order_reference p) = sql_versions sha d (sp_order_reference p) @ [p] \<and>
      (case sql_latest sha d (sp_order_reference p) of None \<Rightarrow> sp_version p = 1
       | Some q \<Rightarrow> sp_version p = sp_version q + 1 \<and> sp_target_digest p = sp_target_digest q)"
    and "ref \<noteq> sp_order_reference p \<Longrightarrow> sql_versions sha d' ref = sql_versions sha d ref"
proof -
  have inv: "store_inv sha d" using ok by (simp add: sql_ok_def)
  from ok app obtain order order1 where order: "order \<in> set (orders d)" "o_order_reference order = sp_order_reference p"
    "order_id_of (sp_order_reference p) d = Some (o_id order)" "orders d' = put_order order1 (orders d)"
    "order_keeps order order1"
    and change: "proof_versions d' = proof_versions d \<and> (\<exists>r. latest_proof (o_id order) d = Some r \<and>
        row_view sha (sp_order_reference p) r = Inr p) \<or>
     (\<exists>metadata. proof_versions d' = proof_versions d @ [row_of_proof (o_id order) p metadata now] \<and>
        row_view sha (sp_order_reference p) (row_of_proof (o_id order) p metadata now) = Inr p \<and>
        (case latest_proof (o_id order) d of None \<Rightarrow> sp_version p = 1
         | Some l \<Rightarrow> sp_version p = pv_version l + 1 \<and> pv_target_digest l = sp_target_digest p))"
    by (cases rule: sql_append_cases) blast
  have dist: "distinct (map o_id (orders d))" using inv by (simp add: store_inv_def orders_ok_def)
  have ids: "order_id_of x d' = order_id_of x d" for x
    using put_order_maps [OF dist order(1,5)] by (intro order_id_of_cong) (simp_all add: order(4))
  have view: "\<exists>q. row_view sha (sp_order_reference p) l = Inr q" if "latest_proof (o_id order) d = Some l" for l
    using ok order(1,2) latest_proof_length(2) [OF inv order(1) that] by (auto simp: sql_ok_def)
  show "sql_versions sha d' (sp_order_reference p) = sql_versions sha d (sp_order_reference p) \<and>
      sql_latest sha d (sp_order_reference p) = Some p \<or>
     sql_versions sha d' (sp_order_reference p) = sql_versions sha d (sp_order_reference p) @ [p] \<and>
      (case sql_latest sha d (sp_order_reference p) of None \<Rightarrow> sp_version p = 1
       | Some q \<Rightarrow> sp_version p = sp_version q + 1 \<and> sp_target_digest p = sp_target_digest q)"
    using change
  proof (elim disjE exE conjE)
    fix metadata
    assume new: "proof_versions d' = proof_versions d @ [row_of_proof (o_id order) p metadata now]"
      "row_view sha (sp_order_reference p) (row_of_proof (o_id order) p metadata now) = Inr p"
      "case latest_proof (o_id order) d of None \<Rightarrow> sp_version p = 1
         | Some l \<Rightarrow> sp_version p = pv_version l + 1 \<and> pv_target_digest l = sp_target_digest p"
    have "proofs_of d' (o_id order) = proofs_of d (o_id order) @ [row_of_proof (o_id order) p metadata now]"
      by (simp add: proofs_of_def new(1) row_of_proof_def)
    moreover have "case sql_latest sha d (sp_order_reference p) of None \<Rightarrow> sp_version p = 1
       | Some q \<Rightarrow> sp_version p = sp_version q + 1 \<and> sp_target_digest p = sp_target_digest q"
      using new(3) view row_view_fields by (fastforce simp: sql_latest_def order(3) split: option.splits)
    ultimately show ?thesis using new(2) by (simp add: sql_versions_def ids order(3))
  qed (auto simp: sql_versions_def sql_latest_def ids order(3) proofs_of_def)
  show "sql_versions sha d' ref = sql_versions sha d ref" if "ref \<noteq> sp_order_reference p"
  proof (cases "order_id_of ref d")
    case (Some i)
    obtain x where "x \<in> set (orders d)" "o_id x = i" "o_order_reference x = ref"
      using order_id_of_Some [OF inv Some] by blast
    then have "i \<noteq> o_id order" using that order(1,2) dist by (auto simp: distinct_map inj_on_def)
    then have "proofs_of d' i = proofs_of d i" using change by (auto simp: proofs_of_def row_of_proof_def)
    then show ?thesis by (simp add: sql_versions_def ids Some)
  qed (simp add: sql_versions_def ids)
qed

interpretation sql_store: proof_store "sql_versions sha" "sql_latest sha" "sql_append sha now" "sql_ok sha"
  by unfold_locales (fact sql_latest_versions sql_versions_append sql_ok_append)+

lemma sql_history:
  assumes ok: "sql_ok sha d"
  shows "history_ok (sql_versions sha d ref)"
proof (cases "order_id_of ref d")
  case (Some i)
  have inv: "store_inv sha d" using ok by (simp add: sql_ok_def)
  obtain order where order: "order \<in> set (orders d)" "o_id order = i" "o_order_reference order = ref"
    using order_id_of_Some [OF inv Some] by blast
  define ps where "ps = proofs_of d i"
  have versions: "map pv_version ps = [1..int (length ps)]" "list_all (proof_row_ok sha order) ps"
    using inv order by (auto simp: store_inv_def proofs_ok_def ps_def)
  have view: "sp_version (projr (row_view sha ref r)) = pv_version r \<and>
      sp_target_digest (projr (row_view sha ref r)) = o_manifest_digest order" if "r \<in> set ps" for r
  proof -
    have "\<exists>q. row_view sha ref r = Inr q" using ok order that unfolding sql_ok_def ps_def by blast
    then obtain q where "row_view sha ref r = Inr q" ..
    then show ?thesis
      using row_view_fields [of sha ref r q] versions(2) that by (auto simp: list_all_iff proof_row_ok_def)
  qed
  have "pv_version (ps ! k) = int k + 1" if "k < length ps" for k
    using arg_cong [OF versions(1), of "\<lambda>xs. xs ! k"] that by (simp add: nth_upto)
  then show ?thesis
    using view by (auto simp: history_ok_def sql_versions_def Some ps_def [symmetric])
qed (simp add: sql_versions_def)

section \<open>A sample store\<close>

definition sample_event :: "int \<Rightarrow> string \<Rightarrow> payment_state \<Rightarrow> payment_state \<Rightarrow> fulfillment_state \<Rightarrow> fulfillment_state
    \<Rightarrow> state_event_row" where
  "sample_event n key p p' f f' = \<lparr>ev_order_id = 7, ev_sequence = n, ev_event_key = key, ev_source = ''sample'',
     ev_previous_payment_state = Some p, ev_payment_state = p', ev_previous_fulfillment_state = Some f,
     ev_fulfillment_state = f', ev_evidence = NoEvidence, ev_created_at = Aware 0\<rparr>"

definition sample_store :: db where
  "sample_store = sample_db\<lparr>state_events :=
     [sample_event 1 (''checkout:'' @ uuid_str 7) CHECKOUT_OPEN CHECKOUT_OPEN AWAITING_PAYMENT AWAITING_PAYMENT,
      sample_event 2 ''stripe:evt_1'' CHECKOUT_OPEN PAID AWAITING_PAYMENT QUEUED]\<rparr>"

lemma sample_usd: "str_lower ''usd'' = ''usd''" "str_isalpha ''usd''" "ORDER_REFERENCE ''ts_01ARZ3NDEKTSV4RRFFQ69G5FAV''"
  "CERTIFICATE ''SR-1''"
  by code_simp+

lemma sample_store_inv: "store_inv sha sample_store"
  by (simp add: store_inv_defs sample_store_def sample_db_def sample_order_def sample_event_def empty_db_def
      order_check_def sample_usd paid_before_work_def work_states_def settled_payments_def log_ok_def events_of_def
      legal_event_def legal_payment_def legal_fulfillment_def chained_def proofs_of_def upto.simps)

lemma sample_sql_ok: "sql_ok sha sample_store"
  using sample_store_inv [of sha]
  by (simp add: sql_ok_def proofs_of_def sample_store_def sample_db_def empty_db_def)

lemma sample_find: "find_order 7 sample_store = Some sample_order"
  "find_order_by_reference ''ts_01ARZ3NDEKTSV4RRFFQ69G5FAV'' sample_store = Some sample_order"
  by (simp_all add: find_order_def find_order_by_reference_def sample_store_def sample_db_def sample_order_def)

lemma sample_state: "\<exists>st. order_state_of sample_order = Inr st \<and> st_payment st = PAID \<and> st_fulfillment st = QUEUED"
  by (simp add: order_state_of_def sample_order_def OrderReference_def CertificateReference_def sample_usd
      digest_from_bytes_def ManifestDigest_def OrderSnapshot_def)

section \<open>Properties of the stored evidence\<close>

text \<open>By the contract \<open>proof_store\<close>, any sequence of appends, accepted or refused, keeps a gap-free history of one digest.\<close>

lemma sql_runs_history:
  assumes "sql_ok sha d"
  shows "history_ok (sql_versions sha (run_appends (sql_append sha now) d ps) ref) \<and>
    prefix (sql_versions sha d ref) (sql_versions sha (run_appends (sql_append sha now) d ps) ref)"
  by (rule sql_store.run_history [OF assms sql_history [OF assms]])

lemma find_reference_member:
  assumes "store_inv sha d" "order \<in> set (orders d)"
  shows "find_order_by_reference (o_order_reference order) d = Some order"
proof -
  obtain r where r: "find_order_by_reference (o_order_reference order) d = Some r"
    using assms(2) by (cases "find_order_by_reference (o_order_reference order) d") (auto simp: find_order_by_reference_def find_None)
  then have "r = order"
    using assms find_order_by_reference_Some [OF r] by (auto simp: store_inv_def orders_ok_def distinct_map inj_on_def)
  with r show ?thesis by simp
qed

text \<open>A proof without observations reads back from its row alone: the verification shows only in the verified states.\<close>

lemma read_back_unobserved:
  assumes valid: "StoredProof sha p = Inr p" "OrderReference (sp_order_reference p) = Inr (sp_order_reference p)"
    "length (sp_target_digest p) = 32" "length (sp_proof_sha256 p) = 32"
    and metadata: "case sp_verification p of None \<Rightarrow> metadata = None
      | Some v \<Rightarrow> \<exists>m. verification_payload v = Inr m \<and> metadata = Some m"
    and latest: "latest_proof (o_id order) d = Some (row_of_proof (o_id order) p metadata now)"
    and order: "o_order_reference order = sp_order_reference p"
    and unobserved: "latest_observation (o_id order) (sp_version p) d = None"
  shows "latest_for_order sha order d = Inr (Some (if o_fulfillment_state order \<in> {BITCOIN_VERIFIED, DELIVERED} then p
    else p\<lparr>sp_proof_state := PS_CALENDAR_PENDING, sp_verification := None\<rparr>))"
proof -
  let ?row = "row_of_proof (o_id order) p metadata now"
  have ok: "validate_metadata ?row = Inr ()" "pv_version ?row = sp_version p"
    using valid(3,4) StoredProof_InrD [OF valid(1)]
    by (auto simp: validate_metadata_def row_of_proof_def proof_byte_length_def MAX_PROOF_BYTES_def)
  have ignored: "stored_proof_of sha r ref separate None project = stored_proof_of sha r ref None None project" for r ref separate project
    by (simp add: stored_proof_of_def split: option.split)
  have "stored_proof_of sha ?row (sp_order_reference p) None None True = Inr p"
    using row_view_of_proof [OF valid(1-3) metadata] by (simp add: row_view_def)
  moreover have "stored_proof_of sha ?row (sp_order_reference p) None None False =
      Inr (p\<lparr>sp_proof_state := PS_CALENDAR_PENDING, sp_verification := None\<rparr>)"
    using valid StoredProof_InrD [OF valid(1)]
    by (cases p) (auto simp: stored_proof_of_def row_of_proof_def proof_byte_length_def StoredProof_def digest_from_bytes_def
        ManifestDigest_def split: option.splits)
  ultimately have "bind_res (stored_proof_of sha ?row (sp_order_reference p) separate None
      (o_fulfillment_state order = BITCOIN_VERIFIED \<or> o_fulfillment_state order = DELIVERED)) (\<lambda>p. Inr (Some p)) =
      Inr (Some (if o_fulfillment_state order \<in> {BITCOIN_VERIFIED, DELIVERED} then p
        else p\<lparr>sp_proof_state := PS_CALENDAR_PENDING, sp_verification := None\<rparr>))" for separate
    unfolding ignored [of _ _ separate]
    by (cases "o_fulfillment_state order = BITCOIN_VERIFIED \<or> o_fulfillment_state order = DELIVERED") simp_all
  moreover have "map_option ob_observed_confirmations (if found then latest_observation (o_id order) (sp_version p) d else None) = None" for found
    by (simp add: unobserved)
  ultimately show ?thesis unfolding latest_for_order_def latest option.case ok bind_res_simps Let_def order by simp
qed

lemma new_version_unobserved:
  assumes inv: "store_inv sha d" and new: "find_proof i v d = None"
  shows "latest_observation i v d = None"
proof -
  have "\<not> (ob_order_id ob = i \<and> ob_proof_version ob = v)" if "ob \<in> set (confirmation_observations d)" for ob
    using inv new that by (force simp: store_inv_def verifications_ok_def)
  then have "filter (\<lambda>r. ob_order_id r = i \<and> ob_proof_version r = v) (confirmation_observations d) = []"
    by (simp add: filter_empty_conv)
  then show ?thesis unfolding latest_observation_def by simp
qed

lemma append_keeps_inv:
  assumes "store_inv sha d" "StoredProof sha p = Inr p" "append_tx sha p now d = Inr (u, d')"
  shows "store_inv sha d'"
  using audited_safe [OF append_audited [OF assms(2,3)]] assms(1) by (simp add: store_safe_def)

lemma stored_proof_of_fields:
  assumes "stored_proof_of sha r ref separate n project = Inr p"
  shows "pv_version r = sp_version p \<and> pv_target_digest r = sp_target_digest p \<and> pv_proof_bytes r = sp_proof_bytes p \<and>
    pv_proof_sha256 r = sp_proof_sha256 p"
  using assms
  by (auto simp: stored_proof_of_def bind_res_Inr_iff OrderReference_def digest_from_bytes_def ManifestDigest_def
      dest!: StoredProof_Inr_same split: if_splits)

text \<open>The order after the append, with its calendar time merged.\<close>

lemma appended_order:
  assumes inv: "store_inv sha d" "store_inv sha d'" and found: "find_order_by_reference ref d = Some order"
    and merged: "order_keeps order order1 \<and> same_states order order1 \<and> order1 = order\<lparr>o_calendar_submitted_at := t\<rparr>"
    and d': "orders d' = put_order order1 (orders d)"
  shows "find_order_by_reference ref d' = Some order1" "order1 \<in> set (orders d')" "o_id order1 = o_id order"
    "o_order_reference order1 = ref" "o_fulfillment_state order1 = o_fulfillment_state order"
proof -
  note order = find_order_by_reference_Some [OF found]
  show same: "o_id order1 = o_id order" "o_fulfillment_state order1 = o_fulfillment_state order" and ref: "o_order_reference order1 = ref"
    using merged order by (simp_all add: order_keeps_def same_snapshot_fields_def same_states_def)
  have dist: "distinct (map o_id (orders d))" using inv(1) by (simp add: store_inv_def orders_ok_def)
  show member: "order1 \<in> set (orders d')"
    using put_order_unique [OF dist conjunct1 [OF order] same(1), of order1] by (simp add: d')
  show "find_order_by_reference ref d' = Some order1" using find_reference_member [OF inv(2) member] by (simp add: ref)
qed

lemma reread_appended:
  assumes inv: "store_inv sha d" "store_inv sha d'" and found: "find_order_by_reference ref d = Some order"
    and merged: "order_keeps order order1 \<and> same_states order order1 \<and> order1 = order\<lparr>o_calendar_submitted_at := t\<rparr>"
    and d': "d' = d\<lparr>orders := put_order order1 (orders d)\<rparr>"
  shows "proofs_latest sha ref d' = proofs_latest sha ref d"
proof -
  have orders: "orders d' = put_order order1 (orders d)" by (simp add: d')
  note after = appended_order [OF inv found merged orders]
  have ref: "o_order_reference order = ref" using find_order_by_reference_Some [OF found] by simp
  have tables: "latest_proof i d' = latest_proof i d" "find_verification i v d' = find_verification i v d"
    "latest_observation i v d' = latest_observation i v d" for i v
    by (simp_all add: d' latest_proof_def find_verification_def latest_observation_def)
  have "latest_for_order sha order1 d' = latest_for_order sha order d"
    unfolding latest_for_order_def after(3,4,5) tables ref ..
  then show ?thesis by (simp add: proofs_latest_def found after(1))
qed

lemma versions_of:
  assumes inv: "store_inv sha d" and order: "order \<in> set (orders d)"
  shows "map pv_version (proofs_of d (o_id order)) = [1..int (length (proofs_of d (o_id order)))]"
  using assms by (simp add: store_inv_def proofs_ok_def)

text \<open>C8. What an accepted append does to the proofs of its order, and what \<open>latest\<close> then returns. No row of any order is changed or
  lost. Either the proof is the latest version already, and reading the latest proof gives what it gave before; or it becomes the
  next version after 1, 2, ..., n, and \<open>latest\<close> reads back this very proof, with its verification exactly when the order
  is in a verified state. In both cases its digest is the one of the order.\<close>

theorem sql_append_reads_back:
  assumes inv: "store_inv sha d" and valid: "ORDER_REFERENCE (sp_order_reference p)" "StoredProof sha p = Inr p"
    and app: "append_tx sha p now d = Inr ((), d')"
  shows "\<exists>order. find_order_by_reference (sp_order_reference p) d = Some order \<and> sp_target_digest p = o_manifest_digest order \<and>
    (\<forall>i. i \<noteq> o_id order \<longrightarrow> proofs_of d' i = proofs_of d i) \<and>
    map pv_version (proofs_of d' (o_id order)) = [1..int (length (proofs_of d' (o_id order)))] \<and>
    (\<exists>row. last (proofs_of d' (o_id order)) = row \<and> pv_version row = sp_version p \<and> pv_target_digest row = sp_target_digest p \<and>
      pv_proof_bytes row = sp_proof_bytes p \<and> pv_proof_sha256 row = sp_proof_sha256 p \<and>
      (proofs_of d' (o_id order) = proofs_of d (o_id order) \<and>
         proofs_latest sha (sp_order_reference p) d' = proofs_latest sha (sp_order_reference p) d \<or>
       proofs_of d' (o_id order) = proofs_of d (o_id order) @ [row] \<and>
         proofs_latest sha (sp_order_reference p) d' = Inr (Some (if o_fulfillment_state order \<in> {BITCOIN_VERIFIED, DELIVERED} then p
           else p\<lparr>sp_proof_state := PS_CALENDAR_PENDING, sp_verification := None\<rparr>))))"
proof -
  have inv': "store_inv sha d'" by (rule append_keeps_inv [OF inv valid(2) app])
  have ref: "OrderReference (sp_order_reference p) = Inr (sp_order_reference p)" using valid(1) by (simp add: OrderReference_def)
  from app show ?thesis
  proof (cases rule: append_tx_cases)
    case (replay order order1 latest)
    note order = find_order_by_reference_Some [OF replay(1)]
    note order1 = merge_calendar_time_Inr [OF replay(3)]
    have d': "d' = d\<lparr>orders := put_order order1 (orders d)\<rparr>"
      using flush_order_Inr [OF inv _ _ replay(7)] order order1 by (simp add: order_keeps_def)
    have proofs: "proofs_of d' i = proofs_of d i" for i by (simp add: d' proofs_of_def)
    have last: "last (proofs_of d (o_id order)) = latest"
      using latest_is_last_proof [OF inv conjunct1 [OF order]] replay(4) by (simp split: if_splits)
    have unchanged: "proofs_latest sha (sp_order_reference p) d' = proofs_latest sha (sp_order_reference p) d"
      by (rule reread_appended [OF inv inv' replay(1) order1 d'])
    show ?thesis
      using replay(1,2) unchanged stored_proof_of_fields [OF replay(6)] versions_of [OF inv conjunct1 [OF order]]
      by (intro exI [of _ order] conjI) (simp_all add: proofs last)
  next
    case (new order order1 metadata d1 d2)
    note order = find_order_by_reference_Some [OF new(1)]
    note order1 = merge_calendar_time_Inr [OF new(3)]
    let ?row = "row_of_proof (o_id order) p metadata now"
    have d1: "d1 = d\<lparr>orders := put_order order1 (orders d)\<rparr>"
      using flush_order_Inr [OF inv _ _ new(5)] order order1 by (simp add: order_keeps_def)
    have d2: "d2 = d1\<lparr>proof_versions := proof_versions d1 @ [?row]\<rparr>" and lengths: "length (sp_target_digest p) = 32" "length (sp_proof_sha256 p) = 32"
      and fresh: "find_proof (o_id order) (sp_version p) d = None"
      using new(6) by (auto simp: insert_proof_def row_of_proof_def d1 unique_among_def list_all_iff find_proof_def find_None split: if_splits)
    have meta: "case sp_verification p of None \<Rightarrow> metadata = None
        | Some v \<Rightarrow> \<exists>m. verification_payload v = Inr m \<and> metadata = Some m"
      using new(7) by (auto split: option.splits)
    have tables: "orders d' = put_order order1 (orders d)" "proof_versions d' = proof_versions d @ [?row]"
      "confirmation_observations d' = confirmation_observations d"
      using new(7) by (auto simp: d1 d2 split: option.splits elim!: insert_verification_Inr)
    note after = appended_order [OF inv inv' new(1) order1 tables(1)]
    have proofs: "proofs_of d' (o_id order) = proofs_of d (o_id order) @ [?row]" "\<And>i. i \<noteq> o_id order \<Longrightarrow> proofs_of d' i = proofs_of d i"
      by (simp_all add: proofs_of_def tables(2) row_of_proof_def)
    have "latest_proof (o_id order1) d' = Some ?row"
      using latest_is_last_proof [OF inv' after(2)] proofs(1) after(3) by simp
    moreover have "latest_observation (o_id order1) (sp_version p) d' = None"
      using new_version_unobserved [OF inv fresh] by (simp add: latest_observation_def tables(3) after(3))
    ultimately have "latest_for_order sha order1 d' = Inr (Some (if o_fulfillment_state order \<in> {BITCOIN_VERIFIED, DELIVERED} then p
        else p\<lparr>sp_proof_state := PS_CALENDAR_PENDING, sp_verification := None\<rparr>))"
      using read_back_unobserved [OF valid(2) ref lengths meta, of order1 d' now] after(3,4,5) by simp
    then have "proofs_latest sha (sp_order_reference p) d' = Inr (Some (if o_fulfillment_state order \<in> {BITCOIN_VERIFIED, DELIVERED} then p
        else p\<lparr>sp_proof_state := PS_CALENDAR_PENDING, sp_verification := None\<rparr>))"
      by (simp add: proofs_latest_def after(1))
    moreover have "map pv_version (proofs_of d' (o_id order)) = [1..int (length (proofs_of d' (o_id order)))]"
      using versions_of [OF inv' after(2)] by (simp add: after(3))
    moreover have "pv_version ?row = sp_version p" "pv_target_digest ?row = sp_target_digest p" "pv_proof_bytes ?row = sp_proof_bytes p"
      "pv_proof_sha256 ?row = sp_proof_sha256 p" by (simp_all add: row_of_proof_def)
    ultimately show ?thesis
      using new(1,2) proofs by (intro exI [of _ order] conjI exI [of _ ?row]) simp_all
  qed
qed

text \<open>C9. An audited transition is idempotent on its event key: repeating a committed call, later and
  from any worker, succeeds, returns the order with the same states and changes nothing.\<close>

theorem transition_once_idempotent:
  assumes inv: "store_inv sha d"
    and tx: "transition_fulfillment_once_tx order_id target event_key cal now d = Inr (fo, d')"
  shows "transition_fulfillment_once_tx order_id target event_key cal now' d' = Inr (fo, d')"
proof -
  have inv': "store_inv sha d'"
    using audited_safe [OF transition_audited [OF tx]] inv by (simp add: store_safe_def)
  have dist: "distinct (map o_id (orders d))" using inv by (simp add: store_inv_def orders_ok_def)
  have pre: "event_key \<noteq> []" "length event_key \<le> 160"
    "(case cal of None \<Rightarrow> Inr () | Some t \<Rightarrow> require_aware t ''calendar_submission_time_invalid'') = Inr ()"
    using tx by (auto simp: transition_fulfillment_once_tx_def bind_res_Inr_iff split: if_splits)
  have again: ?thesis
    if "parse_uuid order_id = Inr (o_id order')" "find_order (o_id order') d' = Some order'"
      "find_event (o_id order') event_key d' = Some e" "ev_fulfillment_state e = target"
      "merge_calendar_time order' cal = Inr order'" "fulfillment_order_of order' = Inr fo" for order' e
    using that pre
    by (simp add: transition_fulfillment_once_tx_def bind_tx_def lift_tx_def flush_order_def return_tx_def)
  from tx show ?thesis
  proof (cases rule: transition_cases)
    case (replay order existing order1)
    have order: "order \<in> set (orders d)" using find_order_Some [OF replay(2)] by simp
    have id: "o_id order1 = o_id order" using merge_calendar_time_Inr [OF replay(5)] by (simp add: order_keeps_def)
    have d': "d' = d\<lparr>orders := put_order order1 (orders d)\<rparr>"
      using flush_order_Inr [OF inv order id replay(7)] by simp
    have "order1 \<in> set (orders d')" using put_order_unique [OF dist order id, of order1] by (simp add: d')
    from find_order_member [OF inv' this] show ?thesis
      using again [of order1 existing] replay id merge_calendar_time_again [OF replay(5)]
      by (simp add: d' find_event_def)
  next
    case (new order current transitioned order1 order2 d1)
    have order: "order \<in> set (orders d)" using find_order_Some [OF new(2)] by simp
    have id: "o_id order2 = o_id order" using transition_moves [OF new(4-7)] by (simp add: order_keeps_def)
    have d1: "d1 = d\<lparr>orders := put_order order2 (orders d)\<rparr>"
      using flush_order_Inr [OF inv order id new(9)] by simp
    have d': "d' = d1\<lparr>state_events := state_events d1 @ [transition_event order order2 event_key d]\<rparr>"
      using new(10) by (auto simp: insert_state_event_def split: if_splits)
    have mem: "order2 \<in> set (orders d')" using put_order_unique [OF dist order id, of order2] by (simp add: d' d1)
    have "find_event (o_id order) event_key d' = Some (transition_event order order2 event_key d)"
      using new(3) by (simp add: find_event_def d' d1 find_append transition_event_def)
    moreover have "merge_calendar_time order2 cal = Inr order2"
      using merge_calendar_time_stable [OF new(6)] by (simp add: new(7))
    ultimately show ?thesis
      using again [of order2] new(1,11) id find_order_member [OF inv' mem]
      by (simp add: transition_event_def new(7))
  qed
qed

theorem transition_once_idempotent_witness:
  "\<exists>fo d'. transition_fulfillment_once_tx (uuid_str 7) STAMPING ''stamp-start-v1'' None (Aware 5) sample_store = Inr (fo, d') \<and>
     transition_fulfillment_once_tx (uuid_str 7) STAMPING ''stamp-start-v1'' None (Aware 9) d' = Inr (fo, d')"
proof -
  define order2 where "order2 = sample_order\<lparr>o_fulfillment_state := STAMPING, o_updated_at := Aware 5\<rparr>"
  obtain st where st: "order_state_of sample_order = Inr st" "st_payment st = PAID" "st_fulfillment st = QUEUED"
    using sample_state by blast
  have tr: "transition_fulfillment st STAMPING = Inr (st\<lparr>st_fulfillment := STAMPING\<rparr>)"
    using st by (simp add: transition_fulfillment_def)
  have flush: "flush_order sample_order order2 sample_store = Inr ((), sample_store\<lparr>orders := [order2]\<rparr>)"
    by (simp add: flush_order_def update_order_def find_order_def sample_store_def sample_db_def order2_def
        reject_order_snapshot_mutation_def same_snapshot_fields_def require_def unique_defs sample_order_def
        order_check_def sample_usd state_set_defs upd_row_def)
  have event: "insert_state_event (transition_event sample_order order2 ''stamp-start-v1'' sample_store)
      (sample_store\<lparr>orders := [order2]\<rparr>) =
      Inr ((), sample_store\<lparr>orders := [order2], state_events := state_events sample_store @
        [transition_event sample_order order2 ''stamp-start-v1'' sample_store]\<rparr>)"
    by (simp add: insert_state_event_def unique_defs sample_store_def sample_db_def sample_event_def
        transition_event_def find_order_def order2_def sample_order_def next_sequence_def max_of_def)
  obtain fo where fo: "fulfillment_order_of order2 = Inr fo"
    using st(1) by (auto simp: fulfillment_order_of_def order_state_of_def order2_def bind_res_Inr_iff)
  have none: "find_event 7 ''stamp-start-v1'' sample_store = None"
    by (simp add: find_event_def sample_store_def sample_event_def)
  have "transition_fulfillment_once_tx (uuid_str 7) STAMPING ''stamp-start-v1'' None (Aware 5) sample_store =
      Inr (fo, sample_store\<lparr>orders := [order2], state_events := state_events sample_store @
        [transition_event sample_order order2 ''stamp-start-v1'' sample_store]\<rparr>)"
    by (rule transition_new_Inr [OF _ _ _ _ sample_find(1) _ st(1) tr _ order2_def flush _ fo])
      (use none event in \<open>simp_all add: merge_calendar_time_def sample_order_def\<close>)
  then show ?thesis
    using transition_once_idempotent [OF sample_store_inv] by blast
qed

definition sample_sha :: "bytes \<Rightarrow> bytes" where
  "sample_sha _ = replicate 32 0"

definition sample_proof_row :: proof_row where
  "sample_proof_row = \<lparr>pv_order_id = 7, pv_version = 1, pv_target_digest = replicate 32 1, pv_proof_bytes = [9],
     pv_proof_sha256 = sample_sha [9], pv_proof_byte_length = 1, pv_proof_state = PS_CALENDAR_PENDING,
     pv_calendar_submitted_at = Aware 3, pv_verification_metadata = None, pv_created_at = Aware 4\<rparr>"

definition sample_proven :: db where
  "sample_proven = sample_store\<lparr>proof_versions := [sample_proof_row]\<rparr>"

lemma sample_proven_inv: "store_inv sample_sha sample_proven"
proof (rule proof_added_inv [OF sample_store_inv, of sample_order sample_proof_row])
  show "evidence_tables sample_proven = (orders sample_store, state_events sample_store,
      proof_versions sample_store @ [sample_proof_row], proof_verifications sample_store, proof_bundles sample_store,
      confirmation_observations sample_store)"
    by (simp add: evidence_tables_def sample_proven_def) (simp add: sample_store_def sample_db_def empty_db_def)
qed (simp_all add: sample_store_def sample_db_def sample_proof_row_def sample_order_def proofs_of_def empty_db_def
    proof_row_ok_def)

text \<open>A stored bundle is kept: after \<open>put_once\<close> succeeded, \<open>get\<close> returns exactly those bytes, putting
  the same bytes again changes nothing, other bytes for the same proof version are refused, and
  the bytes contain neither the customer's address nor a token marker in any letter case.\<close>

theorem bundle_roundtrip:
  assumes inv: "store_inv sha d" and put: "put_bundle_once_tx sha order_id v bundle now d = Inr (u, d')"
  shows "get_bundle sha order_id v d' = Inr (Some bundle) \<and>
     put_bundle_once_tx sha order_id v bundle now' d' = Inr ((), d') \<and>
     (other \<noteq> bundle \<longrightarrow> (\<exists>e. put_bundle_once_tx sha order_id v other now' d' = Inl e)) \<and>
     \<not> contains (bytes_lower bundle) (utf8 ''status_token'')"
  using put
proof (cases rule: put_bundle_cases)
  case (1 order)
  define i where "i = o_id order"
  have size: "1 \<le> length bundle" "length bundle \<le> MAX_BUNDLE_BYTES"
    using put by (auto simp: put_bundle_once_tx_def split: if_splits)
  obtain pr where pr: "find_proof i v d = Some pr" "pv_target_digest pr = o_manifest_digest order"
    using put 1(1,2,3) size
    by (cases "find_proof i v d") (auto simp: put_bundle_once_tx_def i_def split: if_splits)
  have found: "\<exists>b. find_bundle i v d' = Some b \<and> pb_bundle_bytes b = bundle \<and> pb_bundle_sha256 b = sha bundle \<and>
      pb_bundle_byte_length b = int (length bundle)"
    using 1(4)
  proof (elim disjE exE conjE)
    fix b assume d': "d' = d" and b: "find_bundle (o_id order) v d = Some b" "pb_bundle_bytes b = bundle"
    then have "b \<in> set (proof_bundles d)" unfolding find_bundle_def by (auto dest: find_SomeD)
    then show ?thesis using inv b d' by (auto simp: store_inv_def bundles_ok_def i_def)
  next
    fix b assume "find_bundle (o_id order) v d = None" "insert_bundle b d = Inr (u, d')" "pb_order_id b = o_id order"
      "pb_proof_version b = v" "pb_bundle_bytes b = bundle" "pb_bundle_sha256 b = sha bundle"
      "pb_bundle_byte_length b = int (length bundle)"
    then show ?thesis
      by (auto simp: find_bundle_def insert_bundle_def find_append i_def split: if_splits)
  qed
  have same: "find_order i d' = Some order" "find_proof i v d' = Some pr"
    using 1(2,4) pr by (auto simp: insert_bundle_def find_order_def find_proof_def i_def split: if_splits)
  have "\<not> contains (bytes_lower bundle) (utf8 ''status_token'')"
    using 1(3) by (simp add: bundle_is_sensitive_def Let_def)
  then show ?thesis
    using found same pr size 1(1,3)
    by (auto simp: get_bundle_def put_bundle_once_tx_def i_def [symmetric])
qed

theorem bundle_roundtrip_witness:
  "\<exists>d'. put_bundle_once_tx sample_sha (uuid_str 7) 1 [80, 75] (Aware 9) sample_proven = Inr ((), d') \<and>
     get_bundle sample_sha (uuid_str 7) 1 d' = Inr (Some [80, 75])"
proof -
  have clean: "\<not> bundle_is_sensitive ''a@b.test'' [80, 75]" by code_simp
  have "find_order 7 sample_proven = Some sample_order" "find_proof 7 1 sample_proven = Some sample_proof_row"
    "find_bundle 7 1 sample_proven = None"
    using sample_find(1)
    by (simp_all add: sample_proven_def find_order_def find_proof_def sample_proof_row_def find_bundle_def)
      (simp add: sample_store_def sample_db_def empty_db_def)
  then have "\<exists>d'. put_bundle_once_tx sample_sha (uuid_str 7) 1 [80, 75] (Aware 9) sample_proven = Inr ((), d')"
    using clean
    by (simp add: put_bundle_once_tx_def MAX_BUNDLE_BYTES_def sample_order_def sample_proof_row_def insert_bundle_def
        unique_defs sample_sha_def) (simp add: sample_proven_def sample_store_def sample_db_def empty_db_def)
  then show ?thesis using bundle_roundtrip [OF sample_proven_inv] by blast
qed

text \<open>A second version on top of the first.\<close>

definition sample_second :: stored_proof where
  "sample_second = \<lparr>sp_order_reference = ''ts_01ARZ3NDEKTSV4RRFFQ69G5FAV'', sp_version = 2, sp_target_digest = replicate 32 1,
     sp_proof_bytes = [8], sp_proof_sha256 = replicate 32 0, sp_proof_state = PS_CALENDAR_PENDING,
     sp_calendar_submitted_at = Aware 3, sp_verification = None\<rparr>"

lemma sample_append: "\<exists>d'. append_tx sample_sha sample_second (Aware 5) sample_proven = Inr ((), d')"
proof -
  define order1 where "order1 = sample_order\<lparr>o_calendar_submitted_at := Some (Aware 3)\<rparr>"
  have found: "find_order_by_reference ''ts_01ARZ3NDEKTSV4RRFFQ69G5FAV'' sample_proven = Some sample_order"
    using sample_find(2) by (simp add: sample_proven_def find_order_by_reference_def)
  have order: "o_manifest_digest sample_order = replicate 32 1" "o_id sample_order = 7"
    "merge_calendar_time sample_order (Some (Aware 3)) = Inr order1"
    by (simp_all add: sample_order_def merge_calendar_time_def order1_def aware_def)
  have latest: "latest_proof 7 sample_proven = Some sample_proof_row" "pv_version sample_proof_row = 1"
    "pv_target_digest sample_proof_row = replicate 32 1"
    by (simp_all add: latest_proof_def sample_proven_def sample_proof_row_def)
  have flush: "flush_order sample_order order1 sample_proven = Inr ((), sample_proven\<lparr>orders := [order1]\<rparr>)"
    by (simp add: flush_order_def update_order_def find_order_def sample_proven_def sample_store_def sample_db_def order1_def
        reject_order_snapshot_mutation_def same_snapshot_fields_def require_def unique_defs sample_order_def
        order_check_def sample_usd state_set_defs upd_row_def)
  have fields: "sp_order_reference sample_second = ''ts_01ARZ3NDEKTSV4RRFFQ69G5FAV''" "sp_version sample_second = 2"
    "sp_target_digest sample_second = replicate 32 1" "sp_calendar_submitted_at sample_second = Aware 3"
    "sp_verification sample_second = None" "proof_byte_length sample_second = 1"
    by (simp_all add: sample_second_def proof_byte_length_def)
  have "\<exists>d'. insert_proof (row_of_proof 7 sample_second None (Aware 5)) (sample_proven\<lparr>orders := [order1]\<rparr>) = Inr ((), d')"
    by (simp add: insert_proof_def row_of_proof_def sample_second_def proof_byte_length_def unique_among_def sample_proven_def
        sample_proof_row_def find_order_def order1_def sample_order_def)
  then obtain d' where "insert_proof (row_of_proof 7 sample_second None (Aware 5)) (sample_proven\<lparr>orders := [order1]\<rparr>) = Inr ((), d')"
    by blast
  then show ?thesis
    using found order latest flush fields
    by (simp add: append_tx_def row_of_proof_def [symmetric] MAX_PROOF_BYTES_def bind_tx_def return_tx_def Let_def)
      (simp add: row_of_proof_def fields)
qed

theorem sql_append_reads_back_witness:
  "\<exists>d'. append_tx sample_sha sample_second (Aware 5) sample_proven = Inr ((), d') \<and>
     map pv_version (proofs_of d' 7) = [1, 2] \<and> proofs_latest sample_sha ''ts_01ARZ3NDEKTSV4RRFFQ69G5FAV'' d' = Inr (Some sample_second)"
proof -
  obtain d' where app: "append_tx sample_sha sample_second (Aware 5) sample_proven = Inr ((), d')" using sample_append by blast
  have valid: "ORDER_REFERENCE (sp_order_reference sample_second)" "StoredProof sample_sha sample_second = Inr sample_second"
    using sample_usd by (simp_all add: sample_second_def StoredProof_def sample_sha_def MAX_PROOF_BYTES_def)
  from sql_append_reads_back [OF sample_proven_inv valid app] obtain order row where
    found: "find_order_by_reference (sp_order_reference sample_second) sample_proven = Some order"
    and row: "last (proofs_of d' (o_id order)) = row" "pv_version row = sp_version sample_second"
    and result: "proofs_of d' (o_id order) = proofs_of sample_proven (o_id order) \<and>
         proofs_latest sample_sha (sp_order_reference sample_second) d' = proofs_latest sample_sha (sp_order_reference sample_second) sample_proven \<or>
       proofs_of d' (o_id order) = proofs_of sample_proven (o_id order) @ [row] \<and>
         proofs_latest sample_sha (sp_order_reference sample_second) d' =
           Inr (Some (if o_fulfillment_state order \<in> {BITCOIN_VERIFIED, DELIVERED} then sample_second
           else sample_second\<lparr>sp_proof_state := PS_CALENDAR_PENDING, sp_verification := None\<rparr>))"
    by (elim exE conjE) (rule that)
  have order: "o_id order = 7"
    using found sample_find(2) by (simp add: sample_second_def sample_proven_def find_order_by_reference_def sample_order_def)
  have before: "proofs_of sample_proven 7 = [sample_proof_row]" "pv_version sample_proof_row = 1" "sp_version sample_second = 2"
    by (simp_all add: proofs_of_def sample_proven_def sample_proof_row_def sample_second_def)
  have same: "sample_second\<lparr>sp_proof_state := PS_CALENDAR_PENDING, sp_verification := None\<rparr> = sample_second"
    "sp_order_reference sample_second = ''ts_01ARZ3NDEKTSV4RRFFQ69G5FAV''"
    by (simp_all add: sample_second_def)
  have list: "proofs_of d' 7 = [sample_proof_row, row]" using result row before order by auto
  then have "proofs_of d' 7 \<noteq> proofs_of sample_proven 7" using before(1) by simp
  then have "proofs_latest sample_sha ''ts_01ARZ3NDEKTSV4RRFFQ69G5FAV'' d' = Inr (Some sample_second)"
    using result order same by simp
  then show ?thesis using app list row(2) before by auto
qed

end
