(* ===== verification/Outbox.thy ===== *)
theory Outbox
  imports Evidence_Audit
begin

text \<open>
  The notification outbox and the webhook of the mail provider: the messages of
  \<open>ports/notifications.py\<close>, \<open>SqlNotificationOutbox\<close> and \<open>SqlResendWebhookStore\<close> of
  \<open>db/notification_adapters.py\<close>. Clock readings and \<open>uuid4\<close> values are arguments, SHA-256 is the
  parameter \<open>sha\<close>, and every method that opens a session is one transaction. The second look for
  a stored webhook event inside \<open>process\<close> repeats a query in the same transaction and
  sees the same rows.
\<close>

section \<open>ports/notifications.py\<close>

datatype notification_kind = INITIAL_CONFIRMATION | FINAL_CONFIRMATION

fun kind_value :: "notification_kind \<Rightarrow> string" where
  "kind_value INITIAL_CONFIRMATION = ''bitcoin-confirmed-initial''"
| "kind_value FINAL_CONFIRMATION = ''bitcoin-confirmed-final''"

text \<open>\<open>NotificationKind(value)\<close>.\<close>

definition notification_kind_of :: "string \<Rightarrow> notification_kind option" where
  "notification_kind_of s =
     (if s = kind_value INITIAL_CONFIRMATION then Some INITIAL_CONFIRMATION
      else if s = kind_value FINAL_CONFIRMATION then Some FINAL_CONFIRMATION else None)"

fun MINIMUM_CONFIRMATIONS :: "notification_kind \<Rightarrow> int" where
  "MINIMUM_CONFIRMATIONS INITIAL_CONFIRMATION = 1"
| "MINIMUM_CONFIRMATIONS FINAL_CONFIRMATION = 6"

record outbox_message =
  ms_message_key :: string
  ms_order_reference :: order_reference
  ms_template :: string
  ms_recipient :: string
  ms_variables :: "(string \<times> string) list"
  ms_proof_version :: "int option"
  ms_confirmation_count :: "int option"

record claimed_notification =
  cn_id :: string
  cn_message_key :: string
  cn_order_reference :: order_reference
  cn_kind :: notification_kind
  cn_recipient :: string
  cn_proof_version :: int
  cn_confirmation_count :: int
  cn_attempt :: int
  cn_lease_owner :: string
  cn_lease_token :: string
  cn_lease_until :: datetime
  cn_idempotency_key :: string

record provider_acceptance =
  pa_message_id :: string
  pa_response_status :: int

record verified_resend_event =
  vr_svix_event_id :: string
  vr_event_type :: string
  vr_provider_message_id :: string
  vr_event_created_at :: datetime

record webhook_process_result =
  wr_duplicate :: bool
  wr_notification_delivered :: bool
  wr_order_transitioned :: bool

abbreviation nothing_delivered :: "bool \<Rightarrow> webhook_process_result" where
  "nothing_delivered duplicate \<equiv>
     \<lparr>wr_duplicate = duplicate, wr_notification_delivered = False, wr_order_transitioned = False\<rparr>"

definition message_key_of :: "notification_kind \<Rightarrow> int \<Rightarrow> string \<Rightarrow> string" where
  "message_key_of kind proof_version ref = kind_value kind @ ''-v'' @ int_str proof_version @ ''-'' @ ref"

definition notification_message ::
  "notification_kind \<Rightarrow> order_reference \<Rightarrow> string \<Rightarrow> int \<Rightarrow> int \<Rightarrow> exn + outbox_message" where
  "notification_message kind ref recipient proof_version confirmation_count =
     (if \<not> (1 \<le> proof_version \<and> proof_version \<le> 2147483647) \<or>
         \<not> (MINIMUM_CONFIRMATIONS kind \<le> confirmation_count \<and> confirmation_count \<le> 2147483647)
      then Inl (ValueError ''notification_milestone_invalid'')
      else Inr \<lparr>ms_message_key = message_key_of kind proof_version ref, ms_order_reference = ref,
                ms_template = kind_value kind, ms_recipient = recipient,
                ms_variables = [(''order_reference'', ref)], ms_proof_version = Some proof_version,
                ms_confirmation_count = Some confirmation_count\<rparr>)"

section \<open>SqlNotificationOutbox\<close>

record outbox_settings =
  os_idempotency_horizon :: int
  os_max_attempts :: int

definition SqlNotificationOutbox :: "int \<Rightarrow> int \<Rightarrow> exn + outbox_settings" where
  "SqlNotificationOutbox idempotency_horizon max_attempts =
     (if \<not> (minutes 1 \<le> idempotency_horizon \<and> idempotency_horizon \<le> hours 24)
      then Inl (ValueError ''notification_idempotency_horizon_invalid'')
      else if \<not> (1 \<le> max_attempts \<and> max_attempts \<le> 100)
      then Inl (ValueError ''notification_max_attempts_invalid'')
      else Inr \<lparr>os_idempotency_horizon = idempotency_horizon, os_max_attempts = max_attempts\<rparr>)"

definition validate_message :: "outbox_message \<Rightarrow> exn + (notification_kind \<times> int \<times> int)" where
  "validate_message m =
     (case notification_kind_of (ms_template m) of
        None \<Rightarrow> Inl (ValueError ''notification_kind_invalid'')
      | Some kind \<Rightarrow>
          (case (ms_proof_version m, ms_confirmation_count m) of
             (Some v, Some n) \<Rightarrow>
               bind_res (notification_message kind (ms_order_reference m) (ms_recipient m) v n) (\<lambda>expected.
                 if ms_message_key m \<noteq> ms_message_key expected
                 then Inl (ValueError ''notification_message_key_invalid'')
                 else if ms_variables m \<noteq> [(''order_reference'', ms_order_reference m)]
                 then Inl (ValueError ''outbox_variables_not_allowlisted'')
                 else Inr (kind, v, n))
           | _ \<Rightarrow> Inl (ValueError ''notification_milestone_missing'')))"

text \<open>\<open>json.dumps(payload, sort_keys=True)\<close>: the reference and the template need no escape.\<close>

definition serialized_payload :: "string \<Rightarrow> string \<Rightarrow> string" where
  "serialized_payload template ref =
     ''{'' @ quoted ''order_reference'' @ '': '' @ quoted ref @ '', '' @ quoted ''template'' @ '': '' @
     quoted template @ ''}''"

definition forbidden_words :: "string list" where
  "forbidden_words = [''bearer'', ''token'', ''digest'', ''certificate'', ''proof_bytes'', ''@'']"

definition payload_of :: "string \<Rightarrow> string \<Rightarrow> outbox_payload" where
  "payload_of template ref = \<lparr>pl_template = Some template, pl_order_reference = Some ref\<rparr>"

definition authoritative_observation_for_enqueue ::
  "order_row \<Rightarrow> int \<Rightarrow> int \<Rightarrow> db \<Rightarrow> exn + observation_row" where
  "authoritative_observation_for_enqueue order proof_version confirmation_count d =
     (case (latest_proof (o_id order) d, find_verification (o_id order) proof_version d,
            latest_observation (o_id order) proof_version d) of
        (Some proof, Some verification, Some observation) \<Rightarrow>
          if pv_version proof \<noteq> proof_version \<or> pv_target_digest proof \<noteq> o_manifest_digest order \<or>
             ob_observed_confirmations observation \<noteq> confirmation_count \<or>
             \<not> observation_matches_verification observation verification
          then Inl (ValueError ''notification_confirmation_observation_missing'')
          else Inr observation
      | _ \<Rightarrow> Inl (ValueError ''notification_confirmation_observation_missing''))"

definition find_observation :: "uuid option \<Rightarrow> db \<Rightarrow> observation_row option" where
  "find_observation oid d =
     (case oid of None \<Rightarrow> None | Some i \<Rightarrow> find (\<lambda>ob. ob_id ob = i) (confirmation_observations d))"

definition same_message ::
  "outbox_row \<Rightarrow> order_row \<Rightarrow> outbox_message \<Rightarrow> outbox_payload \<Rightarrow> int \<Rightarrow> observation_row \<Rightarrow> db \<Rightarrow> bool" where
  "same_message existing order m payload proof_version current d \<longleftrightarrow>
     (let threshold = (if ms_template m = kind_value INITIAL_CONFIRMATION then 1 else 6) in
      om_order_id existing = o_id order \<and> om_kind existing = ms_template m \<and>
      om_recipient existing = ms_recipient m \<and> om_payload existing = payload \<and>
      om_proof_version existing = Some proof_version \<and>
      (case (om_confirmation_count existing, find_observation (om_confirmation_observation_id existing) d) of
         (Some n, Some bound) \<Rightarrow>
           threshold \<le> n \<and> ob_order_id bound = o_id order \<and> ob_proof_version bound = proof_version \<and>
           ob_observed_confirmations bound = n \<and> ob_block_height bound = ob_block_height current \<and>
           ob_block_hash bound = ob_block_hash current \<and> ob_method bound = ob_method current \<and>
           ob_confirmation_policy bound = ob_confirmation_policy current
       | _ \<Rightarrow> False))"

definition outbox_enqueue_tx :: "outbox_settings \<Rightarrow> uuid \<Rightarrow> outbox_message \<Rightarrow> datetime \<Rightarrow> unit db_tx" where
  "outbox_enqueue_tx settings new_id m now d =
     bind_res (validate_message m) (\<lambda>(kind, proof_version, confirmation_count).
       let payload = payload_of (kind_value kind) (ms_order_reference m);
           serialized = serialized_payload (kind_value kind) (ms_order_reference m)
       in if list_ex (contains (str_lower serialized)) forbidden_words
          then Inl (ValueError ''outbox_payload_contains_sensitive_data'')
          else (case find_order_by_reference (ms_order_reference m) d of
                  None \<Rightarrow> Inl (ValueError ''outbox_order_not_found'')
                | Some order \<Rightarrow>
                    if ms_recipient m \<noteq> o_email order
                    then Inl (ValueError ''outbox_recipient_does_not_match_order'')
                    else bind_res (authoritative_observation_for_enqueue order proof_version confirmation_count d)
                      (\<lambda>observation.
                        case find (\<lambda>r. om_message_key r = ms_message_key m) (outbox d) of
                          Some existing \<Rightarrow>
                            if \<not> same_message existing order m payload proof_version observation d
                            then Inl (ValueError ''outbox_message_key_conflict'') else Inr ((), d)
                        | None \<Rightarrow>
                            insert_outbox
                              \<lparr>om_id = new_id, om_message_key = ms_message_key m, om_order_id = o_id order,
                               om_kind = kind_value kind, om_recipient = ms_recipient m, om_payload = payload,
                               om_state = OB_AVAILABLE, om_attempt_count = 0,
                               om_max_attempts = os_max_attempts settings, om_available_at = now,
                               om_lease_owner = None, om_lease_until = None, om_lease_token = None,
                               om_proof_version = Some proof_version,
                               om_confirmation_count = Some confirmation_count,
                               om_confirmation_observation_id = Some (ob_id observation),
                               om_provider_message_id = None, om_accepted_at = None, om_delivered_at = None,
                               om_idempotency_expires_at = dt_add now (os_idempotency_horizon settings),
                               om_safe_error_code = None, om_created_at = now, om_updated_at = now\<rparr> d)))"

definition SUPPORTED_KINDS :: "string list" where
  "SUPPORTED_KINDS = [kind_value INITIAL_CONFIRMATION, kind_value FINAL_CONFIRMATION]"

definition is_open_notification :: "uuid \<Rightarrow> notification_attempt_row \<Rightarrow> bool" where
  "is_open_notification i a \<longleftrightarrow> na_outbox_id a = i \<and> na_finished_at a = None"

text \<open>An attempt is identified by its message and number, which are unique together.\<close>

definition put_attempt :: "notification_attempt_row \<Rightarrow> db \<Rightarrow> db" where
  "put_attempt a d = d\<lparr>notification_attempts :=
     upd_row (\<lambda>r. na_outbox_id r = na_outbox_id a \<and> na_attempt_number r = na_attempt_number a) (\<lambda>_. a)
       (notification_attempts d)\<rparr>"

definition finish_attempt ::
  "notification_attempt_row \<Rightarrow> datetime \<Rightarrow> string \<Rightarrow> int option \<Rightarrow> string option \<Rightarrow> string option
     \<Rightarrow> notification_attempt_row" where
  "finish_attempt a now outcome response_status provider_message_id safe_error_code =
     a\<lparr>na_finished_at := Some (aware now), na_outcome := Some outcome, na_response_status := response_status,
       na_provider_message_id := provider_message_id, na_safe_error_code := safe_error_code\<rparr>"

definition lease_expired :: "datetime \<Rightarrow> outbox_row \<Rightarrow> bool" where
  "lease_expired now r = (case om_lease_until r of None \<Rightarrow> False | Some t \<Rightarrow> micros t < micros now)"

definition outbox_exhausted :: "datetime \<Rightarrow> outbox_row \<Rightarrow> bool" where
  "outbox_exhausted now r \<longleftrightarrow> micros (om_idempotency_expires_at r) \<le> micros now \<or>
     om_max_attempts r \<le> om_attempt_count r"

definition outbox_open :: "datetime \<Rightarrow> outbox_row \<Rightarrow> bool" where
  "outbox_open now r \<longleftrightarrow> om_state r = OB_AVAILABLE \<or> om_state r = OB_RETRY \<or>
     (om_state r = OB_LEASED \<and> lease_expired now r)"

definition unclaimable :: "datetime \<Rightarrow> outbox_row \<Rightarrow> bool" where
  "unclaimable now r \<longleftrightarrow> om_kind r \<in> set SUPPORTED_KINDS \<and> outbox_open now r \<and> outbox_exhausted now r \<and>
     om_provider_message_id r = None"

definition expire_one :: "datetime \<Rightarrow> outbox_row \<Rightarrow> db \<Rightarrow> exn + unit \<times> db" where
  "expire_one now r d =
     (let d1 = (if om_state r = OB_LEASED
                then (case find (is_open_notification (om_id r)) (notification_attempts d) of
                        None \<Rightarrow> d
                      | Some a \<Rightarrow> put_attempt (finish_attempt a now ''dead_letter'' None None
                                   (Some ''idempotency_horizon_exhausted'')) d)
                else d)
      in update_outbox (r\<lparr>om_state := OB_DEAD_LETTER, om_lease_owner := None, om_lease_until := None,
           om_lease_token := None, om_safe_error_code := Some ''idempotency_horizon_exhausted'',
           om_updated_at := now\<rparr>) d1)"

fun expire_each :: "datetime \<Rightarrow> outbox_row list \<Rightarrow> unit db_tx" where
  "expire_each now [] = return_tx ()"
| "expire_each now (r # rs) = bind_tx (expire_one now r) (\<lambda>_. expire_each now rs)"

definition expire_unclaimable :: "datetime \<Rightarrow> unit db_tx" where
  "expire_unclaimable now d = expire_each now (take 100 (filter (unclaimable now) (outbox d))) d"

definition outbox_claimable :: "datetime \<Rightarrow> outbox_row \<Rightarrow> bool" where
  "outbox_claimable now r \<longleftrightarrow> outbox_open now r \<and> micros (om_available_at r) \<le> micros now \<and>
     om_provider_message_id r = None \<and> om_kind r \<in> set SUPPORTED_KINDS \<and>
     om_confirmation_observation_id r \<noteq> None \<and> micros now < micros (om_idempotency_expires_at r) \<and>
     om_attempt_count r < om_max_attempts r"

definition outbox_query :: "datetime \<Rightarrow> db \<Rightarrow> outbox_row option" where
  "outbox_query now d =
     first_by (\<lambda>r. (micros (om_available_at r), micros (om_created_at r), om_id r))
       (filter (outbox_claimable now) (outbox d))"

text \<open>\<open>message_key.encode('ascii')\<close> raises on other characters.\<close>

definition claimed_of ::
  "(bytes \<Rightarrow> bytes) \<Rightarrow> outbox_row \<Rightarrow> int \<Rightarrow> string \<Rightarrow> string \<Rightarrow> datetime \<Rightarrow> exn + claimed_notification" where
  "claimed_of sha r attempt worker_id lease_token lease_until =
     (case (om_proof_version r, om_confirmation_count r) of
        (Some v, Some n) \<Rightarrow>
          (case pl_order_reference (om_payload r) of
             None \<Rightarrow> Inl (ValueError ''stored_notification_payload_invalid'')
           | Some ref \<Rightarrow>
               (case notification_kind_of (om_kind r) of
                  None \<Rightarrow> Inl (ValueError ''not a valid NotificationKind'')
                | Some kind \<Rightarrow>
                    bind_res (OrderReference ref) (\<lambda>oref.
                      if \<not> list_all (\<lambda>c. code c < 128) (om_message_key r)
                      then Inl (ValueError ''ascii codec cannot encode'')
                      else Inr \<lparr>cn_id = uuid_str (om_id r), cn_message_key = om_message_key r,
                        cn_order_reference = oref, cn_kind = kind, cn_recipient = om_recipient r,
                        cn_proof_version = v, cn_confirmation_count = n, cn_attempt = attempt,
                        cn_lease_owner = worker_id, cn_lease_token = lease_token,
                        cn_lease_until = lease_until,
                        cn_idempotency_key = ''resend-'' @ hex (sha (utf8 (om_message_key r)))\<rparr>)))
      | _ \<Rightarrow> Inl (ValueError ''stored_notification_milestone_missing''))"

text \<open>The conditions of the UPDATE that takes the lease.\<close>

definition still_as_read :: "outbox_row \<Rightarrow> outbox_row \<Rightarrow> bool" where
  "still_as_read record r \<longleftrightarrow> om_id r = om_id record \<and> om_state r = om_state record \<and>
     om_lease_token r = om_lease_token record \<and> om_provider_message_id r = None"

definition take_lease :: "outbox_row \<Rightarrow> string \<Rightarrow> string \<Rightarrow> datetime \<Rightarrow> int \<Rightarrow> outbox_row" where
  "take_lease r worker_id lease_token now lease_for =
     r\<lparr>om_state := OB_LEASED, om_attempt_count := om_attempt_count r + 1, om_lease_owner := Some worker_id,
       om_lease_until := Some (dt_add now lease_for), om_lease_token := Some lease_token,
       om_safe_error_code := None, om_updated_at := now\<rparr>"

definition expire_previous :: "uuid \<Rightarrow> datetime \<Rightarrow> db \<Rightarrow> db" where
  "expire_previous i now d =
     (case find (is_open_notification i) (notification_attempts d) of
        None \<Rightarrow> d
      | Some a \<Rightarrow> put_attempt (a\<lparr>na_finished_at := Some now, na_outcome := Some ''lease_expired'',
                     na_safe_error_code := Some ''lease_expired''\<rparr>) d)"

definition outbox_claim_tx ::
  "(bytes \<Rightarrow> bytes) \<Rightarrow> uuid \<Rightarrow> string \<Rightarrow> datetime \<Rightarrow> int \<Rightarrow> claimed_notification option db_tx" where
  "outbox_claim_tx sha token worker_id now lease_for d =
     (if \<not> (1 \<le> length worker_id \<and> length worker_id \<le> 128) \<or> \<not> is_aware now
      then Inl (ValueError ''notification_claim_invalid'')
      else if \<not> (seconds 1 \<le> lease_for \<and> lease_for \<le> hours 1)
      then Inl (ValueError ''notification_lease_duration_invalid'')
      else bind_tx (expire_unclaimable now) (\<lambda>_ d1.
        case outbox_query now d1 of
          None \<Rightarrow> Inr (None, d1)
        | Some record \<Rightarrow>
            if length (filter (still_as_read record) (outbox d1)) \<noteq> 1 then Inr (None, d1)
            else bind_tx (update_outbox (take_lease record worker_id (uuid_str token) now lease_for)) (\<lambda>_ d2.
                 bind_tx (insert_notification_attempt
                   \<lparr>na_outbox_id = om_id record, na_attempt_number = om_attempt_count record + 1,
                    na_worker_id = worker_id, na_lease_token = uuid_str token, na_started_at = now,
                    na_finished_at = None, na_outcome = None, na_response_status = None,
                    na_provider_message_id = None, na_safe_error_code = None, na_created_at = now\<rparr>) (\<lambda>_.
                   lift_tx (bind_res (claimed_of sha record (om_attempt_count record + 1) worker_id
                     (uuid_str token) (dt_add now lease_for)) (\<lambda>c. Inr (Some c))))
                   (expire_previous (om_id record) now d2)) d1) d)"

subsection \<open>Delivery evidence\<close>

definition metadata_time_matches :: "datetime \<Rightarrow> datetime \<Rightarrow> bool" where
  "metadata_time_matches value expected \<longleftrightarrow> is_aware value \<and> aware value = aware expected"

definition verification_metadata_matches :: "proof_row \<Rightarrow> verification_row \<Rightarrow> bool" where
  "verification_metadata_matches proof v =
     (case pv_verification_metadata proof of
        None \<Rightarrow> False
      | Some m \<Rightarrow> vm_method m = ve_method v \<and> metadata_time_matches (vm_verified_at m) (ve_verified_at v) \<and>
          vm_block_height m = ve_block_height v \<and> vm_block_hash m = ve_block_hash v \<and>
          metadata_time_matches (vm_block_time m) (ve_block_time v) \<and>
          vm_confirmation_policy m = ve_confirmation_policy v)"

definition notification_observation_matches ::
  "order_row \<Rightarrow> outbox_row \<Rightarrow> verification_row \<Rightarrow> int \<Rightarrow> db \<Rightarrow> bool" where
  "notification_observation_matches order r verification threshold d =
     (case (om_proof_version r, om_confirmation_count r) of
        (Some v, Some n) \<Rightarrow>
          (case (find_observation (om_confirmation_observation_id r) d, latest_observation (o_id order) v d) of
             (Some bound, Some current) \<Rightarrow>
               ob_order_id bound = o_id order \<and> ob_proof_version bound = v \<and>
               ob_observed_confirmations bound = n \<and> threshold \<le> ob_observed_confirmations bound \<and>
               threshold \<le> ob_observed_confirmations current \<and>
               observation_matches_verification bound verification \<and>
               observation_matches_verification current verification
           | _ \<Rightarrow> False)
      | _ \<Rightarrow> False)"

definition delivery_evidence_matches :: "(bytes \<Rightarrow> bytes) \<Rightarrow> order_row \<Rightarrow> outbox_row \<Rightarrow> db \<Rightarrow> bool" where
  "delivery_evidence_matches sha order r d =
     (case (om_proof_version r, om_confirmation_count r, om_confirmation_observation_id r,
            om_provider_message_id r) of
        (Some v, Some n, Some obs, Some pid) \<Rightarrow>
          if om_state r \<noteq> OB_ACCEPTED \<and> om_state r \<noteq> OB_FAILED then False
          else (case notification_kind_of (om_kind r) of
                  None \<Rightarrow> False
                | Some kind \<Rightarrow>
                    let threshold = (if kind = INITIAL_CONFIRMATION then 1 else 6) in
                    if n < threshold \<or> om_message_key r \<noteq> message_key_of kind v (o_order_reference order) \<or>
                       om_recipient r \<noteq> o_email order \<or>
                       om_payload r \<noteq> payload_of (kind_value kind) (o_order_reference order)
                    then False
                    else (case latest_proof (o_id order) d of
                            None \<Rightarrow> False
                          | Some proof \<Rightarrow>
                              if pv_version proof \<noteq> v \<or> pv_target_digest proof \<noteq> o_manifest_digest order \<or>
                                 pv_proof_byte_length proof \<noteq> int (length (pv_proof_bytes proof)) \<or>
                                 sha (pv_proof_bytes proof) \<noteq> pv_proof_sha256 proof
                              then False
                              else (case (find_verification (o_id order) (pv_version proof) d,
                                          find_bundle (o_id order) (pv_version proof) d) of
                                      (Some verification, Some bundle) \<Rightarrow>
                                        notification_observation_matches order r verification threshold d \<and>
                                        (pv_verification_metadata proof = None \<or>
                                         verification_metadata_matches proof verification) \<and>
                                        pb_bundle_byte_length bundle = int (length (pb_bundle_bytes bundle)) \<and>
                                        sha (pb_bundle_bytes bundle) = pb_bundle_sha256 bundle
                                    | _ \<Rightarrow> False)))
      | _ \<Rightarrow> False)"

text \<open>The update of the order and its audit event, at the end of \<open>_apply_delivered_event\<close>.\<close>

definition deliver_order :: "order_row \<Rightarrow> outbox_row \<Rightarrow> notification_kind \<Rightarrow> resend_event_row \<Rightarrow> datetime \<Rightarrow> unit db_tx" where
  "deliver_order order r kind event now =
     (let order1 = order\<lparr>o_fulfillment_state := DELIVERED, o_updated_at := now\<rparr>
      in bind_tx (update_order order1) (\<lambda>_ d.
           insert_state_event
             \<lparr>ev_order_id = o_id order, ev_sequence = next_sequence (o_id order) d,
              ev_event_key = ''resend-delivered:'' @ rw_svix_event_id event, ev_source = ''resend_webhook'',
              ev_previous_payment_state = Some (o_payment_state order),
              ev_payment_state = o_payment_state order,
              ev_previous_fulfillment_state = Some (o_fulfillment_state order),
              ev_fulfillment_state = o_fulfillment_state order1,
              ev_evidence = NotificationEvidence (kind_value kind) (om_proof_version r) (om_confirmation_count r),
              ev_created_at = now\<rparr> d))"

definition apply_delivered_event ::
  "(bytes \<Rightarrow> bytes) \<Rightarrow> outbox_row \<Rightarrow> resend_event_row \<Rightarrow> datetime \<Rightarrow> webhook_process_result db_tx" where
  "apply_delivered_event sha r event now d =
     (if om_state r = OB_DELIVERED \<or> om_accepted_at r = None \<or>
         om_provider_message_id r \<noteq> Some (rw_provider_message_id event) \<or>
         rw_event_type event \<noteq> ''email.delivered''
      then Inr (nothing_delivered False, d)
      else case find_order (om_order_id r) d of
          None \<Rightarrow> Inr (nothing_delivered False, d)
        | Some order \<Rightarrow>
            if \<not> delivery_evidence_matches sha order r d then Inr (nothing_delivered False, d)
            else (case notification_kind_of (om_kind r) of
                    None \<Rightarrow> Inr (nothing_delivered False, d)
                  | Some kind \<Rightarrow>
                      if o_fulfillment_state order \<noteq> BITCOIN_VERIFIED \<and> o_fulfillment_state order \<noteq> DELIVERED
                      then Inr (nothing_delivered False, d)
                      else bind_tx (update_outbox (r\<lparr>om_state := OB_DELIVERED,
                               om_delivered_at := Some (aware (rw_event_created_at event)),
                               om_safe_error_code := None, om_updated_at := now\<rparr>)) (\<lambda>_.
                             if kind = FINAL_CONFIRMATION \<or> o_fulfillment_state order = DELIVERED
                             then return_tx \<lparr>wr_duplicate = False, wr_notification_delivered = True,
                                              wr_order_transitioned = False\<rparr>
                             else bind_tx (deliver_order order r kind event now) (\<lambda>_.
                               return_tx \<lparr>wr_duplicate = False, wr_notification_delivered = True,
                                           wr_order_transitioned = True\<rparr>)) d))"

subsection \<open>Closing a lease\<close>

definition find_outbox :: "uuid \<Rightarrow> db \<Rightarrow> outbox_row option" where
  "find_outbox i d = find (\<lambda>r. om_id r = i) (outbox d)"

definition active_lease ::
  "claimed_notification \<Rightarrow> datetime \<Rightarrow> db \<Rightarrow> exn + (outbox_row \<times> notification_attempt_row)" where
  "active_lease m now d =
     (case UUID (cn_id m) of
        None \<Rightarrow> Inl (ValueError ''notification_claim_invalid'')
      | Some i \<Rightarrow>
          (case find_outbox i d of
             None \<Rightarrow> Inl (ValueError ''notification_lease_stale'')
           | Some r \<Rightarrow>
               if om_state r \<noteq> OB_LEASED \<or> om_lease_owner r \<noteq> Some (cn_lease_owner m) \<or>
                  om_lease_token r \<noteq> Some (cn_lease_token m) \<or> om_attempt_count r \<noteq> cn_attempt m \<or>
                  (case om_lease_until r of None \<Rightarrow> True | Some t \<Rightarrow> micros t < micros now) \<or>
                  om_provider_message_id r \<noteq> None
               then Inl (ValueError ''notification_lease_stale'')
               else (case find (\<lambda>a. na_outbox_id a = om_id r \<and> na_attempt_number a = cn_attempt m \<and>
                              na_lease_token a = cn_lease_token m \<and> na_finished_at a = None)
                            (notification_attempts d) of
                       None \<Rightarrow> Inl (ValueError ''notification_attempt_missing'')
                     | Some a \<Rightarrow> Inr (r, a))))"

definition SAFE_PROVIDER_ID :: "string \<Rightarrow> bool" where
  "SAFE_PROVIDER_ID s \<longleftrightarrow> match_class (\<lambda>c. is_alnum c \<or> c \<in> set ''_-'') 1 128 s"

definition SAFE_ERROR_CODE :: "string \<Rightarrow> bool" where
  "SAFE_ERROR_CODE s \<longleftrightarrow> match_class (\<lambda>c. is_lower c \<or> is_digit c \<or> c = CHR ''_'') 1 64 s"

definition accepted_row :: "outbox_row \<Rightarrow> string \<Rightarrow> datetime \<Rightarrow> outbox_row" where
  "accepted_row r message_id now =
     r\<lparr>om_state := OB_ACCEPTED, om_provider_message_id := Some message_id, om_accepted_at := Some (aware now),
       om_lease_owner := None, om_lease_until := None, om_lease_token := None, om_safe_error_code := None,
       om_updated_at := aware now\<rparr>"

definition delivered_event_for :: "string \<Rightarrow> db \<Rightarrow> resend_event_row option" where
  "delivered_event_for message_id d =
     first_by (\<lambda>e. (micros (rw_event_created_at e), micros (rw_created_at e)))
       (filter (\<lambda>e. rw_provider_message_id e = message_id \<and> rw_event_type e = ''email.delivered'')
         (resend_webhook_events d))"

definition record_accepted_tx ::
  "(bytes \<Rightarrow> bytes) \<Rightarrow> claimed_notification \<Rightarrow> provider_acceptance \<Rightarrow> datetime \<Rightarrow> unit db_tx" where
  "record_accepted_tx sha m acceptance now d =
     (if pa_response_status acceptance \<noteq> 200 \<or> \<not> SAFE_PROVIDER_ID (pa_message_id acceptance)
      then Inl (ValueError ''notification_provider_acceptance_invalid'')
      else bind_res (active_lease m now d) (\<lambda>(r, a).
        let r1 = accepted_row r (pa_message_id acceptance) now in
        bind_tx (update_outbox r1) (\<lambda>_ d1.
          let d2 = put_attempt (finish_attempt a now ''accepted'' (Some (pa_response_status acceptance))
                     (Some (pa_message_id acceptance)) None) d1
          in case delivered_event_for (pa_message_id acceptance) d2 of
               None \<Rightarrow> Inr ((), d2)
             | Some event \<Rightarrow> bind_tx (apply_delivered_event sha r1 event (aware now)) (\<lambda>_. return_tx ()) d2) d))"

definition valid_status :: "int option \<Rightarrow> bool" where
  "valid_status s = (case s of None \<Rightarrow> True | Some n \<Rightarrow> 100 \<le> n \<and> n \<le> 599)"

definition record_retry_tx ::
  "claimed_notification \<Rightarrow> datetime \<Rightarrow> datetime \<Rightarrow> string \<Rightarrow> int option \<Rightarrow> unit db_tx" where
  "record_retry_tx m now0 retry_at0 safe_error_code response_status d =
     (if \<not> SAFE_ERROR_CODE safe_error_code then Inl (ValueError ''notification_safe_error_code_invalid'')
      else if \<not> valid_status response_status then Inl (ValueError ''notification_response_status_invalid'')
      else let now = aware now0; retry_at = aware retry_at0 in
        if micros retry_at \<le> micros now then Inl (ValueError ''notification_retry_time_invalid'')
        else bind_res (active_lease m now d) (\<lambda>(r, a).
          let exhausted = (micros (om_idempotency_expires_at r) \<le> micros retry_at \<or>
                           om_max_attempts r \<le> om_attempt_count r)
          in bind_tx (update_outbox (r\<lparr>om_state := (if exhausted then OB_DEAD_LETTER else OB_RETRY),
                 om_available_at := retry_at, om_lease_owner := None, om_lease_until := None,
                 om_lease_token := None, om_safe_error_code := Some safe_error_code, om_updated_at := now\<rparr>)) (\<lambda>_ d1.
               Inr ((), put_attempt (finish_attempt a now (if exhausted then ''dead_letter'' else ''retry'')
                     response_status None (Some safe_error_code)) d1)) d))"

definition record_terminal_failure_tx ::
  "claimed_notification \<Rightarrow> datetime \<Rightarrow> string \<Rightarrow> int option \<Rightarrow> unit db_tx" where
  "record_terminal_failure_tx m now safe_error_code response_status d =
     (if \<not> SAFE_ERROR_CODE safe_error_code then Inl (ValueError ''notification_safe_error_code_invalid'')
      else if \<not> valid_status response_status then Inl (ValueError ''notification_response_status_invalid'')
      else bind_res (active_lease m now d) (\<lambda>(r, a).
        bind_tx (update_outbox (r\<lparr>om_state := OB_FAILED, om_lease_owner := None, om_lease_until := None,
            om_lease_token := None, om_safe_error_code := Some safe_error_code, om_updated_at := aware now\<rparr>)) (\<lambda>_ d1.
          Inr ((), put_attempt (finish_attempt a now ''failed'' response_status None (Some safe_error_code)) d1)) d))"

section \<open>SqlResendWebhookStore\<close>

definition find_resend_event :: "string \<Rightarrow> db \<Rightarrow> resend_event_row option" where
  "find_resend_event svix d = find (\<lambda>e. rw_svix_event_id e = svix) (resend_webhook_events d)"

definition find_by_provider :: "string \<Rightarrow> db \<Rightarrow> outbox_row option" where
  "find_by_provider pid d = find (\<lambda>r. om_provider_message_id r = Some pid) (outbox d)"

definition validate_replay :: "resend_event_row \<Rightarrow> verified_resend_event \<Rightarrow> bytes \<Rightarrow> exn + unit" where
  "validate_replay existing event payload_sha256 =
     require (\<not> (rw_event_type existing \<noteq> vr_event_type event \<or>
         rw_provider_message_id existing \<noteq> vr_provider_message_id event \<or>
         rw_payload_sha256 existing \<noteq> payload_sha256 \<or>
         aware (rw_event_created_at existing) \<noteq> aware (vr_event_created_at event)))
       (ValueError ''resend_webhook_replay_conflict'')"

definition reconcile_replayed_event ::
  "(bytes \<Rightarrow> bytes) \<Rightarrow> resend_event_row \<Rightarrow> datetime \<Rightarrow> webhook_process_result db_tx" where
  "reconcile_replayed_event sha event now d =
     (if rw_event_type event \<noteq> ''email.delivered'' then Inr (nothing_delivered True, d)
      else case find_by_provider (rw_provider_message_id event) d of
          None \<Rightarrow> Inr (nothing_delivered True, d)
        | Some r \<Rightarrow>
            if om_accepted_at r = None then Inr (nothing_delivered True, d)
            else bind_tx (apply_delivered_event sha r event now) (\<lambda>result.
                   return_tx (result\<lparr>wr_duplicate := True\<rparr>)) d)"

definition insert_webhook_event :: "verified_resend_event \<Rightarrow> bytes \<Rightarrow> datetime \<Rightarrow> bool db_tx" where
  "insert_webhook_event event payload_sha256 now d =
     (if find_resend_event (vr_svix_event_id event) d \<noteq> None then Inr (False, d)
      else bind_tx (insert_resend_event
             \<lparr>rw_svix_event_id = vr_svix_event_id event, rw_event_type = vr_event_type event,
              rw_provider_message_id = vr_provider_message_id event, rw_payload_sha256 = payload_sha256,
              rw_event_created_at = aware (vr_event_created_at event), rw_processed_at = now,
              rw_created_at = now\<rparr>) (\<lambda>_. return_tx True) d)"

definition failure_event_types :: "string list" where
  "failure_event_types = [''email.bounced'', ''email.failed'', ''email.complained'']"

text \<open>\<open>event_type.replace("email.", "email_")\<close> for one of these types.\<close>

definition failure_code :: "string \<Rightarrow> string" where
  "failure_code event_type = ''email_'' @ drop 6 event_type"

definition process_tx ::
  "(bytes \<Rightarrow> bytes) \<Rightarrow> verified_resend_event \<Rightarrow> bytes \<Rightarrow> datetime \<Rightarrow> webhook_process_result db_tx" where
  "process_tx sha event payload_sha256 now0 d =
     (if length payload_sha256 \<noteq> 32 then Inl (ValueError ''resend_webhook_payload_hash_invalid'')
      else let now = aware now0 in
        case find_resend_event (vr_svix_event_id event) d of
          Some existing \<Rightarrow>
            bind_res (validate_replay existing event payload_sha256) (\<lambda>_. reconcile_replayed_event sha existing now d)
        | None \<Rightarrow>
            let found = find_by_provider (vr_provider_message_id event) d in
            bind_tx (insert_webhook_event event payload_sha256 now) (\<lambda>inserted d1.
              if \<not> inserted
              then (case find_resend_event (vr_svix_event_id event) d1 of
                      None \<Rightarrow> Inl (RuntimeError ''resend_webhook_dedupe_failed'')
                    | Some existing \<Rightarrow> bind_res (validate_replay existing event payload_sha256) (\<lambda>_.
                        reconcile_replayed_event sha existing now d1))
              else (case found of
                  None \<Rightarrow> Inr (nothing_delivered False, d1)
                | Some r \<Rightarrow>
                    if om_accepted_at r = None \<or> om_provider_message_id r \<noteq> Some (vr_provider_message_id event)
                    then Inr (nothing_delivered False, d1)
                    else if vr_event_type event \<in> set failure_event_types
                    then (if om_state r \<noteq> OB_DELIVERED
                          then bind_tx (update_outbox (r\<lparr>om_state := OB_FAILED,
                                 om_safe_error_code := Some (failure_code (vr_event_type event)),
                                 om_updated_at := now\<rparr>)) (\<lambda>_. return_tx (nothing_delivered False)) d1
                          else Inr (nothing_delivered False, d1))
                    else if vr_event_type event \<noteq> ''email.delivered'' then Inr (nothing_delivered False, d1)
                    else (case find_resend_event (vr_svix_event_id event) d1 of
                        None \<Rightarrow> Inl (RuntimeError ''resend_webhook_event_missing'')
                      | Some stored \<Rightarrow>
                          bind_tx (apply_delivered_event sha r stored now) (\<lambda>result.
                            return_tx (result\<lparr>wr_duplicate := False\<rparr>)) d1))) d)"

section \<open>notifications/resend.py\<close>

text \<open>
  The answer of the HTTP client: a transport error, or a response with its status, its content
  type header, the size of its body and the \<open>id\<close> of its JSON body, where the body is a JSON
  object whose \<open>id\<close> is a string.
\<close>

datatype http_reply = TransportError | Reply int string nat "string option"

definition media_type :: "string \<Rightarrow> string" where
  "media_type header = str_lower (strip_chars is_py_space (takeWhile (\<lambda>c. c \<noteq> CHR '';'') header))"

definition resend_send :: "(claimed_notification \<Rightarrow> http_reply) \<Rightarrow> claimed_notification \<Rightarrow> exn + provider_acceptance" where
  "resend_send post m =
     (case post m of
        TransportError \<Rightarrow> Inl (ResendRetryableError ''resend_request_ambiguous'' None)
      | Reply status content_type nbytes ident \<Rightarrow>
          if status \<noteq> 200
          then (if status \<in> {408, 425, 429} \<or> 500 \<le> status
                then Inl (ResendRetryableError ''resend_response_rejected'' (Some status))
                else Inl (ResendPermanentError ''resend_response_rejected'' (Some status)))
          else if media_type content_type \<noteq> ''application/json'' \<or> 65536 < nbytes
          then Inl (ResendRetryableError ''resend_acceptance_ambiguous'' (Some status))
          else (case ident of
                  None \<Rightarrow> Inl (ResendRetryableError ''resend_acceptance_ambiguous'' (Some status))
                | Some message_id \<Rightarrow>
                    if SAFE_PROVIDER_ID message_id
                    then Inr \<lparr>pa_message_id = message_id, pa_response_status = status\<rparr>
                    else Inl (ResendRetryableError ''resend_acceptance_ambiguous'' (Some status))))"

section \<open>notifications/dispatch.py\<close>

definition resend_delay :: "int \<Rightarrow> int" where
  "resend_delay attempt = min 21600 (30 * 2 ^ nat (attempt - 1))"

definition dispatch_once ::
  "(bytes \<Rightarrow> bytes) \<Rightarrow> (claimed_notification \<Rightarrow> exn + provider_acceptance) \<Rightarrow> int \<Rightarrow> uuid \<Rightarrow> string \<Rightarrow> datetime
     \<Rightarrow> bool db_action" where
  "dispatch_once sha send lease_for token worker_id now =
     bind_act (transaction (outbox_claim_tx sha token worker_id now lease_for)) (\<lambda>claimed.
       case claimed of
         None \<Rightarrow> return_act False
       | Some m \<Rightarrow>
           bind_act (case send m of
               Inr acceptance \<Rightarrow> transaction (record_accepted_tx sha m acceptance now)
             | Inl (ResendRetryableError error_code status) \<Rightarrow>
                 transaction (record_retry_tx m now (dt_add now (seconds (resend_delay (cn_attempt m)))) error_code status)
             | Inl (ResendPermanentError error_code status) \<Rightarrow>
                 transaction (record_terminal_failure_tx m now error_code status)
             | Inl e \<Rightarrow> raise_act e) (\<lambda>_. return_act True))"

end
