(* ===== verification/Delivery.thy ===== *)
theory Delivery
  imports Outbox
begin

text \<open>
  What the outbox promises. An abstract machine, \<open>outbox_move\<close>, lists the changes of the three
  tables of the outbox: a message is queued, leased, closed (accepted, to be retried, failed,
  given up) or settled by a webhook, and a webhook event is added. Its invariant ties every
  message to the log of its attempts; the transactions of the outbox and of the webhook store
  are sequences of its moves. The leases of the outbox are a second instance of
  \<open>fenced_leases\<close>.
\<close>

section \<open>The invariant\<close>

definition outbox_tables :: "db \<Rightarrow> outbox_row list \<times> notification_attempt_row list \<times> resend_event_row list" where
  "outbox_tables d = (outbox d, notification_attempts d, resend_webhook_events d)"

definition waiting :: "outbox_row \<Rightarrow> bool" where
  "waiting r \<longleftrightarrow> om_state r = OB_AVAILABLE \<or> om_state r = OB_RETRY \<or> om_state r = OB_LEASED"

definition delivered_by :: "outbox_row \<Rightarrow> resend_event_row \<Rightarrow> bool" where
  "delivered_by r e \<longleftrightarrow> om_provider_message_id r = Some (rw_provider_message_id e) \<and>
     rw_event_type e = ''email.delivered'' \<and> om_delivered_at r = Some (aware (rw_event_created_at e))"

definition outbox_row_ok :: "resend_event_row list \<Rightarrow> outbox_row \<Rightarrow> bool" where
  "outbox_row_ok events r \<longleftrightarrow> 0 \<le> om_attempt_count r \<and> om_attempt_count r \<le> om_max_attempts r \<and>
     (om_state r = OB_LEASED \<longleftrightarrow> om_lease_owner r \<noteq> None) \<and>
     (om_state r = OB_LEASED \<longleftrightarrow> om_lease_until r \<noteq> None) \<and>
     (om_state r = OB_LEASED \<longleftrightarrow> om_lease_token r \<noteq> None) \<and>
     (om_provider_message_id r = None \<longleftrightarrow> om_accepted_at r = None) \<and>
     (waiting r \<or> om_state r = OB_DEAD_LETTER \<longrightarrow> om_provider_message_id r = None) \<and>
     (om_state r = OB_ACCEPTED \<or> om_state r = OB_DELIVERED \<longrightarrow> om_provider_message_id r \<noteq> None) \<and>
     (om_state r \<noteq> OB_DELIVERED \<longrightarrow> om_delivered_at r = None) \<and>
     (om_state r = OB_DELIVERED \<longrightarrow> (\<exists>e \<in> set events. delivered_by r e))"

definition attempts_of :: "notification_attempt_row list \<Rightarrow> uuid \<Rightarrow> notification_attempt_row list" where
  "attempts_of as i = filter (\<lambda>a. na_outbox_id a = i) as"

definition open_leases :: "notification_attempt_row list \<Rightarrow> uuid \<Rightarrow> (int \<times> string) list" where
  "open_leases as i = map (\<lambda>a. (na_attempt_number a, na_lease_token a)) (filter (is_open_notification i) as)"

text \<open>The attempts of a message are numbered 1, 2, 3, ... up to its count, and only a leased message
  has an open attempt, the last, under the token of the lease.\<close>

definition attempts_ok :: "notification_attempt_row list \<Rightarrow> outbox_row \<Rightarrow> bool" where
  "attempts_ok as r \<longleftrightarrow> map na_attempt_number (attempts_of as (om_id r)) = [1..om_attempt_count r] \<and>
     open_leases as (om_id r) =
       (case om_lease_token r of None \<Rightarrow> [] | Some t \<Rightarrow> [(om_attempt_count r, t)])"

definition provider_ids :: "outbox_row list \<Rightarrow> string list" where
  "provider_ids rows = List.map_filter om_provider_message_id rows"

definition outbox_inv :: "db \<Rightarrow> bool" where
  "outbox_inv d \<longleftrightarrow> distinct (map om_id (outbox d)) \<and> distinct (map om_message_key (outbox d)) \<and>
     distinct (provider_ids (outbox d)) \<and>
     (\<forall>r \<in> set (outbox d). outbox_row_ok (resend_webhook_events d) r \<and> attempts_ok (notification_attempts d) r) \<and>
     na_outbox_id ` set (notification_attempts d) \<subseteq> om_id ` set (outbox d) \<and>
     distinct (map rw_svix_event_id (resend_webhook_events d))"

text \<open>How a message may change: what is fixed, the growing counter, the identifier of the provider
  that is set once and ends the sending, the two final states.\<close>

definition outbox_grows :: "outbox_row \<Rightarrow> outbox_row \<Rightarrow> bool" where
  "outbox_grows r r' \<longleftrightarrow> om_id r' = om_id r \<and> om_message_key r' = om_message_key r \<and>
     om_order_id r' = om_order_id r \<and> om_kind r' = om_kind r \<and> om_recipient r' = om_recipient r \<and>
     om_payload r' = om_payload r \<and> om_proof_version r' = om_proof_version r \<and>
     om_confirmation_count r' = om_confirmation_count r \<and>
     om_confirmation_observation_id r' = om_confirmation_observation_id r \<and>
     om_max_attempts r' = om_max_attempts r \<and>
     om_idempotency_expires_at r' = om_idempotency_expires_at r \<and>
     om_attempt_count r \<le> om_attempt_count r' \<and>
     (om_provider_message_id r \<noteq> None \<longrightarrow> om_provider_message_id r' = om_provider_message_id r \<and>
        om_attempt_count r' = om_attempt_count r) \<and>
     (om_state r = OB_DELIVERED \<or> om_state r = OB_DEAD_LETTER \<longrightarrow> r' = r)"

definition outbox_le :: "db \<Rightarrow> db \<Rightarrow> bool" where
  "outbox_le d d' \<longleftrightarrow> (\<forall>r \<in> set (outbox d). \<exists>r' \<in> set (outbox d'). outbox_grows r r') \<and>
     prefix (resend_webhook_events d) (resend_webhook_events d')"

definition outbox_safe :: "db \<Rightarrow> db \<Rightarrow> bool" where
  "outbox_safe d d' \<longleftrightarrow> (outbox_inv d \<longrightarrow> outbox_inv d' \<and> outbox_le d d')"

lemma outbox_grows_refl [simp]: "outbox_grows r r"
  by (simp add: outbox_grows_def)

lemma outbox_grows_trans: "outbox_grows a b \<Longrightarrow> outbox_grows b c \<Longrightarrow> outbox_grows a c"
  unfolding outbox_grows_def by (auto intro: order_trans)

lemma outbox_le_refl [simp]: "outbox_le d d"
  unfolding outbox_le_def by (auto intro: outbox_grows_refl)

lemma outbox_le_trans: "outbox_le a b \<Longrightarrow> outbox_le b c \<Longrightarrow> outbox_le a c"
  unfolding outbox_le_def by (meson outbox_grows_trans prefix_order.trans)

interpretation outbox_keeping: preorder_on_states outbox_safe
  by unfold_locales (auto simp: outbox_safe_def intro: outbox_le_trans)

section \<open>The abstract machine\<close>

definition put_outbox :: "outbox_row \<Rightarrow> outbox_row list \<Rightarrow> outbox_row list" where
  "put_outbox r rows = upd_row (\<lambda>r'. om_id r' = om_id r) (\<lambda>_. r) rows"

definition closes :: "(notification_attempt_row \<Rightarrow> notification_attempt_row) \<Rightarrow> bool" where
  "closes f \<longleftrightarrow> (\<forall>a. na_outbox_id (f a) = na_outbox_id a \<and> na_attempt_number (f a) = na_attempt_number a \<and>
     na_finished_at (f a) \<noteq> None)"

definition close_attempts ::
  "uuid \<Rightarrow> (notification_attempt_row \<Rightarrow> notification_attempt_row) \<Rightarrow> notification_attempt_row list
     \<Rightarrow> notification_attempt_row list" where
  "close_attempts i f as = upd_row (is_open_notification i) f as"

definition fresh_message :: "outbox_row \<Rightarrow> bool" where
  "fresh_message r \<longleftrightarrow> om_state r = OB_AVAILABLE \<and> om_attempt_count r = 0 \<and> 0 < om_max_attempts r \<and>
     om_lease_owner r = None \<and> om_lease_until r = None \<and> om_lease_token r = None \<and>
     om_provider_message_id r = None \<and> om_accepted_at r = None \<and> om_delivered_at r = None"

definition closed_message :: "outbox_row \<Rightarrow> outbox_row \<Rightarrow> bool" where
  "closed_message r r' \<longleftrightarrow> outbox_grows r r' \<and> om_attempt_count r' = om_attempt_count r \<and>
     om_lease_owner r' = None \<and> om_lease_until r' = None \<and> om_lease_token r' = None \<and>
     om_delivered_at r' = om_delivered_at r \<and>
     (if om_state r' = OB_ACCEPTED then om_provider_message_id r' \<noteq> None \<and> om_accepted_at r' \<noteq> None
      else om_state r' \<in> {OB_RETRY, OB_FAILED, OB_DEAD_LETTER} \<and> om_provider_message_id r' = None \<and>
           om_accepted_at r' = om_accepted_at r)"

definition settled_message :: "outbox_row \<Rightarrow> outbox_row \<Rightarrow> bool" where
  "settled_message r r' \<longleftrightarrow> outbox_grows r r' \<and> om_provider_message_id r' = om_provider_message_id r \<and>
     om_accepted_at r' = om_accepted_at r \<and>
     om_lease_owner r' = om_lease_owner r \<and> om_lease_until r' = om_lease_until r \<and>
     om_lease_token r' = om_lease_token r \<and> om_attempt_count r' = om_attempt_count r"

inductive outbox_move :: "db \<Rightarrow> db \<Rightarrow> bool" where
  queued: "fresh_message r \<Longrightarrow> unique_among om_id r (outbox d) \<Longrightarrow> unique_among om_message_key r (outbox d) \<Longrightarrow>
    outbox_tables d' = (outbox d @ [r], notification_attempts d, resend_webhook_events d) \<Longrightarrow> outbox_move d d'"
| leased: "r \<in> set (outbox d) \<Longrightarrow> waiting r \<Longrightarrow> om_attempt_count r < om_max_attempts r \<Longrightarrow> closes f \<Longrightarrow>
    na_outbox_id a = om_id r \<Longrightarrow> na_attempt_number a = om_attempt_count r + 1 \<Longrightarrow> na_lease_token a = token \<Longrightarrow>
    na_finished_at a = None \<Longrightarrow>
    outbox_tables d' = (put_outbox (take_lease r worker_id token now lease_for) (outbox d),
      close_attempts (om_id r) f (notification_attempts d) @ [a], resend_webhook_events d) \<Longrightarrow> outbox_move d d'"
| closed: "r \<in> set (outbox d) \<Longrightarrow> waiting r \<Longrightarrow> closed_message r r' \<Longrightarrow> closes f \<Longrightarrow>
    (\<And>p. om_provider_message_id r' = Some p \<Longrightarrow> p \<notin> set (provider_ids (outbox d))) \<Longrightarrow>
    outbox_tables d' = (put_outbox r' (outbox d), close_attempts (om_id r) f (notification_attempts d),
      resend_webhook_events d) \<Longrightarrow> outbox_move d d'"
| settled: "r \<in> set (outbox d) \<Longrightarrow> om_provider_message_id r \<noteq> None \<Longrightarrow> settled_message r r' \<Longrightarrow>
    om_state r' = OB_FAILED \<and> om_delivered_at r' = om_delivered_at r \<and> om_state r \<noteq> OB_DELIVERED \<or>
    om_state r' = OB_DELIVERED \<and> (\<exists>e \<in> set (resend_webhook_events d). delivered_by r' e) \<Longrightarrow>
    outbox_tables d' = (put_outbox r' (outbox d), notification_attempts d, resend_webhook_events d) \<Longrightarrow>
    outbox_move d d'"
| event_added: "unique_among rw_svix_event_id e (resend_webhook_events d) \<Longrightarrow>
    outbox_tables d' = (outbox d, notification_attempts d, resend_webhook_events d @ [e]) \<Longrightarrow> outbox_move d d'"
| elsewhere: "outbox_tables d' = outbox_tables d \<Longrightarrow> outbox_move d d'"

lemma outbox_tablesD:
  "outbox_tables d' = (a, b, c) \<Longrightarrow> outbox d' = a \<and> notification_attempts d' = b \<and> resend_webhook_events d' = c"
  by (simp add: outbox_tables_def)

lemma put_outbox_unique:
  assumes "distinct (map om_id rows)" "r \<in> set rows" "om_id r' = om_id r"
  shows "x \<in> set (put_outbox r' rows) \<longleftrightarrow> x = r' \<or> x \<in> set rows \<and> om_id x \<noteq> om_id r"
proof -
  have "y = r" if "y \<in> set rows" "om_id y = om_id r" for y
    using that assms by (auto simp: distinct_map inj_on_def)
  then show ?thesis using assms by (auto simp: put_outbox_def set_upd_row image_iff)
qed

lemma put_outbox_maps:
  assumes "distinct (map om_id rows)" "r \<in> set rows" "om_id r' = om_id r"
    "om_message_key r' = om_message_key r"
  shows "map om_id (put_outbox r' rows) = map om_id rows"
    "map om_message_key (put_outbox r' rows) = map om_message_key rows"
proof -
  have same: "y = r" if "y \<in> set rows" "om_id y = om_id r'" for y
    using that assms by (auto simp: distinct_map inj_on_def)
  show "map om_id (put_outbox r' rows) = map om_id rows"
    by (auto simp: put_outbox_def upd_row_def)
  show "map om_message_key (put_outbox r' rows) = map om_message_key rows"
    using assms(4) by (auto simp: put_outbox_def upd_row_def dest: same)
qed

lemma provider_ids_simps [simp]:
  "provider_ids [] = []"
  "provider_ids (r # rows) = (case om_provider_message_id r of None \<Rightarrow> [] | Some p \<Rightarrow> [p]) @ provider_ids rows"
  "provider_ids (xs @ ys) = provider_ids xs @ provider_ids ys"
  by (simp_all add: provider_ids_def List.map_filter_def split: option.splits)

lemma set_provider_ids: "set (provider_ids rows) = {p. \<exists>r \<in> set rows. om_provider_message_id r = Some p}"
  by (induction rows) (auto split: option.splits)

lemma distinct_provider_put:
  assumes "distinct (map om_id rows)" "r \<in> set rows" "om_id r' = om_id r" "distinct (provider_ids rows)"
    and "om_provider_message_id r' = om_provider_message_id r \<or> om_provider_message_id r' = None \<or>
      (\<forall>p. om_provider_message_id r' = Some p \<longrightarrow> p \<notin> set (provider_ids rows))"
  shows "distinct (provider_ids (put_outbox r' rows))"
  using assms
proof (induction rows)
  case (Cons x xs)
  have absent: "put_outbox r' xs = xs" if "om_id r' \<notin> om_id ` set xs"
    using that unfolding put_outbox_def by (intro upd_row_none) (metis imageI)
  show ?case
  proof (cases "om_id x = om_id r'")
    case True
    then have "x = r" using Cons.prems by (auto simp: image_iff)
    moreover have "om_id r' \<notin> om_id ` set xs" using True Cons.prems by auto
    ultimately show ?thesis
      using Cons.prems absent True by (auto simp: put_outbox_def split: option.splits)
  next
    case False
    then have in_xs: "r \<in> set xs" using Cons.prems by auto
    have sub: "set (provider_ids (put_outbox r' xs)) \<subseteq> set (provider_ids xs) \<union> set_option (om_provider_message_id r')"
      unfolding put_outbox_def by (auto simp: set_provider_ids set_upd_row)
    have "p \<notin> set (provider_ids (put_outbox r' xs))" if p: "om_provider_message_id x = Some p" for p
    proof -
      have "p \<notin> set (provider_ids xs)" using Cons.prems(4) p by simp
      moreover have "om_provider_message_id r' \<noteq> Some p"
      proof
        assume r': "om_provider_message_id r' = Some p"
        then have "om_provider_message_id r = Some p" using Cons.prems(5) p by auto
        then show False using in_xs \<open>p \<notin> set (provider_ids xs)\<close> by (auto simp: set_provider_ids)
      qed
      ultimately show ?thesis using sub by auto
    qed
    moreover have "distinct (provider_ids (put_outbox r' xs))"
      using Cons.IH [OF _ in_xs Cons.prems(3)] Cons.prems by (auto split: option.splits)
    ultimately show ?thesis using False by (simp add: put_outbox_def split: option.splits)
  qed
qed simp

section \<open>Every move keeps the invariant\<close>

lemma close_attempts_other:
  assumes "closes f"
  shows "map na_attempt_number (attempts_of (close_attempts i f as) j) = map na_attempt_number (attempts_of as j)"
    "open_leases (close_attempts i f as) j = (if j = i then [] else open_leases as j)"
    "na_outbox_id ` set (close_attempts i f as) = na_outbox_id ` set as"
  using assms unfolding closes_def
  by (induction as) (auto simp: close_attempts_def attempts_of_def open_leases_def is_open_notification_def)

lemma attempts_snoc:
  "attempts_of (as @ [a]) j = attempts_of as j @ (if na_outbox_id a = j then [a] else [])"
  "na_finished_at a = None \<Longrightarrow> open_leases (as @ [a]) j =
     open_leases as j @ (if na_outbox_id a = j then [(na_attempt_number a, na_lease_token a)] else [])"
  by (simp_all add: attempts_of_def open_leases_def is_open_notification_def)

lemma attempts_ok_cong:
  "map na_attempt_number (attempts_of as' (om_id r)) = map na_attempt_number (attempts_of as (om_id r)) \<Longrightarrow>
   open_leases as' (om_id r) = open_leases as (om_id r) \<Longrightarrow> attempts_ok as r \<Longrightarrow> attempts_ok as' r"
  by (simp add: attempts_ok_def)

lemma put_outbox_safe:
  assumes inv: "outbox_inv d" and r: "r \<in> set (outbox d)" and grows: "outbox_grows r r'"
    and ok: "outbox_row_ok (resend_webhook_events d) r'" "attempts_ok (notification_attempts d') r'"
    and provider: "om_provider_message_id r' = om_provider_message_id r \<or>
      (\<forall>p. om_provider_message_id r' = Some p \<longrightarrow> p \<notin> set (provider_ids (outbox d)))"
    and d': "outbox d' = put_outbox r' (outbox d)" "resend_webhook_events d' = resend_webhook_events d"
    and others: "\<And>j. j \<noteq> om_id r \<Longrightarrow> map na_attempt_number (attempts_of (notification_attempts d') j) =
        map na_attempt_number (attempts_of (notification_attempts d) j)"
      "\<And>j. j \<noteq> om_id r \<Longrightarrow> open_leases (notification_attempts d') j = open_leases (notification_attempts d) j"
      "na_outbox_id ` set (notification_attempts d') \<subseteq> na_outbox_id ` set (notification_attempts d) \<union> {om_id r}"
  shows "outbox_inv d' \<and> outbox_le d d'"
proof -
  have dist: "distinct (map om_id (outbox d))" using inv by (simp add: outbox_inv_def)
  have id: "om_id r' = om_id r" "om_message_key r' = om_message_key r" using grows by (simp_all add: outbox_grows_def)
  note member = put_outbox_unique [OF dist r id(1)]
  note maps = put_outbox_maps [OF dist r id]
  have ids: "om_id ` set (outbox d') = om_id ` set (outbox d)" using maps(1) by (metis d'(1) set_map)
  have rows: "outbox_row_ok (resend_webhook_events d') x \<and> attempts_ok (notification_attempts d') x"
    if "x \<in> set (outbox d')" for x
  proof (cases "x = r'")
    case False
    then have x: "x \<in> set (outbox d)" "om_id x \<noteq> om_id r" using that member by (auto simp: d')
    then show ?thesis
      using inv attempts_ok_cong [of "notification_attempts d'" x "notification_attempts d"] others(1,2)
      by (auto simp: outbox_inv_def d')
  qed (use ok d' in simp)
  have "distinct (provider_ids (outbox d'))"
    using distinct_provider_put [OF dist r id(1)] inv provider by (auto simp: outbox_inv_def d'(1))
  moreover have "na_outbox_id ` set (notification_attempts d') \<subseteq> om_id ` set (outbox d')"
    using others(3) inv r unfolding ids outbox_inv_def by blast
  ultimately have "outbox_inv d'"
    using inv maps rows unfolding outbox_inv_def d' by simp
  moreover have "outbox_le d d'"
    unfolding outbox_le_def
  proof (intro conjI ballI)
    fix x assume x: "x \<in> set (outbox d)"
    show "\<exists>y \<in> set (outbox d'). outbox_grows x y"
    proof (cases "om_id x = om_id r")
      case True
      then have "x = r" using x r dist by (auto simp: distinct_map inj_on_def)
      then show ?thesis using grows member by (auto simp: d')
    next
      case False
      then show ?thesis using x member by (auto simp: d' intro: outbox_grows_refl)
    qed
  qed (simp add: d')
  ultimately show ?thesis by simp
qed

lemma outbox_rowD:
  assumes "outbox_inv d" "r \<in> set (outbox d)"
  shows "outbox_row_ok (resend_webhook_events d) r" "attempts_ok (notification_attempts d) r"
  using assms by (auto simp: outbox_inv_def)

lemma waiting_row:
  assumes "outbox_row_ok events r" "waiting r"
  shows "om_provider_message_id r = None" "om_accepted_at r = None" "om_delivered_at r = None"
    "om_state r \<noteq> OB_DELIVERED" "om_state r \<noteq> OB_DEAD_LETTER"
  using assms by (cases "om_state r"; simp add: outbox_row_ok_def waiting_def)+

lemma take_lease_grows:
  assumes "outbox_row_ok events r" "waiting r"
  shows "outbox_grows r (take_lease r worker_id token now lease_for)"
  using waiting_row [OF assms] by (simp add: outbox_grows_def take_lease_def)

lemma closed_row_ok:
  assumes "outbox_row_ok events r" "waiting r" "closed_message r r'"
  shows "outbox_row_ok events r'"
proof -
  have "0 \<le> om_attempt_count r" "om_attempt_count r \<le> om_max_attempts r"
    using assms(1) by (simp_all add: outbox_row_ok_def)
  moreover have "om_max_attempts r' = om_max_attempts r" "om_attempt_count r' = om_attempt_count r"
    using assms(3) by (simp_all add: closed_message_def outbox_grows_def)
  ultimately show ?thesis
    using assms(3) waiting_row [OF assms(1,2)]
    by (cases "om_state r'") (auto simp: outbox_row_ok_def closed_message_def waiting_def)
qed

lemma settled_row_ok:
  assumes "outbox_row_ok events r" "om_state r \<noteq> OB_LEASED" "om_provider_message_id r \<noteq> None" "settled_message r r'"
    and "om_state r' = OB_FAILED \<and> om_delivered_at r' = om_delivered_at r \<and> om_state r \<noteq> OB_DELIVERED \<or>
      om_state r' = OB_DELIVERED \<and> (\<exists>e \<in> set events. delivered_by r' e)"
  shows "outbox_row_ok events r'"
proof -
  have "om_max_attempts r' = om_max_attempts r" "om_attempt_count r' = om_attempt_count r"
    using assms(4) by (simp_all add: settled_message_def outbox_grows_def)
  then show ?thesis
    using assms by (auto simp: outbox_row_ok_def settled_message_def waiting_def)
qed

lemma leased_row_ok:
  "outbox_row_ok events r \<Longrightarrow> waiting r \<Longrightarrow> om_attempt_count r < om_max_attempts r \<Longrightarrow>
     outbox_row_ok events (take_lease r worker_id token now lease_for)"
  by (simp add: outbox_row_ok_def take_lease_def waiting_def) auto

lemma leased_safe:
  assumes inv: "outbox_inv d" and r: "r \<in> set (outbox d)" "waiting r" "om_attempt_count r < om_max_attempts r"
    and f: "closes f" and a: "na_outbox_id a = om_id r" "na_attempt_number a = om_attempt_count r + 1"
      "na_lease_token a = token" "na_finished_at a = None"
    and d': "outbox_tables d' = (put_outbox (take_lease r worker_id token now lease_for) (outbox d),
      close_attempts (om_id r) f (notification_attempts d) @ [a], resend_webhook_events d)"
  shows "outbox_inv d' \<and> outbox_le d d'"
proof (rule put_outbox_safe [OF inv r(1) take_lease_grows [OF outbox_rowD(1) [OF inv r(1)] r(2)]])
  note tables = outbox_tablesD [OF d']
  note row = outbox_rowD [OF inv r(1)]
  show "outbox_row_ok (resend_webhook_events d) (take_lease r worker_id token now lease_for)"
    using leased_row_ok [OF row(1) r(2,3)] .
  have "0 \<le> om_attempt_count r" using row(1) by (simp add: outbox_row_ok_def)
  then have "[1..om_attempt_count r + 1] = [1..om_attempt_count r] @ [om_attempt_count r + 1]"
    using upto_rec2 [of 1 "om_attempt_count r + 1"] by simp
  then show "attempts_ok (notification_attempts d') (take_lease r worker_id token now lease_for)"
    using row(2) a tables by (simp add: attempts_ok_def take_lease_def attempts_snoc close_attempts_other [OF f])
  show "outbox d' = put_outbox (take_lease r worker_id token now lease_for) (outbox d)"
    "resend_webhook_events d' = resend_webhook_events d" using tables by simp_all
  show "map na_attempt_number (attempts_of (notification_attempts d') j) =
      map na_attempt_number (attempts_of (notification_attempts d) j)"
    "open_leases (notification_attempts d') j = open_leases (notification_attempts d) j" if "j \<noteq> om_id r" for j
    using tables a that by (simp_all add: attempts_snoc close_attempts_other [OF f])
  show "na_outbox_id ` set (notification_attempts d') \<subseteq> na_outbox_id ` set (notification_attempts d) \<union> {om_id r}"
    using tables a close_attempts_other(3) [OF f] by auto
qed (simp add: take_lease_def)

lemma closed_safe:
  assumes inv: "outbox_inv d" and r: "r \<in> set (outbox d)" "waiting r" and closed: "closed_message r r'"
    and f: "closes f" and provider: "\<And>p. om_provider_message_id r' = Some p \<Longrightarrow> p \<notin> set (provider_ids (outbox d))"
    and d': "outbox_tables d' = (put_outbox r' (outbox d), close_attempts (om_id r) f (notification_attempts d),
      resend_webhook_events d)"
  shows "outbox_inv d' \<and> outbox_le d d'"
proof (rule put_outbox_safe [OF inv r(1)])
  note tables = outbox_tablesD [OF d']
  note row = outbox_rowD [OF inv r(1)]
  show grows: "outbox_grows r r'" using closed by (simp add: closed_message_def)
  show "outbox_row_ok (resend_webhook_events d) r'"
    using closed_row_ok [OF row(1) r(2) closed] .
  have "om_id r' = om_id r" "om_attempt_count r' = om_attempt_count r" "om_lease_token r' = None"
    using closed by (simp_all add: closed_message_def outbox_grows_def)
  then show "attempts_ok (notification_attempts d') r'"
    using row(2) tables by (simp add: attempts_ok_def close_attempts_other [OF f])
  show "map na_attempt_number (attempts_of (notification_attempts d') j) =
      map na_attempt_number (attempts_of (notification_attempts d) j)"
    "open_leases (notification_attempts d') j = open_leases (notification_attempts d) j" if "j \<noteq> om_id r" for j
    using tables that by (simp_all add: close_attempts_other [OF f])
  show "na_outbox_id ` set (notification_attempts d') \<subseteq> na_outbox_id ` set (notification_attempts d) \<union> {om_id r}"
    using tables close_attempts_other(3) [OF f] by auto
qed (use provider outbox_tablesD [OF d'] in auto)

lemma settled_safe:
  assumes inv: "outbox_inv d" and r: "r \<in> set (outbox d)" "om_provider_message_id r \<noteq> None"
    and settled: "settled_message r r'"
    and outcome: "om_state r' = OB_FAILED \<and> om_delivered_at r' = om_delivered_at r \<and> om_state r \<noteq> OB_DELIVERED \<or>
      om_state r' = OB_DELIVERED \<and> (\<exists>e \<in> set (resend_webhook_events d). delivered_by r' e)"
    and d': "outbox_tables d' = (put_outbox r' (outbox d), notification_attempts d, resend_webhook_events d)"
  shows "outbox_inv d' \<and> outbox_le d d'"
proof (rule put_outbox_safe [OF inv r(1)])
  note tables = outbox_tablesD [OF d']
  note row = outbox_rowD [OF inv r(1)]
  show grows: "outbox_grows r r'" using settled by (simp add: settled_message_def)
  have unleased: "om_state r \<noteq> OB_LEASED" using row(1) r by (auto simp: outbox_row_ok_def waiting_def)
  show "outbox_row_ok (resend_webhook_events d) r'"
    using settled_row_ok [OF row(1) unleased r(2) settled outcome] .
  have "om_id r' = om_id r" "om_attempt_count r' = om_attempt_count r" "om_lease_token r' = om_lease_token r"
    using settled by (simp_all add: settled_message_def outbox_grows_def)
  then show "attempts_ok (notification_attempts d') r'"
    using row(2) tables by (simp add: attempts_ok_def split: option.splits)
qed (use outbox_tablesD [OF d'] settled in \<open>auto simp: settled_message_def\<close>)

lemma queued_safe:
  assumes inv: "outbox_inv d" and r: "fresh_message r" "unique_among om_id r (outbox d)"
      "unique_among om_message_key r (outbox d)"
    and d': "outbox_tables d' = (outbox d @ [r], notification_attempts d, resend_webhook_events d)"
  shows "outbox_inv d' \<and> outbox_le d d'"
proof -
  note tables = outbox_tablesD [OF d']
  have new: "om_id r \<notin> om_id ` set (outbox d)" "om_message_key r \<notin> om_message_key ` set (outbox d)"
    using r by (auto simp: unique_among_def list_all_iff)
  then have none: "na_outbox_id a \<noteq> om_id r" if "a \<in> set (notification_attempts d)" for a
    using that inv unfolding outbox_inv_def by (metis image_subset_iff)
  have "attempts_ok (notification_attempts d) r"
    using none r(1) by (auto simp: attempts_ok_def attempts_of_def open_leases_def fresh_message_def
        is_open_notification_def filter_empty_conv)
  moreover have "outbox_row_ok (resend_webhook_events d) r"
    using r(1) by (simp add: outbox_row_ok_def fresh_message_def waiting_def)
  ultimately have "outbox_inv d'"
    using inv new r(1) tables by (auto simp: outbox_inv_def fresh_message_def)
  moreover have "outbox_le d d'"
    using tables unfolding outbox_le_def by (auto intro: outbox_grows_refl)
  ultimately show ?thesis by simp
qed

theorem outbox_move_safe: "outbox_move d d' \<Longrightarrow> outbox_safe d d'"
  unfolding outbox_safe_def
proof (intro impI, induction rule: outbox_move.induct)
  case (event_added e d d')
  note tables = outbox_tablesD [OF event_added(2)]
  have "outbox_row_ok (resend_webhook_events d @ [e]) r" if "outbox_row_ok (resend_webhook_events d) r" for r
    using that by (cases "om_state r") (auto simp: outbox_row_ok_def)
  then have "outbox_inv d'"
    using event_added tables by (auto simp: outbox_inv_def unique_among_def list_all_iff)
  moreover have "outbox_le d d'"
    using tables unfolding outbox_le_def by (auto intro: outbox_grows_refl)
  ultimately show ?case by simp
next
  case (elsewhere d' d)
  then have "outbox d' = outbox d" "notification_attempts d' = notification_attempts d"
    "resend_webhook_events d' = resend_webhook_events d" by (simp_all add: outbox_tables_def)
  with elsewhere(2) show ?case
    unfolding outbox_inv_def outbox_le_def by (auto intro: outbox_grows_refl)
qed (rule queued_safe leased_safe closed_safe settled_safe; assumption)+

section \<open>The transactions are sequences of moves\<close>

lemma outbox_moves_safe: "outbox_move\<^sup>*\<^sup>* d d' \<Longrightarrow> outbox_safe d d'"
  by (induction rule: rtranclp_induct)
    (auto intro: outbox_keeping.R_refl outbox_keeping.R_trans outbox_move_safe)

definition outboxed :: "db \<Rightarrow> db \<Rightarrow> bool" where
  "outboxed d d' \<longleftrightarrow> (outbox_inv d \<longrightarrow> outbox_move\<^sup>*\<^sup>* d d')"

lemma outboxed_safe: "outboxed d d' \<Longrightarrow> outbox_safe d d'"
  unfolding outboxed_def using outbox_moves_safe outbox_safe_def by blast

interpretation outbox_refining: preorder_on_states outboxed
proof
  show "outboxed s s" for s by (simp add: outboxed_def)
  show "outboxed s u" if "outboxed s t" "outboxed t u" for s t u
    using that outboxed_safe [OF that(1)] unfolding outboxed_def outbox_safe_def by (meson rtranclp_trans)
qed

lemma outboxed_move: "(outbox_inv d \<Longrightarrow> outbox_move d d') \<Longrightarrow> outboxed d d'"
  by (auto simp: outboxed_def)

lemma outboxed_frame: "outbox_tables d' = outbox_tables d \<Longrightarrow> outboxed d d'"
  by (intro outboxed_move outbox_move.elsewhere)

lemma outboxed_inv: "outboxed d d' \<Longrightarrow> outbox_inv d \<Longrightarrow> outbox_inv d'"
  using outboxed_safe by (simp add: outbox_safe_def)

subsection \<open>Statements\<close>

lemma update_outbox_Inr:
  "update_outbox r d = Inr (u, d') \<longleftrightarrow> d' = d\<lparr>outbox := put_outbox r (outbox d)\<rparr> \<and> outbox_check r \<and>
     unique_opt_among om_provider_message_id r (filter (\<lambda>r'. om_id r' \<noteq> om_id r) (outbox d))"
  by (auto simp: update_outbox_def put_outbox_def)

text \<open>Finishing the open attempt of a message is the same as closing its open attempts.\<close>

lemma open_attempt_unique:
  assumes ok: "attempts_ok as r" and a: "a \<in> set as" "is_open_notification (om_id r) a" and x: "x \<in> set as"
  shows "na_outbox_id x = na_outbox_id a \<and> na_attempt_number x = na_attempt_number a \<longleftrightarrow> x = a"
    and "is_open_notification (om_id r) x \<longleftrightarrow> x = a"
proof -
  have "distinct (map na_attempt_number (attempts_of as (om_id r)))"
    using ok by (simp add: attempts_ok_def)
  then have inj: "y = z" if "y \<in> set as" "z \<in> set as" "na_outbox_id y = om_id r" "na_outbox_id z = om_id r"
      "na_attempt_number y = na_attempt_number z" for y z
    using that by (auto simp: distinct_map inj_on_def attempts_of_def)
  show "na_outbox_id x = na_outbox_id a \<and> na_attempt_number x = na_attempt_number a \<longleftrightarrow> x = a"
    using inj [OF x a(1)] a(2) by (auto simp: is_open_notification_def)
  have member: "(na_attempt_number y, na_lease_token y) \<in> set (open_leases as (om_id r))"
    if "y \<in> set as" "is_open_notification (om_id r) y" for y
    using that by (auto simp: open_leases_def)
  have "na_attempt_number x = na_attempt_number a" if "is_open_notification (om_id r) x"
    using member [OF x that] member [OF a] ok by (auto simp: attempts_ok_def split: option.splits)
  then show "is_open_notification (om_id r) x \<longleftrightarrow> x = a"
    using inj [OF x a(1)] a(2) by (auto simp: is_open_notification_def)
qed

lemma put_attempt_closes:
  assumes "attempts_ok (notification_attempts d) r" "a \<in> set (notification_attempts d)"
    "is_open_notification (om_id r) a" "closes f"
  shows "put_attempt (f a) d = d\<lparr>notification_attempts := close_attempts (om_id r) f (notification_attempts d)\<rparr>"
proof -
  have "na_outbox_id (f a) = na_outbox_id a" "na_attempt_number (f a) = na_attempt_number a"
    using assms(4) by (simp_all add: closes_def)
  then show ?thesis
    using open_attempt_unique [OF assms(1-3)]
    by (auto simp: put_attempt_def close_attempts_def upd_row_def)
qed

lemma close_attempts_none:
  "find (is_open_notification i) as = None \<Longrightarrow> close_attempts i f as = as"
  unfolding close_attempts_def by (intro upd_row_none) (auto simp: find_None)

lemma closes_finish: "closes (\<lambda>a. finish_attempt a now outcome status pid err)"
  by (simp add: closes_def finish_attempt_def)

lemma finish_open_attempt:
  assumes "attempts_ok (notification_attempts d) r" "closes f"
  shows "(case find (is_open_notification (om_id r)) (notification_attempts d) of None \<Rightarrow> d | Some a \<Rightarrow> put_attempt (f a) d) =
    d\<lparr>notification_attempts := close_attempts (om_id r) f (notification_attempts d)\<rparr>"
  using put_attempt_closes [OF assms(1) _ _ assms(2)]
  by (auto simp: close_attempts_none split: option.splits dest: find_SomeD)

subsection \<open>Expiry and claim\<close>

lemma not_leased_no_open:
  "outbox_row_ok events r \<Longrightarrow> attempts_ok as r \<Longrightarrow> om_state r \<noteq> OB_LEASED \<Longrightarrow> close_attempts (om_id r) f as = as"
  unfolding close_attempts_def
  by (intro upd_row_none) (auto simp: outbox_row_ok_def attempts_ok_def open_leases_def filter_empty_conv)

lemma unclaimable_waiting: "unclaimable now r \<Longrightarrow> waiting r"
  by (auto simp: unclaimable_def outbox_open_def waiting_def)

lemma claimable_waiting: "outbox_claimable now r \<Longrightarrow> waiting r"
  by (auto simp: outbox_claimable_def outbox_open_def waiting_def)

definition expired_row :: "datetime \<Rightarrow> outbox_row \<Rightarrow> outbox_row" where
  "expired_row now r = r\<lparr>om_state := OB_DEAD_LETTER, om_lease_owner := None, om_lease_until := None,
     om_lease_token := None, om_safe_error_code := Some ''idempotency_horizon_exhausted'', om_updated_at := now\<rparr>"

lemma expire_one_moves:
  assumes inv: "outbox_inv d" and r: "r \<in> set (outbox d)" "unclaimable now r"
    and tx: "expire_one now r d = Inr (u, d')"
  shows "outbox_move d d'" "outbox d' = put_outbox (expired_row now r) (outbox d)"
proof -
  note row = outbox_rowD [OF inv r(1)]
  define f where "f = (\<lambda>a. finish_attempt a now ''dead_letter'' None None (Some ''idempotency_horizon_exhausted''))"
  have f: "closes f" by (simp add: f_def closes_finish)
  have w: "waiting r" using r(2) by (rule unclaimable_waiting)
  have d': "d' = d\<lparr>notification_attempts := close_attempts (om_id r) f (notification_attempts d),
      outbox := put_outbox (expired_row now r) (outbox d)\<rparr>"
    using tx finish_open_attempt [OF row(2) f, unfolded f_def] not_leased_no_open [OF row, of f, unfolded f_def]
    by (simp add: expire_one_def Let_def update_outbox_Inr expired_row_def f_def split: if_splits)
  have "closed_message r (expired_row now r)"
    using waiting_row [OF row(1) w] by (simp add: closed_message_def outbox_grows_def expired_row_def)
  moreover have "om_provider_message_id (expired_row now r) = None"
    using waiting_row [OF row(1) w] by (simp add: expired_row_def)
  ultimately show "outbox_move d d'"
    using r(1) w f d' by (intro outbox_move.closed [of r d "expired_row now r" f]) (auto simp: outbox_tables_def)
  show "outbox d' = put_outbox (expired_row now r) (outbox d)" by (simp add: d')
qed

lemma expire_each_moves:
  assumes "outbox_inv d" "set rs \<subseteq> set (outbox d)" "distinct (map om_id rs)" "\<forall>r \<in> set rs. unclaimable now r"
    and "expire_each now rs d = Inr (u, d')"
  shows "outbox_move\<^sup>*\<^sup>* d d'"
  using assms
proof (induction rs arbitrary: d)
  case (Cons r rs)
  from Cons.prems(5) obtain d1 where one: "expire_one now r d = Inr ((), d1)" and rest: "expire_each now rs d1 = Inr (u, d')"
    by (auto simp: bind_tx_Inr)
  have r: "r \<in> set (outbox d)" "unclaimable now r" using Cons.prems by auto
  note move = expire_one_moves [OF Cons.prems(1) r one]
  have "outbox_inv d1" using outbox_move_safe [OF move(1)] Cons.prems(1) by (simp add: outbox_safe_def)
  moreover have "set rs \<subseteq> set (outbox d1)"
  proof
    fix x assume x: "x \<in> set rs"
    have "distinct (map om_id (outbox d))" "om_id (expired_row now r) = om_id r"
      using Cons.prems(1) by (simp_all add: outbox_inv_def expired_row_def)
    moreover have "x \<in> set (outbox d)" using x Cons.prems(2) by auto
    moreover have "om_id x \<noteq> om_id r" using x Cons.prems(3) by (metis distinct.simps(2) image_eqI list.set_map list.simps(9))
    ultimately show "x \<in> set (outbox d1)" using put_outbox_unique [OF _ r(1)] by (simp add: move(2))
  qed
  ultimately show ?case
    using Cons.IH [of d1] Cons.prems rest move(1) by (simp add: converse_rtranclp_into_rtranclp)
qed simp

lemma expire_unclaimable_outboxed: "expire_unclaimable now d = Inr (u, d') \<Longrightarrow> outboxed d d'"
  unfolding outboxed_def expire_unclaimable_def
proof
  assume tx: "expire_each now (take 100 (filter (unclaimable now) (outbox d))) d = Inr (u, d')"
    and inv: "outbox_inv d"
  have "distinct (map om_id (filter (unclaimable now) (outbox d)))"
    using inv by (simp add: outbox_inv_def distinct_map_filter)
  then have "distinct (map om_id (take 100 (filter (unclaimable now) (outbox d))))"
    by (simp only: take_map [symmetric] distinct_take)
  moreover have "set (take 100 (filter (unclaimable now) (outbox d))) \<subseteq> set (filter (unclaimable now) (outbox d))"
    by (rule set_take_subset)
  ultimately show "outbox_move\<^sup>*\<^sup>* d d'"
    by (intro expire_each_moves [OF inv _ _ _ tx]) auto
qed

lemma outbox_query_Some:
  "outbox_query now d = Some r \<Longrightarrow> r \<in> set (outbox d) \<and> outbox_claimable now r"
  unfolding outbox_query_def by (auto dest: first_by_in)

definition opened_notification :: "outbox_row \<Rightarrow> string \<Rightarrow> string \<Rightarrow> datetime \<Rightarrow> notification_attempt_row" where
  "opened_notification r worker_id token now =
     \<lparr>na_outbox_id = om_id r, na_attempt_number = om_attempt_count r + 1, na_worker_id = worker_id,
      na_lease_token = token, na_started_at = now, na_finished_at = None, na_outcome = None,
      na_response_status = None, na_provider_message_id = None, na_safe_error_code = None, na_created_at = now\<rparr>"

definition expire_attempt :: "datetime \<Rightarrow> notification_attempt_row \<Rightarrow> notification_attempt_row" where
  "expire_attempt now a = a\<lparr>na_finished_at := Some now, na_outcome := Some ''lease_expired'',
     na_safe_error_code := Some ''lease_expired''\<rparr>"

lemma closes_expire: "closes (expire_attempt now)"
  by (simp add: closes_def expire_attempt_def)

lemma outbox_claim_effect:
  assumes inv: "outbox_inv d" and claim: "outbox_claim_tx sha token worker_id now lease_for d = Inr (c, d')"
  obtains (none) d1 where "c = None" "outbox_move\<^sup>*\<^sup>* d d'" "outbox_inv d'"
  | (lease) d1 r m where "outbox_move\<^sup>*\<^sup>* d d1" "outbox_inv d1" "outbox_query now d1 = Some r" "c = Some m"
      "claimed_of sha r (om_attempt_count r + 1) worker_id (uuid_str token) (dt_add now lease_for) = Inr m"
      "d' = d1\<lparr>outbox := put_outbox (take_lease r worker_id (uuid_str token) now lease_for) (outbox d1),
        notification_attempts := close_attempts (om_id r) (expire_attempt now) (notification_attempts d1) @
          [opened_notification r worker_id (uuid_str token) now]\<rparr>"
proof -
  from claim obtain d1 where exp: "expire_unclaimable now d = Inr ((), d1)"
    by (auto simp: outbox_claim_tx_def bind_tx_Inr split: if_splits)
  have moves: "outbox_move\<^sup>*\<^sup>* d d1" using expire_unclaimable_outboxed [OF exp] inv by (simp add: outboxed_def)
  have inv1: "outbox_inv d1" using outbox_moves_safe [OF moves] inv by (simp add: outbox_safe_def)
  show thesis
  proof (cases "outbox_query now d1")
    case None
    with claim exp show ?thesis
      using none moves inv1 by (auto simp: outbox_claim_tx_def bind_tx_def split: if_splits)
  next
    case (Some r)
    have r: "r \<in> set (outbox d1)" "outbox_claimable now r" using outbox_query_Some [OF Some] by auto
    define d2 where "d2 = d1\<lparr>outbox := put_outbox (take_lease r worker_id (uuid_str token) now lease_for) (outbox d1)\<rparr>"
    have "attempts_ok (notification_attempts d2) r" using outbox_rowD(2) [OF inv1 r(1)] by (simp add: d2_def)
    note close = finish_open_attempt [OF this closes_expire, of now]
    have prev: "expire_previous (om_id r) now d2 =
        d2\<lparr>notification_attempts := close_attempts (om_id r) (expire_attempt now) (notification_attempts d2)\<rparr>"
      unfolding close [symmetric] by (simp add: expire_previous_def expire_attempt_def split: option.splits)
    show ?thesis
    proof (cases "length (filter (still_as_read r) (outbox d1)) = 1")
      case False
      with claim exp Some show ?thesis
        using none moves inv1 by (auto simp: outbox_claim_tx_def bind_tx_def split: if_splits)
    next
      case True
      with claim exp Some obtain m where
        m: "claimed_of sha r (om_attempt_count r + 1) worker_id (uuid_str token) (dt_add now lease_for) = Inr m" "c = Some m"
        and ins: "insert_notification_attempt (opened_notification r worker_id (uuid_str token) now)
          (expire_previous (om_id r) now d2) = Inr ((), d')"
        by (auto simp: outbox_claim_tx_def bind_tx_Inr bind_res_Inr_iff update_outbox_Inr d2_def opened_notification_def
            split: if_splits)
      have "d' = d1\<lparr>outbox := put_outbox (take_lease r worker_id (uuid_str token) now lease_for) (outbox d1),
        notification_attempts := close_attempts (om_id r) (expire_attempt now) (notification_attempts d1) @
          [opened_notification r worker_id (uuid_str token) now]\<rparr>"
        using ins unfolding prev by (auto simp: insert_notification_attempt_def d2_def split: if_splits)
      then show ?thesis using lease [OF moves inv1 Some m(2,1)] by simp
    qed
  qed
qed

lemma outbox_claim_outboxed: "outbox_claim_tx sha token worker_id now lease_for d = Inr (c, d') \<Longrightarrow> outboxed d d'"
  unfolding outboxed_def
proof
  assume claim: "outbox_claim_tx sha token worker_id now lease_for d = Inr (c, d')" and inv: "outbox_inv d"
  from inv claim show "outbox_move\<^sup>*\<^sup>* d d'"
  proof (cases rule: outbox_claim_effect)
    case (lease d1 r m)
    note r = outbox_query_Some [OF lease(3)]
    have "outbox_move d1 d'"
      using r claimable_waiting closes_expire [of now] lease(6)
      by (intro outbox_move.leased [of r d1 "expire_attempt now" "opened_notification r worker_id (uuid_str token) now"
          "uuid_str token" d' worker_id now lease_for])
        (auto simp: outbox_claimable_def opened_notification_def outbox_tables_def)
    with lease(1) show ?thesis by (rule rtranclp.rtrancl_into_rtrancl)
  qed simp
qed

subsection \<open>Closing a lease\<close>

lemma find_outbox_Some: "find_outbox i d = Some r \<Longrightarrow> r \<in> set (outbox d) \<and> om_id r = i"
  unfolding find_outbox_def by (auto dest: find_SomeD)

lemma find_outbox_member:
  assumes "outbox_inv d" "r \<in> set (outbox d)"
  shows "find_outbox (om_id r) d = Some r"
proof -
  obtain x where x: "find_outbox (om_id r) d = Some x"
    using assms(2) by (cases "find_outbox (om_id r) d") (auto simp: find_outbox_def find_None)
  then have "x = r" using assms find_outbox_Some [OF x] by (auto simp: outbox_inv_def distinct_map inj_on_def)
  with x show ?thesis by simp
qed

lemma active_lease_Inr:
  assumes "active_lease m now d = Inr (r, a)"
  shows "UUID (cn_id m) = Some (om_id r)" "find_outbox (om_id r) d = Some r" "r \<in> set (outbox d)"
    "om_state r = OB_LEASED" "om_attempt_count r = cn_attempt m" "om_lease_token r = Some (cn_lease_token m)"
    "om_lease_owner r = Some (cn_lease_owner m)" "om_provider_message_id r = None"
    "a \<in> set (notification_attempts d)" "is_open_notification (om_id r) a"
proof -
  from assms obtain i where i: "UUID (cn_id m) = Some i" "find_outbox i d = Some r"
    by (auto simp: active_lease_def split: option.splits if_splits)
  note id = find_outbox_Some [OF i(2)]
  show "UUID (cn_id m) = Some (om_id r)" "find_outbox (om_id r) d = Some r" "r \<in> set (outbox d)"
    using i id by auto
  show "om_state r = OB_LEASED" "om_attempt_count r = cn_attempt m" "om_lease_token r = Some (cn_lease_token m)"
    "om_lease_owner r = Some (cn_lease_owner m)" "om_provider_message_id r = None"
    "a \<in> set (notification_attempts d)" "is_open_notification (om_id r) a"
    using assms i id
    by (auto simp: active_lease_def is_open_notification_def split: option.splits if_splits dest!: find_SomeD)
qed

lemma unique_provider:
  assumes inv: "outbox_inv d" and r: "r \<in> set (outbox d)" "om_provider_message_id r = None" "om_id r' = om_id r"
    and unique: "unique_opt_among om_provider_message_id r' (filter (\<lambda>x. om_id x \<noteq> om_id r') (outbox d))"
    and p: "om_provider_message_id r' = Some p"
  shows "p \<notin> set (provider_ids (outbox d))"
proof
  assume "p \<in> set (provider_ids (outbox d))"
  then obtain x where x: "x \<in> set (outbox d)" "om_provider_message_id x = Some p" by (auto simp: set_provider_ids)
  then have "om_id x = om_id r'" using unique p by (auto simp: unique_opt_among_def list_all_iff)
  then have "x = r" using x(1) r inv by (auto simp: outbox_inv_def distinct_map inj_on_def)
  then show False using r(2) x(2) by simp
qed

lemma close_lease_move:
  assumes inv: "outbox_inv d" and lease: "active_lease m now d = Inr (r, a)" and closed: "closed_message r r'"
    and f: "closes f" and update: "update_outbox r' d = Inr (u, d1)"
  shows "outbox_move d (put_attempt (f a) d1)" "outbox (put_attempt (f a) d1) = put_outbox r' (outbox d)"
proof -
  note r = active_lease_Inr [OF lease]
  note row = outbox_rowD [OF inv r(3)]
  have d1: "d1 = d\<lparr>outbox := put_outbox r' (outbox d)\<rparr>"
    and unique: "unique_opt_among om_provider_message_id r' (filter (\<lambda>x. om_id x \<noteq> om_id r') (outbox d))"
    using update by (simp_all add: update_outbox_Inr)
  have id: "om_id r' = om_id r" using closed by (simp add: closed_message_def outbox_grows_def)
  have put: "put_attempt (f a) d1 = d1\<lparr>notification_attempts := close_attempts (om_id r) f (notification_attempts d1)\<rparr>"
    using row(2) r(9,10) f by (intro put_attempt_closes) (simp_all add: d1)
  have "waiting r" using r(4) by (simp add: waiting_def)
  then show "outbox_move d (put_attempt (f a) d1)"
    using unique_provider [OF inv r(3) r(8) id unique] r(3) closed f unfolding put
    by (intro outbox_move.closed [of r d r' f]) (auto simp: outbox_tables_def d1)
  show "outbox (put_attempt (f a) d1) = put_outbox r' (outbox d)" unfolding put by (simp add: d1)
qed

lemma closed_messages:
  assumes "outbox_row_ok events r" "waiting r"
  shows "closed_message r (accepted_row r pid now)"
    "s \<in> {OB_RETRY, OB_FAILED, OB_DEAD_LETTER} \<Longrightarrow> closed_message r (r\<lparr>om_state := s,
       om_lease_owner := None, om_lease_until := None, om_lease_token := None, om_safe_error_code := err, om_updated_at := t\<rparr>)"
    "s \<in> {OB_RETRY, OB_FAILED, OB_DEAD_LETTER} \<Longrightarrow> closed_message r (r\<lparr>om_state := s, om_available_at := t',
       om_lease_owner := None, om_lease_until := None, om_lease_token := None, om_safe_error_code := err, om_updated_at := t\<rparr>)"
  using waiting_row [OF assms] by (auto simp: closed_message_def outbox_grows_def accepted_row_def)

subsection \<open>Applying a delivery\<close>

definition delivered_row :: "outbox_row \<Rightarrow> resend_event_row \<Rightarrow> datetime \<Rightarrow> outbox_row" where
  "delivered_row r event now = r\<lparr>om_state := OB_DELIVERED, om_delivered_at := Some (aware (rw_event_created_at event)),
     om_safe_error_code := None, om_updated_at := now\<rparr>"

lemma apply_delivered_cases:
  assumes "apply_delivered_event sha r event now d = Inr (result, d')"
  obtains (none) "d' = d" "result = nothing_delivered False"
  | (delivered) order kind d1 where "om_state r \<noteq> OB_DELIVERED" "om_accepted_at r \<noteq> None"
      "om_provider_message_id r = Some (rw_provider_message_id event)" "rw_event_type event = ''email.delivered''"
      "find_order (om_order_id r) d = Some order" "delivery_evidence_matches sha order r d"
      "notification_kind_of (om_kind r) = Some kind"
      "o_fulfillment_state order = BITCOIN_VERIFIED \<or> o_fulfillment_state order = DELIVERED"
      "d1 = d\<lparr>outbox := put_outbox (delivered_row r event now) (outbox d)\<rparr>"
      "wr_notification_delivered result" "wr_duplicate result = False"
      "if kind = FINAL_CONFIRMATION \<or> o_fulfillment_state order = DELIVERED
       then d' = d1 \<and> \<not> wr_order_transitioned result
       else deliver_order order r kind event now d1 = Inr ((), d') \<and> wr_order_transitioned result"
proof (cases "om_state r = OB_DELIVERED \<or> om_accepted_at r = None \<or>
    om_provider_message_id r \<noteq> Some (rw_provider_message_id event) \<or> rw_event_type event \<noteq> ''email.delivered''")
  case True
  then show ?thesis using assms none by (simp add: apply_delivered_event_def)
next
  case False
  note tx = assms [unfolded apply_delivered_event_def if_not_P [OF False]]
  show ?thesis
  proof (cases "find_order (om_order_id r) d")
    case None
    then show ?thesis using tx none by simp
  next
    case order: (Some order)
    show ?thesis
    proof (cases "delivery_evidence_matches sha order r d \<and> notification_kind_of (om_kind r) \<noteq> None \<and>
        (o_fulfillment_state order = BITCOIN_VERIFIED \<or> o_fulfillment_state order = DELIVERED)")
      case no: False
      then show ?thesis using tx order none by (auto split: option.splits if_splits)
    next
      case yes: True
      then obtain kind where kind: "notification_kind_of (om_kind r) = Some kind" by auto
      define d1 where "d1 = d\<lparr>outbox := put_outbox (delivered_row r event now) (outbox d)\<rparr>"
      have "wr_notification_delivered result \<and> wr_duplicate result = False \<and>
        (if kind = FINAL_CONFIRMATION \<or> o_fulfillment_state order = DELIVERED
         then d' = d1 \<and> \<not> wr_order_transitioned result
         else deliver_order order r kind event now d1 = Inr ((), d') \<and> wr_order_transitioned result)"
        using tx order yes kind
        by (auto simp: bind_tx_Inr update_outbox_Inr d1_def delivered_row_def split: if_splits)
      then show ?thesis using delivered False order yes kind d1_def by blast
    qed
  qed
qed

lemma deliver_order_Inr:
  "deliver_order order r kind event now d = Inr (u, d') \<Longrightarrow>
     outbox_tables d' = outbox_tables d \<and> durable_jobs d' = durable_jobs d \<and> job_attempts d' = job_attempts d \<and>
     task_dispatches d' = task_dispatches d \<and> proof_versions d' = proof_versions d"
  by (auto simp: deliver_order_def bind_tx_Inr Let_def insert_state_event_def outbox_tables_def split: if_splits
      dest!: update_order_Inr)

lemma apply_delivered_outboxed:
  assumes r: "r \<in> set (outbox d)" and event: "event \<in> set (resend_webhook_events d)"
    and tx: "apply_delivered_event sha r event now d = Inr (result, d')"
  shows "outboxed d d'"
  using tx
proof (cases rule: apply_delivered_cases)
  case (delivered order kind d1)
  have "settled_message r (delivered_row r event now)" if "outbox_inv d"
    using outbox_rowD(1) [OF that r] delivered
    by (auto simp: settled_message_def outbox_grows_def delivered_row_def outbox_row_ok_def)
  then have "outboxed d d1"
    using r event delivered
    by (intro outboxed_move outbox_move.settled [of r d "delivered_row r event now"])
      (auto simp: delivered_by_def delivered_row_def outbox_tables_def)
  moreover have "outboxed d1 d'"
    using delivered(12) deliver_order_Inr by (intro outboxed_frame) (auto split: if_splits)
  ultimately show ?thesis by (rule outbox_refining.R_trans)
qed (simp add: outbox_refining.R_refl)

lemma put_attempt_tables [simp]:
  "outbox (put_attempt a d) = outbox d" "resend_webhook_events (put_attempt a d) = resend_webhook_events d"
  "evidence_tables (put_attempt a d) = evidence_tables d"
  by (simp_all add: put_attempt_def evidence_tables_def)

definition close_accepted :: "provider_acceptance \<Rightarrow> datetime \<Rightarrow> notification_attempt_row \<Rightarrow> notification_attempt_row" where
  "close_accepted acceptance now a = finish_attempt a now ''accepted'' (Some (pa_response_status acceptance))
     (Some (pa_message_id acceptance)) None"

lemma record_accepted_parts:
  assumes "record_accepted_tx sha m acceptance now d = Inr (u, d')"
  obtains r a d1 where "active_lease m now d = Inr (r, a)"
    "update_outbox (accepted_row r (pa_message_id acceptance) now) d = Inr ((), d1)"
    "case delivered_event_for (pa_message_id acceptance) (put_attempt (close_accepted acceptance now a) d1) of
        None \<Rightarrow> d' = put_attempt (close_accepted acceptance now a) d1
      | Some event \<Rightarrow> \<exists>result. apply_delivered_event sha (accepted_row r (pa_message_id acceptance) now) event (aware now)
          (put_attempt (close_accepted acceptance now a) d1) = Inr (result, d')"
  using assms
  by (auto simp: record_accepted_tx_def bind_res_Inr_iff bind_tx_Inr Let_def close_accepted_def
      split: if_splits option.splits prod.splits)

lemma closes_accepted: "closes (close_accepted acceptance now)"
  using closes_finish by (simp add: closes_def close_accepted_def finish_attempt_def)

lemma record_accepted_outboxed:
  assumes "record_accepted_tx sha m acceptance now d = Inr (u, d')"
  shows "outboxed d d'"
proof -
  let ?f = "close_accepted acceptance now"
  from assms obtain r a d1 where lease: "active_lease m now d = Inr (r, a)"
    and update: "update_outbox (accepted_row r (pa_message_id acceptance) now) d = Inr ((), d1)"
    and rest: "case delivered_event_for (pa_message_id acceptance) (put_attempt (?f a) d1) of
        None \<Rightarrow> d' = put_attempt (?f a) d1
      | Some event \<Rightarrow> \<exists>result. apply_delivered_event sha (accepted_row r (pa_message_id acceptance) now) event (aware now)
          (put_attempt (?f a) d1) = Inr (result, d')"
    by (rule record_accepted_parts)
  let ?r = "accepted_row r (pa_message_id acceptance) now" and ?d2 = "put_attempt (?f a) d1"
  have moved: "outboxed d ?d2"
  proof (rule outboxed_move)
    assume inv: "outbox_inv d"
    have "waiting r" using active_lease_Inr(4) [OF lease] by (simp add: waiting_def)
    then have "closed_message r ?r" using closed_messages(1) [OF outbox_rowD(1) [OF inv active_lease_Inr(3) [OF lease]]] by simp
    then show "outbox_move d ?d2" using close_lease_move(1) [OF inv lease _ closes_accepted update] by simp
  qed
  show ?thesis
  proof (cases "delivered_event_for (pa_message_id acceptance) ?d2")
    case None
    with rest moved show ?thesis by simp
  next
    case (Some event)
    then have "event \<in> set (resend_webhook_events ?d2)"
      by (auto simp: delivered_event_for_def dest!: first_by_in)
    moreover have "?r \<in> set (outbox ?d2)"
      using active_lease_Inr(3) [OF lease] update
      by (auto simp: update_outbox_Inr put_outbox_def set_upd_row accepted_row_def intro!: image_eqI [of _ _ r])
    moreover obtain result where "apply_delivered_event sha ?r event (aware now) ?d2 = Inr (result, d')"
      using rest Some by auto
    ultimately have "outboxed ?d2 d'" using apply_delivered_outboxed by blast
    with moved show ?thesis by (rule outbox_refining.R_trans)
  qed
qed

lemma record_failures_outboxed:
  "record_retry_tx m now retry_at err status d = Inr (u, d') \<Longrightarrow> outboxed d d'"
  "record_terminal_failure_tx m now err status d = Inr (u, d') \<Longrightarrow> outboxed d d'"
proof -
  have close: "outboxed d (put_attempt (finish_attempt a t outcome status None (Some err)) d1)"
    if lease: "active_lease m t d = Inr (r, a)" and "closed_message r r' \<or> \<not> outbox_inv d"
      and update: "update_outbox r' d = Inr (u, d1)" for t a r r' d1 outcome u
    using that close_lease_move(1) [OF _ lease _ closes_finish update] by (intro outboxed_move) auto
  have waiting: "outbox_row_ok (resend_webhook_events d) r \<and> waiting r"
    if "active_lease m t d = Inr (r, a)" "outbox_inv d" for t r a
    using active_lease_Inr(3,4) [OF that(1)] outbox_rowD(1) [OF that(2)] by (simp add: waiting_def)
  show "outboxed d d'" if "record_retry_tx m now retry_at err status d = Inr (u, d')"
  proof -
    from that obtain r a where lease: "active_lease m (aware now) d = Inr (r, a)"
      unfolding record_retry_tx_def Let_def by (auto simp: bind_res_Inr_iff split: if_splits)
    define s where "s = (if micros (om_idempotency_expires_at r) \<le> micros (aware retry_at) \<or>
      om_max_attempts r \<le> om_attempt_count r then OB_DEAD_LETTER else OB_RETRY)"
    from that lease obtain d1 outcome where
      update: "update_outbox (r\<lparr>om_state := s, om_available_at := aware retry_at, om_lease_owner := None,
          om_lease_until := None, om_lease_token := None, om_safe_error_code := Some err,
          om_updated_at := aware now\<rparr>) d = Inr ((), d1)"
      and d': "d' = put_attempt (finish_attempt a (aware now) outcome status None (Some err)) d1"
      unfolding record_retry_tx_def Let_def by (auto simp: bind_tx_Inr s_def split: if_splits)
    have "s \<in> {OB_RETRY, OB_FAILED, OB_DEAD_LETTER}" by (simp add: s_def)
    with d' show ?thesis
      using close [OF lease _ update] waiting [OF lease] closed_messages(3) by blast
  qed
  show "outboxed d d'" if "record_terminal_failure_tx m now err status d = Inr (u, d')"
  proof -
    from that obtain r a d1 where lease: "active_lease m now d = Inr (r, a)"
      and update: "update_outbox (r\<lparr>om_state := OB_FAILED, om_lease_owner := None, om_lease_until := None,
          om_lease_token := None, om_safe_error_code := Some err, om_updated_at := aware now\<rparr>) d = Inr ((), d1)"
      and d': "d' = put_attempt (finish_attempt a now ''failed'' status None (Some err)) d1"
      by (auto simp: record_terminal_failure_tx_def bind_res_Inr_iff bind_tx_Inr split: if_splits prod.splits)
    from d' show ?thesis
      using close [OF lease _ update] waiting [OF lease] closed_messages(2) [where s = OB_FAILED] by blast
  qed
qed

lemma insert_outbox_Inr:
  "insert_outbox r d = Inr (u, d') \<Longrightarrow> d' = d\<lparr>outbox := outbox d @ [r]\<rparr> \<and> unique_among om_id r (outbox d) \<and>
     unique_among om_message_key r (outbox d) \<and> outbox_check r"
  by (auto simp: insert_outbox_def split: if_splits)

lemma insert_fresh_outboxed:
  assumes "insert_outbox r d = Inr (u, d')" "0 < om_max_attempts r \<Longrightarrow> fresh_message r"
  shows "outboxed d d'"
proof -
  have "0 < om_max_attempts r" using insert_outbox_Inr [OF assms(1)] by (simp add: outbox_check_def)
  then show ?thesis
    using insert_outbox_Inr [OF assms(1)] assms(2)
    by (intro outboxed_move outbox_move.queued [of r]) (auto simp: outbox_tables_def)
qed

lemma outbox_enqueue_cases:
  assumes "outbox_enqueue_tx settings new_id m now d = Inr (u, d')"
  obtains (same) "d' = d"
  | (new) r where "insert_outbox r d = Inr (u, d')" "fresh_message r \<or> om_max_attempts r \<le> 0"
  using assms
  by (fastforce simp: outbox_enqueue_tx_def bind_res_Inr_iff Let_def fresh_message_def split: if_splits option.splits prod.splits)

lemma outbox_enqueue_outboxed:
  "outbox_enqueue_tx settings new_id m now d = Inr (u, d') \<Longrightarrow> outboxed d d'"
  by (erule outbox_enqueue_cases) (auto intro: outbox_refining.R_refl insert_fresh_outboxed)

subsection \<open>The webhook\<close>

lemma find_resend_event_Some:
  "find_resend_event svix d = Some e \<Longrightarrow> e \<in> set (resend_webhook_events d) \<and> rw_svix_event_id e = svix"
  unfolding find_resend_event_def by (auto dest: find_SomeD)

lemma find_by_provider_Some:
  "find_by_provider p d = Some r \<Longrightarrow> r \<in> set (outbox d) \<and> om_provider_message_id r = Some p"
  unfolding find_by_provider_def by (auto dest: find_SomeD)

definition event_row :: "verified_resend_event \<Rightarrow> bytes \<Rightarrow> datetime \<Rightarrow> resend_event_row" where
  "event_row event payload_sha256 now =
     \<lparr>rw_svix_event_id = vr_svix_event_id event, rw_event_type = vr_event_type event,
      rw_provider_message_id = vr_provider_message_id event, rw_payload_sha256 = payload_sha256,
      rw_event_created_at = aware (vr_event_created_at event), rw_processed_at = now, rw_created_at = now\<rparr>"

definition with_event :: "resend_event_row \<Rightarrow> db \<Rightarrow> db" where
  "with_event e d = d\<lparr>resend_webhook_events := resend_webhook_events d @ [e]\<rparr>"

definition failed_row :: "outbox_row \<Rightarrow> string \<Rightarrow> datetime \<Rightarrow> outbox_row" where
  "failed_row r event_type now = r\<lparr>om_state := OB_FAILED, om_safe_error_code := Some (failure_code event_type),
     om_updated_at := now\<rparr>"

lemma find_resend_event_with:
  "find_resend_event (rw_svix_event_id e) d = None \<Longrightarrow> find_resend_event (rw_svix_event_id e) (with_event e d) = Some e"
  by (simp add: find_resend_event_def with_event_def find_append)

text \<open>Every way a webhook is processed.\<close>

lemma process_cases:
  assumes "process_tx sha event payload_sha256 now d = Inr (result, d')"
  obtains (replay) existing where "find_resend_event (vr_svix_event_id event) d = Some existing"
      "validate_replay existing event payload_sha256 = Inr ()"
      "reconcile_replayed_event sha existing (aware now) d = Inr (result, d')"
  | (stored) e where "find_resend_event (vr_svix_event_id event) d = None" "e = event_row event payload_sha256 (aware now)"
      "d' = with_event e d" "length payload_sha256 = 32" "wr_duplicate result = False"
      "(case find_by_provider (vr_provider_message_id event) d of None \<Rightarrow> True | Some r \<Rightarrow> om_accepted_at r = None \<or>
         vr_event_type event \<noteq> ''email.delivered'')"
  | (failure) e r where "find_resend_event (vr_svix_event_id event) d = None" "e = event_row event payload_sha256 (aware now)"
      "length payload_sha256 = 32"
      "find_by_provider (vr_provider_message_id event) d = Some r" "om_state r \<noteq> OB_DELIVERED"
      "vr_event_type event \<in> set failure_event_types"
      "d' = (with_event e d)\<lparr>outbox := put_outbox (failed_row r (vr_event_type event) (aware now)) (outbox d)\<rparr>"
  | (delivery) e r result' where "find_resend_event (vr_svix_event_id event) d = None"
      "e = event_row event payload_sha256 (aware now)" "length payload_sha256 = 32"
      "find_by_provider (vr_provider_message_id event) d = Some r" "om_accepted_at r \<noteq> None"
      "vr_event_type event = ''email.delivered''"
      "apply_delivered_event sha r e (aware now) (with_event e d) = Inr (result', d')"
      "result = result'\<lparr>wr_duplicate := False\<rparr>"
proof (cases "find_resend_event (vr_svix_event_id event) d")
  case (Some existing)
  then show ?thesis
    using assms replay by (auto simp: process_tx_def Let_def bind_res_Inr_iff split: if_splits)
next
  case None
  let ?e = "event_row event payload_sha256 (aware now)"
  have len: "length payload_sha256 = 32" using assms by (auto simp: process_tx_def split: if_splits)
  have "unique_among rw_svix_event_id ?e (resend_webhook_events d)"
    using None by (auto simp: find_resend_event_def find_None unique_among_def list_all_iff event_row_def)
  then have "insert_resend_event ?e d = Inr ((), with_event ?e d)"
    using len by (simp add: insert_resend_event_def with_event_def event_row_def)
  then have ins: "insert_webhook_event event payload_sha256 (aware now) d = Inr (True, with_event ?e d)"
    using None by (simp add: insert_webhook_event_def event_row_def bind_tx_def return_tx_def)
  have found: "find_resend_event (vr_svix_event_id event) (with_event ?e d) = Some ?e"
    using None find_resend_event_with [of ?e d] by (simp add: event_row_def)
  have out: "outbox (with_event ?e d) = outbox d" by (simp add: with_event_def)
  note tx = assms [unfolded process_tx_def Let_def None option.case]
  show ?thesis
  proof (cases "find_by_provider (vr_provider_message_id event) d")
    case None': None
    then show ?thesis
      using tx ins len stored [OF None refl] by (auto simp: bind_tx_def split: if_splits)
  next
    case r: (Some r)
    note pid = find_by_provider_Some [OF r]
    consider (unaccepted) "om_accepted_at r = None" | (fail) "om_accepted_at r \<noteq> None" "vr_event_type event \<in> set failure_event_types"
      | (other) "om_accepted_at r \<noteq> None" "vr_event_type event \<notin> set failure_event_types" "vr_event_type event \<noteq> ''email.delivered''"
      | (deliver) "om_accepted_at r \<noteq> None" "vr_event_type event \<notin> set failure_event_types" "vr_event_type event = ''email.delivered''"
      by blast
    then show ?thesis
    proof cases
      case unaccepted
      then show ?thesis using tx ins len r pid stored [OF None refl] by (auto simp: bind_tx_def split: if_splits)
    next
      case fail
      then have "vr_event_type event \<noteq> ''email.delivered''" by (auto simp: failure_event_types_def)
      show ?thesis
      proof (cases "om_state r = OB_DELIVERED")
        case True
        then show ?thesis
          using tx ins len r pid fail \<open>vr_event_type event \<noteq> _\<close> stored [OF None refl] by (auto simp: bind_tx_def split: if_splits)
      next
        case False
        then have "d' = (with_event ?e d)\<lparr>outbox := put_outbox (failed_row r (vr_event_type event) (aware now)) (outbox d)\<rparr>"
          using tx ins len r pid fail
          by (auto simp: bind_tx_Inr update_outbox_Inr failed_row_def out split: if_splits)
        then show ?thesis using failure [OF None refl len r False fail(2)] by simp
      qed
    next
      case other
      then show ?thesis using tx ins len r pid stored [OF None refl] by (auto simp: bind_tx_def split: if_splits)
    next
      case deliver
      then obtain result' where "apply_delivered_event sha r ?e (aware now) (with_event ?e d) = Inr (result', d')"
        "result = result'\<lparr>wr_duplicate := False\<rparr>"
        using tx ins len r pid found by (auto simp: bind_tx_Inr split: if_splits)
      then show ?thesis using delivery [OF None refl len r] deliver by simp
    qed
  qed
qed

lemma reconcile_cases:
  assumes "reconcile_replayed_event sha event now d = Inr (result, d')"
  obtains (none) "d' = d" "result = nothing_delivered True"
      "rw_event_type event \<noteq> ''email.delivered'' \<or>
       (case find_by_provider (rw_provider_message_id event) d of None \<Rightarrow> True | Some r \<Rightarrow> om_accepted_at r = None)"
  | (applied) r result' where "rw_event_type event = ''email.delivered''"
      "find_by_provider (rw_provider_message_id event) d = Some r" "om_accepted_at r \<noteq> None"
      "apply_delivered_event sha r event now d = Inr (result', d')" "result = result'\<lparr>wr_duplicate := True\<rparr>"
  using assms
  by (auto simp: reconcile_replayed_event_def bind_tx_Inr split: if_splits option.splits)

lemma apply_delivered_events:
  "apply_delivered_event sha r event now d = Inr (result, d') \<Longrightarrow> resend_webhook_events d' = resend_webhook_events d"
  by (erule apply_delivered_cases) (auto split: if_splits dest!: deliver_order_Inr simp: outbox_tables_def)

lemma with_event_outboxed:
  "find_resend_event (rw_svix_event_id e) d = None \<Longrightarrow> outboxed d (with_event e d)"
  by (intro outboxed_move outbox_move.event_added [of e])
    (auto simp: find_resend_event_def find_None unique_among_def list_all_iff outbox_tables_def with_event_def)

lemma process_outboxed: "process_tx sha event payload_sha256 now d = Inr (result, d') \<Longrightarrow> outboxed d d'"
proof (erule process_cases)
  fix existing
  assume "find_resend_event (vr_svix_event_id event) d = Some existing"
    and "reconcile_replayed_event sha existing (aware now) d = Inr (result, d')"
  then show "outboxed d d'"
    by (auto elim!: reconcile_cases dest!: find_by_provider_Some find_resend_event_Some
        intro: outbox_refining.R_refl apply_delivered_outboxed)
next
  fix e
  assume "find_resend_event (vr_svix_event_id event) d = None" "e = event_row event payload_sha256 (aware now)"
    "d' = with_event e d"
  then show "outboxed d d'" using with_event_outboxed [of e d] by (simp add: event_row_def)
next
  fix e r
  assume none: "find_resend_event (vr_svix_event_id event) d = None" and e: "e = event_row event payload_sha256 (aware now)"
    and r: "find_by_provider (vr_provider_message_id event) d = Some r" "om_state r \<noteq> OB_DELIVERED"
    and d': "d' = (with_event e d)\<lparr>outbox := put_outbox (failed_row r (vr_event_type event) (aware now)) (outbox d)\<rparr>"
  have "outboxed d (with_event e d)" using with_event_outboxed [of e d] none e by (simp add: event_row_def)
  moreover have "outboxed (with_event e d) d'"
  proof (rule outboxed_move)
    assume inv: "outbox_inv (with_event e d)"
    have in_box: "r \<in> set (outbox (with_event e d))" "om_provider_message_id r \<noteq> None"
      using find_by_provider_Some [OF r(1)] by (simp_all add: with_event_def)
    then have "om_state r \<noteq> OB_DEAD_LETTER" using outbox_rowD(1) [OF inv] by (auto simp: outbox_row_ok_def)
    then have "settled_message r (failed_row r (vr_event_type event) (aware now))"
      using r(2) by (simp add: settled_message_def outbox_grows_def failed_row_def)
    then show "outbox_move (with_event e d) d'"
      using in_box r(2) d'
      by (intro outbox_move.settled [of r _ "failed_row r (vr_event_type event) (aware now)"])
        (auto simp: failed_row_def outbox_tables_def with_event_def)
  qed
  ultimately show "outboxed d d'" by (rule outbox_refining.R_trans)
next
  fix e r result'
  assume none: "find_resend_event (vr_svix_event_id event) d = None" and e: "e = event_row event payload_sha256 (aware now)"
    and r: "find_by_provider (vr_provider_message_id event) d = Some r"
    and ap: "apply_delivered_event sha r e (aware now) (with_event e d) = Inr (result', d')"
  have "outboxed d (with_event e d)" using with_event_outboxed [of e d] none e by (simp add: event_row_def)
  moreover have "outboxed (with_event e d) d'"
    using find_by_provider_Some [OF r] by (intro apply_delivered_outboxed [OF _ _ ap]) (simp_all add: with_event_def)
  ultimately show "outboxed d d'" by (rule outbox_refining.R_trans)
qed

end
