(* ===== verification/Delivery_Audit.thy ===== *)
theory Delivery_Audit
  imports Delivery
begin

text \<open>
  The outbox beside the other components: its transactions leave the jobs alone and change the
  orders only by the audited move to \<open>DELIVERED\<close>; its leases are fenced; a webhook may come before
  or after the acceptance it belongs to, and may come again.
\<close>

section \<open>What the outbox leaves alone\<close>

definition job_tables :: "db \<Rightarrow> job_row list \<times> job_attempt_row list \<times> dispatch_row list" where
  "job_tables d = (durable_jobs d, job_attempts d, task_dispatches d)"

definition core_tables where
  "core_tables d = (evidence_tables d, job_tables d)"

lemmas core_defs = core_tables_def evidence_tables_def job_tables_def

lemma job_safe_tables: "job_tables d' = job_tables d \<Longrightarrow> job_safe d d'"
  by (intro job_safe_frame) (simp_all add: job_tables_def attempt_keys_def dispatch_keys_def)

lemma core_simps [simp]:
  "core_tables (d\<lparr>outbox := x\<rparr>) = core_tables d"
  "core_tables (d\<lparr>notification_attempts := y\<rparr>) = core_tables d"
  "core_tables (put_attempt a d) = core_tables d"
  "core_tables (with_event e d) = core_tables d"
  by (simp_all add: core_defs put_attempt_def with_event_def)

lemma update_outbox_core: "update_outbox r d = Inr (u, d') \<Longrightarrow> core_tables d' = core_tables d"
  by (simp add: update_outbox_Inr)

lemma expire_core: "expire_each now rs d = Inr (u, d') \<Longrightarrow> core_tables d' = core_tables d"
proof (induction rs arbitrary: d)
  case (Cons r rs)
  then obtain d1 where one: "expire_one now r d = Inr ((), d1)" and rest: "expire_each now rs d1 = Inr (u, d')"
    by (auto simp: bind_tx_Inr)
  have "core_tables d1 = core_tables d"
    using one by (auto simp: expire_one_def Let_def dest!: update_outbox_core split: if_splits option.splits)
  then show ?case using Cons.IH [OF rest] by simp
qed simp

lemma attempt_core:
  "insert_notification_attempt a d = Inr (u, d') \<Longrightarrow> core_tables d' = core_tables d"
  "core_tables (expire_previous i now d) = core_tables d"
  by (auto simp: insert_notification_attempt_def expire_previous_def split: if_splits option.splits)

lemma outbox_claim_core:
  assumes "outbox_claim_tx sha token worker_id now lease_for d = Inr (c, d')"
  shows "core_tables d' = core_tables d"
proof -
  from assms obtain d1 where exp: "expire_unclaimable now d = Inr ((), d1)"
    by (auto simp: outbox_claim_tx_def bind_tx_Inr split: if_splits)
  have "core_tables d' = core_tables d1"
  proof (cases "outbox_query now d1")
    case None
    with assms exp show ?thesis by (auto simp: outbox_claim_tx_def bind_tx_def split: if_splits)
  next
    case (Some r)
    with assms exp show ?thesis
      by (auto simp: outbox_claim_tx_def bind_tx_Inr attempt_core(2) dest!: attempt_core(1) update_outbox_core split: if_splits)
  qed
  then show ?thesis using exp expire_core by (simp add: expire_unclaimable_def)
qed

lemma record_failures_core:
  "record_retry_tx m now retry_at err status d = Inr (u, d') \<Longrightarrow> core_tables d' = core_tables d"
  "record_terminal_failure_tx m now err status d = Inr (u, d') \<Longrightarrow> core_tables d' = core_tables d"
  by (auto simp: record_retry_tx_def record_terminal_failure_tx_def Let_def bind_res_Inr_iff bind_tx_Inr
      dest!: update_outbox_core split: if_splits prod.splits)

lemma outbox_enqueue_core:
  "outbox_enqueue_tx settings new_id m now d = Inr (u, d') \<Longrightarrow> core_tables d' = core_tables d"
  by (erule outbox_enqueue_cases) (auto dest!: insert_outbox_Inr)

section \<open>The delivery of an order is audited\<close>

lemma deliver_order_audited:
  assumes order: "order \<in> set (orders d)" "o_fulfillment_state order = BITCOIN_VERIFIED"
    and tx: "deliver_order order r kind event now d = Inr (u, d')"
  shows "audited sha d d'"
proof (rule audited_step)
  assume inv: "store_inv sha d"
  define order1 where "order1 = order\<lparr>o_fulfillment_state := DELIVERED, o_updated_at := now\<rparr>"
  from tx obtain e d1 where upd: "update_order order1 d = Inr ((), d1)" and ev: "insert_state_event e d1 = Inr ((), d')"
    and e: "records_move e order order1" "ev_sequence e = next_sequence (o_id order) d1"
    by (auto simp: deliver_order_def bind_tx_Inr Let_def order1_def records_move_def)
  have "order1 \<noteq> order"
  proof
    assume "order1 = order"
    then have "o_fulfillment_state order1 = o_fulfillment_state order" by simp
    then show False using order(2) by (simp add: order1_def)
  qed
  then have "flush_order order order1 d = Inr ((), d1)" using upd by (simp add: flush_order_def)
  moreover have "next_sequence (o_id order) d1 = next_sequence (o_id order) d"
    using update_order_Inr [OF upd] by (simp add: next_sequence_def)
  ultimately show "audit_step sha d d'"
    using inv order ev e
    by (intro flush_moved [of sha d order order1 _ d1 e])
      (auto simp: order1_def order_keeps_def same_snapshot_fields_def legal_move_def legal_fulfillment_def)
qed

lemma apply_delivered_audited:
  "apply_delivered_event sha' r event now d = Inr (result, d') \<Longrightarrow> audited sha d d'"
proof (erule apply_delivered_cases)
  fix order kind d1
  assume find: "find_order (om_order_id r) d = Some order"
    and state: "o_fulfillment_state order = BITCOIN_VERIFIED \<or> o_fulfillment_state order = DELIVERED"
    and d1: "d1 = d\<lparr>outbox := put_outbox (delivered_row r event now) (outbox d)\<rparr>"
    and outcome: "if kind = FINAL_CONFIRMATION \<or> o_fulfillment_state order = DELIVERED
       then d' = d1 \<and> \<not> wr_order_transitioned result
       else deliver_order order r kind event now d1 = Inr ((), d') \<and> wr_order_transitioned result"
  have "audited sha d d1" by (rule audited_frame) (simp add: d1 evidence_tables_def)
  moreover have "audited sha d1 d'"
  proof (cases "kind = FINAL_CONFIRMATION \<or> o_fulfillment_state order = DELIVERED")
    case False
    then show ?thesis
      using outcome state find_order_Some [OF find] by (intro deliver_order_audited [of order d1]) (auto simp: d1)
  qed (use outcome in \<open>simp add: audit_keeping.R_refl\<close>)
  ultimately show "audited sha d d'" by (rule audit_keeping.R_trans)
qed (simp add: audit_keeping.R_refl)

lemma apply_delivered_jobs:
  "apply_delivered_event sha r event now d = Inr (result, d') \<Longrightarrow> job_tables d' = job_tables d"
  by (erule apply_delivered_cases) (auto simp: job_tables_def split: if_splits dest!: deliver_order_Inr)

lemma core_audited: "core_tables d' = core_tables d \<Longrightarrow> audited sha d d'"
  by (rule audited_frame) (simp add: core_tables_def)

lemma core_jobs: "core_tables d' = core_tables d \<Longrightarrow> job_tables d' = job_tables d"
  by (simp add: core_tables_def)

lemma record_accepted_audited:
  assumes "record_accepted_tx sha' m acceptance now d = Inr (u, d')"
  shows "audited sha d d'" "job_tables d' = job_tables d"
proof -
  from assms obtain r a d1 where upd: "update_outbox (accepted_row r (pa_message_id acceptance) now) d = Inr ((), d1)"
    and rest: "case delivered_event_for (pa_message_id acceptance) (put_attempt (close_accepted acceptance now a) d1) of
        None \<Rightarrow> d' = put_attempt (close_accepted acceptance now a) d1
      | Some event \<Rightarrow> \<exists>result. apply_delivered_event sha' (accepted_row r (pa_message_id acceptance) now) event (aware now)
          (put_attempt (close_accepted acceptance now a) d1) = Inr (result, d')"
    by (rule record_accepted_parts)
  let ?d2 = "put_attempt (close_accepted acceptance now a) d1"
  have core: "core_tables ?d2 = core_tables d" using update_outbox_core [OF upd] by simp
  have "audited sha ?d2 d' \<and> job_tables d' = job_tables ?d2"
    using rest apply_delivered_audited [of sha' _ _ _ ?d2 _ d' sha] apply_delivered_jobs [of sha' _ _ _ ?d2 _ d']
    by (auto intro: audit_keeping.R_refl split: option.splits)
  then show "audited sha d d'" "job_tables d' = job_tables d"
    using core_audited [OF core] core_jobs [OF core] by (auto intro: audit_keeping.R_trans)
qed

lemma process_audited:
  assumes "process_tx sha' event payload_sha256 now d = Inr (result, d')"
  shows "audited sha d d'" "job_tables d' = job_tables d"
proof -
  have "audited sha d d' \<and> job_tables d' = job_tables d"
    using assms
  proof (cases rule: process_cases)
    case (replay existing)
    then show ?thesis
      by (auto elim!: reconcile_cases intro: audit_keeping.R_refl apply_delivered_audited dest: apply_delivered_jobs)
  next
    case (stored e)
    then have "core_tables d' = core_tables d" by simp
    then show ?thesis using core_audited core_jobs by blast
  next
    case (failure e r)
    then have "core_tables d' = core_tables d" by simp
    then show ?thesis using core_audited core_jobs by blast
  next
    case (delivery e r result')
    have core: "core_tables (with_event e d) = core_tables d" by simp
    show ?thesis
      using audit_keeping.R_trans [OF core_audited [OF core] apply_delivered_audited [OF delivery(7), of sha]]
        apply_delivered_jobs [OF delivery(7)] core_jobs [OF core] by simp
  qed
  then show "audited sha d d'" "job_tables d' = job_tables d" by simp_all
qed

end
