(* ===== verification/Notices.thy ===== *)
theory Notices
  imports Delivery_Audit
begin

text \<open>
  The properties of the notification outbox: the invariant of every reachable state, fencing of
  its leases, when a message may be sent, and how webhooks of the mail provider are absorbed
  whatever their order and however often they come.
\<close>

section \<open>Steps of the outbox\<close>

inductive outbox_step :: "(bytes \<Rightarrow> bytes) \<Rightarrow> db \<Rightarrow> db \<Rightarrow> bool" for sha where
  enqueued: "outbox_enqueue_tx settings new_id m now d = Inr (u, d') \<Longrightarrow> outbox_step sha d d'"
| payment_notice: "insert_outbox r d = Inr (u, d') \<Longrightarrow> fresh_message r \<Longrightarrow> outbox_step sha d d'"
| claimed: "outbox_claim_tx sha token worker_id now lease_for d = Inr (c, d') \<Longrightarrow> outbox_step sha d d'"
| accepted: "record_accepted_tx sha m acceptance now d = Inr (u, d') \<Longrightarrow> outbox_step sha d d'"
| retried: "record_retry_tx m now retry_at err status d = Inr (u, d') \<Longrightarrow> outbox_step sha d d'"
| failed: "record_terminal_failure_tx m now err status d = Inr (u, d') \<Longrightarrow> outbox_step sha d d'"
| webhook: "process_tx sha event payload_sha256 now d = Inr (result, d') \<Longrightarrow> outbox_step sha d d'"
| elsewhere: "outbox_tables d' = outbox_tables d \<Longrightarrow> outbox_step sha d d'"

lemmas outbox_txs = outbox_enqueue_outboxed outbox_claim_outboxed record_accepted_outboxed record_failures_outboxed
  process_outboxed

lemma outbox_step_outboxed: "outbox_step sha d d' \<Longrightarrow> outboxed d d'"
  by (induction rule: outbox_step.induct) (auto intro: outbox_txs insert_fresh_outboxed outboxed_frame)

lemma outbox_step_safe: "outbox_step sha d d' \<Longrightarrow> outbox_safe d d'"
  using outbox_step_outboxed outboxed_safe by blast

lemma outbox_steps_safe: "(outbox_step sha)\<^sup>*\<^sup>* d d' \<Longrightarrow> outbox_safe d d'"
  by (induction rule: rtranclp_induct)
    (auto intro: outbox_keeping.R_refl outbox_keeping.R_trans outbox_step_safe)

lemma outbox_inv_empty: "outbox_inv empty_db"
  by (simp add: outbox_inv_def empty_db_def)

section \<open>Fencing\<close>

definition outbox_attempt_count :: "db \<Rightarrow> uuid \<Rightarrow> int" where
  "outbox_attempt_count d i = (case find_outbox i d of None \<Rightarrow> 0 | Some r \<Rightarrow> om_attempt_count r)"

definition outbox_claims :: "(bytes \<Rightarrow> bytes) \<Rightarrow> db \<Rightarrow> uuid \<Rightarrow> int \<Rightarrow> db \<Rightarrow> bool" where
  "outbox_claims sha d i n d' \<longleftrightarrow> (\<exists>c token worker_id now lease_for. cn_id c = uuid_str i \<and> cn_attempt c = n \<and>
     outbox_claim_tx sha token worker_id now lease_for d = Inr (Some c, d'))"

definition outbox_completes :: "(bytes \<Rightarrow> bytes) \<Rightarrow> db \<Rightarrow> uuid \<Rightarrow> int \<Rightarrow> bool" where
  "outbox_completes sha d i n \<longleftrightarrow> (\<exists>c x. cn_id c = uuid_str i \<and> cn_attempt c = n \<and>
     ((\<exists>acceptance now. record_accepted_tx sha c acceptance now d = Inr x) \<or>
      (\<exists>now retry_at err status. record_retry_tx c now retry_at err status d = Inr x) \<or>
      (\<exists>now err status. record_terminal_failure_tx c now err status d = Inr x)))"

lemma completes_lease:
  assumes "outbox_completes sha d i n"
  obtains c now r a where "cn_id c = uuid_str i" "cn_attempt c = n" "active_lease c now d = Inr (r, a)"
  using assms
  by (fastforce simp: outbox_completes_def record_accepted_tx_def record_retry_tx_def record_terminal_failure_tx_def
      bind_res_Inr_iff Let_def split: if_splits)

definition counts :: "outbox_row list \<Rightarrow> (uuid \<times> int) list" where
  "counts rows = map (\<lambda>r. (om_id r, om_attempt_count r)) rows"

lemma outbox_attempt_count_counts:
  "outbox_attempt_count d i = (case map_of (counts (outbox d)) i of None \<Rightarrow> 0 | Some n \<Rightarrow> n)"
proof -
  have "map_of (counts rows) i = map_option om_attempt_count (find (\<lambda>r. om_id r = i) rows)" for rows
    by (induction rows) (auto simp: counts_def)
  then show ?thesis by (simp add: outbox_attempt_count_def find_outbox_def split: option.splits)
qed

lemma put_outbox_counts:
  assumes "distinct (map om_id rows)" "r \<in> set rows" "om_id r' = om_id r" "om_attempt_count r' = om_attempt_count r"
  shows "counts (put_outbox r' rows) = counts rows"
proof -
  have "y = r" if "y \<in> set rows" "om_id y = om_id r'" for y
    using that assms by (auto simp: distinct_map inj_on_def)
  then show ?thesis using assms(4) by (auto simp: counts_def put_outbox_def upd_row_def)
qed

lemma expire_counts:
  "expire_each now rs d = Inr (u, d') \<Longrightarrow> set rs \<subseteq> set (outbox d) \<Longrightarrow> distinct (map om_id (outbox d)) \<Longrightarrow>
     distinct (map om_id rs) \<Longrightarrow> counts (outbox d') = counts (outbox d)"
proof (induction rs arbitrary: d)
  case (Cons r rs)
  then obtain d1 where one: "expire_one now r d = Inr ((), d1)" and rest: "expire_each now rs d1 = Inr (u, d')"
    by (auto simp: bind_tx_Inr)
  have out: "outbox d1 = put_outbox (expired_row now r) (outbox d)"
    using one by (auto simp: expire_one_def Let_def update_outbox_Inr expired_row_def split: if_splits option.splits)
  have r: "r \<in> set (outbox d)" using Cons.prems by simp
  have same: "om_id (expired_row now r) = om_id r" "om_message_key (expired_row now r) = om_message_key r"
    "om_attempt_count (expired_row now r) = om_attempt_count r" by (simp_all add: expired_row_def)
  have "x \<in> set (outbox d1)" if x: "x \<in> set rs" for x
  proof -
    have "om_id x \<noteq> om_id r"
      using x Cons.prems(4) by (metis distinct.simps(2) image_eqI list.set_map list.simps(9))
    moreover have "x \<in> set (outbox d)" using x Cons.prems(2) by auto
    ultimately show ?thesis using put_outbox_unique [OF Cons.prems(3) r same(1)] by (simp add: out)
  qed
  then have "set rs \<subseteq> set (outbox d1)" by blast
  moreover have "distinct (map om_id (outbox d1))"
    using Cons.prems(3) by (simp add: out put_outbox_maps(1) [OF Cons.prems(3) r same(1,2)])
  ultimately have "counts (outbox d') = counts (outbox d1)" using Cons.IH [OF rest] Cons.prems(4) by simp
  then show ?case by (simp add: out put_outbox_counts [OF Cons.prems(3) r same(1,3)])
qed simp

lemma expire_unclaimable_counts:
  assumes "outbox_inv d" "expire_unclaimable now d = Inr (u, d')"
  shows "outbox_attempt_count d' i = outbox_attempt_count d i"
proof -
  let ?rs = "take 100 (filter (unclaimable now) (outbox d))"
  have dist: "distinct (map om_id (outbox d))" using assms(1) by (simp add: outbox_inv_def)
  then have "distinct (map om_id ?rs)" by (simp add: take_map [symmetric] distinct_map_filter)
  moreover have "set ?rs \<subseteq> set (outbox d)" using set_take_subset [of 100 "filter (unclaimable now) (outbox d)"] by auto
  ultimately have "counts (outbox d') = counts (outbox d)"
    using expire_counts assms(2) dist by (simp add: expire_unclaimable_def)
  then show ?thesis by (simp add: outbox_attempt_count_counts)
qed

lemma claimed_of_fields:
  "claimed_of sha r n worker_id token until = Inr m \<Longrightarrow> cn_id m = uuid_str (om_id r) \<and> cn_attempt m = n \<and>
     cn_lease_token m = token \<and> cn_lease_owner m = worker_id \<and> cn_message_key m = om_message_key r \<and>
     cn_recipient m = om_recipient r \<and> om_proof_version r = Some (cn_proof_version m) \<and>
     om_confirmation_count r = Some (cn_confirmation_count m) \<and> om_kind r = kind_value (cn_kind m)"
  by (auto simp: claimed_of_def notification_kind_of_def bind_res_Inr_iff split: option.splits if_splits)

lemma take_lease_fields [simp]:
  "om_id (take_lease r w t now l) = om_id r" "om_attempt_count (take_lease r w t now l) = om_attempt_count r + 1"
  by (simp_all add: take_lease_def)

lemma outbox_claim_counts:
  assumes inv: "outbox_inv d" and claim: "outbox_claim_tx sha token worker_id now lease_for d = Inr (Some m, d')"
    and id: "cn_id m = uuid_str i"
  shows "cn_attempt m = outbox_attempt_count d i + 1 \<and> outbox_attempt_count d' i = cn_attempt m"
proof -
  from claim obtain d0 where exp: "expire_unclaimable now d = Inr ((), d0)"
    by (auto simp: outbox_claim_tx_def bind_tx_Inr split: if_splits)
  have inv0: "outbox_inv d0" using outboxed_inv [OF expire_unclaimable_outboxed [OF exp] inv] .
  from claim exp obtain r where query: "outbox_query now d0 = Some r"
    and m: "claimed_of sha r (om_attempt_count r + 1) worker_id (uuid_str token) (dt_add now lease_for) = Inr m"
    and out: "outbox d' = put_outbox (take_lease r worker_id (uuid_str token) now lease_for) (outbox d0)"
    by (cases "outbox_query now d0")
      (auto simp: outbox_claim_tx_def bind_tx_Inr bind_res_Inr_iff update_outbox_Inr insert_notification_attempt_def
        expire_previous_def split: if_splits option.splits)
  have r: "r \<in> set (outbox d0)" using outbox_query_Some [OF query] by simp
  have i: "om_id r = i" "cn_attempt m = om_attempt_count r + 1" using claimed_of_fields [OF m] id by auto
  have "outbox_attempt_count d0 i = om_attempt_count r"
    using find_outbox_member [OF inv0 r] i by (simp add: outbox_attempt_count_def)
  moreover have "find_outbox i d' = Some (take_lease r worker_id (uuid_str token) now lease_for)"
  proof -
    have inv': "outbox_inv d'" using outboxed_inv [OF outbox_claim_outboxed [OF claim] inv] .
    have "take_lease r worker_id (uuid_str token) now lease_for \<in> set (outbox d')"
      using inv0 put_outbox_unique [OF _ r] by (simp add: out outbox_inv_def)
    then show ?thesis using find_outbox_member [OF inv'] i by force
  qed
  ultimately show ?thesis
    using i expire_unclaimable_counts [OF inv exp, of i] by (simp add: outbox_attempt_count_def)
qed

interpretation outbox_fence: fenced_leases outbox_inv "outbox_step sha" outbox_attempt_count "outbox_claims sha" "outbox_completes sha"
proof
  show "outbox_inv t" if "outbox_inv s" "outbox_step sha s t" for s t
    using that outbox_step_safe by (auto simp: outbox_safe_def)
  show "outbox_attempt_count s k \<le> outbox_attempt_count t k" if "outbox_inv s" "outbox_step sha s t" for s t k
  proof -
    have inv: "outbox_inv t" and le: "outbox_le s t"
      using outbox_step_safe [OF that(2)] that(1) by (simp_all add: outbox_safe_def)
    show ?thesis
    proof (cases "find_outbox k s")
      case None
      have "0 \<le> om_attempt_count r" if "find_outbox k t = Some r" for r
        using outbox_rowD(1) [OF inv] find_outbox_Some [OF that] by (auto simp: outbox_row_ok_def)
      with None show ?thesis by (simp add: outbox_attempt_count_def split: option.splits)
    next
      case (Some r)
      then obtain r' where "r' \<in> set (outbox t)" "outbox_grows r r'"
        using le find_outbox_Some [OF Some] by (auto simp: outbox_le_def)
      moreover then have "find_outbox k t = Some r'"
        using find_outbox_member [OF inv] find_outbox_Some [OF Some] by (auto simp: outbox_grows_def)
      ultimately show ?thesis using Some by (simp add: outbox_attempt_count_def outbox_grows_def)
    qed
  qed
  show "outbox_step sha s t" if "outbox_inv s" "outbox_claims sha s k n t" for s k n t
    using that by (auto simp: outbox_claims_def intro: outbox_step.intros)
  show "n = outbox_attempt_count s k + 1 \<and> outbox_attempt_count t k = n"
    if "outbox_inv s" "outbox_claims sha s k n t" for s k n t
    using that outbox_claim_counts by (auto simp: outbox_claims_def)
  show "n = outbox_attempt_count s k" if "outbox_inv s" "outbox_completes sha s k n" for s k n
    using that(2)
  proof (rule completes_lease)
    fix c now r a
    assume c: "cn_id c = uuid_str k" "cn_attempt c = n" and lease: "active_lease c now s = Inr (r, a)"
    note fields = active_lease_Inr [OF lease]
    then have "om_id r = k" using c by simp
    then show ?thesis using fields c by (simp add: outbox_attempt_count_def)
  qed
qed

section \<open>A sample outbox\<close>

definition sample_verified_order :: order_row where
  "sample_verified_order = sample_order\<lparr>o_fulfillment_state := BITCOIN_VERIFIED\<rparr>"

definition sample_observation :: observation_row where
  "sample_observation = \<lparr>ob_id = 41, ob_order_id = 7, ob_proof_version = 1, ob_observed_confirmations = 2,
     ob_block_height = 10, ob_block_hash = replicate 64 (CHR ''a''), ob_method = ''rpc'', ob_confirmation_policy = ''p'',
     ob_observed_at = Aware 5, ob_event_key = ''k'', ob_created_at = Aware 5\<rparr>"

definition sample_verification :: verification_row where
  "sample_verification = \<lparr>ve_order_id = 7, ve_proof_version = 1, ve_method = ''rpc'', ve_verified_at = Aware 5,
     ve_block_height = 10, ve_block_hash = replicate 64 (CHR ''a''), ve_block_time = Aware 4,
     ve_confirmation_policy = ''p'', ve_created_at = Aware 5\<rparr>"

definition sample_bundle :: bundle_row where
  "sample_bundle = \<lparr>pb_order_id = 7, pb_proof_version = 1, pb_bundle_bytes = [80, 75], pb_bundle_sha256 = sample_sha [80, 75],
     pb_bundle_byte_length = 2, pb_created_at = Aware 6\<rparr>"

definition sample_message :: outbox_row where
  "sample_message =
     \<lparr>om_id = 31, om_message_key = message_key_of INITIAL_CONFIRMATION 1 (o_order_reference sample_order), om_order_id = 7,
      om_kind = kind_value INITIAL_CONFIRMATION, om_recipient = ''a@b.test'',
      om_payload = payload_of (kind_value INITIAL_CONFIRMATION) (o_order_reference sample_order),
      om_state = OB_AVAILABLE, om_attempt_count = 0, om_max_attempts = 12, om_available_at = Aware 7,
      om_lease_owner = None, om_lease_until = None, om_lease_token = None, om_proof_version = Some 1,
      om_confirmation_count = Some 2, om_confirmation_observation_id = Some 41, om_provider_message_id = None,
      om_accepted_at = None, om_delivered_at = None, om_idempotency_expires_at = Aware (7 + hours 24),
      om_safe_error_code = None, om_created_at = Aware 7, om_updated_at = Aware 7\<rparr>"

definition sample_ready :: db where
  "sample_ready = sample_proven\<lparr>orders := [sample_verified_order], proof_verifications := [sample_verification],
     confirmation_observations := [sample_observation], proof_bundles := [sample_bundle], outbox := [sample_message]\<rparr>"

abbreviation sample_claimed :: claimed_notification where
  "sample_claimed \<equiv>
     \<lparr>cn_id = uuid_str 31, cn_message_key = om_message_key sample_message, cn_order_reference = o_order_reference sample_order,
      cn_kind = INITIAL_CONFIRMATION, cn_recipient = ''a@b.test'', cn_proof_version = 1, cn_confirmation_count = 2,
      cn_attempt = 1, cn_lease_owner = ''w'', cn_lease_token = uuid_str 51, cn_lease_until = Aware (8 + seconds 30),
      cn_idempotency_key = ''resend-'' @ hex (sample_sha (utf8 (om_message_key sample_message)))\<rparr>"

definition sample_sending :: db where
  "sample_sending = sample_ready\<lparr>outbox := [take_lease sample_message ''w'' (uuid_str 51) (Aware 8) (seconds 30)],
     notification_attempts := [opened_notification sample_message ''w'' (uuid_str 51) (Aware 8)]\<rparr>"

lemma sample_kinds [simp]:
  "notification_kind_of ''bitcoin-confirmed-initial'' = Some INITIAL_CONFIRMATION"
  "notification_kind_of ''bitcoin-confirmed-final'' = Some FINAL_CONFIRMATION"
  "list_all (\<lambda>c. code c < 128) (message_key_of INITIAL_CONFIRMATION 1 ''ts_01ARZ3NDEKTSV4RRFFQ69G5FAV'')"
  by code_simp+

lemma sample_tables:
  "outbox sample_ready = [sample_message]" "notification_attempts sample_ready = []"
  "resend_webhook_events sample_ready = []" "orders sample_ready = [sample_verified_order]"
  "outbox sample_sending = [take_lease sample_message ''w'' (uuid_str 51) (Aware 8) (seconds 30)]"
  "notification_attempts sample_sending = [opened_notification sample_message ''w'' (uuid_str 51) (Aware 8)]"
  "resend_webhook_events sample_sending = []"
  by (simp_all add: sample_ready_def sample_sending_def sample_proven_def sample_store_def sample_db_def empty_db_def)

lemma sample_ready_inv: "outbox_inv sample_ready"
  by (simp add: outbox_inv_def sample_tables sample_message_def outbox_row_ok_def attempts_ok_def attempts_of_def
      open_leases_def waiting_def)

lemma sample_outbox_claim:
  "outbox_claim_tx sample_sha 51 ''w'' (Aware 8) (seconds 30) sample_ready = Inr (Some sample_claimed, sample_sending)"
proof -
  have fresh: "filter (unclaimable (Aware 8)) [sample_message] = []"
    by (simp add: unclaimable_def sample_message_def outbox_exhausted_def duration_defs)
  have exp: "expire_unclaimable (Aware 8) sample_ready = Inr ((), sample_ready)"
    by (simp add: expire_unclaimable_def sample_tables fresh return_tx_def del: filter.simps)
  have query: "outbox_query (Aware 8) sample_ready = Some sample_message"
    by (simp add: outbox_query_def sample_tables outbox_claimable_def outbox_open_def SUPPORTED_KINDS_def sample_message_def
        duration_defs)
  have still: "length (filter (still_as_read sample_message) (outbox sample_ready)) = 1"
    by (simp add: sample_tables still_as_read_def sample_message_def)
  have claimed: "claimed_of sample_sha sample_message 1 ''w'' (uuid_str 51) (Aware (8 + seconds 30)) = Inr sample_claimed"
    by (simp add: claimed_of_def sample_message_def payload_of_def OrderReference_def sample_usd sample_order_def)
  have update: "update_outbox (take_lease sample_message ''w'' (uuid_str 51) (Aware 8) (seconds 30)) sample_ready =
      Inr ((), sample_ready\<lparr>outbox := [take_lease sample_message ''w'' (uuid_str 51) (Aware 8) (seconds 30)]\<rparr>)"
    by (simp add: update_outbox_def sample_tables outbox_check_def unique_defs take_lease_def sample_message_def upd_row_def)
  have zero: "om_attempt_count sample_message = 0" "om_id sample_message = 31" by (simp_all add: sample_message_def)
  show ?thesis
    using exp query still claimed update zero
    by (simp add: outbox_claim_tx_def bind_tx_def duration_defs lift_tx_def insert_notification_attempt_def expire_previous_def
        sample_tables unique_defs sample_sending_def opened_notification_def dt_add_def)
qed

lemma sample_sending_inv: "outbox_inv sample_sending"
  using outboxed_inv [OF outbox_claim_outboxed [OF sample_outbox_claim] sample_ready_inv] .

section \<open>Properties\<close>

text \<open>C32. In every state the outbox can reach, a message has used at most its maximum of attempts, recorded as
  1, 2, ..., n; it has an owner exactly while it is leased; once the provider accepted it, it is never
  available, retried or leased again; and it is delivered only if an \<open>email.delivered\<close> event for its
  provider identifier is stored.\<close>

theorem notification_invariant_reachable:
  assumes "(outbox_step sha)\<^sup>*\<^sup>* empty_db d" and "r \<in> set (outbox d)"
  shows "0 \<le> om_attempt_count r \<and> om_attempt_count r \<le> om_max_attempts r \<and>
     map na_attempt_number (filter (\<lambda>a. na_outbox_id a = om_id r) (notification_attempts d)) = [1..om_attempt_count r] \<and>
     (om_state r = OB_LEASED \<longleftrightarrow> om_lease_owner r \<noteq> None) \<and>
     (om_accepted_at r \<noteq> None \<longrightarrow> om_state r \<in> {OB_ACCEPTED, OB_FAILED, OB_DELIVERED}) \<and>
     (om_state r = OB_DELIVERED \<longrightarrow> (\<exists>e \<in> set (resend_webhook_events d). rw_event_type e = ''email.delivered'' \<and>
        om_provider_message_id r = Some (rw_provider_message_id e)))"
proof -
  have "outbox_inv d"
    using outbox_steps_safe [OF assms(1)] outbox_inv_empty by (simp add: outbox_safe_def)
  note facts = outbox_rowD [OF this assms(2)]
  have "om_accepted_at r \<noteq> None \<longrightarrow> om_state r \<in> {OB_ACCEPTED, OB_FAILED, OB_DELIVERED}"
    using facts(1) by (cases "om_state r") (auto simp: outbox_row_ok_def waiting_def)
  then show ?thesis
    using facts unfolding outbox_row_ok_def attempts_ok_def attempts_of_def delivered_by_def by blast
qed

theorem notification_invariant_reachable_witness:
  "\<exists>d r. (outbox_step sample_sha)\<^sup>*\<^sup>* empty_db d \<and> r \<in> set (outbox d) \<and> om_attempt_count r = 1 \<and>
     om_attempt_count r \<le> om_max_attempts r"
proof -
  define d0 where "d0 = sample_ready\<lparr>outbox := []\<rparr>"
  have 1: "outbox_step sample_sha empty_db d0"
    by (rule outbox_step.elsewhere) (simp add: outbox_tables_def d0_def sample_tables empty_db_def)
  have "insert_outbox sample_message d0 = Inr ((), sample_ready)"
    by (simp add: insert_outbox_def unique_defs d0_def sample_tables outbox_check_def find_order_def)
      (simp add: sample_message_def sample_ready_def sample_verified_order_def sample_order_def sample_observation_def)
  moreover have "fresh_message sample_message" by (simp add: fresh_message_def sample_message_def)
  ultimately have 2: "outbox_step sample_sha d0 sample_ready" by (rule outbox_step.payment_notice)
  have 3: "outbox_step sample_sha sample_ready sample_sending" by (rule outbox_step.claimed [OF sample_outbox_claim])
  have reach: "(outbox_step sample_sha)\<^sup>*\<^sup>* empty_db sample_sending" using 1 2 3 by simp
  have "take_lease sample_message ''w'' (uuid_str 51) (Aware 8) (seconds 30) \<in> set (outbox sample_sending)"
    by (simp add: sample_tables)
  moreover have "om_attempt_count (take_lease sample_message ''w'' (uuid_str 51) (Aware 8) (seconds 30)) = 1"
    by (simp add: sample_message_def)
  ultimately show ?thesis using notification_invariant_reachable [OF reach] reach by blast
qed

text \<open>C37. Fencing of the outbox: once a message was claimed again, the worker of the earlier claim can record
  neither acceptance nor retry nor failure, whatever happened in between.\<close>

theorem stale_notification_rejected:
  assumes "outbox_inv d0" and "outbox_claim_tx sha k1 w1 t1 l1 d0 = Inr (Some m, d1)" and "(outbox_step sha)\<^sup>*\<^sup>* d1 d2"
    and "outbox_claim_tx sha k2 w2 t2 l2 d2 = Inr (Some m', d3)" and "cn_id m' = cn_id m"
    and "(outbox_step sha)\<^sup>*\<^sup>* d3 d4"
  shows "(\<exists>e. record_accepted_tx sha m acceptance now d4 = Inl e) \<and>
     (\<exists>e. record_retry_tx m now retry_at err status d4 = Inl e) \<and>
     (\<exists>e. record_terminal_failure_tx m now err status d4 = Inl e)"
proof -
  obtain i where m: "cn_id m = uuid_str i"
    using assms(2) by (cases rule: outbox_claim_effect [OF assms(1)]) (auto dest!: claimed_of_fields)
  have claims: "outbox_claims sha d0 i (cn_attempt m) d1" "outbox_claims sha d2 i (cn_attempt m') d3"
    unfolding outbox_claims_def using assms(2,4,5) m by metis+
  have "\<not> outbox_completes sha d4 i (cn_attempt m)"
    using outbox_fence.stale_holder_rejected [OF assms(1) claims(1) assms(3) claims(2) assms(6)] .
  then show ?thesis
    using m unfolding outbox_completes_def by (metis sum.exhaust)
qed

lemma sample_reclaim:
  "\<exists>m d3. outbox_claim_tx sample_sha 52 ''w2'' (Aware (8 + seconds 60)) (seconds 30) sample_sending = Inr (Some m, d3) \<and>
     cn_id m = uuid_str 31"
proof -
  let ?r = "take_lease sample_message ''w'' (uuid_str 51) (Aware 8) (seconds 30)" and ?now = "Aware (8 + seconds 60)"
  have claimable: "filter (unclaimable ?now) [?r] = []" "outbox_claimable ?now ?r"
    by (simp_all add: unclaimable_def outbox_claimable_def outbox_open_def lease_expired_def outbox_exhausted_def
        take_lease_def sample_message_def duration_defs dt_add_def SUPPORTED_KINDS_def)
  then have exp: "expire_unclaimable ?now sample_sending = Inr ((), sample_sending)"
    by (simp only: expire_unclaimable_def sample_tables take_Nil expire_each.simps return_tx_def)
  have query: "outbox_query ?now sample_sending = Some ?r"
    using claimable(2) by (simp add: outbox_query_def sample_tables)
  have still: "length (filter (still_as_read ?r) (outbox sample_sending)) = 1"
    by (simp add: sample_tables still_as_read_def take_lease_def sample_message_def)
  have claimed: "\<exists>m. claimed_of sample_sha ?r 2 ''w2'' (uuid_str 52) (dt_add ?now (seconds 30)) = Inr m \<and> cn_id m = uuid_str 31"
    by (simp add: claimed_of_def take_lease_def sample_message_def payload_of_def OrderReference_def sample_usd sample_order_def)
  have two: "om_attempt_count ?r + 1 = 2" "om_id ?r = 31" by (simp_all add: sample_message_def)
  have "\<exists>d2. update_outbox (take_lease ?r ''w2'' (uuid_str 52) ?now (seconds 30)) sample_sending = Inr ((), d2) \<and>
      outbox d2 = [take_lease ?r ''w2'' (uuid_str 52) ?now (seconds 30)] \<and>
      notification_attempts d2 = notification_attempts sample_sending"
    by (simp add: update_outbox_def sample_tables outbox_check_def unique_defs take_lease_def sample_message_def upd_row_def)
  then obtain d2 where d2: "update_outbox (take_lease ?r ''w2'' (uuid_str 52) ?now (seconds 30)) sample_sending = Inr ((), d2)"
    "outbox d2 = [take_lease ?r ''w2'' (uuid_str 52) ?now (seconds 30)]"
    "notification_attempts d2 = notification_attempts sample_sending" by blast
  have "\<exists>d3. insert_notification_attempt (opened_notification ?r ''w2'' (uuid_str 52) ?now) (expire_previous 31 ?now d2) =
      Inr ((), d3)"
    using d2(2,3)
    by (simp add: insert_notification_attempt_def expire_previous_def sample_tables unique_defs is_open_notification_def
        opened_notification_def put_attempt_def upd_row_def sample_message_def)
  then show ?thesis
    using exp query still claimed two d2(1)
    by (auto simp: outbox_claim_tx_def bind_tx_def duration_defs lift_tx_def opened_notification_def)
qed

theorem stale_notification_rejected_witness:
  "\<exists>d3. (\<exists>m. outbox_claim_tx sample_sha 52 ''w2'' (Aware (8 + seconds 60)) (seconds 30) sample_sending = Inr (Some m, d3)) \<and>
     (\<exists>e. record_accepted_tx sample_sha sample_claimed \<lparr>pa_message_id = ''pm1'', pa_response_status = 200\<rparr> (Aware 9) d3 = Inl e)"
proof -
  obtain m d3 where m: "outbox_claim_tx sample_sha 52 ''w2'' (Aware (8 + seconds 60)) (seconds 30) sample_sending = Inr (Some m, d3)"
    "cn_id m = uuid_str 31" using sample_reclaim by blast
  have "cn_id m = cn_id sample_claimed" using m(2) by simp
  from stale_notification_rejected [OF sample_ready_inv sample_outbox_claim rtranclp.rtrancl_refl m(1) this rtranclp.rtrancl_refl]
  show ?thesis using m(1) by blast
qed

text \<open>What expiry leaves in the outbox.\<close>

lemma expire_survivors:
  assumes "outbox_inv d" "expire_unclaimable now d = Inr (u, d1)"
  shows "x \<in> set (outbox d1) \<Longrightarrow> om_state x \<noteq> OB_DEAD_LETTER \<Longrightarrow> x \<in> set (outbox d)"
    and "x \<in> set (outbox d) \<Longrightarrow> \<not> unclaimable now x \<Longrightarrow> x \<in> set (outbox d1)"
proof -
  have earlier: "x \<in> set (outbox d1) \<Longrightarrow> om_state x \<noteq> OB_DEAD_LETTER \<Longrightarrow> x \<in> set (outbox d)"
    if "expire_each now rs d = Inr (u, d1)" for rs and d d1 :: db
    using that
  proof (induction rs arbitrary: d)
    case (Cons r rs)
    then obtain d0 where one: "expire_one now r d = Inr ((), d0)" and rest: "expire_each now rs d0 = Inr (u, d1)"
      by (auto simp: bind_tx_Inr)
    have "outbox d0 = put_outbox (expired_row now r) (outbox d)"
      using one by (auto simp: expire_one_def Let_def update_outbox_Inr expired_row_def split: if_splits option.splits)
    moreover have "x \<in> set (outbox d0)" using Cons.IH [OF Cons.prems(1,2) rest] .
    ultimately show ?case
      using Cons.prems(2) by (auto simp: put_outbox_def set_upd_row expired_row_def split: if_splits)
  qed simp
  have stay: "x \<in> set (outbox d1)"
    if "expire_each now rs d = Inr (u, d1)" "x \<in> set (outbox d)" "\<forall>r \<in> set rs. om_id r \<noteq> om_id x" for rs and d d1 :: db
    using that
  proof (induction rs arbitrary: d)
    case (Cons r rs)
    then obtain d0 where one: "expire_one now r d = Inr ((), d0)" and rest: "expire_each now rs d0 = Inr (u, d1)"
      by (auto simp: bind_tx_Inr)
    have "outbox d0 = put_outbox (expired_row now r) (outbox d)"
      using one by (auto simp: expire_one_def Let_def update_outbox_Inr expired_row_def split: if_splits option.splits)
    then have "x \<in> set (outbox d0)"
      using Cons.prems(2,3) by (auto simp: put_outbox_def set_upd_row expired_row_def image_iff intro!: bexI [of _ x])
    then show ?case using Cons.IH [OF rest] Cons.prems(3) by simp
  qed simp
  show "x \<in> set (outbox d1) \<Longrightarrow> om_state x \<noteq> OB_DEAD_LETTER \<Longrightarrow> x \<in> set (outbox d)"
    using earlier assms(2) by (simp add: expire_unclaimable_def)
  show "x \<in> set (outbox d1)" if x: "x \<in> set (outbox d)" "\<not> unclaimable now x"
  proof -
    have "om_id r \<noteq> om_id x" if "r \<in> set (take 100 (filter (unclaimable now) (outbox d)))" for r
    proof
      assume "om_id r = om_id x"
      moreover have r: "r \<in> set (outbox d)" "unclaimable now r" using in_set_takeD [OF that] by auto
      ultimately have "r = x" using x(1) assms(1) by (auto simp: outbox_inv_def distinct_map inj_on_def)
      then show False using r(2) x(2) by simp
    qed
    then show ?thesis using stay assms(2) x(1) by (simp add: expire_unclaimable_def)
  qed
qed

lemma claimed_of_reference:
  "claimed_of sha r n worker_id token until = Inr m \<Longrightarrow> pl_order_reference (om_payload r) = Some (cn_order_reference m) \<and>
     ORDER_REFERENCE (cn_order_reference m) \<and> cn_lease_until m = until \<and>
     cn_idempotency_key m = ''resend-'' @ hex (sha (utf8 (om_message_key r)))"
  by (auto simp: claimed_of_def OrderReference_def bind_res_Inr_iff split: option.splits if_splits)

text \<open>The lease that a claim takes is the active one until it runs out.\<close>

lemma claim_is_active:
  assumes inv: "outbox_inv d'" and r: "find_outbox (om_id r) d' = Some (take_lease r worker_id (uuid_str token) now lease_for)"
    and unsent: "om_provider_message_id r = None"
    and attempts: "notification_attempts d' = before @ [opened_notification r worker_id (uuid_str token) now]"
    and m: "claimed_of sha r (om_attempt_count r + 1) worker_id (uuid_str token) (dt_add now lease_for) = Inr m"
    and t: "micros t \<le> micros now + lease_for"
  shows "\<exists>a. active_lease m t d' = Inr (take_lease r worker_id (uuid_str token) now lease_for, a)"
proof -
  note fields = claimed_of_fields [OF m]
  have "find (\<lambda>a. na_outbox_id a = om_id r \<and> na_attempt_number a = cn_attempt m \<and> na_lease_token a = cn_lease_token m \<and>
      na_finished_at a = None) (notification_attempts d') \<noteq> None"
    using fields by (simp add: find_None attempts opened_notification_def)
  then obtain a where "find (\<lambda>a. na_outbox_id a = om_id r \<and> na_attempt_number a = cn_attempt m \<and> na_lease_token a = cn_lease_token m \<and>
      na_finished_at a = None) (notification_attempts d') = Some a" by blast
  moreover have "\<not> micros (dt_add now lease_for) < micros t" using t by simp
  ultimately show ?thesis
    using fields r unsent by (simp add: active_lease_def) (simp add: take_lease_def)
qed

text \<open>C38. What a worker is given to send, and what it may do with it. The claimed message is the earliest due one among all that could
  be sent: the provider has not accepted it, it has attempts left and is inside its idempotency horizon. The claim carries the
  recipient, the kind, the milestone and the idempotency key of that row and a well-formed order reference from its payload; the row
  is leased to the worker, and until the lease runs out the claim is the active one, so that its outcome can be recorded.\<close>

theorem claimed_notification_sendable:
  assumes inv: "outbox_inv d" and claim: "outbox_claim_tx sha token worker_id now lease_for d = Inr (Some m, d')"
  shows "\<exists>r \<in> set (outbox d). outbox_claimable now r \<and> om_accepted_at r = None \<and>
     (\<forall>x \<in> set (outbox d). outbox_claimable now x \<longrightarrow> micros (om_available_at r) \<le> micros (om_available_at x)) \<and>
     cn_id m = uuid_str (om_id r) \<and> cn_recipient m = om_recipient r \<and> kind_value (cn_kind m) = om_kind r \<and>
     Some (cn_order_reference m) = pl_order_reference (om_payload r) \<and> ORDER_REFERENCE (cn_order_reference m) \<and>
     Some (cn_proof_version m) = om_proof_version r \<and> Some (cn_confirmation_count m) = om_confirmation_count r \<and>
     cn_idempotency_key m = ''resend-'' @ hex (sha (utf8 (om_message_key r))) \<and>
     micros now < micros (om_idempotency_expires_at r) \<and>
     cn_attempt m = om_attempt_count r + 1 \<and> cn_attempt m \<le> om_max_attempts r \<and>
     (\<forall>t. micros t \<le> micros (cn_lease_until m) \<longrightarrow>
       (\<exists>a. active_lease m t d' = Inr (take_lease r worker_id (uuid_str token) now lease_for, a)))"
proof -
  from claim obtain d1 where exp: "expire_unclaimable now d = Inr ((), d1)"
    by (auto simp: outbox_claim_tx_def bind_tx_Inr split: if_splits)
  have inv1: "outbox_inv d1" using outboxed_inv [OF expire_unclaimable_outboxed [OF exp] inv] .
  have inv': "outbox_inv d'" using outboxed_inv [OF outbox_claim_outboxed [OF claim] inv] .
  from claim exp obtain r where query: "outbox_query now d1 = Some r"
    and m: "claimed_of sha r (om_attempt_count r + 1) worker_id (uuid_str token) (dt_add now lease_for) = Inr m"
    and out: "outbox d' = put_outbox (take_lease r worker_id (uuid_str token) now lease_for) (outbox d1)"
    and attempts: "\<exists>before. notification_attempts d' = before @ [opened_notification r worker_id (uuid_str token) now]"
    by (cases "outbox_query now d1")
      (auto simp: outbox_claim_tx_def bind_tx_Inr bind_res_Inr_iff update_outbox_Inr insert_notification_attempt_def
        expire_previous_def opened_notification_def split: if_splits option.splits)
  note r = outbox_query_Some [OF query]
  have "om_state r \<noteq> OB_DEAD_LETTER" using r by (auto simp: outbox_claimable_def outbox_open_def)
  then have in_d: "r \<in> set (outbox d)" using expire_survivors(1) [OF inv exp] r by simp
  have least: "\<forall>x \<in> set (outbox d). outbox_claimable now x \<longrightarrow> micros (om_available_at r) \<le> micros (om_available_at x)"
  proof (intro ballI impI)
    fix x
    assume x: "x \<in> set (outbox d)" "outbox_claimable now x"
    have "\<not> unclaimable now x" using x(2) by (auto simp: outbox_claimable_def unclaimable_def outbox_exhausted_def)
    then have "x \<in> set (outbox d1)" using expire_survivors(2) [OF inv exp] x(1) by simp
    then have "(micros (om_available_at r), micros (om_created_at r), om_id r) \<le>
        (micros (om_available_at x), micros (om_created_at x), om_id x)"
      using query x(2) first_by_least [of _ _ r x] unfolding outbox_query_def by fastforce
    then show "micros (om_available_at r) \<le> micros (om_available_at x)" by auto
  qed
  have accepted: "om_accepted_at r = None"
    using waiting_row(2) [OF outbox_rowD(1) [OF inv in_d] claimable_waiting] r by blast
  have "take_lease r worker_id (uuid_str token) now lease_for \<in> set (outbox d')"
    using inv1 put_outbox_unique [OF _ conjunct1 [OF r]] by (simp add: out outbox_inv_def)
  then have leased: "find_outbox (om_id r) d' = Some (take_lease r worker_id (uuid_str token) now lease_for)"
    using find_outbox_member [OF inv'] by force
  note fields = claimed_of_fields [OF m] claimed_of_reference [OF m]
  have active: "\<forall>t. micros t \<le> micros (cn_lease_until m) \<longrightarrow>
      (\<exists>a. active_lease m t d' = Inr (take_lease r worker_id (uuid_str token) now lease_for, a))"
  proof (intro allI impI)
    fix t
    assume "micros t \<le> micros (cn_lease_until m)"
    then have "micros t \<le> micros now + lease_for" using fields by simp
    moreover have "om_provider_message_id r = None" using r by (simp add: outbox_claimable_def)
    ultimately show "\<exists>a. active_lease m t d' = Inr (take_lease r worker_id (uuid_str token) now lease_for, a)"
      using claim_is_active [OF inv' leased _ _ m] attempts by blast
  qed
  show ?thesis
    using in_d r fields least accepted active
    by (intro bexI [of _ r] conjI) (simp_all add: outbox_claimable_def)
qed

theorem claimed_notification_sendable_witness:
  "\<exists>r \<in> set (outbox sample_ready). outbox_claimable (Aware 8) r \<and>
     outbox_claim_tx sample_sha 51 ''w'' (Aware 8) (seconds 30) sample_ready = Inr (Some sample_claimed, sample_sending) \<and>
     cn_recipient sample_claimed = om_recipient r \<and> om_kind r = ''bitcoin-confirmed-initial'' \<and>
     (\<exists>a. active_lease sample_claimed (Aware 9) sample_sending = Inr (take_lease r ''w'' (uuid_str 51) (Aware 8) (seconds 30), a))"
proof -
  have kind: "kind_value (cn_kind sample_claimed) = ''bitcoin-confirmed-initial''" by simp
  have soon: "micros (Aware 9) \<le> micros (cn_lease_until sample_claimed)" by (simp add: duration_defs)
  from claimed_notification_sendable [OF sample_ready_inv sample_outbox_claim] obtain r where "r \<in> set (outbox sample_ready)"
    "outbox_claimable (Aware 8) r" "cn_recipient sample_claimed = om_recipient r" "kind_value (cn_kind sample_claimed) = om_kind r"
    "\<forall>t. micros t \<le> micros (cn_lease_until sample_claimed) \<longrightarrow>
       (\<exists>a. active_lease sample_claimed t sample_sending = Inr (take_lease r ''w'' (uuid_str 51) (Aware 8) (seconds 30), a))"
    by (elim bexE conjE) (rule that)
  then show ?thesis using soon kind sample_outbox_claim by (intro bexI [of _ r] conjI) simp_all
qed

subsection \<open>Webhooks\<close>

lemma apply_nothing_again:
  assumes "apply_delivered_event sha r event now d = Inr (result, d')" "\<not> wr_notification_delivered result"
  shows "d' = d" "apply_delivered_event sha r event now' d = Inr (nothing_delivered False, d)"
proof -
  show "d' = d" using assms by (cases rule: apply_delivered_cases) auto
  show "apply_delivered_event sha r event now' d = Inr (nothing_delivered False, d)"
    using assms by (auto simp: apply_delivered_event_def bind_tx_Inr split: if_splits option.splits)
qed

lemma find_by_provider_unique:
  assumes "outbox_inv d" "r \<in> set (outbox d)" "om_provider_message_id r = Some p"
  shows "find_by_provider p d = Some r"
proof -
  have unique: "x = r" if "x \<in> set rows" "om_provider_message_id x = Some p" "r \<in> set rows" "distinct (provider_ids rows)"
    for x and rows :: "outbox_row list"
    using that assms(3) by (induction rows) (auto simp: set_provider_ids split: option.splits)
  obtain x where x: "find_by_provider p d = Some x"
    using assms(2,3) by (cases "find_by_provider p d") (auto simp: find_by_provider_def find_None)
  then have "x = r"
    using unique [of x "outbox d"] find_by_provider_Some [OF x] assms by (simp add: outbox_inv_def)
  with x show ?thesis by simp
qed

text \<open>After an event was applied, or found not to apply, reconciling it again changes nothing.\<close>

lemma reconcile_again:
  assumes inv: "outbox_inv d'" and event: "rw_event_type event = ''email.delivered''"
    and r: "find_by_provider (rw_provider_message_id event) d = Some r" "om_accepted_at r \<noteq> None"
    and tx: "apply_delivered_event sha r event now d = Inr (result, d')"
  shows "reconcile_replayed_event sha event now' d' = Inr (nothing_delivered True, d')"
proof (cases "wr_notification_delivered result")
  case False
  note again = apply_nothing_again [OF tx False]
  then show ?thesis
    using r event again(2) [of now'] by (simp add: reconcile_replayed_event_def bind_tx_def return_tx_def)
next
  case True
  have provider: "r \<in> set (outbox d)" "om_provider_message_id r = Some (rw_provider_message_id event)"
    using find_by_provider_Some [OF r(1)] by auto
  have out: "outbox d' = put_outbox (delivered_row r event now) (outbox d)"
    using tx True
    by (cases rule: apply_delivered_cases)
      (auto split: if_splits dest!: deliver_order_Inr simp: outbox_tables_def)
  have "delivered_row r event now \<in> set (outbox d')"
    using provider(1) by (auto simp: out put_outbox_def set_upd_row delivered_row_def intro!: image_eqI [of _ _ r])
  then have "find_by_provider (rw_provider_message_id event) d' = Some (delivered_row r event now)"
    using find_by_provider_unique [OF inv] provider(2) by (simp add: delivered_row_def)
  then show ?thesis
    using event by (simp add: reconcile_replayed_event_def apply_delivered_event_def delivered_row_def bind_tx_def return_tx_def)
qed

text \<open>The webhook of the mail provider may call again: processing an event that was processed before succeeds,
  is reported as a duplicate and changes nothing, whatever the event did the first time.\<close>

theorem webhook_replay_idempotent:
  assumes inv: "outbox_inv d" and tx: "process_tx sha event payload_sha256 now d = Inr (result, d')"
  shows "process_tx sha event payload_sha256 now' d' = Inr (nothing_delivered True, d')"
proof -
  have inv': "outbox_inv d'" using outboxed_inv [OF process_outboxed [OF tx] inv] .
  have len: "length payload_sha256 = 32" using tx by (auto simp: process_tx_def split: if_splits)
  have again: ?thesis
    if "find_resend_event (vr_svix_event_id event) d' = Some e" "validate_replay e event payload_sha256 = Inr ()"
      "reconcile_replayed_event sha e (aware now') d' = Inr (nothing_delivered True, d')" for e
    using that len by (simp add: process_tx_def)
  let ?e = "event_row event payload_sha256 (aware now)"
  have valid: "validate_replay ?e event payload_sha256 = Inr ()"
    by (simp add: validate_replay_def event_row_def)
  have found: "find_resend_event (vr_svix_event_id event) d1 = Some ?e"
    if "find_resend_event (vr_svix_event_id event) d = None"
      "resend_webhook_events d1 = resend_webhook_events (with_event ?e d)" for d1
    using that find_resend_event_with [of ?e d] by (simp add: find_resend_event_def event_row_def)
  from tx show ?thesis
  proof (cases rule: process_cases)
    case (replay existing)
    from replay(3) show ?thesis
    proof (cases rule: reconcile_cases)
      case none
      then have "reconcile_replayed_event sha existing (aware now') d' = Inr (nothing_delivered True, d')"
        by (auto simp: reconcile_replayed_event_def split: option.splits)
      then show ?thesis using again [of existing] replay none(1) by simp
    next
      case (applied r result')
      have "find_resend_event (vr_svix_event_id event) d' = Some existing"
        using replay(1) apply_delivered_events [OF applied(4)] by (simp add: find_resend_event_def)
      then show ?thesis
        using again [of existing] replay(2) reconcile_again [OF inv' applied(1-4)] by simp
    qed
  next
    case (stored e)
    have "reconcile_replayed_event sha ?e (aware now') d' = Inr (nothing_delivered True, d')"
      using stored(6) by (auto simp: reconcile_replayed_event_def event_row_def stored(3) find_by_provider_def with_event_def split: option.splits)
    then show ?thesis using again [OF found [OF stored(1)] valid] stored by simp
  next
    case (failure e r)
    then have "reconcile_replayed_event sha ?e (aware now') d' = Inr (nothing_delivered True, d')"
      by (auto simp: reconcile_replayed_event_def event_row_def failure_event_types_def)
    then show ?thesis using again [OF found [OF failure(1)] valid] failure by simp
  next
    case (delivery e r result')
    have "reconcile_replayed_event sha ?e (aware now') d' = Inr (nothing_delivered True, d')"
      using delivery by (intro reconcile_again [OF inv' _ _ _ delivery(7) [unfolded delivery(2)]])
        (auto simp: event_row_def find_by_provider_def with_event_def)
    moreover have "resend_webhook_events d' = resend_webhook_events (with_event ?e d)"
      using apply_delivered_events [OF delivery(7)] by (simp add: delivery(2))
    ultimately show ?thesis using again [OF found [OF delivery(1)] valid] by simp
  qed
qed

lemma delivered_event_for_with:
  assumes "delivered_event_for pid d = None" "rw_provider_message_id e = pid" "rw_event_type e = ''email.delivered''"
  shows "delivered_event_for pid (with_event e d) = Some e"
  using assms by (simp add: delivered_event_for_def with_event_def)

lemma with_event_simps [simp]:
  "outbox (with_event e d) = outbox d" "notification_attempts (with_event e d) = notification_attempts d"
  "find_outbox i (with_event e d) = find_outbox i d"
  "active_lease m now (with_event e d) = active_lease m now d"
  "put_attempt a (with_event e d) = with_event e (put_attempt a d)"
  "(with_event e d)\<lparr>outbox := rows\<rparr> = with_event e (d\<lparr>outbox := rows\<rparr>)"
  by (simp_all add: with_event_def find_outbox_def active_lease_def put_attempt_def split: option.split)

text \<open>The acceptance of a message and its first \<open>email.delivered\<close> event may be recorded in either order at one reading of
  the clock: when the event is processed after the acceptance, processing it before the acceptance succeeds too and leads to
  exactly the same database.\<close>

theorem accept_webhook_commute:
  assumes inv: "outbox_inv d"
    and event: "vr_event_type event = ''email.delivered''" "vr_provider_message_id event = pa_message_id acceptance"
    and fresh: "find_resend_event (vr_svix_event_id event) d = None" "delivered_event_for (pa_message_id acceptance) d = None"
    and accept: "record_accepted_tx sha m acceptance now d = Inr (u, d1)"
    and hook: "process_tx sha event payload_sha256 now d1 = Inr (result, d2)"
  shows "\<exists>result' d1'. process_tx sha event payload_sha256 now d = Inr (result', d1') \<and>
     record_accepted_tx sha m acceptance now d1' = Inr ((), d2)"
proof -
  let ?pid = "pa_message_id acceptance" and ?e = "event_row event payload_sha256 (aware now)"
  from accept obtain r a da where lease: "active_lease m now d = Inr (r, a)"
    and upd: "update_outbox (accepted_row r ?pid now) d = Inr ((), da)"
    and rest: "case delivered_event_for ?pid (put_attempt (close_accepted acceptance now a) da) of
        None \<Rightarrow> d1 = put_attempt (close_accepted acceptance now a) da
      | Some event \<Rightarrow> \<exists>result. apply_delivered_event sha (accepted_row r ?pid now) event (aware now)
          (put_attempt (close_accepted acceptance now a) da) = Inr (result, d1)"
    by (rule record_accepted_parts)
  let ?r = "accepted_row r ?pid now"
  have da: "da = d\<lparr>outbox := put_outbox ?r (outbox d)\<rparr>" and check: "outbox_check ?r"
    and unique: "unique_opt_among om_provider_message_id ?r (filter (\<lambda>x. om_id x \<noteq> om_id ?r) (outbox d))"
    using upd by (simp_all add: update_outbox_Inr)
  have events: "resend_webhook_events (put_attempt (close_accepted acceptance now a) da) = resend_webhook_events d"
    by (simp add: da)
  then have d1: "d1 = put_attempt (close_accepted acceptance now a) da"
    using rest fresh(2) by (simp add: delivered_event_for_def split: option.splits)
  note lease_r = active_lease_Inr [OF lease]
  have valid: "pa_response_status acceptance = 200" "SAFE_PROVIDER_ID ?pid"
    using accept by (auto simp: record_accepted_tx_def split: if_splits)
  have len: "length payload_sha256 = 32" using hook by (auto simp: process_tx_def split: if_splits)
  have inv1: "outbox_inv d1" using outboxed_inv [OF record_accepted_outboxed [OF accept] inv] .
  have found1: "find_by_provider ?pid d1 = Some ?r"
    using lease_r(3)
    by (intro find_by_provider_unique [OF inv1])
      (auto simp: d1 da put_outbox_def set_upd_row accepted_row_def intro!: image_eqI [of _ _ r])
  have new1: "find_resend_event (vr_svix_event_id event) d1 = None"
    using fresh(1) events by (simp add: d1 find_resend_event_def)
  have applied: "\<exists>res. apply_delivered_event sha ?r ?e (aware now) (with_event ?e d1) = Inr (res, d2)"
    using hook
  proof (cases rule: process_cases)
    case (delivery e r' res)
    then show ?thesis using found1 event(2) by auto
  qed (use new1 found1 event in \<open>auto simp: accepted_row_def failure_event_types_def\<close>)
  have "?pid \<notin> set (provider_ids (outbox d))"
    using unique_provider [OF inv lease_r(3,8) _ unique] by (simp add: accepted_row_def)
  then have "find_by_provider ?pid d = None"
    by (auto simp: find_by_provider_def find_None set_provider_ids)
  moreover have "insert_webhook_event event payload_sha256 (aware now) d = Inr (True, with_event ?e d)"
    using fresh(1) len
    by (auto simp: insert_webhook_event_def bind_tx_def return_tx_def insert_resend_event_def with_event_def event_row_def
        find_resend_event_def find_None unique_among_def list_all_iff)
  ultimately have first: "process_tx sha event payload_sha256 now d = Inr (nothing_delivered False, with_event ?e d)"
    using fresh(1) len event(2) by (simp add: process_tx_def bind_tx_def)
  have "delivered_event_for ?pid (with_event ?e d1) = Some ?e"
    using fresh(2) events event by (intro delivered_event_for_with) (simp_all add: d1 delivered_event_for_def event_row_def)
  moreover have "update_outbox ?r (with_event ?e d) = Inr ((), with_event ?e da)"
    using check unique by (simp add: update_outbox_Inr da)
  ultimately have "record_accepted_tx sha m acceptance now (with_event ?e d) = Inr ((), d2)"
    using applied lease valid
    by (auto simp: record_accepted_tx_def bind_tx_def return_tx_def d1 close_accepted_def Let_def)
  with first show ?thesis by blast
qed

definition sample_resend_event :: verified_resend_event where
  "sample_resend_event = \<lparr>vr_svix_event_id = ''evt1'', vr_event_type = ''email.delivered'', vr_provider_message_id = ''pm1'',
     vr_event_created_at = Aware 9\<rparr>"

definition sample_acceptance :: provider_acceptance where
  "sample_acceptance = \<lparr>pa_message_id = ''pm1'', pa_response_status = 200\<rparr>"

definition sample_accepted_row :: outbox_row where
  "sample_accepted_row = accepted_row (take_lease sample_message ''w'' (uuid_str 51) (Aware 8) (seconds 30)) ''pm1'' (Aware 9)"

definition sample_accepted :: db where
  "sample_accepted = sample_sending\<lparr>outbox := [sample_accepted_row],
     notification_attempts := [close_accepted sample_acceptance (Aware 9) (opened_notification sample_message ''w'' (uuid_str 51) (Aware 8))]\<rparr>"

lemma sample_pid [simp]: "SAFE_PROVIDER_ID ''pm1''"
  by code_simp

lemma sample_accept: "record_accepted_tx sample_sha sample_claimed sample_acceptance (Aware 9) sample_sending = Inr ((), sample_accepted)"
  by (simp add: record_accepted_tx_def sample_acceptance_def active_lease_def find_outbox_def sample_tables take_lease_def
      sample_message_def opened_notification_def dt_add_def duration_defs bind_tx_def update_outbox_def outbox_check_def
      accepted_row_def unique_defs upd_row_def Let_def delivered_event_for_def put_attempt_def finish_attempt_def)
    (simp add: sample_accepted_def sample_accepted_row_def sample_sending_def take_lease_def sample_message_def
      accepted_row_def dt_add_def duration_defs close_accepted_def finish_attempt_def opened_notification_def sample_acceptance_def)

lemma sample_accepted_evidence:
  assumes tables: "proof_versions d = [sample_proof_row]" "proof_verifications d = [sample_verification]"
    "proof_bundles d = [sample_bundle]" "confirmation_observations d = [sample_observation]"
  shows "delivery_evidence_matches sample_sha sample_verified_order sample_accepted_row d"
proof -
  have key: "om_message_key sample_accepted_row = message_key_of INITIAL_CONFIRMATION 1 (o_order_reference sample_verified_order)"
    "om_payload sample_accepted_row = payload_of (kind_value INITIAL_CONFIRMATION) (o_order_reference sample_verified_order)"
    "om_recipient sample_accepted_row = o_email sample_verified_order" "om_kind sample_accepted_row = ''bitcoin-confirmed-initial''"
    "om_state sample_accepted_row = OB_ACCEPTED" "om_provider_message_id sample_accepted_row = Some ''pm1''"
    "om_proof_version sample_accepted_row = Some 1" "om_confirmation_count sample_accepted_row = Some 2"
    "om_confirmation_observation_id sample_accepted_row = Some 41"
    by (simp_all add: sample_accepted_row_def accepted_row_def take_lease_def sample_message_def sample_verified_order_def
        sample_order_def)
  have "o_id sample_verified_order = 7" "o_manifest_digest sample_verified_order = replicate 32 1"
    by (simp_all add: sample_verified_order_def sample_order_def)
  then show ?thesis
    using key
    by (simp add: delivery_evidence_matches_def notification_observation_matches_def latest_proof_def find_verification_def
        find_bundle_def find_observation_def latest_observation_def tables sample_proof_row_def sample_verification_def
        sample_bundle_def sample_observation_def observation_matches_verification_def)
qed

lemma sample_delivery:
  "\<exists>d'. process_tx sample_sha sample_resend_event (replicate 32 0) (Aware 9) sample_accepted =
     Inr (\<lparr>wr_duplicate = False, wr_notification_delivered = True, wr_order_transitioned = True\<rparr>, d')"
proof -
  let ?e = "event_row sample_resend_event (replicate 32 0) (Aware 9)"
  let ?d = "with_event ?e sample_accepted"
  have tables: "resend_webhook_events sample_accepted = []" "outbox sample_accepted = [sample_accepted_row]"
    "orders sample_accepted = [sample_verified_order]"
    by (simp_all add: sample_accepted_def sample_tables) (simp add: sample_sending_def sample_tables)
  have row: "om_accepted_at sample_accepted_row = Some (Aware 9)" "om_provider_message_id sample_accepted_row = Some ''pm1''"
    "om_state sample_accepted_row = OB_ACCEPTED" "om_order_id sample_accepted_row = 7"
    "om_kind sample_accepted_row = ''bitcoin-confirmed-initial''" "om_id sample_accepted_row = 31"
    by (simp_all add: sample_accepted_row_def accepted_row_def take_lease_def sample_message_def)
  have hook: "insert_webhook_event sample_resend_event (replicate 32 0) (Aware 9) sample_accepted = Inr (True, ?d)"
    by (simp add: insert_webhook_event_def find_resend_event_def tables bind_tx_def insert_resend_event_def unique_defs
        return_tx_def with_event_def event_row_def)
  have found: "find_resend_event ''evt1'' ?d = Some ?e" "find_resend_event ''evt1'' sample_accepted = None"
    "find_by_provider ''pm1'' sample_accepted = Some sample_accepted_row"
    by (simp_all add: find_resend_event_def with_event_def tables event_row_def sample_resend_event_def find_by_provider_def row)
  have order: "find_order 7 ?d = Some sample_verified_order" "o_fulfillment_state sample_verified_order = BITCOIN_VERIFIED"
    by (simp_all add: find_order_def with_event_def tables) (simp_all add: sample_verified_order_def sample_order_def)
  have evidence: "delivery_evidence_matches sample_sha sample_verified_order sample_accepted_row ?d"
    by (rule sample_accepted_evidence)
      (simp_all add: with_event_def sample_accepted_def sample_sending_def sample_ready_def sample_proven_def)
  let ?d1 = "?d\<lparr>outbox := [delivered_row sample_accepted_row ?e (Aware 9)]\<rparr>"
  have upd: "update_outbox (sample_accepted_row\<lparr>om_state := OB_DELIVERED,
      om_delivered_at := Some (aware (rw_event_created_at ?e)), om_safe_error_code := None, om_updated_at := Aware 9\<rparr>) ?d = Inr ((), ?d1)"
    by (simp add: update_outbox_def tables outbox_check_def unique_defs upd_row_def delivered_row_def)
      (simp add: sample_accepted_row_def accepted_row_def take_lease_def sample_message_def)
  have "\<exists>d'. deliver_order sample_verified_order sample_accepted_row INITIAL_CONFIRMATION ?e (Aware 9) ?d1 = Inr ((), d')"
    by (simp add: deliver_order_def Let_def bind_tx_def update_order_def find_order_def with_event_def tables
        reject_order_snapshot_mutation_def require_def same_snapshot_fields_def unique_defs insert_state_event_def upd_row_def)
      (simp add: sample_verified_order_def sample_order_def order_check_def sample_usd state_set_defs unique_defs
        sample_accepted_def sample_sending_def sample_ready_def sample_proven_def sample_store_def sample_event_def event_row_def
        next_sequence_def max_of_def)
  then show ?thesis
    using hook found order evidence upd row
    by (auto simp: process_tx_def Let_def bind_tx_def return_tx_def apply_delivered_event_def sample_resend_event_def
        event_row_def failure_event_types_def)
qed

theorem webhook_replay_idempotent_witness:
  "\<exists>d'. process_tx sample_sha sample_resend_event (replicate 32 0) (Aware 9) sample_accepted =
     Inr (\<lparr>wr_duplicate = False, wr_notification_delivered = True, wr_order_transitioned = True\<rparr>, d') \<and>
     process_tx sample_sha sample_resend_event (replicate 32 0) (Aware 99) d' = Inr (nothing_delivered True, d')"
proof -
  have "outbox_inv sample_accepted" using outboxed_inv [OF record_accepted_outboxed [OF sample_accept] sample_sending_inv] .
  with sample_delivery webhook_replay_idempotent show ?thesis by blast
qed

theorem accept_webhook_commute_witness:
  "\<exists>result' d1' d2. process_tx sample_sha sample_resend_event (replicate 32 0) (Aware 9) sample_sending = Inr (result', d1') \<and>
     record_accepted_tx sample_sha sample_claimed sample_acceptance (Aware 9) d1' = Inr ((), d2)"
proof -
  obtain d2 where "process_tx sample_sha sample_resend_event (replicate 32 0) (Aware 9) sample_accepted =
      Inr (\<lparr>wr_duplicate = False, wr_notification_delivered = True, wr_order_transitioned = True\<rparr>, d2)"
    using sample_delivery by blast
  moreover have "vr_event_type sample_resend_event = ''email.delivered''"
    "vr_provider_message_id sample_resend_event = pa_message_id sample_acceptance"
    "find_resend_event (vr_svix_event_id sample_resend_event) sample_sending = None"
    "delivered_event_for (pa_message_id sample_acceptance) sample_sending = None"
    by (simp_all add: sample_resend_event_def sample_acceptance_def find_resend_event_def delivered_event_for_def sample_tables)
  ultimately show ?thesis using accept_webhook_commute [OF sample_sending_inv _ _ _ _ sample_accept] by blast
qed

lemma sublist_map: "sublist xs ys \<Longrightarrow> sublist (map f xs) (map f ys)"
  unfolding sublist_def by (metis map_append)

text \<open>The list of forbidden words meets the alphabet of the order references: a reference that happens to contain
  \<open>BEARER\<close> is a valid reference, and every notification of its order is refused as sensitive data.\<close>

theorem bearer_reference_blocked:
  assumes "notification_message kind ref recipient v n = Inr m" and "contains ref ''BEARER''"
  shows "outbox_enqueue_tx settings new_id m now d = Inl (ValueError ''outbox_payload_contains_sensitive_data'')"
proof -
  have m: "ms_template m = kind_value kind" "ms_order_reference m = ref" "validate_message m = Inr (kind, v, n)"
    using assms(1)
    by (cases kind; auto simp: notification_message_def validate_message_def notification_kind_of_def split: if_splits)+
  have "sublist ref (serialized_payload (kind_value kind) ref)"
  proof -
    have "serialized_payload (kind_value kind) ref = (''{'' @ quoted ''order_reference'' @ '': '' @ [CHR 0x22]) @ ref @
        ([CHR 0x22] @ '', '' @ quoted ''template'' @ '': '' @ quoted (kind_value kind) @ ''}'')"
      by (simp add: serialized_payload_def quoted_def)
    then show ?thesis by (metis sublist_def)
  qed
  then have "sublist ''BEARER'' (serialized_payload (kind_value kind) ref)"
    using assms(2) by (metis contains_iff_sublist sublist_order.order_trans)
  then have "sublist (str_lower ''BEARER'') (str_lower (serialized_payload (kind_value kind) ref))"
    unfolding str_lower_def by (rule sublist_map)
  moreover have "str_lower ''BEARER'' = ''bearer''" by code_simp
  ultimately have "list_ex (contains (str_lower (serialized_payload (kind_value kind) ref))) forbidden_words"
    by (simp add: forbidden_words_def contains_iff_sublist)
  then show ?thesis using m by (simp add: outbox_enqueue_tx_def)
qed

theorem bearer_reference_blocked_witness:
  "ORDER_REFERENCE ''ts_01BEARER4V4RRFFQ69G5FAV0DE'' \<and>
   (\<exists>m. notification_message INITIAL_CONFIRMATION ''ts_01BEARER4V4RRFFQ69G5FAV0DE'' ''a@b.test'' 1 1 = Inr m \<and>
     outbox_enqueue_tx \<lparr>os_idempotency_horizon = hours 24, os_max_attempts = 12\<rparr> 31 m (Aware 0) empty_db =
       Inl (ValueError ''outbox_payload_contains_sensitive_data''))"
proof -
  have "ORDER_REFERENCE ''ts_01BEARER4V4RRFFQ69G5FAV0DE''" "contains ''ts_01BEARER4V4RRFFQ69G5FAV0DE'' ''BEARER''"
    by code_simp+
  moreover obtain m where "notification_message INITIAL_CONFIRMATION ''ts_01BEARER4V4RRFFQ69G5FAV0DE'' ''a@b.test'' 1 1 = Inr m"
    by (simp add: notification_message_def)
  ultimately show ?thesis using bearer_reference_blocked by blast
qed

end
