(* ===== verification/Fulfillment.thy ===== *)
theory Fulfillment
  imports Notices
begin

text \<open>
  The fulfillment handlers, \<open>fulfillment/handlers.py\<close> and \<open>fulfillment/terminal.py\<close>, as actions on the
  database: a handler reads, calls an external service and commits transactions, and what was committed
  before an exception stays. The services a handler is given are the record \<open>services\<close>: the
  timestamper, the Bitcoin verifier, the receipt and the bundler, the OpenTimestamps library, the clock and
  \<open>uuid4\<close> as their successive values, and \<open>int(t.timestamp() * 1_000_000)\<close>, which is computed
  in floating point.
\<close>

record pending_proof =
  pe_proof_bytes :: bytes
  pe_calendar_submitted_at :: datetime

record services =
  sv_lib :: ots_library
  sv_stamp :: "manifest_digest \<Rightarrow> exn + pending_proof"
  sv_upgrade :: "manifest_digest \<Rightarrow> bytes \<Rightarrow> exn + bytes"
  sv_verify :: "manifest_digest \<Rightarrow> bytes \<Rightarrow> exn + bitcoin_verification"
  sv_receipt :: "stored_proof \<Rightarrow> certificate_reference \<Rightarrow> string \<Rightarrow> exn + bytes"
  sv_bundle :: "stored_proof \<Rightarrow> bytes \<Rightarrow> certificate_reference \<Rightarrow> string \<Rightarrow> exn + bytes"
  sv_float_micros :: "datetime \<Rightarrow> int"
  sv_version :: string
  sv_outbox :: outbox_settings
  sv_now :: "nat \<Rightarrow> datetime"
  sv_new_id :: "nat \<Rightarrow> uuid"

abbreviation sv_sha :: "services \<Rightarrow> bytes \<Rightarrow> bytes" where
  "sv_sha sv \<equiv> ots_sha256 (sv_lib sv)"

section \<open>Helpers\<close>

definition load :: "string \<Rightarrow> fulfillment_order db_action" where
  "load order_id =
     bind_act (read_act (get_for_fulfillment order_id)) (\<lambda>order.
       case order of None \<Rightarrow> raise_act (ManualReviewError ''order_not_found'') | Some fo \<Rightarrow> return_act fo)"

definition verify_bitcoin :: "services \<Rightarrow> manifest_digest \<Rightarrow> bytes \<Rightarrow> exn + bitcoin_verification" where
  "verify_bitcoin sv digest proof_bytes =
     (case sv_verify sv digest proof_bytes of
        Inr v \<Rightarrow> Inr v
      | Inl (BitcoinVerifierUnavailable _) \<Rightarrow> Inl (RetryableFulfillmentError ''bitcoin_verifier_unavailable'')
      | Inl (BitcoinEvidenceInvalid _) \<Rightarrow> Inl (ManualReviewError ''bitcoin_evidence_invalid'')
      | Inl (BitcoinRpcResponseError _ _) \<Rightarrow> Inl (ManualReviewError ''bitcoin_evidence_invalid'')
      | Inl (ProofValidationError _) \<Rightarrow> Inl (ManualReviewError ''bitcoin_evidence_invalid'')
      | Inl e \<Rightarrow> Inl e)"

text \<open>\<open>validate_exact_proof\<close> of a stored proof, with the exception translated.\<close>

definition check_stored :: "services \<Rightarrow> manifest_digest \<Rightarrow> stored_proof \<Rightarrow> exn + unit" where
  "check_stored sv digest p =
     (case validate_proof (sv_lib sv) digest (sp_proof_bytes p) (Some (sp_proof_sha256 p)) of
        Inl (ProofValidationError _) \<Rightarrow> Inl (ManualReviewError ''stored_proof_invalid'')
      | r \<Rightarrow> r)"

text \<open>A call to a calendar and the validation of its answer: an invalid proof is for manual review, every
  other exception is retried.\<close>

definition translate_calendar :: "string \<Rightarrow> string \<Rightarrow> exn + 'a \<Rightarrow> exn + 'a" where
  "translate_calendar invalid unavailable r =
     (case r of
        Inl (ProofValidationError _) \<Rightarrow> Inl (ManualReviewError invalid)
      | Inl _ \<Rightarrow> Inl (RetryableFulfillmentError unavailable)
      | Inr x \<Rightarrow> Inr x)"

definition proofs_latest_act :: "services \<Rightarrow> order_reference \<Rightarrow> stored_proof option db_action" where
  "proofs_latest_act sv ref = read_act (proofs_latest (sv_sha sv) ref)"

definition append_or_same :: "services \<Rightarrow> nat \<Rightarrow> stored_proof \<Rightarrow> unit db_action" where
  "append_or_same sv n p =
     catch_act (transaction (append_tx (sv_sha sv) p (sv_now sv n))) (\<lambda>e.
       if is_ValueError e
       then bind_act (proofs_latest_act sv (sp_order_reference p)) (\<lambda>replay.
              if replay \<noteq> Some p then raise_act (ManualReviewError ''proof_append_conflict'') else return_act ())
       else raise_act e)"

definition transition_once ::
  "services \<Rightarrow> nat \<Rightarrow> string \<Rightarrow> fulfillment_state \<Rightarrow> string \<Rightarrow> datetime option \<Rightarrow> fulfillment_order db_action" where
  "transition_once sv n order_id target event_key cal =
     transaction (transition_fulfillment_once_tx order_id target event_key cal (sv_now sv n))"

definition same_reverification_evidence :: "bitcoin_verification option \<Rightarrow> bitcoin_verification \<Rightarrow> exn + bool" where
  "same_reverification_evidence existing current =
     (case existing of
        None \<Rightarrow> Inr False
      | Some ex \<Rightarrow>
          (case (bv_verified_at ex, bv_verified_at current) of
             (Some t, Some t') \<Rightarrow>
               if \<not> bv_verified ex \<or> \<not> bv_verified current then Inr False
               else if bv_method current = bv_method ex \<and> bv_block_height current = bv_block_height ex \<and>
                       bv_block_hash current = bv_block_hash ex \<and> bv_block_time current = bv_block_time ex \<and>
                       bv_confirmation_policy current = bv_confirmation_policy ex
               then dt_le t t' else Inr False
           | _ \<Rightarrow> Inr False))"

definition observation_event_key :: "services \<Rightarrow> int \<Rightarrow> bitcoin_verification \<Rightarrow> exn + string" where
  "observation_event_key sv proof_version v =
     (case (bv_verified_at v, bv_confirmations v) of
        (Some t, Some n) \<Rightarrow>
          Inr (''bitcoin-observed-v'' @ int_str proof_version @ ''-'' @ int_str n @ ''-'' @ int_str (sv_float_micros sv t))
      | _ \<Rightarrow> Inl (ValueError ''verified Bitcoin observation requires time and confirmations''))"

definition record_observation ::
  "services \<Rightarrow> nat \<Rightarrow> string \<Rightarrow> int \<Rightarrow> bitcoin_verification \<Rightarrow> confirmation_observation db_action" where
  "record_observation sv n order_id proof_version v =
     bind_act (lift_act (observation_event_key sv proof_version v)) (\<lambda>key.
       transaction (record_once_tx (sv_new_id sv n) order_id proof_version key v (sv_now sv n)))"

section \<open>StampHandler\<close>

text \<open>The branch for an order that has a proof already.\<close>

definition stamp_replay :: "services \<Rightarrow> string \<Rightarrow> fulfillment_order \<Rightarrow> stored_proof \<Rightarrow> unit db_action" where
  "stamp_replay sv order_id order latest =
     (let snapshot = st_snapshot (fo_state order); submission_time = sp_calendar_submitted_at latest;
          state = st_fulfillment (fo_state order)
      in bind_act (lift_act (check_stored sv (snap_manifest_digest snapshot) latest)) (\<lambda>_.
           if sp_target_digest latest \<noteq> snap_manifest_digest snapshot
           then raise_act (ManualReviewError ''stored_proof_target_mismatch'')
           else if fo_calendar_submitted_at order \<noteq> None \<and> fo_calendar_submitted_at order \<noteq> Some submission_time
           then raise_act (ManualReviewError ''proof_submission_time_conflict'')
           else if state = QUEUED \<or> state = STAMPING
           then bind_act (if state = QUEUED
                          then bind_act (transition_once sv 0 order_id STAMPING
                                 (''stamp-replay-start-v'' @ int_str (sp_version latest)) (Some submission_time))
                                 (\<lambda>_. return_act ())
                          else return_act ()) (\<lambda>_.
                bind_act (transition_once sv 1 order_id CALENDAR_PENDING
                  (''stamp-replay-v'' @ int_str (sp_version latest)) (Some submission_time)) (\<lambda>_. return_act ()))
           else return_act ()))"

text \<open>The branch for an order without a proof.\<close>

definition stamp_new :: "services \<Rightarrow> string \<Rightarrow> fulfillment_order \<Rightarrow> unit db_action" where
  "stamp_new sv order_id order0 =
     (let snapshot = st_snapshot (fo_state order0); digest = snap_manifest_digest snapshot
      in if st_payment (fo_state order0) \<noteq> PAID then raise_act (ManualReviewError ''initial_stamp_not_paid'')
         else bind_act (if st_fulfillment (fo_state order0) = QUEUED
                        then transition_once sv 0 order_id STAMPING ''stamp-start-v1'' None
                        else return_act order0) (\<lambda>order.
           if st_fulfillment (fo_state order) \<noteq> STAMPING then raise_act (ManualReviewError ''stamp_state_invalid'')
           else bind_act (lift_act (translate_calendar ''calendar_proof_invalid'' ''calendar_submit_unavailable''
                  (bind_res (sv_stamp sv digest) (\<lambda>pending.
                   bind_res (validate_proof (sv_lib sv) digest (pe_proof_bytes pending) None) (\<lambda>_. Inr pending))))) (\<lambda>pending.
                bind_act (lift_act (make_stored_proof (sv_lib sv) (snap_order_reference snapshot) 1 digest
                  (pe_proof_bytes pending) PS_CALENDAR_PENDING (pe_calendar_submitted_at pending) None)) (\<lambda>stored.
                bind_act (append_or_same sv 1 stored) (\<lambda>_.
                bind_act (transition_once sv 2 order_id STAMPING ''stamp-response-v1''
                  (Some (pe_calendar_submitted_at pending))) (\<lambda>_.
                bind_act (transition_once sv 3 order_id CALENDAR_PENDING ''stamp-persisted-v1''
                  (Some (pe_calendar_submitted_at pending))) (\<lambda>_. return_act ())))))))"

definition stamp_handler :: "services \<Rightarrow> string \<Rightarrow> unit db_action" where
  "stamp_handler sv order_id =
     bind_act (load order_id) (\<lambda>order.
     bind_act (proofs_latest_act sv (snap_order_reference (st_snapshot (fo_state order)))) (\<lambda>latest.
       case latest of
         Some p \<Rightarrow> stamp_replay sv order_id order p
       | None \<Rightarrow> stamp_new sv order_id order))"

section \<open>UpgradeHandler\<close>

text \<open>The branch for an order that is verified already.\<close>

definition reverify_latest :: "services \<Rightarrow> string \<Rightarrow> fulfillment_order \<Rightarrow> stored_proof \<Rightarrow> unit db_action" where
  "reverify_latest sv order_id order latest =
     bind_act (lift_act (verify_bitcoin sv (snap_manifest_digest (st_snapshot (fo_state order))) (sp_proof_bytes latest))) (\<lambda>v.
       if \<not> bv_verified v then raise_act (ManualReviewError ''bitcoin_reverification_failed'')
       else bind_act (lift_act (same_reverification_evidence (sp_verification latest) v)) (\<lambda>same.
         if \<not> same then raise_act (ManualReviewError ''bitcoin_reverification_metadata_conflict'')
         else case bv_verified_at v of
             None \<Rightarrow> raise_act AssertionError
           | Some t \<Rightarrow>
               bind_act (record_observation sv 0 order_id (sp_version latest) v) (\<lambda>_.
               bind_act (transition_once sv 1 order_id (st_fulfillment (fo_state order))
                 (''bitcoin-reverified-v'' @ int_str (sp_version latest) @ ''-'' @ int_str (sv_float_micros sv t)) None)
                 (\<lambda>_. return_act ()))))"

text \<open>Upgrading the proof at the calendars; a changed proof is appended as the next version.\<close>

definition upgrade_proof :: "services \<Rightarrow> order_snapshot \<Rightarrow> stored_proof \<Rightarrow> stored_proof db_action" where
  "upgrade_proof sv snapshot latest =
     bind_act (lift_act (translate_calendar ''upgraded_proof_invalid'' ''calendar_upgrade_unavailable''
         (bind_res (sv_upgrade sv (snap_manifest_digest snapshot) (sp_proof_bytes latest)) (\<lambda>upgraded_bytes.
          bind_res (validate_proof (sv_lib sv) (snap_manifest_digest snapshot) upgraded_bytes None)
            (\<lambda>_. Inr upgraded_bytes))))) (\<lambda>upgraded_bytes.
       if upgraded_bytes = sp_proof_bytes latest then return_act latest
       else bind_act (lift_act (make_stored_proof (sv_lib sv) (snap_order_reference snapshot) (sp_version latest + 1)
              (snap_manifest_digest snapshot) upgraded_bytes PS_CALENDAR_PENDING (sp_calendar_submitted_at latest) None)) (\<lambda>upgraded.
            bind_act (append_or_same sv 0 upgraded) (\<lambda>_. return_act upgraded)))"

definition upgrade_handler :: "services \<Rightarrow> string \<Rightarrow> unit db_action" where
  "upgrade_handler sv order_id =
     bind_act (load order_id) (\<lambda>order.
     let snapshot = st_snapshot (fo_state order) in
     bind_act (proofs_latest_act sv (snap_order_reference snapshot)) (\<lambda>found.
       case found of
         None \<Rightarrow> raise_act (ManualReviewError ''proof_missing'')
       | Some latest0 \<Rightarrow>
           bind_act (lift_act (check_stored sv (snap_manifest_digest snapshot) latest0)) (\<lambda>_.
           if fo_calendar_submitted_at order \<noteq> Some (sp_calendar_submitted_at latest0)
           then raise_act (ManualReviewError ''proof_submission_time_conflict'')
           else if st_fulfillment (fo_state order) = BITCOIN_VERIFIED \<or> st_fulfillment (fo_state order) = DELIVERED
           then reverify_latest sv order_id order latest0
           else if st_fulfillment (fo_state order) \<noteq> CALENDAR_PENDING
           then raise_act (ManualReviewError ''upgrade_state_invalid'')
           else bind_act (upgrade_proof sv snapshot latest0) (\<lambda>latest.
                bind_act (lift_act (verify_bitcoin sv (snap_manifest_digest snapshot) (sp_proof_bytes latest))) (\<lambda>v.
                if \<not> bv_verified v then raise_act (ConfirmationPending ''bitcoin_confirmation_pending'')
                else bind_act (transaction (put_verified_once_tx order_id (sp_version latest) v (sv_now sv 1))) (\<lambda>_.
                     bind_act (record_observation sv 2 order_id (sp_version latest) v) (\<lambda>_.
                     bind_act (transition_once sv 3 order_id BITCOIN_VERIFIED
                       (''bitcoin-verified-v'' @ int_str (sp_version latest)) None) (\<lambda>_. return_act ()))))))))"

section \<open>DeliveryHandler\<close>

definition enqueue_notice ::
  "services \<Rightarrow> nat \<Rightarrow> notification_kind \<Rightarrow> order_snapshot \<Rightarrow> int \<Rightarrow> int \<Rightarrow> unit db_action" where
  "enqueue_notice sv n kind snapshot proof_version confirmations =
     bind_act (lift_act (notification_message kind (snap_order_reference snapshot) (snap_email snapshot)
         proof_version confirmations)) (\<lambda>m.
       transaction (outbox_enqueue_tx (sv_outbox sv) (sv_new_id sv n) m (sv_now sv n)))"

definition delivery_handler :: "services \<Rightarrow> string \<Rightarrow> unit db_action" where
  "delivery_handler sv order_id =
     bind_act (load order_id) (\<lambda>order.
     let snapshot = st_snapshot (fo_state order); state = st_fulfillment (fo_state order) in
     if state \<noteq> BITCOIN_VERIFIED \<and> state \<noteq> DELIVERED then raise_act (ManualReviewError ''delivery_state_invalid'')
     else if fo_calendar_submitted_at order = None then raise_act (ManualReviewError ''proof_submission_time_missing'')
     else bind_act (proofs_latest_act sv (snap_order_reference snapshot)) (\<lambda>found.
       case found of
         None \<Rightarrow> raise_act (ManualReviewError ''proof_missing'')
       | Some p \<Rightarrow>
           if fo_calendar_submitted_at order \<noteq> Some (sp_calendar_submitted_at p)
           then raise_act (ManualReviewError ''proof_submission_time_conflict'')
           else bind_act (read_act (get_verified order_id (sp_version p))) (\<lambda>verification.
             if (case verification of None \<Rightarrow> True | Some v \<Rightarrow> \<not> bv_verified v)
             then raise_act (ManualReviewError ''delivery_verification_metadata_missing'')
             else if sp_proof_state p \<noteq> PS_BITCOIN_VERIFIED \<or> sp_verification p \<noteq> verification
             then raise_act (ManualReviewError ''delivery_proof_metadata_mismatch'')
             else bind_act (read_act (observations_latest order_id (sp_version p))) (\<lambda>found_ob.
               case found_ob of
                 None \<Rightarrow> raise_act (ManualReviewError ''delivery_confirmation_observation_missing'')
               | Some ob \<Rightarrow>
                   if co_confirmations ob < 1
                   then raise_act (ManualReviewError ''delivery_confirmation_observation_missing'')
                   else bind_act (lift_act (sv_receipt sv p (snap_certificate_reference snapshot) (sv_version sv))) (\<lambda>receipt.
                        bind_act (lift_act (if \<not> (1 \<le> length (sv_version sv) \<and> length (sv_version sv) \<le> 64)
                          then Inl (ValueError ''bundle_service_version_invalid'')
                          else sv_bundle sv p receipt (snap_certificate_reference snapshot) (sv_version sv))) (\<lambda>bundle.
                        bind_act (transaction (put_bundle_once_tx (sv_sha sv) order_id (sp_version p) bundle (sv_now sv 0))) (\<lambda>_.
                        enqueue_notice sv 1 INITIAL_CONFIRMATION snapshot (sp_version p) (co_confirmations ob))))))))"

section \<open>ConfirmationHandler\<close>

definition confirmation_handler :: "services \<Rightarrow> string \<Rightarrow> unit db_action" where
  "confirmation_handler sv order_id =
     bind_act (load order_id) (\<lambda>order.
     let snapshot = st_snapshot (fo_state order); state = st_fulfillment (fo_state order) in
     if state \<noteq> BITCOIN_VERIFIED \<and> state \<noteq> DELIVERED
     then raise_act (ManualReviewError ''confirmation_monitor_state_invalid'')
     else bind_act (proofs_latest_act sv (snap_order_reference snapshot)) (\<lambda>found.
       case found of
         None \<Rightarrow> raise_act (ManualReviewError ''proof_missing'')
       | Some p \<Rightarrow>
           bind_act (lift_act (check_stored sv (snap_manifest_digest snapshot) p)) (\<lambda>_.
           bind_act (read_act (get_verified order_id (sp_version p))) (\<lambda>stored.
           bind_act (read_act (observations_latest order_id (sp_version p))) (\<lambda>previous.
             case (stored, previous) of
               (Some s, Some prev) \<Rightarrow>
                 bind_act (lift_act (verify_bitcoin sv (snap_manifest_digest snapshot) (sp_proof_bytes p))) (\<lambda>current.
                 if \<not> bv_verified current then raise_act (ManualReviewError ''bitcoin_confirmation_lost'')
                 else bind_act (lift_act (same_reverification_evidence (Some s) current)) (\<lambda>same.
                   if \<not> same then raise_act (ManualReviewError ''bitcoin_reverification_metadata_conflict'')
                   else case bv_confirmations current of
                       None \<Rightarrow> raise_act AssertionError
                     | Some n \<Rightarrow>
                         if n < co_confirmations prev
                         then raise_act (ManualReviewError ''bitcoin_confirmation_count_decreased'')
                         else bind_act (record_observation sv 0 order_id (sp_version p) current) (\<lambda>ob.
                           if co_confirmations ob < 6
                           then raise_act (ConfirmationPending ''bitcoin_final_confirmation_pending'')
                           else enqueue_notice sv 1 FINAL_CONFIRMATION snapshot (sp_version p) (co_confirmations ob))))
             | _ \<Rightarrow> raise_act (ManualReviewError ''confirmation_monitor_evidence_missing''))))))"

section \<open>TerminalFailureHandler\<close>

definition terminal_failure :: "services \<Rightarrow> nat \<Rightarrow> string \<Rightarrow> string \<Rightarrow> unit db_action" where
  "terminal_failure sv n order_id safe_code =
     bind_act (transition_once sv n order_id MANUAL_REVIEW (''worker-terminal-'' @ safe_code) None) (\<lambda>_. return_act ())"

end
