(* ===== verification/Worker.thy ===== *)
theory Worker
  imports Fulfillment
begin

text \<open>
  The worker: the job handlers and the handler table of \<open>worker/composition.py\<close>, the claim, heartbeat and
  finish loop of \<open>worker/runner.py\<close>, the task endpoint of \<open>tasks/http.py\<close> and the operator commands of
  \<open>worker/operator.py\<close>. The values of the clock and of \<open>uuid4\<close> are taken from the record of services
  by position. Cancellation of the worker's own task (\<open>asyncio.CancelledError\<close>) and logging are not
  modelled.
\<close>

section \<open>worker/composition.py\<close>

definition STAMP_JOB :: string where "STAMP_JOB = ''stamp_manifest_digest''"
definition UPGRADE_JOB :: string where "UPGRADE_JOB = ''upgrade_timestamp''"
definition DELIVERY_JOB :: string where "DELIVERY_JOB = ''deliver_timestamp''"
definition CONFIRMATION_JOB :: string where "CONFIRMATION_JOB = ''monitor_bitcoin_confirmations''"
definition PENDING_POLL_INTERVAL :: int where "PENDING_POLL_INTERVAL = hours 6"
definition CONFIRMATION_POLL_INTERVAL :: int where "CONFIRMATION_POLL_INTERVAL = minutes 15"

text \<open>\<open>try\<close> with an \<open>except\<close> that ends the call, and an \<open>else\<close>.\<close>

definition try_else :: "('s, 'a) action \<Rightarrow> (exn \<Rightarrow> ('s, 'b) action) \<Rightarrow> ('a \<Rightarrow> ('s, 'b) action) \<Rightarrow> ('s, 'b) action" where
  "try_else m h k s = (case m s of (Inl e, s') \<Rightarrow> h e s' | (Inr x, s') \<Rightarrow> k x s')"

definition enqueue_job ::
  "services \<Rightarrow> task_creator option \<Rightarrow> nat \<Rightarrow> string \<Rightarrow> string \<Rightarrow> string \<Rightarrow> datetime \<Rightarrow> unit db_action" where
  "enqueue_job sv create n job_key kind order_id available_at =
     bind_act (lift_act (JobSpec \<lparr>spec_job_key = job_key, spec_kind = kind, spec_order_id = order_id,
       spec_max_attempts = 10\<rparr>)) (\<lambda>spec.
     bind_act (enqueue_once create (sv_new_id sv n) spec available_at (sv_now sv n) (sv_now sv (n + 1))) (\<lambda>_.
       return_act ()))"

definition stamp_job :: "services \<Rightarrow> task_creator option \<Rightarrow> string \<Rightarrow> unit db_action" where
  "stamp_job sv create order_id =
     bind_act (stamp_handler sv order_id) (\<lambda>_.
       enqueue_job sv create 11 (''upgrade:'' @ order_id) UPGRADE_JOB order_id (sv_now sv 10))"

definition upgrade_job :: "services \<Rightarrow> task_creator option \<Rightarrow> string \<Rightarrow> unit db_action" where
  "upgrade_job sv create order_id =
     try_else (upgrade_handler sv order_id)
       (\<lambda>e. case e of
          ConfirmationPending _ \<Rightarrow>
            let next_poll = dt_add (sv_now sv 10) PENDING_POLL_INTERVAL
            in enqueue_job sv create 11 (''upgrade-poll:'' @ order_id @ '':'' @ int_str (timestamp_seconds next_poll))
                 UPGRADE_JOB order_id next_poll
        | _ \<Rightarrow> raise_act e)
       (\<lambda>_. bind_act (read_act (get_for_fulfillment order_id)) (\<lambda>found.
          case found of
            None \<Rightarrow> return_act ()
          | Some order \<Rightarrow>
              if st_fulfillment (fo_state order) = BITCOIN_VERIFIED
              then enqueue_job sv create 11 (''delivery:'' @ order_id) DELIVERY_JOB order_id (sv_now sv 10)
              else return_act ()))"

definition enqueue_confirmation_poll :: "services \<Rightarrow> task_creator option \<Rightarrow> string \<Rightarrow> unit db_action" where
  "enqueue_confirmation_poll sv create order_id =
     (let poll = dt_add (sv_now sv 10) CONFIRMATION_POLL_INTERVAL
      in enqueue_job sv create 11 (''confirmation-poll:'' @ order_id @ '':'' @ int_str (timestamp_seconds poll))
           CONFIRMATION_JOB order_id poll)"

definition delivery_job :: "services \<Rightarrow> task_creator option \<Rightarrow> string \<Rightarrow> unit db_action" where
  "delivery_job sv create order_id =
     bind_act (delivery_handler sv order_id) (\<lambda>_. enqueue_confirmation_poll sv create order_id)"

definition confirmation_job :: "services \<Rightarrow> task_creator option \<Rightarrow> string \<Rightarrow> unit db_action" where
  "confirmation_job sv create order_id =
     try_else (confirmation_handler sv order_id)
       (\<lambda>e. case e of ConfirmationPending _ \<Rightarrow> enqueue_confirmation_poll sv create order_id | _ \<Rightarrow> raise_act e)
       return_act"

definition job_handlers :: "services \<Rightarrow> task_creator option \<Rightarrow> string \<Rightarrow> (string \<Rightarrow> unit db_action) option" where
  "job_handlers sv create kind =
     (if kind = STAMP_JOB then Some (stamp_job sv create)
      else if kind = UPGRADE_JOB then Some (upgrade_job sv create)
      else if kind = DELIVERY_JOB then Some (delivery_job sv create)
      else if kind = CONFIRMATION_JOB then Some (confirmation_job sv create)
      else None)"

section \<open>worker/runner.py\<close>

definition OPAQUE_WORKER_ID :: "string \<Rightarrow> bool" where
  "OPAQUE_WORKER_ID s = match_head is_alnum (\<lambda>c. is_alnum c \<or> c \<in> set ''_-'') 127 s"

record worker_settings =
  ws_lease_for :: int
  ws_heartbeat_every_seconds :: rat

definition WorkerSettings :: "worker_settings \<Rightarrow> exn + worker_settings" where
  "WorkerSettings s =
     (if ws_lease_for s \<le> seconds 10 then Inl (ValueError ''worker_lease_too_short'')
      else if \<not> (1 \<le> ws_heartbeat_every_seconds s \<and>
                 ws_heartbeat_every_seconds s < of_int (ws_lease_for s) / 1000000 / 2)
      then Inl (ValueError ''worker_heartbeat_interval_invalid'')
      else Inr s)"

definition default_worker_settings :: worker_settings where
  "default_worker_settings = \<lparr>ws_lease_for = minutes 2, ws_heartbeat_every_seconds = 30\<rparr>"

record worker =
  wk_id :: string
  wk_services :: services
  wk_create :: "task_creator option"
  wk_settings :: worker_settings
  wk_backoff :: backoff_policy
  wk_now :: "nat \<Rightarrow> datetime"
  wk_jitter :: rat

definition Worker :: "worker \<Rightarrow> exn + worker" where
  "Worker w = (if \<not> OPAQUE_WORKER_ID (wk_id w) then Inl (ValueError ''worker_id_must_be_opaque'') else Inr w)"

text \<open>\<open>timedelta(seconds=x)\<close>: to microseconds, a half to the even neighbour.\<close>

definition timedelta_micros :: "rat \<Rightarrow> int" where
  "timedelta_micros x =
     (let y = x * 1000000; f = \<lfloor>y\<rfloor>; r = y - of_int f
      in if r < 1 / 2 then f else if 1 / 2 < r then f + 1 else if even f then f else f + 1)"

text \<open>
  \<open>_heartbeat\<close>: one heartbeat per tick of the timer, until one is refused. The result says whether
  the lease is still held. An exception ends the task without an effect.
\<close>

fun heartbeat_loop :: "worker \<Rightarrow> claimed_job \<Rightarrow> datetime list \<Rightarrow> bool db_action" where
  "heartbeat_loop w job [] = return_act True"
| "heartbeat_loop w job (t # ts) =
     try_else (heartbeat (cj_id job) (wk_id w) (cj_attempt job) (dt_add t (ws_lease_for (wk_settings w))) t)
       (\<lambda>_. return_act True)
       (\<lambda>ok. if ok then heartbeat_loop w job ts else return_act False)"

definition terminal_of :: "worker \<Rightarrow> claimed_job \<Rightarrow> string \<Rightarrow> unit db_action" where
  "terminal_of w job safe_code = terminal_failure (wk_services w) 20 (spec_order_id (cj_spec job)) safe_code"

definition worker_finish :: "worker \<Rightarrow> claimed_job \<Rightarrow> job_outcome \<Rightarrow> string option \<Rightarrow> unit db_action" where
  "worker_finish w job outcome safe_code =
     finish (wk_create w) job outcome (wk_now w 2) None safe_code (wk_now w 3)"

definition retry_or_exhaust :: "worker \<Rightarrow> claimed_job \<Rightarrow> string \<Rightarrow> unit db_action" where
  "retry_or_exhaust w job safe_code =
     (if spec_max_attempts (cj_spec job) \<le> cj_attempt job
      then bind_act (terminal_of w job safe_code) (\<lambda>_. worker_finish w job O_DEAD_LETTER (Some safe_code))
      else bind_act (lift_act (backoff_delay (wk_backoff w) (cj_attempt job) (wk_jitter w))) (\<lambda>delay.
             finish (wk_create w) job O_RETRY (wk_now w 2) (Some (dt_add (wk_now w 1) (timedelta_micros delay)))
               (Some safe_code) (wk_now w 3)))"

text \<open>What follows the end of the handler, by the exception it ended with.\<close>

definition conclude :: "worker \<Rightarrow> claimed_job \<Rightarrow> exn option \<Rightarrow> unit db_action" where
  "conclude w job error =
     (case error of
        None \<Rightarrow> worker_finish w job O_COMPLETE None
      | Some (ManualReviewError safe_code) \<Rightarrow>
          bind_act (terminal_of w job safe_code) (\<lambda>_. worker_finish w job O_MANUAL_REVIEW (Some safe_code))
      | Some (RetryableFulfillmentError safe_code) \<Rightarrow> retry_or_exhaust w job safe_code
      | Some _ \<Rightarrow> retry_or_exhaust w job ''job_unexpected_failure'')"

text \<open>
  \<open>_run_claimed\<close>. The heartbeats run concurrently with the handler: \<open>ticks\<close> are the times the timer fires
  before the handler ends. A heartbeat reads and writes only the lease of the job's row, which no handler reads or
  writes, so the model runs them first. When one is refused the handler is cancelled; \<open>committed\<close> is, for each job, the part of
  the handler's transactions that were committed by then.
\<close>

definition run_claimed :: "worker \<Rightarrow> claimed_job \<Rightarrow> datetime list \<Rightarrow> (claimed_job \<Rightarrow> unit db_action) \<Rightarrow> unit db_action" where
  "run_claimed w job ticks committed =
     (case job_handlers (wk_services w) (wk_create w) (spec_kind (cj_spec job)) of
        None \<Rightarrow>
          bind_act (terminal_of w job ''job_kind_unknown'') (\<lambda>_.
            worker_finish w job O_MANUAL_REVIEW (Some ''job_kind_unknown''))
      | Some handler \<Rightarrow>
          bind_act (heartbeat_loop w job ticks) (\<lambda>held.
            if \<not> held then committed job
            else bind_act (try_else (handler (spec_order_id (cj_spec job)))
                   (\<lambda>e. return_act (Some e)) (\<lambda>_. return_act None)) (\<lambda>error.
                 bind_act (heartbeat (cj_id job) (wk_id w) (cj_attempt job)
                   (dt_add (wk_now w 0) (ws_lease_for (wk_settings w))) (wk_now w 0)) (\<lambda>still.
                   if \<not> still then return_act () else conclude w job error))))"

definition run_once :: "worker \<Rightarrow> datetime \<Rightarrow> datetime list \<Rightarrow> (claimed_job \<Rightarrow> unit db_action) \<Rightarrow> bool db_action" where
  "run_once w now ticks committed =
     bind_act (claim (wk_id w) now (ws_lease_for (wk_settings w))) (\<lambda>claimed.
       case claimed of
         None \<Rightarrow> return_act False
       | Some job \<Rightarrow> bind_act (run_claimed w job ticks committed) (\<lambda>_. return_act True))"

definition run_specific ::
  "worker \<Rightarrow> string \<Rightarrow> int \<Rightarrow> datetime \<Rightarrow> datetime list \<Rightarrow> (claimed_job \<Rightarrow> unit db_action) \<Rightarrow> bool db_action" where
  "run_specific w job_id generation now ticks committed =
     bind_act (claim_specific job_id generation (wk_id w) now (ws_lease_for (wk_settings w))) (\<lambda>claimed.
       case claimed of
         None \<Rightarrow> return_act False
       | Some job \<Rightarrow> bind_act (run_claimed w job ticks committed) (\<lambda>_. return_act True))"

section \<open>tasks/http.py\<close>

text \<open>
  The endpoint the task queue calls. The body is read by \<open>json.loads\<close> and validated by the model class; the
  parameter \<open>decode\<close> is that reading, a job id and a generation, or nothing. \<open>int(text)\<close> takes blanks at both ends,
  a sign and single underscores between digits.
\<close>

fun dec_nat :: "string \<Rightarrow> bool \<Rightarrow> nat \<Rightarrow> nat option" where
  "dec_nat [] prev acc = (if prev then Some acc else None)"
| "dec_nat (c # cs) prev acc =
     (if c = CHR ''_'' then (if prev then dec_nat cs False acc else None)
      else if is_digit c then dec_nat cs True (10 * acc + (code c - 48)) else None)"

definition py_int :: "string \<Rightarrow> int option" where
  "py_int s =
     (case strip_chars is_py_space s of
        c # cs \<Rightarrow>
          if c = CHR ''-'' then map_option (\<lambda>n. - int n) (dec_nat cs False 0)
          else if c = CHR ''+'' then map_option int (dec_nat cs False 0)
          else map_option int (dec_nat (c # cs) False 0)
      | [] \<Rightarrow> None)"

record task_request =
  tq_content_type :: string
  tq_content_length :: "string option"
  tq_task_name :: string
  tq_queue_name :: string
  tq_body :: bytes

definition MAX_TASK_BODY :: int where "MAX_TASK_BODY = 128"

definition after_last_slash :: "string \<Rightarrow> string" where
  "after_last_slash s = rev (takeWhile (\<lambda>c. c \<noteq> CHR ''/'') (rev s))"

text \<open>What the request asks for, or status 400.\<close>

definition task_target :: "(bytes \<Rightarrow> (uuid \<times> int) option) \<Rightarrow> string \<Rightarrow> task_request \<Rightarrow> (uuid \<times> int) option" where
  "task_target decode expected_queue r =
     (case py_int (case tq_content_length r of None \<Rightarrow> '''' | Some s \<Rightarrow> s) of
        None \<Rightarrow> None
      | Some declared_length \<Rightarrow>
          if media_type (tq_content_type r) \<noteq> ''application/json'' \<or>
             \<not> (1 \<le> declared_length \<and> declared_length \<le> MAX_TASK_BODY) \<or> tq_queue_name r \<noteq> expected_queue
          then None
          else if int (length (tq_body r)) \<noteq> declared_length \<or> MAX_TASK_BODY < int (length (tq_body r)) then None
          else case decode (tq_body r) of
              None \<Rightarrow> None
            | Some (job_id, generation) \<Rightarrow>
                if \<not> (1 \<le> generation \<and> generation \<le> 999999999) then None
                else (case deterministic_task_name job_id generation of
                    Inl _ \<Rightarrow> None
                  | Inr name \<Rightarrow> if after_last_slash (tq_task_name r) \<noteq> name then None else Some (job_id, generation)))"

definition run_task ::
  "(bytes \<Rightarrow> (uuid \<times> int) option) \<Rightarrow> string \<Rightarrow> task_creator \<Rightarrow> worker \<Rightarrow> datetime \<Rightarrow> datetime list \<Rightarrow> (claimed_job \<Rightarrow> unit db_action)
     \<Rightarrow> datetime \<Rightarrow> task_request \<Rightarrow> int db_action" where
  "run_task decode expected_queue create w now ticks committed later r =
     (case task_target decode expected_queue r of
        None \<Rightarrow> return_act 400
      | Some (job_id, generation) \<Rightarrow>
          try_else
            (bind_act (run_specific w (uuid_str job_id) generation now ticks committed) (\<lambda>_. reconcile create 100 None later))
            (\<lambda>e. case e of SpecificJobRetryable _ \<Rightarrow> return_act 503
                 | TaskDispatchUnavailable _ \<Rightarrow> return_act 503 | _ \<Rightarrow> raise_act e)
            (\<lambda>_. return_act 204))"

section \<open>worker/operator.py\<close>

definition REVERIFICATION_REQUEST_ID :: "string \<Rightarrow> bool" where
  "REVERIFICATION_REQUEST_ID s = match_head is_alnum (\<lambda>c. is_alnum c \<or> c \<in> set ''_-'') 31 s"

definition enqueue_proof_job ::
  "services \<Rightarrow> task_creator option \<Rightarrow> string \<Rightarrow> string \<Rightarrow> fulfillment_state list \<Rightarrow> string option \<Rightarrow> unit db_action" where
  "enqueue_proof_job sv create order_id job_prefix allowed request_id =
     bind_act (read_act (get_for_fulfillment order_id)) (\<lambda>found.
       case found of
         None \<Rightarrow> raise_act (ValueError ''order_not_found'')
       | Some order \<Rightarrow>
           if st_fulfillment (fo_state order) \<notin> set allowed then raise_act (ValueError ''order_not_eligible'')
           else bind_act (proofs_latest_act sv (snap_order_reference (st_snapshot (fo_state order)))) (\<lambda>latest.
             case latest of
               None \<Rightarrow> raise_act (ValueError ''proof_not_found'')
             | Some p \<Rightarrow>
                 enqueue_job sv create 0
                   (job_prefix @ '':'' @ order_id @ '':v'' @ int_str (sp_version p) @ '':'' @
                    (case request_id of None \<Rightarrow> ''default'' | Some [] \<Rightarrow> ''default'' | Some s \<Rightarrow> s))
                   UPGRADE_JOB order_id (sv_now sv 2)))"

definition operator_reverify ::
  "services \<Rightarrow> task_creator option \<Rightarrow> string \<Rightarrow> string option \<Rightarrow> unit db_action" where
  "operator_reverify sv create order_id request_id =
     (if (case request_id of None \<Rightarrow> False | Some s \<Rightarrow> \<not> REVERIFICATION_REQUEST_ID s)
      then raise_act (ValueError ''reverification_request_id_invalid'')
      else enqueue_proof_job sv create order_id ''reverify'' [BITCOIN_VERIFIED, DELIVERED] request_id)"

definition operator_upgrade :: "services \<Rightarrow> task_creator option \<Rightarrow> string \<Rightarrow> unit db_action" where
  "operator_upgrade sv create order_id =
     enqueue_proof_job sv create order_id ''upgrade-manual'' [CALENDAR_PENDING] None"

definition validate_terminal_recovery :: "services \<Rightarrow> string \<Rightarrow> unit db_action" where
  "validate_terminal_recovery sv order_id =
     bind_act (read_act (get_for_fulfillment order_id)) (\<lambda>found.
       case found of
         None \<Rightarrow> raise_act (ValueError ''terminal_recovery_order_state_invalid'')
       | Some order \<Rightarrow>
           let snapshot = st_snapshot (fo_state order) in
           if st_fulfillment (fo_state order) \<noteq> MANUAL_REVIEW
           then raise_act (ValueError ''terminal_recovery_order_state_invalid'')
           else bind_act (proofs_latest_act sv (snap_order_reference snapshot)) (\<lambda>latest.
             case latest of
               None \<Rightarrow> raise_act (ValueError ''terminal_recovery_proof_missing'')
             | Some p \<Rightarrow>
                 if sp_target_digest p \<noteq> snap_manifest_digest snapshot
                 then raise_act (ValueError ''terminal_recovery_target_mismatch'')
                 else if fo_calendar_submitted_at order \<noteq> Some (sp_calendar_submitted_at p)
                 then raise_act (ValueError ''terminal_recovery_calendar_time_mismatch'')
                 else lift_act (validate_proof (sv_lib sv) (snap_manifest_digest snapshot) (sp_proof_bytes p)
                        (Some (sp_proof_sha256 p)))))"

definition operator_replay :: "services \<Rightarrow> task_creator option \<Rightarrow> string \<Rightarrow> unit db_action" where
  "operator_replay sv create job_id =
     bind_act (transaction (replay_tx job_id (sv_now sv 0))) (\<lambda>r.
       case r of
         Inr target \<Rightarrow> dispatch_if create (Some target) (sv_now sv 1)
       | Inl order_id \<Rightarrow>
           bind_act (validate_terminal_recovery sv (uuid_str order_id)) (\<lambda>_.
             raise_act (RuntimeError ''terminal_recovery_requires_ws1_state_transition'')))"

text \<open>\<open>reconcile_tasks\<close> and \<open>recover_stale_tasks\<close>.\<close>

definition operator_reconcile :: "task_creator option \<Rightarrow> int \<Rightarrow> datetime \<Rightarrow> (int \<times> int) db_action" where
  "operator_reconcile create limit now =
     (case create of
        None \<Rightarrow> raise_act (RuntimeError ''task_dispatch_disabled'')
      | Some c \<Rightarrow> bind_act (reconcile c limit None now) (\<lambda>r. return_act (rr_selected r, rr_dispatched r)))"

definition operator_recover_stale ::
  "task_creator option \<Rightarrow> int \<Rightarrow> int \<Rightarrow> datetime \<Rightarrow> datetime \<Rightarrow> (int \<times> int) db_action" where
  "operator_recover_stale create limit stale_grace recovered_at now =
     (case create of
        None \<Rightarrow> raise_act (RuntimeError ''task_dispatch_disabled'')
      | Some c \<Rightarrow> bind_act (recover_stale_dispatched c stale_grace limit recovered_at now) (\<lambda>r.
          return_act (rr_selected r, rr_dispatched r)))"

text \<open>\<open>purge_synthetic\<close>, with the rows the foreign keys delete in cascade: the task records of the deleted jobs and
  the attempts of the deleted messages.\<close>

definition purge_tx :: "uuid \<Rightarrow> unit db_tx" where
  "purge_tx oid d =
     (let job_ids = map j_id (filter (\<lambda>j. j_order_id j = oid) (durable_jobs d));
          message_ids = map om_id (filter (\<lambda>m. om_order_id m = oid) (outbox d))
      in case find_order oid d of
           None \<Rightarrow> Inl (ValueError ''synthetic_order_not_found'')
         | Some order \<Rightarrow>
             if o_payment_mode order \<noteq> ''fixture'' then Inl (ValueError ''synthetic_order_not_found'')
             else Inr ((), d\<lparr>job_attempts := filter (\<lambda>a. ja_job_id a \<notin> set job_ids) (job_attempts d),
               task_dispatches := filter (\<lambda>t. td_job_id t \<notin> set job_ids) (task_dispatches d),
               durable_jobs := filter (\<lambda>j. j_order_id j \<noteq> oid) (durable_jobs d),
               notification_attempts := filter (\<lambda>a. na_outbox_id a \<notin> set message_ids) (notification_attempts d),
               outbox := filter (\<lambda>m. om_order_id m \<noteq> oid) (outbox d)\<rparr>))"

definition purge_synthetic :: "bool \<Rightarrow> bool \<Rightarrow> string \<Rightarrow> bool \<Rightarrow> unit db_action" where
  "purge_synthetic test_env fixture_payments order_id preserve_proofs =
     (if \<not> preserve_proofs \<or> \<not> test_env \<or> \<not> fixture_payments then raise_act (RuntimeError ''synthetic_purge_forbidden'')
      else bind_act (lift_act (operator_uuid order_id)) (\<lambda>oid. transaction (purge_tx oid)))"

end
