(* ===== verification/Credentials.thy ===== *)
theory Credentials
  imports Evidence
begin

text \<open>
  The credentials of a customer: base64url, the bearer tokens of \<open>security/tokens.py\<close> and
  \<open>auth/status_token.py\<close>, the idempotency keys of \<open>security/idempotency.py\<close>, and their tables in
  \<open>db/repositories.py\<close>: the tokens of an order, the rate counters, and the removal of old rows in
  \<open>db/cleanup.py\<close>. HMAC-SHA-256 and SHA-256 are parameters; so is \<open>secrets.token_bytes\<close>.
\<close>

section \<open>base64url without padding\<close>

text \<open>The alphabet: upper case, lower case, digits, hyphen and underscore.\<close>

definition b64_digit :: "nat \<Rightarrow> char" where
  "b64_digit n =
     (if n < 26 then char_of (65 + n) else if n < 52 then char_of (71 + n)
      else if n < 62 then char_of (n - 4) else if n = 62 then CHR ''-'' else CHR ''_'')"

definition b64_char :: "char \<Rightarrow> bool" where
  "b64_char c \<longleftrightarrow> is_alnum c \<or> c \<in> set ''_-''"

text \<open>\<open>urlsafe_b64encode(_).rstrip(b'=')\<close>, three bytes at a time.\<close>

fun b64url :: "bytes \<Rightarrow> string" where
  "b64url [] = []"
| "b64url [a] = [b64_digit (unat a div 4), b64_digit (unat a mod 4 * 16)]"
| "b64url [a, b] =
     [b64_digit (unat a div 4), b64_digit (unat a mod 4 * 16 + unat b div 16), b64_digit (unat b mod 16 * 4)]"
| "b64url (a # b # c # rest) =
     b64_digit (unat a div 4) # b64_digit (unat a mod 4 * 16 + unat b div 16) #
     b64_digit (unat b mod 16 * 4 + unat c div 64) # b64_digit (unat c mod 64) # b64url rest"

definition b64_value :: "char \<Rightarrow> nat option" where
  "b64_value c =
     (if is_upper c then Some (code c - 65) else if is_lower c then Some (code c - 71)
      else if is_digit c then Some (code c + 4) else if c = CHR ''-'' then Some 62
      else if c = CHR ''_'' then Some 63 else None)"

text \<open>\<open>b64decode(key + padding, altchars=b'-_', validate=True)\<close>: the bits left over at the end are dropped, and a
  single character over is an error.\<close>

fun b64_decode :: "nat list \<Rightarrow> bytes option" where
  "b64_decode [] = Some []"
| "b64_decode [w] = None"
| "b64_decode [w, x] = Some [word_of_nat (w * 4 + x div 16)]"
| "b64_decode [w, x, y] = Some [word_of_nat (w * 4 + x div 16), word_of_nat (x mod 16 * 16 + y div 4)]"
| "b64_decode (w # x # y # z # rest) =
     map_option (\<lambda>bs. word_of_nat (w * 4 + x div 16) # word_of_nat (x mod 16 * 16 + y div 4) #
       word_of_nat (y mod 4 * 64 + z) # bs) (b64_decode rest)"

section \<open>security/idempotency.py\<close>

record idempotency_binding =
  ib_key_sha256 :: bytes
  ib_request_sha256 :: bytes
  ib_canonical_body :: bytes

definition KEY :: "string \<Rightarrow> bool" where
  "KEY s = match_class b64_char 22 86 s"

definition decode_key :: "string \<Rightarrow> exn + bytes" where
  "decode_key key =
     (if \<not> KEY key then Inl (ValueError ''idempotency key must be unpadded base64url containing 128 through 512 bits'')
      else case b64_decode (map (\<lambda>c. the (b64_value c)) key) of
          None \<Rightarrow> Inl (ValueError ''idempotency key must be valid base64url'')
        | Some decoded \<Rightarrow>
            if b64url decoded \<noteq> key \<or> \<not> (16 \<le> length decoded \<and> length decoded \<le> 64)
            then Inl (ValueError ''idempotency key must contain 128 through 512 bits'')
            else Inr decoded)"

text \<open>\<open>str.upper\<close> leaves an ASCII text unchanged when it has no lower-case letter. The canonical JSON of the body
  is the parameter \<open>canonical\<close>.\<close>

definition bind_idempotency_request ::
  "(bytes \<Rightarrow> bytes) \<Rightarrow> ('b \<Rightarrow> exn + bytes) \<Rightarrow> string \<Rightarrow> string \<Rightarrow> string \<Rightarrow> 'b \<Rightarrow> exn + idempotency_binding" where
  "bind_idempotency_request sha canonical key method_name path body =
     bind_res (decode_key key) (\<lambda>key_bytes.
       if \<not> list_all (\<lambda>c. code c < 128) method_name \<or> list_ex is_lower method_name \<or> take 1 path \<noteq> ''/''
       then Inl (ValueError ''method and path must be canonical'')
       else bind_res (canonical body) (\<lambda>canonical_body.
         Inr \<lparr>ib_key_sha256 = sha (ascii_bytes ''spacerocks-idempotency-key'' @ [0] @ key_bytes),
              ib_request_sha256 = sha (ascii_bytes method_name @ [0] @ utf8 path @ [0] @ canonical_body),
              ib_canonical_body = canonical_body\<rparr>))"

section \<open>security/tokens.py\<close>

record hashed_token =
  ht_version :: int
  ht_digest :: bytes

definition HashedToken :: "int \<Rightarrow> bytes \<Rightarrow> exn + hashed_token" where
  "HashedToken version digest =
     (if version < 1 \<or> length digest \<noteq> 32 then Inl (ValueError ''invalid versioned token hash'')
      else Inr \<lparr>ht_version = version, ht_digest = digest\<rparr>)"

definition generate_bearer_token :: "int \<Rightarrow> bytes \<Rightarrow> exn + string" where
  "generate_bearer_token version random =
     (if version < 1 then Inl (ValueError ''token version must be positive'')
      else Inr (''v'' @ int_str version @ ''.'' @ b64url random))"

text \<open>The pattern \<open>v([1-9][0-9]*)\.([A-Za-z0-9_-]{43})\<close> and its first group.\<close>

definition token_version :: "string \<Rightarrow> int option" where
  "token_version token =
     (case token of
        c # rest \<Rightarrow>
          let digits = takeWhile is_digit rest; tail = dropWhile is_digit rest
          in if c = CHR ''v'' \<and> digits \<noteq> [] \<and> hd digits \<noteq> CHR ''0'' \<and> take 1 tail = ''.'' \<and>
                match_class b64_char 43 43 (drop 1 tail)
             then Some (int (nat_of_str digits 0)) else None
      | [] \<Rightarrow> None)"

record token_hasher =
  th_hmac :: "bytes \<Rightarrow> bytes \<Rightarrow> bytes"
  th_peppers :: "(int \<times> bytes) list"

definition TokenHasher :: "token_hasher \<Rightarrow> exn + token_hasher" where
  "TokenHasher th =
     (if th_peppers th = [] \<or> list_ex (\<lambda>(version, pepper). version < 1 \<or> length pepper < 32) (th_peppers th)
      then Inl (ValueError ''each token pepper must be versioned and contain at least 32 bytes'')
      else Inr th)"

definition TOKEN_CONTEXT :: bytes where
  "TOKEN_CONTEXT = ascii_bytes ''spacerocks-status-token'' @ [0]"

definition hash_token :: "token_hasher \<Rightarrow> string \<Rightarrow> exn + hashed_token" where
  "hash_token th token =
     (case token_version token of
        None \<Rightarrow> Inl (ValueError ''invalid bearer token format'')
      | Some version \<Rightarrow>
          (case map_of (th_peppers th) version of
             None \<Rightarrow> Inl (ValueError ''unknown token pepper version'')
           | Some pepper \<Rightarrow> HashedToken version (th_hmac th pepper (TOKEN_CONTEXT @ ascii_bytes token))))"

text \<open>\<open>int.to_bytes(8, 'big')\<close> raises from \<open>2 ^ 64\<close> on; below it two versions have the same bytes exactly when they are
  equal.\<close>

definition verify_token :: "token_hasher \<Rightarrow> string \<Rightarrow> hashed_token \<Rightarrow> exn + bool" where
  "verify_token th token expected =
     bind_res (case hash_token th token of
         Inr h \<Rightarrow> Inr h
       | Inl e \<Rightarrow> if is_ValueError e then HashedToken (ht_version expected) (replicate 32 0) else Inl e) (\<lambda>candidate.
       if 2 ^ 64 \<le> ht_version candidate \<or> 2 ^ 64 \<le> ht_version expected then Inl (OtherException ''OverflowError'')
       else Inr (ht_version candidate = ht_version expected \<and> ht_digest candidate = ht_digest expected))"

section \<open>auth/status_token.py\<close>

record stored_token =
  stk_token_hash :: hashed_token
  stk_revoked_at :: "datetime option"
  stk_expires_at :: "datetime option"

definition authenticate_status_token ::
  "string \<Rightarrow> stored_token \<Rightarrow> token_hasher \<Rightarrow> datetime option \<Rightarrow> exn + bool" where
  "authenticate_status_token raw_token stored th now =
     bind_res (verify_token th raw_token (stk_token_hash stored)) (\<lambda>valid.
     bind_res (case stk_expires_at stored of
         None \<Rightarrow> Inr True
       | Some t \<Rightarrow> (case now of None \<Rightarrow> Inr False | Some n \<Rightarrow> bind_res (dt_le t n) (\<lambda>b. Inr (\<not> b)))) (\<lambda>unexpired.
       Inr (valid \<and> stk_revoked_at stored = None \<and> unexpired)))"

section \<open>db/repositories.py: the tokens of an order\<close>

record order_store =
  os_token_hasher :: token_hasher
  os_active_pepper_version :: int
  os_token_ttl :: int

definition revoke_tokens :: "uuid \<Rightarrow> datetime \<Rightarrow> db \<Rightarrow> db" where
  "revoke_tokens order_id now d =
     d\<lparr>order_tokens := upd_row (\<lambda>t. tk_order_id t = order_id \<and> tk_revoked_at t = None)
         (\<lambda>t. t\<lparr>tk_revoked_at := Some now\<rparr>) (order_tokens d)\<rparr>"

definition issue_token :: "order_store \<Rightarrow> bytes \<Rightarrow> order_row \<Rightarrow> datetime \<Rightarrow> bool \<Rightarrow> string db_tx" where
  "issue_token os random order now revoke_existing d =
     (let d1 = (if revoke_existing then revoke_tokens (o_id order) now d else d);
          sequence = max_of tk_version (filter (\<lambda>t. tk_order_id t = o_id order) (order_tokens d1))
      in bind_res (generate_bearer_token (os_active_pepper_version os) random) (\<lambda>raw.
         bind_res (hash_token (os_token_hasher os) raw) (\<lambda>hashed.
           bind_tx (insert_token \<lparr>tk_order_id = o_id order, tk_version = sequence + 1,
               tk_pepper_version = ht_version hashed, tk_token_hash = ht_digest hashed, tk_revoked_at = None,
               tk_expires_at = dt_add now (os_token_ttl os), tk_created_at = now\<rparr>)
             (\<lambda>_. return_tx raw) d1)))"

definition authenticate :: "order_store \<Rightarrow> string \<Rightarrow> datetime \<Rightarrow> db \<Rightarrow> exn + (order_row \<times> token_row) option" where
  "authenticate os raw_token now d =
     (case hash_token (os_token_hasher os) raw_token of
        Inl e \<Rightarrow> if is_ValueError e then Inr None else Inl e
      | Inr hashed \<Rightarrow>
          (case find (\<lambda>t. tk_pepper_version t = ht_version hashed \<and> tk_token_hash t = ht_digest hashed) (order_tokens d) of
             None \<Rightarrow> Inr None
           | Some token \<Rightarrow>
               bind_res (HashedToken (tk_pepper_version token) (tk_token_hash token)) (\<lambda>token_hash.
               bind_res (authenticate_status_token raw_token
                   \<lparr>stk_token_hash = token_hash, stk_revoked_at = tk_revoked_at token,
                    stk_expires_at = Some (aware (tk_expires_at token))\<rparr>
                   (os_token_hasher os) (Some (aware now))) (\<lambda>ok.
                 if \<not> ok then Inr None
                 else Inr (map_option (\<lambda>order. (order, token)) (find_order (tk_order_id token) d))))))"

section \<open>db/repositories.py: rate counters\<close>

text \<open>\<open>now.replace(second=0, microsecond=0)\<close>, for offsets of whole minutes.\<close>

definition minute_of :: "datetime \<Rightarrow> datetime" where
  "minute_of now = dt_add now (- (micros now mod minutes 1))"

definition is_counter :: "string \<Rightarrow> bytes \<Rightarrow> datetime \<Rightarrow> rate_row \<Rightarrow> bool" where
  "is_counter endpoint key_hash window r \<longleftrightarrow>
     rc_endpoint r = endpoint \<and> rc_key_hash r = key_hash \<and> rc_window_started_at r = window"

text \<open>\<open>INSERT ... ON CONFLICT DO UPDATE ... RETURNING\<close>; the other branch of the code does the same in two
  statements.\<close>

definition bump_counter :: "string \<Rightarrow> bytes \<Rightarrow> datetime \<Rightarrow> int db_tx" where
  "bump_counter endpoint key_hash window d =
     (case find (is_counter endpoint key_hash window) (rate_counters d) of
        Some r \<Rightarrow>
          Inr (rc_request_count r + 1, d\<lparr>rate_counters := upd_row (is_counter endpoint key_hash window)
            (\<lambda>r. r\<lparr>rc_request_count := rc_request_count r + 1\<rparr>) (rate_counters d)\<rparr>)
      | None \<Rightarrow>
          if length key_hash \<noteq> 32 then Inl IntegrityError
          else Inr (1, d\<lparr>rate_counters := rate_counters d @ [\<lparr>rc_endpoint = endpoint, rc_key_hash = key_hash,
            rc_window_started_at = window, rc_request_count = 1\<rparr>]\<rparr>))"

definition rate_key :: "(bytes \<Rightarrow> bytes \<Rightarrow> bytes) \<Rightarrow> bytes \<Rightarrow> string \<Rightarrow> bytes" where
  "rate_key hmac pepper client_address =
     hmac pepper (ascii_bytes ''spacerocks-rate-limit'' @ [0] @ utf8 client_address)"

definition hit :: "(bytes \<Rightarrow> bytes \<Rightarrow> bytes) \<Rightarrow> bytes \<Rightarrow> string \<Rightarrow> string \<Rightarrow> datetime \<Rightarrow> int \<Rightarrow> bool db_tx" where
  "hit hmac pepper endpoint client_address now limit =
     bind_tx (bump_counter endpoint (rate_key hmac pepper client_address) (minute_of now)) (\<lambda>count.
       return_tx (count \<le> limit))"

section \<open>db/cleanup.py\<close>

definition cleanup_ephemeral_records :: "datetime \<Rightarrow> datetime \<Rightarrow> datetime \<Rightarrow> (nat \<times> nat \<times> nat) db_tx" where
  "cleanup_ephemeral_records expired_token_before idempotency_before rate_counter_before d =
     (let gone_token = (\<lambda>t. micros (tk_expires_at t) < micros expired_token_before);
          gone_request = (\<lambda>r. micros (ir_created_at r) < micros idempotency_before);
          gone_counter = (\<lambda>r. micros (rc_window_started_at r) < micros rate_counter_before)
      in Inr ((length (filter gone_token (order_tokens d)), length (filter gone_request (idempotency_requests d)),
               length (filter gone_counter (rate_counters d))),
              d\<lparr>order_tokens := filter (\<lambda>t. \<not> gone_token t) (order_tokens d),
                idempotency_requests := filter (\<lambda>r. \<not> gone_request r) (idempotency_requests d),
                rate_counters := filter (\<lambda>r. \<not> gone_counter r) (rate_counters d)\<rparr>))"

section \<open>base64url can be read back\<close>

lemma b64_digit_ok: "n < 64 \<Longrightarrow> b64_value (b64_digit n) = Some n" "n < 64 \<Longrightarrow> b64_char (b64_digit n)"
  by (auto simp: b64_value_def b64_digit_def b64_char_def char_class_defs)

lemma b64_bounds:
  fixes a b :: "8 word"
  shows "unat a div 4 < 64" "unat a mod 4 * 16 < 64" "unat a mod 16 * 4 < 64" "unat a mod 64 < 64"
    "unat a mod 4 * 16 + unat b div 16 < 64" "unat a mod 16 * 4 + unat b div 64 < 64"
proof -
  have byte: "unat a < 256" "unat b < 256" by (rule unat_byte_lt)+
  have "unat a mod 4 < 4" "unat a mod 16 < 16" "unat b div 16 < 16" "unat b div 64 < 4" using byte by simp_all
  then show "unat a mod 4 * 16 + unat b div 16 < 64" "unat a mod 16 * 4 + unat b div 64 < 64" by linarith+
qed (use unat_byte_lt [of a] in simp_all)

lemma byte_parts:
  fixes b :: "8 word"
  shows "unat b div 16 div 16 = 0" "unat b div 16 mod 16 = unat b div 16" "unat b div 64 div 4 = 0"
    "unat b div 64 mod 4 = unat b div 64"
  using unat_byte_lt [of b] by simp_all

lemma byte_join:
  fixes b :: "8 word"
  shows "word_of_nat (unat b div 4) * 4 + word_of_nat (unat b mod 4) = b"
    "word_of_nat (unat b div 16) * 16 + word_of_nat (unat b mod 16) = b"
    "word_of_nat (unat b div 64) * 64 + word_of_nat (unat b mod 64) = b"
proof -
  have "(word_of_nat (unat b div k * k + unat b mod k) :: 8 word) = b" for k by simp
  then show "word_of_nat (unat b div 4) * 4 + word_of_nat (unat b mod 4) = b"
    "word_of_nat (unat b div 16) * 16 + word_of_nat (unat b mod 16) = b"
    "word_of_nat (unat b div 64) * 64 + word_of_nat (unat b mod 64) = b"
    by (metis of_nat_add of_nat_mult of_nat_numeral)+
qed

lemma b64_decode_encode: "b64_decode (map (\<lambda>c. the (b64_value c)) (b64url bs)) = Some bs"
  by (induction bs rule: b64url.induct) (simp_all add: b64_digit_ok b64_bounds byte_parts byte_join)

lemma b64url_chars: "list_all b64_char (b64url bs)"
  by (induction bs rule: b64url.induct) (simp_all add: b64_digit_ok b64_bounds)

lemma length_b64url: "length (b64url bs) = (4 * length bs + 2) div 3"
  by (induction bs rule: b64url.induct) simp_all

text \<open>\<open>_decode_key\<close> accepts exactly the unpadded base64url texts of 16 to 64 bytes, in their one canonical
  spelling, and returns those bytes.\<close>

theorem decode_key_iff:
  "decode_key key = Inr bs \<longleftrightarrow> key = b64url bs \<and> 16 \<le> length bs \<and> length bs \<le> 64"
proof
  assume "decode_key key = Inr bs"
  then show "key = b64url bs \<and> 16 \<le> length bs \<and> length bs \<le> 64"
    by (auto simp: decode_key_def split: if_splits option.splits)
next
  assume key: "key = b64url bs \<and> 16 \<le> length bs \<and> length bs \<le> 64"
  then have "22 \<le> length key" "length key \<le> 86"
    unfolding length_b64url [of bs, folded conjunct1 [OF key]] by linarith+
  then have "KEY key" using key b64url_chars by (simp add: KEY_def match_class_def)
  then show "decode_key key = Inr bs" using key b64_decode_encode by (simp add: decode_key_def)
qed

section \<open>Tokens\<close>

lemma token_version_generated:
  assumes "generate_bearer_token version random = Inr raw" "length random = 32"
  shows "token_version raw = Some version"
proof -
  have version: "1 \<le> version" and raw: "raw = ''v'' @ nat_str (nat version) @ ''.'' @ b64url random"
    using assms(1) by (auto simp: generate_bearer_token_def int_str_def split: if_splits)
  define ds where "ds = nat_str (nat version)"
  have digits: "\<And>c. c \<in> set ds \<Longrightarrow> is_digit c" using nat_str_digits [of "nat version"] by (simp add: ds_def list_all_iff)
  have dot: "\<not> is_digit (CHR ''.'')" by (simp add: is_digit_def code_def)
  have "takeWhile is_digit (ds @ ''.'' @ b64url random) = ds" "dropWhile is_digit (ds @ ''.'' @ b64url random) = ''.'' @ b64url random"
    using digits dot by (simp_all add: takeWhile_append2 dropWhile_append2)
  moreover have "hd ds \<noteq> CHR ''0''" using nat_str_head [of "nat version"] version by (simp add: ds_def)
  moreover have "match_class b64_char 43 43 (b64url random)"
    using assms(2) b64url_chars by (simp add: match_class_def length_b64url)
  ultimately show ?thesis
    using version by (simp add: token_version_def raw Let_def ds_def [symmetric]) (simp add: ds_def nat_of_nat_str)
qed

lemma issue_token_parts:
  assumes "issue_token os random order now revoke d = Inr (raw, d')"
  obtains hashed row where "generate_bearer_token (os_active_pepper_version os) random = Inr raw"
    "hash_token (os_token_hasher os) raw = Inr hashed"
    "tk_order_id row = o_id order" "tk_pepper_version row = ht_version hashed" "tk_token_hash row = ht_digest hashed"
    "tk_revoked_at row = None" "tk_expires_at row = dt_add now (os_token_ttl os)"
    "d' = d\<lparr>order_tokens := order_tokens (if revoke then revoke_tokens (o_id order) now d else d) @ [row]\<rparr>"
    "unique_among tk_token_hash row (order_tokens (if revoke then revoke_tokens (o_id order) now d else d))"
    "find_order (o_id order) d \<noteq> None"
proof -
  define d1 where "d1 = (if revoke then revoke_tokens (o_id order) now d else d)"
  have same: "d1 = d\<lparr>order_tokens := order_tokens d1\<rparr>" "find_order i d1 = find_order i d" for i
    by (simp_all add: d1_def revoke_tokens_def find_order_def)
  from assms obtain hashed row where "generate_bearer_token (os_active_pepper_version os) random = Inr raw"
    "hash_token (os_token_hasher os) raw = Inr hashed" and ins: "insert_token row d1 = Inr ((), d')"
    and row: "tk_order_id row = o_id order" "tk_pepper_version row = ht_version hashed" "tk_token_hash row = ht_digest hashed"
    "tk_revoked_at row = None" "tk_expires_at row = dt_add now (os_token_ttl os)"
    by (auto simp: issue_token_def Let_def bind_res_Inr_iff bind_tx_Inr d1_def [symmetric])
  moreover from ins have unique: "unique_among tk_token_hash row (order_tokens d1)"
    and found: "find_order (tk_order_id row) d1 \<noteq> None" and d': "d' = d1\<lparr>order_tokens := order_tokens d1 @ [row]\<rparr>"
    by (auto simp: insert_token_def split: if_splits)
  have "d' = d\<lparr>order_tokens := order_tokens d1 @ [row]\<rparr>" using d' by (simp add: d1_def revoke_tokens_def)
  moreover have "find_order (o_id order) d \<noteq> None" using found row(1) same(2) by simp
  ultimately show thesis
    using that [of hashed row, folded d1_def] unique row by blast
qed

lemma hash_token_Inr:
  assumes "hash_token th token = Inr h"
  shows "token_version token = Some (ht_version h)" "1 \<le> ht_version h" "length (ht_digest h) = 32"
  using assms by (auto simp: hash_token_def HashedToken_def split: option.splits if_splits)

text \<open>What a successful authentication rests on.\<close>

lemma authenticate_SomeD:
  assumes "authenticate os raw now d = Inr (Some (order, token))"
  shows "\<exists>h. hash_token (os_token_hasher os) raw = Inr h \<and> tk_pepper_version token = ht_version h \<and>
      tk_token_hash token = ht_digest h"
    "token \<in> set (order_tokens d)" "tk_revoked_at token = None" "micros now < micros (tk_expires_at token)"
    "find_order (tk_order_id token) d = Some order"
  using assms
  by (auto simp: authenticate_def authenticate_status_token_def dt_le_def bind_res_Inr_iff
      dest: find_SomeD split: sum.splits option.splits if_splits)

lemma authenticate_found:
  assumes hash: "hash_token (os_token_hasher os) raw = Inr h" and small: "ht_version h < 2 ^ 64"
    and found: "find (\<lambda>t. tk_pepper_version t = ht_version h \<and> tk_token_hash t = ht_digest h) (order_tokens d) = Some token"
    and live: "tk_revoked_at token = None" "micros now < micros (tk_expires_at token)"
    and order: "find_order (tk_order_id token) d = Some order"
  shows "authenticate os raw now d = Inr (Some (order, token))"
proof -
  have token: "tk_pepper_version token = ht_version h" "tk_token_hash token = ht_digest h"
    using find_SomeD [OF found] by simp_all
  have "HashedToken (ht_version h) (ht_digest h) = Inr h"
    using hash_token_Inr [OF hash] by (simp add: HashedToken_def)
  moreover have "verify_token (os_token_hasher os) raw h = Inr True"
    using hash small by (simp add: verify_token_def)
  ultimately show ?thesis
    using hash found live order token
    by (simp add: authenticate_def authenticate_status_token_def dt_le_def)
qed

text \<open>C36. A token that \<open>issue_token\<close> returns authenticates its own order, and no other, until it expires; when the
  earlier tokens were revoked, no other token authenticates the order any more.\<close>

theorem issued_token_authenticates:
  assumes issue: "issue_token os random order now revoke d = Inr (raw, d')" and random: "length random = 32"
    and version: "os_active_pepper_version os < 2 ^ 64"
  shows "(\<forall>t. micros t < micros now + os_token_ttl os \<longrightarrow>
        (\<exists>found token. authenticate os raw t d' = Inr (Some (found, token)) \<and> o_id found = o_id order)) \<and>
      (revoke \<longrightarrow> (\<forall>raw' t found token. authenticate os raw' t d' = Inr (Some (found, token)) \<and>
        o_id found = o_id order \<longrightarrow> hash_token (os_token_hasher os) raw' = hash_token (os_token_hasher os) raw))"
proof -
  from issue obtain hashed row where gen: "generate_bearer_token (os_active_pepper_version os) random = Inr raw"
    and hash: "hash_token (os_token_hasher os) raw = Inr hashed"
    and row: "tk_order_id row = o_id order" "tk_pepper_version row = ht_version hashed" "tk_token_hash row = ht_digest hashed"
      "tk_revoked_at row = None" "tk_expires_at row = dt_add now (os_token_ttl os)"
    and d': "d' = d\<lparr>order_tokens := order_tokens (if revoke then revoke_tokens (o_id order) now d else d) @ [row]\<rparr>"
    and fresh: "unique_among tk_token_hash row (order_tokens (if revoke then revoke_tokens (o_id order) now d else d))"
    and found: "find_order (o_id order) d \<noteq> None"
    by (rule issue_token_parts)
  have "ht_version hashed = os_active_pepper_version os"
    using token_version_generated [OF gen random] hash_token_Inr(1) [OF hash] by simp
  then have small: "ht_version hashed < 2 ^ 64" using version by simp
  have "find (\<lambda>t. tk_pepper_version t = ht_version hashed \<and> tk_token_hash t = ht_digest hashed)
      (order_tokens (if revoke then revoke_tokens (o_id order) now d else d)) = None"
    using fresh row(3) unfolding find_None unique_among_def list_all_iff by metis
  then have first: "find (\<lambda>t. tk_pepper_version t = ht_version hashed \<and> tk_token_hash t = ht_digest hashed) (order_tokens d') = Some row"
    using row by (simp add: d' find_append)
  obtain own where own: "find_order (o_id order) d = Some own" using found by auto
  then have own': "find_order (tk_order_id row) d' = Some own" "o_id own = o_id order"
    using row(1) by (auto simp: d' find_order_def dest: find_SomeD)
  have "\<exists>found token. authenticate os raw t d' = Inr (Some (found, token)) \<and> o_id found = o_id order"
    if "micros t < micros now + os_token_ttl os" for t
    using authenticate_found [OF hash small first row(4) _ own'(1), of t] that row(5) own'(2) by auto
  moreover have "hash_token (os_token_hasher os) raw' = hash_token (os_token_hasher os) raw"
    if revoked: revoke and auth: "authenticate os raw' t d' = Inr (Some (found, token))" and same: "o_id found = o_id order"
    for raw' t found token
  proof -
    note auth' = authenticate_SomeD [OF auth]
    have "tk_order_id token = o_id order" using auth'(5) same by (auto simp: find_order_def dest: find_SomeD)
    then have "token = row"
      using auth'(2,3) revoked by (auto simp: d' revoke_tokens_def set_upd_row split: if_splits)
    then show ?thesis using auth'(1) hash row(2,3) by (metis hashed_token.equality old.unit.exhaust)
  qed
  ultimately show ?thesis by blast
qed

definition sample_token_store :: order_store where
  "sample_token_store = \<lparr>os_token_hasher = \<lparr>th_hmac = \<lambda>pepper message. replicate 32 7, th_peppers = [(1, replicate 32 9)]\<rparr>,
     os_active_pepper_version = 1, os_token_ttl = hours 24\<rparr>"

lemma sample_issue_any:
  assumes "find_order (o_id order) d \<noteq> None" "order_tokens d = []"
  shows "\<exists>raw d'. issue_token sample_token_store (replicate 32 0) order now revoke d = Inr (raw, d')"
proof -
  obtain raw where raw: "generate_bearer_token 1 (replicate 32 0) = Inr raw" by (simp add: generate_bearer_token_def)
  then have "token_version raw = Some 1" by (rule token_version_generated) simp
  then have "hash_token (os_token_hasher sample_token_store) raw = Inr \<lparr>ht_version = 1, ht_digest = replicate 32 7\<rparr>"
    by (simp add: hash_token_def sample_token_store_def HashedToken_def)
  then show ?thesis
    using raw assms by (auto simp: issue_token_def sample_token_store_def insert_token_def bind_tx_def return_tx_def
        revoke_tokens_def find_order_def unique_among_def Let_def)
qed

lemma sample_issue: "\<exists>raw d'. issue_token sample_token_store (replicate 32 0) sample_order (Aware 0) True sample_db = Inr (raw, d')"
  by (rule sample_issue_any) (simp_all add: find_order_def sample_db_def empty_db_def)

theorem issued_token_authenticates_witness:
  "\<exists>raw d' found token. issue_token sample_token_store (replicate 32 0) sample_order (Aware 0) True sample_db = Inr (raw, d') \<and>
     authenticate sample_token_store raw (Aware 5) d' = Inr (Some (found, token)) \<and> o_id found = o_id sample_order"
proof -
  obtain raw d' where issue: "issue_token sample_token_store (replicate 32 0) sample_order (Aware 0) True sample_db = Inr (raw, d')"
    using sample_issue by blast
  have "\<exists>found token. authenticate sample_token_store raw (Aware 5) d' = Inr (Some (found, token)) \<and> o_id found = o_id sample_order"
    using issued_token_authenticates [OF issue] by (simp add: sample_token_store_def duration_defs)
  with issue show ?thesis by blast
qed

section \<open>Rate limits\<close>

text \<open>A sequence of requests, each with its endpoint, client and time, and the count of a counter.\<close>

fun run_hits :: "(bytes \<Rightarrow> bytes \<Rightarrow> bytes) \<Rightarrow> bytes \<Rightarrow> int \<Rightarrow> (string \<times> string \<times> datetime) list \<Rightarrow> bool list db_tx" where
  "run_hits hmac pepper limit [] = return_tx []"
| "run_hits hmac pepper limit ((endpoint, client, now) # calls) =
     bind_tx (hit hmac pepper endpoint client now limit) (\<lambda>ok.
       bind_tx (run_hits hmac pepper limit calls) (\<lambda>oks. return_tx (ok # oks)))"

definition count_of :: "string \<Rightarrow> bytes \<Rightarrow> datetime \<Rightarrow> db \<Rightarrow> int" where
  "count_of endpoint key window d =
     (case find (is_counter endpoint key window) (rate_counters d) of None \<Rightarrow> 0 | Some r \<Rightarrow> rc_request_count r)"

definition counts_for :: "(bytes \<Rightarrow> bytes \<Rightarrow> bytes) \<Rightarrow> bytes \<Rightarrow> string \<Rightarrow> bytes \<Rightarrow> datetime \<Rightarrow> string \<times> string \<times> datetime \<Rightarrow> bool" where
  "counts_for hmac pepper endpoint key window call \<longleftrightarrow>
     (case call of (e, client, now) \<Rightarrow> e = endpoint \<and> rate_key hmac pepper client = key \<and> minute_of now = window)"

lemma bump_counter_count:
  assumes "bump_counter e k w d = Inr (n, d')"
  shows "n = count_of e k w d + 1"
    "count_of e' k' w' d' = count_of e' k' w' d + (if e' = e \<and> k' = k \<and> w' = w then 1 else 0)"
proof -
  have other: "is_counter e' k' w' r \<Longrightarrow> is_counter e k w r \<longleftrightarrow> e' = e \<and> k' = k \<and> w' = w" for r
    by (auto simp: is_counter_def)
  show "n = count_of e k w d + 1"
    using assms by (auto simp: bump_counter_def count_of_def split: option.splits if_splits)
  show "count_of e' k' w' d' = count_of e' k' w' d + (if e' = e \<and> k' = k \<and> w' = w then 1 else 0)"
  proof (cases "find (is_counter e k w) (rate_counters d)")
    case None
    then have "d' = d\<lparr>rate_counters := rate_counters d @ [\<lparr>rc_endpoint = e, rc_key_hash = k,
        rc_window_started_at = w, rc_request_count = 1\<rparr>]\<rparr>"
      using assms by (auto simp: bump_counter_def split: if_splits)
    then show ?thesis
      using None by (auto simp: count_of_def find_append is_counter_def split: option.splits)
  next
    case (Some r)
    then have "rate_counters d' = upd_row (is_counter e k w) (\<lambda>r. r\<lparr>rc_request_count := rc_request_count r + 1\<rparr>) (rate_counters d)"
      using assms by (auto simp: bump_counter_def)
    moreover have "is_counter e' k' w' (x\<lparr>rc_request_count := y\<rparr>) = is_counter e' k' w' x" for x y
      by (simp add: is_counter_def)
    ultimately have "find (is_counter e' k' w') (rate_counters d') =
        map_option (\<lambda>r. if is_counter e k w r then r\<lparr>rc_request_count := rc_request_count r + 1\<rparr> else r)
          (find (is_counter e' k' w') (rate_counters d))"
      by (simp add: find_upd_row)
    then show ?thesis
      using Some other by (auto simp: count_of_def dest: find_SomeD split: option.splits)
  qed
qed

text \<open>Of the requests of one client to one endpoint in one minute, exactly the first ones are accepted, up to the
  limit, whatever other requests come between them.\<close>

theorem rate_limit_exact:
  assumes "run_hits hmac pepper limit calls d = Inr (oks, d')"
  shows "map snd (filter (\<lambda>(call, ok). counts_for hmac pepper endpoint key window call) (zip calls oks)) =
    map (\<lambda>n. count_of endpoint key window d + int n < limit)
      [0..<length (filter (counts_for hmac pepper endpoint key window) calls)]"
  using assms
proof (induction calls arbitrary: d oks)
  case Nil
  then show ?case by simp
next
  case (Cons call calls)
  obtain e client now where call: "call = (e, client, now)" by (cases call)
  from Cons.prems call obtain n d1 oks' where bump: "bump_counter e (rate_key hmac pepper client) (minute_of now) d = Inr (n, d1)"
    and rest: "run_hits hmac pepper limit calls d1 = Inr (oks', d')" and oks: "oks = (n \<le> limit) # oks'"
    by (auto simp: hit_def bind_tx_Inr)
  note count = bump_counter_count [OF bump]
  let ?m = "length (filter (counts_for hmac pepper endpoint key window) calls)"
  note IH = Cons.IH [OF rest]
  show ?case
  proof (cases "counts_for hmac pepper endpoint key window call")
    case True
    then have one: "count_of endpoint key window d1 = count_of endpoint key window d + 1" "n = count_of endpoint key window d + 1"
      using count by (auto simp: counts_for_def call)
    have "map (\<lambda>i. count_of endpoint key window d + int i < limit) [0..<Suc ?m] =
        (count_of endpoint key window d < limit) # map (\<lambda>i. count_of endpoint key window d + 1 + int i < limit) [0..<?m]"
      by (simp only: upt_conv_Cons [OF zero_less_Suc] map_Suc_upt [symmetric] list.map list.map_comp)
        (simp add: algebra_simps comp_def)
    then show ?thesis using True IH one by (simp add: oks add1_zle_eq)
  next
    case False
    then have "count_of endpoint key window d1 = count_of endpoint key window d"
      using count(2) [of endpoint key window] by (auto simp: counts_for_def call)
    then show ?thesis using False IH by (simp add: oks)
  qed
qed

theorem rate_limit_exact_witness:
  "\<exists>d'. run_hits (\<lambda>k m. replicate 32 3) [] 2 (replicate 3 (''checkout'', ''10.0.0.1'', Aware 61000000)) empty_db =
      Inr ([True, True, False], d') \<and>
    map snd (filter (\<lambda>(call, ok). counts_for (\<lambda>k m. replicate 32 3) [] ''checkout'' (replicate 32 3) (Aware 60000000) call)
      (zip (replicate 3 (''checkout'', ''10.0.0.1'', Aware 61000000)) [True, True, False])) =
    map (\<lambda>n. count_of ''checkout'' (replicate 32 3) (Aware 60000000) empty_db + int n < 2) [0..<3]"
proof -
  have minute: "minute_of (Aware 61000000) = Aware 60000000" by (simp add: minute_of_def duration_defs dt_add_def)
  have key: "rate_key (\<lambda>k m. replicate 32 3) [] client = replicate 32 3" for client by (simp add: rate_key_def)
  obtain d' where run: "run_hits (\<lambda>k m. replicate 32 3) [] 2 (replicate 3 (''checkout'', ''10.0.0.1'', Aware 61000000)) empty_db =
      Inr ([True, True, False], d')"
    by (simp add: numeral_3_eq_3 hit_def bind_tx_def return_tx_def bump_counter_def empty_db_def is_counter_def minute key)
  have "length (filter (counts_for (\<lambda>k m. replicate 32 3) [] ''checkout'' (replicate 32 3) (Aware 60000000))
      (replicate 3 (''checkout'', ''10.0.0.1'', Aware 61000000))) = 3"
    by (simp add: numeral_3_eq_3 counts_for_def minute key)
  with run rate_limit_exact [OF run, of "''checkout''" "replicate 32 3" "Aware 60000000"] show ?thesis by auto
qed

end
