(* ===== verification/Payments.thy ===== *)
theory Payments
  imports Credentials
begin

text \<open>
  Checkout and payment webhooks, \<open>payments/service.py\<close>, with the values of \<open>payments/models.py\<close> and the order
  operations of \<open>OrderStore\<close> in \<open>db/repositories.py\<close>. The payment provider is the record
  \<open>payment_provider\<close> of its five operations; SHA-256 is a parameter; \<open>uuid4\<close> gives the successive values of
  \<open>new_id\<close>; \<open>int(now.timestamp() * 1000)\<close>, which is computed in floating point, is an argument.
\<close>

section \<open>payments/models.py\<close>

record hosted_checkout_request =
  hr_internal_order_id :: string
  hr_order_reference :: string
  hr_customer_email :: string
  hr_price_id :: string
  hr_amount_minor :: int
  hr_currency :: string
  hr_success_url :: string
  hr_cancel_url :: string

record hosted_checkout_result =
  hc_session_id :: string
  hc_checkout_url :: string

record provider_price =
  pr_price_id :: string
  pr_amount_minor :: int
  pr_currency :: string

record provider_event =
  pe_event_id :: string
  pe_event_type :: string
  pe_livemode :: bool
  pe_internal_order_id :: "string option"
  pe_session_id :: "string option"
  pe_payment_intent_id :: "string option"
  pe_refund_status :: "string option"
  pe_refunded_amount :: "int option"

record canonical_checkout =
  cc_session_id :: string
  cc_payment_intent_id :: "string option"
  cc_livemode :: bool
  cc_mode :: string
  cc_status :: string
  cc_payment_status :: string
  cc_metadata :: "(string \<times> string) list"
  cc_price_id :: string
  cc_amount_total :: int
  cc_currency :: string
  cc_quantity :: int
  cc_refund_status :: "string option"
  cc_refunded_amount_total :: int

datatype payment_mode = PM_DISABLED | PM_FIXTURE | PM_STRIPE_TEST | PM_STRIPE_LIVE

fun payment_mode_value :: "payment_mode \<Rightarrow> string" where
  "payment_mode_value PM_DISABLED = ''disabled''"
| "payment_mode_value PM_FIXTURE = ''fixture''"
| "payment_mode_value PM_STRIPE_TEST = ''stripe_test''"
| "payment_mode_value PM_STRIPE_LIVE = ''stripe_live''"

record payment_provider =
  pp_payment_mode :: payment_mode
  pp_create_checkout :: "hosted_checkout_request \<Rightarrow> string \<Rightarrow> exn + hosted_checkout_result"
  pp_retrieve_price :: "string \<Rightarrow> exn + provider_price"
  pp_verify_event :: "bytes \<Rightarrow> string \<Rightarrow> int \<Rightarrow> exn + provider_event"
  pp_resolve_internal_order_id :: "provider_event \<Rightarrow> exn + string option"
  pp_retrieve_checkout :: "string \<Rightarrow> exn + canonical_checkout"

text \<open>The settings the two services read.\<close>

record payment_settings =
  ps_checkout_enabled :: bool
  ps_payment_mode :: payment_mode
  ps_expected_terms_version :: string
  ps_expected_privacy_version :: string
  ps_stripe_price_id :: "string option"
  ps_checkout_amount_minor :: int
  ps_checkout_currency :: string
  ps_product_version :: string
  ps_checkout_success_url :: "string option"
  ps_checkout_cancel_url :: "string option"
  ps_checkout_credential_grace_seconds :: int
  ps_stripe_signature_tolerance_seconds :: int

text \<open>\<open>value or default\<close> on an optional string.\<close>

definition or_default :: "string option \<Rightarrow> string \<Rightarrow> string" where
  "or_default v d = (case v of None \<Rightarrow> d | Some s \<Rightarrow> if s = [] then d else s)"

definition expected_price_id :: "payment_settings \<Rightarrow> string" where
  "expected_price_id ps = or_default (ps_stripe_price_id ps) ''fixture_price''"

section \<open>Order references\<close>

definition CROCKFORD :: string where
  "CROCKFORD = ''0123456789ABCDEFGHJKMNPQRSTVWXYZ''"

definition be_value :: "bytes \<Rightarrow> nat" where
  "be_value bs = foldl (\<lambda>acc b. 256 * acc + unat b) 0 bs"

text \<open>The masks and shifts of the code on non-negative integers are remainders and quotients by powers of two.\<close>

definition crockford_encode :: "nat \<Rightarrow> string" where
  "crockford_encode value = map (\<lambda>i. CROCKFORD ! (value div 32 ^ i mod 32)) (rev [0..<26])"

definition new_order_reference :: "int \<Rightarrow> bytes \<Rightarrow> exn + string" where
  "new_order_reference timestamp_ms random_bytes =
     (if length random_bytes < 10 then Inl (ValueError ''order reference requires at least 80 random bits'')
      else Inr (''ts_'' @ crockford_encode (nat (timestamp_ms mod 2 ^ 48) * 2 ^ 80 + be_value (take 10 random_bytes))))"

section \<open>The checkout URL\<close>

text \<open>
  \<open>urllib.parse.urlsplit\<close>. A host in brackets is refused here in every case; the code refuses some of them in
  \<open>urlsplit\<close> and the others because their host is not the expected one, with the same exception. The same holds
  for the normalisation check of a host outside ASCII.
\<close>

record split_url =
  su_scheme :: string
  su_netloc :: string
  su_path :: string
  su_query :: string
  su_fragment :: string

definition split_scheme :: "string \<Rightarrow> string \<times> string" where
  "split_scheme url =
     (let before = takeWhile (\<lambda>c. c \<noteq> CHR '':'') url; rest = dropWhile (\<lambda>c. c \<noteq> CHR '':'') url
      in if rest \<noteq> [] \<and> before \<noteq> [] \<and> (is_lower (hd before) \<or> is_upper (hd before)) \<and>
            list_all (\<lambda>c. is_alnum c \<or> c \<in> set ''+-.'') before
         then (str_lower before, tl rest) else ('''', url))"

definition split_netloc :: "string \<Rightarrow> string \<times> string" where
  "split_netloc url =
     (if take 2 url = ''//''
      then (takeWhile (\<lambda>c. c \<notin> set ''/?#'') (drop 2 url), dropWhile (\<lambda>c. c \<notin> set ''/?#'') (drop 2 url))
      else ('''', url))"

definition split_at :: "char \<Rightarrow> string \<Rightarrow> string \<times> string" where
  "split_at c s = (takeWhile (\<lambda>x. x \<noteq> c) s, drop 1 (dropWhile (\<lambda>x. x \<noteq> c) s))"

definition urlsplit :: "string \<Rightarrow> exn + split_url" where
  "urlsplit value =
     (let url = filter (\<lambda>c. code c \<notin> {9, 10, 13}) (dropWhile (\<lambda>c. code c \<le> 32) value);
          (scheme, rest) = split_scheme url;
          (netloc, rest) = split_netloc rest;
          (rest, fragment) = split_at (CHR ''#'') rest;
          (path, query) = split_at (CHR ''?'') rest
      in if list_ex (\<lambda>c. c \<in> set ''[]'') netloc then Inl (ValueError ''Invalid IPv6 URL'')
         else Inr \<lparr>su_scheme = scheme, su_netloc = netloc, su_path = path, su_query = query, su_fragment = fragment\<rparr>)"

text \<open>\<open>cs_(test|live)_[A-Za-z0-9]{1,500}\<close>, with its first group.\<close>

definition session_mode :: "string \<Rightarrow> string option" where
  "session_mode s =
     (if take 3 s = ''cs_'' \<and> take 5 (drop 3 s) \<in> {''test_'', ''live_''} \<and> match_class is_alnum 1 500 (drop 8 s)
      then Some (take 4 (drop 3 s)) else None)"

definition is_hex_digit :: "char \<Rightarrow> bool" where
  "is_hex_digit c \<longleftrightarrow> hex_value c \<noteq> None"

fun fragment_body :: "string \<Rightarrow> bool" where
  "fragment_body [] = True"
| "fragment_body (c # cs) =
     (if c = CHR ''%'' then (case cs of a # b # rest \<Rightarrow> is_hex_digit a \<and> is_hex_digit b \<and> fragment_body rest | _ \<Rightarrow> False)
      else (is_alnum c \<or> c \<in> set ''._~-'') \<and> fragment_body cs)"

text \<open>\<open>fid(?=.{16,1536}\Z)(?:[A-Za-z0-9._~-]|%[A-Fa-f0-9]{2})+\<close>.\<close>

definition STRIPE_FRAGMENT :: "string \<Rightarrow> bool" where
  "STRIPE_FRAGMENT s \<longleftrightarrow> take 3 s = ''fid'' \<and> 16 \<le> length (drop 3 s) \<and> length (drop 3 s) \<le> 1536 \<and> fragment_body (drop 3 s)"

definition unsafe_url_char :: "char \<Rightarrow> bool" where
  "unsafe_url_char c \<longleftrightarrow> c = CHR 0x5C \<or> code c \<le> 32 \<or> code c = 127"

definition unsafe_url :: exn where
  "unsafe_url = PaymentProviderError ''provider returned an unsafe checkout URL''"

definition validate_checkout_url :: "string \<Rightarrow> string \<Rightarrow> payment_mode \<Rightarrow> exn + unit" where
  "validate_checkout_url value session_id mode =
     (case (case mode of PM_STRIPE_LIVE \<Rightarrow> Some ''live'' | PM_FIXTURE \<Rightarrow> Some ''test'' | PM_STRIPE_TEST \<Rightarrow> Some ''test''
             | PM_DISABLED \<Rightarrow> None) of
        None \<Rightarrow> Inl unsafe_url
      | Some expected \<Rightarrow>
          (case urlsplit value of
             Inl _ \<Rightarrow> Inl unsafe_url
           | Inr parsed \<Rightarrow>
               let fragment_valid = (CHR ''#'' \<notin> set value \<or> STRIPE_FRAGMENT (su_fragment parsed))
               in if 2048 < length value \<or> strip_chars is_py_space value \<noteq> value \<or> list_ex unsafe_url_char value \<or>
                     \<not> prefix ''https://checkout.stripe.com/'' value \<or> session_mode session_id \<noteq> Some expected \<or>
                     su_scheme parsed \<noteq> ''https'' \<or> su_netloc parsed \<noteq> ''checkout.stripe.com'' \<or>
                     CHR ''@'' \<in> set (su_netloc parsed) \<or> su_path parsed \<noteq> ''/c/pay/'' @ session_id \<or>
                     su_query parsed \<noteq> [] \<or> \<not> fragment_valid
                  then Inl unsafe_url else Inr ()))"

section \<open>CheckoutService\<close>

record checkout_input =
  ci_certificate_reference :: string
  ci_manifest_digest :: bytes
  ci_email :: string
  ci_terms_version :: string
  ci_privacy_version :: string
  ci_accepted_at :: datetime

record checkout_output =
  ou_order_reference :: string
  ou_status_token :: string
  ou_checkout_url :: string
  ou_payment_state :: payment_state
  ou_fulfillment_state :: fulfillment_state

record checkout_plan =
  cp_reservation_id :: uuid
  cp_order_id :: uuid
  cp_order_reference :: string
  cp_customer_email :: string
  cp_price_id :: string
  cp_amount_minor :: int
  cp_currency :: string
  cp_success_url :: string
  cp_cancel_url :: string
  cp_provider_idempotency_key :: string
  cp_lease_id :: string

definition checkout_endpoint :: string where
  "checkout_endpoint = ''POST:/v1/checkout''"

definition find_idempotency :: "string \<Rightarrow> bytes \<Rightarrow> db \<Rightarrow> idempotency_row option" where
  "find_idempotency endpoint key_hash d =
     find (\<lambda>r. ir_endpoint r = endpoint \<and> ir_key_hash r = key_hash) (idempotency_requests d)"

definition lease_expiry :: "payment_settings \<Rightarrow> datetime \<Rightarrow> datetime" where
  "lease_expiry ps now = dt_add now (seconds (ps_checkout_credential_grace_seconds ps))"

definition plan_tx :: "idempotency_row \<Rightarrow> checkout_plan db_tx" where
  "plan_tx reservation d =
     (case find_order (ir_order_id reservation) d of
        None \<Rightarrow> Inl (IdempotencyConflict ''reserved order is unavailable'')
      | Some order \<Rightarrow>
          Inr (\<lparr>cp_reservation_id = ir_id reservation, cp_order_id = o_id order,
            cp_order_reference = o_order_reference order, cp_customer_email = o_email order,
            cp_price_id = ir_provider_price_id reservation, cp_amount_minor = o_amount_minor order,
            cp_currency = o_currency order, cp_success_url = ir_success_url reservation,
            cp_cancel_url = ir_cancel_url reservation,
            cp_provider_idempotency_key = ir_provider_idempotency_key reservation,
            cp_lease_id = (case ir_checkout_lease_id reservation of None \<Rightarrow> ''None'' | Some l \<Rightarrow> l)\<rparr>, d))"

definition replay_checkout ::
  "payment_settings \<Rightarrow> order_store \<Rightarrow> bytes \<Rightarrow> idempotency_row \<Rightarrow> idempotency_binding \<Rightarrow> datetime \<Rightarrow> checkout_output db_tx" where
  "replay_checkout ps os token existing binding now d =
     (if ir_request_hash existing \<noteq> ib_request_sha256 binding
      then Inl (IdempotencyConflict ''idempotency key is bound to another request'')
      else case (ir_checkout_state existing = CS_COMPLETED \<and> ir_completed_at existing \<noteq> None, ir_response_body existing) of
          (True, Some body) \<Rightarrow>
            (case find_order_by_reference (rb_order_reference body) d of
               None \<Rightarrow> Inl (IdempotencyConflict ''idempotent order is unavailable'')
             | Some order \<Rightarrow>
                 (case o_checkout_session_id order of
                    None \<Rightarrow> Inl (IdempotencyConflict ''idempotent order is unavailable'')
                  | Some session_id \<Rightarrow>
                      (case validate_checkout_url (rb_checkout_url body) session_id (ps_payment_mode ps) of
                         Inl (PaymentProviderError _) \<Rightarrow> Inl (IdempotencyConflict ''idempotent checkout URL is invalid'')
                       | Inl e \<Rightarrow> Inl e
                       | Inr _ \<Rightarrow>
                           bind_tx (issue_token os token order now True) (\<lambda>raw_token.
                             return_tx \<lparr>ou_order_reference = o_order_reference order, ou_status_token = raw_token,
                               ou_checkout_url = rb_checkout_url body, ou_payment_state = rb_payment_state body,
                               ou_fulfillment_state = rb_fulfillment_state body\<rparr>) d)))
        | _ \<Rightarrow> Inl (IdempotencyConflict ''idempotent request is still incomplete''))"

definition resume_tx ::
  "payment_settings \<Rightarrow> order_store \<Rightarrow> uuid \<Rightarrow> bytes \<Rightarrow> idempotency_row \<Rightarrow> idempotency_binding \<Rightarrow> datetime
     \<Rightarrow> (checkout_plan + checkout_output) db_tx" where
  "resume_tx ps os lease_id token reservation binding now d =
     (case find_order (ir_order_id reservation) d of
        None \<Rightarrow> Inl (IdempotencyConflict ''reserved order is unavailable'')
      | Some order \<Rightarrow>
          if o_payment_mode order \<noteq> payment_mode_value (ps_payment_mode ps)
          then Inl (IdempotencyConflict ''reserved order payment mode does not match checkout mode'')
          else if (case ir_checkout_lease_expires_at reservation of None \<Rightarrow> False | Some t \<Rightarrow> micros now < micros t)
          then Inl (CheckoutInProgress ''checkout credential is in its grace period'')
          else let r1 = reservation\<lparr>ir_checkout_lease_id := Some (uuid_str lease_id),
                      ir_checkout_lease_expires_at := Some (lease_expiry ps now)\<rparr>
            in if ir_checkout_state r1 = CS_COMPLETED
               then bind_tx (update_idempotency r1) (\<lambda>_.
                      bind_tx (replay_checkout ps os token r1 binding now) (\<lambda>out. return_tx (Inr out))) d
               else let r2 = r1\<lparr>ir_checkout_state := CS_PROCESSING\<rparr>
                 in bind_tx (update_idempotency r2) (\<lambda>_. bind_tx (plan_tx r2) (\<lambda>plan. return_tx (Inl plan))) d)"

definition record_state_event ::
  "order_row \<Rightarrow> string \<Rightarrow> string \<Rightarrow> payment_state \<Rightarrow> fulfillment_state \<Rightarrow> datetime \<Rightarrow> unit db_tx" where
  "record_state_event order event_key source previous_payment previous_fulfillment now d =
     insert_state_event \<lparr>ev_order_id = o_id order, ev_sequence = next_sequence (o_id order) d, ev_event_key = event_key,
       ev_source = source, ev_previous_payment_state = Some previous_payment, ev_payment_state = o_payment_state order,
       ev_previous_fulfillment_state = Some previous_fulfillment, ev_fulfillment_state = o_fulfillment_state order,
       ev_evidence = NoEvidence, ev_created_at = now\<rparr> d"

definition reserved_order ::
  "payment_settings \<Rightarrow> uuid \<Rightarrow> string \<Rightarrow> checkout_input \<Rightarrow> datetime \<Rightarrow> order_row" where
  "reserved_order ps order_id order_reference request now =
     \<lparr>o_id = order_id, o_order_reference = order_reference,
      o_certificate_reference = ci_certificate_reference request, o_manifest_digest = ci_manifest_digest request,
      o_email = ci_email request, o_amount_minor = ps_checkout_amount_minor ps,
      o_currency = ps_checkout_currency ps, o_product_version = ps_product_version ps,
      o_payment_mode = payment_mode_value (ps_payment_mode ps), o_payment_state = CHECKOUT_OPEN,
      o_fulfillment_state = AWAITING_PAYMENT, o_consent_terms_version = ci_terms_version request,
      o_consent_privacy_version = ci_privacy_version request, o_consent_accepted_at = ci_accepted_at request,
      o_checkout_session_id = None, o_payment_intent_id = None, o_fulfillment_key = ''stamp:'' @ uuid_str order_id,
      o_calendar_submitted_at = None, o_created_at = now, o_updated_at = now\<rparr>"

definition new_reservation ::
  "payment_settings \<Rightarrow> uuid \<Rightarrow> uuid \<Rightarrow> uuid \<Rightarrow> idempotency_binding \<Rightarrow> datetime \<Rightarrow> idempotency_row" where
  "new_reservation ps reservation_id order_id lease_id binding now =
     \<lparr>ir_id = reservation_id, ir_endpoint = checkout_endpoint, ir_key_hash = ib_key_sha256 binding,
      ir_request_hash = ib_request_sha256 binding, ir_order_id = order_id,
      ir_provider_idempotency_key = hex (ib_key_sha256 binding), ir_provider_price_id = expected_price_id ps,
      ir_success_url = or_default (ps_checkout_success_url ps) ''https://example.test/timestamp/status'',
      ir_cancel_url = or_default (ps_checkout_cancel_url ps) ''https://example.test/timestamp/cancelled'',
      ir_checkout_state = CS_PROCESSING, ir_checkout_lease_id = Some (uuid_str lease_id),
      ir_checkout_lease_expires_at = Some (lease_expiry ps now), ir_response_status = None,
      ir_response_body = None, ir_completed_at = None, ir_created_at = now\<rparr>"

definition resume_existing ::
  "payment_settings \<Rightarrow> order_store \<Rightarrow> uuid \<Rightarrow> bytes \<Rightarrow> idempotency_row \<Rightarrow> idempotency_binding \<Rightarrow> datetime
     \<Rightarrow> (checkout_plan + checkout_output) db_tx" where
  "resume_existing ps os lease_id token existing binding now d =
     (if ir_request_hash existing \<noteq> ib_request_sha256 binding
      then Inl (IdempotencyConflict ''idempotency key is bound to another request'')
      else resume_tx ps os lease_id token existing binding now d)"

definition reserve_tx ::
  "payment_settings \<Rightarrow> order_store \<Rightarrow> (nat \<Rightarrow> uuid) \<Rightarrow> bytes \<Rightarrow> checkout_input \<Rightarrow> idempotency_binding \<Rightarrow> datetime \<Rightarrow> int \<Rightarrow> bytes
     \<Rightarrow> (checkout_plan + checkout_output) db_tx" where
  "reserve_tx ps os new_id token request binding now timestamp_ms random_bytes d =
     (case find_idempotency checkout_endpoint (ib_key_sha256 binding) d of
        Some existing \<Rightarrow> resume_existing ps os (new_id 0) token existing binding now d
      | None \<Rightarrow>
          bind_res (new_order_reference timestamp_ms random_bytes) (\<lambda>order_reference.
            let order = reserved_order ps (new_id 0) order_reference request now;
                reservation = new_reservation ps (new_id 2) (new_id 0) (new_id 1) binding now
            in bind_tx (insert_order order) (\<lambda>_.
               bind_tx (insert_idempotency reservation) (\<lambda>_.
               bind_tx (record_state_event order (''checkout:'' @ uuid_str (o_id order)) ''checkout''
                 (o_payment_state order) (o_fulfillment_state order) now) (\<lambda>_.
               bind_tx (plan_tx reservation) (\<lambda>plan. return_tx (Inl plan))))) d))"

definition reserve ::
  "payment_settings \<Rightarrow> order_store \<Rightarrow> (nat \<Rightarrow> uuid) \<Rightarrow> bytes \<Rightarrow> checkout_input \<Rightarrow> idempotency_binding \<Rightarrow> datetime \<Rightarrow> int \<Rightarrow> bytes
     \<Rightarrow> (checkout_plan + checkout_output) db_action" where
  "reserve ps os new_id token request binding now timestamp_ms random_bytes =
     catch_act (transaction (reserve_tx ps os new_id token request binding now timestamp_ms random_bytes)) (\<lambda>e.
       if e = IntegrityError
       then transaction (\<lambda>d. case find_idempotency checkout_endpoint (ib_key_sha256 binding) d of
              None \<Rightarrow> Inl e
            | Some existing \<Rightarrow> resume_existing ps os (new_id 3) token existing binding now d)
       else raise_act e)"

definition get_checkout_price :: "payment_settings \<Rightarrow> payment_provider \<Rightarrow> exn + provider_price" where
  "get_checkout_price ps pp =
     (if \<not> ps_checkout_enabled ps \<or> ps_payment_mode ps = PM_DISABLED then Inl (CheckoutUnavailable ''checkout is disabled'')
      else if pp_payment_mode pp \<noteq> ps_payment_mode ps
      then Inl (CheckoutUnavailable ''payment provider mode does not match checkout mode'')
      else let price_id = expected_price_id ps
        in bind_res (pp_retrieve_price pp price_id) (\<lambda>price.
             if pr_price_id price \<noteq> price_id \<or> pr_amount_minor price \<noteq> ps_checkout_amount_minor ps \<or>
                pr_currency price \<noteq> ps_checkout_currency ps
             then Inl (CheckoutUnavailable ''provider Price does not match checkout configuration'')
             else Inr price))"

definition call_provider :: "payment_settings \<Rightarrow> payment_provider \<Rightarrow> checkout_plan \<Rightarrow> exn + hosted_checkout_result" where
  "call_provider ps pp plan =
     bind_res (get_checkout_price ps pp) (\<lambda>price.
       if pr_price_id price \<noteq> cp_price_id plan \<or> pr_amount_minor price \<noteq> cp_amount_minor plan \<or>
          pr_currency price \<noteq> cp_currency plan
       then Inl (CheckoutUnavailable ''provider Price does not match reserved checkout'')
       else pp_create_checkout pp
         \<lparr>hr_internal_order_id = uuid_str (cp_order_id plan), hr_order_reference = cp_order_reference plan,
          hr_customer_email = cp_customer_email plan, hr_price_id = cp_price_id plan,
          hr_amount_minor = cp_amount_minor plan, hr_currency = cp_currency plan,
          hr_success_url = cp_success_url plan, hr_cancel_url = cp_cancel_url plan\<rparr>
         (cp_provider_idempotency_key plan))"

definition find_reservation :: "uuid \<Rightarrow> db \<Rightarrow> idempotency_row option" where
  "find_reservation i d = find (\<lambda>r. ir_id r = i) (idempotency_requests d)"

definition finalize_tx ::
  "payment_settings \<Rightarrow> order_store \<Rightarrow> bytes \<Rightarrow> checkout_plan \<Rightarrow> idempotency_binding \<Rightarrow> hosted_checkout_result \<Rightarrow> datetime
     \<Rightarrow> checkout_output db_tx" where
  "finalize_tx ps os token plan binding result now d =
     (case find_reservation (cp_reservation_id plan) d of
        None \<Rightarrow> Inl (IdempotencyConflict ''idempotent reservation is unavailable'')
      | Some reservation \<Rightarrow>
          if ir_request_hash reservation \<noteq> ib_request_sha256 binding
          then Inl (IdempotencyConflict ''idempotent reservation is unavailable'')
          else if ir_checkout_state reservation = CS_COMPLETED
          then Inl (CheckoutInProgress ''checkout credential is in its grace period'')
          else if ir_checkout_state reservation \<noteq> CS_PROCESSING \<or>
                  ir_checkout_lease_id reservation \<noteq> Some (cp_lease_id plan) \<or>
                  (case ir_checkout_lease_expires_at reservation of None \<Rightarrow> True | Some t \<Rightarrow> micros t \<le> micros now)
          then Inl (CheckoutInProgress ''checkout processing lease is unavailable'')
          else case find_order (ir_order_id reservation) d of
              None \<Rightarrow> Inl (IdempotencyConflict ''idempotent order is unavailable'')
            | Some order \<Rightarrow>
                if o_payment_mode order \<noteq> payment_mode_value (ps_payment_mode ps)
                then Inl (IdempotencyConflict ''reserved order payment mode does not match checkout mode'')
                else if o_checkout_session_id order \<noteq> None \<and> o_checkout_session_id order \<noteq> Some (hc_session_id result)
                then Inl (IdempotencyConflict ''provider session conflicts with reserved order'')
                else let order1 = order\<lparr>o_checkout_session_id := Some (hc_session_id result), o_updated_at := now\<rparr>;
                         body = \<lparr>rb_order_reference = o_order_reference order1, rb_checkout_url = hc_checkout_url result,
                           rb_payment_state = o_payment_state order1, rb_fulfillment_state = o_fulfillment_state order1\<rparr>;
                         reservation1 = reservation\<lparr>ir_checkout_state := CS_COMPLETED, ir_response_status := Some 201,
                           ir_response_body := Some body, ir_completed_at := Some now,
                           ir_checkout_lease_expires_at := Some (lease_expiry ps now)\<rparr>
                  in bind_tx (update_order order1) (\<lambda>_.
                     bind_tx (issue_token os token order1 now False) (\<lambda>raw_token.
                     bind_tx (update_idempotency reservation1) (\<lambda>_.
                       return_tx \<lparr>ou_order_reference = rb_order_reference body, ou_status_token = raw_token,
                         ou_checkout_url = rb_checkout_url body, ou_payment_state = rb_payment_state body,
                         ou_fulfillment_state = rb_fulfillment_state body\<rparr>))) d)"

definition checkout_create ::
  "payment_settings \<Rightarrow> order_store \<Rightarrow> payment_provider \<Rightarrow> (nat \<Rightarrow> uuid) \<Rightarrow> bytes \<Rightarrow> checkout_input \<Rightarrow> idempotency_binding
     \<Rightarrow> datetime \<Rightarrow> int \<Rightarrow> bytes \<Rightarrow> datetime \<Rightarrow> checkout_output db_action" where
  "checkout_create ps os pp new_id token request binding now timestamp_ms random_bytes later =
     (if \<not> ps_checkout_enabled ps then raise_act (CheckoutUnavailable ''checkout is disabled'')
      else if ps_payment_mode ps = PM_DISABLED then raise_act (CheckoutUnavailable ''checkout is disabled'')
      else if ci_terms_version request \<noteq> ps_expected_terms_version ps \<or>
              ci_privacy_version request \<noteq> ps_expected_privacy_version ps
      then raise_act (ValueError ''checkout policy version mismatch'')
      else if pp_payment_mode pp \<noteq> ps_payment_mode ps
      then raise_act (CheckoutUnavailable ''payment provider mode does not match checkout mode'')
      else bind_act (reserve ps os new_id token request binding now timestamp_ms random_bytes) (\<lambda>reserved.
        case reserved of
          Inr out \<Rightarrow> return_act out
        | Inl plan \<Rightarrow>
            bind_act (lift_act (call_provider ps pp plan)) (\<lambda>result.
            bind_act (lift_act (validate_checkout_url (hc_checkout_url result) (hc_session_id result) (ps_payment_mode ps))) (\<lambda>_.
              transaction (finalize_tx ps os token plan binding result later)))))"

section \<open>WebhookService\<close>

record webhook_result =
  wh_duplicate :: bool
  wh_accepted :: bool

definition find_stripe_event :: "string \<Rightarrow> db \<Rightarrow> stripe_event_row option" where
  "find_stripe_event event_id d = find (\<lambda>r. se_stripe_event_id r = event_id) (stripe_events d)"

definition find_order_for_event :: "string option \<Rightarrow> string option \<Rightarrow> db \<Rightarrow> order_row option" where
  "find_order_for_event internal_order_id payment_intent_id d =
     (if or_default internal_order_id '''' \<noteq> ''''
      then (case UUID (or_default internal_order_id '''') of None \<Rightarrow> None | Some oid \<Rightarrow> find_order oid d)
      else if or_default payment_intent_id '''' \<noteq> ''''
      then find (\<lambda>r. o_payment_intent_id r = payment_intent_id) (orders d)
      else None)"

definition duplicate_result :: "stripe_event_row \<Rightarrow> provider_event \<Rightarrow> bytes \<Rightarrow> webhook_result" where
  "duplicate_result recorded event payload_hash =
     (let exact = (se_payload_sha256 recorded = payload_hash \<and> se_event_type recorded = pe_event_type event \<and>
            se_livemode recorded = pe_livemode event \<and> se_processed_at recorded \<noteq> None)
      in \<lparr>wh_duplicate = exact, wh_accepted = (exact \<and> se_safe_error_code recorded = None)\<rparr>)"

definition refund_events :: "string list" where
  "refund_events = [''charge.refunded'', ''refund.created'', ''refund.updated'']"

definition dispute_events :: "string list" where
  "dispute_events = [''charge.dispute.created'', ''charge.dispute.updated'']"

definition authoritative_full_refund :: "provider_event \<Rightarrow> canonical_checkout \<Rightarrow> bool" where
  "authoritative_full_refund event canonical \<longleftrightarrow>
     pe_refund_status event = Some ''succeeded'' \<and>
     (case pe_refunded_amount event of None \<Rightarrow> False | Some n \<Rightarrow> 0 < n) \<and>
     cc_refund_status canonical = Some ''succeeded'' \<and>
     cc_refunded_amount_total canonical = cc_amount_total canonical \<and> 0 < cc_amount_total canonical"

definition base_binding :: "payment_settings \<Rightarrow> order_row \<Rightarrow> provider_event \<Rightarrow> canonical_checkout \<Rightarrow> bool" where
  "base_binding ps order event canonical \<longleftrightarrow>
     (let expected_livemode = (ps_payment_mode ps = PM_STRIPE_LIVE) in
      pe_livemode event = expected_livemode \<and> cc_livemode canonical = expected_livemode \<and>
      cc_mode canonical = ''payment'' \<and> cc_metadata canonical = [(''order_id'', uuid_str (o_id order))] \<and>
      Some (cc_session_id canonical) = o_checkout_session_id order \<and>
      pe_session_id event \<in> {None, Some (cc_session_id canonical)} \<and>
      pe_payment_intent_id event \<in> {None, cc_payment_intent_id canonical} \<and>
      o_payment_intent_id order \<in> {None, cc_payment_intent_id canonical} \<and>
      cc_price_id canonical = expected_price_id ps \<and> cc_amount_total canonical = o_amount_minor order \<and>
      cc_currency canonical = o_currency order \<and> cc_quantity canonical = 1 \<and>
      o_payment_mode order = payment_mode_value (ps_payment_mode ps) \<and>
      ps_payment_mode ps \<in> {PM_FIXTURE, PM_STRIPE_TEST, PM_STRIPE_LIVE})"

definition valid_binding :: "payment_settings \<Rightarrow> order_row \<Rightarrow> provider_event \<Rightarrow> canonical_checkout \<Rightarrow> bool" where
  "valid_binding ps order event canonical =
     (if \<not> base_binding ps order event canonical then False
      else if pe_event_type event \<in> {''checkout.session.completed'', ''checkout.session.async_payment_succeeded'',
                ''checkout.session.async_payment_failed''} \<and> cc_status canonical \<noteq> ''complete'' then False
      else if pe_event_type event = ''checkout.session.expired'' \<and> cc_status canonical \<noteq> ''expired'' then False
      else if pe_event_type event \<in> set refund_events \<and> \<not> authoritative_full_refund event canonical then True
      else let pi_required = (pe_event_type event = ''checkout.session.async_payment_succeeded'' \<or>
                 pe_event_type event \<in> set refund_events \<or> pe_event_type event \<in> set dispute_events \<or>
                 pe_event_type event = ''checkout.session.completed'' \<and> cc_payment_status canonical = ''paid'')
        in \<not> pi_required \<or> (pe_payment_intent_id event \<noteq> None \<and> cc_payment_intent_id canonical \<noteq> None \<and>
             pe_payment_intent_id event = cc_payment_intent_id canonical))"

text \<open>\<open>OrderStore.transition_payment\<close>: the new order and whether it changed.\<close>

definition store_transition_payment :: "order_row \<Rightarrow> payment_state \<Rightarrow> order_row \<times> bool" where
  "store_transition_payment order target =
     (if target = o_payment_state order \<or> target \<notin> payment_transitions (o_payment_state order) then (order, False)
      else (order\<lparr>o_payment_state := target\<rparr>, True))"

definition event_target :: "provider_event \<Rightarrow> canonical_checkout \<Rightarrow> payment_state option" where
  "event_target event canonical =
     (let t = pe_event_type event; paid = (cc_payment_status canonical = ''paid'') in
      if t = ''checkout.session.completed''
      then (if paid then Some PAID else if cc_payment_status canonical = ''unpaid'' then Some PROCESSING else None)
      else if t = ''checkout.session.async_payment_succeeded'' then (if paid then Some PAID else None)
      else if t = ''checkout.session.async_payment_failed'' then (if paid then None else Some FAILED)
      else if t = ''checkout.session.expired'' then Some EXPIRED
      else if t \<in> set refund_events then (if authoritative_full_refund event canonical then Some REFUNDED else None)
      else if t \<in> set dispute_events then Some DISPUTED else None)"

definition apply_event :: "order_row \<Rightarrow> provider_event \<Rightarrow> canonical_checkout \<Rightarrow> order_row \<times> bool" where
  "apply_event order event canonical =
     (case event_target event canonical of
        None \<Rightarrow> (order, False)
      | Some target \<Rightarrow> store_transition_payment order target)"

definition payment_notice :: "uuid \<Rightarrow> order_row \<Rightarrow> string \<Rightarrow> datetime \<Rightarrow> datetime \<Rightarrow> outbox_row" where
  "payment_notice new_id order kind now inserted_at =
     \<lparr>om_id = new_id, om_message_key = kind @ '':'' @ uuid_str (o_id order), om_order_id = o_id order, om_kind = kind,
      om_recipient = o_email order,
      om_payload = \<lparr>pl_template = None, pl_order_reference = Some (o_order_reference order)\<rparr>,
      om_state = OB_AVAILABLE, om_attempt_count = 0, om_max_attempts = 12, om_available_at = now,
      om_lease_owner = None, om_lease_until = None, om_lease_token = None, om_proof_version = None,
      om_confirmation_count = None, om_confirmation_observation_id = None, om_provider_message_id = None,
      om_accepted_at = None, om_delivered_at = None,
      om_idempotency_expires_at = dt_add inserted_at (hours 24), om_safe_error_code = None, om_created_at = now,
      om_updated_at = inserted_at\<rparr>"

definition enqueue_outbox_once :: "uuid \<Rightarrow> order_row \<Rightarrow> string \<Rightarrow> datetime \<Rightarrow> datetime \<Rightarrow> unit db_tx" where
  "enqueue_outbox_once new_id order kind now inserted_at = insert_outbox (payment_notice new_id order kind now inserted_at)"

definition record_stripe_event :: "provider_event \<Rightarrow> bytes \<Rightarrow> datetime \<Rightarrow> unit db_tx" where
  "record_stripe_event event payload_sha256 now =
     insert_stripe_event \<lparr>se_stripe_event_id = pe_event_id event, se_event_type = pe_event_type event,
       se_livemode = pe_livemode event, se_payload_sha256 = payload_sha256, se_processed_at = None,
       se_safe_error_code = None, se_created_at = now\<rparr>"

definition mark_processed :: "string \<Rightarrow> string option \<Rightarrow> datetime \<Rightarrow> db \<Rightarrow> db" where
  "mark_processed event_id safe_error_code now d =
     d\<lparr>stripe_events := upd_row (\<lambda>r. se_stripe_event_id r = event_id)
         (\<lambda>r. r\<lparr>se_safe_error_code := safe_error_code, se_processed_at := Some now\<rparr>) (stripe_events d)\<rparr>"

text \<open>The order after the event, and what a change of its payment brings with it.\<close>

definition settled_order :: "order_row \<Rightarrow> provider_event \<Rightarrow> canonical_checkout \<Rightarrow> datetime \<Rightarrow> order_row \<times> bool" where
  "settled_order order event canonical now =
     (let (order1, changed) = apply_event order event canonical;
          order2 = order1\<lparr>o_updated_at := now\<rparr>;
          order3 = (if or_default (cc_payment_intent_id canonical) '''' \<noteq> '''' \<and> o_payment_intent_id order2 = None
                    then order2\<lparr>o_payment_intent_id := cc_payment_intent_id canonical\<rparr> else order2)
      in (if changed \<and> o_payment_state order3 = PAID then order3\<lparr>o_fulfillment_state := QUEUED\<rparr> else order3, changed))"

definition start_fulfillment :: "(nat \<Rightarrow> uuid) \<Rightarrow> order_row \<Rightarrow> datetime \<Rightarrow> datetime \<Rightarrow> unit db_tx" where
  "start_fulfillment new_id order now inserted_at d =
     (if o_payment_state order \<noteq> PAID \<or> find_job_by_key (o_fulfillment_key order) d \<noteq> None then Inr ((), d)
      else bind_tx (enqueue_fulfillment_once (new_id 0) order now) (\<lambda>_.
             enqueue_outbox_once (new_id 1) order ''payment_confirmed'' now inserted_at) d)"

definition webhook_tx ::
  "payment_settings \<Rightarrow> (nat \<Rightarrow> uuid) \<Rightarrow> provider_event \<Rightarrow> canonical_checkout option \<Rightarrow> bytes \<Rightarrow> datetime \<Rightarrow> datetime
     \<Rightarrow> webhook_result db_tx" where
  "webhook_tx ps new_id event canonical payload_hash now inserted_at d =
     (case find_stripe_event (pe_event_id event) d of
        Some duplicate \<Rightarrow> Inr (duplicate_result duplicate event payload_hash, d)
      | None \<Rightarrow>
          bind_tx (record_stripe_event event payload_hash now) (\<lambda>_ d1.
            let rejected = (\<lambda>code. Inr (\<lparr>wh_duplicate = False, wh_accepted = False\<rparr>,
                  mark_processed (pe_event_id event) (Some code) now d1))
            in case (find_order_for_event (pe_internal_order_id event) (pe_payment_intent_id event) d1, canonical) of
                (Some order, Some checkout) \<Rightarrow>
                  if o_checkout_session_id order = None then rejected ''order_binding_invalid''
                  else if \<not> valid_binding ps order event checkout then rejected ''payment_binding_invalid''
                  else let (order', changed) = settled_order order event checkout now
                    in bind_tx (update_order order') (\<lambda>_.
                       bind_tx (if changed
                          then bind_tx (start_fulfillment new_id order' now inserted_at) (\<lambda>_.
                                 record_state_event order' (''stripe:'' @ pe_event_id event) ''stripe_webhook''
                                   (o_payment_state order) (o_fulfillment_state order) now)
                          else return_tx ()) (\<lambda>_ d2.
                         Inr (\<lparr>wh_duplicate = False, wh_accepted = True\<rparr>,
                           mark_processed (pe_event_id event) None now d2))) d1
              | _ \<Rightarrow> rejected ''order_binding_invalid'') d)"

definition process_webhook ::
  "payment_settings \<Rightarrow> payment_provider \<Rightarrow> (bytes \<Rightarrow> bytes) \<Rightarrow> (nat \<Rightarrow> uuid) \<Rightarrow> bytes \<Rightarrow> string \<Rightarrow> datetime \<Rightarrow> datetime
     \<Rightarrow> webhook_result db_action" where
  "process_webhook ps pp sha new_id raw_body signature now inserted_at =
     (if pp_payment_mode pp \<noteq> ps_payment_mode ps
      then raise_act (PaymentProviderError ''payment provider mode does not match webhook mode'')
      else bind_act (lift_act (pp_verify_event pp raw_body signature (ps_stripe_signature_tolerance_seconds ps))) (\<lambda>event0.
        if pe_livemode event0 \<noteq> (ps_payment_mode ps = PM_STRIPE_LIVE)
        then raise_act (PaymentSignatureError ''webhook event mode does not match the configured payment mode'')
        else bind_act (read_act (\<lambda>d. Inr (find_stripe_event (pe_event_id event0) d))) (\<lambda>found.
          case found of
            Some duplicate \<Rightarrow> return_act (duplicate_result duplicate event0 (sha raw_body))
          | None \<Rightarrow>
              bind_act (lift_act (if pe_internal_order_id event0 = None
                  then bind_res (pp_resolve_internal_order_id pp event0) (\<lambda>i. Inr (event0\<lparr>pe_internal_order_id := i\<rparr>))
                  else Inr event0)) (\<lambda>event.
              bind_act (read_act (\<lambda>d. Inr (case find_order_for_event (pe_internal_order_id event) (pe_payment_intent_id event) d of
                  None \<Rightarrow> None | Some order \<Rightarrow> o_checkout_session_id order))) (\<lambda>session_id.
              bind_act (lift_act (case session_id of
                  None \<Rightarrow> Inr None
                | Some s \<Rightarrow> bind_res (pp_retrieve_checkout pp s) (\<lambda>c. Inr (Some c)))) (\<lambda>canonical.
              catch_act (transaction (webhook_tx ps new_id event canonical (sha raw_body) now inserted_at)) (\<lambda>e.
                if e = IntegrityError
                then bind_act (read_act (\<lambda>d. Inr (find_stripe_event (pe_event_id event) d))) (\<lambda>again.
                       case again of Some duplicate \<Rightarrow> return_act (duplicate_result duplicate event (sha raw_body))
                         | None \<Rightarrow> raise_act e)
                else raise_act e)))))))"

section \<open>Downloads\<close>

text \<open>\<open>OrderStore.record_download_event\<close>.\<close>

definition record_download_event :: "uuid \<Rightarrow> uuid \<Rightarrow> int \<Rightarrow> bytes \<Rightarrow> string \<Rightarrow> datetime \<Rightarrow> unit db_tx" where
  "record_download_event new_id order_id proof_version artifact_sha256 artifact_kind now d =
     (if length artifact_sha256 \<noteq> 32 \<or> artifact_kind \<notin> {''persisted_verified'', ''generated_pending''}
      then Inl (ValueError ''download_audit_invalid'')
      else case find_order order_id d of
          None \<Rightarrow> Inl (ValueError ''download_order_not_found'')
        | Some order \<Rightarrow>
            insert_state_event \<lparr>ev_order_id = o_id order, ev_sequence = next_sequence (o_id order) d,
              ev_event_key = ''download:'' @ uuid_str new_id, ev_source = ''customer_download'',
              ev_previous_payment_state = Some (o_payment_state order), ev_payment_state = o_payment_state order,
              ev_previous_fulfillment_state = Some (o_fulfillment_state order),
              ev_fulfillment_state = o_fulfillment_state order,
              ev_evidence = DownloadEvidence proof_version (hex artifact_sha256) artifact_kind, ev_created_at = now\<rparr> d)"

section \<open>Order references are well-formed and identify time and randomness\<close>

lemma CROCKFORD_facts: "length CROCKFORD = 32" "distinct CROCKFORD" "list_all crockford_char CROCKFORD"
  by (simp_all add: CROCKFORD_def crockford_char_def char_class_defs)

lemma crockford_encode_chars: "list_all crockford_char (crockford_encode n)"
  using CROCKFORD_facts by (simp add: crockford_encode_def list_all_iff)

lemma length_crockford_encode [simp]: "length (crockford_encode n) = 26"
  by (simp add: crockford_encode_def)

lemma same_digits:
  fixes v w :: nat
  assumes "\<And>i. i < k \<Longrightarrow> v div b ^ i mod b = w div b ^ i mod b"
  shows "v mod b ^ k = w mod b ^ k"
  using assms
proof (induction k)
  case (Suc k)
  have "v mod b ^ k = w mod b ^ k" "v div b ^ k mod b = w div b ^ k mod b" using Suc by simp_all
  then show ?case using mod_mult2_eq [of v "b ^ k" b] mod_mult2_eq [of w "b ^ k" b] by (simp add: mult.commute)
qed simp

lemma crockford_encode_inject:
  assumes "crockford_encode v = crockford_encode w" "v < 32 ^ 26" "w < 32 ^ 26"
  shows "v = w"
proof -
  have "v div 32 ^ i mod 32 = w div 32 ^ i mod 32" if "i < 26" for i
  proof -
    have "i \<in> set (rev [0..<26])" using that by simp
    then have "CROCKFORD ! (v div 32 ^ i mod 32) = CROCKFORD ! (w div 32 ^ i mod 32)"
      using assms(1) unfolding crockford_encode_def map_eq_conv by blast
    then show ?thesis using CROCKFORD_facts by (simp add: nth_eq_iff_index_eq)
  qed
  then have "v mod 32 ^ 26 = w mod 32 ^ 26" by (rule same_digits)
  then show ?thesis using assms by simp
qed

lemma be_value_snoc: "be_value (bs @ [b]) = 256 * be_value bs + unat b"
  by (simp add: be_value_def)

lemma be_value_lt: "be_value bs < 256 ^ length bs"
proof (induction bs rule: rev_induct)
  case (snoc b bs)
  then show ?case using unat_byte_lt [of b] by (simp add: be_value_snoc)
qed (simp add: be_value_def)

lemma be_value_inject: "length as = length bs \<Longrightarrow> be_value as = be_value bs \<Longrightarrow> as = bs"
proof (induction as arbitrary: bs rule: rev_induct)
  case (snoc a as)
  obtain b cs where bs: "bs = cs @ [b]" using snoc.prems(1) by (cases bs rule: rev_cases) auto
  have eq: "256 * be_value as + unat a = 256 * be_value cs + unat b"
    using snoc.prems(2) by (simp add: bs be_value_snoc)
  have "(256 * be_value as + unat a) mod 256 = unat a" "(256 * be_value cs + unat b) mod 256 = unat b"
    using unat_byte_lt by simp_all
  then have "unat a = unat b" using eq by metis
  then have "a = b" "be_value as = be_value cs" using eq by (simp_all add: word_unat_eq_iff)
  then show ?case using snoc.IH [of cs] snoc.prems(1) by (simp add: bs)
qed simp

lemma reference_value_lt: "nat (t mod 2 ^ 48) * 2 ^ 80 + be_value (take 10 bs) < 32 ^ 26"
proof -
  have "be_value (take 10 bs) < 256 ^ length (take 10 bs)" by (rule be_value_lt)
  also have "(256 :: nat) ^ length (take 10 bs) \<le> 256 ^ 10" by (intro power_increasing) simp_all
  finally have "be_value (take 10 bs) < 2 ^ 80" by simp
  moreover have "nat (t mod 2 ^ 48) < 2 ^ 48" by simp
  ultimately have "nat (t mod 2 ^ 48) * 2 ^ 80 + be_value (take 10 bs) < 2 ^ 48 * 2 ^ 80" by simp
  then show ?thesis by simp
qed

text \<open>A new order reference has the form the domain demands, and two references are equal only when they were
  made in the same millisecond (modulo \<open>2 ^ 48\<close>) from the same 80 random bits.\<close>

theorem new_order_reference_unique:
  assumes "new_order_reference t bs = Inr ref" "new_order_reference t' bs' = Inr ref'"
  shows "OrderReference ref = Inr ref \<and>
    (ref = ref' \<longleftrightarrow> t mod 2 ^ 48 = t' mod 2 ^ 48 \<and> take 10 bs = take 10 bs')"
proof -
  let ?v = "\<lambda>t bs. nat (t mod 2 ^ 48) * 2 ^ 80 + be_value (take 10 bs)"
  have ref: "ref = ''ts_'' @ crockford_encode (?v t bs)" "ref' = ''ts_'' @ crockford_encode (?v t' bs')"
    and len: "10 \<le> length bs" "10 \<le> length bs'"
    using assms by (auto simp: new_order_reference_def split: if_splits)
  have "ORDER_REFERENCE ref"
    using crockford_encode_chars by (simp add: ref ORDER_REFERENCE_def match_class_def)
  then have "OrderReference ref = Inr ref" by (simp add: OrderReference_def)
  moreover have "t mod 2 ^ 48 = t' mod 2 ^ 48 \<and> take 10 bs = take 10 bs'" if "ref = ref'"
  proof -
    have eq: "?v t bs = ?v t' bs'"
      using that ref crockford_encode_inject [OF _ reference_value_lt reference_value_lt] by simp
    have small: "be_value (take 10 x) < 2 ^ 80" if "10 \<le> length x" for x
      using be_value_lt [of "take 10 x"] that by simp
    have "?v t bs div 2 ^ 80 = nat (t mod 2 ^ 48)" "?v t bs mod 2 ^ 80 = be_value (take 10 bs)"
      "?v t' bs' div 2 ^ 80 = nat (t' mod 2 ^ 48)" "?v t' bs' mod 2 ^ 80 = be_value (take 10 bs')"
      using small len by simp_all
    then have "nat (t mod 2 ^ 48) = nat (t' mod 2 ^ 48)" "be_value (take 10 bs) = be_value (take 10 bs')"
      using eq by metis+
    then show ?thesis using be_value_inject [of "take 10 bs" "take 10 bs'"] len by simp
  qed
  ultimately show ?thesis using ref by auto
qed

theorem new_order_reference_unique_witness:
  "\<exists>ref ref'. new_order_reference 1700000000000 (replicate 10 1) = Inr ref \<and>
     new_order_reference 1700000000001 (replicate 10 1) = Inr ref' \<and> OrderReference ref = Inr ref \<and> ref \<noteq> ref'"
proof -
  obtain ref ref' where refs: "new_order_reference 1700000000000 (replicate 10 1) = Inr ref"
    "new_order_reference 1700000000001 (replicate 10 1) = Inr ref'"
    by (simp add: new_order_reference_def)
  show ?thesis using refs new_order_reference_unique [OF refs] by simp
qed

section \<open>The checkout URLs that are accepted\<close>

definition url_char :: "char \<Rightarrow> bool" where
  "url_char c \<longleftrightarrow> is_alnum c \<or> c \<in> set ''_.~-%:/?#''"

lemma url_char_safe: "url_char c \<Longrightarrow> \<not> unsafe_url_char c \<and> \<not> is_py_space c"
  by (auto simp: url_char_def unsafe_url_char_def is_py_space_def char_class_defs)

lemma safe_char_code: "\<not> unsafe_url_char c \<Longrightarrow> 32 < code c"
  by (auto simp: unsafe_url_char_def)

lemma session_chars:
  assumes "session_mode s = Some m" "c \<in> set s"
  shows "is_alnum c \<or> c = CHR ''_''"
proof -
  have "drop 3 s = take 5 (drop 3 s) @ drop 8 s" using append_take_drop_id [of 5 "drop 3 s"] by simp
  then have parts: "s = take 3 s @ take 5 (drop 3 s) @ drop 8 s" by (metis append_take_drop_id)
  have "list_all (\<lambda>c. is_alnum c \<or> c = CHR ''_'') (take 3 s)" "list_all (\<lambda>c. is_alnum c \<or> c = CHR ''_'') (take 5 (drop 3 s))"
    "list_all is_alnum (drop 8 s)"
    using assms(1) by (auto simp: session_mode_def match_class_def char_class_defs split: if_splits)
  then have "list_all (\<lambda>c. is_alnum c \<or> c = CHR ''_'') (take 3 s @ take 5 (drop 3 s) @ drop 8 s)" by (auto simp: list_all_iff)
  then show ?thesis using assms(2) unfolding parts [symmetric] by (simp add: list_all_iff)
qed

lemma fragment_body_chars: "fragment_body s \<Longrightarrow> list_all (\<lambda>c. is_alnum c \<or> c \<in> set ''._~-%'') s"
proof (induction s rule: fragment_body.induct)
  case (2 c cs)
  have hex: "is_hex_digit x \<Longrightarrow> is_alnum x" for x
    by (auto simp: is_hex_digit_def hex_value_def char_class_defs split: if_splits)
  show ?case
  proof (cases "c = CHR ''%''")
    case True
    then obtain a b rest where "cs = a # b # rest" "is_hex_digit a" "is_hex_digit b" "fragment_body rest"
      using 2(3) by (auto split: list.splits)
    then show ?thesis using 2(1) [of a "b # rest" b rest] True hex by simp
  next
    case False
    then show ?thesis using 2(2,3) by auto
  qed
qed simp

lemma fragment_chars: "STRIPE_FRAGMENT s \<Longrightarrow> c \<in> set s \<Longrightarrow> is_alnum c \<or> c \<in> set ''._~-%''"
proof -
  assume frag: "STRIPE_FRAGMENT s" and c: "c \<in> set s"
  have "s = ''fid'' @ drop 3 s" using frag by (metis STRIPE_FRAGMENT_def append_take_drop_id)
  then have "c \<in> set ''fid'' \<or> c \<in> set (drop 3 s)" using c by (metis Un_iff set_append)
  moreover have "list_all is_alnum ''fid''" by (simp add: char_class_defs)
  moreover have "list_all (\<lambda>c. is_alnum c \<or> c \<in> set ''._~-%'') (drop 3 s)"
    using fragment_body_chars frag unfolding STRIPE_FRAGMENT_def by blast
  ultimately show ?thesis unfolding list_all_iff by blast
qed

text \<open>What \<open>urlsplit\<close> gives for a text without unsafe characters that begins with the expected host.\<close>

lemma urlsplit_stripe:
  assumes safe: "\<not> list_ex unsafe_url_char (''https://checkout.stripe.com/'' @ rest)"
  shows "urlsplit (''https://checkout.stripe.com/'' @ rest) =
    (let (before, fragment) = split_at (CHR ''#'') (CHR ''/'' # rest); (path, query) = split_at (CHR ''?'') before
     in Inr \<lparr>su_scheme = ''https'', su_netloc = ''checkout.stripe.com'', su_path = path, su_query = query,
          su_fragment = fragment\<rparr>)"
proof -
  let ?v = "''https://checkout.stripe.com/'' @ rest"
  have codes: "32 < code c" if "c \<in> set ?v" for c
    using safe that safe_char_code unfolding list_ex_iff by blast
  then have "dropWhile (\<lambda>c. code c \<le> 32) ?v = ?v" by (simp add: code_def)
  moreover have "filter (\<lambda>c. code c \<notin> {9, 10, 13}) ?v = ?v"
  proof (rule filter_True, rule ballI)
    fix c assume "c \<in> set ?v"
    from codes [OF this] show "code c \<notin> {9, 10, 13}" by auto
  qed
  moreover have "split_scheme ?v = (''https'', ''//checkout.stripe.com/'' @ rest)"
    by (simp add: split_scheme_def Let_def char_class_defs str_lower_def lower_char_def)
  moreover have "split_netloc (''//checkout.stripe.com/'' @ rest) = (''checkout.stripe.com'', CHR ''/'' # rest)"
    by (simp add: split_netloc_def)
  ultimately show ?thesis
    unfolding urlsplit_def by (simp add: Let_def split_at_def)
qed

lemma split_at_none: "c \<notin> set s \<Longrightarrow> split_at c s = (s, [])"
  by (induction s) (auto simp: split_at_def)

lemma split_at_some: "c \<notin> set s \<Longrightarrow> split_at c (s @ c # t) = (s, t)"
  by (induction s) (auto simp: split_at_def)

lemma split_atD: "split_at c s = (a, b) \<Longrightarrow> c \<notin> set a \<and> (s = a \<and> b = [] \<or> s = a @ c # b)"
  by (induction s arbitrary: a) (auto simp: split_at_def split: if_splits)

definition session_url :: "string \<Rightarrow> string" where
  "session_url session_id = ''https://checkout.stripe.com/c/pay/'' @ session_id"

definition fragment_suffix :: "string \<Rightarrow> bool" where
  "fragment_suffix s \<longleftrightarrow> s = [] \<or> (\<exists>f. s = CHR ''#'' # f \<and> STRIPE_FRAGMENT f)"

lemma validate_checkout_url_parts:
  "validate_checkout_url value session_id mode = Inr () \<longleftrightarrow>
     (\<exists>parsed. urlsplit value = Inr parsed \<and> mode \<noteq> PM_DISABLED \<and>
       session_mode session_id = Some (if mode = PM_STRIPE_LIVE then ''live'' else ''test'') \<and>
       length value \<le> 2048 \<and> strip_chars is_py_space value = value \<and> \<not> list_ex unsafe_url_char value \<and>
       prefix ''https://checkout.stripe.com/'' value \<and> su_scheme parsed = ''https'' \<and>
       su_netloc parsed = ''checkout.stripe.com'' \<and> su_path parsed = ''/c/pay/'' @ session_id \<and>
       su_query parsed = [] \<and> (CHR ''#'' \<notin> set value \<or> STRIPE_FRAGMENT (su_fragment parsed)))"
  unfolding validate_checkout_url_def Let_def unsafe_url_def
  by (cases mode; cases "urlsplit value") (auto split: if_splits)

text \<open>The checkout URLs the service hands out: the hosted page of exactly this session, in the configured mode,
  of at most 2048 characters, with at most an empty query and a fragment of the one admitted form behind it.\<close>

theorem validate_checkout_url_iff:
  "validate_checkout_url value session_id mode = Inr () \<longleftrightarrow>
     mode \<noteq> PM_DISABLED \<and> session_mode session_id = Some (if mode = PM_STRIPE_LIVE then ''live'' else ''test'') \<and>
     length value \<le> 2048 \<and>
     (\<exists>query fragment. value = session_url session_id @ query @ fragment \<and> query \<in> {[], ''?''} \<and> fragment_suffix fragment)"
    (is "?valid \<longleftrightarrow> ?form")
proof
  assume ?valid
  then obtain parsed where parsed: "urlsplit value = Inr parsed" and mode: "mode \<noteq> PM_DISABLED"
    and session: "session_mode session_id = Some (if mode = PM_STRIPE_LIVE then ''live'' else ''test'')"
    and len: "length value \<le> 2048" and safe: "\<not> list_ex unsafe_url_char value"
    and prefix: "prefix ''https://checkout.stripe.com/'' value"
    and path: "su_path parsed = ''/c/pay/'' @ session_id" and query: "su_query parsed = []"
    and fragment: "CHR ''#'' \<notin> set value \<or> STRIPE_FRAGMENT (su_fragment parsed)"
    unfolding validate_checkout_url_parts by blast
  from prefix obtain rest where rest: "value = ''https://checkout.stripe.com/'' @ rest" by (elim prefixE)
  obtain before frag where before: "split_at (CHR ''#'') (CHR ''/'' # rest) = (before, frag)"
    by (cases "split_at (CHR ''#'') (CHR ''/'' # rest)")
  obtain path' query' where after: "split_at (CHR ''?'') before = (path', query')" by (cases "split_at (CHR ''?'') before")
  have "urlsplit value = Inr \<lparr>su_scheme = ''https'', su_netloc = ''checkout.stripe.com'', su_path = path',
      su_query = query', su_fragment = frag\<rparr>"
    using urlsplit_stripe [of rest] safe before after by (simp add: rest)
  then have parts: "path' = ''/c/pay/'' @ session_id" "query' = []" "CHR ''#'' \<notin> set value \<or> STRIPE_FRAGMENT frag"
    using parsed path query fragment by auto
  then obtain q where q: "before = ''/c/pay/'' @ session_id @ q" "q \<in> {[], ''?''}" using split_atD [OF after] by auto
  obtain f where f: "CHR ''/'' # rest = before @ f" "f = [] \<or> f = CHR ''#'' # frag" using split_atD [OF before] by auto
  have v: "value = session_url session_id @ q @ f" using q(1) f(1) by (simp add: rest session_url_def)
  then have "fragment_suffix f" using f(2) parts(3) by (auto simp: fragment_suffix_def)
  with v q(2) show ?form using mode session len by blast
next
  assume form: ?form
  then obtain query fragment where v: "value = session_url session_id @ query @ fragment" and query: "query \<in> {[], ''?''}"
    and fragment: "fragment_suffix fragment"
    and session: "session_mode session_id = Some (if mode = PM_STRIPE_LIVE then ''live'' else ''test'')"
    by blast
  have sid: "is_alnum c \<or> c = CHR ''_''" if "c \<in> set session_id" for c using session_chars [OF session that] .
  have special: "CHR ''?'' \<notin> set session_id" "CHR ''#'' \<notin> set session_id"
    using sid by (force simp: char_class_defs)+
  have "set ''._~-%'' \<subseteq> set ''_.~-%:/?#''" by simp
  then have "list_all url_char f" if "STRIPE_FRAGMENT f" for f
    using fragment_chars [OF that] unfolding url_char_def list_all_iff by blast
  moreover have "url_char (CHR ''#'')" by (simp add: url_char_def)
  ultimately have "list_all url_char fragment" using fragment by (auto simp: fragment_suffix_def)
  moreover have "list_all url_char ''https://checkout.stripe.com/c/pay/''" "url_char (CHR ''?'')"
    by (simp_all add: url_char_def char_class_defs)
  moreover have "list_all url_char session_id" using sid by (auto simp: list_all_iff url_char_def)
  ultimately have "list_all url_char value" using query unfolding v session_url_def list_all_append by auto
  then have chars: "url_char c" if "c \<in> set value" for c using that by (simp add: list_all_iff)
  then have safe: "\<not> list_ex unsafe_url_char value" "strip_chars is_py_space value = value"
    using url_char_safe by (auto simp: list_ex_iff intro: strip_chars_absent)
  define p where "p = ''c/pay/'' @ session_id @ query"
  have no: "CHR ''#'' \<notin> set (CHR ''/'' # p)" using special query by (auto simp: p_def)
  have v': "value = ''https://checkout.stripe.com/'' @ p @ fragment" by (simp add: v session_url_def p_def)
  obtain f where f: "split_at (CHR ''#'') (CHR ''/'' # p @ fragment) = (CHR ''/'' # p, f)"
    and hash: "CHR ''#'' \<notin> set value \<or> STRIPE_FRAGMENT f"
  proof (cases fragment)
    case Nil
    then show ?thesis using that [of "[]"] split_at_none [OF no] no v' by auto
  next
    case (Cons c g)
    then have "c = CHR ''#''" "STRIPE_FRAGMENT g" using fragment by (auto simp: fragment_suffix_def)
    then show ?thesis using that [of g] split_at_some [OF no, of g] Cons by simp
  qed
  have no': "CHR ''?'' \<notin> set (''/c/pay/'' @ session_id)" using special by simp
  have "split_at (CHR ''?'') (CHR ''/'' # p) = (''/c/pay/'' @ session_id, [])"
    using query split_at_none [OF no'] split_at_some [OF no', of "[]"] by (auto simp: p_def)
  then have "urlsplit value = Inr \<lparr>su_scheme = ''https'', su_netloc = ''checkout.stripe.com'',
      su_path = ''/c/pay/'' @ session_id, su_query = [], su_fragment = f\<rparr>"
    using urlsplit_stripe [of "p @ fragment"] safe(1) f by (simp add: v')
  moreover have "prefix ''https://checkout.stripe.com/'' value" by (simp add: v')
  ultimately show ?valid
    using form safe hash unfolding validate_checkout_url_parts by auto
qed

end
