(* ===== verification/Payments_Audit.thy ===== *)
theory Payments_Audit
  imports Payments Delivery_Audit
begin

text \<open>
  What checkout and payment webhooks do to the tables, and the properties of the two services: one order per
  idempotency key, one credential per lease, every provider event applied at most once, and a paid order queued together
  with its job and its audit event.
\<close>

section \<open>Statements that leave the orders, the jobs and the outbox alone\<close>

definition shared_tables where
  "shared_tables d = (core_tables d, outbox_tables d)"

lemma shared_simps [simp]:
  "shared_tables (d\<lparr>order_tokens := x\<rparr>) = shared_tables d"
  "shared_tables (d\<lparr>idempotency_requests := y\<rparr>) = shared_tables d"
  "shared_tables (d\<lparr>stripe_events := z\<rparr>) = shared_tables d"
  "shared_tables (d\<lparr>rate_counters := c\<rparr>) = shared_tables d"
  by (simp_all add: shared_tables_def core_defs outbox_tables_def)

lemma shared_orders: "shared_tables d' = shared_tables d \<Longrightarrow> orders d' = orders d"
  by (simp add: shared_tables_def core_defs)

lemma issue_token_shared:
  assumes "issue_token os random order now revoke d = Inr (raw, d')"
  shows "shared_tables d' = shared_tables d" "idempotency_requests d' = idempotency_requests d"
  using assms by (auto elim!: issue_token_parts)

lemma update_idempotency_Inr:
  "update_idempotency r d = Inr (u, d') \<Longrightarrow>
     d' = d\<lparr>idempotency_requests := upd_row (\<lambda>r'. ir_id r' = ir_id r) (\<lambda>_. r) (idempotency_requests d)\<rparr> \<and> completion_ok r"
  by (auto simp: update_idempotency_def split: if_splits)

lemma replay_checkout_shared:
  assumes "replay_checkout ps os token existing binding now d = Inr (out, d')"
  shows "shared_tables d' = shared_tables d"
proof -
  obtain order raw where "issue_token os token order now True d = Inr (raw, d')"
    using assms
    by (auto simp: replay_checkout_def bind_tx_Inr split: if_splits option.splits sum.splits bool.splits exn.splits)
  then show ?thesis by (rule issue_token_shared)
qed

lemma resume_cases:
  assumes "resume_tx ps os lease_id token reservation binding now d = Inr (r, d')"
  obtains r1 d1 where "update_idempotency r1 d = Inr ((), d1)" "ir_id r1 = ir_id reservation"
    "ir_endpoint r1 = ir_endpoint reservation" "ir_key_hash r1 = ir_key_hash reservation"
    "ir_request_hash r1 = ir_request_hash reservation"
    "d' = d1 \<or> (\<exists>out. replay_checkout ps os token r1 binding now d1 = Inr (out, d'))"
proof -
  let ?r1 = "reservation\<lparr>ir_checkout_lease_id := Some (uuid_str lease_id),
    ir_checkout_lease_expires_at := Some (lease_expiry ps now)\<rparr>"
  from assms obtain order where "find_order (ir_order_id reservation) d = Some order"
    by (auto simp: resume_tx_def split: option.splits)
  then consider d1 out where "update_idempotency ?r1 d = Inr ((), d1)" "replay_checkout ps os token ?r1 binding now d1 = Inr (out, d')"
    | d1 plan where "update_idempotency (?r1\<lparr>ir_checkout_state := CS_PROCESSING\<rparr>) d = Inr ((), d1)"
      "plan_tx (?r1\<lparr>ir_checkout_state := CS_PROCESSING\<rparr>) d1 = Inr (plan, d')"
    using assms by (auto simp: resume_tx_def Let_def bind_tx_Inr split: if_splits)
  then show thesis
  proof cases
    case 1
    then show ?thesis using that by simp
  next
    case 2
    then have "d' = d1" by (auto simp: plan_tx_def split: option.splits)
    then show ?thesis using that [OF 2(1)] by simp
  qed
qed

lemma resume_shared:
  assumes "resume_existing ps os lease_id token existing binding now d = Inr (r, d')"
  shows "shared_tables d' = shared_tables d"
proof -
  have "resume_tx ps os lease_id token existing binding now d = Inr (r, d')"
    using assms by (auto simp: resume_existing_def split: if_splits)
  then obtain r1 d1 where "update_idempotency r1 d = Inr ((), d1)"
    "d' = d1 \<or> (\<exists>out. replay_checkout ps os token r1 binding now d1 = Inr (out, d'))"
    by (rule resume_cases)
  then show ?thesis using replay_checkout_shared by (auto dest!: update_idempotency_Inr)
qed

section \<open>Reserving an order\<close>

lemma reserve_cases:
  assumes "reserve_tx ps os new_id token request binding now ms random_bytes d = Inr (r, d')"
  obtains (resumed) existing where "find_idempotency checkout_endpoint (ib_key_sha256 binding) d = Some existing"
    "resume_existing ps os (new_id 0) token existing binding now d = Inr (r, d')"
  | (created) ref order reservation e where "find_idempotency checkout_endpoint (ib_key_sha256 binding) d = None"
    "new_order_reference ms random_bytes = Inr ref" "order = reserved_order ps (new_id 0) ref request now"
    "reservation = new_reservation ps (new_id 2) (new_id 0) (new_id 1) binding now"
    "order_check order" "unique_among o_id order (orders d)" "unique_among o_order_reference order (orders d)"
    "unique_among o_fulfillment_key order (orders d)" "records_move e order order"
    "ev_sequence e = next_sequence (o_id order) d"
    "d' = d\<lparr>orders := orders d @ [order], idempotency_requests := idempotency_requests d @ [reservation],
       state_events := state_events d @ [e]\<rparr>"
proof (cases "find_idempotency checkout_endpoint (ib_key_sha256 binding) d")
  case (Some existing)
  then show ?thesis using assms resumed by (simp add: reserve_tx_def)
next
  case None
  define order where "order ref = reserved_order ps (new_id 0) ref request now" for ref
  define reservation where "reservation = new_reservation ps (new_id 2) (new_id 0) (new_id 1) binding now"
  define event where "event ref dd = \<lparr>ev_order_id = o_id (order ref), ev_sequence = next_sequence (o_id (order ref)) dd,
      ev_event_key = ''checkout:'' @ uuid_str (o_id (order ref)), ev_source = ''checkout'',
      ev_previous_payment_state = Some (o_payment_state (order ref)), ev_payment_state = o_payment_state (order ref),
      ev_previous_fulfillment_state = Some (o_fulfillment_state (order ref)), ev_fulfillment_state = o_fulfillment_state (order ref),
      ev_evidence = NoEvidence, ev_created_at = now\<rparr>" for ref dd
  from assms None obtain ref d1 d2 d3 where ref: "new_order_reference ms random_bytes = Inr ref"
    and 1: "insert_order (order ref) d = Inr ((), d1)" and 2: "insert_idempotency reservation d1 = Inr ((), d2)"
    and 3: "insert_state_event (event ref d2) d2 = Inr ((), d3)" and 4: "\<exists>plan. plan_tx reservation d3 = Inr (plan, d')"
    by (auto simp: reserve_tx_def bind_res_Inr_iff bind_tx_Inr Let_def record_state_event_def order_def event_def reservation_def)
  from 1 have d1: "d1 = d\<lparr>orders := orders d @ [order ref]\<rparr>" and checks: "order_check (order ref)"
    "unique_among o_id (order ref) (orders d)" "unique_among o_order_reference (order ref) (orders d)"
    "unique_among o_fulfillment_key (order ref) (orders d)"
    by (auto simp: insert_order_def split: if_splits)
  have d2: "d2 = d1\<lparr>idempotency_requests := idempotency_requests d1 @ [reservation]\<rparr>"
    using 2 by (auto simp: insert_idempotency_def split: if_splits)
  have d3: "d3 = d2\<lparr>state_events := state_events d2 @ [event ref d2]\<rparr>" "d' = d3"
    using 3 4 by (auto simp: insert_state_event_def plan_tx_def split: if_splits option.splits)
  have "records_move (event ref d2) (order ref) (order ref)" by (simp add: records_move_def event_def)
  moreover have "ev_sequence (event ref d2) = next_sequence (o_id (order ref)) d"
    by (simp add: event_def next_sequence_def d2 d1)
  moreover have "d' = d\<lparr>orders := orders d @ [order ref], idempotency_requests := idempotency_requests d @ [reservation],
      state_events := state_events d @ [event ref d2]\<rparr>" by (simp add: d3 d2 d1)
  ultimately show ?thesis
    using created [OF None ref order_def reservation_def checks] by blast
qed

lemma reserve_audited:
  assumes "reserve_tx ps os new_id token request binding now ms random_bytes d = Inr (r, d')"
  shows "audited sha d d'" "job_tables d' = job_tables d" "outbox_tables d' = outbox_tables d"
proof -
  have "audited sha d d' \<and> job_tables d' = job_tables d \<and> outbox_tables d' = outbox_tables d"
    using assms
  proof (cases rule: reserve_cases)
    case (resumed existing)
    then have "shared_tables d' = shared_tables d" using resume_shared by blast
    then show ?thesis
      using core_audited [of d' d sha] by (simp add: shared_tables_def) (simp add: core_tables_def)
  next
    case (created ref order reservation e)
    have states: "o_payment_state order = CHECKOUT_OPEN" "o_fulfillment_state order = AWAITING_PAYMENT"
      by (simp_all add: created(3) reserved_order_def)
    have "audit_step sha d d'"
      by (rule audit_step.created [OF created(5-8) states created(9,10)])
        (simp add: created(11) evidence_tables_def)
    then show ?thesis
      using audited_step by (simp add: created(11) job_tables_def outbox_tables_def)
  qed
  then show "audited sha d d'" "job_tables d' = job_tables d" "outbox_tables d' = outbox_tables d" by simp_all
qed

section \<open>Finishing a checkout\<close>

lemma finalize_cases:
  assumes "finalize_tx ps os token plan binding result now d = Inr (out, d')"
  obtains reservation order order1 reservation1 d1 d2 where
    "find_reservation (cp_reservation_id plan) d = Some reservation" "ir_checkout_state reservation = CS_PROCESSING"
    "ir_checkout_lease_id reservation = Some (cp_lease_id plan)" "ir_request_hash reservation = ib_request_sha256 binding"
    "find_order (ir_order_id reservation) d = Some order"
    "order1 = order\<lparr>o_checkout_session_id := Some (hc_session_id result), o_updated_at := now\<rparr>"
    "o_checkout_session_id order = None \<or> o_checkout_session_id order = Some (hc_session_id result)"
    "update_order order1 d = Inr ((), d1)" "issue_token os token order1 now False d1 = Inr (ou_status_token out, d2)"
    "ir_id reservation1 = ir_id reservation" "ir_checkout_state reservation1 = CS_COMPLETED"
    "ir_request_hash reservation1 = ir_request_hash reservation"
    "update_idempotency reservation1 d2 = Inr ((), d')"
proof -
  from assms obtain reservation where res: "find_reservation (cp_reservation_id plan) d = Some reservation"
    by (auto simp: finalize_tx_def split: option.splits)
  with assms obtain order where order: "find_order (ir_order_id reservation) d = Some order"
    by (auto simp: finalize_tx_def split: option.splits if_splits)
  define order1 where "order1 = order\<lparr>o_checkout_session_id := Some (hc_session_id result), o_updated_at := now\<rparr>"
  define reservation1 where "reservation1 = reservation\<lparr>ir_checkout_state := CS_COMPLETED, ir_response_status := Some 201,
    ir_response_body := Some \<lparr>rb_order_reference = o_order_reference order, rb_checkout_url = hc_checkout_url result,
      rb_payment_state = o_payment_state order, rb_fulfillment_state = o_fulfillment_state order\<rparr>,
    ir_completed_at := Some now, ir_checkout_lease_expires_at := Some (lease_expiry ps now)\<rparr>"
  have checks: "ir_checkout_state reservation = CS_PROCESSING" "ir_checkout_lease_id reservation = Some (cp_lease_id plan)"
    "ir_request_hash reservation = ib_request_sha256 binding"
    "o_checkout_session_id order = None \<or> o_checkout_session_id order = Some (hc_session_id result)"
    using assms res order by (auto simp: finalize_tx_def Let_def split: if_splits)
  obtain d1 d2 where txs: "update_order order1 d = Inr ((), d1)"
    "issue_token os token order1 now False d1 = Inr (ou_status_token out, d2)" "update_idempotency reservation1 d2 = Inr ((), d')"
    using assms res order
    by (auto simp: finalize_tx_def Let_def bind_tx_Inr order1_def reservation1_def split: if_splits)
  show thesis
    by (rule that [OF res checks(1-3) order order1_def checks(4) txs(1,2) _ _ _ txs(3)]) (simp_all add: reservation1_def)
qed
lemma finalize_audited:
  assumes "finalize_tx ps os token plan binding result now d = Inr (out, d')"
  shows "audited sha d d'" "job_tables d' = job_tables d" "outbox_tables d' = outbox_tables d"
proof -
  from assms obtain reservation :: idempotency_row and order order1 d1 d2 reservation1 where order: "find_order (ir_order_id reservation) d = Some order"
    and order1: "order1 = order\<lparr>o_checkout_session_id := Some (hc_session_id result), o_updated_at := now\<rparr>"
    and session: "o_checkout_session_id order = None \<or> o_checkout_session_id order = Some (hc_session_id result)"
    and txs: "update_order order1 d = Inr ((), d1)" "issue_token os token order1 now False d1 = Inr (ou_status_token out, d2)"
      "update_idempotency reservation1 d2 = Inr ((), d')"
    by (rule finalize_cases)
  note upd = update_order_Inr [OF txs(1)]
  have shared: "shared_tables d' = shared_tables d1"
    using issue_token_shared [OF txs(2)] update_idempotency_Inr [OF txs(3)] by simp
  then have tables: "evidence_tables d' = evidence_tables d1" "job_tables d' = job_tables d1" "outbox_tables d' = outbox_tables d1"
    by (simp_all add: shared_tables_def core_tables_def)
  have "order_keeps order order1" "same_states order order1"
    using session by (auto simp: order1 order_keeps_def same_snapshot_fields_def once_set_def same_states_def)
  then have "audit_step sha d d'"
    using find_order_Some [OF order] upd tables
    by (intro audit_step.touched [of order d order1]) (auto simp: evidence_tables_def)
  then show "audited sha d d'" by (intro audited_step)
  show "job_tables d' = job_tables d" "outbox_tables d' = outbox_tables d"
    using tables upd by (simp_all add: job_tables_def outbox_tables_def)
qed

section \<open>Payment events\<close>

lemma apply_event_facts:
  assumes "apply_event order event canonical = (order', changed)"
  shows "if changed then order' = order\<lparr>o_payment_state := o_payment_state order'\<rparr> \<and>
      o_payment_state order' \<in> payment_transitions (o_payment_state order) \<and>
      event_target event canonical = Some (o_payment_state order')
    else order' = order"
  using assms by (auto simp: apply_event_def store_transition_payment_def split: option.splits if_splits)

text \<open>The statement on a row is the transition of the domain, whatever the snapshot.\<close>

lemma store_transition_payment_domain:
  "store_transition_payment order target =
     (case transition_payment \<lparr>st_snapshot = snapshot, st_payment = o_payment_state order,
         st_fulfillment = o_fulfillment_state order\<rparr> target of
        Inl _ \<Rightarrow> (order, False)
      | Inr s \<Rightarrow> (order\<lparr>o_payment_state := st_payment s\<rparr>, st_payment s \<noteq> o_payment_state order))"
  by (cases order) (simp add: store_transition_payment_def transition_payment_def)

lemma settled_order_facts:
  assumes "settled_order order event canonical now = (order', changed)"
  shows "order_keeps order order'"
    and "\<not> changed \<Longrightarrow> same_states order order'"
    and "changed \<Longrightarrow> o_payment_state order' \<in> payment_transitions (o_payment_state order) \<and>
      o_fulfillment_state order' = (if o_payment_state order' = PAID then QUEUED else o_fulfillment_state order) \<and>
      event_target event canonical = Some (o_payment_state order')"
proof -
  obtain order1 where one: "apply_event order event canonical = (order1, changed)"
    using assms by (cases "apply_event order event canonical") (auto simp: settled_order_def Let_def)
  note facts = apply_event_facts [OF one]
  obtain p where p: "order1 = order\<lparr>o_payment_state := p\<rparr>"
  proof (cases changed)
    case False
    then show ?thesis using facts that [of "o_payment_state order"] by simp
  qed (use facts that in auto)
  then have keeps: "order_keeps order order1" by (simp add: order_keeps_def same_snapshot_fields_def)
  have order': "order' = (let order2 = order1\<lparr>o_updated_at := now\<rparr>;
      order3 = (if or_default (cc_payment_intent_id canonical) '''' \<noteq> '''' \<and> o_payment_intent_id order2 = None
                then order2\<lparr>o_payment_intent_id := cc_payment_intent_id canonical\<rparr> else order2)
      in if changed \<and> o_payment_state order3 = PAID then order3\<lparr>o_fulfillment_state := QUEUED\<rparr> else order3)"
    using assms by (auto simp: settled_order_def one Let_def split: if_splits)
  have "order_keeps order1 order'"
    by (auto simp: order' Let_def order_keeps_def same_snapshot_fields_def once_set_def)
  with keeps show "order_keeps order order'" by (rule order_keeps_trans)
  have states: "o_payment_state order' = o_payment_state order1"
    "o_fulfillment_state order' = (if changed \<and> o_payment_state order1 = PAID then QUEUED else o_fulfillment_state order1)"
    by (auto simp: order' Let_def)
  show "same_states order order'" if "\<not> changed" using that facts states by (simp add: same_states_def)
  show "o_payment_state order' \<in> payment_transitions (o_payment_state order) \<and>
      o_fulfillment_state order' = (if o_payment_state order' = PAID then QUEUED else o_fulfillment_state order) \<and>
      event_target event canonical = Some (o_payment_state order')" if changed
    using that facts states by (simp add: p)
qed

definition stripe_row :: "provider_event \<Rightarrow> bytes \<Rightarrow> datetime \<Rightarrow> string option \<Rightarrow> stripe_event_row" where
  "stripe_row event payload_hash now err =
     \<lparr>se_stripe_event_id = pe_event_id event, se_event_type = pe_event_type event, se_livemode = pe_livemode event,
      se_payload_sha256 = payload_hash, se_processed_at = Some now, se_safe_error_code = err, se_created_at = now\<rparr>"

lemma mark_recorded:
  assumes none: "find_stripe_event (pe_event_id event) d = None"
    and rec: "record_stripe_event event payload_hash now d = Inr (u, d1)" and same: "stripe_events d2 = stripe_events d1"
  shows "mark_processed (pe_event_id event) err now d2 =
      d2\<lparr>stripe_events := stripe_events d @ [stripe_row event payload_hash now err]\<rparr>"
    "shared_tables d1 = shared_tables d" "orders d1 = orders d" "find_order i d1 = find_order i d"
    "find_order_for_event a b d1 = find_order_for_event a b d"
proof -
  have old: "upd_row (\<lambda>r. se_stripe_event_id r = pe_event_id event) f (stripe_events d) = stripe_events d" for f
    using none by (intro upd_row_none) (auto simp: find_stripe_event_def find_None)
  from rec have d1: "d1 = d\<lparr>stripe_events := stripe_events d @ [\<lparr>se_stripe_event_id = pe_event_id event,
      se_event_type = pe_event_type event, se_livemode = pe_livemode event, se_payload_sha256 = payload_hash,
      se_processed_at = None, se_safe_error_code = None, se_created_at = now\<rparr>]\<rparr>"
    by (auto simp: record_stripe_event_def insert_stripe_event_def split: if_splits)
  then show "mark_processed (pe_event_id event) err now d2 =
      d2\<lparr>stripe_events := stripe_events d @ [stripe_row event payload_hash now err]\<rparr>"
    by (simp add: mark_processed_def same old stripe_row_def)
  show "shared_tables d1 = shared_tables d" "orders d1 = orders d" "find_order i d1 = find_order i d"
    "find_order_for_event a b d1 = find_order_for_event a b d"
    by (simp_all add: d1 find_order_def find_order_for_event_def cong: option.case_cong)
qed

lemma start_fulfillment_cases:
  assumes "start_fulfillment new_id order now inserted_at d = Inr (u, d')"
  obtains (none) "d' = d" "o_payment_state order \<noteq> PAID \<or> find_job_by_key (o_fulfillment_key order) d \<noteq> None"
  | (started) d1 where "o_payment_state order = PAID" "enqueue_fulfillment_once (new_id 0) order now d = Inr ((), d1)"
    "insert_outbox (payment_notice (new_id 1) order ''payment_confirmed'' now inserted_at) d1 = Inr ((), d')"
  using assms by (auto simp: start_fulfillment_def enqueue_outbox_once_def bind_tx_Inr split: if_splits)

lemma enqueue_fulfillment_Inr:
  assumes "enqueue_fulfillment_once new_id order now d = Inr (u, d')"
  shows "\<exists>r. d' = d\<lparr>durable_jobs := durable_jobs d @ [new_job new_id (o_fulfillment_key order) (o_id order) ''stamp_manifest_digest'' 10 now now],
      task_dispatches := task_dispatches d @ [r]\<rparr>"
proof -
  let ?job = "new_job new_id (o_fulfillment_key order) (o_id order) ''stamp_manifest_digest'' 10 now now"
  obtain d1 where "insert_job ?job d = Inr ((), d1)" "add_task_dispatch ?job now now d1 = Inr ((), d')"
    using assms by (auto simp: enqueue_fulfillment_once_def bind_tx_Inr Let_def)
  then show ?thesis using insert_job_Inr add_task_dispatch_Inr by fastforce
qed

lemma start_fulfillment_evidence:
  assumes "start_fulfillment new_id order now inserted_at d = Inr (u, d')"
  shows "evidence_tables d' = evidence_tables d" "stripe_events d' = stripe_events d"
  using assms
  by (auto elim!: start_fulfillment_cases dest!: enqueue_fulfillment_Inr insert_outbox_Inr simp: evidence_tables_def)

lemma start_fulfillment_outboxed:
  assumes "start_fulfillment new_id order now inserted_at d = Inr (u, d')"
  shows "outboxed d d'"
  using assms
proof (cases rule: start_fulfillment_cases)
  case (started d1)
  have "outboxed d d1"
    using enqueue_fulfillment_Inr [OF started(2)] by (intro outboxed_frame) (auto simp: outbox_tables_def)
  moreover have "outboxed d1 d'"
    using started(3) by (rule insert_fresh_outboxed) (simp add: payment_notice_def fresh_message_def)
  ultimately show ?thesis by (rule outbox_refining.R_trans)
qed (simp add: outbox_refining.R_refl)

lemma start_fulfillment_jobs:
  assumes "start_fulfillment new_id order now inserted_at d = Inr (u, d')"
    and key: "o_fulfillment_key order = ''stamp:'' @ uuid_str (o_id order)"
  shows "job_safe d d'" "o_payment_state order = PAID \<Longrightarrow> find_job_by_key (o_fulfillment_key order) d' \<noteq> None"
proof -
  have "job_safe d d' \<and> (o_payment_state order = PAID \<longrightarrow> find_job_by_key (o_fulfillment_key order) d' \<noteq> None)"
    using assms(1)
  proof (cases rule: start_fulfillment_cases)
    case (started d1)
    have "job_safe d d1" by (rule job_safe_enqueue_fulfillment [OF started(2)]) (simp_all add: key)
  moreover have "job_tables d' = job_tables d1"
    using insert_outbox_Inr [OF started(3)] by (simp add: job_tables_def)
  moreover obtain r where "durable_jobs d1 = durable_jobs d @
      [new_job (new_id 0) (o_fulfillment_key order) (o_id order) ''stamp_manifest_digest'' 10 now now]"
    using enqueue_fulfillment_Inr [OF started(2)] by auto
  ultimately show ?thesis
    using job_safe_tables job_keeping.R_trans by (auto simp: job_tables_def find_job_by_key_def find_None new_job_def)
qed (auto simp: job_keeping.R_refl)
  then show "job_safe d d'" "o_payment_state order = PAID \<Longrightarrow> find_job_by_key (o_fulfillment_key order) d' \<noteq> None" by simp_all
qed

text \<open>The four ways a payment event ends.\<close>

lemma webhook_cases:
  assumes "webhook_tx ps new_id event canonical payload_hash now inserted_at d = Inr (result, d')"
  obtains (duplicate) recorded where "find_stripe_event (pe_event_id event) d = Some recorded"
    "result = duplicate_result recorded event payload_hash" "d' = d"
  | (rejected) err where "find_stripe_event (pe_event_id event) d = None"
    "result = \<lparr>wh_duplicate = False, wh_accepted = False\<rparr>" "shared_tables d' = shared_tables d"
    "stripe_events d' = stripe_events d @ [stripe_row event payload_hash now (Some err)]"
  | (touched) order checkout order' d1 d2 where "find_stripe_event (pe_event_id event) d = None"
    "result = \<lparr>wh_duplicate = False, wh_accepted = True\<rparr>" "canonical = Some checkout"
    "order \<in> set (orders d)" "settled_order order event checkout now = (order', False)"
    "record_stripe_event event payload_hash now d = Inr ((), d1)" "update_order order' d1 = Inr ((), d2)"
    "d' = d2\<lparr>stripe_events := stripe_events d @ [stripe_row event payload_hash now None]\<rparr>"
  | (changed) order checkout order' d1 d2 d3 d4 where "find_stripe_event (pe_event_id event) d = None"
    "result = \<lparr>wh_duplicate = False, wh_accepted = True\<rparr>" "canonical = Some checkout"
    "order \<in> set (orders d)" "valid_binding ps order event checkout"
    "settled_order order event checkout now = (order', True)"
    "record_stripe_event event payload_hash now d = Inr ((), d1)" "update_order order' d1 = Inr ((), d2)"
    "start_fulfillment new_id order' now inserted_at d2 = Inr ((), d3)"
    "record_state_event order' (''stripe:'' @ pe_event_id event) ''stripe_webhook'' (o_payment_state order)
       (o_fulfillment_state order) now d3 = Inr ((), d4)"
    "d' = d4\<lparr>stripe_events := stripe_events d @ [stripe_row event payload_hash now None]\<rparr>"
proof (cases "find_stripe_event (pe_event_id event) d")
  case (Some recorded)
  show ?thesis by (rule duplicate [OF Some]) (use assms Some in \<open>simp_all add: webhook_tx_def\<close>)
next
  case None
  then obtain d1 where rec: "record_stripe_event event payload_hash now d = Inr ((), d1)"
    using assms by (auto simp: webhook_tx_def bind_tx_Inr)
  note mark = mark_recorded [OF None rec]
  have refused: thesis if "result = \<lparr>wh_duplicate = False, wh_accepted = False\<rparr>"
    "d' = mark_processed (pe_event_id event) (Some err) now d1" for err
    using that rejected [OF None, of err] mark(1) [OF refl] mark(2) [OF refl] by simp
  let ?found = "find_order_for_event (pe_internal_order_id event) (pe_payment_intent_id event) d1"
  show ?thesis
  proof (cases "\<exists>order checkout. ?found = Some order \<and> canonical = Some checkout \<and>
      o_checkout_session_id order \<noteq> None \<and> valid_binding ps order event checkout")
    case False
    then show ?thesis
      using assms None rec
      by (auto simp: webhook_tx_def bind_tx_Inr Let_def split: option.splits if_splits prod.splits intro: refused)
  next
    case True
    then obtain order checkout where found: "?found = Some order" and can: "canonical = Some checkout"
      and session: "o_checkout_session_id order \<noteq> None" and valid: "valid_binding ps order event checkout" by blast
    have member: "order \<in> set (orders d)"
      using found mark(3) [OF refl]
      by (auto simp: find_order_for_event_def find_order_def dest: find_SomeD split: if_splits option.splits)
    obtain order' changed where settled: "settled_order order event checkout now = (order', changed)"
      by (cases "settled_order order event checkout now")
    obtain d2 d3 where d2: "update_order order' d1 = Inr ((), d2)"
      and d3: "(if changed then bind_tx (start_fulfillment new_id order' now inserted_at) (\<lambda>_.
           record_state_event order' (''stripe:'' @ pe_event_id event) ''stripe_webhook'' (o_payment_state order)
             (o_fulfillment_state order) now) else return_tx ()) d2 = Inr ((), d3)"
      and res: "result = \<lparr>wh_duplicate = False, wh_accepted = True\<rparr>" "d' = mark_processed (pe_event_id event) None now d3"
      using assms None rec found can session valid settled
      by (auto simp: webhook_tx_def bind_tx_Inr Let_def split: if_splits)
    have same: "stripe_events d2 = stripe_events d1" using update_order_Inr [OF d2] by simp
    show ?thesis
    proof (cases changed)
      case False
      then have "d3 = d2" "settled_order order event checkout now = (order', False)" using d3 settled by simp_all
      then show ?thesis
        using touched [OF None res(1) can member _ rec d2] res(2) mark(1) [OF same] by simp
    next
      case True
      then obtain d4 where d4: "start_fulfillment new_id order' now inserted_at d2 = Inr ((), d4)"
        "record_state_event order' (''stripe:'' @ pe_event_id event) ''stripe_webhook'' (o_payment_state order)
           (o_fulfillment_state order) now d4 = Inr ((), d3)"
        using d3 by (auto simp: bind_tx_Inr)
      have "stripe_events d3 = stripe_events d1"
        using d4 start_fulfillment_evidence [OF d4(1)] same by (auto simp: record_state_event_def insert_state_event_def split: if_splits)
      then show ?thesis
        using changed [OF None res(1) can member valid _ rec d2 d4] settled True res(2) mark(1) by simp
    qed
  qed
qed

section \<open>Events are applied once\<close>

lemma webhook_records:
  assumes "webhook_tx ps new_id event canonical payload_hash now inserted_at d = Inr (result, d')"
  shows "\<exists>recorded. find_stripe_event (pe_event_id event) d' = Some recorded \<and>
    (wh_duplicate result \<or> find_stripe_event (pe_event_id event) d = None \<longrightarrow>
       duplicate_result recorded event payload_hash = \<lparr>wh_duplicate = True, wh_accepted = wh_accepted result\<rparr>)"
  using assms
proof (cases rule: webhook_cases)
  case (duplicate recorded)
  then show ?thesis by (auto simp: duplicate_result_def Let_def)
next
  case (rejected err)
  then show ?thesis
    by (simp add: find_stripe_event_def find_append stripe_row_def duplicate_result_def Let_def)
next
  case (touched order checkout order' d1 d2)
  then show ?thesis
    by (simp add: find_stripe_event_def find_append stripe_row_def duplicate_result_def Let_def)
next
  case (changed order checkout order' d1 d2 d3 d4)
  then show ?thesis
    by (simp add: find_stripe_event_def find_append stripe_row_def duplicate_result_def Let_def)
qed

text \<open>C33. A payment event is applied at most once: after it was processed, every further delivery of the same event, even
  with another payload, order lookup or checkout, changes nothing; and the delivery of the same payload is reported as a
  duplicate with the outcome of the first one.\<close>

theorem webhook_event_once:
  assumes first: "webhook_tx ps new_id event canonical payload_hash now inserted_at d = Inr (result, d')"
    and again: "pe_event_id event' = pe_event_id event"
  shows "\<exists>result'. webhook_tx ps' new_id' event' canonical' payload_hash' now' inserted_at' d' = Inr (result', d') \<and>
    (find_stripe_event (pe_event_id event) d = None \<and> payload_hash' = payload_hash \<and>
       pe_event_type event' = pe_event_type event \<and> pe_livemode event' = pe_livemode event \<longrightarrow>
     result' = \<lparr>wh_duplicate = True, wh_accepted = wh_accepted result\<rparr>)"
proof -
  obtain recorded where rec: "find_stripe_event (pe_event_id event) d' = Some recorded"
    and dup: "find_stripe_event (pe_event_id event) d = None \<longrightarrow>
      duplicate_result recorded event payload_hash = \<lparr>wh_duplicate = True, wh_accepted = wh_accepted result\<rparr>"
    using webhook_records [OF first] by (elim exE conjE) (rule that, assumption, simp)
  have "webhook_tx ps' new_id' event' canonical' payload_hash' now' inserted_at' d' =
      Inr (duplicate_result recorded event' payload_hash', d')"
    using rec again by (simp add: webhook_tx_def)
  moreover have "duplicate_result recorded event' payload_hash = duplicate_result recorded event payload_hash"
    if "pe_event_type event' = pe_event_type event" "pe_livemode event' = pe_livemode event"
    using that by (simp add: duplicate_result_def)
  ultimately show ?thesis using dup by metis
qed

section \<open>A paid order is queued with its job and its audit event\<close>

lemma changed_tables:
  assumes "update_order order' d1 = Inr ((), d2)" "start_fulfillment new_id order' now inserted_at d2 = Inr ((), d3)"
    "record_state_event order' key source p f now d3 = Inr ((), d4)" "o_id order' = o_id order"
  obtains e where "evidence_tables d4 = (put_order order' (orders d1), state_events d1 @ [e], proof_versions d1,
      proof_verifications d1, proof_bundles d1, confirmation_observations d1)"
    "order_check order'" "ev_order_id e = o_id order" "ev_sequence e = next_sequence (o_id order) d1"
    "ev_previous_payment_state e = Some p" "ev_payment_state e = o_payment_state order'"
    "ev_previous_fulfillment_state e = Some f" "ev_fulfillment_state e = o_fulfillment_state order'"
    "job_tables d4 = job_tables d3" "outbox_tables d4 = outbox_tables d3"
proof -
  define e where "e = \<lparr>ev_order_id = o_id order', ev_sequence = next_sequence (o_id order') d3, ev_event_key = key,
    ev_source = source, ev_previous_payment_state = Some p, ev_payment_state = o_payment_state order',
    ev_previous_fulfillment_state = Some f, ev_fulfillment_state = o_fulfillment_state order', ev_evidence = NoEvidence,
    ev_created_at = now\<rparr>"
  have d2: "d2 = d1\<lparr>orders := put_order order' (orders d1)\<rparr>" "order_check order'"
    using update_order_Inr [OF assms(1)] by simp_all
  have d3: "evidence_tables d3 = evidence_tables d2" using start_fulfillment_evidence [OF assms(2)] by simp
  have d4: "d4 = d3\<lparr>state_events := state_events d3 @ [e]\<rparr>"
    using assms(3) by (auto simp: record_state_event_def insert_state_event_def e_def split: if_splits)
  have "next_sequence (o_id order') d3 = next_sequence (o_id order) d1"
    using d3 assms(4) by (simp add: next_sequence_def evidence_tables_def d2)
  then show thesis
    using that [of e] d2 d3 assms(4) by (simp add: d4 e_def evidence_tables_def job_tables_def outbox_tables_def)
qed

lemma paid_event_queues:
  assumes "webhook_tx ps new_id event canonical payload_hash now inserted_at d = Inr (result, d')"
    and "find_order oid d = Some order" "find_order oid d' = Some order'" "store_inv sha d"
    and "o_payment_state order \<noteq> PAID" "o_payment_state order' = PAID"
    and "o_fulfillment_key order = ''stamp:'' @ uuid_str oid"
  shows "o_fulfillment_state order' = QUEUED \<and> find_job_by_key (o_fulfillment_key order) d' \<noteq> None \<and>
    (\<exists>e. state_events d' = state_events d @ [e] \<and> records_move e order order') \<and>
    (\<exists>checkout. canonical = Some checkout \<and> base_binding ps order event checkout \<and> cc_payment_status checkout = ''paid'')"
  using assms(1)
proof (cases rule: webhook_cases)
  case (changed own checkout own' d1 d2 d3 d4)
  note facts = settled_order_facts [OF changed(6)]
  have id: "o_id own' = o_id own" using facts(1) by (simp add: order_keeps_def)
  obtain e where tables: "evidence_tables d4 = (put_order own' (orders d1), state_events d1 @ [e], proof_versions d1,
      proof_verifications d1, proof_bundles d1, confirmation_observations d1)"
    and e: "ev_order_id e = o_id own" "ev_previous_payment_state e = Some (o_payment_state own)"
      "ev_payment_state e = o_payment_state own'" "ev_previous_fulfillment_state e = Some (o_fulfillment_state own)"
      "ev_fulfillment_state e = o_fulfillment_state own'" and jobs: "job_tables d4 = job_tables d3"
    by (rule changed_tables [OF changed(8-10) id])
  have d1: "orders d1 = orders d" "state_events d1 = state_events d"
    using mark_recorded(2) [OF changed(1,7) refl] by (simp_all add: shared_tables_def core_defs)
  have dist: "distinct (map o_id (orders d))" using assms(4) by (simp add: store_inv_def orders_ok_def)
  have orders': "orders d' = put_order own' (orders d)" "state_events d' = state_events d @ [e]"
    using tables d1 changed(11) by (simp_all add: evidence_tables_def)
  have mem: "order \<in> set (orders d)" "o_id order = oid" "order' \<in> set (orders d')" "o_id order' = oid"
    using find_order_Some assms(2,3) by blast+
  have "order' = own' \<and> order = own"
    using put_order_unique [OF dist changed(4) id, of order'] mem dist changed(4) id assms(5,6)
    by (auto simp: orders' distinct_map inj_on_def)
  then have own: "order' = own'" "order = own" by simp_all
  have paid: "o_payment_state own' = PAID" using assms(6) own by simp
  have target: "event_target event checkout = Some PAID" "o_fulfillment_state own' = QUEUED" using facts(3) paid by simp_all
  have key: "o_fulfillment_key own' = ''stamp:'' @ uuid_str (o_id own')"
    using facts(1) assms(7) own mem id by (simp add: order_keeps_def same_snapshot_fields_def)
  have "find_job_by_key (o_fulfillment_key own') d3 \<noteq> None" by (rule start_fulfillment_jobs(2) [OF changed(9) key paid])
  then have "find_job_by_key (o_fulfillment_key order) d' \<noteq> None"
    using facts(1) own jobs changed(11)
    by (simp add: find_job_by_key_def job_tables_def order_keeps_def same_snapshot_fields_def)
  moreover have "records_move e order order'" using e own by (simp add: records_move_def)
  moreover have "base_binding ps order event checkout" using changed(5) own by (auto simp: valid_binding_def split: if_splits)
  moreover have "cc_payment_status checkout = ''paid''"
    using target(1) by (auto simp: event_target_def Let_def split: if_splits)
  ultimately show ?thesis using own target orders' changed(3) by blast
next
  case (duplicate recorded)
  then show ?thesis using assms by simp
next
  case (rejected err)
  then have "orders d' = orders d" by (rule_tac shared_orders)
  then show ?thesis using assms by (simp add: find_order_def)
next
  case (touched own checkout own' d1 d2)
  note facts = settled_order_facts [OF touched(5)]
  have id: "o_id own' = o_id own" using facts(1) by (simp add: order_keeps_def)
  have "orders d1 = orders d" using mark_recorded(2) [OF touched(1,6) refl] by (simp add: shared_tables_def core_defs)
  then have orders': "orders d' = put_order own' (orders d)"
    using update_order_Inr [OF touched(7)] touched(8) by simp
  have dist: "distinct (map o_id (orders d))" using assms(4) by (simp add: store_inv_def orders_ok_def)
  have "order \<in> set (orders d)" "o_id order = oid" "order' \<in> set (orders d')" "o_id order' = oid"
    using find_order_Some assms(2,3) by blast+
  then have "same_states order order'"
    using put_order_unique [OF dist touched(4) id, of order'] dist touched(4) id facts(2)
    by (auto simp: orders' distinct_map inj_on_def)
  then show ?thesis using assms(5,6) by (simp add: same_states_def)
qed

text \<open>C34. When a payment event makes an order paid, the same transaction queues the order, creates its stamping job
  unless it is there, and records the move in the audit log; the event is bound to the order's own checkout session, price,
  amount and currency.\<close>

theorem paid_order_is_queued:
  assumes "webhook_tx ps new_id event canonical payload_hash now inserted_at d = Inr (result, d')"
    and "find_order oid d = Some order" "find_order oid d' = Some order'" "store_inv sha d"
    and "o_payment_state order \<noteq> PAID" "o_payment_state order' = PAID"
    and "o_fulfillment_key order = ''stamp:'' @ uuid_str oid"
  shows "o_fulfillment_state order' = QUEUED \<and> find_job_by_key (o_fulfillment_key order) d' \<noteq> None \<and>
    (\<exists>e. state_events d' = state_events d @ [e] \<and> records_move e order order') \<and>
    (\<exists>checkout. canonical = Some checkout \<and> base_binding ps order event checkout \<and> cc_payment_status checkout = ''paid'')"
  by (rule paid_event_queues [OF assms])

section \<open>One order per idempotency key, one credential per lease\<close>

lemma find_upd_same:
  assumes "find P rows = Some x" "key x = key y" "P y"
  shows "find P (upd_row (\<lambda>r. key r = key y) (\<lambda>_. y) rows) = Some y"
  using assms by (induction rows) auto

lemma reserve_remembers:
  assumes "reserve_tx ps os new_id token request binding now ms random_bytes d = Inr (r, d')"
  obtains existing where "find_idempotency checkout_endpoint (ib_key_sha256 binding) d' = Some existing"
    "ir_request_hash existing = ib_request_sha256 binding"
  using assms
proof (cases rule: reserve_cases)
  case (resumed existing)
  have hash: "ir_request_hash existing = ib_request_sha256 binding"
    and tx: "resume_tx ps os (new_id 0) token existing binding now d = Inr (r, d')"
    using resumed(2) by (auto simp: resume_existing_def split: if_splits)
  from tx obtain r1 d1 where upd: "update_idempotency r1 d = Inr ((), d1)" and r1: "ir_id r1 = ir_id existing"
    "ir_endpoint r1 = ir_endpoint existing" "ir_key_hash r1 = ir_key_hash existing"
    "ir_request_hash r1 = ir_request_hash existing"
    and last: "d' = d1 \<or> (\<exists>out. replay_checkout ps os token r1 binding now d1 = Inr (out, d'))"
    by (rule resume_cases)
  have "idempotency_requests d' = idempotency_requests d1"
    using last
    by (auto simp: replay_checkout_def bind_tx_Inr dest!: issue_token_shared(2)
        split: if_splits option.splits sum.splits bool.splits exn.splits)
  then have "find_idempotency checkout_endpoint (ib_key_sha256 binding) d' = Some r1"
    using update_idempotency_Inr [OF upd] resumed(1) r1(1-3) find_SomeD [of _ "idempotency_requests d" existing]
      find_upd_same [of "\<lambda>r. ir_endpoint r = checkout_endpoint \<and> ir_key_hash r = ib_key_sha256 binding"
        "idempotency_requests d" existing ir_id r1]
    by (auto simp: find_idempotency_def)
  then show ?thesis using that r1(4) hash by simp
next
  case (created ref order reservation e)
  then show ?thesis
    using that [of reservation] by (simp add: find_idempotency_def find_append new_reservation_def)
qed

lemma resume_parts:
  assumes "resume_existing ps os lease_id token existing binding now d = Inr (r, d')"
  obtains r1 d1 where "update_idempotency r1 d = Inr ((), d1)"
    "\<exists>lease expiry state. r1 = existing\<lparr>ir_checkout_lease_id := lease, ir_checkout_lease_expires_at := expiry, ir_checkout_state := state\<rparr>"
    "idempotency_requests d' = idempotency_requests d1"
    "case r of Inl plan \<Rightarrow> cp_order_id plan = ir_order_id existing \<and>
          cp_provider_idempotency_key plan = ir_provider_idempotency_key existing
      | Inr out \<Rightarrow> \<exists>body. ir_response_body existing = Some body \<and> ou_order_reference out = rb_order_reference body \<and>
          ou_checkout_url out = rb_checkout_url body"
proof -
  let ?r1 = "existing\<lparr>ir_checkout_lease_id := Some (uuid_str lease_id), ir_checkout_lease_expires_at := Some (lease_expiry ps now)\<rparr>"
  have tx: "resume_tx ps os lease_id token existing binding now d = Inr (r, d')"
    using assms by (auto simp: resume_existing_def split: if_splits)
  then obtain order where "find_order (ir_order_id existing) d = Some order"
    by (auto simp: resume_tx_def split: option.splits)
  then consider d1 out where "update_idempotency ?r1 d = Inr ((), d1)" "replay_checkout ps os token ?r1 binding now d1 = Inr (out, d')" "r = Inr out"
    | d1 plan where "update_idempotency (?r1\<lparr>ir_checkout_state := CS_PROCESSING\<rparr>) d = Inr ((), d1)"
      "plan_tx (?r1\<lparr>ir_checkout_state := CS_PROCESSING\<rparr>) d1 = Inr (plan, d')" "r = Inl plan"
    using tx by (auto simp: resume_tx_def Let_def bind_tx_Inr return_tx_Inr split: if_splits)
  then show thesis
  proof cases
    case 1
    obtain body order where body: "ir_response_body existing = Some body"
      "find_order_by_reference (rb_order_reference body) d1 = Some order" "ou_order_reference out = o_order_reference order"
      "ou_checkout_url out = rb_checkout_url body" and same: "idempotency_requests d' = idempotency_requests d1"
      using 1(2)
      by (auto simp: replay_checkout_def bind_tx_Inr return_tx_Inr dest!: issue_token_shared(2)
          split: if_splits option.splits sum.splits bool.splits exn.splits)
    have ref: "ou_order_reference out = rb_order_reference body"
      using body(2,3) by (auto simp: find_order_by_reference_def dest: find_SomeD)
    have "?r1 = existing\<lparr>ir_checkout_lease_id := Some (uuid_str lease_id), ir_checkout_lease_expires_at := Some (lease_expiry ps now),
        ir_checkout_state := ir_checkout_state existing\<rparr>" by simp
    then have "\<exists>lease expiry state. ?r1 =
        existing\<lparr>ir_checkout_lease_id := lease, ir_checkout_lease_expires_at := expiry, ir_checkout_state := state\<rparr>" by (intro exI)
    then show ?thesis using body(1,4) ref by (intro that [OF 1(1) _ same]) (simp_all add: 1(3))
  next
    case 2
    have "cp_order_id plan = ir_order_id existing" "cp_provider_idempotency_key plan = ir_provider_idempotency_key existing" "d' = d1"
      using 2(2) by (auto simp: plan_tx_def find_order_def dest: find_SomeD split: option.splits)
    moreover have "\<exists>lease expiry state. ?r1\<lparr>ir_checkout_state := CS_PROCESSING\<rparr> =
        existing\<lparr>ir_checkout_lease_id := lease, ir_checkout_lease_expires_at := expiry, ir_checkout_state := state\<rparr>" by (intro exI) (rule refl)
    ultimately show ?thesis by (intro that [OF 2(1)]) (simp_all add: 2(3))
  qed
qed

lemma resume_keeps_record:
  assumes found: "find_idempotency checkout_endpoint key d = Some existing"
    and tx: "resume_existing ps os lease_id token existing binding now d = Inr (r, d')"
  obtains lease expiry state where "find_idempotency checkout_endpoint key d' =
      Some (existing\<lparr>ir_checkout_lease_id := lease, ir_checkout_lease_expires_at := expiry, ir_checkout_state := state\<rparr>)"
    "case r of Inl plan \<Rightarrow> cp_order_id plan = ir_order_id existing \<and>
          cp_provider_idempotency_key plan = ir_provider_idempotency_key existing
      | Inr out \<Rightarrow> \<exists>body. ir_response_body existing = Some body \<and> ou_order_reference out = rb_order_reference body \<and>
          ou_checkout_url out = rb_checkout_url body"
  using tx
proof (rule resume_parts)
  fix r1 d1
  assume upd: "update_idempotency r1 d = Inr ((), d1)"
    and r1: "\<exists>lease expiry state. r1 = existing\<lparr>ir_checkout_lease_id := lease, ir_checkout_lease_expires_at := expiry, ir_checkout_state := state\<rparr>"
    and same: "idempotency_requests d' = idempotency_requests d1"
    and answer: "case r of Inl plan \<Rightarrow> cp_order_id plan = ir_order_id existing \<and>
          cp_provider_idempotency_key plan = ir_provider_idempotency_key existing
      | Inr out \<Rightarrow> \<exists>body. ir_response_body existing = Some body \<and> ou_order_reference out = rb_order_reference body \<and>
          ou_checkout_url out = rb_checkout_url body"
  have "ir_endpoint r1 = checkout_endpoint" "ir_key_hash r1 = key" "ir_id r1 = ir_id existing"
    using r1 find_SomeD [OF found [unfolded find_idempotency_def]] by auto
  then have "find_idempotency checkout_endpoint key d' = Some r1"
    using update_idempotency_Inr [OF upd] found same
      find_upd_same [of "\<lambda>r. ir_endpoint r = checkout_endpoint \<and> ir_key_hash r = key" "idempotency_requests d" existing ir_id r1]
    by (simp add: find_idempotency_def)
  then show thesis using that answer r1 by blast
qed

text \<open>\<open>reserve\<close> with a recorded key is one transaction that resumes, or nothing.\<close>

lemma reserve_recorded:
  assumes found: "find_idempotency checkout_endpoint (ib_key_sha256 binding) d = Some existing"
    and run: "reserve ps os new_id token request binding now ms random_bytes d = (result, d')"
  shows "(\<exists>e. result = Inl e) \<and> d' = d \<or>
    (\<exists>r lease_id. result = Inr r \<and> resume_existing ps os lease_id token existing binding now d = Inr (r, d'))"
proof -
  have tx: "reserve_tx ps os new_id token request binding now ms random_bytes d =
      resume_existing ps os (new_id 0) token existing binding now d"
    using found by (simp add: reserve_tx_def)
  show ?thesis
  proof (cases "resume_existing ps os (new_id 0) token existing binding now d")
    case (Inr r)
    then show ?thesis using run tx by (cases r) (auto simp: reserve_def catch_act_def transaction_def)
  next
    case (Inl e)
    show ?thesis
    proof (cases "e = IntegrityError")
      case True
      then show ?thesis
        using run tx Inl found
        by (cases "resume_existing ps os (new_id 3) token existing binding now d")
          (auto simp: reserve_def catch_act_def transaction_def)
    next
      case False
      then show ?thesis using run tx Inl by (auto simp: reserve_def catch_act_def transaction_def raise_act_def)
    qed
  qed
qed


text \<open>A checkout is finished at most once: after a committed \<open>_finalize\<close>, every other one for the same reservation,
  with whatever lease, provider result and time, is refused, so that no second credential is issued for it.\<close>

theorem checkout_finalized_once:
  assumes first: "finalize_tx ps os token plan binding result now d = Inr (out, d')"
    and again: "cp_reservation_id plan' = cp_reservation_id plan"
  shows "finalize_tx ps' os' token' plan' binding' result' now' d' \<in>
    {Inl (IdempotencyConflict ''idempotent reservation is unavailable''),
     Inl (CheckoutInProgress ''checkout credential is in its grace period'')}"
proof -
  from first obtain reservation order order1 reservation1 d1 d2 where
    res: "find_reservation (cp_reservation_id plan) d = Some reservation"
    and txs: "update_order order1 d = Inr ((), d1)" "issue_token os token order1 now False d1 = Inr (ou_status_token out, d2)"
    and r1: "ir_id reservation1 = ir_id reservation" "ir_checkout_state reservation1 = CS_COMPLETED"
    and upd: "update_idempotency reservation1 d2 = Inr ((), d')"
    by (rule finalize_cases)
  have "idempotency_requests d2 = idempotency_requests d"
    using update_order_Inr [OF txs(1)] issue_token_shared(2) [OF txs(2)] by simp
  then have "find_reservation (cp_reservation_id plan') d' = Some reservation1"
    using update_idempotency_Inr [OF upd] res r1(1) again find_SomeD [OF res [unfolded find_reservation_def]]
      find_upd_same [of "\<lambda>r. ir_id r = cp_reservation_id plan" "idempotency_requests d" reservation ir_id reservation1]
    by (simp add: find_reservation_def)
  then show ?thesis using r1(2) by (simp add: finalize_tx_def)
qed

section \<open>A sample checkout and payment\<close>

definition sample_settings :: payment_settings where
  "sample_settings = \<lparr>ps_checkout_enabled = True, ps_payment_mode = PM_STRIPE_TEST, ps_expected_terms_version = ''t1'',
     ps_expected_privacy_version = ''p1'', ps_stripe_price_id = Some ''price_1'', ps_checkout_amount_minor = 500,
     ps_checkout_currency = ''usd'', ps_product_version = ''1'', ps_checkout_success_url = None,
     ps_checkout_cancel_url = None, ps_checkout_credential_grace_seconds = 60, ps_stripe_signature_tolerance_seconds = 300\<rparr>"

definition sample_request :: checkout_input where
  "sample_request = \<lparr>ci_certificate_reference = ''SR-1'', ci_manifest_digest = replicate 32 1, ci_email = ''a@b.test'',
     ci_terms_version = ''t1'', ci_privacy_version = ''p1'', ci_accepted_at = Aware 0\<rparr>"

definition sample_binding :: "8 word \<Rightarrow> idempotency_binding" where
  "sample_binding x = \<lparr>ib_key_sha256 = replicate 32 5, ib_request_sha256 = replicate 32 x, ib_canonical_body = []\<rparr>"

definition sample_ids :: "nat \<Rightarrow> uuid" where
  "sample_ids n = 100 + word_of_nat n"

definition open_order :: order_row where
  "open_order = sample_order\<lparr>o_payment_state := CHECKOUT_OPEN, o_fulfillment_state := AWAITING_PAYMENT, o_payment_intent_id := None\<rparr>"

definition open_db :: db where
  "open_db = empty_db\<lparr>orders := [open_order], state_events :=
     [sample_event 1 (''checkout:'' @ uuid_str 7) CHECKOUT_OPEN CHECKOUT_OPEN AWAITING_PAYMENT AWAITING_PAYMENT]\<rparr>"

lemma open_db_inv: "store_inv sha open_db"
  by (simp add: store_inv_defs open_db_def open_order_def sample_order_def sample_event_def empty_db_def
      order_check_def sample_usd paid_before_work_def work_states_def settled_payments_def log_ok_def events_of_def
      legal_event_def legal_payment_def legal_fulfillment_def chained_def proofs_of_def upto.simps)

definition paid_event :: provider_event where
  "paid_event = \<lparr>pe_event_id = ''evt_1'', pe_event_type = ''checkout.session.completed'', pe_livemode = False,
     pe_internal_order_id = Some (uuid_str 7), pe_session_id = Some ''cs_test_1'', pe_payment_intent_id = Some ''pi_1'',
     pe_refund_status = None, pe_refunded_amount = None\<rparr>"

definition paid_checkout :: canonical_checkout where
  "paid_checkout = \<lparr>cc_session_id = ''cs_test_1'', cc_payment_intent_id = Some ''pi_1'', cc_livemode = False,
     cc_mode = ''payment'', cc_status = ''complete'', cc_payment_status = ''paid'',
     cc_metadata = [(''order_id'', uuid_str 7)], cc_price_id = ''price_1'', cc_amount_total = 500,
     cc_currency = ''usd'', cc_quantity = 1, cc_refund_status = None, cc_refunded_amount_total = 0\<rparr>"

definition paid_order :: order_row where
  "paid_order = open_order\<lparr>o_payment_state := PAID, o_updated_at := Aware 1, o_payment_intent_id := Some ''pi_1'',
     o_fulfillment_state := QUEUED\<rparr>"

lemma uuid_str_nonempty [simp]: "uuid_str u \<noteq> []"
  using length_uuid_str [of u] by (metis list.size(3) zero_neq_numeral)

lemma sample_settled: "settled_order open_order paid_event paid_checkout (Aware 1) = (paid_order, True)"
  by (simp add: settled_order_def apply_event_def event_target_def store_transition_payment_def paid_event_def
      paid_checkout_def open_order_def sample_order_def or_default_def paid_order_def Let_def)

lemma sample_valid: "valid_binding sample_settings open_order paid_event paid_checkout"
  by (simp add: valid_binding_def base_binding_def paid_event_def paid_checkout_def open_order_def sample_order_def
      expected_price_id_def or_default_def sample_settings_def refund_events_def dispute_events_def Let_def)

lemma sample_paid:
  "\<exists>d'. webhook_tx sample_settings sample_ids paid_event (Some paid_checkout) (replicate 32 2) (Aware 1) (Aware 1) open_db =
     Inr (\<lparr>wh_duplicate = False, wh_accepted = True\<rparr>, d') \<and> find_order 7 d' = Some paid_order"
proof -
  have found: "find_stripe_event (pe_event_id paid_event) open_db = None"
    by (simp add: find_stripe_event_def open_db_def empty_db_def)
  define d1 where "d1 = open_db\<lparr>stripe_events := [\<lparr>se_stripe_event_id = ''evt_1'', se_event_type = ''checkout.session.completed'',
    se_livemode = False, se_payload_sha256 = replicate 32 2, se_processed_at = None, se_safe_error_code = None,
    se_created_at = Aware 1\<rparr>]\<rparr>"
  have rec: "record_stripe_event paid_event (replicate 32 2) (Aware 1) open_db = Inr ((), d1)"
    by (simp add: record_stripe_event_def insert_stripe_event_def paid_event_def d1_def open_db_def empty_db_def unique_among_def)
  have order: "find_order_for_event (pe_internal_order_id paid_event) (pe_payment_intent_id paid_event) d1 = Some open_order"
    by (simp add: find_order_for_event_def paid_event_def or_default_def find_order_def d1_def open_db_def open_order_def sample_order_def)
  have session: "o_checkout_session_id open_order \<noteq> None" by (simp add: open_order_def sample_order_def)
  define d2 where "d2 = d1\<lparr>orders := [paid_order]\<rparr>"
  have upd: "update_order paid_order d1 = Inr ((), d2)"
    by (simp add: update_order_def find_order_def d1_def d2_def open_db_def paid_order_def open_order_def sample_order_def
        reject_order_snapshot_mutation_def same_snapshot_fields_def order_check_def sample_usd paid_before_work_def
        work_states_def settled_payments_def unique_opt_among_def require_def)
  have start: "\<exists>d3. start_fulfillment sample_ids paid_order (Aware 1) (Aware 1) d2 = Inr ((), d3)"
    by (simp add: start_fulfillment_def paid_order_def open_order_def sample_order_def find_job_by_key_def d2_def d1_def
        open_db_def empty_db_def enqueue_fulfillment_once_def Let_def bind_tx_def insert_job_def new_job_def
        unique_among_def unique_opt_among_def find_order_def find_job_def add_task_dispatch_def deterministic_task_name_eq insert_dispatch_def
        enqueue_outbox_once_def insert_outbox_def payment_notice_def outbox_check_def)
  then obtain d3 where d3: "start_fulfillment sample_ids paid_order (Aware 1) (Aware 1) d2 = Inr ((), d3)" by blast
  have tables: "evidence_tables d3 = evidence_tables d2" using start_fulfillment_evidence [OF d3] by simp
  then have d3': "orders d3 = [paid_order]" "state_events d3 = state_events open_db"
    by (simp_all add: evidence_tables_def d2_def d1_def)
  have "\<exists>d4. record_state_event paid_order (''stripe:'' @ pe_event_id paid_event) ''stripe_webhook'' (o_payment_state open_order)
      (o_fulfillment_state open_order) (Aware 1) d3 = Inr ((), d4) \<and> orders d4 = [paid_order]"
    using d3' by (simp add: record_state_event_def insert_state_event_def next_sequence_def open_db_def sample_event_def
        paid_order_def open_order_def sample_order_def unique_among_def find_order_def paid_event_def max_of_def)
  then obtain d4 where d4: "record_state_event paid_order (''stripe:'' @ pe_event_id paid_event) ''stripe_webhook'' (o_payment_state open_order)
      (o_fulfillment_state open_order) (Aware 1) d3 = Inr ((), d4)" "orders d4 = [paid_order]" by blast
  have "webhook_tx sample_settings sample_ids paid_event (Some paid_checkout) (replicate 32 2) (Aware 1) (Aware 1) open_db =
      Inr (\<lparr>wh_duplicate = False, wh_accepted = True\<rparr>, mark_processed (pe_event_id paid_event) None (Aware 1) d4)"
    using found rec order session sample_valid sample_settled upd d3 d4(1)
    by (simp add: webhook_tx_def bind_tx_def Let_def del: not_None_eq)
  moreover have "find_order 7 (mark_processed (pe_event_id paid_event) None (Aware 1) d4) = Some paid_order"
    using d4(2) by (simp add: mark_processed_def find_order_def paid_order_def open_order_def sample_order_def)
  ultimately show ?thesis by blast
qed

theorem webhook_event_once_witness:
  "\<exists>d'. webhook_tx sample_settings sample_ids paid_event (Some paid_checkout) (replicate 32 2) (Aware 1) (Aware 1) open_db =
      Inr (\<lparr>wh_duplicate = False, wh_accepted = True\<rparr>, d') \<and>
    webhook_tx sample_settings sample_ids paid_event (Some paid_checkout) (replicate 32 2) (Aware 9) (Aware 9) d' =
      Inr (\<lparr>wh_duplicate = True, wh_accepted = True\<rparr>, d')"
proof -
  obtain d' where first: "webhook_tx sample_settings sample_ids paid_event (Some paid_checkout) (replicate 32 2) (Aware 1) (Aware 1) open_db =
      Inr (\<lparr>wh_duplicate = False, wh_accepted = True\<rparr>, d')" using sample_paid by blast
  have "find_stripe_event (pe_event_id paid_event) open_db = None"
    by (simp add: find_stripe_event_def open_db_def empty_db_def)
  then have "webhook_tx sample_settings sample_ids paid_event (Some paid_checkout) (replicate 32 2) (Aware 9) (Aware 9) d' =
      Inr (\<lparr>wh_duplicate = True, wh_accepted = True\<rparr>, d')"
    using webhook_event_once [OF first refl, of sample_settings sample_ids "Some paid_checkout" "replicate 32 2" "Aware 9" "Aware 9"]
    by auto
  with first show ?thesis by blast
qed

theorem paid_order_is_queued_witness:
  "\<exists>result d' e. webhook_tx sample_settings sample_ids paid_event (Some paid_checkout) (replicate 32 2) (Aware 1) (Aware 1) open_db =
      Inr (result, d') \<and> find_order 7 d' = Some paid_order \<and> o_fulfillment_state paid_order = QUEUED \<and>
    find_job_by_key (''stamp:'' @ uuid_str 7) d' \<noteq> None \<and> state_events d' = state_events open_db @ [e]"
proof -
  obtain d' where run: "webhook_tx sample_settings sample_ids paid_event (Some paid_checkout) (replicate 32 2) (Aware 1) (Aware 1) open_db =
      Inr (\<lparr>wh_duplicate = False, wh_accepted = True\<rparr>, d')" "find_order 7 d' = Some paid_order" using sample_paid by blast
  have key: "o_fulfillment_key open_order = ''stamp:'' @ uuid_str 7" by (simp add: open_order_def sample_order_def)
  have "find_order 7 open_db = Some open_order" by (simp add: find_order_def open_db_def open_order_def sample_order_def)
  moreover have "o_payment_state open_order \<noteq> PAID" "o_payment_state paid_order = PAID" by (simp_all add: open_order_def paid_order_def)
  ultimately show ?thesis
    using paid_order_is_queued [OF run(1) _ run(2) open_db_inv _ _ key] run key by auto
qed

lemma sample_reserve:
  "\<exists>plan d'. reserve_tx sample_settings sample_token_store sample_ids (replicate 32 0) sample_request (sample_binding 1) (Aware 0) 0
     (replicate 10 3) empty_db = Inr (Inl plan, d')"
proof -
  obtain ref where "new_order_reference 0 (replicate 10 3) = Inr ref" by (simp add: new_order_reference_def)
  then show ?thesis
    by (simp add: reserve_tx_def find_idempotency_def empty_db_def bind_tx_def Let_def insert_order_def reserved_order_def
        order_check_def sample_request_def sample_settings_def sample_usd paid_before_work_def work_states_def unique_among_def
        unique_opt_among_def insert_idempotency_def new_reservation_def find_order_def sample_binding_def completion_ok_def
        record_state_event_def insert_state_event_def plan_tx_def return_tx_def)
qed


definition reserved_db :: db where
  "reserved_db = open_db\<lparr>idempotency_requests := [new_reservation sample_settings 50 7 51 (sample_binding 1) (Aware 0)]\<rparr>"

definition sample_plan :: checkout_plan where
  "sample_plan = \<lparr>cp_reservation_id = 50, cp_order_id = 7, cp_order_reference = o_order_reference open_order,
     cp_customer_email = ''a@b.test'', cp_price_id = ''fixture_price'', cp_amount_minor = 500, cp_currency = ''usd'',
     cp_success_url = ''https://example.test/timestamp/status'', cp_cancel_url = ''https://example.test/timestamp/cancelled'',
     cp_provider_idempotency_key = hex (replicate 32 5), cp_lease_id = uuid_str 51\<rparr>"

lemma sample_finalize:
  "\<exists>out d'. finalize_tx sample_settings sample_token_store (replicate 32 0) sample_plan (sample_binding 1)
     \<lparr>hc_session_id = ''cs_test_1'', hc_checkout_url = session_url ''cs_test_1''\<rparr> (Aware 1) reserved_db = Inr (out, d')"
proof -
  define order1 where "order1 = open_order\<lparr>o_checkout_session_id := Some ''cs_test_1'', o_updated_at := Aware 1\<rparr>"
  define d1 where "d1 = reserved_db\<lparr>orders := [order1]\<rparr>"
  have "update_order order1 reserved_db = Inr ((), d1)"
    by (simp add: update_order_def find_order_def d1_def order1_def reserved_db_def open_db_def open_order_def sample_order_def
        reject_order_snapshot_mutation_def same_snapshot_fields_def order_check_def sample_usd paid_before_work_def
        work_states_def settled_payments_def unique_opt_among_def require_def)
  moreover obtain raw d2 where "issue_token sample_token_store (replicate 32 0) order1 (Aware 1) False d1 = Inr (raw, d2)"
    using sample_issue_any [of order1 d1 "Aware 1" False]
    by (auto simp: d1_def find_order_def reserved_db_def open_db_def empty_db_def)
  ultimately show ?thesis
    by (simp add: finalize_tx_def find_reservation_def reserved_db_def new_reservation_def sample_plan_def sample_binding_def
        lease_expiry_def sample_settings_def find_order_def open_db_def open_order_def sample_order_def order1_def
        duration_defs Let_def bind_tx_def update_idempotency_def completion_ok_def return_tx_def)
qed

theorem checkout_finalized_once_witness:
  "\<exists>out d'. finalize_tx sample_settings sample_token_store (replicate 32 0) sample_plan (sample_binding 1)
      \<lparr>hc_session_id = ''cs_test_1'', hc_checkout_url = session_url ''cs_test_1''\<rparr> (Aware 1) reserved_db = Inr (out, d') \<and>
    finalize_tx sample_settings sample_token_store (replicate 32 0) sample_plan (sample_binding 1)
      \<lparr>hc_session_id = ''cs_test_1'', hc_checkout_url = session_url ''cs_test_1''\<rparr> (Aware 2) d' \<in>
    {Inl (IdempotencyConflict ''idempotent reservation is unavailable''),
     Inl (CheckoutInProgress ''checkout credential is in its grace period'')}"
proof -
  obtain out d' where first: "finalize_tx sample_settings sample_token_store (replicate 32 0) sample_plan (sample_binding 1)
      \<lparr>hc_session_id = ''cs_test_1'', hc_checkout_url = session_url ''cs_test_1''\<rparr> (Aware 1) reserved_db = Inr (out, d')"
    using sample_finalize by blast
  show ?thesis using first checkout_finalized_once [OF first refl] by blast
qed

text \<open>A new payment event is accepted exactly when it names an order with a checkout session, the session could be
  retrieved and its data match the order; otherwise the only effect is one row of the event log with an error code.\<close>

theorem rejected_event_recorded_only:
  assumes tx: "webhook_tx ps new_id event canonical payload_hash now inserted_at d = Inr (result, d')"
    and new: "find_stripe_event (pe_event_id event) d = None"
  shows "(wh_accepted result \<longleftrightarrow> (\<exists>order checkout.
      find_order_for_event (pe_internal_order_id event) (pe_payment_intent_id event) d = Some order \<and>
      canonical = Some checkout \<and> o_checkout_session_id order \<noteq> None \<and> valid_binding ps order event checkout)) \<and>
    \<not> wh_duplicate result \<and>
    (\<not> wh_accepted result \<longrightarrow> (\<exists>err. d' = d\<lparr>stripe_events := stripe_events d @ [stripe_row event payload_hash now (Some err)]\<rparr>))"
proof -
  obtain d1 where rec: "record_stripe_event event payload_hash now d = Inr ((), d1)"
    using tx new by (auto simp: webhook_tx_def bind_tx_Inr)
  note mark = mark_recorded [OF new rec]
  have "d1\<lparr>stripe_events := x\<rparr> = d\<lparr>stripe_events := x\<rparr>" for x
    using rec by (auto simp: record_stripe_event_def insert_stripe_event_def split: if_splits)
  then have only: "mark_processed (pe_event_id event) (Some err) now d1 =
      d\<lparr>stripe_events := stripe_events d @ [stripe_row event payload_hash now (Some err)]\<rparr>" for err
    using mark(1) [OF refl] by simp
  show ?thesis
  proof (cases "\<exists>order checkout. find_order_for_event (pe_internal_order_id event) (pe_payment_intent_id event) d = Some order \<and>
      canonical = Some checkout \<and> o_checkout_session_id order \<noteq> None \<and> valid_binding ps order event checkout")
    case True
    then have "result = \<lparr>wh_duplicate = False, wh_accepted = True\<rparr>"
      using tx new rec mark(5) [OF refl]
      by (auto simp: webhook_tx_def bind_tx_Inr Let_def split: prod.splits if_splits)
    then show ?thesis using True by simp
  next
    case False
    then have "result = \<lparr>wh_duplicate = False, wh_accepted = False\<rparr> \<and>
        (\<exists>err. d' = mark_processed (pe_event_id event) (Some err) now d1)"
      using tx new rec mark(5) [OF refl]
      by (auto simp: webhook_tx_def bind_tx_Inr Let_def split: option.splits if_splits)
    then show ?thesis using False only by auto
  qed
qed

theorem rejected_event_recorded_only_witness:
  "\<exists>err. webhook_tx sample_settings sample_ids paid_event (Some paid_checkout) (replicate 32 2) (Aware 1) (Aware 1) empty_db =
     Inr (\<lparr>wh_duplicate = False, wh_accepted = False\<rparr>,
       empty_db\<lparr>stripe_events := [stripe_row paid_event (replicate 32 2) (Aware 1) (Some err)]\<rparr>)"
proof -
  have none: "find_stripe_event (pe_event_id paid_event) empty_db = None"
    "find_order_for_event (pe_internal_order_id paid_event) (pe_payment_intent_id paid_event) empty_db = None"
    by (simp_all add: find_stripe_event_def find_order_for_event_def find_order_def empty_db_def paid_event_def or_default_def)
  obtain d1 where rec: "record_stripe_event paid_event (replicate 32 2) (Aware 1) empty_db = Inr ((), d1)"
    by (simp add: record_stripe_event_def insert_stripe_event_def paid_event_def empty_db_def unique_among_def)
  have "find_order_for_event (pe_internal_order_id paid_event) (pe_payment_intent_id paid_event) d1 = None"
    using mark_recorded(5) [OF none(1) rec refl] none(2) by simp
  then obtain d' where run: "webhook_tx sample_settings sample_ids paid_event (Some paid_checkout) (replicate 32 2) (Aware 1)
      (Aware 1) empty_db = Inr (\<lparr>wh_duplicate = False, wh_accepted = False\<rparr>, d')"
    using none rec by (simp add: webhook_tx_def bind_tx_def Let_def)
  then show ?thesis
    using rejected_event_recorded_only [OF run none(1)] by (auto simp: empty_db_def)
qed


end
