(* ===== verification/System.thy ===== *)
theory System
  imports Worker Payments_Audit
begin

text \<open>
  The whole service as one machine. A step is one committed transaction: of the checkout, of a payment or delivery
  webhook, of a fulfillment handler, of a job or notification worker, of an operator. The invariant of a reachable database
  joins those of the components with the rule the components keep only together: before an order is settled there is no job,
  no proof and no work for it. Handlers, workers, checkouts and webhooks are proved to be sequences of such steps, so that
  the invariant also holds between the transactions of concurrent workers.
\<close>

section \<open>What the transactions of one component leave of the others\<close>

definition other_tables where
  "other_tables d = (evidence_tables d, outbox_tables d)"

definition job_orders :: "db \<Rightarrow> uuid set" where
  "job_orders d = j_order_id ` set (durable_jobs d)"

lemma other_simps [simp]:
  "other_tables (d\<lparr>durable_jobs := x\<rparr>) = other_tables d"
  "other_tables (d\<lparr>job_attempts := y\<rparr>) = other_tables d"
  "other_tables (d\<lparr>task_dispatches := z\<rparr>) = other_tables d"
  "other_tables (update_job job d) = other_tables d"
  by (simp_all add: other_tables_def evidence_tables_def outbox_tables_def update_job_def)

lemma job_orders_simps [simp]:
  "job_orders (d\<lparr>job_attempts := y\<rparr>) = job_orders d"
  "job_orders (d\<lparr>task_dispatches := z\<rparr>) = job_orders d"
  by (simp_all add: job_orders_def)

lemma job_orders_update:
  "job \<in> set (durable_jobs d) \<Longrightarrow> j_order_id new = j_order_id job \<Longrightarrow> job_orders (update_job new d) \<subseteq> job_orders d"
  by (auto simp: job_orders_def update_job_def set_upd_row)

definition job_frame :: "db \<Rightarrow> db \<Rightarrow> bool" where
  "job_frame d d' \<longleftrightarrow> other_tables d' = other_tables d \<and> job_orders d' \<subseteq> job_orders d"

lemma job_frame_refl [simp]: "job_frame d d"
  by (simp add: job_frame_def)

lemma job_frame_update:
  "job \<in> set (durable_jobs d) \<Longrightarrow> j_order_id new = j_order_id job \<Longrightarrow> job_frame d (update_job new d)"
  using job_orders_update by (simp add: job_frame_def)

lemma job_frame_dispatch:
  "job_frame d d1 \<Longrightarrow> add_task_dispatch job at_time now d1 = Inr (u, d') \<Longrightarrow> job_frame d d'"
  using add_task_dispatch_Inr [of job at_time now d1 u d'] by (auto simp: job_frame_def)

lemma find_job_member: "find_job i d = Some job \<Longrightarrow> job \<in> set (durable_jobs d)"
  by (auto simp: find_job_def dest: find_SomeD)

lemma lease_job_frame:
  assumes "lease_job job worker_id now lease_for d = Inr (c, d')" "job \<in> set (durable_jobs d)"
  shows "job_frame d d'" "cj_spec c = \<lparr>spec_job_key = j_job_key job, spec_kind = j_kind job,
    spec_order_id = uuid_str (j_order_id job), spec_max_attempts = j_max_attempts job\<rparr>"
proof -
  obtain new a where d': "d' = (update_job new d)\<lparr>job_attempts := a\<rparr>" and "j_order_id new = j_order_id job"
    using assms(1) by (auto simp: lease_job_def bind_tx_Inr Let_def insert_attempt_def split: if_splits)
  then show "job_frame d d'" using job_orders_update [OF assms(2)] by (simp add: job_frame_def)
  show "cj_spec c = \<lparr>spec_job_key = j_job_key job, spec_kind = j_kind job,
      spec_order_id = uuid_str (j_order_id job), spec_max_attempts = j_max_attempts job\<rparr>"
    using assms(1) by (auto simp: lease_job_def bind_tx_Inr Let_def bind_res_Inr_iff JobSpec_def split: if_splits)
qed

text \<open>A claim is of a job that is there, and hands out the order of that job.\<close>

definition claims_of :: "db \<Rightarrow> claimed_job option \<Rightarrow> bool" where
  "claims_of d c \<longleftrightarrow> (\<forall>job. c = Some job \<longrightarrow> (\<exists>oid \<in> job_orders d. spec_order_id (cj_spec job) = uuid_str oid))"

lemma claim_frame:
  assumes "claim_tx worker_id now lease_for d = Inr (c, d')"
  shows "job_frame d d'" "claims_of d c"
proof -
  have "job_frame d d' \<and> claims_of d c"
  proof (cases "claim_query now d")
    case (Some job)
    then have "job \<in> set (durable_jobs d)" using first_by_in by (fastforce simp: claim_query_def)
    then show ?thesis
      using assms Some lease_job_frame by (fastforce simp: claim_tx_def bind_tx_Inr claims_of_def job_orders_def)
  qed (use assms in \<open>simp add: claim_tx_def claims_of_def\<close>)
  then show "job_frame d d'" "claims_of d c" by simp_all
qed

lemma claim_specific_frame:
  assumes "claim_specific_tx ident generation worker_id now lease_for d = Inr (c, d')"
  shows "job_frame d d'" "claims_of d c"
proof -
  obtain job where job: "find_job ident d = Some job" using assms by (auto simp: claim_specific_tx_def split: option.splits)
  then have "c = None \<and> d' = d \<or> (\<exists>c'. lease_job job worker_id now lease_for d = Inr (c', d') \<and> c = Some c')"
    using assms by (auto simp: claim_specific_tx_def bind_tx_Inr split: option.splits if_splits)
  then have "job_frame d d' \<and> claims_of d c"
    using lease_job_frame find_job_member [OF job] by (fastforce simp: claims_of_def job_orders_def)
  then show "job_frame d d'" "claims_of d c" by simp_all
qed

lemma heartbeat_frame: "heartbeat_tx job_id worker_id attempt lease_until now d = Inr (b, d') \<Longrightarrow> job_frame d d'"
  by (auto simp: heartbeat_tx_def bind_res_Inr_iff dest: find_job_member intro!: job_frame_update
      split: option.splits if_splits)

lemma finish_frame:
  assumes "finish_tx job outcome now retry_at err d = Inr (t, d')"
  shows "job_frame d d'"
  using assms
proof (cases rule: finish_tx_cases)
  case (1 ident stored final new d1)
  have "j_order_id new = j_order_id stored" using 1(6) by simp
  then have "job_frame d1 (update_job new d1)" using find_job_member [OF 1(2)] by (intro job_frame_update) (simp_all add: 1(7))
  then have "job_frame d (update_job new d1)" by (simp add: job_frame_def 1(7))
  then show ?thesis using 1(8) by (auto intro: job_frame_dispatch)
qed

lemma mark_frames:
  "mark_create_failed jid generation now d = Inr (u, d') \<Longrightarrow> job_frame d d'"
  "mark_dispatched jid generation now d = Inr (b, d') \<Longrightarrow> job_frame d d'"
  by (auto simp: mark_create_failed_def mark_dispatched_def job_frame_def split: option.splits if_splits)

lemma replay_frame:
  assumes "replay_tx job_id now d = Inr (r, d')"
  shows "job_frame d d'"
proof -
  obtain ident job where job: "operator_uuid job_id = Inr ident" "find_job ident d = Some job"
    using assms by (auto simp: replay_tx_def bind_res_Inr_iff split: option.splits)
  define new where "new = job\<lparr>j_state := AVAILABLE, j_available_at := now, j_lease_owner := None,
    j_lease_until := None, j_safe_error_code := None, j_max_attempts := max (j_max_attempts job) (j_attempt_count job + 10),
    j_generation := j_generation job + 1, j_updated_at := now\<rparr>"
  have "d' = d \<or> add_task_dispatch new now now (update_job new d) = Inr ((), d')"
    using assms job by (auto simp: replay_tx_def bind_tx_Inr Let_def new_def split: if_splits)
  moreover have "job_frame d (update_job new d)"
    by (rule job_frame_update [OF find_job_member [OF job(2)]]) (simp add: new_def)
  ultimately show ?thesis using job_frame_dispatch by auto
qed

lemma recover_one_frame:
  assumes "recover_one recovered_at job d = Inr (p, d')"
  shows "other_tables d' = other_tables d" "job_orders d' \<subseteq> insert (j_order_id job) (job_orders d)"
proof -
  have "durable_jobs d' = durable_jobs (update_job (recovered_row recovered_at job) d)" using recover_one_Inr [OF assms] by simp
  then show "job_orders d' \<subseteq> insert (j_order_id job) (job_orders d)"
    by (auto simp: job_orders_def update_job_def set_upd_row recovered_row_def)
  show "other_tables d' = other_tables d"
    using assms by (auto simp: recover_one_def Let_def bind_tx_Inr dest!: add_task_dispatch_Inr split: if_splits)
qed

lemma recover_each_frame:
  assumes "recover_each recovered_at jobs d = Inr (ps, d')"
  shows "other_tables d' = other_tables d \<and> job_orders d' \<subseteq> job_orders d \<union> j_order_id ` set jobs"
  using assms
proof (induction jobs arbitrary: d ps)
  case (Cons job jobs)
  then obtain p d1 qs where one: "recover_one recovered_at job d = Inr (p, d1)"
    and rest: "recover_each recovered_at jobs d1 = Inr (qs, d')" by (auto simp: bind_tx_Inr)
  show ?case using recover_one_frame [OF one] Cons.IH [OF rest] by auto
qed simp

lemma recover_frame:
  assumes "recover_stale_tx stale_grace limit recovered_at d = Inr (ps, d')"
  shows "job_frame d d'"
proof -
  let ?jobs = "map fst (stale_query (dt_add recovered_at (- stale_grace)) recovered_at limit d)"
  have "j_order_id ` set ?jobs \<subseteq> job_orders d"
    by (auto simp: stale_query_def job_orders_def dest!: in_set_takeD)
  then show ?thesis
    using recover_each_frame [of recovered_at ?jobs d ps d'] assms unfolding job_frame_def recover_stale_tx_def by blast
qed

lemma enqueue_frame:
  assumes "enqueue_tx new_id spec available_at now d = Inr (x, d')"
  obtains oid where "raw_uuid (spec_order_id spec) = Inr oid" "other_tables d' = other_tables d"
    "job_orders d' = insert oid (job_orders d)"
proof -
  obtain oid where oid: "raw_uuid (spec_order_id spec) = Inr oid"
    using assms by (auto simp: enqueue_tx_def bind_res_Inr_iff)
  let ?job = "new_job new_id (spec_job_key spec) oid (spec_kind spec) (spec_max_attempts spec) available_at now"
  obtain d1 where "insert_job ?job d = Inr ((), d1)" "add_task_dispatch ?job available_at now d1 = Inr ((), d')"
    using assms oid by (auto simp: enqueue_tx_def bind_tx_Inr Let_def)
  then obtain r where "d' = d\<lparr>durable_jobs := durable_jobs d @ [?job], task_dispatches := r\<rparr>"
    using insert_job_Inr add_task_dispatch_Inr by fastforce
  then show thesis using that oid by (simp add: job_orders_def new_job_def)
qed

section \<open>The transactions on the evidence\<close>

definition frame_tables where
  "frame_tables d = (job_tables d, outbox_tables d)"

lemmas frame_defs = frame_tables_def job_tables_def outbox_tables_def

lemma frame_simps [simp]:
  "frame_tables (d\<lparr>orders := a\<rparr>) = frame_tables d"
  "frame_tables (d\<lparr>state_events := b\<rparr>) = frame_tables d"
  "frame_tables (d\<lparr>proof_versions := c\<rparr>) = frame_tables d"
  "frame_tables (d\<lparr>proof_verifications := e\<rparr>) = frame_tables d"
  "frame_tables (d\<lparr>proof_bundles := f\<rparr>) = frame_tables d"
  "frame_tables (d\<lparr>confirmation_observations := g\<rparr>) = frame_tables d"
  by (simp_all add: frame_defs)

text \<open>What the settled orders constrain: the orders, and the orders the jobs and the proofs are of.\<close>

definition proof_orders :: "db \<Rightarrow> uuid set" where
  "proof_orders d = pv_order_id ` set (proof_versions d)"

definition is_settled :: "order_row \<Rightarrow> bool" where
  "is_settled order \<longleftrightarrow> o_payment_state order \<in> settled_payments"

definition settled_id :: "uuid \<Rightarrow> db \<Rightarrow> bool" where
  "settled_id oid d \<longleftrightarrow> (\<exists>order \<in> set (orders d). o_id order = oid \<and> is_settled order)"

definition settled_ref :: "string \<Rightarrow> db \<Rightarrow> bool" where
  "settled_ref ref d \<longleftrightarrow> (\<exists>order \<in> set (orders d). o_order_reference order = ref \<and> is_settled order)"

definition order_settle_ok :: "order_row \<Rightarrow> bool" where
  "order_settle_ok order \<longleftrightarrow> (is_settled order \<or> o_fulfillment_state order = AWAITING_PAYMENT) \<and>
     o_fulfillment_key order = ''stamp:'' @ uuid_str (o_id order)"

definition settle_ok :: "db \<Rightarrow> bool" where
  "settle_ok d \<longleftrightarrow> (\<forall>order \<in> set (orders d). order_settle_ok order) \<and> (\<forall>oid \<in> job_orders d \<union> proof_orders d. settled_id oid d)"

definition sys_inv :: "(bytes \<Rightarrow> bytes) \<Rightarrow> db \<Rightarrow> bool" where
  "sys_inv sha d \<longleftrightarrow> store_inv sha d \<and> jobs_inv d \<and> outbox_inv d \<and> settle_ok d"

lemma sys_invD: "sys_inv sha d \<Longrightarrow> store_inv sha d" "sys_inv sha d \<Longrightarrow> jobs_inv d" "sys_inv sha d \<Longrightarrow> outbox_inv d"
  "sys_inv sha d \<Longrightarrow> settle_ok d"
  by (simp_all add: sys_inv_def)

lemma legal_payment_settled: "legal_payment\<^sup>*\<^sup>* p q \<Longrightarrow> p \<in> settled_payments \<Longrightarrow> q \<in> settled_payments"
  by (induction rule: rtranclp_induct) (auto simp: legal_payment_def intro: payment_stays_settled)

lemma settled_mono:
  assumes "store_le d d'"
  shows "settled_id oid d \<Longrightarrow> settled_id oid d'" "settled_ref ref d \<Longrightarrow> settled_ref ref d'"
proof -
  have later: "\<exists>order' \<in> set (orders d'). order_keeps order order' \<and> (is_settled order \<longrightarrow> is_settled order')"
    if "order \<in> set (orders d)" for order
    using assms that legal_payment_settled unfolding store_le_def is_settled_def by blast
  show "settled_id oid d \<Longrightarrow> settled_id oid d'"
    using later unfolding settled_id_def order_keeps_def by metis
  show "settled_ref ref d \<Longrightarrow> settled_ref ref d'"
    using later unfolding settled_ref_def order_keeps_def same_snapshot_fields_def by metis
qed

text \<open>A step of the orders: a new order waits for payment, a changed one stays settled when it was, and enters manual
  review only when it is settled.\<close>

definition order_evolves :: "order_row \<Rightarrow> order_row \<Rightarrow> bool" where
  "order_evolves order order' \<longleftrightarrow> o_id order' = o_id order \<and> o_fulfillment_key order' = o_fulfillment_key order \<and>
     (is_settled order \<longrightarrow> is_settled order') \<and>
     (o_fulfillment_state order' = o_fulfillment_state order \<or> is_settled order' \<or> o_fulfillment_state order' \<in> work_states)"

definition orders_evolve :: "db \<Rightarrow> db \<Rightarrow> bool" where
  "orders_evolve d d' \<longleftrightarrow> (\<forall>order' \<in> set (orders d').
     order_settle_ok order' \<or> (\<exists>order \<in> set (orders d). order_evolves order order'))"

lemma order_evolves_refl [simp]: "order_evolves order order"
  by (simp add: order_evolves_def)

lemma orders_evolve_same: "orders d' = orders d \<Longrightarrow> orders_evolve d d'"
  using order_evolves_refl unfolding orders_evolve_def by metis

lemma orders_evolve_new: "order_settle_ok order \<Longrightarrow> orders d' = orders d @ [order] \<Longrightarrow> orders_evolve d d'"
  using order_evolves_refl unfolding orders_evolve_def by (metis Un_iff empty_iff insert_iff list.set set_append)

lemma orders_evolve_put:
  assumes "order \<in> set (orders d)" "order_evolves order order'" "orders d' = put_order order' (orders d)"
  shows "orders_evolve d d'"
proof -
  have "set (orders d') \<subseteq> insert order' (set (orders d))" by (auto simp: assms(3) put_order_def set_upd_row)
  then show ?thesis using assms(1,2) order_evolves_refl unfolding orders_evolve_def by blast
qed

lemma evolves_same_states: "order_keeps order order' \<Longrightarrow> same_states order order' \<Longrightarrow> order_evolves order order'"
  by (simp add: order_evolves_def order_keeps_def same_snapshot_fields_def same_states_def is_settled_def)

lemma evolves_settled: "order_keeps order order' \<Longrightarrow> is_settled order' \<Longrightarrow> order_evolves order order'"
  by (simp add: order_evolves_def order_keeps_def same_snapshot_fields_def)

lemma settle_ok_step:
  assumes inv: "sys_inv sha d" "store_inv sha d'" "store_le d d'" and evolve: "orders_evolve d d'"
    and work: "\<And>oid. oid \<in> job_orders d' \<union> proof_orders d' \<Longrightarrow> oid \<in> job_orders d \<union> proof_orders d \<or> settled_id oid d'"
  shows "settle_ok d'"
proof -
  have "order_settle_ok order'" if mem: "order' \<in> set (orders d')" for order'
  proof (cases "order_settle_ok order'")
    case False
    then obtain order where order: "order \<in> set (orders d)" "order_evolves order order'"
      using evolve mem by (auto simp: orders_evolve_def)
    have old: "order_settle_ok order" using order(1) inv(1) by (auto simp: sys_inv_def settle_ok_def)
    have "order_check order'" using inv(2) mem by (auto simp: store_inv_def orders_ok_def list_all_iff)
    then have "is_settled order' \<or> o_fulfillment_state order' \<notin> work_states"
      by (auto simp: order_check_def paid_before_work_def is_settled_def)
    then show ?thesis using old order(2) by (auto simp: order_settle_ok_def order_evolves_def)
  qed simp
  moreover have "settled_id oid d'" if "oid \<in> job_orders d' \<union> proof_orders d'" for oid
    using work [OF that] inv(1) settled_mono(1) [OF inv(3)] by (auto simp: sys_inv_def settle_ok_def)
  ultimately show ?thesis by (auto simp: settle_ok_def)
qed

section \<open>One transaction\<close>

definition advances :: "(bytes \<Rightarrow> bytes) \<Rightarrow> db \<Rightarrow> db \<Rightarrow> bool" where
  "advances sha d d' \<longleftrightarrow> (sys_inv sha d \<longrightarrow> audited sha d d' \<and> job_safe d d' \<and> outboxed d d' \<and> orders_evolve d d' \<and>
     (\<forall>oid \<in> job_orders d' \<union> proof_orders d'. oid \<in> job_orders d \<union> proof_orders d \<or> settled_id oid d'))"

lemma advances_safe:
  assumes "advances sha d d'" "sys_inv sha d"
  shows "sys_inv sha d'" "store_le d d'" "outbox_le d d'"
proof -
  note facts = assms(1) [unfolded advances_def, rule_format, OF assms(2)]
  have store: "store_inv sha d'" "store_le d d'"
    using facts audited_safe sys_invD(1) [OF assms(2)] by (auto simp: store_safe_def)
  moreover have "jobs_inv d'" using facts sys_invD(2) [OF assms(2)] by (simp add: job_safe_def)
  moreover have "outbox_inv d'" "outbox_le d d'"
    using facts outboxed_safe sys_invD(3) [OF assms(2)] by (auto simp: outbox_safe_def)
  moreover have "settle_ok d'" using facts by (intro settle_ok_step [OF assms(2) store]) auto
  ultimately show "sys_inv sha d'" "store_le d d'" "outbox_le d d'" by (simp_all add: sys_inv_def)
qed

lemma job_orders_tables: "job_tables d' = job_tables d \<Longrightarrow> job_orders d' = job_orders d"
  by (simp add: job_tables_def job_orders_def)

lemma evidence_tables_proofs: "evidence_tables d' = evidence_tables d \<Longrightarrow> orders d' = orders d \<and> proof_orders d' = proof_orders d"
  by (simp add: evidence_tables_def proof_orders_def)

lemma advances_jobs:
  assumes "job_frame d d'" "job_safe d d'"
  shows "advances sha d d'"
proof -
  have same: "evidence_tables d' = evidence_tables d" "outbox_tables d' = outbox_tables d"
    using assms(1) by (simp_all add: job_frame_def other_tables_def)
  show ?thesis
    using assms audited_frame [OF same(1)] outboxed_frame [OF same(2)] evidence_tables_proofs [OF same(1)] orders_evolve_same
    by (auto simp: advances_def job_frame_def)
qed

lemma advances_enqueue:
  assumes "JobSpec spec = Inr spec" "enqueue_tx new_id spec available_at now d = Inr (x, d')"
    "raw_uuid (spec_order_id spec) = Inr oid" "settled_id oid d"
  shows "advances sha d d'"
proof -
  obtain oid' where oid: "raw_uuid (spec_order_id spec) = Inr oid'" "other_tables d' = other_tables d"
    "job_orders d' = insert oid' (job_orders d)" by (rule enqueue_frame [OF assms(2)])
  have same: "evidence_tables d' = evidence_tables d" "outbox_tables d' = outbox_tables d"
    using oid(2) by (simp_all add: other_tables_def)
  moreover have "settled_id oid d'" using assms(4) evidence_tables_proofs [OF same(1)] by (simp add: settled_id_def)
  ultimately show ?thesis
    using oid(1,3) assms(3) job_safe_enqueue [OF assms(1,2)] audited_frame [OF same(1)] outboxed_frame [OF same(2)]
      evidence_tables_proofs [OF same(1)] orders_evolve_same
    by (auto simp: advances_def)
qed

lemma advances_evidence:
  assumes "frame_tables d' = frame_tables d" "audited sha d d'" "sys_inv sha d \<Longrightarrow> orders_evolve d d'"
    "proof_orders d' \<subseteq> proof_orders d"
  shows "advances sha d d'"
proof -
  have same: "job_tables d' = job_tables d" "outbox_tables d' = outbox_tables d" using assms(1) by (simp_all add: frame_tables_def)
  show ?thesis
    using assms(2-4) job_safe_tables [OF same(1)] outboxed_frame [OF same(2)] job_orders_tables [OF same(1)]
    by (auto simp: advances_def)
qed

lemma advances_mail:
  assumes "outboxed d d'" "audited sha d d'" "job_tables d' = job_tables d" "orders_evolve d d'" "proof_orders d' = proof_orders d"
  shows "advances sha d d'"
  using assms job_safe_tables job_orders_tables [OF assms(3)] by (auto simp: advances_def)

section \<open>The transactions of the outbox\<close>

lemma evolves_delivered: "o_fulfillment_state order' = DELIVERED \<Longrightarrow> order_keeps order order' \<Longrightarrow>
    o_payment_state order' = o_payment_state order \<Longrightarrow> order_evolves order order'"
  by (simp add: order_evolves_def order_keeps_def same_snapshot_fields_def is_settled_def work_states_def)

lemma apply_delivered_evolves:
  assumes "apply_delivered_event sha r event now d = Inr (result, d')"
  shows "orders_evolve d d'" "proof_orders d' = proof_orders d"
proof -
  have "orders_evolve d d' \<and> proof_orders d' = proof_orders d"
    using assms
  proof (cases rule: apply_delivered_cases)
    case (delivered order kind d1)
    note mem = find_order_Some [OF delivered(5)]
    show ?thesis
    proof (cases "kind = FINAL_CONFIRMATION \<or> o_fulfillment_state order = DELIVERED")
      case True
      then show ?thesis using delivered(9,12) orders_evolve_same by (simp add: proof_orders_def)
    next
      case False
      then have tx: "deliver_order order r kind event now d1 = Inr ((), d')" using delivered(12) by simp
      define order1 where "order1 = order\<lparr>o_fulfillment_state := DELIVERED, o_updated_at := now\<rparr>"
      have "orders d' = put_order order1 (orders d)"
        using tx
        by (auto simp: deliver_order_def bind_tx_Inr Let_def insert_state_event_def delivered(9) order1_def
            split: if_splits dest!: update_order_Inr)
      moreover have "order_evolves order order1"
        by (rule evolves_delivered) (simp_all add: order1_def order_keeps_def same_snapshot_fields_def)
      moreover have "proof_versions d' = proof_versions d" using deliver_order_Inr [OF tx] by (simp add: delivered(9))
      ultimately show ?thesis using mem orders_evolve_put by (simp add: proof_orders_def) blast
    qed
  qed (simp add: orders_evolve_same)
  then show "orders_evolve d d'" "proof_orders d' = proof_orders d" by simp_all
qed

lemma core_evolves: "core_tables d' = core_tables d \<Longrightarrow> orders_evolve d d' \<and> proof_orders d' = proof_orders d"
  by (simp add: core_defs orders_evolve_same proof_orders_def)

lemma evolves_via:
  assumes "core_tables d1 = core_tables d" "orders_evolve d1 d'" "proof_orders d' = proof_orders d1"
  shows "orders_evolve d d'" "proof_orders d' = proof_orders d"
  using assms by (simp_all add: core_defs orders_evolve_def proof_orders_def)

lemma record_accepted_evolves:
  assumes "record_accepted_tx sha m acceptance now d = Inr (u, d')"
  shows "orders_evolve d d'" "proof_orders d' = proof_orders d"
proof -
  from assms obtain r a d1 where upd: "update_outbox (accepted_row r (pa_message_id acceptance) now) d = Inr ((), d1)"
    and rest: "case delivered_event_for (pa_message_id acceptance) (put_attempt (close_accepted acceptance now a) d1) of
        None \<Rightarrow> d' = put_attempt (close_accepted acceptance now a) d1
      | Some event \<Rightarrow> \<exists>result. apply_delivered_event sha (accepted_row r (pa_message_id acceptance) now) event (aware now)
          (put_attempt (close_accepted acceptance now a) d1) = Inr (result, d')"
    by (rule record_accepted_parts)
  let ?d2 = "put_attempt (close_accepted acceptance now a) d1"
  have core: "core_tables ?d2 = core_tables d" using update_outbox_core [OF upd] by simp
  have "orders_evolve ?d2 d'" "proof_orders d' = proof_orders ?d2"
    using rest apply_delivered_evolves [of sha _ _ _ ?d2 _ d'] orders_evolve_same by (auto split: option.splits)
  then show "orders_evolve d d'" "proof_orders d' = proof_orders d" using evolves_via [OF core] by simp_all
qed

lemma process_evolves:
  assumes "process_tx sha event payload_sha256 now d = Inr (result, d')"
  shows "orders_evolve d d'" "proof_orders d' = proof_orders d"
proof -
  have "orders_evolve d d' \<and> proof_orders d' = proof_orders d"
    using assms
  proof (cases rule: process_cases)
    case (replay existing)
    then show ?thesis by (auto elim!: reconcile_cases simp: orders_evolve_same dest: apply_delivered_evolves)
  next
    case (delivery e r result')
    have core: "core_tables (with_event e d) = core_tables d" by simp
    show ?thesis using evolves_via [OF core] apply_delivered_evolves [OF delivery(7)] by blast
  qed (auto intro!: core_evolves)
  then show "orders_evolve d d'" "proof_orders d' = proof_orders d" by simp_all
qed


section \<open>The transactions on the evidence of an order\<close>

lemma transition_advances:
  assumes tx: "transition_fulfillment_once_tx order_id target event_key cal now d = Inr (fo, d')"
    and "parse_uuid order_id = Inr oid" "settled_id oid d"
  shows "advances sha d d'"
proof -
  have "frame_tables d' = frame_tables d \<and> proof_orders d' = proof_orders d \<and> orders_evolve d d'" if inv: "sys_inv sha d"
    using tx
  proof (cases rule: transition_cases)
    case (replay order existing order1)
    have mem: "order \<in> set (orders d)" using find_order_Some [OF replay(2)] by simp
    note keep = merge_calendar_time_Inr [OF replay(5)]
    have d': "d' = d\<lparr>orders := put_order order1 (orders d)\<rparr>"
      using flush_order_Inr [OF sys_invD(1) [OF inv] mem _ replay(7)] keep by (simp add: order_keeps_def)
    have "orders_evolve d d'" by (rule orders_evolve_put [OF mem evolves_same_states]) (use keep d' in simp_all)
    then show ?thesis using d' by (simp add: proof_orders_def)
  next
    case (new order current transitioned order1 order2 d1)
    have mem: "order \<in> set (orders d)" using find_order_Some [OF new(2)] by simp
    note keep = transition_moves [OF new(4-7)]
    have d1: "d1 = d\<lparr>orders := put_order order2 (orders d)\<rparr>"
      using flush_order_Inr [OF sys_invD(1) [OF inv] mem _ new(9)] keep(1) by (simp add: order_keeps_def)
    have d': "orders d' = orders d1" "frame_tables d' = frame_tables d1" "proof_versions d' = proof_versions d1"
      using new(10) by (auto simp: insert_state_event_def split: if_splits)
    have "find_order (o_id order) d = Some own \<Longrightarrow> own = order" for own using new(2) by simp
    moreover obtain own where "own \<in> set (orders d)" "o_id own = o_id order" "is_settled own"
      using assms(2,3) new(1) by (auto simp: settled_id_def)
    ultimately have "is_settled order" using find_order_member [OF sys_invD(1) [OF inv]] by metis
    moreover have "o_payment_state order2 = o_payment_state order"
      using merge_calendar_time_Inr [OF new(6)] by (simp add: new(7) same_states_def)
    ultimately have "order_evolves order order2" using keep(1) by (intro evolves_settled) (simp_all add: is_settled_def)
    then show ?thesis using orders_evolve_put [OF mem, of order2 d'] d' d1 by (simp add: proof_orders_def)
  qed
  then show ?thesis
    using advances_evidence [of d' d sha] transition_audited [OF tx, of sha] by (auto simp: advances_def)
qed

lemma insert_verification_frame:
  "insert_verification i v result now d = Inr (u, d') \<Longrightarrow>
     frame_tables d' = frame_tables d \<and> orders d' = orders d \<and> proof_versions d' = proof_versions d"
  by (drule insert_verification_Inr) auto

lemma order_by_reference:
  "store_inv sha d \<Longrightarrow> order \<in> set (orders d) \<Longrightarrow> order' \<in> set (orders d) \<Longrightarrow>
     o_order_reference order' = o_order_reference order \<Longrightarrow> order' = order"
  by (auto simp: store_inv_def orders_ok_def distinct_map inj_on_def)

lemma append_advances:
  assumes valid: "StoredProof sha p = Inr p" and tx: "append_tx sha p now d = Inr (u, d')"
    and settled: "settled_ref (sp_order_reference p) d"
  shows "advances sha d d'"
proof -
  have "frame_tables d' = frame_tables d \<and> orders_evolve d d' \<and>
      (\<forall>oid \<in> proof_orders d'. oid \<in> proof_orders d \<or> settled_id oid d)" if inv: "sys_inv sha d"
    using tx
  proof (cases rule: append_tx_cases)
    case (replay order order1 latest)
    have mem: "order \<in> set (orders d)" using find_order_by_reference_Some [OF replay(1)] by simp
    note keep = merge_calendar_time_Inr [OF replay(3)]
    have d': "d' = d\<lparr>orders := put_order order1 (orders d)\<rparr>"
      using flush_order_Inr [OF sys_invD(1) [OF inv] mem _ replay(7)] keep by (simp add: order_keeps_def)
    have "orders_evolve d d'" by (rule orders_evolve_put [OF mem evolves_same_states]) (use keep d' in simp_all)
    then show ?thesis using d' by (simp add: proof_orders_def)
  next
    case (new order order1 metadata d1 d2)
    have mem: "order \<in> set (orders d)" "o_order_reference order = sp_order_reference p"
      using find_order_by_reference_Some [OF new(1)] by simp_all
    note keep = merge_calendar_time_Inr [OF new(3)]
    have d1: "d1 = d\<lparr>orders := put_order order1 (orders d)\<rparr>"
      using flush_order_Inr [OF sys_invD(1) [OF inv] mem(1) _ new(5)] keep by (simp add: order_keeps_def)
    have d2: "d2 = d1\<lparr>proof_versions := proof_versions d1 @ [row_of_proof (o_id order) p metadata now]\<rparr>"
      using new(6) by (auto simp: insert_proof_def split: if_splits)
    have d': "frame_tables d' = frame_tables d2 \<and> orders d' = orders d2 \<and> proof_versions d' = proof_versions d2"
      using new(7) insert_verification_frame by (auto split: option.splits)
    have "orders_evolve d d'" by (rule orders_evolve_put [OF mem(1) evolves_same_states]) (use keep d' d2 d1 in simp_all)
    moreover obtain own where own: "own \<in> set (orders d)" "o_order_reference own = sp_order_reference p" "is_settled own"
      using settled by (auto simp: settled_ref_def)
    have "own = order" using order_by_reference [OF sys_invD(1) [OF inv] mem(1) own(1)] own(2) mem(2) by simp
    then have "settled_id (o_id order) d" using own by (auto simp: settled_id_def)
    ultimately show ?thesis using d' d2 d1 by (auto simp: proof_orders_def row_of_proof_def)
  qed
  then have facts: "frame_tables d' = frame_tables d" "orders_evolve d d'"
    "\<forall>oid \<in> proof_orders d'. oid \<in> proof_orders d \<or> settled_id oid d'" "audited sha d d'" if "sys_inv sha d"
    using that append_audited [OF valid tx] sys_invD(1) [OF that] settled_mono(1) [of d d'] audited_safe [of sha d d']
    unfolding store_safe_def by blast+
  show ?thesis
    unfolding advances_def
  proof
    assume inv: "sys_inv sha d"
    have same: "job_tables d' = job_tables d" "outbox_tables d' = outbox_tables d"
      using facts(1) [OF inv] by (simp_all add: frame_tables_def)
    show "audited sha d d' \<and> job_safe d d' \<and> outboxed d d' \<and> orders_evolve d d' \<and>
        (\<forall>oid \<in> job_orders d' \<union> proof_orders d'. oid \<in> job_orders d \<union> proof_orders d \<or> settled_id oid d')"
      using facts(2-4) [OF inv] job_safe_tables [OF same(1)] outboxed_frame [OF same(2)] job_orders_tables [OF same(1)] by blast
  qed
qed

lemma put_verified_advances:
  assumes "put_verified_once_tx order_id v result now d = Inr (u, d')"
  shows "advances sha d d'"
proof -
  have "d' = d \<or> (\<exists>i. insert_verification i v result now d = Inr (u, d'))"
    using assms by (auto simp: put_verified_once_tx_def bind_res_Inr_iff split: option.splits if_splits)
  then have "frame_tables d' = frame_tables d" "orders d' = orders d" "proof_orders d' = proof_orders d"
    using insert_verification_frame by (auto simp: proof_orders_def)
  then show ?thesis by (intro advances_evidence put_verified_audited [OF assms] orders_evolve_same) auto
qed

lemma record_once_advances:
  assumes "record_once_tx new_id order_id v key result now d = Inr (co, d')"
  shows "advances sha d d'"
proof -
  have "frame_tables d' = frame_tables d" "orders d' = orders d" "proof_orders d' = proof_orders d"
    using assms by (auto elim!: record_once_cases simp: proof_orders_def)
  then show ?thesis by (intro advances_evidence record_once_audited [OF assms] orders_evolve_same) auto
qed

lemma put_bundle_advances:
  assumes "put_bundle_once_tx sha order_id v bundle now d = Inr (u, d')"
  shows "advances sha d d'"
proof -
  have "frame_tables d' = frame_tables d" "orders d' = orders d" "proof_orders d' = proof_orders d"
    using assms by (auto elim!: put_bundle_cases simp: proof_orders_def insert_bundle_def split: if_splits)
  then show ?thesis by (intro advances_evidence put_bundle_audited [OF assms] orders_evolve_same) auto
qed


section \<open>The transactions of checkout and of payment events\<close>

lemma shared_advances:
  assumes "shared_tables d' = shared_tables d"
  shows "advances sha d d'"
proof -
  have "core_tables d' = core_tables d" "outbox_tables d' = outbox_tables d" using assms by (simp_all add: shared_tables_def)
  then show ?thesis
    using core_evolves core_audited core_jobs outboxed_frame by (intro advances_mail) blast+
qed

lemma reserve_advances:
  assumes "reserve_tx ps os new_id token request binding now ms random_bytes d = Inr (r, d')"
  shows "advances sha d d'"
  using assms
proof (cases rule: reserve_cases)
  case (resumed existing)
  then show ?thesis by (intro shared_advances resume_shared)
next
  case (created ref order reservation e)
  have "order_settle_ok order" by (simp add: created(3) reserved_order_def order_settle_ok_def)
  then have "orders_evolve d d'" by (rule orders_evolve_new) (simp add: created(11))
  then show ?thesis
    using reserve_audited [OF assms] by (intro advances_evidence) (simp_all add: frame_tables_def proof_orders_def created(11))
qed

lemma finalize_advances:
  assumes "finalize_tx ps os token plan binding result now d = Inr (out, d')"
  shows "advances sha d d'"
proof -
  from assms obtain reservation :: idempotency_row and order order1 d1 d2 reservation1 where order: "find_order (ir_order_id reservation) d = Some order"
    and order1: "order1 = order\<lparr>o_checkout_session_id := Some (hc_session_id result), o_updated_at := now\<rparr>"
    and txs: "update_order order1 d = Inr ((), d1)" "issue_token os token order1 now False d1 = Inr (ou_status_token out, d2)"
      "update_idempotency reservation1 d2 = Inr ((), d')"
    by (rule finalize_cases)
  note upd = update_order_Inr [OF txs(1)]
  have "shared_tables d' = shared_tables d1"
    using issue_token_shared [OF txs(2)] update_idempotency_Inr [OF txs(3)] by simp
  then have same: "orders d' = put_order order1 (orders d)" "proof_orders d' = proof_orders d"
    using upd by (simp_all add: shared_tables_def core_defs proof_orders_def)
  have "order_evolves order order1" by (simp add: order1 order_evolves_def is_settled_def)
  then have "orders_evolve d d'" using find_order_Some [OF order] orders_evolve_put same(1) by blast
  then show ?thesis
    using finalize_audited [OF assms] same(2) by (intro advances_evidence) (simp_all add: frame_tables_def)
qed

lemma download_advances:
  assumes "record_download_event new_id order_id v artifact kind now d = Inr (u, d')"
  shows "advances sha d d'"
proof -
  from assms obtain order where order: "find_order order_id d = Some order"
    by (auto simp: record_download_event_def split: if_splits option.splits)
  define e where "e = \<lparr>ev_order_id = o_id order, ev_sequence = next_sequence (o_id order) d,
    ev_event_key = ''download:'' @ uuid_str new_id, ev_source = ''customer_download'',
    ev_previous_payment_state = Some (o_payment_state order), ev_payment_state = o_payment_state order,
    ev_previous_fulfillment_state = Some (o_fulfillment_state order), ev_fulfillment_state = o_fulfillment_state order,
    ev_evidence = DownloadEvidence v (hex artifact) kind, ev_created_at = now\<rparr>"
  have ins: "insert_state_event e d = Inr (u, d')"
    using assms order by (simp add: record_download_event_def e_def split: if_splits)
  have e: "records_move e order order" "ev_sequence e = next_sequence (o_id order) d" by (simp_all add: e_def records_move_def)
  have mem: "order \<in> set (orders d)" using find_order_Some [OF order] by simp
  have "audited sha d d'"
    by (rule audited_step, rule flush_moved [OF _ mem order_keeps_refl legal_refl(3) _ ins e]) (simp_all add: flush_order_def)
  moreover have "frame_tables d' = frame_tables d" "orders d' = orders d" "proof_orders d' = proof_orders d"
    using ins by (auto simp: insert_state_event_def proof_orders_def split: if_splits)
  ultimately show ?thesis by (intro advances_evidence orders_evolve_same) simp_all
qed

lemma credentials_shared:
  "hit hmac pepper endpoint address now limit d = Inr (b, d') \<Longrightarrow> shared_tables d' = shared_tables d"
  "cleanup_ephemeral_records t i r d = Inr (n, d') \<Longrightarrow> shared_tables d' = shared_tables d"
  by (auto simp: hit_def bind_tx_Inr bump_counter_def cleanup_ephemeral_records_def Let_def split: option.splits if_splits)

lemma settled_order_legal:
  assumes "settled_order order event checkout now = (order', True)" "order_settle_ok order"
  shows "legal_move order order'" "order_evolves order order'" "o_payment_state order' = PAID \<Longrightarrow> is_settled order'"
proof -
  note facts = settled_order_facts [OF assms(1)]
  have pay: "o_payment_state order' \<in> payment_transitions (o_payment_state order)"
    and ful: "o_fulfillment_state order' = (if o_payment_state order' = PAID then QUEUED else o_fulfillment_state order)"
    using facts(3) by simp_all
  have "o_fulfillment_state order = AWAITING_PAYMENT" if "o_payment_state order' = PAID"
    using assms(2) pay that by (cases "o_payment_state order") (auto simp: order_settle_ok_def is_settled_def settled_payments_def)
  then show "legal_move order order'" using pay ful by (auto simp: legal_move_def legal_payment_def legal_fulfillment_def)
  show "o_payment_state order' = PAID \<Longrightarrow> is_settled order'" by (simp add: is_settled_def settled_payments_def)
  have "is_settled order \<Longrightarrow> is_settled order'" using pay payment_stays_settled by (simp add: is_settled_def)
  then show "order_evolves order order'"
    using facts(1) ful by (auto simp: order_evolves_def order_keeps_def same_snapshot_fields_def is_settled_def settled_payments_def)
qed

lemma start_fulfillment_orders:
  assumes "start_fulfillment new_id order now inserted_at d = Inr (u, d')"
  shows "job_orders d' \<subseteq> job_orders d \<or> job_orders d' \<subseteq> insert (o_id order) (job_orders d) \<and> o_payment_state order = PAID"
  using assms
proof (cases rule: start_fulfillment_cases)
  case (started d1)
  then show ?thesis
    using enqueue_fulfillment_Inr [OF started(2)] insert_outbox_Inr [OF started(3)] by (auto simp: job_orders_def new_job_def)
qed simp

lemma webhook_advances:
  assumes tx: "webhook_tx ps new_id event canonical payload_hash now inserted_at d = Inr (result, d')"
  shows "advances sha d d'"
  using tx
proof (cases rule: webhook_cases)
  case (duplicate recorded)
  then show ?thesis by (simp add: shared_advances)
next
  case (rejected err)
  then show ?thesis by (intro shared_advances)
next
  case (touched order checkout order' d1 d2)
  note facts = settled_order_facts(1,2) [OF touched(5)]
  note upd = update_order_Inr [OF touched(7)]
  have shared: "shared_tables d1 = shared_tables d" using mark_recorded(2) [OF touched(1,6) refl] .
  have tables: "frame_tables d' = frame_tables d" "proof_orders d' = proof_orders d"
    "evidence_tables d' = (put_order order' (orders d), state_events d, proof_versions d, proof_verifications d,
      proof_bundles d, confirmation_observations d)"
    using shared upd touched(8) by (simp_all add: shared_tables_def core_defs frame_defs outbox_tables_def proof_orders_def)
  have "audited sha d d'"
    using touched(4) facts upd tables(3) by (intro audited_step audit_step.touched [of order d order']) auto
  moreover have "orders_evolve d d'"
    by (rule orders_evolve_put [OF touched(4) evolves_same_states]) (use facts tables(3) in \<open>simp_all add: evidence_tables_def\<close>)
  ultimately show ?thesis using tables by (intro advances_evidence) simp_all
next
  case (changed order checkout order' d1 d2 d3 d4)
  note facts = settled_order_facts(1) [OF changed(6)]
  have id: "o_id order' = o_id order" using facts by (simp add: order_keeps_def)
  obtain e where tables: "evidence_tables d4 = (put_order order' (orders d1), state_events d1 @ [e], proof_versions d1,
      proof_verifications d1, proof_bundles d1, confirmation_observations d1)" and check: "order_check order'"
    and e: "ev_order_id e = o_id order" "ev_sequence e = next_sequence (o_id order) d1"
      "ev_previous_payment_state e = Some (o_payment_state order)" "ev_payment_state e = o_payment_state order'"
      "ev_previous_fulfillment_state e = Some (o_fulfillment_state order)" "ev_fulfillment_state e = o_fulfillment_state order'"
    and rest: "job_tables d4 = job_tables d3" "outbox_tables d4 = outbox_tables d3"
    by (rule changed_tables [OF changed(8-10) id])
  have shared: "shared_tables d1 = shared_tables d" using mark_recorded(2) [OF changed(1,7) refl] .
  have tables': "evidence_tables d' = (put_order order' (orders d), state_events d @ [e], proof_versions d,
      proof_verifications d, proof_bundles d, confirmation_observations d)"
    using tables shared changed(11) by (simp add: shared_tables_def core_defs)
  have seq: "ev_sequence e = next_sequence (o_id order) d" using e(2) shared by (simp add: next_sequence_def shared_tables_def core_defs)
  have before: "job_tables d2 = job_tables d" "outbox_tables d2 = outbox_tables d"
    using update_order_Inr [OF changed(8)] shared by (simp_all add: shared_tables_def core_defs outbox_tables_def)
  have after: "job_tables d' = job_tables d3" "outbox_tables d' = outbox_tables d3"
    using changed(11) rest by (simp_all add: job_tables_def outbox_tables_def)
  have own: "order' \<in> set (orders d')"
    using changed(4) id tables' by (auto simp: evidence_tables_def put_order_def set_upd_row)
  show ?thesis
    unfolding advances_def
  proof (intro impI conjI)
    assume inv: "sys_inv sha d"
    then have ok: "order_settle_ok order" using changed(4) by (simp add: sys_inv_def settle_ok_def)
    note legal = settled_order_legal [OF changed(6) ok]
    show "audited sha d d'"
      using changed(4) facts legal(1) check e seq tables'
      by (intro audited_step audit_step.moved [of order d order' e]) (simp_all add: records_move_def)
    have key: "o_fulfillment_key order' = ''stamp:'' @ uuid_str (o_id order')"
      using ok facts id by (simp add: order_settle_ok_def order_keeps_def same_snapshot_fields_def)
    have "job_safe d2 d3" by (rule start_fulfillment_jobs(1) [OF changed(9) key])
    then show "job_safe d d'"
      using job_safe_tables [OF before(1)] job_safe_tables [OF after(1)] job_keeping.R_trans by blast
    show "outboxed d d'"
      using outboxed_frame [OF before(2)] start_fulfillment_outboxed [OF changed(9)] outboxed_frame [OF after(2)]
        outbox_refining.R_trans by blast
    show "orders_evolve d d'"
      by (rule orders_evolve_put [OF changed(4) legal(2)]) (use tables' in \<open>simp add: evidence_tables_def\<close>)
    have "job_orders d' \<subseteq> job_orders d \<or> job_orders d' \<subseteq> insert (o_id order') (job_orders d) \<and> o_payment_state order' = PAID"
      using start_fulfillment_orders [OF changed(9)] job_orders_tables [OF before(1)] job_orders_tables [OF after(1)] by simp
    moreover have "o_payment_state order' = PAID \<Longrightarrow> settled_id (o_id order') d'"
      using own legal(3) by (auto simp: settled_id_def)
    moreover have "proof_orders d' = proof_orders d" using tables' by (simp add: evidence_tables_def proof_orders_def)
    ultimately show "\<forall>oid \<in> job_orders d' \<union> proof_orders d'. oid \<in> job_orders d \<union> proof_orders d \<or> settled_id oid d'"
      by blast
  qed
qed

section \<open>The machine\<close>

text \<open>The committed transactions on the leases of jobs, on the outbox, on the evidence of an order, and of the two payment
  services.\<close>

inductive lease_step :: "db \<Rightarrow> db \<Rightarrow> bool" where
  claim: "claim_tx worker_id now lease_for d = Inr (c, d') \<Longrightarrow> lease_step d d'"
| claim_specific: "claim_specific_tx ident generation worker_id now lease_for d = Inr (c, d') \<Longrightarrow> lease_step d d'"
| heartbeat: "heartbeat_tx job_id worker_id attempt lease_until now d = Inr (b, d') \<Longrightarrow> lease_step d d'"
| finish: "finish_tx job outcome now retry_at err d = Inr (t, d') \<Longrightarrow> lease_step d d'"
| create_failed: "mark_create_failed jid generation now d = Inr (u, d') \<Longrightarrow> lease_step d d'"
| dispatched: "mark_dispatched jid generation now d = Inr (b, d') \<Longrightarrow> lease_step d d'"
| recover: "recover_stale_tx stale_grace limit recovered_at d = Inr (ps, d') \<Longrightarrow> lease_step d d'"
| replay: "replay_tx job_id now d = Inr (r, d') \<Longrightarrow> lease_step d d'"

inductive mail_step :: "(bytes \<Rightarrow> bytes) \<Rightarrow> db \<Rightarrow> db \<Rightarrow> bool" for sha where
  enqueue: "outbox_enqueue_tx settings new_id m now d = Inr (u, d') \<Longrightarrow> mail_step sha d d'"
| claim: "outbox_claim_tx sha token worker_id now lease_for d = Inr (c, d') \<Longrightarrow> mail_step sha d d'"
| accepted: "record_accepted_tx sha m acceptance now d = Inr (u, d') \<Longrightarrow> mail_step sha d d'"
| retried: "record_retry_tx m now retry_at err status d = Inr (u, d') \<Longrightarrow> mail_step sha d d'"
| failed: "record_terminal_failure_tx m now err status d = Inr (u, d') \<Longrightarrow> mail_step sha d d'"
| webhook: "process_tx sha event payload_sha256 now d = Inr (result, d') \<Longrightarrow> mail_step sha d d'"

inductive evidence_step :: "(bytes \<Rightarrow> bytes) \<Rightarrow> db \<Rightarrow> db \<Rightarrow> bool" for sha where
  transition: "parse_uuid order_id = Inr oid \<Longrightarrow> settled_id oid d \<Longrightarrow>
    transition_fulfillment_once_tx order_id target event_key cal now d = Inr (fo, d') \<Longrightarrow> evidence_step sha d d'"
| append: "StoredProof sha p = Inr p \<Longrightarrow> settled_ref (sp_order_reference p) d \<Longrightarrow>
    append_tx sha p now d = Inr (u, d') \<Longrightarrow> evidence_step sha d d'"
| verified: "put_verified_once_tx order_id v result now d = Inr (u, d') \<Longrightarrow> evidence_step sha d d'"
| observed: "record_once_tx new_id order_id v key result now d = Inr (co, d') \<Longrightarrow> evidence_step sha d d'"
| bundled: "put_bundle_once_tx sha order_id v bundle now d = Inr (u, d') \<Longrightarrow> evidence_step sha d d'"

inductive customer_step :: "db \<Rightarrow> db \<Rightarrow> bool" where
  reserve: "reserve_tx ps os new_id token request binding now ms random_bytes d = Inr (r, d') \<Longrightarrow> customer_step d d'"
| resume: "resume_existing ps os lease_id token existing binding now d = Inr (r, d') \<Longrightarrow> customer_step d d'"
| finalize: "finalize_tx ps os token plan binding result now d = Inr (out, d') \<Longrightarrow> customer_step d d'"
| payment: "webhook_tx ps new_id event canonical payload_hash now inserted_at d = Inr (res, d') \<Longrightarrow> customer_step d d'"
| download: "record_download_event new_id order_id v artifact kind now d = Inr (u, d') \<Longrightarrow> customer_step d d'"
| rotate: "issue_token os random order now revoke d = Inr (raw, d') \<Longrightarrow> customer_step d d'"
| rate: "hit hmac pepper endpoint address now limit d = Inr (b, d') \<Longrightarrow> customer_step d d'"
| cleanup: "cleanup_ephemeral_records t i r d = Inr (n, d') \<Longrightarrow> customer_step d d'"

inductive sys_step :: "(bytes \<Rightarrow> bytes) \<Rightarrow> db \<Rightarrow> db \<Rightarrow> bool" for sha where
  lease: "lease_step d d' \<Longrightarrow> sys_step sha d d'"
| mail: "mail_step sha d d' \<Longrightarrow> sys_step sha d d'"
| evidence: "evidence_step sha d d' \<Longrightarrow> sys_step sha d d'"
| customer: "customer_step d d' \<Longrightarrow> sys_step sha d d'"
| enqueue: "JobSpec spec = Inr spec \<Longrightarrow> raw_uuid (spec_order_id spec) = Inr oid \<Longrightarrow> settled_id oid d \<Longrightarrow>
    enqueue_tx new_id spec available_at now d = Inr (x, d') \<Longrightarrow> sys_step sha d d'"

lemma lease_step_advances: "lease_step d d' \<Longrightarrow> advances sha d d'"
  by (induction rule: lease_step.induct)
    (auto intro!: advances_jobs intro: job_safe_txs claim_frame claim_specific_frame heartbeat_frame finish_frame mark_frames
      recover_frame replay_frame)

lemma mail_core_advances: "core_tables d' = core_tables d \<Longrightarrow> outboxed d d' \<Longrightarrow> advances sha d d'"
  using core_evolves core_audited core_jobs by (intro advances_mail) blast+

lemma mail_step_advances: "mail_step sha d d' \<Longrightarrow> advances sha d d'"
proof (induction rule: mail_step.induct)
  case (accepted m acceptance now d u d')
  then show ?case
    by (intro advances_mail) (rule record_accepted_outboxed record_accepted_audited record_accepted_evolves, assumption)+
next
  case (webhook event payload_sha256 now d result d')
  then show ?case by (intro advances_mail) (rule process_outboxed process_audited process_evolves, assumption)+
qed (auto intro!: mail_core_advances intro: outbox_enqueue_core outbox_claim_core record_failures_core outbox_txs)

lemma evidence_step_advances: "evidence_step sha d d' \<Longrightarrow> advances sha d d'"
  by (induction rule: evidence_step.induct)
    (blast intro: transition_advances append_advances put_verified_advances record_once_advances put_bundle_advances)+

lemma customer_step_advances: "customer_step d d' \<Longrightarrow> advances sha d d'"
  by (induction rule: customer_step.induct)
    (blast intro: reserve_advances finalize_advances webhook_advances download_advances
      shared_advances [OF resume_shared] shared_advances [OF issue_token_shared(1)] shared_advances [OF credentials_shared(1)] shared_advances [OF credentials_shared(2)])+

lemma sys_step_advances: "sys_step sha d d' \<Longrightarrow> advances sha d d'"
  by (induction rule: sys_step.induct)
    (blast intro: lease_step_advances mail_step_advances evidence_step_advances customer_step_advances advances_enqueue)+

lemma sys_steps_safe:
  assumes "(sys_step sha)\<^sup>*\<^sup>* d d'" "sys_inv sha d"
  shows "sys_inv sha d' \<and> store_le d d' \<and> outbox_le d d'"
  using assms
proof (induction rule: rtranclp_induct)
  case (step e f)
  then show ?case
    using advances_safe [OF sys_step_advances [OF step.hyps(2)]] store_le_trans outbox_le_trans by blast
qed simp

lemma sys_inv_empty: "sys_inv sha empty_db"
proof -
  have "store_inv sha empty_db" by (simp add: store_inv_defs empty_db_def)
  then show ?thesis
    using jobs_inv_empty outbox_inv_empty by (simp add: sys_inv_def settle_ok_def job_orders_def proof_orders_def empty_db_def)
qed


end
