(* ===== verification/Runs.thy ===== *)
theory Runs
  imports System
begin

text \<open>
  The services of the program are runs of the machine of \<open>System\<close>: the fulfillment handlers, the job
  handlers and the worker loop around them, the task endpoint, the operator commands, checkout, the two webhooks and the mail
  dispatcher only ever change the database by its transactions, whatever the clock, the random values and the external
  services return and wherever an exception ends them.
\<close>

section \<open>Actions that run under a guard\<close>

text \<open>
  An action runs under a guard when, from every database with the invariant where the guard holds, it takes transactions of
  the machine to a database where the guard still holds.
\<close>

definition runs :: "(bytes \<Rightarrow> bytes) \<Rightarrow> (db \<Rightarrow> bool) \<Rightarrow> db \<Rightarrow> db \<Rightarrow> bool" where
  "runs sha P d d' \<longleftrightarrow> (sys_inv sha d \<and> P d \<longrightarrow> (sys_step sha)\<^sup>*\<^sup>* d d' \<and> P d')"

interpretation running: preorder_on_states "runs sha P"
  by unfold_locales (auto simp: runs_def dest: sys_steps_safe)

locale stable_guard =
  fixes P :: "db \<Rightarrow> bool"
  assumes stable: "store_le d d' \<Longrightarrow> P d \<Longrightarrow> P d'"
begin

lemma runs_step: "(P d \<Longrightarrow> sys_step sha d d') \<Longrightarrow> runs sha P d d'"
  using advances_safe(2) [OF sys_step_advances] stable unfolding runs_def by (meson r_into_rtranclp)

lemma keeps_step:
  assumes "\<And>d x d'. t d = Inr (x, d') \<Longrightarrow> P d \<Longrightarrow> sys_step sha d d'"
  shows "keeps (runs sha P) (transaction t)"
  using assms by (intro running.keeps_transaction runs_step)

lemma keeps_lease: "(\<And>d x d'. t d = Inr (x, d') \<Longrightarrow> lease_step d d') \<Longrightarrow> keeps (runs sha P) (transaction t)"
  by (intro keeps_step sys_step.lease)

lemma keeps_mail: "(\<And>d x d'. t d = Inr (x, d') \<Longrightarrow> mail_step sha d d') \<Longrightarrow> keeps (runs sha P) (transaction t)"
  by (intro keeps_step sys_step.mail)

lemma keeps_evidence: "(\<And>d x d'. t d = Inr (x, d') \<Longrightarrow> P d \<Longrightarrow> evidence_step sha d d') \<Longrightarrow> keeps (runs sha P) (transaction t)"
  by (intro keeps_step sys_step.evidence)

lemma keeps_customer: "(\<And>d x d'. t d = Inr (x, d') \<Longrightarrow> customer_step d d') \<Longrightarrow> keeps (runs sha P) (transaction t)"
  by (intro keeps_step sys_step.customer)

lemma keeps_dispatch: "keeps (runs sha P) (dispatch create job_id generation now)"
proof -
  have "keeps (runs sha P) (bind_act (transaction (mark_create_failed job_id generation now)) (\<lambda>_.
      raise_act e :: 'a db_action))" for e
    by (intro running.keeps_rules keeps_lease lease_step.create_failed)
  moreover have "keeps (runs sha P) (transaction (mark_dispatched job_id generation now))"
    by (intro keeps_lease lease_step.dispatched)
  ultimately show ?thesis
    by (auto simp: keeps_def dispatch_def Let_def running.R_refl split: option.splits)
qed

lemma keeps_dispatch_each: "keeps (runs sha P) (dispatch_each create targets now count)"
  by (induction create targets now count rule: dispatch_each.induct)
    (auto intro!: running.keeps_rules keeps_dispatch)

lemma keeps_dispatch_if: "keeps (runs sha P) (dispatch_if create target now)"
  by (auto simp: dispatch_if_def split: option.splits intro!: running.keeps_rules keeps_dispatch)

lemma keeps_heartbeat: "keeps (runs sha P) (heartbeat job_id worker_id attempt lease_until now)"
  unfolding heartbeat_def by (intro keeps_lease lease_step.heartbeat)

lemma keeps_finish: "keeps (runs sha P) (finish create job outcome now retry_at err later)"
  unfolding finish_def by (intro running.keeps_rules keeps_lease lease_step.finish keeps_dispatch_if)

lemma keeps_reconcile: "keeps (runs sha P) (reconcile create limit order_id now)"
proof -
  have "keeps (runs sha P) (bind_act (dispatch_each create targets now 0) (\<lambda>n. return_act (r n)))"
    for targets and r :: "int \<Rightarrow> reconcile_result"
    by (intro running.keeps_rules keeps_dispatch_each)
  then show ?thesis by (auto simp: keeps_def reconcile_def Let_def running.R_refl)
qed

lemma keeps_recover: "keeps (runs sha P) (recover_stale_dispatched create stale_grace limit recovered_at now)"
proof -
  have "keeps (runs sha P) (bind_act (transaction (recover_stale_tx stale_grace n recovered_at)) (\<lambda>recovered.
      bind_act (dispatch_each create recovered now 0) (\<lambda>k. return_act (r recovered k))))"
    for n and r :: "(uuid \<times> int) list \<Rightarrow> int \<Rightarrow> reconcile_result"
    by (intro running.keeps_rules keeps_dispatch_each keeps_lease lease_step.recover)
  then show ?thesis by (auto simp: keeps_def recover_stale_dispatched_def running.R_refl)
qed

end

text \<open>The guards: none, a settled order, and a settled order together with its reference.\<close>

definition unguarded :: "db \<Rightarrow> bool" where
  "unguarded d \<longleftrightarrow> True"

definition settled_both :: "uuid \<Rightarrow> string \<Rightarrow> db \<Rightarrow> bool" where
  "settled_both oid ref d \<longleftrightarrow> settled_id oid d \<and> settled_ref ref d"

interpretation any: stable_guard unguarded
  by unfold_locales (simp add: unguarded_def)

interpretation paid: stable_guard "settled_id oid"
  by unfold_locales (rule settled_mono)

interpretation own: stable_guard "settled_both oid ref"
  by unfold_locales (auto simp: settled_both_def intro: settled_mono)

section \<open>Control structures\<close>

lemma keeps_bind_lift: "(\<And>x. r = Inr x \<Longrightarrow> keeps (runs sha P) (k x)) \<Longrightarrow> keeps (runs sha P) (bind_act (lift_act r) k)"
  by (cases r) (auto simp: keeps_def bind_act_eq running.R_refl)

lemma keeps_try_else:
  assumes m: "keeps (runs sha P) m" and h: "\<And>e. keeps (runs sha P) (h e)" and k: "\<And>x. keeps (runs sha P) (k x)"
  shows "keeps (runs sha P) (try_else m h k)"
  unfolding keeps_def
proof
  fix s
  obtain r s' where eq: "m s = (r, s')" by (cases "m s")
  have "runs sha P s s'" using m eq by (metis keeps_def snd_conv)
  moreover have "runs sha P s' (snd (h e s'))" "runs sha P s' (snd (k x s'))" for e x using h k by (simp_all add: keeps_def)
  ultimately show "runs sha P s (snd (try_else m h k s))"
    by (auto simp: try_else_def eq split: sum.splits intro: running.R_trans)
qed

lemma keeps_if:
  "(b \<Longrightarrow> keeps R m) \<Longrightarrow> (\<not> b \<Longrightarrow> keeps R n) \<Longrightarrow> keeps R (if b then m else n)"
  by simp

lemma keeps_option:
  "(x = None \<Longrightarrow> keeps R m) \<Longrightarrow> (\<And>y. x = Some y \<Longrightarrow> keeps R (n y)) \<Longrightarrow> keeps R (case x of None \<Rightarrow> m | Some y \<Rightarrow> n y)"
  by (cases x) simp_all

lemma keeps_sum:
  "(\<And>y. x = Inl y \<Longrightarrow> keeps R (m y)) \<Longrightarrow> (\<And>y. x = Inr y \<Longrightarrow> keeps R (n y)) \<Longrightarrow> keeps R (case x of Inl y \<Rightarrow> m y | Inr y \<Rightarrow> n y)"
  by (cases x) simp_all

lemma keeps_prod: "(\<And>a b. x = (a, b) \<Longrightarrow> keeps R (m a b)) \<Longrightarrow> keeps R (case x of (a, b) \<Rightarrow> m a b)"
  by (cases x) simp

lemmas keeps_control = keeps_bind_lift keeps_if keeps_option keeps_sum keeps_prod


section \<open>The transactions of the handlers\<close>

text \<open>\<open>order_of order_id oid\<close>: the string names this order.\<close>

definition order_of :: "string \<Rightarrow> uuid \<Rightarrow> bool" where
  "order_of order_id oid \<longleftrightarrow> UUID order_id = Some oid"

lemma order_ofD: "order_of order_id oid \<Longrightarrow> parse_uuid order_id = Inr oid" "order_of order_id oid \<Longrightarrow> raw_uuid order_id = Inr oid"
  by (simp_all add: order_of_def parse_uuid_def raw_uuid_def)

lemma order_of_str [simp]: "order_of (uuid_str oid) oid"
  by (simp add: order_of_def)

lemma load_settled:
  assumes "get_for_fulfillment order_id d = Inr (Some fo)" "order_of order_id oid" "sys_inv sha d" "settled_id oid d"
  shows "settled_ref (snap_order_reference (st_snapshot (fo_state fo))) d"
proof -
  obtain own where own: "own \<in> set (orders d)" "o_id own = oid" "is_settled own" using assms(4) by (auto simp: settled_id_def)
  have "find_order oid d = Some own" using find_order_member [OF sys_invD(1) [OF assms(3)] own(1)] own(2) by simp
  then have "fulfillment_order_of own = Inr fo"
    using assms(1,2) by (auto simp: get_for_fulfillment_def order_ofD bind_res_Inr_iff)
  then have "snap_order_reference (st_snapshot (fo_state fo)) = o_order_reference own"
    by (auto simp: fulfillment_order_of_def order_state_of_def bind_res_Inr_iff OrderReference_def OrderSnapshot_def split: if_splits)
  then show ?thesis using own by (auto simp: settled_ref_def)
qed

lemma keeps_load:
  assumes "order_of order_id oid"
    and "\<And>order. keeps (runs sha (settled_both oid (snap_order_reference (st_snapshot (fo_state order))))) (k order)"
  shows "keeps (runs sha (settled_id oid)) (bind_act (load order_id) k)"
  unfolding keeps_def
proof
  fix d
  show "runs sha (settled_id oid) d (snd (bind_act (load order_id) k d))"
  proof (cases "get_for_fulfillment order_id d")
    case (Inr found)
    show ?thesis
    proof (cases found)
      case (Some fo)
      then have eq: "bind_act (load order_id) k d = k fo d" using Inr by (simp add: load_def bind_act_eq)
      have "runs sha (settled_both oid (snap_order_reference (st_snapshot (fo_state fo)))) d (snd (k fo d))"
        using assms(2) by (simp add: keeps_def)
      then show ?thesis
        using load_settled [OF Inr [unfolded Some] assms(1)] unfolding eq runs_def settled_both_def by blast
    qed (use Inr in \<open>simp add: load_def bind_act_eq running.R_refl\<close>)
  qed (simp add: load_def bind_act_eq running.R_refl)
qed

lemma keeps_transition:
  "order_of order_id oid \<Longrightarrow> keeps (runs sha (settled_both oid ref)) (transition_once sv n order_id target key cal)"
  "order_of order_id oid \<Longrightarrow> keeps (runs sha (settled_id oid)) (transition_once sv n order_id target key cal)"
  unfolding transition_once_def
  by (auto intro!: own.keeps_evidence paid.keeps_evidence intro: evidence_step.transition order_ofD simp: settled_both_def)

lemma keeps_append:
  assumes "StoredProof (sv_sha sv) p = Inr p" "sp_order_reference p = ref"
  shows "keeps (runs (sv_sha sv) (settled_both oid ref)) (append_or_same sv n p)"
proof -
  have "keeps (runs (sv_sha sv) (settled_both oid ref)) (transaction (append_tx (sv_sha sv) p (sv_now sv n)))"
    using assms by (intro own.keeps_evidence evidence_step.append [of _ p]) (auto simp: settled_both_def)
  then show ?thesis
    unfolding append_or_same_def proofs_latest_act_def
    by (intro running.keeps_catch) (auto intro!: running.keeps_rules)
qed

lemma make_stored_proof_valid:
  "make_stored_proof lib ref v digest bytes state t ver = Inr p \<Longrightarrow> StoredProof (ots_sha256 lib) p = Inr p \<and> sp_order_reference p = ref"
  by (auto simp: make_stored_proof_def bind_res_Inr_iff split: if_splits dest: StoredProof_Inr_same)

lemma keeps_evidence_txs:
  "keeps (runs sha (settled_both oid ref)) (transaction (put_verified_once_tx order_id v result now))"
  "keeps (runs sha (settled_both oid ref)) (transaction (record_once_tx new_id order_id v key result now))"
  "keeps (runs sha (settled_both oid ref)) (transaction (put_bundle_once_tx sha order_id v content now))"
  by (auto intro!: own.keeps_evidence intro: evidence_step.verified evidence_step.observed evidence_step.bundled)

lemma keeps_observation:
  "keeps (runs sha (settled_both oid ref)) (record_observation sv n order_id v result)"
  unfolding record_observation_def by (intro keeps_bind_lift keeps_evidence_txs)

lemma keeps_notice: "keeps (runs sha (settled_both oid ref)) (enqueue_notice sv n kind snapshot v confirmations)"
  unfolding enqueue_notice_def by (intro keeps_bind_lift own.keeps_mail mail_step.enqueue)

lemmas keeps_handler = keeps_transition keeps_append keeps_evidence_txs keeps_observation keeps_notice

section \<open>The handlers\<close>

lemma keeps_stamp_handler:
  assumes "order_of order_id oid"
  shows "keeps (runs (sv_sha sv) (settled_id oid)) (stamp_handler sv order_id)"
proof -
  have new: "keeps (runs (sv_sha sv) (settled_both oid (snap_order_reference (st_snapshot (fo_state order)))))
      (stamp_new sv order_id order)" for order
    unfolding stamp_new_def Let_def
    by (rule assms keeps_control running.keeps_return running.keeps_raise keeps_handler running.keeps_bind
        make_stored_proof_valid [THEN conjunct1] make_stored_proof_valid [THEN conjunct2] | assumption)+
  have replay: "keeps (runs (sv_sha sv) (settled_both oid ref)) (stamp_replay sv order_id order p)" for ref order p
    unfolding stamp_replay_def Let_def
    by (rule assms keeps_control running.keeps_return running.keeps_raise keeps_handler running.keeps_bind | assumption)+
  show ?thesis
    unfolding stamp_handler_def proofs_latest_act_def
    by (rule keeps_load [OF assms] running.keeps_bind running.keeps_read keeps_option new replay)+
qed

lemma keeps_upgrade_proof:
  assumes "ref = snap_order_reference snapshot"
  shows "keeps (runs (sv_sha sv) (settled_both oid ref)) (upgrade_proof sv snapshot latest)"
  unfolding upgrade_proof_def assms
  by (rule keeps_control running.keeps_return running.keeps_raise keeps_handler running.keeps_bind
      make_stored_proof_valid [THEN conjunct1] make_stored_proof_valid [THEN conjunct2] | assumption)+

lemma keeps_upgrade_handler:
  assumes "order_of order_id oid"
  shows "keeps (runs (sv_sha sv) (settled_id oid)) (upgrade_handler sv order_id)"
proof -
  have reverify: "keeps (runs (sv_sha sv) (settled_both oid ref)) (reverify_latest sv order_id order p)" for ref order p
    unfolding reverify_latest_def
    by (rule assms keeps_control running.keeps_return running.keeps_raise keeps_handler running.keeps_bind | assumption)+
  show ?thesis
    unfolding upgrade_handler_def Let_def proofs_latest_act_def
    by (rule keeps_load [OF assms] assms keeps_control running.keeps_return running.keeps_raise running.keeps_read keeps_handler
        keeps_upgrade_proof reverify running.keeps_bind | simp)+
qed

lemma keeps_delivery_handler:
  assumes "order_of order_id oid"
  shows "keeps (runs (sv_sha sv) (settled_id oid)) (delivery_handler sv order_id)"
  unfolding delivery_handler_def Let_def proofs_latest_act_def
  by (rule keeps_load [OF assms] assms keeps_control running.keeps_return running.keeps_raise running.keeps_read keeps_handler
      running.keeps_bind)+

lemma keeps_confirmation_handler:
  assumes "order_of order_id oid"
  shows "keeps (runs (sv_sha sv) (settled_id oid)) (confirmation_handler sv order_id)"
  unfolding confirmation_handler_def Let_def proofs_latest_act_def
  by (rule keeps_load [OF assms] assms keeps_control running.keeps_return running.keeps_raise running.keeps_read keeps_handler
      running.keeps_bind)+

section \<open>Enqueueing and the job handlers\<close>

lemma JobSpec_same: "JobSpec s = Inr s' \<Longrightarrow> s' = s \<and> JobSpec s = Inr s"
  by (auto simp: JobSpec_def split: if_splits)

lemma keeps_enqueue_job:
  assumes "order_of order_id oid"
  shows "keeps (runs sha (settled_id oid)) (enqueue_job sv create n key kind order_id available_at)"
proof -
  have once: "keeps (runs sha (settled_id oid)) (enqueue_once create new_id spec due now later)"
    if spec: "JobSpec spec = Inr spec" "spec_order_id spec = order_id" for new_id spec due now later
    unfolding keeps_def
  proof
    fix d
    have "keeps (runs sha (settled_id oid)) (bind_act (dispatch_if create target later) (\<lambda>_. return_act b))"
      for target and b :: bool
      by (intro running.keeps_rules paid.keeps_dispatch_if)
    then have k: "runs sha (settled_id oid) e (snd (bind_act (dispatch_if create target later) (\<lambda>_. return_act b) e))"
      for target and b :: bool and e
      by (simp add: keeps_def)
    show "runs sha (settled_id oid) d (snd (enqueue_once create new_id spec due now later d))"
    proof (cases "enqueue_tx new_id spec due now d")
      case (Inl e)
      then show ?thesis using k by (simp add: enqueue_once_def running.R_refl)
    next
      case (Inr p)
      then obtain x d' where tx: "enqueue_tx new_id spec due now d = Inr (x, d')" by (cases p) auto
      have "runs sha (settled_id oid) d d'"
        using spec order_ofD(2) [OF assms] tx by (intro paid.runs_step sys_step.enqueue [of spec oid]) simp_all
      then show ?thesis using k by (auto simp: enqueue_once_def tx intro: running.R_trans)
    qed
  qed
  show ?thesis
    unfolding enqueue_job_def
    by (rule keeps_bind_lift, rule running.keeps_bind [OF once running.keeps_return]) (use JobSpec_same in force)+
qed

lemma keeps_pending:
  fixes m :: "string \<Rightarrow> ('s, 'a) action"
  assumes "\<And>c. keeps R (m c)" "\<And>e'. keeps R (raise_act e' :: ('s, 'a) action)"
  shows "keeps R (case e of ConfirmationPending c \<Rightarrow> m c | _ \<Rightarrow> raise_act e)"
  using assms by (cases e) simp_all

lemma keeps_job_handler:
  assumes "order_of order_id oid" "job_handlers sv create kind = Some handler"
  shows "keeps (runs (sv_sha sv) (settled_id oid)) (handler order_id)"
proof -
  note rules = keeps_enqueue_job [OF assms(1)] keeps_stamp_handler [OF assms(1)] keeps_upgrade_handler [OF assms(1)]
    keeps_delivery_handler [OF assms(1)] keeps_confirmation_handler [OF assms(1)] running.keeps_raise running.keeps_return
    running.keeps_read keeps_control keeps_try_else keeps_pending running.keeps_bind
  have "keeps (runs (sv_sha sv) (settled_id oid)) (stamp_job sv create order_id)"
    unfolding stamp_job_def by (rule rules)+
  moreover have "keeps (runs (sv_sha sv) (settled_id oid)) (upgrade_job sv create order_id)"
    unfolding upgrade_job_def Let_def by (rule rules)+
  moreover have "keeps (runs (sv_sha sv) (settled_id oid)) (delivery_job sv create order_id)"
    unfolding delivery_job_def enqueue_confirmation_poll_def Let_def by (rule rules)+
  moreover have "keeps (runs (sv_sha sv) (settled_id oid)) (confirmation_job sv create order_id)"
    unfolding confirmation_job_def enqueue_confirmation_poll_def Let_def by (rule rules)+
  ultimately show ?thesis using assms(2) by (auto simp: job_handlers_def split: if_splits)
qed


section \<open>The worker\<close>

text \<open>What a cancelled handler has committed are transactions for the order of its job.\<close>

definition cancelled_runs :: "(bytes \<Rightarrow> bytes) \<Rightarrow> (claimed_job \<Rightarrow> unit db_action) \<Rightarrow> bool" where
  "cancelled_runs sha committed \<longleftrightarrow> (\<forall>job oid. order_of (spec_order_id (cj_spec job)) oid \<longrightarrow>
     keeps (runs sha (settled_id oid)) (committed job))"

lemma keeps_heartbeats: "keeps (runs sha (settled_id oid)) (heartbeat_loop w job ticks)"
proof (induction ticks)
  case (Cons t ts)
  then show ?case
    unfolding heartbeat_loop.simps by (intro keeps_try_else keeps_if running.keeps_return paid.keeps_heartbeat)
qed (simp only: heartbeat_loop.simps running.keeps_return)

lemma keeps_terminal:
  "order_of (spec_order_id (cj_spec job)) oid \<Longrightarrow> keeps (runs sha (settled_id oid)) (terminal_of w job safe_code)"
  unfolding terminal_of_def terminal_failure_def by (rule running.keeps_bind running.keeps_return keeps_transition | assumption)+

lemma keeps_conclude:
  assumes "order_of (spec_order_id (cj_spec job)) oid"
  shows "keeps (runs sha (settled_id oid)) (conclude w job error)"
proof -
  note rules = keeps_terminal [OF assms] paid.keeps_finish keeps_control running.keeps_bind
  have retry: "keeps (runs sha (settled_id oid)) (retry_or_exhaust w job safe_code)" for safe_code
    unfolding retry_or_exhaust_def worker_finish_def by (rule rules)+
  have review: "keeps (runs sha (settled_id oid)) (bind_act (terminal_of w job safe_code) (\<lambda>_. worker_finish w job outcome c))"
    for safe_code outcome c
    unfolding worker_finish_def by (rule rules)+
  show ?thesis
  proof (cases error)
    case None
    then show ?thesis by (simp add: conclude_def worker_finish_def paid.keeps_finish)
  next
    case (Some e)
    then show ?thesis by (cases e) (simp_all add: conclude_def retry review)
  qed
qed

lemma keeps_run_claimed:
  assumes "order_of (spec_order_id (cj_spec job)) oid" "cancelled_runs (sv_sha (wk_services w)) committed"
  shows "keeps (runs (sv_sha (wk_services w)) (settled_id oid)) (run_claimed w job ticks committed)"
proof -
  have cancelled: "keeps (runs (sv_sha (wk_services w)) (settled_id oid)) (committed job)"
    using assms by (simp add: cancelled_runs_def)
  show ?thesis
    unfolding run_claimed_def worker_finish_def
    by (rule cancelled keeps_option keeps_if keeps_try_else running.keeps_return running.keeps_bind keeps_heartbeats
        keeps_job_handler [OF assms(1)] paid.keeps_heartbeat keeps_conclude [OF assms(1)] keeps_terminal [OF assms(1)]
        paid.keeps_finish | assumption)+
qed

text \<open>A claim is the one transaction that hands out an order; the invariant says that the order is settled.\<close>

lemma keeps_after_claim:
  assumes claim: "\<And>d c d'. t d = Inr (c, d') \<Longrightarrow> lease_step d d' \<and> claims_of d c"
    and m: "\<And>job oid. order_of (spec_order_id (cj_spec job)) oid \<Longrightarrow> keeps (runs sha (settled_id oid)) (m job)"
  shows "keeps (runs sha unguarded) (bind_act (transaction t) (\<lambda>c.
    case c of None \<Rightarrow> return_act False | Some job \<Rightarrow> bind_act (m job) (\<lambda>_. return_act True)))"
  unfolding keeps_def
proof
  fix d
  show "runs sha unguarded d (snd (bind_act (transaction t) (\<lambda>c.
    case c of None \<Rightarrow> return_act False | Some job \<Rightarrow> bind_act (m job) (\<lambda>_. return_act True)) d))"
  proof (cases rule: transaction_cases [of t d])
    case (rollback e)
    then show ?thesis by (simp add: bind_act_eq running.R_refl)
  next
    case (commit c d')
    have step: "sys_step sha d d'" using claim [OF commit(1)] by (auto intro: sys_step.lease)
    then have first: "runs sha unguarded d d'" by (rule any.runs_step)
    show ?thesis
    proof (cases c)
      case None
      then show ?thesis using first commit(2) by (simp add: bind_act_eq)
    next
      case (Some job)
      have end_state: "snd (bind_act (transaction t) (\<lambda>c. case c of None \<Rightarrow> return_act False
          | Some job \<Rightarrow> bind_act (m job) (\<lambda>_. return_act True)) d) = snd (m job d')"
        by (simp add: bind_act_eq commit(2) Some split: sum.splits)
      have "(sys_step sha)\<^sup>*\<^sup>* d (snd (m job d'))" if inv: "sys_inv sha d"
      proof -
        obtain oid where oid: "oid \<in> job_orders d" "spec_order_id (cj_spec job) = uuid_str oid"
          using claim [OF commit(1)] Some by (auto simp: claims_of_def)
        have "settled_id oid d" using oid(1) sys_invD(4) [OF inv] by (simp add: settle_ok_def)
        then have "sys_inv sha d'" "settled_id oid d'"
          using advances_safe [OF sys_step_advances [OF step] inv] settled_mono(1) by auto
        moreover have "runs sha (settled_id oid) d' (snd (m job d'))" using m [of job oid] oid(2) by (simp add: keeps_def)
        ultimately show ?thesis using step by (auto simp: runs_def intro: converse_rtranclp_into_rtranclp)
      qed
      then show ?thesis by (simp add: end_state runs_def unguarded_def)
    qed
  qed
qed

lemma keeps_run_once:
  assumes "cancelled_runs (sv_sha (wk_services w)) committed"
  shows "keeps (runs (sv_sha (wk_services w)) unguarded) (run_once w now ticks committed)"
  unfolding run_once_def claim_def
  by (rule keeps_after_claim [OF _ keeps_run_claimed [OF _ assms]]) (auto intro: lease_step.claim claim_frame)

lemma keeps_run_specific:
  assumes "cancelled_runs (sv_sha (wk_services w)) committed"
  shows "keeps (runs (sv_sha (wk_services w)) unguarded) (run_specific w job_id generation now ticks committed)"
proof (cases "1 \<le> generation \<and> UUID job_id \<noteq> None")
  case False
  then show ?thesis
    by (auto simp: run_specific_def keeps_def bind_act_eq claim_specific_def running.R_refl)
next
  case True
  then obtain ident where ident: "UUID job_id = Some ident" "1 \<le> generation" by auto
  then have eq: "claim_specific job_id generation worker_id now' lease =
      transaction (claim_specific_tx ident generation worker_id now' lease)" for worker_id now' lease
    by (simp add: claim_specific_def fun_eq_iff)
  show ?thesis
    unfolding run_specific_def eq
    by (rule keeps_after_claim [OF _ keeps_run_claimed [OF _ assms]]) (auto intro: lease_step.claim_specific claim_specific_frame)
qed

lemma keeps_run_task:
  assumes "cancelled_runs (sv_sha (wk_services w)) committed"
  shows "keeps (runs (sv_sha (wk_services w)) unguarded) (run_task decode queue create w now ticks committed later r)"
proof -
  have failed: "keeps (runs sha unguarded) (case e of SpecificJobRetryable _ \<Rightarrow> return_act 503
      | TaskDispatchUnavailable _ \<Rightarrow> return_act 503 | _ \<Rightarrow> (raise_act e :: int db_action))" for sha e
    by (cases e) (simp_all add: running.keeps_return running.keeps_raise)
  show ?thesis
    unfolding run_task_def
    by (rule failed keeps_option keeps_prod keeps_try_else running.keeps_return running.keeps_bind keeps_run_specific [OF assms]
        any.keeps_reconcile)+
qed

section \<open>Operator commands\<close>

text \<open>The operator names an order freely; that its fulfillment state is one of work implies that it is settled.\<close>

lemma keeps_enqueue_proof_job:
  assumes "set allowed \<subseteq> work_states"
  shows "keeps (runs (sv_sha sv) unguarded) (enqueue_proof_job sv create order_id job_prefix allowed request_id)"
  unfolding keeps_def
proof
  fix d
  let ?m = "enqueue_proof_job sv create order_id job_prefix allowed request_id"
  show "runs (sv_sha sv) unguarded d (snd (?m d))"
  proof (cases "\<exists>fo p. get_for_fulfillment order_id d = Inr (Some fo) \<and> st_fulfillment (fo_state fo) \<in> set allowed \<and>
      proofs_latest (sv_sha sv) (snap_order_reference (st_snapshot (fo_state fo))) d = Inr (Some p)")
    case False
    then show ?thesis
      by (auto simp: enqueue_proof_job_def proofs_latest_act_def bind_act_eq running.R_refl split: sum.splits option.splits)
  next
    case True
    then obtain fo p where fo: "get_for_fulfillment order_id d = Inr (Some fo)" "st_fulfillment (fo_state fo) \<in> set allowed"
      and p: "proofs_latest (sv_sha sv) (snap_order_reference (st_snapshot (fo_state fo))) d = Inr (Some p)" by blast
    then obtain key where eq: "?m d = enqueue_job sv create 0 key UPGRADE_JOB order_id (sv_now sv 2) d"
      by (simp add: enqueue_proof_job_def proofs_latest_act_def bind_act_eq)
    obtain oid order where oid: "order_of order_id oid" "find_order oid d = Some order" "fulfillment_order_of order = Inr fo"
      using fo(1)
      by (auto simp: get_for_fulfillment_def bind_res_Inr_iff parse_uuid_def order_of_def split: option.splits)
    have "settled_id oid d" if inv: "sys_inv (sv_sha sv) d"
    proof -
      have "o_fulfillment_state order \<in> work_states"
        using oid(3) fo(2) assms by (auto simp: fulfillment_order_of_def order_state_of_def bind_res_Inr_iff)
      moreover have "order_check order"
        using sys_invD(1) [OF inv] find_order_Some [OF oid(2)] by (auto simp: store_inv_def orders_ok_def list_all_iff)
      ultimately have "is_settled order" by (auto simp: order_check_def paid_before_work_def is_settled_def)
      then show ?thesis using find_order_Some [OF oid(2)] by (auto simp: settled_id_def)
    qed
    moreover have "runs (sv_sha sv) (settled_id oid) d (snd (?m d))"
      using keeps_enqueue_job [OF oid(1)] by (simp add: eq keeps_def)
    ultimately show ?thesis by (auto simp: runs_def unguarded_def)
  qed
qed

lemma keeps_operator:
  "keeps (runs (sv_sha sv) unguarded) (operator_reverify sv create order_id request_id)"
  "keeps (runs (sv_sha sv) unguarded) (operator_upgrade sv create order_id)"
  "keeps (runs (sv_sha sv) unguarded) (operator_replay sv create job_id)"
  "keeps (runs sha unguarded) (operator_reconcile create limit now)"
  "keeps (runs sha unguarded) (operator_recover_stale create limit grace recovered_at now)"
proof -
  note rules = keeps_enqueue_proof_job keeps_control running.keeps_raise running.keeps_return running.keeps_read running.keeps_lift
    any.keeps_dispatch_if any.keeps_reconcile any.keeps_recover running.keeps_bind
  show "keeps (runs (sv_sha sv) unguarded) (operator_reverify sv create order_id request_id)"
    unfolding operator_reverify_def by (rule rules | simp add: work_states_def)+
  show "keeps (runs (sv_sha sv) unguarded) (operator_upgrade sv create order_id)"
    unfolding operator_upgrade_def by (rule rules | simp add: work_states_def)+
  have "keeps (runs (sv_sha sv) unguarded) (validate_terminal_recovery sv oid)" for oid
    unfolding validate_terminal_recovery_def Let_def proofs_latest_act_def by (rule rules)+
  then show "keeps (runs (sv_sha sv) unguarded) (operator_replay sv create job_id)"
    unfolding operator_replay_def
    by (intro running.keeps_bind any.keeps_lease lease_step.replay keeps_sum any.keeps_dispatch_if running.keeps_raise)
  show "keeps (runs sha unguarded) (operator_reconcile create limit now)"
    unfolding operator_reconcile_def by (rule rules)+
  show "keeps (runs sha unguarded) (operator_recover_stale create limit grace recovered_at now)"
    unfolding operator_recover_stale_def by (rule rules)+
qed

section \<open>Checkout, webhooks and mail\<close>

lemma keeps_checkout:
  "keeps (runs sha unguarded) (checkout_create ps os pp new_id token request binding now ms random_bytes later)"
proof -
  have again: "keeps (runs sha unguarded) (transaction (\<lambda>d. case find_idempotency checkout_endpoint (ib_key_sha256 binding) d of
      None \<Rightarrow> Inl e | Some existing \<Rightarrow> resume_existing ps os i token existing binding now d))" for e i
    by (rule any.keeps_customer) (auto split: option.splits intro: customer_step.resume)
  have "keeps (runs sha unguarded) (transaction (reserve_tx ps os new_id token request binding now ms random_bytes))"
    by (intro any.keeps_customer customer_step.reserve)
  then have "keeps (runs sha unguarded) (reserve ps os new_id token request binding now ms random_bytes)"
    unfolding reserve_def by (intro running.keeps_catch keeps_if again running.keeps_raise)
  then show ?thesis
    unfolding checkout_create_def
    by (intro keeps_if running.keeps_raise running.keeps_bind keeps_sum running.keeps_return running.keeps_lift
        any.keeps_customer customer_step.finalize)
qed

lemma keeps_process_webhook: "keeps (runs sha unguarded) (process_webhook ps pp sha' new_id raw_body signature now inserted_at)"
  unfolding process_webhook_def
  by (intro keeps_if running.keeps_raise running.keeps_bind keeps_option running.keeps_return running.keeps_lift
      running.keeps_read running.keeps_catch any.keeps_customer customer_step.payment)

lemma keeps_dispatch_once: "keeps (runs sha unguarded) (dispatch_once sha send lease_for token worker_id now)"
proof -
  have "keeps (runs sha unguarded) (case send m of
      Inr acceptance \<Rightarrow> transaction (record_accepted_tx sha m acceptance now)
    | Inl (ResendRetryableError error_code status) \<Rightarrow>
        transaction (record_retry_tx m now (dt_add now (seconds (resend_delay (cn_attempt m)))) error_code status)
    | Inl (ResendPermanentError error_code status) \<Rightarrow>
        transaction (record_terminal_failure_tx m now error_code status)
    | Inl e \<Rightarrow> raise_act e)" for m
    by (auto split: sum.splits exn.splits
        intro!: any.keeps_mail running.keeps_raise intro: mail_step.accepted mail_step.retried mail_step.failed)
  then show ?thesis
    unfolding dispatch_once_def
    by (intro running.keeps_bind any.keeps_mail mail_step.claim keeps_option running.keeps_return)
qed


end
