(* ===== verification/Iso_Dates.thy ===== *)
theory Iso_Dates
  imports Prelude
begin

text \<open>
  The part of Python's \<open>datetime\<close> that the receipts use: the proleptic Gregorian calendar, \<open>isoformat\<close> and
  \<open>fromisoformat\<close>. An aware datetime is its instant, and its text is the one in UTC. \<open>fromisoformat\<close> reads the formats
  with a calendar date; week dates, which no part of the service writes, are not read.
\<close>

section \<open>The calendar\<close>

definition is_leap :: "int \<Rightarrow> bool" where
  "is_leap year \<longleftrightarrow> year mod 4 = 0 \<and> (year mod 100 \<noteq> 0 \<or> year mod 400 = 0)"

definition days_before_year :: "int \<Rightarrow> int" where
  "days_before_year year = (let y = year - 1 in y * 365 + y div 4 - y div 100 + y div 400)"

definition month_lengths :: "int list" where
  "month_lengths = [31, 28, 31, 30, 31, 30, 31, 31, 30, 31, 30, 31]"

definition days_in_month :: "bool \<Rightarrow> nat \<Rightarrow> int" where
  "days_in_month leap month = (if month = 2 \<and> leap then 29 else month_lengths ! (month - 1))"

definition days_before_month :: "bool \<Rightarrow> nat \<Rightarrow> int" where
  "days_before_month leap month = sum_list (take (month - 1) month_lengths) + (if 2 < month \<and> leap then 1 else 0)"

definition ymd2ord :: "int \<Rightarrow> nat \<Rightarrow> int \<Rightarrow> int" where
  "ymd2ord year month day = days_before_year year + days_before_month (is_leap year) month + day"

text \<open>The month and the day from the number of days since the first of January.\<close>

definition month_day :: "bool \<Rightarrow> int \<Rightarrow> nat \<times> int" where
  "month_day leap n =
     (let month = nat ((n + 50) div 32); preceding = days_before_month leap month
      in if n < preceding then (month - 1, n - (preceding - days_in_month leap (month - 1)) + 1)
         else (month, n - preceding + 1))"

definition ord2ymd :: "int \<Rightarrow> int \<times> nat \<times> int" where
  "ord2ymd ordinal =
     (let n = ordinal - 1; n400 = n div 146097; n = n mod 146097; n100 = n div 36524; n = n mod 36524;
          n4 = n div 1461; n = n mod 1461; n1 = n div 365; n = n mod 365;
          year = n400 * 400 + 1 + n100 * 100 + n4 * 4 + n1
      in if n1 = 4 \<or> n100 = 4 then (year - 1, 12, 31)
         else (year, month_day (n1 = 3 \<and> (n4 \<noteq> 24 \<or> n100 = 3)) n))"

lemma month_day_sound:
  assumes "0 \<le> n" "n < 365 \<or> leap \<and> n < 366" "month_day leap n = (m, d)"
  shows "1 \<le> m \<and> m \<le> 12 \<and> 1 \<le> d \<and> d \<le> days_in_month leap m \<and> days_before_month leap m + d = n + 1"
proof -
  define k where "k = nat ((n + 50) div 32)"
  have k: "32 * int k \<le> n + 50" "n + 50 < 32 * int k + 32" using assms(1) by (auto simp: k_def)
  have "n < 366" using assms(2) by auto
  with k have "1 \<le> k" "k \<le> 12" using assms(1) by linarith+
  then have "k = 1 \<or> k = 2 \<or> k = 3 \<or> k = 4 \<or> k = 5 \<or> k = 6 \<or> k = 7 \<or> k = 8 \<or> k = 9 \<or> k = 10 \<or> k = 11 \<or> k = 12"
    by presburger
  then show ?thesis
    using assms k unfolding month_day_def k_def [symmetric] Let_def
    by (elim disjE; cases leap; simp add: days_before_month_def days_in_month_def month_lengths_def split: if_splits)
qed

text \<open>The days before a year, from the cycles of 400, 100, 4 and 1 years before it.\<close>

lemma multiple_iff:
  fixes k q w :: int
  assumes "0 < w" "w \<le> k"
  shows "(k * q + w) mod k = 0 \<longleftrightarrow> w = k"
  using assms by (cases "w = k") simp_all

lemma days_before_cycles:
  assumes "0 \<le> b" "b \<le> 3" "0 \<le> c" "c \<le> 24" "0 \<le> e" "e \<le> 3"
  shows "days_before_year (400 * a + 100 * b + 4 * c + e + 1) = 146097 * a + 36524 * b + 1461 * c + 365 * e"
    "is_leap (400 * a + 100 * b + 4 * c + e + 1) \<longleftrightarrow> e = 3 \<and> (c \<noteq> 24 \<or> b = 3)"
proof -
  define z where "z = 400 * a + 100 * b + 4 * c + e"
  have "z div 4 = 100 * a + 25 * b + c" by (rule int_div_pos_eq [where r = e]) (use assms in \<open>simp_all add: z_def\<close>)
  moreover have "z div 100 = 4 * a + b" by (rule int_div_pos_eq [where r = "4 * c + e"]) (use assms in \<open>simp_all add: z_def\<close>)
  moreover have "z div 400 = a" by (rule int_div_pos_eq [where r = "100 * b + 4 * c + e"]) (use assms in \<open>simp_all add: z_def\<close>)
  ultimately show "days_before_year (400 * a + 100 * b + 4 * c + e + 1) = 146097 * a + 36524 * b + 1461 * c + 365 * e"
    by (simp add: days_before_year_def z_def [symmetric]) (simp add: z_def)
  have "(4 * (100 * a + 25 * b + c) + (e + 1)) mod 4 = 0 \<longleftrightarrow> e + 1 = 4"
    "(100 * (4 * a + b) + (4 * c + e + 1)) mod 100 = 0 \<longleftrightarrow> 4 * c + e + 1 = 100"
    "(400 * a + (100 * b + 4 * c + e + 1)) mod 400 = 0 \<longleftrightarrow> 100 * b + 4 * c + e + 1 = 400"
    using assms by (intro multiple_iff; linarith)+
  moreover have "4 * (100 * a + 25 * b + c) + (e + 1) = z + 1" "100 * (4 * a + b) + (4 * c + e + 1) = z + 1"
    "400 * a + (100 * b + 4 * c + e + 1) = z + 1" by (simp_all add: z_def)
  ultimately have "is_leap (z + 1) \<longleftrightarrow> e + 1 = 4 \<and> (4 * c + e + 1 \<noteq> 100 \<or> 100 * b + 4 * c + e + 1 = 400)"
    by (simp only: is_leap_def)
  then show "is_leap (400 * a + 100 * b + 4 * c + e + 1) \<longleftrightarrow> e = 3 \<and> (c \<noteq> 24 \<or> b = 3)"
    using assms by (auto simp: z_def)
qed

lemma ord2ymd_sound:
  assumes "ord2ymd ordinal = (y, m, d)"
  shows "1 \<le> m \<and> m \<le> 12 \<and> 1 \<le> d \<and> d \<le> days_in_month (is_leap y) m \<and> ymd2ord y m d = ordinal"
proof -
  define a where "a = (ordinal - 1) div 146097"
  define r where "r = (ordinal - 1) mod 146097"
  define b where "b = r div 36524"
  define r2 where "r2 = r mod 36524"
  define c where "c = r2 div 1461"
  define r3 where "r3 = r2 mod 1461"
  define e where "e = r3 div 365"
  define r4 where "r4 = r3 mod 365"
  have parts: "ordinal = 146097 * a + r + 1" "0 \<le> r" "r < 146097" "r = 36524 * b + r2" "0 \<le> r2" "r2 < 36524"
    "r2 = 1461 * c + r3" "0 \<le> r3" "r3 < 1461" "r3 = 365 * e + r4" "0 \<le> r4" "r4 < 365"
    by (simp_all add: a_def r_def b_def r2_def c_def r3_def e_def r4_def)
  have bounds: "0 \<le> b" "b \<le> 4" "0 \<le> c" "c \<le> 24" "0 \<le> e" "e \<le> 4" using parts by linarith+
  have ymd: "(y, m, d) = (if e = 4 \<or> b = 4 then (400 * a + 100 * b + 4 * c + e, 12, 31)
      else (400 * a + 100 * b + 4 * c + e + 1, month_day (e = 3 \<and> (c \<noteq> 24 \<or> b = 3)) r4))"
    using assms unfolding ord2ymd_def Let_def a_def [symmetric] r_def [symmetric] b_def [symmetric] r2_def [symmetric]
      c_def [symmetric] r3_def [symmetric] e_def [symmetric] r4_def [symmetric]
    by (auto split: if_splits)
  have december: "days_before_month leap 12 = (if leap then 335 else 334)" "days_in_month leap 12 = 31" for leap
    by (simp_all add: days_before_month_def days_in_month_def month_lengths_def)
  consider "b = 4" | "b \<noteq> 4" "e = 4" | "b \<noteq> 4" "e \<noteq> 4" by blast
  then show ?thesis
  proof cases
    case 1
    then have "c = 0" "e = 0" "r4 = 0" "r = 146096" using parts bounds by linarith+
    then have "y = 400 * a + 100 * 3 + 4 * 24 + 3 + 1" "m = 12" "d = 31" using 1 ymd by simp_all
    then show ?thesis
      using days_before_cycles [of 3 24 3 a] parts \<open>r = 146096\<close> by (simp add: ymd2ord_def december)
  next
    case 2
    then have b: "b \<le> 3" using bounds by simp
    from 2 have "c \<noteq> 24" "r4 = 0" using parts b by auto
    then have c: "c \<le> 23" using bounds by simp
    have "y = 400 * a + 100 * b + 4 * c + 3 + 1" "m = 12" "d = 31" using 2 ymd by simp_all
    then show ?thesis
      using days_before_cycles [of b c 3 a] parts bounds b c \<open>r4 = 0\<close> 2 by (simp add: ymd2ord_def december)
  next
    case 3
    then have small: "b \<le> 3" "e \<le> 3" using bounds by simp_all
    define leap where "leap \<longleftrightarrow> e = 3 \<and> (c \<noteq> 24 \<or> b = 3)"
    have y: "y = 400 * a + 100 * b + 4 * c + e + 1" and md: "month_day leap r4 = (m, d)"
      using 3 ymd by (simp_all add: leap_def)
    have cycles: "days_before_year y = 146097 * a + 36524 * b + 1461 * c + 365 * e" "is_leap y = leap"
      using days_before_cycles [of b c e a] small bounds unfolding y leap_def by simp_all
    have "1 \<le> m \<and> m \<le> 12 \<and> 1 \<le> d \<and> d \<le> days_in_month leap m \<and> days_before_month leap m + d = r4 + 1"
      by (rule month_day_sound [OF parts(11) _ md]) (use parts in simp)
    then show ?thesis using parts cycles by (simp add: ymd2ord_def)
  qed
qed


section \<open>Decimal fields\<close>

text \<open>\<open>'%0kd'\<close> of a number below \<open>10 ^ k\<close>.\<close>

fun zero_padded :: "nat \<Rightarrow> nat \<Rightarrow> string" where
  "zero_padded 0 n = []"
| "zero_padded (Suc k) n = zero_padded k (n div 10) @ [digit_char (n mod 10)]"

definition decimal_value :: "string \<Rightarrow> nat" where
  "decimal_value s = foldl (\<lambda>acc c. 10 * acc + (code c - 48)) 0 s"

text \<open>The first \<open>k\<close> characters as digits, and the rest.\<close>

definition take_digits :: "nat \<Rightarrow> string \<Rightarrow> (nat \<times> string) option" where
  "take_digits k s =
     (if length (take k s) = k \<and> list_all is_digit (take k s) then Some (decimal_value (take k s), drop k s) else None)"

lemma length_zero_padded [simp]: "length (zero_padded k n) = k"
  by (induction k arbitrary: n) simp_all

lemma zero_padded_digits: "list_all is_digit (zero_padded k n)"
  by (induction k arbitrary: n) (simp_all add: is_digit_def code_digit_char)

lemma decimal_value_zero_padded: "decimal_value (zero_padded k n) = n mod 10 ^ k"
proof (induction k arbitrary: n)
  case (Suc k)
  have "decimal_value (zero_padded (Suc k) n) = 10 * (n div 10 mod 10 ^ k) + n mod 10"
    using Suc by (simp add: decimal_value_def code_digit_char)
  then show ?case by (simp add: mod_mult2_eq)
qed (simp add: decimal_value_def)

lemma take_digits_padded [simp]: "n < 10 ^ k \<Longrightarrow> take_digits k (zero_padded k n @ r) = Some (n, r)"
  by (simp add: take_digits_def zero_padded_digits decimal_value_zero_padded)

section \<open>isoformat\<close>

definition EPOCH_ORDINAL :: int where "EPOCH_ORDINAL = 719163"
definition DAY_MICROS :: int where "DAY_MICROS = 86400000000"

definition date_of :: "int \<Rightarrow> int \<times> nat \<times> int" where
  "date_of t = ord2ymd (EPOCH_ORDINAL + t div DAY_MICROS)"

text \<open>The instants that a \<open>datetime\<close> can hold: the years from 1 to 9999.\<close>

definition representable :: "datetime \<Rightarrow> bool" where
  "representable d \<longleftrightarrow> 1 \<le> fst (date_of (micros d)) \<and> fst (date_of (micros d)) \<le> 9999"

definition date_text :: "int \<Rightarrow> string" where
  "date_text t = (case date_of t of (y, m, d) \<Rightarrow>
     zero_padded 4 (nat y) @ ''-'' @ zero_padded 2 m @ ''-'' @ zero_padded 2 (nat d))"

definition clock_text :: "int \<Rightarrow> string" where
  "clock_text t = (let s = nat (t mod DAY_MICROS div 1000000) in
     zero_padded 2 (s div 3600) @ '':'' @ zero_padded 2 (s div 60 mod 60) @ '':'' @ zero_padded 2 (s mod 60))"

definition fraction_text :: "int \<Rightarrow> string" where
  "fraction_text t = (let us = nat (t mod 1000000) in if us = 0 then [] else ''.'' @ zero_padded 6 us)"

definition offset_text :: "datetime \<Rightarrow> string" where
  "offset_text d = (if is_aware d then ''+00:00'' else [])"

text \<open>\<open>isoformat()\<close> and \<open>isoformat(timespec="seconds")\<close>.\<close>

definition isoformat :: "datetime \<Rightarrow> string" where
  "isoformat d = date_text (micros d) @ ''T'' @ clock_text (micros d) @ fraction_text (micros d) @ offset_text d"

definition isoformat_seconds :: "datetime \<Rightarrow> string" where
  "isoformat_seconds d = date_text (micros d) @ ''T'' @ clock_text (micros d) @ offset_text d"

section \<open>fromisoformat\<close>

text \<open>\<open>YYYY-MM-DD\<close> or \<open>YYYYMMDD\<close>.\<close>

definition parse_date :: "string \<Rightarrow> ((nat \<times> nat \<times> nat) \<times> string) option" where
  "parse_date s =
     Option.bind (take_digits 4 s) (\<lambda>(y, r).
       let sep = (r \<noteq> [] \<and> hd r = CHR ''-'')
       in Option.bind (take_digits 2 (if sep then tl r else r)) (\<lambda>(m, r).
            if sep \<noteq> (r \<noteq> [] \<and> hd r = CHR ''-'') then None
            else Option.bind (take_digits 2 (if sep then tl r else r)) (\<lambda>(d, r). Some ((y, m, d), r))))"

text \<open>\<open>HH[:MM[:SS[.f+]]]\<close> or \<open>HH[MM[SS[.f+]]]\<close>: hours, minutes, seconds and microseconds.\<close>

definition parse_fraction :: "string \<Rightarrow> nat option" where
  "parse_fraction s =
     (if s = [] then Some 0
      else if hd s \<noteq> CHR ''.'' \<and> hd s \<noteq> CHR '','' \<or> tl s = [] \<or> \<not> list_all is_digit (tl s) then None
      else Some (decimal_value (take 6 (tl s @ ''00000''))))"

definition parse_clock :: "string \<Rightarrow> (nat \<times> nat \<times> nat \<times> nat) option" where
  "parse_clock s =
     Option.bind (take_digits 2 s) (\<lambda>(h, r).
       if r = [] then Some (h, 0, 0, 0)
       else let sep = (hd r = CHR '':'')
         in Option.bind (take_digits 2 (if sep then tl r else r)) (\<lambda>(m, r).
              if r = [] then Some (h, m, 0, 0)
              else if sep \<and> hd r \<noteq> CHR '':'' then None
              else Option.bind (take_digits 2 (if sep then tl r else r)) (\<lambda>(s, r).
                map_option (\<lambda>us. (h, m, s, us)) (parse_fraction r))))"

text \<open>The offset from UTC in microseconds: none for a naive datetime.\<close>

definition parse_offset :: "string \<Rightarrow> int option option" where
  "parse_offset s =
     (if s = [] then Some None
      else if s = ''Z'' then Some (Some 0)
      else if hd s \<noteq> CHR ''+'' \<and> hd s \<noteq> CHR ''-'' then None
      else Option.bind (parse_clock (tl s)) (\<lambda>(h, m, s', us).
        let offset = ((int h * 60 + int m) * 60 + int s') * 1000000 + int us
        in if DAY_MICROS \<le> offset then None else Some (Some (if hd s = CHR ''-'' then - offset else offset))))"

definition fromisoformat :: "string \<Rightarrow> datetime option" where
  "fromisoformat text =
     Option.bind (parse_date text) (\<lambda>((y, m, d), r).
       let clock = takeWhile (\<lambda>c. c \<notin> set ''+-Z'') (tl r); zone = dropWhile (\<lambda>c. c \<notin> set ''+-Z'') (tl r)
       in Option.bind (if tl r = [] then Some ((0, 0, 0, 0), None)
                else Option.bind (parse_clock clock) (\<lambda>c. map_option (Pair c) (parse_offset zone))) (\<lambda>((h, mi, s, us), offset).
            if \<not> (1 \<le> y \<and> 1 \<le> m \<and> m \<le> 12 \<and> 1 \<le> d \<and> int d \<le> days_in_month (is_leap (int y)) m \<and> h < 24 \<and> mi < 60 \<and> s < 60)
            then None
            else let t = (ymd2ord (int y) m (int d) - EPOCH_ORDINAL) * DAY_MICROS +
                         ((int h * 60 + int mi) * 60 + int s) * 1000000 + int us
              in Some (case offset of None \<Rightarrow> Naive t | Some z \<Rightarrow> Aware (t - z))))"


section \<open>Round trips\<close>

lemma digits_no_zone: "list_all is_digit s \<Longrightarrow> \<forall>c \<in> set s. c \<notin> set ''+-Z''"
  by (auto simp: list_all_iff is_digit_def code_def)

lemma parse_date_text:
  assumes "date_of t = (y, m, d)" "1 \<le> y" "y \<le> 9999"
  shows "parse_date (date_text t @ r) = Some ((nat y, m, nat d), r)"
    "1 \<le> m \<and> m \<le> 12 \<and> 1 \<le> d \<and> d \<le> days_in_month (is_leap y) m \<and> ymd2ord y m d = EPOCH_ORDINAL + t div DAY_MICROS"
proof -
  show date: "1 \<le> m \<and> m \<le> 12 \<and> 1 \<le> d \<and> d \<le> days_in_month (is_leap y) m \<and> ymd2ord y m d = EPOCH_ORDINAL + t div DAY_MICROS"
    using ord2ymd_sound [of "EPOCH_ORDINAL + t div DAY_MICROS" y m d] assms(1) by (simp add: date_of_def)
  have "days_in_month (is_leap y) m \<le> 31"
  proof -
    have "m = 1 \<or> m = 2 \<or> m = 3 \<or> m = 4 \<or> m = 5 \<or> m = 6 \<or> m = 7 \<or> m = 8 \<or> m = 9 \<or> m = 10 \<or> m = 11 \<or> m = 12"
      using date by presburger
    then show ?thesis by (auto simp: days_in_month_def month_lengths_def)
  qed
  then have "nat y < 10 ^ 4" "m < 10 ^ 2" "nat d < 10 ^ 2" using date assms by auto
  then show "parse_date (date_text t @ r) = Some ((nat y, m, nat d), r)"
    by (simp add: parse_date_def date_text_def assms(1) del: zero_padded.simps)
qed

lemma parse_clock_text:
  assumes "parse_fraction f = Some us"
  shows "parse_clock (clock_text t @ f) =
    (let s = nat (t mod DAY_MICROS div 1000000) in Some (s div 3600, s div 60 mod 60, s mod 60, us))"
proof -
  define s where "s = nat (t mod DAY_MICROS div 1000000)"
  have "t mod DAY_MICROS < DAY_MICROS" by (simp add: DAY_MICROS_def)
  then have "s < 86400" by (simp add: s_def DAY_MICROS_def)
  then have "s div 3600 < 10 ^ 2" "s div 60 mod 60 < 10 ^ 2" "s mod 60 < 10 ^ 2" by simp_all
  then show ?thesis
    using assms by (simp add: parse_clock_def clock_text_def s_def [symmetric] Let_def del: zero_padded.simps)
qed

lemma clock_text_no_zone: "\<forall>c \<in> set (clock_text t). c \<notin> set ''+-Z''"
  using digits_no_zone [OF zero_padded_digits] by (auto simp: clock_text_def Let_def simp del: zero_padded.simps)

lemma fromisoformat_text:
  assumes "representable (Aware t)" "parse_fraction f = Some us" "\<forall>c \<in> set f. c \<notin> set ''+-Z''"
  shows "fromisoformat (date_text t @ ''T'' @ clock_text t @ f @ ''+00:00'') = Some (Aware (t - t mod 1000000 + int us))"
proof -
  obtain y m d where date: "date_of t = (y, m, d)" by (cases "date_of t")
  then have y: "1 \<le> y" "y \<le> 9999" using assms(1) by (simp_all add: representable_def)
  define s where "s = nat (t mod DAY_MICROS div 1000000)"
  have s: "int s = t mod DAY_MICROS div 1000000" "s < 86400"
    by (simp_all add: s_def DAY_MICROS_def pos_imp_zdiv_nonneg_iff nat_less_iff zdiv_mono1 )
  have zone: "parse_offset ''+00:00'' = Some (Some 0)" by code_simp
  have split: "takeWhile (\<lambda>c. c \<notin> set ''+-Z'') (clock_text t @ f @ ''+00:00'') = clock_text t @ f"
    "dropWhile (\<lambda>c. c \<notin> set ''+-Z'') (clock_text t @ f @ ''+00:00'') = ''+00:00''"
    using clock_text_no_zone assms(3) by (simp_all add: takeWhile_append2 dropWhile_append2)
  have fields: "(s div 3600 * 60 + s div 60 mod 60) * 60 + s mod 60 = s" "s div 3600 < 24"
    using s(2) div_mult2_eq [of s 60 60] by simp_all
  have whole: "t - t mod 1000000 = t div DAY_MICROS * DAY_MICROS + int s * 1000000"
  proof -
    have "t mod DAY_MICROS mod 1000000 = t mod 1000000" by (simp add: DAY_MICROS_def mod_mod_cancel)
    then have "t mod DAY_MICROS = int s * 1000000 + t mod 1000000" using s(1) by (metis div_mult_mod_eq)
    then show ?thesis using div_mult_mod_eq [of t DAY_MICROS] by simp
  qed
  have "((int (s div 3600) * 60 + int (s div 60 mod 60)) * 60 + int (s mod 60)) = int s"
    using arg_cong [OF fields(1), of int] by (simp only: of_nat_add of_nat_mult of_nat_numeral)
  moreover have "1 \<le> nat d" "1 \<le> nat y" using parse_date_text(2) [OF date y] y by auto
  ultimately show ?thesis
    using parse_date_text(1) [OF date y, of "''T'' @ clock_text t @ f @ ''+00:00''"] parse_date_text(2) [OF date y] parse_clock_text [OF assms(2), of t] split zone fields(2) y
    by (simp add: fromisoformat_def s_def [symmetric] whole)
qed

text \<open>\<open>fromisoformat\<close> reads back what \<open>isoformat\<close> writes; the form in seconds loses the microseconds.\<close>

lemma fromisoformat_isoformat:
  assumes "representable d" "is_aware d"
  shows "fromisoformat (isoformat d) = Some d"
proof -
  obtain t where d: "d = Aware t" using assms(2) by (cases d) simp_all
  define us where "us = nat (t mod 1000000)"
  have us: "us < 10 ^ 6" "int us = t mod 1000000" by (simp_all add: us_def nat_less_iff)
  have "decimal_value (take 6 (zero_padded 6 us @ ''00000'')) = us"
    using us(1) by (simp add: decimal_value_zero_padded del: zero_padded.simps)
  then have "parse_fraction (fraction_text t) = Some us"
    using zero_padded_digits [of 6 us] length_zero_padded [of 6 us]
    by (auto simp: parse_fraction_def fraction_text_def us_def [symmetric] Let_def simp del: zero_padded.simps length_zero_padded)
  moreover have "\<forall>c \<in> set (fraction_text t). c \<notin> set ''+-Z''"
    using digits_no_zone [OF zero_padded_digits] by (auto simp: fraction_text_def Let_def simp del: zero_padded.simps)
  ultimately show ?thesis
    using fromisoformat_text [of t "fraction_text t" us] assms(1) by (simp add: isoformat_def offset_text_def d us(2))
qed

definition whole_second :: "datetime \<Rightarrow> bool" where
  "whole_second d \<longleftrightarrow> micros d mod 1000000 = 0"

lemma fromisoformat_seconds:
  assumes "representable d" "is_aware d"
  shows "fromisoformat (isoformat_seconds d) = Some (Aware (micros d - micros d mod 1000000))"
proof -
  obtain t where d: "d = Aware t" using assms(2) by (cases d) simp_all
  have "parse_fraction [] = Some 0" by (simp add: parse_fraction_def)
  then show ?thesis
    using fromisoformat_text [of t "[]" 0] assms(1) by (simp add: isoformat_seconds_def offset_text_def d)
qed

lemma fromisoformat_seconds_iff:
  assumes "representable d" "is_aware d"
  shows "fromisoformat (isoformat_seconds d) = Some d \<longleftrightarrow> whole_second d"
  using fromisoformat_seconds [OF assms] assms(2) by (cases d) (simp_all add: whole_second_def)

section \<open>str.replace\<close>

text \<open>\<open>s.replace(old, new)\<close> for a non-empty \<open>old\<close>.\<close>

function str_replace :: "'a list \<Rightarrow> 'a list \<Rightarrow> 'a list \<Rightarrow> 'a list" where
  "str_replace old new s =
     (if s = [] then []
      else if old \<noteq> [] \<and> prefix old s then new @ str_replace old new (drop (length old) s)
      else hd s # str_replace old new (tl s))"
  by pat_completeness auto
termination
  by (relation "measure (\<lambda>(old, new, s). length s)") auto

declare str_replace.simps [simp del]

lemma str_replace_skip: "\<forall>c \<in> set s. c \<noteq> hd old \<Longrightarrow> old \<noteq> [] \<Longrightarrow> str_replace old new (s @ r) = s @ str_replace old new r"
proof (induction s)
  case (Cons c s)
  then have "\<not> prefix old (c # s @ r)" by (cases old) auto
  then show ?case using Cons by (simp add: str_replace.simps [of old new "c # s @ r"])
qed simp

lemma str_replace_match: "old \<noteq> [] \<Longrightarrow> str_replace old new (old @ r) = new @ str_replace old new r"
  by (simp add: str_replace.simps [of old new "old @ r"])

lemma str_replace_Nil [simp]: "str_replace old new [] = []"
  by (simp add: str_replace.simps)

end
