(* ===== verification/Json.thy ===== *)
theory Json
  imports Iso_Dates "HOL-Library.List_Lexorder" "HOL-Library.Char_ord"
begin

text \<open>
  The values of Python's \<open>json\<close> module, \<open>json.dumps\<close> and \<open>json.loads\<close>. A dictionary is the list of its items. Strings
  have Latin-1 characters: \<open>loads\<close> reads no escape above \<open>\u00ff\<close>. A float is the number it stands for, without
  rounding, and its text is the parameter \<open>float_repr\<close>.
\<close>

datatype pyval =
    PNone
  | PBool bool
  | PInt int
  | PFloat rat
  | PNaN
  | PInfinity bool
  | PStr string
  | PList "pyval list"
  | PDict "(string \<times> pyval) list"

text \<open>\<open>value.get(key)\<close> of a dictionary; a key of the text that comes twice has the last value.\<close>

definition dict_get :: "(string \<times> pyval) list \<Rightarrow> string \<Rightarrow> pyval" where
  "dict_get d key = (case map_of (rev d) key of None \<Rightarrow> PNone | Some v \<Rightarrow> v)"

definition dict_keys :: "(string \<times> pyval) list \<Rightarrow> string set" where
  "dict_keys d = fst ` set d"

text \<open>\<open>value == n\<close> for an integer \<open>n\<close>: truth values and floats compare by their number.\<close>

fun equals_int :: "pyval \<Rightarrow> int \<Rightarrow> bool" where
  "equals_int (PInt m) n \<longleftrightarrow> m = n"
| "equals_int (PBool b) n \<longleftrightarrow> (if b then 1 else 0) = n"
| "equals_int (PFloat q) n \<longleftrightarrow> q = of_int n"
| "equals_int _ n \<longleftrightarrow> False"

section \<open>dumps\<close>

text \<open>\<open>ensure_ascii=True\<close>.\<close>

definition json_escape :: "char \<Rightarrow> string" where
  "json_escape c =
     (if c = CHR 0x22 then [CHR 0x5C, CHR 0x22]
      else if c = CHR 0x5C then [CHR 0x5C, CHR 0x5C]
      else if code c = 10 then [CHR 0x5C, CHR ''n'']
      else if code c = 13 then [CHR 0x5C, CHR ''r'']
      else if code c = 9 then [CHR 0x5C, CHR ''t'']
      else if code c = 12 then [CHR 0x5C, CHR ''f'']
      else if code c = 8 then [CHR 0x5C, CHR ''b'']
      else if 32 \<le> code c \<and> code c \<le> 126 then [c]
      else [CHR 0x5C, CHR ''u'', CHR ''0'', CHR ''0'', hex_digit (code c div 16), hex_digit (code c mod 16)])"

definition json_string :: "string \<Rightarrow> string" where
  "json_string s = CHR 0x22 # concat (map json_escape s) @ [CHR 0x22]"

fun join_strings :: "string \<Rightarrow> string list \<Rightarrow> string" where
  "join_strings sep [] = []"
| "join_strings sep [x] = x"
| "join_strings sep (x # y # xs) = x @ sep @ join_strings sep (y # xs)"

text \<open>\<open>separators=(item_sep, key_sep)\<close>; the keys in the order of the dictionary.\<close>

fun dumps :: "(rat \<Rightarrow> string) \<Rightarrow> string \<Rightarrow> string \<Rightarrow> pyval \<Rightarrow> string" where
  "dumps float_repr item_sep key_sep PNone = ''null''"
| "dumps float_repr item_sep key_sep (PBool b) = (if b then ''true'' else ''false'')"
| "dumps float_repr item_sep key_sep (PInt n) = int_str n"
| "dumps float_repr item_sep key_sep (PFloat q) = float_repr q"
| "dumps float_repr item_sep key_sep PNaN = ''NaN''"
| "dumps float_repr item_sep key_sep (PInfinity negative) = (if negative then ''-Infinity'' else ''Infinity'')"
| "dumps float_repr item_sep key_sep (PStr s) = json_string s"
| "dumps float_repr item_sep key_sep (PList vs) = ''['' @ join_strings item_sep (map (dumps float_repr item_sep key_sep) vs) @ '']''"
| "dumps float_repr item_sep key_sep (PDict d) =
     ''{'' @ join_strings item_sep (map (\<lambda>(k, v). json_string k @ key_sep @ dumps float_repr item_sep key_sep v) d) @ ''}''"

text \<open>\<open>sort_keys=True\<close>.\<close>

fun sort_dicts :: "pyval \<Rightarrow> pyval" where
  "sort_dicts (PList vs) = PList (map sort_dicts vs)"
| "sort_dicts (PDict d) = PDict (sort_key fst (map (\<lambda>(k, v). (k, sort_dicts v)) d))"
| "sort_dicts v = v"

section \<open>loads\<close>

definition skip_blanks :: "string \<Rightarrow> string" where
  "skip_blanks s = dropWhile (\<lambda>c. code c \<in> {9, 10, 13, 32}) s"

definition simple_escape :: "char \<Rightarrow> char option" where
  "simple_escape e =
     map_of [(CHR 0x22, CHR 0x22), (CHR 0x5C, CHR 0x5C), (CHR ''/'', CHR ''/''), (CHR ''b'', CHR 0x08), (CHR ''f'', CHR 0x0C),
       (CHR ''n'', CHR 0x0A), (CHR ''r'', CHR 0x0D), (CHR ''t'', CHR 0x09)] e"

definition unicode_escape :: "string \<Rightarrow> char option" where
  "unicode_escape ds =
     (case map hex_value ds of
        [Some a, Some b, Some c, Some d] \<Rightarrow> if a = 0 \<and> b = 0 then Some (char_of (16 * c + d)) else None
      | _ \<Rightarrow> None)"

text \<open>The rest of a string after its opening quote.\<close>

fun string_body :: "string \<Rightarrow> (string \<times> string) option" where
  "string_body [] = None"
| "string_body (c # r) =
     (if c = CHR 0x22 then Some ([], r)
      else if c = CHR 0x5C
      then (case r of
          [] \<Rightarrow> None
        | e # r' \<Rightarrow>
            if e = CHR ''u''
            then (case r' of
                h1 # h2 # h3 # h4 # r'' \<Rightarrow>
                  Option.bind (unicode_escape [h1, h2, h3, h4]) (\<lambda>x. map_option (\<lambda>(s, t). (x # s, t)) (string_body r''))
              | _ \<Rightarrow> None)
            else Option.bind (simple_escape e) (\<lambda>x. map_option (\<lambda>(s, t). (x # s, t)) (string_body r')))
      else if code c < 32 then None
      else map_option (\<lambda>(s, t). (c # s, t)) (string_body r))"

text \<open>A number: the integer part without leading zeros, a fraction and an exponent, each as far as it goes.\<close>

definition number_fraction :: "string \<Rightarrow> string \<times> string" where
  "number_fraction s =
     (if s \<noteq> [] \<and> hd s = CHR ''.'' \<and> takeWhile is_digit (tl s) \<noteq> []
      then (takeWhile is_digit (tl s), dropWhile is_digit (tl s)) else ([], s))"

definition number_exponent :: "string \<Rightarrow> int option \<times> string" where
  "number_exponent s =
     (if s = [] \<or> hd s \<notin> set ''eE'' then (None, s)
      else let signed = (tl s \<noteq> [] \<and> hd (tl s) \<in> set ''+-''); r = (if signed then tl (tl s) else tl s)
        in if takeWhile is_digit r = [] then (None, s)
           else (Some ((if signed \<and> hd (tl s) = CHR ''-'' then - 1 else 1) * int (decimal_value (takeWhile is_digit r))), dropWhile is_digit r))"

definition parse_number :: "string \<Rightarrow> (pyval \<times> string) option" where
  "parse_number s =
     (let negative = (s \<noteq> [] \<and> hd s = CHR ''-''); u = (if negative then tl s else s); digits = takeWhile is_digit u;
          whole = (if digits \<noteq> [] \<and> hd digits = CHR ''0'' then ''0'' else digits);
          (fraction, r) = number_fraction (drop (length whole) u); (exponent, r') = number_exponent r;
          sign = (if negative then - 1 else 1 :: int)
      in if digits = [] then None
         else if fraction = [] \<and> exponent = None then Some (PInt (sign * int (decimal_value whole)), r')
         else Some (PFloat (of_int sign * of_nat (decimal_value (whole @ fraction)) *
                power_int 10 ((case exponent of None \<Rightarrow> 0 | Some e \<Rightarrow> e) - int (length fraction))), r'))"

definition parse_literal :: "string \<Rightarrow> (pyval \<times> string) option" where
  "parse_literal s =
     (if prefix ''null'' s then Some (PNone, drop 4 s)
      else if prefix ''true'' s then Some (PBool True, drop 4 s)
      else if prefix ''false'' s then Some (PBool False, drop 5 s)
      else if prefix ''NaN'' s then Some (PNaN, drop 3 s)
      else if prefix ''Infinity'' s then Some (PInfinity False, drop 8 s)
      else if prefix ''-Infinity'' s then Some (PInfinity True, drop 9 s)
      else parse_number s)"

lemma skip_blanks_length: "length (skip_blanks s) \<le> length s"
  by (simp add: skip_blanks_def length_dropWhile_le)

lemma string_body_length: "string_body s = Some (t, r) \<Longrightarrow> length r < length s"
proof (induction "length s" arbitrary: s t r rule: less_induct)
  case less
  have shorter: "length r < length s" if "string_body u = Some (t', r)" "length u < length s" for u t'
    using less.hyps [OF that(2) that(1)] that(2) by simp
  from less.prems obtain c u where s: "s = c # u" by (cases s) auto
  consider "c = CHR 0x22" | "c = CHR 0x5C" | "c \<noteq> CHR 0x22" "c \<noteq> CHR 0x5C" by blast
  then show ?case
  proof cases
    case 2
    with less.prems s obtain e u' where u: "u = e # u'" by (cases u) simp_all
    show ?thesis
    proof (cases "e = CHR ''u''")
      case True
      with less.prems s u 2 obtain h1 h2 h3 h4 v t' where "u' = h1 # h2 # h3 # h4 # v" "string_body v = Some (t', r)"
        by (auto simp: bind_eq_Some_conv split: list.splits)
      then show ?thesis by (intro shorter [of v t']) (simp_all add: s u)
    next
      case False
      with less.prems s u 2 obtain t' where "string_body u' = Some (t', r)" by (auto simp: bind_eq_Some_conv)
      then show ?thesis by (intro shorter [of u' t']) (simp_all add: s u)
    qed
  next
    case 3
    then obtain t' where "string_body u = Some (t', r)" using less.prems s by (auto split: if_splits)
    then show ?thesis by (intro shorter [of u t']) (simp_all add: s)
  qed (use less.prems s in simp)
qed

lemma skip_tl_less: "r \<noteq> [] \<Longrightarrow> length (skip_blanks (tl r)) < length r"
  using skip_blanks_length [of "tl r"] by (cases r) simp_all

function parse_value :: "string \<Rightarrow> (pyval \<times> string) option"
  and parse_items :: "string \<Rightarrow> (pyval list \<times> string) option"
  and parse_members :: "string \<Rightarrow> ((string \<times> pyval) list \<times> string) option" where
  "parse_value s =
     (case s of
        [] \<Rightarrow> None
      | c # r \<Rightarrow>
          if c = CHR 0x22 then map_option (\<lambda>(t, r'). (PStr t, r')) (string_body r)
          else if c = CHR ''['' then
            (let r' = skip_blanks r in
             if r' \<noteq> [] \<and> hd r' = CHR '']'' then Some (PList [], tl r')
             else map_option (\<lambda>(vs, r''). (PList vs, r'')) (parse_items r'))
          else if c = CHR ''{'' then
            (let r' = skip_blanks r in
             if r' \<noteq> [] \<and> hd r' = CHR ''}'' then Some (PDict [], tl r')
             else map_option (\<lambda>(d, r''). (PDict d, r'')) (parse_members r'))
          else parse_literal s)"
| "parse_items s =
     Option.bind (parse_value s) (\<lambda>(v, r).
       let r' = skip_blanks r
       in if r' = [] then None
          else if hd r' = CHR '']'' then Some ([v], tl r')
          else if hd r' = CHR '','' \<and> length r' \<le> length s
          then map_option (\<lambda>(vs, r''). (v # vs, r'')) (parse_items (skip_blanks (tl r')))
          else None)"
| "parse_members s =
     (case s of
        [] \<Rightarrow> None
      | c # u \<Rightarrow>
          if c \<noteq> CHR 0x22 then None
          else Option.bind (string_body u) (\<lambda>(k, r).
            let r' = skip_blanks r
            in if r' = [] \<or> hd r' \<noteq> CHR '':'' then None
               else Option.bind (parse_value (skip_blanks (tl r'))) (\<lambda>(v, q).
                 let q' = skip_blanks q
                 in if q' = [] then None
                    else if hd q' = CHR ''}'' then Some ([(k, v)], tl q')
                    else if hd q' = CHR '','' \<and> length q' \<le> length s
                    then map_option (\<lambda>(d, q''). ((k, v) # d, q'')) (parse_members (skip_blanks (tl q')))
                    else None)))"
  by pat_completeness auto

termination
proof (relation "measure (case_sum (\<lambda>s. 2 * length s) (case_sum (\<lambda>s. 2 * length s + 1) (\<lambda>s. 2 * length s + 1)))", goal_cases)
  case (2 s c r r')
  then show ?case using skip_blanks_length [of r] by simp
next
  case (3 s c r r')
  then show ?case using skip_blanks_length [of r] by simp
next
  case (5 s p v r r')
  then show ?case using skip_tl_less [of r'] by auto
next
  case (6 s c u p k r r')
  then show ?case using skip_tl_less [of r'] skip_blanks_length [of r] string_body_length [of u k r] by auto
next
  case (7 s c u p k r r' p' v q q')
  then show ?case using skip_tl_less [of q'] by auto
qed simp_all

declare parse_value.simps [simp del] parse_items.simps [simp del] parse_members.simps [simp del]

definition loads :: "string \<Rightarrow> pyval option" where
  "loads text =
     (case parse_value (skip_blanks text) of
        None \<Rightarrow> None
      | Some (v, r) \<Rightarrow> if skip_blanks r = [] then Some v else None)"


section \<open>loads reads what dumps writes\<close>

fun plain :: "pyval \<Rightarrow> bool" where
  "plain (PFloat _) = False"
| "plain PNaN = False"
| "plain (PInfinity _) = False"
| "plain (PList vs) \<longleftrightarrow> (\<forall>v \<in> set vs. plain v)"
| "plain (PDict d) \<longleftrightarrow> (\<forall>(k, v) \<in> set d. plain v)"
| "plain _ = True"

definition blank :: "string \<Rightarrow> bool" where
  "blank s \<longleftrightarrow> list_all (\<lambda>c. code c \<in> {9, 10, 13, 32}) s"

text \<open>What may follow a number without being read as a part of it.\<close>

definition number_ends :: "string \<Rightarrow> bool" where
  "number_ends r \<longleftrightarrow> r = [] \<or> \<not> is_digit (hd r) \<and> hd r \<notin> set ''.eE''"

lemma skip_blanks_append: "blank s \<Longrightarrow> skip_blanks (s @ r) = skip_blanks r"
  by (induction s) (simp_all add: blank_def skip_blanks_def)

lemma string_body_escape: "string_body (json_escape c @ r) = map_option (\<lambda>(s, t). (c # s, t)) (string_body r)"
proof -
  have code: "code c < 256" by (simp add: code_def)
  have char: "char_of (code c) = c" by (simp add: code_def)
  have eqs: "code c = 10 \<Longrightarrow> CHR 0x0A = c" "code c = 13 \<Longrightarrow> CHR 0x0D = c" "code c = 9 \<Longrightarrow> CHR 0x09 = c"
    "code c = 12 \<Longrightarrow> CHR 0x0C = c" "code c = 8 \<Longrightarrow> CHR 0x08 = c"
  proof -
    have "char_of (10::nat) = CHR 0x0A" "char_of (13::nat) = CHR 0x0D" "char_of (9::nat) = CHR 0x09"
      "char_of (12::nat) = CHR 0x0C" "char_of (8::nat) = CHR 0x08" by code_simp+
    then show "code c = 10 \<Longrightarrow> CHR 0x0A = c" "code c = 13 \<Longrightarrow> CHR 0x0D = c" "code c = 9 \<Longrightarrow> CHR 0x09 = c"
      "code c = 12 \<Longrightarrow> CHR 0x0C = c" "code c = 8 \<Longrightarrow> CHR 0x08 = c" using char by simp_all
  qed
  have "unicode_escape [CHR ''0'', CHR ''0'', hex_digit (code c div 16), hex_digit (code c mod 16)] = Some c"
  proof -
    have "hex_value (CHR ''0'') = Some 0" by code_simp
    moreover have "code c div 16 < 16" using code by simp
    ultimately show ?thesis by (simp add: unicode_escape_def hex_value_hex_digit char)
  qed
  then show ?thesis
    using eqs by (auto simp: json_escape_def simple_escape_def)
qed

lemma string_body_string: "string_body (concat (map json_escape s) @ CHR 0x22 # r) = Some (s, r)"
  by (induction s) (simp_all add: string_body_escape)

lemma decimal_value_snoc: "decimal_value (s @ [c]) = 10 * decimal_value s + (code c - 48)"
  by (simp add: decimal_value_def)

lemma decimal_value_nat_str [simp]: "decimal_value (nat_str n) = n"
proof (induction n rule: nat_str.induct)
  case (1 n)
  then show ?case
    by (subst nat_str.simps) (auto simp: decimal_value_snoc code_digit_char, simp add: decimal_value_def code_digit_char)
qed

lemma nat_str_leading: "hd (nat_str n) = CHR ''0'' \<Longrightarrow> n = 0"
proof (induction n rule: nat_str.induct)
  case (1 n)
  have zero: "digit_char 0 = CHR ''0''" by code_simp
  show ?case
  proof (cases "n < 10")
    case True
    then show ?thesis using 1 digit_char_inject [of n 0] zero by (simp add: nat_str.simps [of n])
  next
    case False
    then show ?thesis using 1 by (simp add: nat_str.simps [of n])
  qed
qed

lemma parse_number_int:
  assumes "number_ends r"
  shows "parse_number (int_str n @ r) = Some (PInt n, r)"
proof -
  have read: "parse_number ((if neg then ''-'' else []) @ nat_str k @ r) = Some (PInt ((if neg then - 1 else 1) * int k), r)" for k neg
  proof -
    have digits: "takeWhile is_digit (nat_str k @ r) = nat_str k"
      using nat_str_digits [of k] assms by (cases r) (auto simp: takeWhile_append list_all_iff number_ends_def)
    have ends: "number_fraction r = ([], r)" "number_exponent r = (None, r)"
      using assms by (auto simp: number_fraction_def number_exponent_def number_ends_def)
    have no_sign: "hd (nat_str k @ r) \<noteq> CHR ''-''"
      using nat_str_digits [of k] by (cases "nat_str k") (auto simp: is_digit_def code_def)
    show ?thesis
    proof (cases "k = 0")
      case True
      have "nat_str 0 = ''0''" by code_simp
      then show ?thesis using True digits ends by (cases neg) (simp_all add: parse_number_def decimal_value_def code_def)
    next
      case False
      then have "hd (nat_str k) \<noteq> CHR ''0''" using nat_str_leading [of k] by auto
      then show ?thesis using digits ends no_sign by (cases neg) (simp_all add: parse_number_def)
    qed
  qed
  show ?thesis using read [of True "nat (- n)"] read [of False "nat n"] by (auto simp: int_str_def)
qed


definition opens :: "string \<Rightarrow> bool" where
  "opens s \<longleftrightarrow> s \<noteq> [] \<and> code (hd s) \<notin> {9, 10, 13, 32} \<and> hd s \<notin> set '']}''"

lemma opens_append [simp]: "opens s \<Longrightarrow> opens (s @ r)"
  by (simp add: opens_def)

lemma skip_opens [simp]: "opens s \<Longrightarrow> skip_blanks s = s"
  by (cases s) (simp_all add: opens_def skip_blanks_def)

lemma skip_separator: "blank w \<Longrightarrow> opens s \<Longrightarrow> skip_blanks (w @ s) = s"
  by (simp add: skip_blanks_append)

lemma skip_marks: "skip_blanks (CHR '':'' # t) = CHR '':'' # t" "skip_blanks (CHR ''}'' # t) = CHR ''}'' # t"
  "skip_blanks (CHR '']'' # t) = CHR '']'' # t" "skip_blanks (CHR '','' # t) = CHR '','' # t"
  by (simp_all add: skip_blanks_def code_def)

lemma dumps_opens: "plain v \<Longrightarrow> opens (dumps fr isep ksep v)"
proof (cases v)
  case (PInt n)
  have "opens (nat_str k)" for k
    using nat_str_digits [of k] by (cases "nat_str k") (auto simp: opens_def is_digit_def code_def)
  then show ?thesis using PInt by (auto simp: int_str_def opens_def code_def)
qed (auto simp: opens_def json_string_def code_def)

lemma parse_items_dumps:
  assumes "vs \<noteq> []" "blank w"
    and "\<And>v r. v \<in> set vs \<Longrightarrow> number_ends r \<Longrightarrow> parse_value (f v @ r) = Some (v, r)" and "\<And>v. v \<in> set vs \<Longrightarrow> opens (f v)"
  shows "parse_items (join_strings ('','' @ w) (map f vs) @ '']'' @ r) = Some (vs, r) \<and> opens (join_strings ('','' @ w) (map f vs))"
  using assms
proof (induction vs rule: list_nonempty_induct)
  case (single v)
  have "parse_value (f v @ '']'' @ r) = Some (v, '']'' @ r)"
    using single by (simp add: number_ends_def is_digit_def code_def)
  then show ?case using single by (simp add: parse_items.simps [of "f v @ CHR '']'' # r"] skip_blanks_def code_def)
next
  case (cons v vs)
  define rest where "rest = join_strings ('','' @ w) (map f vs) @ '']'' @ r"
  have IH: "parse_items rest = Some (vs, r)" "opens rest"
    using cons by (auto simp: rest_def)
  have join: "join_strings ('','' @ w) (map f (v # vs)) @ '']'' @ r = f v @ '','' @ w @ rest"
    using cons.hyps by (cases vs) (simp_all add: rest_def)
  have val: "parse_value (f v @ '','' @ w @ rest) = Some (v, '','' @ w @ rest)"
    using cons.prems by (simp add: number_ends_def is_digit_def code_def)
  have skip: "skip_blanks ('','' @ w @ rest) = '','' @ w @ rest" "skip_blanks (w @ rest) = rest"
    using IH(2) cons.prems(1) by (simp_all add: skip_marks skip_separator)
  have "parse_items (f v @ '','' @ w @ rest) = Some (v # vs, r)"
    using val skip IH(1) by (simp add: parse_items.simps [of "f v @ CHR '','' # w @ rest"])
  moreover have "opens (join_strings ('','' @ w) (map f (v # vs)))"
    using cons.hyps cons.prems(3) [of v] by (cases vs) simp_all
  ultimately show ?case unfolding join by simp
qed

lemma parse_members_dumps:
  assumes "d \<noteq> []" "blank w" "blank u"
    and "\<And>v r. v \<in> snd ` set d \<Longrightarrow> number_ends r \<Longrightarrow> parse_value (f v @ r) = Some (v, r)" and "\<And>v. v \<in> snd ` set d \<Longrightarrow> opens (f v)"
  shows "parse_members (join_strings ('','' @ w) (map (\<lambda>(k, v). json_string k @ ('':'' @ u) @ f v) d) @ ''}'' @ r) = Some (d, r) \<and>
    opens (join_strings ('','' @ w) (map (\<lambda>(k, v). json_string k @ ('':'' @ u) @ f v) d))"
  using assms
proof (induction d rule: list_nonempty_induct)
  have opens_string: "opens (json_string k @ t)" for k t by (simp add: opens_def json_string_def code_def)
  {
    case (single p)
    obtain k v where p: "p = (k, v)" by (cases p)
    have val: "parse_value (f v @ ''}'' @ r) = Some (v, ''}'' @ r)" "opens (f v)"
      using single by (simp_all add: p number_ends_def is_digit_def code_def)
    have body: "string_body (concat (map json_escape k) @ CHR 0x22 # CHR '':'' # u @ f v @ ''}'' @ r) = Some (k, CHR '':'' # u @ f v @ ''}'' @ r)"
      by (rule string_body_string)
    have "parse_members (json_string k @ ('':'' @ u) @ f v @ ''}'' @ r) = Some ([(k, v)], r)"
      using val body single.prems(2)
      by (simp add: parse_members.simps [of "CHR 0x22 # _"] json_string_def skip_separator skip_marks)
    then show ?case using opens_string by (simp add: p)
  next
    case (cons p d)
    obtain k v where p: "p = (k, v)" by (cases p)
    define rest where "rest = join_strings ('','' @ w) (map (\<lambda>(k, v). json_string k @ ('':'' @ u) @ f v) d) @ ''}'' @ r"
    have IH: "parse_members rest = Some (d, r)" "opens rest"
      using cons by (auto simp: rest_def)
    have join: "join_strings ('','' @ w) (map (\<lambda>(k, v). json_string k @ ('':'' @ u) @ f v) (p # d)) @ ''}'' @ r =
        json_string k @ ('':'' @ u) @ f v @ '','' @ w @ rest"
      using cons.hyps by (cases d) (simp_all add: rest_def p)
    have val: "parse_value (f v @ '','' @ w @ rest) = Some (v, '','' @ w @ rest)" "opens (f v)"
      using cons.prems by (simp_all add: p number_ends_def is_digit_def code_def)
    have skip: "skip_blanks ('','' @ w @ rest) = '','' @ w @ rest" "skip_blanks (w @ rest) = rest"
      using IH(2) cons.prems(1) by (simp_all add: skip_marks skip_separator)
    have body: "string_body (concat (map json_escape k) @ CHR 0x22 # CHR '':'' # u @ f v @ '','' @ w @ rest) =
        Some (k, CHR '':'' # u @ f v @ '','' @ w @ rest)"
      by (rule string_body_string)
    have "parse_members (json_string k @ ('':'' @ u) @ f v @ '','' @ w @ rest) = Some ((k, v) # d, r)"
      using val body skip IH(1) cons.prems(2)
      by (simp add: parse_members.simps [of "CHR 0x22 # _"] json_string_def skip_separator skip_marks)
    moreover have "opens (join_strings ('','' @ w) (map (\<lambda>(k, v). json_string k @ ('':'' @ u) @ f v) (p # d)))"
      using cons.hyps opens_string by (cases d) (simp_all add: p)
    ultimately show ?case unfolding join by (simp add: p)
  }
qed


lemma parse_value_dumps:
  assumes "blank w" "blank u"
  shows "plain v \<Longrightarrow> number_ends r \<Longrightarrow> parse_value (dumps fr ('','' @ w) ('':'' @ u) v @ r) = Some (v, r)"
proof (induction v arbitrary: r)
  case (PList vs)
  show ?case
  proof (cases "vs = []")
    case False
    have "parse_items (join_strings ('','' @ w) (map (dumps fr ('','' @ w) ('':'' @ u)) vs) @ '']'' @ r) = Some (vs, r) \<and>
        opens (join_strings ('','' @ w) (map (dumps fr ('','' @ w) ('':'' @ u)) vs))"
      using PList False by (intro parse_items_dumps [OF _ assms(1)]) (auto intro: dumps_opens)
    then show ?thesis by (simp add: parse_value.simps [of "CHR ''['' # _"] opens_def [of "_ @ _"]) (simp add: opens_def)
  qed (simp add: parse_value.simps [of "CHR ''['' # _"] skip_marks)
next
  case (PDict d)
  show ?case
  proof (cases "d = []")
    case False
    have "parse_members (join_strings ('','' @ w) (map (\<lambda>(k, v). json_string k @ ('':'' @ u) @ dumps fr ('','' @ w) ('':'' @ u) v) d) @ ''}'' @ r) =
          Some (d, r) \<and>
        opens (join_strings ('','' @ w) (map (\<lambda>(k, v). json_string k @ ('':'' @ u) @ dumps fr ('','' @ w) ('':'' @ u) v) d))"
      using PDict False by (intro parse_members_dumps [OF _ assms]) (force intro: dumps_opens)+
    then show ?thesis by (simp add: parse_value.simps [of "CHR ''{'' # _"] opens_def [of "_ @ _"]) (simp add: opens_def)
  qed (simp add: parse_value.simps [of "CHR ''{'' # _"] skip_marks)
next
  case (PInt n)
  have "parse_value (int_str n @ r) = parse_number (int_str n @ r)"
  proof -
    obtain c t where digits: "nat_str (nat \<bar>n\<bar>) = c # t" and "is_digit c"
      using nat_str_digits [of "nat \<bar>n\<bar>"] by (cases "nat_str (nat \<bar>n\<bar>)") simp_all
    then have "c \<noteq> CHR ''['' \<and> c \<noteq> CHR ''{'' \<and> c \<noteq> CHR 0x22 \<and> (\<forall>x \<in> set ''ntfNI-''. x \<noteq> c)"
      by (auto simp: is_digit_def code_def)
    then show ?thesis
      using digits by (cases "n < 0") (simp_all add: int_str_def parse_value.simps [of "_ # _"] parse_literal_def)
  qed
  then show ?case using parse_number_int [OF PInt.prems(2)] by simp
qed (simp_all add: parse_value.simps [of "_ # _"] parse_literal_def json_string_def string_body_string)

text \<open>Whatever blanks the separators have and follow the text.\<close>

lemma loads_dumps:
  assumes "blank w" "blank u" "plain v" "blank r"
  shows "loads (dumps fr ('','' @ w) ('':'' @ u) v @ r) = Some v"
proof -
  have "number_ends r" using assms(4) by (cases r) (auto simp: blank_def number_ends_def is_digit_def code_def)
  then have "parse_value (dumps fr ('','' @ w) ('':'' @ u) v @ r) = Some (v, r)" by (rule parse_value_dumps [OF assms(1-3)])
  moreover have "skip_blanks r = []" using skip_blanks_append [OF assms(4), of "[]"] by (simp add: skip_blanks_def)
  ultimately show ?thesis using dumps_opens [OF assms(3)] by (simp add: loads_def)
qed

section \<open>The parser consumes its input\<close>

text \<open>So that the comparisons of lengths in \<open>parse_items\<close> and \<open>parse_members\<close> always hold.\<close>

lemma number_parts_length:
  "length (snd (number_fraction s)) \<le> length s" "length (snd (number_exponent s)) \<le> length s"
proof -
  have tails: "length (dropWhile is_digit (tl s)) \<le> length s" "length (dropWhile is_digit (tl (tl s))) \<le> length s"
    using length_dropWhile_le [of is_digit "tl s"] length_dropWhile_le [of is_digit "tl (tl s)"] by simp_all
  show "length (snd (number_fraction s)) \<le> length s" "length (snd (number_exponent s)) \<le> length s"
    using tails by (simp_all add: number_fraction_def number_exponent_def Let_def)
qed

lemma parse_number_length:
  assumes "parse_number s = Some (v, r)"
  shows "length r < length s"
proof -
  define u where "u = (if s \<noteq> [] \<and> hd s = CHR ''-'' then tl s else s)"
  define whole where "whole = (let digits = takeWhile is_digit u in if digits \<noteq> [] \<and> hd digits = CHR ''0'' then ''0'' else digits)"
  have r: "takeWhile is_digit u \<noteq> []" "r = snd (number_exponent (snd (number_fraction (drop (length whole) u))))"
    using assms by (auto simp: parse_number_def u_def [symmetric] whole_def Let_def split: prod.splits if_splits)
  then have "whole \<noteq> []" "u \<noteq> []" by (auto simp: whole_def Let_def)
  then have "length (drop (length whole) u) < length u" by (cases whole; cases u) auto
  moreover have "length u \<le> length s" by (simp add: u_def)
  ultimately show ?thesis
    unfolding r(2) using number_parts_length(1) [of "drop (length whole) u"]
      number_parts_length(2) [of "snd (number_fraction (drop (length whole) u))"] by linarith
qed

lemma parse_literal_length: "parse_literal s = Some (v, r) \<Longrightarrow> length r < length s"
  using prefix_length_le [of _ s]
  by (fastforce simp: parse_literal_def dest: parse_number_length split: if_splits)

lemma parse_length:
  "parse_value s = Some (v, r) \<Longrightarrow> length r < length s"
  "parse_items s = Some (vs, r) \<Longrightarrow> length r < length s"
  "parse_members s = Some (d, r) \<Longrightarrow> length r < length s"
proof (induction s and s and s arbitrary: v r and vs r and d r rule: parse_value_parse_items_parse_members.induct)
  case (1 s)
  from "1.prems" obtain c t where s: "s = c # t" by (cases s) (simp_all add: parse_value.simps [of "[]"])
  have tail: "length (tl (skip_blanks t)) \<le> length t" using skip_blanks_length [of t] by simp
  note prem = "1.prems" [unfolded s parse_value.simps [of "c # t"] list.case]
  have members: "length r < length s" if "parse_members (skip_blanks t) = Some (d, r)" "c = CHR ''{''"
      "\<not> (skip_blanks t \<noteq> [] \<and> hd (skip_blanks t) = CHR ''}'')" for d
    using "1.IH"(2) [OF s _ _ that(2) refl that(3,1)] that(2) skip_blanks_length [of t] s by simp
  have items: "length r < length s" if "parse_items (skip_blanks t) = Some (vs, r)" "c = CHR ''[''"
      "\<not> (skip_blanks t \<noteq> [] \<and> hd (skip_blanks t) = CHR '']'')" for vs
    using "1.IH"(1) [OF s _ that(2) refl that(3,1)] that(2) skip_blanks_length [of t] s by simp
  show ?case
    using prem tail members items parse_literal_length [of "c # t" v r] string_body_length [of t _ r] s
    by (auto simp: Let_def split: if_splits)
next
  case (2 s)
  from "2.prems" obtain v q where v: "parse_value s = Some (v, q)"
    by (auto simp: parse_items.simps [of s] bind_eq_Some_conv)
  have q: "length q < length s" using "2.IH"(1) [OF v] .
  show ?case
  proof (cases "hd (skip_blanks q) = CHR '']''")
    case True
    then show ?thesis using "2.prems" v q skip_blanks_length [of q] by (auto simp: parse_items.simps [of s] Let_def split: if_splits)
  next
    case False
    then obtain vs' where "parse_items (skip_blanks (tl (skip_blanks q))) = Some (vs', r)" "skip_blanks q \<noteq> []"
        "hd (skip_blanks q) = CHR '',''" "length (skip_blanks q) \<le> length s"
      using "2.prems" v by (auto simp: parse_items.simps [of s] Let_def split: if_splits)
    then show ?thesis
      using "2.IH"(2) [OF v refl refl, of vs' r] skip_tl_less [of "skip_blanks q"] by auto
  qed
next
  case (3 s)
  from "3.prems" obtain u k q w p where s: "s = CHR 0x22 # u" and k: "string_body u = Some (k, q)"
    and colon: "skip_blanks q \<noteq> []" "hd (skip_blanks q) = CHR '':''"
    and w: "parse_value (skip_blanks (tl (skip_blanks q))) = Some (w, p)"
    by (cases s) (auto simp: parse_members.simps [of "_ # _"] parse_members.simps [of "[]"] bind_eq_Some_conv Let_def split: if_splits)
  note prem = "3.prems" [unfolded s parse_members.simps [of "CHR 0x22 # u"] list.case]
  have "length p < length (skip_blanks (tl (skip_blanks q)))" using "3.IH"(1) [OF s _ k refl refl _ w] colon by simp
  then have p: "length p < length s" using string_body_length [OF k] skip_blanks_length [of q] skip_tl_less [OF colon(1)] s by simp
  have more: "length r < length s" if "parse_members (skip_blanks (tl (skip_blanks p))) = Some (d', r)" "skip_blanks p \<noteq> []"
      "hd (skip_blanks p) = CHR '',''" "length (skip_blanks p) \<le> length s" for d'
    using "3.IH"(2) [OF s _ k refl refl _ w refl refl, of d' r] that colon skip_tl_less [OF that(2)] by simp
  show ?case
    using prem k colon w more p skip_blanks_length [of p] s by (auto simp: Let_def split: if_splits)
qed

end
