(* ===== verification/Bitcoin.thy ===== *)
theory Bitcoin
  imports Evidence Json
begin

text \<open>
  The verification of a proof against a Bitcoin Core node (\<open>bitcoin/rpc.py\<close>) and the contract \<open>sound_verifier\<close>
  of the verifiers. A verifier is an action on the number of requests it has made: the answer to a request depends on that
  number, so that the node may answer the same question differently at another time. The objects that \<open>json.loads\<close> returns
  are \<open>Json.pyval\<close>. \<open>Timestamp.all_attestations\<close> belongs to the third-party package and is the parameter
  \<open>all_attestations\<close>.
\<close>

section \<open>Byte strings\<close>

text \<open>\<open>int.to_bytes(k, "little")\<close> and \<open>int.from_bytes(bs, "little")\<close>.\<close>

definition le_bytes :: "nat \<Rightarrow> nat \<Rightarrow> bytes" where
  "le_bytes k n = map (\<lambda>i. word_of_nat (n div 256 ^ i)) [0..<k]"

definition le_value :: "bytes \<Rightarrow> nat" where
  "le_value bs = foldr (\<lambda>b acc. unat b + 256 * acc) bs 0"

definition fromtimestamp :: "int \<Rightarrow> datetime" where
  "fromtimestamp t = Aware (t * 1000000)"

lemma le_bytes_Suc: "le_bytes (Suc k) n = word_of_nat n # le_bytes k (n div 256)"
proof -
  have "[0..<Suc k] = 0 # map Suc [0..<k]" by (simp add: map_Suc_upt upt_conv_Cons del: upt_Suc)
  then show ?thesis by (simp add: le_bytes_def div_mult2_eq del: upt_Suc)
qed

lemma length_le_bytes [simp]: "length (le_bytes k n) = k"
  by (simp add: le_bytes_def)

lemma le_value_Cons [simp]: "le_value (b # bs) = unat b + 256 * le_value bs"
  by (simp add: le_value_def)

lemma le_value_le_bytes: "le_value (le_bytes k n) = n mod 256 ^ k"
proof (induction k arbitrary: n)
  case (Suc k)
  have "unat (word_of_nat n :: 8 word) = n mod 256" by (simp add: unat_of_nat take_bit_eq_mod)
  then show ?case by (simp add: le_bytes_Suc Suc mod_mult2_eq)
qed (simp add: le_value_def le_bytes_def)

section \<open>The contract of a verifier\<close>

text \<open>A block header commits to a message: the message is its Merkle root, and the block is named by the double
  SHA-256 of the header.\<close>

definition block_commits :: "(bytes \<Rightarrow> bytes) \<Rightarrow> bytes \<Rightarrow> bytes \<Rightarrow> datetime \<Rightarrow> string \<Rightarrow> bool" where
  "block_commits sha header message block_time block_hash \<longleftrightarrow>
     (\<exists>before time after. header = before @ message @ time @ after \<and> length message = 32 \<and> length time = 4 \<and> length after = 8 \<and>
        block_time = fromtimestamp (int (le_value time))) \<and>
     hex (rev (sha (sha header))) = block_hash"

text \<open>\<open>attested\<close> are the pairs of a message and a height that the proof claims.\<close>

definition sound_result :: "(bytes \<Rightarrow> bytes) \<Rightarrow> int \<Rightarrow> (bytes \<times> int) set \<Rightarrow> bitcoin_verification \<Rightarrow> bool" where
  "sound_result sha minimum attested v \<longleftrightarrow>
     (\<exists>message height block_hash block_time header n t. (message, height) \<in> attested \<and>
        block_commits sha header message block_time block_hash \<and> valid_block_hash block_hash \<and> 0 \<le> height \<and>
        bv_block_height v = Some height \<and> bv_block_hash v = Some block_hash \<and> bv_block_time v = Some block_time \<and>
        bv_verified_at v = Some t \<and> is_aware t \<and> bv_confirmations v = Some n \<and> minimum \<le> n \<and>
        1 \<le> length (bv_method v) \<and> length (bv_method v) \<le> 128 \<and>
        (\<exists>policy. bv_confirmation_policy v = Some policy \<and> policy \<noteq> [] \<and> length policy \<le> 128))"

locale sound_verifier =
  fixes verify :: "manifest_digest \<Rightarrow> bytes \<Rightarrow> (nat, bitcoin_verification) action"
    and sha :: "bytes \<Rightarrow> bytes" and minimum :: int and attested :: "manifest_digest \<Rightarrow> bytes \<Rightarrow> (bytes \<times> int) set"
  assumes configured: "verify digest proof_bytes s = (Inr v, s') \<Longrightarrow> 1 \<le> minimum"
    and sound: "verify digest proof_bytes s = (Inr v, s') \<Longrightarrow> bv_verified v \<Longrightarrow> sound_result sha minimum (attested digest proof_bytes) v"
    and constructed: "verify digest proof_bytes s = (Inr v, s') \<Longrightarrow> BitcoinVerification v = Inr v"
begin

text \<open>What the fulfillment handlers rely on: a verified result passes the validation of the adapter that stores it.\<close>

lemma verified_storable:
  assumes "verify digest proof_bytes s = (Inr v, s')" "bv_verified v"
  shows "validate_verified v = Inr ()" "validate_verification v = Inr ()"
  using sound [OF assms] assms(2) configured [OF assms(1)]
  by (auto simp: sound_result_def validate_verified_def validate_verification_def require_aware_def require_def block_commits_def
      fromtimestamp_def)

lemma unattested_not_verified:
  "attested digest proof_bytes = {} \<Longrightarrow> verify digest proof_bytes s = (Inr v, s') \<Longrightarrow> \<not> bv_verified v"
  using sound [of digest proof_bytes s v s'] by (auto simp: sound_result_def)

end

section \<open>Reading the answers of the node\<close>

definition MAX_RPC_RESPONSE_BYTES :: nat where "MAX_RPC_RESPONSE_BYTES = 1000000"
definition MAX_BITCOIN_ATTESTATIONS :: nat where "MAX_BITCOIN_ATTESTATIONS = 16"
definition MINIMUM_SYNC_PROGRESS :: rat where "MINIMUM_SYNC_PROGRESS = 8998192055486251 / 9007199254740992"

definition integer :: "pyval \<Rightarrow> string \<Rightarrow> int \<Rightarrow> int option \<Rightarrow> exn + int" where
  "integer value safe_code minimum maximum =
     (case value of
        PInt n \<Rightarrow>
          if n < minimum \<or> (case maximum of None \<Rightarrow> False | Some m \<Rightarrow> m < n)
          then Inl (BitcoinEvidenceInvalid safe_code) else Inr n
      | _ \<Rightarrow> Inl (BitcoinEvidenceInvalid safe_code))"

definition hash_hex :: "pyval \<Rightarrow> string \<Rightarrow> exn + string" where
  "hash_hex value safe_code =
     (case value of
        PStr s \<Rightarrow>
          if length s \<noteq> 64 \<or> str_lower s \<noteq> s \<or> fromhex s = None then Inl (BitcoinEvidenceInvalid safe_code) else Inr s
      | _ \<Rightarrow> Inl (BitcoinEvidenceInvalid safe_code))"

lemma integer_Inr: "integer value safe_code minimum maximum = Inr n \<longleftrightarrow>
    value = PInt n \<and> minimum \<le> n \<and> (\<forall>m. maximum = Some m \<longrightarrow> n \<le> m)"
  by (auto simp: integer_def split: pyval.splits option.splits)

lemma hash_hex_Inr: "hash_hex value safe_code = Inr s \<longleftrightarrow> value = PStr s \<and> valid_block_hash s"
  by (auto simp: hash_hex_def valid_block_hash_def split: pyval.splits)

lemma lower_hex_fixed: "list_all is_lower_hex s \<Longrightarrow> str_lower s = s"
  by (induction s) (auto simp: str_lower_def lower_char_def is_lower_hex_def is_digit_def is_upper_def)

lemma LOWER_SHA256_block_hash: "LOWER_SHA256 s \<Longrightarrow> valid_block_hash s"
  using hex_fromhex [of s] lower_hex_fixed [of s] by (auto simp: LOWER_SHA256_def match_class_def valid_block_hash_def)

text \<open>\<open>bytes.fromhex(s)[::-1]\<close> of a checked string.\<close>

definition reversed_hex :: "string \<Rightarrow> bytes" where
  "reversed_hex s = (case fromhex s of None \<Rightarrow> [] | Some bs \<Rightarrow> rev bs)"

definition hex_number :: "string \<Rightarrow> nat" where
  "hex_number s = foldl (\<lambda>acc c. 16 * acc + (case hex_value c of None \<Rightarrow> 0 | Some d \<Rightarrow> d)) 0 s"

definition serialize_header :: "(string \<times> pyval) list \<Rightarrow> int \<Rightarrow> exn + bytes \<times> bytes" where
  "serialize_header header height =
     bind_res (integer (dict_get header ''version'') ''bitcoin_block_header_malformed'' (- (2 ^ 31)) (Some (2 ^ 31 - 1))) (\<lambda>version.
     let previous = dict_get header ''previousblockhash'' in
     bind_res (if height = 0 \<and> previous = PNone then Inr (replicate 32 0)
               else bind_res (hash_hex previous ''bitcoin_block_header_malformed'') (\<lambda>s. Inr (reversed_hex s))) (\<lambda>previous_bytes.
     bind_res (hash_hex (dict_get header ''merkleroot'') ''bitcoin_block_header_malformed'') (\<lambda>root.
     bind_res (integer (dict_get header ''time'') ''bitcoin_block_header_malformed'' 0 (Some 0xFFFFFFFF)) (\<lambda>timestamp.
     bind_res (case dict_get header ''bits'' of
         PStr s \<Rightarrow>
           if length s \<noteq> 8 \<or> str_lower s \<noteq> s \<or> \<not> list_all is_lower_hex s
           then Inl (BitcoinEvidenceInvalid ''bitcoin_block_header_malformed'') else Inr (hex_number s)
       | _ \<Rightarrow> Inl (BitcoinEvidenceInvalid ''bitcoin_block_header_malformed'')) (\<lambda>bits.
     bind_res (integer (dict_get header ''nonce'') ''bitcoin_block_header_malformed'' 0 (Some 0xFFFFFFFF)) (\<lambda>nonce.
       Inr (le_bytes 4 (nat (version mod 2 ^ 32)) @ previous_bytes @ reversed_hex root @
            le_bytes 4 (nat timestamp) @ le_bytes 4 bits @ le_bytes 4 (nat nonce), reversed_hex root)))))))"

section \<open>BitcoinCoreRpcTransport\<close>

text \<open>
  What \<open>call\<close> makes of a response: its status, the chunks of its body, and what \<open>json.loads\<close> reads in the body.
  A transport error is an exception instead of a response.
\<close>

record rpc_response =
  rr_status :: int
  rr_chunks :: "bytes list"
  rr_decoded :: "pyval option"

fun read_chunks :: "nat \<Rightarrow> bytes \<Rightarrow> bytes list \<Rightarrow> exn + bytes" where
  "read_chunks limit body [] = Inr body"
| "read_chunks limit body (chunk # chunks) =
     (if limit < length (body @ chunk) then Inl (BitcoinEvidenceInvalid ''bitcoin_rpc_response_too_large'')
      else read_chunks limit (body @ chunk) chunks)"

definition is_transport_error :: "exn \<Rightarrow> bool" where
  "is_transport_error e \<longleftrightarrow> e \<in> {OtherException ''HTTPError'', OtherException ''OSError'', OtherException ''TimeoutError''}"

definition rpc_result :: "int \<Rightarrow> exn + rpc_response \<Rightarrow> exn + pyval" where
  "rpc_result request_id received =
     (case received of
        Inl e \<Rightarrow> if is_transport_error e then Inl (BitcoinVerifierUnavailable ''bitcoin_rpc_unavailable'') else Inl e
      | Inr response \<Rightarrow>
          bind_res (read_chunks MAX_RPC_RESPONSE_BYTES [] (rr_chunks response)) (\<lambda>_.
            case rr_decoded response of
              None \<Rightarrow>
                if 500 \<le> rr_status response then Inl (BitcoinVerifierUnavailable ''bitcoin_rpc_http_unavailable'')
                else Inl (BitcoinEvidenceInvalid ''bitcoin_rpc_response_malformed'')
            | Some (PDict decoded) \<Rightarrow>
                if \<not> equals_int (dict_get decoded ''id'') request_id
                then Inl (BitcoinEvidenceInvalid ''bitcoin_rpc_response_malformed'')
                else (case dict_get decoded ''error'' of
                    PNone \<Rightarrow>
                      if rr_status response \<noteq> 200 then Inl (BitcoinVerifierUnavailable ''bitcoin_rpc_http_unavailable'')
                      else if ''result'' \<notin> fst ` set decoded
                      then Inl (BitcoinEvidenceInvalid ''bitcoin_rpc_response_malformed'')
                      else Inr (dict_get decoded ''result'')
                  | PDict error \<Rightarrow>
                      (case (dict_get error ''code'', dict_get error ''message'') of
                         (PInt n, PStr message) \<Rightarrow>
                           if n \<in> {-28, -342} then Inl (BitcoinVerifierUnavailable ''bitcoin_rpc_not_ready'')
                           else Inl (BitcoinRpcResponseError n message)
                       | _ \<Rightarrow> Inl (BitcoinEvidenceInvalid ''bitcoin_rpc_response_malformed''))
                  | _ \<Rightarrow> Inl (BitcoinEvidenceInvalid ''bitcoin_rpc_response_malformed''))
            | Some _ \<Rightarrow> Inl (BitcoinEvidenceInvalid ''bitcoin_rpc_response_malformed'')))"

section \<open>BitcoinCoreRpcVerifier\<close>

type_synonym rpc = "nat \<Rightarrow> string \<Rightarrow> pyval list \<Rightarrow> exn + pyval"

definition call :: "rpc \<Rightarrow> string \<Rightarrow> pyval list \<Rightarrow> (nat, pyval) action" where
  "call rpc method_name params n =
     (case rpc n method_name params of
        Inr v \<Rightarrow> (Inr v, n + 1)
      | Inl e \<Rightarrow>
          (Inl (if e = OtherException ''OSError'' \<or> e = OtherException ''TimeoutError''
                then BitcoinVerifierUnavailable ''bitcoin_rpc_unavailable'' else e), n + 1))"

definition chain_call :: "rpc \<Rightarrow> string \<Rightarrow> pyval list \<Rightarrow> (nat, pyval) action" where
  "chain_call rpc method_name params =
     catch_act (call rpc method_name params) (\<lambda>e.
       case e of
         BitcoinRpcResponseError n message \<Rightarrow>
           if n \<in> {-5, -8} then raise_act (BitcoinVerifierUnavailable ''bitcoin_chain_race'') else raise_act e
       | _ \<Rightarrow> raise_act e)"

record chain_snapshot =
  cs_blocks :: int
  cs_best_block_hash :: string

record block_evidence =
  be_height :: int
  be_block_hash :: string
  be_block_time :: datetime
  be_confirmations :: int

text \<open>\<open>behind\<close> is \<open>progress < MINIMUM_SYNC_PROGRESS\<close>, which no NaN satisfies. \<open>MINIMUM_SYNC_PROGRESS\<close> is the
  double nearest to 0.999.\<close>

definition read_chain_info :: "pyval \<Rightarrow> exn + chain_snapshot" where
  "read_chain_info result =
     (case result of
        PDict info \<Rightarrow>
          if dict_get info ''chain'' \<noteq> PStr ''main'' then Inl (BitcoinEvidenceInvalid ''bitcoin_wrong_network'')
          else bind_res (integer (dict_get info ''blocks'') ''bitcoin_chain_info_malformed'' 0 None) (\<lambda>blocks.
               bind_res (integer (dict_get info ''headers'') ''bitcoin_chain_info_malformed'' 0 None) (\<lambda>headers.
               bind_res (hash_hex (dict_get info ''bestblockhash'') ''bitcoin_chain_info_malformed'') (\<lambda>best.
               bind_res (case dict_get info ''verificationprogress'' of
                   PInt n \<Rightarrow> Inr (of_int n < MINIMUM_SYNC_PROGRESS) | PFloat q \<Rightarrow> Inr (q < MINIMUM_SYNC_PROGRESS)
                 | PNaN \<Rightarrow> Inr False | PInfinity negative \<Rightarrow> Inr negative
                 | _ \<Rightarrow> Inl (BitcoinEvidenceInvalid ''bitcoin_chain_info_malformed'')) (\<lambda>behind.
                 if dict_get info ''initialblockdownload'' \<noteq> PBool False \<or> headers \<noteq> blocks \<or> behind
                 then Inl (BitcoinVerifierUnavailable ''bitcoin_node_unsynchronized'')
                 else Inr \<lparr>cs_blocks = blocks, cs_best_block_hash = best\<rparr>))))
      | _ \<Rightarrow> Inl (BitcoinEvidenceInvalid ''bitcoin_chain_info_malformed''))"

definition chain_snapshot :: "rpc \<Rightarrow> (nat, chain_snapshot) action" where
  "chain_snapshot rpc = bind_act (call rpc ''getblockchaininfo'' []) (\<lambda>result. lift_act (read_chain_info result))"

text \<open>The checks on the header of a block, before the block is asked for again.\<close>

definition check_header ::
  "(bytes \<Rightarrow> bytes) \<Rightarrow> bytes \<Rightarrow> int \<Rightarrow> chain_snapshot \<Rightarrow> string \<Rightarrow> (string \<times> pyval) list \<Rightarrow> exn + unit" where
  "check_header sha message height snapshot canonical_hash header =
     bind_res (integer (dict_get header ''height'') ''bitcoin_block_header_malformed'' 0 None) (\<lambda>h.
     if h \<noteq> height then Inl (BitcoinEvidenceInvalid ''bitcoin_block_height_mismatch'')
     else bind_res (hash_hex (dict_get header ''hash'') ''bitcoin_block_header_malformed'') (\<lambda>hash.
     if hash \<noteq> canonical_hash then Inl (BitcoinEvidenceInvalid ''bitcoin_block_hash_mismatch'')
     else bind_res (integer (dict_get header ''confirmations'') ''bitcoin_block_header_malformed'' (- 1) None) (\<lambda>confirmations.
     if confirmations < 0 then Inl (BitcoinVerifierUnavailable ''bitcoin_chain_race'')
     else if confirmations \<noteq> cs_blocks snapshot - height + 1
     then Inl (BitcoinVerifierUnavailable ''bitcoin_confirmation_snapshot_mismatch'')
     else bind_res (serialize_header header height) (\<lambda>(raw_header, merkle_root).
     if hex (rev (sha (sha raw_header))) \<noteq> canonical_hash
     then Inl (BitcoinEvidenceInvalid ''bitcoin_block_header_hash_mismatch'')
     else if message \<noteq> merkle_root then Inl (BitcoinEvidenceInvalid ''bitcoin_attestation_merkle_mismatch'')
     else Inr ()))))"

definition attestation_evidence ::
  "(bytes \<Rightarrow> bytes) \<Rightarrow> rpc \<Rightarrow> bytes \<Rightarrow> int \<Rightarrow> chain_snapshot \<Rightarrow> (nat, block_evidence) action" where
  "attestation_evidence sha rpc message height snapshot =
     (if length message \<noteq> 32 \<or> height < 0 then raise_act (BitcoinEvidenceInvalid ''bitcoin_attestation_malformed'')
      else bind_act (chain_call rpc ''getblockhash'' [PInt height]) (\<lambda>answer.
        bind_act (lift_act (hash_hex answer ''bitcoin_block_hash_malformed'')) (\<lambda>canonical_hash.
        bind_act (chain_call rpc ''getblockheader'' [PStr canonical_hash, PBool True]) (\<lambda>received.
        bind_act (lift_act (case received of PDict header \<Rightarrow> Inr header
            | _ \<Rightarrow> Inl (BitcoinEvidenceInvalid ''bitcoin_block_header_malformed''))) (\<lambda>header.
        bind_act (lift_act (check_header sha message height snapshot canonical_hash header)) (\<lambda>_.
        bind_act (chain_call rpc ''getblockhash'' [PInt height]) (\<lambda>again.
        bind_act (lift_act (hash_hex again ''bitcoin_block_hash_malformed'')) (\<lambda>canonical_recheck.
          if canonical_recheck \<noteq> canonical_hash then raise_act (BitcoinVerifierUnavailable ''bitcoin_chain_race'')
          else bind_act (lift_act (integer (dict_get header ''time'') ''bitcoin_block_header_malformed'' 0 (Some 0xFFFFFFFF))) (\<lambda>timestamp.
            return_act \<lparr>be_height = height, be_block_hash = canonical_hash, be_block_time = fromtimestamp timestamp,
              be_confirmations = cs_blocks snapshot - height + 1\<rparr>)))))))))"

text \<open>The loop over the attestations: the evidence and the confirmations of the pending ones, in order.\<close>

fun collect_evidence ::
  "(bytes \<Rightarrow> bytes) \<Rightarrow> rpc \<Rightarrow> int \<Rightarrow> chain_snapshot \<Rightarrow> (bytes \<times> int) list \<Rightarrow> block_evidence list \<Rightarrow> int list
     \<Rightarrow> (nat, block_evidence list \<times> int list) action" where
  "collect_evidence sha rpc minimum snapshot [] evidence pending = return_act (evidence, pending)"
| "collect_evidence sha rpc minimum snapshot ((message, height) # rest) evidence pending =
     (if cs_blocks snapshot < height then collect_evidence sha rpc minimum snapshot rest evidence (pending @ [0])
      else bind_act (attestation_evidence sha rpc message height snapshot) (\<lambda>block.
        if be_confirmations block < minimum
        then collect_evidence sha rpc minimum snapshot rest evidence (pending @ [be_confirmations block])
        else collect_evidence sha rpc minimum snapshot rest (evidence @ [block]) pending))"

text \<open>\<open>max(items, key=key)\<close>: the first item with the greatest key.\<close>

fun max_by :: "('a \<Rightarrow> 'k::linorder) \<Rightarrow> 'a \<Rightarrow> 'a list \<Rightarrow> 'a" where
  "max_by key best [] = best"
| "max_by key best (x # xs) = max_by key (if key best < key x then x else best) xs"

definition bitcoin_attestations :: "(bytes \<times> attestation) list \<Rightarrow> (bytes \<times> int) list" where
  "bitcoin_attestations atts =
     remdups (concat (map (\<lambda>(message, a). case a of BitcoinBlockHeaderAttestation height \<Rightarrow> [(message, height)] | _ \<Rightarrow> []) atts))"

definition no_evidence_result :: "string \<Rightarrow> int option \<Rightarrow> exn + bitcoin_verification" where
  "no_evidence_result method_name confirmations = BitcoinVerification (unverified method_name confirmations)"

definition rpc_verify_exact_digest ::
  "ots_library \<Rightarrow> (timestamp \<Rightarrow> (bytes \<times> attestation) list) \<Rightarrow> rpc \<Rightarrow> int \<Rightarrow> datetime \<Rightarrow> manifest_digest \<Rightarrow> bytes
     \<Rightarrow> (nat, bitcoin_verification) action" where
  "rpc_verify_exact_digest lib all_attestations rpc minimum clock digest proof_bytes =
     bind_act (lift_act (deserialize_exact_proof (ots_sha256 lib) (ots_apply lib) (ots_parse lib) digest proof_bytes None)) (\<lambda>parsed.
     let attestations = bitcoin_attestations (all_attestations (df_timestamp (pp_detached parsed))) in
     if attestations = [] then lift_act (no_evidence_result ''bitcoin-core-no-attestation'' None)
     else if MAX_BITCOIN_ATTESTATIONS < length attestations
     then raise_act (BitcoinEvidenceInvalid ''bitcoin_attestation_limit_exceeded'')
     else bind_act (chain_snapshot rpc) (\<lambda>snapshot.
       bind_act (collect_evidence (ots_sha256 lib) rpc minimum snapshot
           (sort_key (\<lambda>(message, height). (height, map unat message)) attestations) [] []) (\<lambda>(evidence, pending).
       bind_act (chain_snapshot rpc) (\<lambda>final_snapshot.
         if final_snapshot \<noteq> snapshot then raise_act (BitcoinVerifierUnavailable ''bitcoin_chain_tip_changed'')
         else case evidence of
             [] \<Rightarrow> lift_act (no_evidence_result ''bitcoin-core-confirmation-pending''
                     (Some (case pending of [] \<Rightarrow> 0 | n # ns \<Rightarrow> max_by id n ns)))
           | e # es \<Rightarrow>
               let strongest = max_by (\<lambda>b. (be_confirmations b, - be_height b, be_block_hash b)) e es
               in if \<not> is_aware clock then raise_act (BitcoinEvidenceInvalid ''bitcoin_verifier_clock_invalid'')
                  else lift_act (BitcoinVerification
                    \<lparr>bv_verified = True, bv_method = ''bitcoin-core-rpc-exact-digest'', bv_verified_at = Some (aware clock),
                     bv_block_height = Some (be_height strongest), bv_block_hash = Some (be_block_hash strongest),
                     bv_block_time = Some (be_block_time strongest),
                     bv_confirmation_policy = Some (''bitcoin-core-mainnet-canonical-min-'' @ int_str minimum),
                     bv_confirmations = Some (be_confirmations strongest)\<rparr>)))))"

definition BitcoinCoreRpcVerifier :: "int \<Rightarrow> exn + int" where
  "BitcoinCoreRpcVerifier minimum_confirmations =
     (if \<not> (1 \<le> minimum_confirmations \<and> minimum_confirmations \<le> 100)
      then Inl (ValueError ''bitcoin_confirmation_threshold_invalid'') else Inr minimum_confirmations)"

section \<open>The node's verifier is sound\<close>

lemma bind_act_Inr: "bind_act m k s = (Inr y, u) \<longleftrightarrow> (\<exists>x t. m s = (Inr x, t) \<and> k x t = (Inr y, u))"
  by (auto simp: bind_act_def split: prod.splits sum.splits)

lemma serialize_header_Inr:
  assumes "serialize_header header height = Inr (raw, merkle)"
  obtains before t after where "raw = before @ merkle @ le_bytes 4 (nat t) @ after" "length after = 8"
    "dict_get header ''time'' = PInt t" "0 \<le> t" "t \<le> 0xFFFFFFFF"
proof -
  from assms obtain version previous t bits nonce where t: "dict_get header ''time'' = PInt t" "0 \<le> t" "t \<le> 0xFFFFFFFF"
    and raw: "raw = (le_bytes 4 (nat (version mod 2 ^ 32)) @ previous) @ merkle @ le_bytes 4 (nat t) @ (le_bytes 4 bits @ le_bytes 4 (nat nonce))"
    unfolding serialize_header_def Let_def by (auto simp: bind_res_Inr_iff integer_Inr)
  show thesis by (rule that [OF raw _ t]) simp
qed

lemma check_header_Inr:
  assumes "check_header sha message height snapshot canonical_hash header = Inr ()" "length message = 32"
    and time: "dict_get header ''time'' = PInt t"
  obtains raw where "block_commits sha raw message (fromtimestamp t) canonical_hash"
proof -
  from assms(1) obtain raw where raw: "serialize_header header height = Inr (raw, message)"
    and hash: "hex (rev (sha (sha raw))) = canonical_hash"
    by (auto simp: check_header_def bind_res_Inr_iff split: if_splits)
  from raw obtain before t' after where parts: "raw = before @ message @ le_bytes 4 (nat t') @ after" "length after = 8"
    "dict_get header ''time'' = PInt t'" "0 \<le> t'" "t' \<le> 0xFFFFFFFF" by (rule serialize_header_Inr)
  have "le_value (le_bytes 4 (nat t')) = nat t'" using parts(4,5) by (simp add: le_value_le_bytes nat_less_iff)
  then have "block_commits sha raw message (fromtimestamp t) canonical_hash"
    unfolding block_commits_def using parts assms(2) time hash
    by (intro conjI exI [of _ before] exI [of _ "le_bytes 4 (nat t')"] exI [of _ after]) simp_all
  then show thesis by (rule that)
qed

definition evidence_ok :: "(bytes \<Rightarrow> bytes) \<Rightarrow> chain_snapshot \<Rightarrow> (bytes \<times> int) set \<Rightarrow> block_evidence \<Rightarrow> bool" where
  "evidence_ok sha snapshot attested b \<longleftrightarrow> (\<exists>message header. (message, be_height b) \<in> attested \<and>
     block_commits sha header message (be_block_time b) (be_block_hash b) \<and> valid_block_hash (be_block_hash b) \<and>
     0 \<le> be_height b \<and> be_confirmations b = cs_blocks snapshot - be_height b + 1)"

lemma attestation_evidence_ok:
  assumes "attestation_evidence sha rpc message height snapshot n = (Inr b, n')" "(message, height) \<in> attested"
  shows "evidence_ok sha snapshot attested b" "be_height b = height"
proof -
  have ok: "length message = 32" "0 \<le> height" using assms(1) by (auto simp: attestation_evidence_def split: if_splits)
  from assms(1) ok obtain answer n1 canonical_hash received n2 header again n3 t where
    hash: "hash_hex answer ''bitcoin_block_hash_malformed'' = Inr canonical_hash"
    and checked: "check_header sha message height snapshot canonical_hash header = Inr ()"
    and time: "integer (dict_get header ''time'') ''bitcoin_block_header_malformed'' 0 (Some 0xFFFFFFFF) = Inr t"
    and b: "b = \<lparr>be_height = height, be_block_hash = canonical_hash, be_block_time = fromtimestamp t,
      be_confirmations = cs_blocks snapshot - height + 1\<rparr>"
    by (auto simp: attestation_evidence_def bind_act_Inr split: if_splits)
  obtain raw where "block_commits sha raw message (fromtimestamp t) canonical_hash"
    using check_header_Inr [OF checked ok(1)] time by (auto simp: integer_Inr)
  then show "evidence_ok sha snapshot attested b" "be_height b = height"
    using assms(2) ok(2) hash b by (auto simp: evidence_ok_def hash_hex_Inr)
qed

lemma collect_evidence_ok:
  assumes "collect_evidence sha rpc minimum snapshot items evidence pending n = (Inr (evidence', pending'), n')"
    and "set items \<subseteq> attested" "\<forall>b \<in> set evidence. evidence_ok sha snapshot attested b \<and> minimum \<le> be_confirmations b"
    and "\<forall>k \<in> set pending. 0 \<le> k"
  shows "(\<forall>b \<in> set evidence'. evidence_ok sha snapshot attested b \<and> minimum \<le> be_confirmations b) \<and> (\<forall>k \<in> set pending'. 0 \<le> k)"
  using assms
proof (induction items arbitrary: evidence pending n)
  case (Cons item items)
  obtain message height where item: "item = (message, height)" by (cases item)
  show ?case
  proof (cases "cs_blocks snapshot < height")
    case True
    then have rest: "collect_evidence sha rpc minimum snapshot items evidence (pending @ [0]) n = (Inr (evidence', pending'), n')"
      using Cons.prems(1) by (simp add: item)
    show ?thesis using Cons.prems(2-4) by (intro Cons.IH [OF rest]) simp_all
  next
    case False
    with Cons.prems(1) obtain block n1 where block: "attestation_evidence sha rpc message height snapshot n = (Inr block, n1)"
      and rest: "(if be_confirmations block < minimum
        then collect_evidence sha rpc minimum snapshot items evidence (pending @ [be_confirmations block])
        else collect_evidence sha rpc minimum snapshot items (evidence @ [block]) pending) n1 = (Inr (evidence', pending'), n')"
      by (auto simp: item bind_act_Inr)
    have ok: "evidence_ok sha snapshot attested block"
      using attestation_evidence_ok(1) [OF block] Cons.prems(2) item by auto
    have "be_height block = height" using attestation_evidence_ok(2) [OF block] Cons.prems(2) item by auto
    then have "0 \<le> be_confirmations block" using ok False by (auto simp: evidence_ok_def)
    then show ?thesis
    proof (cases "be_confirmations block < minimum")
      case True
      with rest have more: "collect_evidence sha rpc minimum snapshot items evidence (pending @ [be_confirmations block]) n1 =
          (Inr (evidence', pending'), n')" by simp
      show ?thesis using Cons.prems(2-4) \<open>0 \<le> be_confirmations block\<close> by (intro Cons.IH [OF more]) simp_all
    next
      case False
      with rest have more: "collect_evidence sha rpc minimum snapshot items (evidence @ [block]) pending n1 =
          (Inr (evidence', pending'), n')" by simp
      show ?thesis using Cons.prems(2-4) ok False by (intro Cons.IH [OF more]) auto
    qed
  qed
qed simp

lemma max_by_in: "max_by key x xs \<in> insert x (set xs)"
  by (induction xs arbitrary: x) (auto split: if_splits)

definition attested_by ::
  "ots_library \<Rightarrow> (timestamp \<Rightarrow> (bytes \<times> attestation) list) \<Rightarrow> manifest_digest \<Rightarrow> bytes \<Rightarrow> (bytes \<times> int) set" where
  "attested_by lib all_attestations digest proof_bytes =
     {(message, height). \<exists>parsed. deserialize_exact_proof (ots_sha256 lib) (ots_apply lib) (ots_parse lib) digest proof_bytes None =
        Inr parsed \<and> (message, BitcoinBlockHeaderAttestation height) \<in> set (all_attestations (df_timestamp (pp_detached parsed)))}"

lemma set_bitcoin_attestations:
  "set (bitcoin_attestations atts) = {(message, height). (message, BitcoinBlockHeaderAttestation height) \<in> set atts}"
  by (force simp: bitcoin_attestations_def split: attestation.splits)

lemma rpc_verify_cases:
  assumes "rpc_verify_exact_digest lib all_attestations rpc minimum clock digest proof_bytes n = (Inr v, n')" "1 \<le> minimum"
  obtains (unverified) "\<not> bv_verified v" "BitcoinVerification v = Inr v"
  | (verified) snapshot b where "bv_verified v" "evidence_ok (ots_sha256 lib) snapshot (attested_by lib all_attestations digest proof_bytes) b"
    "minimum \<le> be_confirmations b" "is_aware clock"
    "v = \<lparr>bv_verified = True, bv_method = ''bitcoin-core-rpc-exact-digest'', bv_verified_at = Some (aware clock),
       bv_block_height = Some (be_height b), bv_block_hash = Some (be_block_hash b), bv_block_time = Some (be_block_time b),
       bv_confirmation_policy = Some (''bitcoin-core-mainnet-canonical-min-'' @ int_str minimum),
       bv_confirmations = Some (be_confirmations b)\<rparr>"
proof -
  have same: "\<not> bv_verified v \<and> BitcoinVerification v = Inr v" if "no_evidence_result m c = Inr v" for m c
    using that by (auto simp: no_evidence_result_def BitcoinVerification_Inr unverified_def)
  from assms(1) obtain parsed where parsed: "deserialize_exact_proof (ots_sha256 lib) (ots_apply lib) (ots_parse lib) digest proof_bytes None = Inr parsed"
    by (auto simp: rpc_verify_exact_digest_def bind_act_Inr)
  define atts where "atts = bitcoin_attestations (all_attestations (df_timestamp (pp_detached parsed)))"
  have attested: "set atts = attested_by lib all_attestations digest proof_bytes"
    by (auto simp: atts_def set_bitcoin_attestations attested_by_def parsed)
  show thesis
  proof (cases "atts = []")
    case True
    then show ?thesis
      using assms(1) parsed same unverified by (auto simp: rpc_verify_exact_digest_def bind_act_Inr atts_def)
  next
    case False
    then obtain snapshot n1 evidence pending n2 where
      collected: "collect_evidence (ots_sha256 lib) rpc minimum snapshot
        (sort_key (\<lambda>(message, height). (height, map unat message)) atts) [] [] n1 = (Inr (evidence, pending), n2)"
      and result: "(case evidence of
             [] \<Rightarrow> lift_act (no_evidence_result ''bitcoin-core-confirmation-pending''
                     (Some (case pending of [] \<Rightarrow> 0 | n # ns \<Rightarrow> max_by id n ns)))
           | e # es \<Rightarrow>
               let strongest = max_by (\<lambda>b. (be_confirmations b, - be_height b, be_block_hash b)) e es
               in if \<not> is_aware clock then raise_act (BitcoinEvidenceInvalid ''bitcoin_verifier_clock_invalid'')
                  else lift_act (BitcoinVerification
                    \<lparr>bv_verified = True, bv_method = ''bitcoin-core-rpc-exact-digest'', bv_verified_at = Some (aware clock),
                     bv_block_height = Some (be_height strongest), bv_block_hash = Some (be_block_hash strongest),
                     bv_block_time = Some (be_block_time strongest),
                     bv_confirmation_policy = Some (''bitcoin-core-mainnet-canonical-min-'' @ int_str minimum),
                     bv_confirmations = Some (be_confirmations strongest)\<rparr>)) n' = (Inr v, n')"
      using assms(1) parsed unfolding rpc_verify_exact_digest_def Let_def atts_def [symmetric]
      by (auto simp: bind_act_Inr atts_def [symmetric] split: if_splits list.splits prod.splits)
    have ok: "\<forall>b \<in> set evidence. evidence_ok (ots_sha256 lib) snapshot (attested_by lib all_attestations digest proof_bytes) b \<and>
        minimum \<le> be_confirmations b"
      using collect_evidence_ok [OF collected, of "attested_by lib all_attestations digest proof_bytes"] attested by simp
    show ?thesis
    proof (cases evidence)
      case Nil
      then show ?thesis using result same unverified by auto
    next
      case (Cons e es)
      define b where "b = max_by (\<lambda>b. (be_confirmations b, - be_height b, be_block_hash b)) e es"
      have "b \<in> set evidence" using max_by_in [of _ e es] by (auto simp: b_def Cons)
      then show ?thesis
        using ok result verified [of snapshot b] assms(2)
        by (auto simp: Cons Let_def b_def [symmetric] BitcoinVerification_Inr split: if_splits)
    qed
  qed
qed

text \<open>The verifier as it is constructed and called.\<close>

definition rpc_verifier ::
  "ots_library \<Rightarrow> (timestamp \<Rightarrow> (bytes \<times> attestation) list) \<Rightarrow> rpc \<Rightarrow> int \<Rightarrow> datetime \<Rightarrow> manifest_digest \<Rightarrow> bytes
     \<Rightarrow> (nat, bitcoin_verification) action" where
  "rpc_verifier lib all_attestations rpc minimum clock digest proof_bytes =
     bind_act (lift_act (BitcoinCoreRpcVerifier minimum)) (\<lambda>m.
       rpc_verify_exact_digest lib all_attestations rpc m clock digest proof_bytes)"

lemma short_int_str: "1 \<le> n \<Longrightarrow> n \<le> 100 \<Longrightarrow> length (int_str n) \<le> 3"
  using nat_str_length_le [of "nat n" 3] by (simp add: int_str_def)

lemma rpc_verifier_Inr:
  assumes "rpc_verifier lib all_attestations rpc minimum clock digest proof_bytes n = (Inr v, n')"
  shows "1 \<le> minimum" "minimum \<le> 100" "BitcoinVerification v = Inr v"
    "bv_verified v \<Longrightarrow> sound_result (ots_sha256 lib) minimum (attested_by lib all_attestations digest proof_bytes) v"
proof -
  have m: "1 \<le> minimum" "minimum \<le> 100"
    and run: "rpc_verify_exact_digest lib all_attestations rpc minimum clock digest proof_bytes n = (Inr v, n')"
    using assms by (auto simp: rpc_verifier_def bind_act_Inr BitcoinCoreRpcVerifier_def split: if_splits)
  show "1 \<le> minimum" "minimum \<le> 100" using m by simp_all
  from run m(1) have "BitcoinVerification v = Inr v \<and>
      (bv_verified v \<longrightarrow> sound_result (ots_sha256 lib) minimum (attested_by lib all_attestations digest proof_bytes) v)"
  proof (cases rule: rpc_verify_cases)
    case (verified snapshot b)
    then show ?thesis
      using m short_int_str [OF m] by (auto simp: BitcoinVerification_Inr sound_result_def evidence_ok_def)
  qed simp
  then show "BitcoinVerification v = Inr v"
    "bv_verified v \<Longrightarrow> sound_result (ots_sha256 lib) minimum (attested_by lib all_attestations digest proof_bytes) v" by simp_all
qed

interpretation rpc_sound: sound_verifier "rpc_verifier lib all_attestations rpc minimum clock" "ots_sha256 lib" minimum
  "attested_by lib all_attestations"
  by unfold_locales (auto dest: rpc_verifier_Inr)


section \<open>Properties\<close>

text \<open>C12. A verified result of the Bitcoin Core verifier is sound, whatever the node answers and however its answers change
  between the requests: the proof claims a message at the height of the result, there is a block header that commits to that
  message and whose double SHA-256 is the block hash of the result, the confirmations reach the configured threshold of
  1 to 100, and the result passes the validation of the store. The hashes and the heights of the result are never the node's
  word alone.\<close>

theorem rpc_verified_sound:
  assumes "rpc_verifier lib all_attestations rpc minimum clock digest proof_bytes n = (Inr v, n')" "bv_verified v"
  shows "1 \<le> minimum \<and> minimum \<le> 100 \<and>
    sound_result (ots_sha256 lib) minimum (attested_by lib all_attestations digest proof_bytes) v \<and>
    validate_verification v = Inr ()"
  using rpc_verifier_Inr(1,2) [OF assms(1)] rpc_sound.sound [OF assms] rpc_sound.verified_storable(2) [OF assms] by simp

text \<open>A concrete node, proof and hash function: one attestation at height 3 of a chain of 6 blocks.\<close>

definition sample_attestations :: "timestamp \<Rightarrow> (bytes \<times> attestation) list" where
  "sample_attestations t = map (Pair (ts_msg t)) (ts_attestations t)"

definition sample_library :: "int \<Rightarrow> ots_library" where
  "sample_library height = \<lparr>ots_sha256 = \<lambda>_. replicate 32 0, ots_apply = \<lambda>_ b. b,
     ots_parse = \<lambda>_. Some \<lparr>df_file_hash_op = OpSHA256, df_file_digest = replicate 32 0,
       df_timestamp = Timestamp (replicate 32 0) [BitcoinBlockHeaderAttestation height] []\<rparr>\<rparr>"

definition sample_rpc :: rpc where
  "sample_rpc n method_name params =
     (let zeros = replicate 64 (CHR ''0'') in
      if method_name = ''getblockchaininfo''
      then Inr (PDict [(''chain'', PStr ''main''), (''blocks'', PInt 6), (''headers'', PInt 6), (''bestblockhash'', PStr zeros),
             (''verificationprogress'', PFloat 1), (''initialblockdownload'', PBool False)])
      else if method_name = ''getblockhash'' then Inr (PStr zeros)
      else Inr (PDict [(''height'', PInt 3), (''hash'', PStr zeros), (''confirmations'', PInt 4), (''version'', PInt 1),
             (''previousblockhash'', PStr zeros), (''merkleroot'', PStr zeros), (''time'', PInt 9), (''bits'', PStr ''1d00ffff''),
             (''nonce'', PInt 0)]))"

definition sample_zeros :: manifest_digest where "sample_zeros = replicate 32 0"

definition sample_hash :: string where "sample_hash = replicate 64 (CHR ''0'')"

lemma hex_zeros: "hex (replicate n 0) = replicate (2 * n) (CHR ''0'')"
proof -
  have "char_of (48 :: nat) = CHR ''0''" by code_simp
  then show ?thesis by (induction n) (simp_all add: hex_def hex_digit_def)
qed

lemma sample_hash_hex [simp]: "hex (replicate 32 0) = sample_hash"
  by (simp add: hex_zeros sample_hash_def)

lemma sample_hash_valid [simp]: "hash_hex (PStr sample_hash) safe_code = Inr sample_hash"
proof -
  have "LOWER_SHA256 sample_hash"
    using hex_lower_hex [of "replicate 32 0"] length_hex [of "replicate 32 0"] by (simp add: LOWER_SHA256_def match_class_def)
  then show ?thesis by (simp add: hash_hex_Inr LOWER_SHA256_block_hash)
qed

lemma sample_hash_reversed [simp]: "reversed_hex sample_hash = replicate 32 0"
  using fromhex_hex [of "replicate 32 0"] by (simp add: reversed_hex_def)

lemma sample_proof_parsed [simp]:
  "deserialize_exact_proof (\<lambda>_. replicate 32 0) (ots_apply (sample_library h)) (ots_parse (sample_library h)) sample_zeros [1] None =
     Inr \<lparr>pp_detached = \<lparr>df_file_hash_op = OpSHA256, df_file_digest = replicate 32 0,
       df_timestamp = Timestamp (replicate 32 0) [BitcoinBlockHeaderAttestation h] []\<rparr>, pp_node_count = 1, pp_operation_count = 0,
       pp_attestation_count = 1, pp_pending_attestation_count = 0\<rparr>"
  by (simp add: deserialize_exact_proof_def sample_library_def MAX_PROOF_BYTES_def sample_zeros_def validate_timestamp_tree_def
      ots_target_def MAX_ATTESTATIONS_def MAX_TIMESTAMP_NODES_def)

definition sample_rpc_result :: bitcoin_verification where
  "sample_rpc_result = \<lparr>bv_verified = True, bv_method = ''bitcoin-core-rpc-exact-digest'', bv_verified_at = Some (Aware 7),
     bv_block_height = Some 3, bv_block_hash = Some sample_hash, bv_block_time = Some (Aware 9000000),
     bv_confirmation_policy = Some ''bitcoin-core-mainnet-canonical-min-2'', bv_confirmations = Some 4\<rparr>"

lemma sample_chain [simp]: "chain_snapshot sample_rpc n = (Inr \<lparr>cs_blocks = 6, cs_best_block_hash = sample_hash\<rparr>, n + 1)"
  by (simp add: chain_snapshot_def bind_act_def call_def sample_rpc_def sample_hash_def [symmetric] read_chain_info_def dict_get_def integer_def
    lift_act_def MINIMUM_SYNC_PROGRESS_def)

lemma sample_evidence [simp]: "attestation_evidence (\<lambda>_. replicate 32 0) sample_rpc (replicate 32 0) 3 \<lparr>cs_blocks = 6, cs_best_block_hash = sample_hash\<rparr> n =
   (Inr \<lparr>be_height = 3, be_block_hash = sample_hash, be_block_time = Aware 9000000, be_confirmations = 4\<rparr>, n + 3)"
  by (simp add: attestation_evidence_def chain_call_def bind_act_def catch_act_def call_def sample_rpc_def sample_hash_def [symmetric] dict_get_def integer_def
    lift_act_def check_header_def serialize_header_def fromtimestamp_def return_act_def is_lower_hex_def is_digit_def code_def str_lower_def lower_char_def is_upper_def)

lemma sample_library_sha [simp]: "ots_sha256 (sample_library h) = (\<lambda>_. replicate 32 0)"
  by (simp add: sample_library_def)

lemma sample_rpc_run: "rpc_verifier (sample_library 3) sample_attestations sample_rpc 2 (Aware 7) sample_zeros [1] 0 = (Inr sample_rpc_result, 5)"
proof -
  have two: "int_str 2 = ''2''" by code_simp
  show ?thesis
    by (simp add: rpc_verifier_def rpc_verify_exact_digest_def BitcoinCoreRpcVerifier_def bind_act_def lift_act_def sample_attestations_def
        bitcoin_attestations_def MAX_BITCOIN_ATTESTATIONS_def return_act_def two BitcoinVerification_def sample_rpc_result_def
        aware_def Let_def metadata_present_def)
qed

theorem rpc_verified_sound_witness:
  "bv_verified sample_rpc_result \<and>
   sound_result (ots_sha256 (sample_library 3)) 2 (attested_by (sample_library 3) sample_attestations sample_zeros [1]) sample_rpc_result"
  using rpc_verified_sound [OF sample_rpc_run] by (simp add: sample_rpc_result_def)

end
