(* ===== verification/Esplora.thy ===== *)
theory Esplora
  imports Bitcoin
begin

unbundle bit_operations_syntax

text \<open>
  The verification of a proof against two Esplora servers (\<open>bitcoin/esplora.py\<close>): the bounded reading of a response,
  the 2-of-2 quorum on a block, the check of the block header with its proof of work, and the search for a block that commits
  to the proof. The answers of the servers are a function of the round, the server and the path, where a round is one
  \<open>asyncio.gather\<close> over the servers. The check of the configured URLs, the resolution of host names and the time limits
  are not modelled: a time-out is an exception of the transport. \<open>json.loads\<close> is the parameter \<open>decode\<close>.
\<close>

section \<open>Constants\<close>

definition ESPLORA_RESPONSE_LIMIT :: nat where "ESPLORA_RESPONSE_LIMIT = 4096"
definition MAX_BITCOIN_CANDIDATES :: nat where "MAX_BITCOIN_CANDIDATES = 16"
definition MAX_PROVIDER_TIP_SKEW :: int where "MAX_PROVIDER_TIP_SKEW = 2"
definition MAX_BLOCK_HEIGHT :: int where "MAX_BLOCK_HEIGHT = 2147483647"
definition MAINNET_POW_LIMIT :: int where "MAINNET_POW_LIMIT = push_bit (8 * (0x1D - 3)) 0xFFFF"
definition MAINNET_GENESIS_HASH :: string where
  "MAINNET_GENESIS_HASH = ''000000000019d6689c085ae165831e934ff763ae46a2a6c172b3f1b60a8ce26f''"

definition UNSIGNED_DECIMAL :: "string \<Rightarrow> bool" where
  "UNSIGNED_DECIMAL s \<longleftrightarrow> s = ''0'' \<or> (s \<noteq> [] \<and> hd s \<noteq> CHR ''0'' \<and> list_all is_digit s)"

section \<open>HttpxEsploraTransport.get\<close>

record esplora_response =
  er_status :: int
  er_content_encoding :: "string option"
  er_content_length :: "int option option"
  er_chunks :: "bytes list"

text \<open>\<open>er_content_length\<close> is the header as \<open>int\<close> reads it: absent, not a number, or a number.\<close>

fun take_chunks :: "nat \<Rightarrow> bytes \<Rightarrow> bytes list \<Rightarrow> exn + bytes" where
  "take_chunks max_bytes body [] = Inr body"
| "take_chunks max_bytes body (chunk # chunks) =
     (if int max_bytes - int (length body) < int (length chunk)
      then Inl (BitcoinVerifierUnavailable ''esplora_response_too_large'')
      else take_chunks max_bytes (body @ chunk) chunks)"

definition response_body :: "nat \<Rightarrow> exn + esplora_response \<Rightarrow> exn + bytes" where
  "response_body max_bytes received =
     (case received of
        Inl e \<Rightarrow>
          if e = OtherException ''HTTPError'' \<or> e = OtherException ''OSError''
          then Inl (BitcoinVerifierUnavailable ''esplora_provider_unavailable'') else Inl e
      | Inr response \<Rightarrow>
          if er_status response \<noteq> 200 then Inl (BitcoinVerifierUnavailable ''esplora_provider_unavailable'')
          else if (case er_content_encoding response of None \<Rightarrow> False
              | Some s \<Rightarrow> str_lower (strip_chars is_py_space s) \<noteq> ''identity'')
          then Inl (BitcoinVerifierUnavailable ''esplora_response_encoding_invalid'')
          else bind_res (case er_content_length response of
              None \<Rightarrow> Inr ()
            | Some None \<Rightarrow> Inl (BitcoinVerifierUnavailable ''esplora_response_length_invalid'')
            | Some (Some n) \<Rightarrow>
                if n < 1 \<or> int max_bytes < n then Inl (BitcoinVerifierUnavailable ''esplora_response_size_invalid'')
                else Inr ()) (\<lambda>_.
            bind_res (take_chunks max_bytes [] (er_chunks response)) (\<lambda>body.
              if body = [] then Inl (BitcoinVerifierUnavailable ''esplora_response_empty'') else Inr body)))"

section \<open>Parsing\<close>

definition ascii_text :: "bytes \<Rightarrow> string option" where
  "ascii_text raw =
     (if list_all (\<lambda>b. unat b < 128) raw
      then Some (strip_chars is_py_space (map (\<lambda>b. char_of (unat b)) raw)) else None)"

definition malformed :: exn where
  "malformed = BitcoinVerifierUnavailable ''esplora_provider_response_malformed''"

definition parse_height :: "bytes \<Rightarrow> exn + int" where
  "parse_height raw =
     (case ascii_text raw of
        None \<Rightarrow> Inl (ValueError ''ordinal not in range(128)'')
      | Some value \<Rightarrow>
          if \<not> UNSIGNED_DECIMAL value then Inl (ValueError '''')
          else if MAX_BLOCK_HEIGHT < int (decimal_value value) then Inl (ValueError '''') else Inr (int (decimal_value value)))"

definition parse_status :: "(string \<Rightarrow> exn + pyval) \<Rightarrow> bytes \<Rightarrow> exn + int \<times> bool" where
  "parse_status decode raw =
     (case ascii_text raw of
        None \<Rightarrow> Inl (ValueError ''ordinal not in range(128)'')
      | Some text \<Rightarrow>
          bind_res (decode text) (\<lambda>decoded.
            case decoded of
              PDict value \<Rightarrow>
                (case (dict_get value ''height'', dict_get value ''in_best_chain'') of
                   (PInt height, PBool in_best_chain) \<Rightarrow>
                     if 0 \<le> height \<and> height \<le> MAX_BLOCK_HEIGHT then Inr (height, in_best_chain) else Inl (ValueError '''')
                 | _ \<Rightarrow> Inl (ValueError ''''))
            | _ \<Rightarrow> Inl (ValueError '''')))"

section \<open>The header of a block\<close>

definition target_invalid :: exn where
  "target_invalid = BitcoinEvidenceInvalid ''esplora_block_header_target_invalid''"

definition compact_target :: "int \<Rightarrow> exn + int" where
  "compact_target bits =
     (let exponent = drop_bit 24 bits; mantissa = bits AND 0x007FFFFF; negative = bits AND 0x00800000;
          overflow = (mantissa \<noteq> 0 \<and> (34 < exponent \<or> (0xFF < mantissa \<and> 33 < exponent) \<or> (0xFFFF < mantissa \<and> 32 < exponent)))
      in if negative \<noteq> 0 \<or> mantissa = 0 \<or> overflow then Inl target_invalid
         else let target = (if exponent \<le> 3 then drop_bit (nat (8 * (3 - exponent))) mantissa
                            else push_bit (nat (8 * (exponent - 3))) mantissa)
           in if target \<le> 0 \<or> MAINNET_POW_LIMIT < target then Inl target_invalid else Inr target)"

definition verify_header :: "(bytes \<Rightarrow> bytes) \<Rightarrow> bytes \<Rightarrow> exn + string \<times> bytes \<times> datetime" where
  "verify_header sha header =
     (if length header \<noteq> 80 then Inl (BitcoinEvidenceInvalid ''esplora_block_header_malformed'')
      else let digest = sha (sha header)
        in bind_res (compact_target (int (le_value (take 4 (drop 72 header))))) (\<lambda>target.
             if target < int (le_value digest) then Inl (BitcoinEvidenceInvalid ''esplora_block_header_pow_invalid'')
             else Inr (hex (rev digest), take 32 (drop 36 header), fromtimestamp (int (le_value (take 4 (drop 68 header)))))))"

section \<open>EsploraBitcoinVerifier\<close>

type_synonym esplora = "nat \<Rightarrow> string \<Rightarrow> string \<Rightarrow> exn + bytes"

definition get :: "esplora \<Rightarrow> nat \<Rightarrow> string \<Rightarrow> string \<Rightarrow> exn + bytes" where
  "get net n url path =
     (case net n url path of
        Inl e \<Rightarrow> Inl (case e of BitcoinVerifierUnavailable _ \<Rightarrow> e | _ \<Rightarrow> BitcoinVerifierUnavailable ''esplora_provider_unavailable'')
      | Inr body \<Rightarrow>
          if body = [] \<or> ESPLORA_RESPONSE_LIMIT < length body
          then Inl (BitcoinVerifierUnavailable ''esplora_response_size_invalid'') else Inr body)"

definition block_hash :: "esplora \<Rightarrow> int \<Rightarrow> nat \<Rightarrow> string \<Rightarrow> exn + string" where
  "block_hash net height n url =
     bind_res (get net n url (''block-height/'' @ int_str height)) (\<lambda>raw.
       case ascii_text raw of
         None \<Rightarrow> Inl malformed
       | Some s \<Rightarrow> if \<not> LOWER_SHA256 s then Inl malformed else Inr s)"

record provider_snapshot =
  ps_block_hash :: string
  ps_header :: bytes
  ps_status_height :: int
  ps_in_best_chain :: bool
  ps_tip_height :: int

record quorum_snapshot =
  qs_block_hash :: string
  qs_header :: bytes
  qs_status_height :: int
  qs_in_best_chain :: bool
  qs_tip_height :: int
  qs_provider_tip_heights :: "int \<times> int"

text \<open>\<open>except (UnicodeDecodeError, ValueError)\<close>.\<close>

definition as_malformed :: "exn + 'a \<Rightarrow> exn + 'a" where
  "as_malformed r = (case r of Inl e \<Rightarrow> Inl (if is_ValueError e then malformed else e) | Inr x \<Rightarrow> Inr x)"

definition read_snapshot ::
  "(string \<Rightarrow> exn + pyval) \<Rightarrow> string \<Rightarrow> bytes \<Rightarrow> bytes \<Rightarrow> bytes \<Rightarrow> exn + provider_snapshot" where
  "read_snapshot decode hash header_raw status_raw tip_raw =
     (case ascii_text header_raw of
        None \<Rightarrow> Inl (ValueError ''ordinal not in range(128)'')
      | Some header_hex \<Rightarrow>
          if length header_hex \<noteq> 160 \<or> str_lower header_hex \<noteq> header_hex then Inl (ValueError '''')
          else (case fromhex header_hex of
              None \<Rightarrow> Inl (ValueError ''non-hexadecimal number found in fromhex() arg'')
            | Some header \<Rightarrow>
                bind_res (parse_status decode status_raw) (\<lambda>(status_height, in_best_chain).
                bind_res (parse_height tip_raw) (\<lambda>tip_height.
                  Inr \<lparr>ps_block_hash = hash, ps_header = header, ps_status_height = status_height,
                       ps_in_best_chain = in_best_chain, ps_tip_height = tip_height\<rparr>))))"

definition provider_snapshot ::
  "(string \<Rightarrow> exn + pyval) \<Rightarrow> esplora \<Rightarrow> string \<Rightarrow> nat \<Rightarrow> string \<Rightarrow> exn + provider_snapshot" where
  "provider_snapshot decode net hash n url =
     bind_res (get net n url (''block/'' @ hash @ ''/header'')) (\<lambda>header_raw.
     bind_res (get net n url (''block/'' @ hash @ ''/status'')) (\<lambda>status_raw.
     bind_res (get net n url ''blocks/tip/height'') (\<lambda>tip_raw.
       as_malformed (read_snapshot decode hash header_raw status_raw tip_raw))))"

text \<open>\<open>asyncio.gather\<close> over the two servers, then \<open>_require_strings\<close> or \<open>_require_snapshots\<close>.\<close>

definition both :: "string \<times> string \<Rightarrow> (nat \<Rightarrow> string \<Rightarrow> exn + 'a) \<Rightarrow> (nat, 'a \<times> 'a) action" where
  "both urls f n =
     ((case (f n (fst urls), f n (snd urls)) of
         (Inr a, Inr b) \<Rightarrow> Inr (a, b)
       | _ \<Rightarrow> Inl (BitcoinVerifierUnavailable ''esplora_quorum_unavailable'')), n + 1)"

definition quorum_snapshot ::
  "(string \<Rightarrow> exn + pyval) \<Rightarrow> esplora \<Rightarrow> string \<times> string \<Rightarrow> int \<Rightarrow> (nat, quorum_snapshot) action" where
  "quorum_snapshot decode net urls height =
     bind_act (both urls (block_hash net height)) (\<lambda>(left_hash, right_hash).
       if left_hash \<noteq> right_hash then raise_act (BitcoinEvidenceInvalid ''esplora_provider_block_hash_conflict'')
       else bind_act (if height = 0 then return_act (left_hash, right_hash) else both urls (block_hash net 0)) (\<lambda>(left_anchor, right_anchor).
         if left_anchor \<noteq> right_anchor then raise_act (BitcoinEvidenceInvalid ''esplora_provider_network_conflict'')
         else if left_anchor \<noteq> MAINNET_GENESIS_HASH then raise_act (BitcoinEvidenceInvalid ''esplora_wrong_network'')
         else bind_act (both urls (provider_snapshot decode net left_hash)) (\<lambda>(left, right).
           if ps_block_hash left \<noteq> ps_block_hash right \<or> ps_header left \<noteq> ps_header right \<or>
              ps_status_height left \<noteq> ps_status_height right \<or> ps_in_best_chain left \<noteq> ps_in_best_chain right
           then raise_act (BitcoinEvidenceInvalid ''esplora_provider_evidence_conflict'')
           else if MAX_PROVIDER_TIP_SKEW < \<bar>ps_tip_height left - ps_tip_height right\<bar>
           then raise_act (BitcoinVerifierUnavailable ''esplora_provider_tip_skew'')
           else return_act \<lparr>qs_block_hash = ps_block_hash left, qs_header = ps_header left,
             qs_status_height = ps_status_height left, qs_in_best_chain = ps_in_best_chain left,
             qs_tip_height = min (ps_tip_height left) (ps_tip_height right),
             qs_provider_tip_heights = (ps_tip_height left, ps_tip_height right)\<rparr>)))"

definition require_stable_snapshot ::
  "(string \<Rightarrow> exn + pyval) \<Rightarrow> esplora \<Rightarrow> string \<times> string \<Rightarrow> int \<Rightarrow> quorum_snapshot \<Rightarrow> (nat, unit) action" where
  "require_stable_snapshot decode net urls height expected =
     bind_act (catch_act (quorum_snapshot decode net urls height) (\<lambda>e.
         case e of
           BitcoinEvidenceInvalid _ \<Rightarrow> raise_act (BitcoinVerifierUnavailable ''esplora_chain_race'')
         | BitcoinRpcResponseError _ _ \<Rightarrow> raise_act (BitcoinVerifierUnavailable ''esplora_chain_race'')
         | _ \<Rightarrow> raise_act e)) (\<lambda>observed.
       if observed \<noteq> expected then raise_act (BitcoinVerifierUnavailable ''esplora_chain_race'') else return_act ())"

fun require_all_stable ::
  "(string \<Rightarrow> exn + pyval) \<Rightarrow> esplora \<Rightarrow> string \<times> string \<Rightarrow> (int \<times> int \<times> quorum_snapshot) list \<Rightarrow> (nat, unit) action" where
  "require_all_stable decode net urls [] = return_act ()"
| "require_all_stable decode net urls ((height, confirmations, snapshot) # rest) =
     bind_act (require_stable_snapshot decode net urls height snapshot) (\<lambda>_. require_all_stable decode net urls rest)"

definition esplora_result :: "int \<Rightarrow> datetime \<Rightarrow> int \<Rightarrow> string \<Rightarrow> datetime \<Rightarrow> int \<Rightarrow> bitcoin_verification" where
  "esplora_result minimum clock height hash block_time confirmations =
     \<lparr>bv_verified = True, bv_method = ''esplora-2-of-2-exact-digest'', bv_verified_at = Some (aware clock),
      bv_block_height = Some height, bv_block_hash = Some hash, bv_block_time = Some block_time,
      bv_confirmation_policy = Some (''esplora-2-of-2-mainnet-canonical-min-'' @ int_str minimum),
      bv_confirmations = Some confirmations\<rparr>"

text \<open>The loop over the heights: \<open>commitments\<close> are the candidates, \<open>pending\<close> the snapshots below the threshold.\<close>

fun search_heights ::
  "(bytes \<Rightarrow> bytes) \<Rightarrow> (string \<Rightarrow> exn + pyval) \<Rightarrow> esplora \<Rightarrow> string \<times> string \<Rightarrow> int \<Rightarrow> datetime \<Rightarrow> (int \<times> bytes) list
     \<Rightarrow> int list \<Rightarrow> (int \<times> int \<times> quorum_snapshot) list \<Rightarrow> (nat, bitcoin_verification) action" where
  "search_heights sha decode net urls minimum clock commitments [] pending =
     (case pending of
        [] \<Rightarrow> raise_act (BitcoinEvidenceInvalid ''bitcoin_attestation_merkle_mismatch'')
      | (h, n, q) # rest \<Rightarrow>
          bind_act (require_all_stable decode net urls pending) (\<lambda>_.
            lift_act (no_evidence_result ''esplora-2-of-2-confirmation-pending''
              (Some (max_by id n (map (\<lambda>(h, n, q). n) rest))))))"
| "search_heights sha decode net urls minimum clock commitments (height # heights) pending =
     bind_act (quorum_snapshot decode net urls height) (\<lambda>snapshot.
       if qs_status_height snapshot \<noteq> height \<or> \<not> qs_in_best_chain snapshot \<or> qs_tip_height snapshot < height
       then raise_act (BitcoinEvidenceInvalid ''esplora_noncanonical_block'')
       else bind_act (lift_act (verify_header sha (qs_header snapshot))) (\<lambda>(hash, merkle_root, block_time).
         if hash \<noteq> qs_block_hash snapshot then raise_act (BitcoinEvidenceInvalid ''esplora_block_header_hash_mismatch'')
         else if (height, merkle_root) \<notin> set commitments
         then search_heights sha decode net urls minimum clock commitments heights pending
         else let confirmations = qs_tip_height snapshot - height + 1
           in if confirmations < minimum
              then search_heights sha decode net urls minimum clock commitments heights (pending @ [(height, confirmations, snapshot)])
              else bind_act (require_stable_snapshot decode net urls height snapshot) (\<lambda>_.
                if \<not> is_aware clock then raise_act (BitcoinEvidenceInvalid ''bitcoin_verifier_clock_invalid'')
                else lift_act (BitcoinVerification
                  (esplora_result minimum clock height (qs_block_hash snapshot) block_time confirmations)))))"

definition esplora_verify_exact_digest ::
  "ots_library \<Rightarrow> (timestamp \<Rightarrow> (bytes \<times> attestation) list) \<Rightarrow> (string \<Rightarrow> exn + pyval) \<Rightarrow> esplora \<Rightarrow> string \<times> string \<Rightarrow> int
     \<Rightarrow> datetime \<Rightarrow> manifest_digest \<Rightarrow> bytes \<Rightarrow> (nat, bitcoin_verification) action" where
  "esplora_verify_exact_digest lib all_attestations decode net urls minimum clock digest proof_bytes =
     bind_act (lift_act (deserialize_exact_proof (ots_sha256 lib) (ots_apply lib) (ots_parse lib) digest proof_bytes None)) (\<lambda>parsed.
     let candidates = sort_key (\<lambda>(height, message). (height, map unat message))
           (map (\<lambda>(message, height). (height, message)) (bitcoin_attestations (all_attestations (df_timestamp (pp_detached parsed)))))
     in if candidates = [] then lift_act (no_evidence_result ''esplora-2-of-2-no-attestation'' None)
        else if MAX_BITCOIN_CANDIDATES < length candidates \<or>
          list_ex (\<lambda>(height, commitment). height < 0 \<or> MAX_BLOCK_HEIGHT < height \<or> length commitment \<noteq> 32) candidates
        then raise_act (BitcoinEvidenceInvalid ''bitcoin_attestation_malformed'')
        else search_heights (ots_sha256 lib) decode net urls minimum clock candidates (remdups (map fst candidates)) [])"

section \<open>The target of the proof of work\<close>

text \<open>The value of a compact target: a mantissa of three bytes, shifted by its exponent in bytes.\<close>

definition compact_value :: "int \<Rightarrow> int" where
  "compact_value bits = bits mod 2 ^ 23 * 256 ^ nat (bits div 2 ^ 24) div 256 ^ 3"

lemma byte_shift: "(2::int) ^ (8 * n) = 256 ^ n"
  by (simp add: power_mult)

lemma shifted_mantissa:
  fixes m e :: int
  assumes "0 \<le> e"
  shows "(if e \<le> 3 then drop_bit (nat (8 * (3 - e))) m else push_bit (nat (8 * (e - 3))) m) = m * 256 ^ nat e div 256 ^ 3"
proof (cases "e \<le> 3")
  case True
  then have "nat (8 * (3 - e)) = 8 * (3 - nat e)" and e: "nat e \<le> 3" using assms by simp_all
  then have "drop_bit (nat (8 * (3 - e))) m = m div 256 ^ (3 - nat e)"
    by (simp add: drop_bit_eq_div byte_shift)
  also have "\<dots> = (m * 256 ^ nat e) div (256 ^ (3 - nat e) * 256 ^ nat e)"
    by (simp add: div_mult_mult2)
  also have "(256::int) ^ (3 - nat e) * 256 ^ nat e = 256 ^ 3"
    using e by (simp only: power_add [symmetric]) simp
  finally show ?thesis using True by simp
next
  case False
  define k where "k = nat e - 3"
  have k: "nat (8 * (e - 3)) = 8 * k" "nat e = k + 3" using False by (auto simp: k_def)
  have "push_bit (nat (8 * (e - 3))) m = m * 256 ^ k"
    by (simp only: k(1) push_bit_eq_mult byte_shift)
  moreover have "m * 256 ^ nat e div 256 ^ 3 = m * 256 ^ k"
    by (simp add: k(2) power_add)
  ultimately show ?thesis using False by simp
qed

text \<open>The overflow test never decides: a target that would not fit 256 bits is above the limit of the main network.\<close>

lemma overflow_above_limit:
  fixes m e :: int
  assumes "0 < m" "34 < e \<or> (0xFF < m \<and> 33 < e) \<or> (0xFFFF < m \<and> 32 < e)"
  shows "MAINNET_POW_LIMIT < m * 256 ^ nat e div 256 ^ 3"
proof -
  define k where "k = nat e - 3"
  have k: "nat e = k + 3" "e = int k + 3" using assms(2) by (auto simp: k_def)
  have above: "31 < k \<or> (255 < m \<and> 30 < k) \<or> (65535 < m \<and> 29 < k)" using assms(2) by (simp add: k(2))
  have shifted: "m * 256 ^ nat e div 256 ^ 3 = m * 256 ^ k"
    by (simp add: k(1) power_add)
  have "256 ^ 32 \<le> m * 256 ^ k"
  proof -
    consider "32 \<le> k" "1 \<le> m" | "k = 31" "256 \<le> m" | "k = 30" "65536 \<le> m"
      using above assms(1) by linarith
    then show ?thesis
    proof cases
      case 1
      have "(1::int) * 256 ^ 32 \<le> m * 256 ^ k"
        using 1 by (intro mult_mono power_increasing) simp_all
      then show ?thesis by simp
    qed simp_all
  qed
  then show ?thesis unfolding shifted by (simp add: MAINNET_POW_LIMIT_def push_bit_eq_mult)
qed


lemma bit_23_iff: "(bits :: int) AND 0x00800000 \<noteq> 0 \<longleftrightarrow> bit bits 23"
proof -
  have "(0x00800000 :: int) = 2 ^ 23" by simp
  then show ?thesis by (simp only: and_exp_eq_0_iff_not_bit not_not)
qed

lemma compact_target_value:
  assumes "0 \<le> bits"
  shows "compact_target bits = Inr target \<longleftrightarrow>
    \<not> bit bits 23 \<and> target = compact_value bits \<and> 0 < target \<and> target \<le> MAINNET_POW_LIMIT"
proof -
  define m where "m = bits mod 2 ^ 23"
  define e where "e = bits div 2 ^ 24"
  have e0: "0 \<le> e" and m0: "0 \<le> m" using assms by (simp_all add: e_def m_def pos_imp_zdiv_nonneg_iff)
  have "bits AND 0x007FFFFF = bits AND mask 23" by (simp add: mask_eq_exp_minus_1)
  then have mask: "bits AND 0x007FFFFF = m" by (simp only: take_bit_eq_mask [symmetric] take_bit_eq_mod m_def)
  have exponent: "drop_bit 24 bits = e" by (simp add: drop_bit_eq_div e_def)
  have v: "compact_value bits = m * 256 ^ nat e div 256 ^ 3" by (simp only: compact_value_def m_def e_def)
  have zero: "compact_value bits = 0" if "m = 0" using that v by simp
  show ?thesis
    unfolding compact_target_def Let_def mask exponent bit_23_iff shifted_mantissa [OF e0] v [symmetric]
    using overflow_above_limit [of m e] m0 zero unfolding v [symmetric]
    by (auto simp: less_le)
qed


section \<open>The quorum\<close>

text \<open>What each of the two servers has said of the block at a height.\<close>

definition told ::
  "(string \<Rightarrow> exn + pyval) \<Rightarrow> esplora \<Rightarrow> int \<Rightarrow> quorum_snapshot \<Rightarrow> string \<Rightarrow> bool" where
  "told decode net height q url \<longleftrightarrow>
     (\<exists>n. block_hash net height n url = Inr (qs_block_hash q)) \<and>
     (\<exists>n. block_hash net 0 n url = Inr MAINNET_GENESIS_HASH) \<and>
     (\<exists>n p. provider_snapshot decode net (qs_block_hash q) n url = Inr p \<and> ps_header p = qs_header q \<and>
        ps_status_height p = qs_status_height q \<and> ps_in_best_chain p = qs_in_best_chain q \<and> qs_tip_height q \<le> ps_tip_height p)"

definition agreed ::
  "(string \<Rightarrow> exn + pyval) \<Rightarrow> esplora \<Rightarrow> string \<times> string \<Rightarrow> int \<Rightarrow> quorum_snapshot \<Rightarrow> bool" where
  "agreed decode net urls height q \<longleftrightarrow> told decode net height q (fst urls) \<and> told decode net height q (snd urls)"

lemma both_Inr: "both urls f n = (Inr (a, b), n') \<longleftrightarrow> f n (fst urls) = Inr a \<and> f n (snd urls) = Inr b \<and> n' = n + 1"
  by (auto simp: both_def split: sum.splits)

lemma as_malformed_Inr: "as_malformed r = Inr x \<longleftrightarrow> r = Inr x"
  by (simp add: as_malformed_def split: sum.splits)

lemma read_snapshot_hash: "read_snapshot decode hash header_raw status_raw tip_raw = Inr p \<Longrightarrow> ps_block_hash p = hash"
  by (auto simp: read_snapshot_def bind_res_Inr_iff split: option.splits if_splits)

lemma provider_snapshot_hash: "provider_snapshot decode net hash n url = Inr p \<Longrightarrow> ps_block_hash p = hash"
  by (auto simp: provider_snapshot_def as_malformed_Inr bind_res_Inr_iff dest: read_snapshot_hash)

lemma block_hash_valid: "block_hash net height n url = Inr s \<Longrightarrow> valid_block_hash s"
  by (auto simp: block_hash_def bind_res_Inr_iff LOWER_SHA256_block_hash split: option.splits if_splits)

lemma quorum_snapshot_agreed:
  assumes "quorum_snapshot decode net urls height n = (Inr q, n')"
  shows "agreed decode net urls height q" "valid_block_hash (qs_block_hash q)"
proof -
  from assms obtain hash n1 n2 left right where
    hash: "block_hash net height n (fst urls) = Inr hash" "block_hash net height n (snd urls) = Inr hash"
    and anchor: "(if height = 0 then return_act (hash, hash) else both urls (block_hash net 0)) n1 =
      (Inr (MAINNET_GENESIS_HASH, MAINNET_GENESIS_HASH), n2)"
    and snaps: "provider_snapshot decode net hash n2 (fst urls) = Inr left" "provider_snapshot decode net hash n2 (snd urls) = Inr right"
    and same: "ps_header left = ps_header right" "ps_status_height left = ps_status_height right"
      "ps_in_best_chain left = ps_in_best_chain right"
    and q: "q = \<lparr>qs_block_hash = ps_block_hash left, qs_header = ps_header left,
             qs_status_height = ps_status_height left, qs_in_best_chain = ps_in_best_chain left,
             qs_tip_height = min (ps_tip_height left) (ps_tip_height right),
             qs_provider_tip_heights = (ps_tip_height left, ps_tip_height right)\<rparr>"
    by (auto simp: quorum_snapshot_def bind_act_Inr both_Inr split: if_splits)
  have genesis: "\<exists>n. block_hash net 0 n url = Inr MAINNET_GENESIS_HASH" if "url = fst urls \<or> url = snd urls" for url
    using anchor hash that by (cases "height = 0") (auto simp: both_Inr)
  have block: "qs_block_hash q = hash" using provider_snapshot_hash [OF snaps(1)] by (simp add: q)
  show "agreed decode net urls height q"
    unfolding agreed_def told_def block using hash genesis snaps same by (fastforce simp: q)
  show "valid_block_hash (qs_block_hash q)" using block_hash_valid [OF hash(1)] by (simp add: block)
qed


section \<open>The search\<close>

definition proof_of_work :: "(bytes \<Rightarrow> bytes) \<Rightarrow> bytes \<Rightarrow> bool" where
  "proof_of_work sha header \<longleftrightarrow>
     (let target = compact_value (int (le_value (take 4 (drop 72 header))))
      in int (le_value (sha (sha header))) \<le> target \<and> target \<le> MAINNET_POW_LIMIT)"

lemma verify_header_Inr:
  assumes "verify_header sha header = Inr (hash, message, block_time)"
  shows "block_commits sha header message block_time hash" "proof_of_work sha header"
proof -
  from assms have len: "length header = 80" by (simp add: verify_header_def split: if_splits)
  from assms obtain target where target: "compact_target (int (le_value (take 4 (drop 72 header)))) = Inr target"
    and low: "int (le_value (sha (sha header))) \<le> target"
    and parts: "hash = hex (rev (sha (sha header)))" "message = take 32 (drop 36 header)"
      "block_time = fromtimestamp (int (le_value (take 4 (drop 68 header))))"
    by (auto simp: verify_header_def Let_def bind_res_Inr_iff split: if_splits)
  have "header = take 36 header @ message @ take 4 (drop 68 header) @ drop 72 header"
    using append_take_drop_id [of 36 header] append_take_drop_id [of 32 "drop 36 header"] append_take_drop_id [of 4 "drop 68 header"]
    by (simp add: parts(2))
  moreover have "length message = 32" "length (take 4 (drop 68 header)) = 4" "length (drop 72 header) = 8"
    using len by (simp_all add: parts(2))
  ultimately show "block_commits sha header message block_time hash"
    unfolding block_commits_def parts(1,3) by blast
  show "proof_of_work sha header" using target low by (simp add: compact_target_value proof_of_work_def)
qed

text \<open>Where a verified result comes from: a block on which both servers agree, whose header commits to a candidate.\<close>

definition found ::
  "(bytes \<Rightarrow> bytes) \<Rightarrow> (string \<Rightarrow> exn + pyval) \<Rightarrow> esplora \<Rightarrow> string \<times> string \<Rightarrow> int \<Rightarrow> datetime \<Rightarrow> (int \<times> bytes) set
     \<Rightarrow> bitcoin_verification \<Rightarrow> bool" where
  "found sha decode net urls minimum clock commitments v \<longleftrightarrow>
     (\<exists>height message block_time q. (height, message) \<in> commitments \<and> agreed decode net urls height q \<and>
        valid_block_hash (qs_block_hash q) \<and> qs_status_height q = height \<and> qs_in_best_chain q \<and>
        block_commits sha (qs_header q) message block_time (qs_block_hash q) \<and> proof_of_work sha (qs_header q) \<and>
        minimum \<le> qs_tip_height q - height + 1 \<and> is_aware clock \<and>
        BitcoinVerification v = Inr v \<and>
        v = esplora_result minimum clock height (qs_block_hash q) block_time (qs_tip_height q - height + 1))"

lemma no_evidence_Inr: "no_evidence_result m c = Inr v \<Longrightarrow> \<not> bv_verified v \<and> BitcoinVerification v = Inr v"
  by (auto simp: no_evidence_result_def BitcoinVerification_Inr unverified_def)

lemma search_heights_found:
  assumes "search_heights sha decode net urls minimum clock commitments heights pending n = (Inr v, n')"
  shows "\<not> bv_verified v \<and> BitcoinVerification v = Inr v \<or> found sha decode net urls minimum clock (set commitments) v"
  using assms
proof (induction heights arbitrary: pending n)
  case Nil
  then show ?case by (auto simp: bind_act_Inr dest: no_evidence_Inr split: list.splits)
next
  case (Cons height heights)
  from Cons.prems obtain q n1 hash message block_time where q: "quorum_snapshot decode net urls height n = (Inr q, n1)"
    and canonical: "qs_status_height q = height" "qs_in_best_chain q"
    and header: "verify_header sha (qs_header q) = Inr (hash, message, block_time)" "hash = qs_block_hash q"
    and rest: "(if (height, message) \<notin> set commitments
         then search_heights sha decode net urls minimum clock commitments heights pending
         else let confirmations = qs_tip_height q - height + 1
           in if confirmations < minimum
              then search_heights sha decode net urls minimum clock commitments heights (pending @ [(height, confirmations, q)])
              else bind_act (require_stable_snapshot decode net urls height q) (\<lambda>_.
                if \<not> is_aware clock then raise_act (BitcoinEvidenceInvalid ''bitcoin_verifier_clock_invalid'')
                else lift_act (BitcoinVerification
                  (esplora_result minimum clock height (qs_block_hash q) block_time confirmations)))) n1 = (Inr v, n')"
    by (auto simp: bind_act_Inr split: if_splits prod.splits)
  show ?case
  proof (cases "(height, message) \<in> set commitments \<and> minimum \<le> qs_tip_height q - height + 1")
    case True
    with rest have "is_aware clock" "BitcoinVerification
        (esplora_result minimum clock height (qs_block_hash q) block_time (qs_tip_height q - height + 1)) = Inr v"
      by (auto simp: Let_def bind_act_Inr split: if_splits)
    then have "found sha decode net urls minimum clock (set commitments) v"
      unfolding found_def using True canonical verify_header_Inr [OF header(1)] header(2) quorum_snapshot_agreed [OF q]
      by (intro exI [of _ height] exI [of _ message] exI [of _ block_time] exI [of _ q]) (auto simp: BitcoinVerification_Inr)
    then show ?thesis ..
  next
    case False
    then show ?thesis using rest Cons.IH by (auto simp: Let_def split: if_splits)
  qed
qed

section \<open>The verifier is sound\<close>

text \<open>The verifier as it is constructed and called: \<open>validated_urls\<close> is the parameter \<open>urls\<close>, with its check of the
  threshold written out.\<close>

definition EsploraConfiguration_threshold :: "int \<Rightarrow> exn + int" where
  "EsploraConfiguration_threshold minimum_confirmations =
     (if \<not> (1 \<le> minimum_confirmations \<and> minimum_confirmations \<le> 100)
      then Inl (ValueError ''bitcoin_confirmation_threshold_invalid'') else Inr minimum_confirmations)"

definition esplora_verifier ::
  "ots_library \<Rightarrow> (timestamp \<Rightarrow> (bytes \<times> attestation) list) \<Rightarrow> (string \<Rightarrow> exn + pyval) \<Rightarrow> esplora \<Rightarrow> string \<times> string \<Rightarrow> int
     \<Rightarrow> datetime \<Rightarrow> manifest_digest \<Rightarrow> bytes \<Rightarrow> (nat, bitcoin_verification) action" where
  "esplora_verifier lib all_attestations decode net urls minimum clock digest proof_bytes =
     bind_act (lift_act (EsploraConfiguration_threshold minimum)) (\<lambda>m.
       esplora_verify_exact_digest lib all_attestations decode net urls m clock digest proof_bytes)"

lemma esplora_verifier_found:
  assumes "esplora_verifier lib all_attestations decode net urls minimum clock digest proof_bytes n = (Inr v, n')"
  shows "1 \<le> minimum" "minimum \<le> 100"
    "\<not> bv_verified v \<and> BitcoinVerification v = Inr v \<or>
     found (ots_sha256 lib) decode net urls minimum clock
       {(height, message). 0 \<le> height \<and> height \<le> MAX_BLOCK_HEIGHT \<and> (message, height) \<in> attested_by lib all_attestations digest proof_bytes} v"
proof -
  have m: "1 \<le> minimum" "minimum \<le> 100"
    and run: "esplora_verify_exact_digest lib all_attestations decode net urls minimum clock digest proof_bytes n = (Inr v, n')"
    using assms by (auto simp: esplora_verifier_def bind_act_Inr EsploraConfiguration_threshold_def split: if_splits)
  show "1 \<le> minimum" "minimum \<le> 100" using m by simp_all
  from run obtain parsed where parsed: "deserialize_exact_proof (ots_sha256 lib) (ots_apply lib) (ots_parse lib) digest proof_bytes None = Inr parsed"
    by (auto simp: esplora_verify_exact_digest_def bind_act_Inr)
  define candidates where "candidates = sort_key (\<lambda>(height, message). (height, map unat message))
    (map (\<lambda>(message, height). (height, message)) (bitcoin_attestations (all_attestations (df_timestamp (pp_detached parsed)))))"
  have attested: "(height, message) \<in> set candidates \<longleftrightarrow> (message, height) \<in> attested_by lib all_attestations digest proof_bytes"
    for height message by (force simp: candidates_def set_bitcoin_attestations attested_by_def parsed)
  show "\<not> bv_verified v \<and> BitcoinVerification v = Inr v \<or>
     found (ots_sha256 lib) decode net urls minimum clock
       {(height, message). 0 \<le> height \<and> height \<le> MAX_BLOCK_HEIGHT \<and> (message, height) \<in> attested_by lib all_attestations digest proof_bytes} v"
  proof (cases "candidates = []")
    case True
    then show ?thesis
      using run parsed by (auto simp: esplora_verify_exact_digest_def bind_act_Inr candidates_def dest: no_evidence_Inr)
  next
    case False
    then have bounded: "\<not> list_ex (\<lambda>(height, commitment). height < 0 \<or> MAX_BLOCK_HEIGHT < height \<or> length commitment \<noteq> 32) candidates"
      and search: "search_heights (ots_sha256 lib) decode net urls minimum clock candidates (remdups (map fst candidates)) [] n = (Inr v, n')"
      using run parsed unfolding esplora_verify_exact_digest_def Let_def
      by (auto simp: bind_act_Inr candidates_def [symmetric] split: if_splits)
    have "set candidates = {(height, message). 0 \<le> height \<and> height \<le> MAX_BLOCK_HEIGHT \<and> (message, height) \<in> attested_by lib all_attestations digest proof_bytes}"
      using bounded attested by (auto simp: list_ex_iff not_less)
    then show ?thesis using search_heights_found [OF search] by simp
  qed
qed


lemma esplora_verifier_Inr:
  assumes "esplora_verifier lib all_attestations decode net urls minimum clock digest proof_bytes n = (Inr v, n')"
  shows "1 \<le> minimum" "BitcoinVerification v = Inr v"
    "bv_verified v \<Longrightarrow> sound_result (ots_sha256 lib) minimum (attested_by lib all_attestations digest proof_bytes) v"
proof -
  note found = esplora_verifier_found [OF assms]
  show "1 \<le> minimum" by (fact found(1))
  show "BitcoinVerification v = Inr v" using found(3) by (auto simp: found_def)
  show "sound_result (ots_sha256 lib) minimum (attested_by lib all_attestations digest proof_bytes) v" if "bv_verified v"
  proof -
    from found(3) that obtain height message block_time and q :: quorum_snapshot
      where "0 \<le> height" "(message, height) \<in> attested_by lib all_attestations digest proof_bytes"
        "valid_block_hash (qs_block_hash q)" "block_commits (ots_sha256 lib) (qs_header q) message block_time (qs_block_hash q)"
        "minimum \<le> qs_tip_height q - height + 1" "is_aware clock"
      and v: "v = esplora_result minimum clock height (qs_block_hash q) block_time (qs_tip_height q - height + 1)"
      by (auto simp: found_def)
    then show ?thesis unfolding sound_result_def v using short_int_str [OF found(1,2)]
      by (intro exI [of _ message] exI [of _ height] exI [of _ "qs_block_hash q"] exI [of _ block_time] exI [of _ "qs_header q"]
          exI [of _ "qs_tip_height q - height + 1"] exI [of _ "aware clock"]) (simp add: esplora_result_def)
  qed
qed

interpretation esplora_sound: sound_verifier "esplora_verifier lib all_attestations decode net urls minimum clock" "ots_sha256 lib" minimum
  "attested_by lib all_attestations"
  by unfold_locales (auto dest: esplora_verifier_Inr)

section \<open>Properties\<close>

text \<open>What \<open>_verify_header\<close> accepts, against a reference by arithmetic: a header of 80 bytes whose compact target is
  not negative, is positive and at most the limit of the main network (the tests for overflow and the shifts of the code come to
  that), and whose double SHA-256 as a number is at most the target. The results are the block hash, the Merkle root
  and the time of the header.\<close>

theorem verify_header_iff:
  "verify_header sha header = Inr (hash, merkle_root, block_time) \<longleftrightarrow>
     (let bits = int (le_value (take 4 (drop 72 header))); digest = sha (sha header)
      in length header = 80 \<and> \<not> bit bits 23 \<and> 0 < compact_value bits \<and> compact_value bits \<le> MAINNET_POW_LIMIT \<and>
         int (le_value digest) \<le> compact_value bits \<and> hash = hex (rev digest) \<and> merkle_root = take 32 (drop 36 header) \<and>
         block_time = fromtimestamp (int (le_value (take 4 (drop 68 header)))))"
  by (auto simp: verify_header_def Let_def bind_res_Inr_iff compact_target_value split: if_splits)

text \<open>C13. A verified result of the Esplora verifier is sound: the proof claims a message at the height of the result, the
  block named in the result has a header that commits to that message, and the result passes the validation of the store. Both
  servers, not one of them, have given the genesis block of the main network, the hash and the same header of that block and
  have called it part of the best chain; the header has its proof of work, and the confirmations reach the threshold and do
  not exceed what either server's tip gives.\<close>

theorem esplora_verified_sound:
  assumes "esplora_verifier lib all_attestations decode net urls minimum clock digest proof_bytes n = (Inr v, n')" "bv_verified v"
  shows "sound_result (ots_sha256 lib) minimum (attested_by lib all_attestations digest proof_bytes) v \<and>
    validate_verification v = Inr () \<and>
    (\<exists>height q. bv_block_height v = Some height \<and> height \<le> MAX_BLOCK_HEIGHT \<and> bv_block_hash v = Some (qs_block_hash q) \<and>
       agreed decode net urls height q \<and> qs_status_height q = height \<and> qs_in_best_chain q \<and>
       proof_of_work (ots_sha256 lib) (qs_header q) \<and> bv_confirmations v = Some (qs_tip_height q - height + 1) \<and>
       minimum \<le> qs_tip_height q - height + 1)"
proof (intro conjI)
  show "sound_result (ots_sha256 lib) minimum (attested_by lib all_attestations digest proof_bytes) v"
    by (rule esplora_sound.sound [OF assms])
  show "validate_verification v = Inr ()" by (rule esplora_sound.verified_storable(2) [OF assms])
  show "\<exists>height q. bv_block_height v = Some height \<and> height \<le> MAX_BLOCK_HEIGHT \<and> bv_block_hash v = Some (qs_block_hash q) \<and>
       agreed decode net urls height q \<and> qs_status_height q = height \<and> qs_in_best_chain q \<and>
       proof_of_work (ots_sha256 lib) (qs_header q) \<and> bv_confirmations v = Some (qs_tip_height q - height + 1) \<and>
       minimum \<le> qs_tip_height q - height + 1"
    using esplora_verifier_found(3) [OF assms(1)] assms(2) by (auto simp: found_def esplora_result_def)
qed


text \<open>Two servers that give the block 3 of a chain of height 6, with a header of the easiest target.\<close>

definition sample_header :: bytes where
  "sample_header = replicate 68 0 @ [9, 0, 0, 0, 0xFF, 0xFF, 0, 0x1D, 0, 0, 0, 0]"

definition sample_net :: esplora where
  "sample_net n url path =
     Inr (ascii_bytes
       (if path = ''block-height/0'' then MAINNET_GENESIS_HASH
        else if path = ''block-height/3'' then sample_hash
        else if path = ''blocks/tip/height'' then ''6''
        else hex sample_header))"

definition sample_decode :: "string \<Rightarrow> exn + pyval" where
  "sample_decode text = Inr (PDict [(''height'', PInt 3), (''in_best_chain'', PBool True)])"

lemma strip_chars_id: "list_all (\<lambda>c. \<not> C c) s \<Longrightarrow> strip_chars C s = s"
proof -
  have self: "dropWhile C xs = xs" if "\<forall>c \<in> set xs. \<not> C c" for xs
    using that by (cases xs) simp_all
  show "list_all (\<lambda>c. \<not> C c) s \<Longrightarrow> strip_chars C s = s"
    using self [of s] self [of "rev s"] by (simp add: strip_chars_def list_all_iff)
qed

lemma ascii_text_hex: "list_all is_lower_hex s \<Longrightarrow> ascii_text (ascii_bytes s) = Some s"
proof -
  assume s: "list_all is_lower_hex s"
  have word: "unat (word_of_nat (code c) :: 8 word) = code c" for c
    using nat_of_char_less_256 [of c] by (simp add: unat_of_nat code_def take_bit_eq_mod)
  have "list_all (\<lambda>b. unat b < 128) (ascii_bytes s)"
    using s by (auto simp: ascii_bytes_def list_all_iff word is_lower_hex_def is_digit_def)
  moreover have "map (\<lambda>b. char_of (unat b)) (ascii_bytes s) = s"
    using word by (simp add: ascii_bytes_def comp_def code_def)
  moreover have "strip_chars is_py_space s = s"
    using s by (intro strip_chars_id) (auto simp: list_all_iff is_lower_hex_def is_digit_def is_py_space_def)
  ultimately show ?thesis by (simp add: ascii_text_def)
qed

lemma sample_get:
  assumes "sample_net n url path = Inr (ascii_bytes s)" "s \<noteq> []" "length s \<le> ESPLORA_RESPONSE_LIMIT"
  shows "get sample_net n url path = Inr (ascii_bytes s)"
  using assms by (simp add: get_def ascii_bytes_def)

lemma sample_genesis: "LOWER_SHA256 MAINNET_GENESIS_HASH"
  by code_simp

lemma sample_block_hash:
  "block_hash sample_net 0 n url = Inr MAINNET_GENESIS_HASH" "block_hash sample_net 3 n url = Inr sample_hash"
proof -
  have paths: "int_str 0 = ''0''" "int_str 3 = ''3''" by code_simp+
  have zeros: "LOWER_SHA256 sample_hash"
    using hex_lower_hex [of "replicate 32 0"] length_hex [of "replicate 32 0"] by (simp add: LOWER_SHA256_def match_class_def)
  have ok: "list_all is_lower_hex s \<and> s \<noteq> [] \<and> length s \<le> ESPLORA_RESPONSE_LIMIT" if "LOWER_SHA256 s" for s
    using that by (auto simp: LOWER_SHA256_def match_class_def ESPLORA_RESPONSE_LIMIT_def)
  have "get sample_net n url (''block-height/'' @ int_str 0) = Inr (ascii_bytes MAINNET_GENESIS_HASH)"
    "get sample_net n url (''block-height/'' @ int_str 3) = Inr (ascii_bytes sample_hash)"
    using ok [OF sample_genesis] ok [OF zeros] by (intro sample_get; simp add: paths sample_net_def)+
  then show "block_hash sample_net 0 n url = Inr MAINNET_GENESIS_HASH" "block_hash sample_net 3 n url = Inr sample_hash"
    using ok [OF sample_genesis] ok [OF zeros] sample_genesis zeros by (simp_all add: block_hash_def ascii_text_hex)
qed

definition sample_quorum :: quorum_snapshot where
  "sample_quorum = \<lparr>qs_block_hash = sample_hash, qs_header = sample_header, qs_status_height = 3, qs_in_best_chain = True,
     qs_tip_height = 6, qs_provider_tip_heights = (6, 6)\<rparr>"

lemma sample_provider_snapshot:
  "provider_snapshot sample_decode sample_net sample_hash n url =
     Inr \<lparr>ps_block_hash = sample_hash, ps_header = sample_header, ps_status_height = 3, ps_in_best_chain = True, ps_tip_height = 6\<rparr>"
proof -
  have header: "list_all is_lower_hex (hex sample_header)" "length (hex sample_header) = 160" "length sample_header = 80"
    by (simp_all add: hex_lower_hex length_hex sample_header_def)
  have nonempty: "hex sample_header \<noteq> []" using header(3) length_hex [of sample_header] by (cases "hex sample_header") simp_all
  have tip: "list_all is_lower_hex ''6''" "UNSIGNED_DECIMAL ''6''" "decimal_value ''6'' = 6" by code_simp+
  have got: "get sample_net n url ''blocks/tip/height'' = Inr (ascii_bytes ''6'')"
    "get sample_net n url (''block/'' @ sample_hash @ x) = Inr (ascii_bytes (hex sample_header))" for x
    using header nonempty by (intro sample_get; auto simp: sample_net_def ESPLORA_RESPONSE_LIMIT_def)+
  show ?thesis
    unfolding provider_snapshot_def got using header tip
    by (simp add: read_snapshot_def ascii_text_hex lower_hex_fixed fromhex_hex parse_status_def parse_height_def sample_decode_def
        dict_get_def MAX_BLOCK_HEIGHT_def as_malformed_def)
qed

lemma sample_quorum_snapshot: "quorum_snapshot sample_decode sample_net urls 3 n = (Inr sample_quorum, n + 3)"
  by (simp add: quorum_snapshot_def bind_act_def both_def sample_block_hash sample_provider_snapshot MAX_PROVIDER_TIP_SKEW_def
      return_act_def sample_quorum_def)

lemma sample_verify_header:
  "verify_header (\<lambda>_. replicate 32 0) sample_header = Inr (sample_hash, replicate 32 0, Aware 9000000)"
proof -
  have "le_value (replicate n 0) = 0" for n by (induction n) (simp_all add: le_value_def)
  moreover have "le_value [] = 0" by (simp add: le_value_def)
  moreover have "compact_target 0x1D00FFFF = Inr MAINNET_POW_LIMIT" by code_simp
  moreover have "0 \<le> MAINNET_POW_LIMIT" by code_simp
  ultimately show ?thesis by (simp add: verify_header_def sample_header_def fromtimestamp_def)
qed

definition sample_esplora_result :: bitcoin_verification where
  "sample_esplora_result = esplora_result 2 (Aware 7) 3 sample_hash (Aware 9000000) 4"

lemma sample_esplora_run:
  "esplora_verifier (sample_library 3) sample_attestations sample_decode sample_net urls 2 (Aware 7) sample_zeros [1] 0 =
     (Inr sample_esplora_result, 6)"
proof -
  have "BitcoinVerification sample_esplora_result = Inr sample_esplora_result"
    by (simp add: BitcoinVerification_def sample_esplora_result_def esplora_result_def metadata_present_def)
  then show ?thesis
    by (simp add: esplora_verifier_def EsploraConfiguration_threshold_def esplora_verify_exact_digest_def bind_act_def lift_act_def
        sample_attestations_def bitcoin_attestations_def MAX_BITCOIN_CANDIDATES_def MAX_BLOCK_HEIGHT_def sample_quorum_snapshot
        require_stable_snapshot_def catch_act_def sample_verify_header sample_quorum_def return_act_def sample_esplora_result_def Let_def)
qed

theorem esplora_verified_sound_witness:
  "bv_verified sample_esplora_result \<and>
   sound_result (ots_sha256 (sample_library 3)) 2 (attested_by (sample_library 3) sample_attestations sample_zeros [1]) sample_esplora_result \<and>
   (\<exists>q. agreed sample_decode sample_net (''a'', ''b'') 3 q \<and> proof_of_work (ots_sha256 (sample_library 3)) (qs_header q))"
  using esplora_verified_sound [OF sample_esplora_run [of "(''a'', ''b'')"]] by (auto simp: sample_esplora_result_def esplora_result_def)

end
