(* ===== verification/Receipts.thy ===== *)
theory Receipts
  imports Fulfillment Bitcoin
begin

text \<open>
  Receipts and proof bundles: \<open>proofs/receipt.py\<close>, \<open>proofs/bundle.py\<close>, and the part of \<open>zipfile\<close> that the bundler
  uses (stored entries on a seekable file). A receipt is JSON text in ASCII, which is what both writers of receipts produce; the
  other encodings that \<open>json.loads\<close> detects are read as invalid. A receipt has no float, so the text of floats is left empty.
\<close>

section \<open>build_receipt\<close>

definition rfc3339 :: "datetime \<Rightarrow> exn + string" where
  "rfc3339 d =
     (if \<not> is_aware d then Inl (ValueError ''receipt_timestamps_must_be_timezone_aware'')
      else Inr (str_replace ''+00:00'' ''Z'' (isoformat_seconds d)))"

definition receipt_text :: "string \<Rightarrow> string \<Rightarrow> (string \<times> pyval) list \<Rightarrow> string" where
  "receipt_text item_sep key_sep receipt = dumps (\<lambda>_. []) item_sep key_sep (sort_dicts (PDict receipt))"

definition receipt_base :: "stored_proof \<Rightarrow> certificate_reference \<Rightarrow> string \<Rightarrow> string \<Rightarrow> (string \<times> pyval) list" where
  "receipt_base p certificate service_version calendar_text =
     [(''schema_version'', PStr ''1.0.0''),
      (''order_reference'', PStr (sp_order_reference p)),
      (''certificate_reference'', PStr certificate),
      (''manifest_sha256'', PStr (digest_hex (sp_target_digest p))),
      (''proof_sha256'', PStr (hex (sp_proof_sha256 p))),
      (''proof_bytes'', PInt (int (length (sp_proof_bytes p)))),
      (''proof_state'', PStr (proof_state_value (sp_proof_state p))),
      (''calendar_submitted_at'', PStr calendar_text),
      (''service_version'', PStr service_version)]"

text \<open>The keys of a verified proof.\<close>

definition receipt_bitcoin :: "int \<Rightarrow> string \<Rightarrow> string \<Rightarrow> string \<Rightarrow> string \<Rightarrow> string \<Rightarrow> (string \<times> pyval) list" where
  "receipt_bitcoin height block_hash time_text policy method_name verified_text =
     [(''bitcoin'', PDict [(''block_height'', PInt height), (''block_hash'', PStr block_hash), (''block_time'', PStr time_text),
         (''confirmation_policy'', PStr policy)]),
      (''verification_method'', PStr method_name),
      (''verified_at'', PStr verified_text)]"

definition build_receipt :: "stored_proof \<Rightarrow> certificate_reference \<Rightarrow> string \<Rightarrow> exn + bytes" where
  "build_receipt p certificate service_version =
     (if \<not> (1 \<le> length service_version \<and> length service_version \<le> 64) then Inl (ValueError ''invalid_service_version'')
      else bind_res (rfc3339 (sp_calendar_submitted_at p)) (\<lambda>calendar_text.
        let receipt = receipt_base p certificate service_version calendar_text in
        bind_res (case sp_verification p of
            None \<Rightarrow> Inr receipt
          | Some v \<Rightarrow>
              (case (bv_block_height v, bv_block_hash v, bv_block_time v, bv_confirmation_policy v, bv_verified_at v) of
                 (Some height, Some bhash, Some time, Some policy, Some verified_at) \<Rightarrow>
                   if \<not> bv_verified v then Inl (ValueError ''verified_receipt_metadata_incomplete'')
                   else bind_res (rfc3339 time) (\<lambda>time_text.
                        bind_res (rfc3339 verified_at) (\<lambda>verified_text.
                          Inr (receipt @ receipt_bitcoin height bhash time_text policy (bv_method v) verified_text)))
               | _ \<Rightarrow> Inl (ValueError ''verified_receipt_metadata_incomplete''))) (\<lambda>receipt.
          Inr (ascii_bytes (receipt_text '','' '':'' receipt @ [CHR 0x0A])))))"

section \<open>_validate_receipt\<close>

definition required_keys :: "string set" where
  "required_keys = {''schema_version'', ''order_reference'', ''certificate_reference'', ''manifest_sha256'', ''proof_sha256'',
     ''proof_bytes'', ''proof_state'', ''calendar_submitted_at'', ''service_version''}"

definition confirmation_keys :: "string set" where
  "confirmation_keys = {''bitcoin'', ''verification_method'', ''verified_at''}"

definition RECEIPT_KEYS :: "string set" where
  "RECEIPT_KEYS = required_keys \<union> confirmation_keys"

definition date_time :: "pyval \<Rightarrow> datetime option" where
  "date_time value =
     (case value of
        PStr s \<Rightarrow>
          (case fromisoformat (str_replace ''Z'' ''+00:00'' s) of
             Some (Aware t) \<Rightarrow> Some (Aware t)
           | _ \<Rightarrow> None)
      | _ \<Rightarrow> None)"

record bundle_context =
  bc_certificate_reference :: certificate_reference
  bc_service_version :: string

definition ProofBundleContext :: "bundle_context \<Rightarrow> exn + bundle_context" where
  "ProofBundleContext c =
     (if \<not> (1 \<le> length (bc_service_version c) \<and> length (bc_service_version c) \<le> 64)
      then Inl (ValueError ''bundle_service_version_invalid'') else Inr c)"

fun str_holds :: "(string \<Rightarrow> bool) \<Rightarrow> pyval \<Rightarrow> bool" where
  "str_holds P (PStr s) = P s"
| "str_holds P _ = False"

fun int_holds :: "(int \<Rightarrow> bool) \<Rightarrow> pyval \<Rightarrow> bool" where
  "int_holds P (PInt n) = P n"
| "int_holds P _ = False"

text \<open>The metadata of a verified receipt.\<close>

definition check_confirmation :: "(string \<times> pyval) list \<Rightarrow> stored_proof \<Rightarrow> exn + unit" where
  "check_confirmation typed p =
     (if \<not> confirmation_keys \<subseteq> dict_keys typed then Inl (ValueError ''verified_receipt_metadata_missing'')
      else (case dict_get typed ''bitcoin'' of
          PDict bitcoin \<Rightarrow>
            if dict_keys bitcoin \<noteq> {''block_height'', ''block_hash'', ''block_time'', ''confirmation_policy''}
            then Inl (ValueError ''bitcoin_receipt_metadata_invalid'')
            else (let height = dict_get bitcoin ''block_height''; bhash = dict_get bitcoin ''block_hash'';
                      policy = dict_get bitcoin ''confirmation_policy''; method_name = dict_get typed ''verification_method'';
                      bounded = (\<lambda>s. 1 \<le> length s \<and> length s \<le> 128)
              in if \<not> int_holds (\<lambda>n. 0 \<le> n) height \<or> \<not> str_holds LOWER_SHA256 bhash \<or>
                    date_time (dict_get bitcoin ''block_time'') = None \<or> \<not> str_holds bounded policy \<or>
                    \<not> str_holds bounded method_name \<or> date_time (dict_get typed ''verified_at'') = None
                 then Inl (ValueError ''bitcoin_receipt_metadata_invalid'')
                 else (case sp_verification p of
                     None \<Rightarrow> Inl (ValueError ''receipt_verification_metadata_mismatch'')
                   | Some v \<Rightarrow>
                       (case (bv_block_time v, bv_verified_at v) of
                          (Some time, Some verified_at) \<Rightarrow>
                            if \<not> int_holds (\<lambda>n. bv_block_height v = Some n) height \<or>
                               \<not> str_holds (\<lambda>s. bv_block_hash v = Some s) bhash \<or>
                               \<not> str_holds (\<lambda>s. bv_confirmation_policy v = Some s) policy \<or>
                               \<not> str_holds (\<lambda>s. bv_method v = s) method_name \<or>
                               date_time (dict_get bitcoin ''block_time'') \<noteq> Some (aware time) \<or>
                               date_time (dict_get typed ''verified_at'') \<noteq> Some (aware verified_at)
                            then Inl (ValueError ''receipt_verification_metadata_mismatch'') else Inr ()
                        | _ \<Rightarrow> Inl (ValueError ''receipt_verification_metadata_mismatch'')))
               )
        | _ \<Rightarrow> Inl (ValueError ''bitcoin_receipt_metadata_invalid'')))"

definition validate_receipt :: "pyval \<Rightarrow> stored_proof \<Rightarrow> bundle_context \<Rightarrow> exn + (string \<times> pyval) list" where
  "validate_receipt receipt p context =
     (case receipt of
        PDict typed \<Rightarrow>
          (let get = dict_get typed; calendar_time = date_time (get ''calendar_submitted_at'') in
           if \<not> dict_keys typed \<subseteq> RECEIPT_KEYS then Inl (ValueError ''receipt_schema_fields_invalid'')
           else if \<not> required_keys \<subseteq> dict_keys typed then Inl (ValueError ''receipt_schema_fields_missing'')
           else if get ''schema_version'' \<noteq> PStr ''1.0.0'' \<or> \<not> str_holds ORDER_REFERENCE (get ''order_reference'') \<or>
                   \<not> str_holds CERTIFICATE (get ''certificate_reference'') \<or>
                   \<not> str_holds (\<lambda>s. 1 \<le> length s \<and> length s \<le> 64) (get ''service_version'') \<or> calendar_time = None
           then Inl (ValueError ''receipt_schema_values_invalid'')
           else if get ''certificate_reference'' \<noteq> PStr (bc_certificate_reference context)
           then Inl (ValueError ''receipt_certificate_reference_mismatch'')
           else if get ''service_version'' \<noteq> PStr (bc_service_version context)
           then Inl (ValueError ''receipt_service_version_mismatch'')
           else if get ''order_reference'' \<noteq> PStr (sp_order_reference p) \<or>
                   get ''manifest_sha256'' \<noteq> PStr (digest_hex (sp_target_digest p)) \<or>
                   get ''proof_sha256'' \<noteq> PStr (hex (sp_proof_sha256 p)) \<or>
                   get ''proof_bytes'' \<noteq> PInt (int (length (sp_proof_bytes p)))
           then Inl (ValueError ''receipt_proof_binding_mismatch'')
           else if \<not> str_holds LOWER_SHA256 (get ''manifest_sha256'') \<or> \<not> str_holds LOWER_SHA256 (get ''proof_sha256'')
           then Inl (ValueError ''receipt_digest_invalid'')
           else if get ''proof_state'' \<noteq> PStr (proof_state_value (sp_proof_state p))
           then Inl (ValueError ''receipt_proof_state_mismatch'')
           else if calendar_time \<noteq> Some (aware (sp_calendar_submitted_at p))
           then Inl (ValueError ''receipt_calendar_time_mismatch'')
           else if sp_proof_state p = PS_CALENDAR_PENDING \<and> confirmation_keys \<inter> dict_keys typed \<noteq> {}
           then Inl (ValueError ''pending_receipt_cannot_claim_confirmation'')
           else if sp_proof_state p = PS_CALENDAR_PENDING \<and> sp_verification p \<noteq> None
           then Inl (ValueError ''pending_proof_cannot_carry_verification'')
           else bind_res (if sp_proof_state p = PS_BITCOIN_VERIFIED then check_confirmation typed p else Inr ()) (\<lambda>_.
             if contains (str_lower (receipt_text '', '' '': '' typed)) ''@''
             then Inl (ValueError ''receipt_private_data_forbidden'') else Inr typed))
      | _ \<Rightarrow> Inl (ValueError ''receipt_schema_fields_invalid''))"

unbundle bit_operations_syntax

section \<open>zipfile\<close>

text \<open>\<open>zlib.crc32\<close>.\<close>

definition crc_step :: "32 word \<Rightarrow> 32 word" where
  "crc_step c = (if bit c 0 then drop_bit 1 c XOR 0xEDB88320 else drop_bit 1 c)"

definition crc_byte :: "8 word \<Rightarrow> 32 word \<Rightarrow> 32 word" where
  "crc_byte b c = (crc_step ^^ 8) (c XOR ucast b)"

definition crc32 :: "bytes \<Rightarrow> nat" where
  "crc32 bs = unat (NOT (fold crc_byte bs (NOT 0)))"


text \<open>One entry: its name and content. The date is \<open>_FIXED_ZIP_TIME\<close>, the attributes those of \<open>_zip_info\<close>.\<close>

definition DOS_TIME :: nat where "DOS_TIME = 0"
definition DOS_DATE :: nat where "DOS_DATE = (2020 - 1980) * 512 + 1 * 32 + 1"
definition EXTERNAL_ATTR :: nat where "EXTERNAL_ATTR = 0x81A4 * 65536"

definition entry_fields :: "string \<Rightarrow> bytes \<Rightarrow> bytes" where
  "entry_fields name content =
     le_bytes 2 0 @ le_bytes 2 0 @ le_bytes 2 DOS_TIME @ le_bytes 2 DOS_DATE @ le_bytes 4 (crc32 content) @
     le_bytes 4 (length content) @ le_bytes 4 (length content) @ le_bytes 2 (length name) @ le_bytes 2 0"

definition local_entry :: "string \<times> bytes \<Rightarrow> bytes" where
  "local_entry e = (case e of (name, content) \<Rightarrow>
     [0x50, 0x4B, 0x03, 0x04] @ [20, 0] @ entry_fields name content @ ascii_bytes name @ content)"

definition central_entry :: "nat \<Rightarrow> string \<times> bytes \<Rightarrow> bytes" where
  "central_entry offset e = (case e of (name, content) \<Rightarrow>
     [0x50, 0x4B, 0x01, 0x02] @ [20, 3] @ [20, 0] @ entry_fields name content @ le_bytes 2 0 @ le_bytes 2 0 @ le_bytes 2 0 @
     le_bytes 4 EXTERNAL_ATTR @ le_bytes 4 offset @ ascii_bytes name)"

fun central_directory :: "nat \<Rightarrow> (string \<times> bytes) list \<Rightarrow> bytes" where
  "central_directory offset [] = []"
| "central_directory offset (e # es) = central_entry offset e @ central_directory (offset + length (local_entry e)) es"

definition zip_archive :: "(string \<times> bytes) list \<Rightarrow> bytes" where
  "zip_archive es =
     (let body = concat (map local_entry es); directory = central_directory 0 es
      in body @ directory @ [0x50, 0x4B, 0x05, 0x06] @ le_bytes 2 0 @ le_bytes 2 0 @ le_bytes 2 (length es) @ le_bytes 2 (length es) @
         le_bytes 4 (length directory) @ le_bytes 4 (length body) @ le_bytes 2 0)"

section \<open>DeterministicProofBundler\<close>

definition checksum_line :: "(bytes \<Rightarrow> bytes) \<Rightarrow> string \<times> bytes \<Rightarrow> string" where
  "checksum_line sha f = hex (sha (snd f)) @ ''  '' @ fst f @ [CHR 0x0A]"

definition readme :: "bool \<Rightarrow> bytes" where
  "readme pending = ascii_bytes
     (''Spacerocks supplemental OpenTimestamps proof'' @ [CHR 0x0A, CHR 0x0A] @
      ''This package is separate from the original signed COA. It proves only that the exact'' @ [CHR 0x0A] @
      ''manifest SHA-256 digest was timestamped; it does not prove identity, ownership, or authenticity.'' @ [CHR 0x0A] @
      (if pending then ''Status: PENDING. Calendar submission is not Bitcoin confirmation.''
       else ''Status: BITCOIN VERIFIED under the policy recorded in timestamp-receipt.json.'') @ [CHR 0x0A])"

definition instructions :: bytes where
  "instructions = ascii_bytes
     (''Keep the original manifest.json and manifest.json.ots together.'' @ [CHR 0x0A] @
      ''Verify sha256sums.txt, then use an independent OpenTimestamps client to verify the proof.'' @ [CHR 0x0A] @
      ''A pending calendar attestation must not be treated as Bitcoin confirmation.'' @ [CHR 0x0A])"

definition bundle_files :: "(bytes \<Rightarrow> bytes) \<Rightarrow> stored_proof \<Rightarrow> bytes \<Rightarrow> (string \<times> bytes) list" where
  "bundle_files sha p receipt_json =
     (let files = [(''README-FIRST.txt'', readme (sp_proof_state p = PS_CALENDAR_PENDING)),
            (''manifest.json.ots'', sp_proof_bytes p), (''timestamp-receipt.json'', receipt_json),
            (''verification-instructions.txt'', instructions)]
      in files @ [(''sha256sums.txt'', ascii_bytes (concat (map (checksum_line sha) files)))])"

text \<open>\<open>json.loads\<close> of a text in ASCII.\<close>

definition loads_ascii :: "bytes \<Rightarrow> pyval option" where
  "loads_ascii bs = (if list_all (\<lambda>b. unat b < 128) bs then loads (map (\<lambda>b. char_of (unat b)) bs) else None)"

definition bundler_build :: "ots_library \<Rightarrow> stored_proof \<Rightarrow> bytes \<Rightarrow> bundle_context \<Rightarrow> exn + bytes" where
  "bundler_build lib p receipt_json context =
     bind_res (validate_proof lib (sp_target_digest p) (sp_proof_bytes p) (Some (sp_proof_sha256 p))) (\<lambda>_.
       if receipt_json = [] \<or> 64 * 1024 < length receipt_json then Inl (ValueError ''receipt_json_size_invalid'')
       else (case loads_ascii receipt_json of
           None \<Rightarrow> Inl (ValueError ''receipt_json_invalid'')
         | Some receipt \<Rightarrow>
             bind_res (validate_receipt receipt p context) (\<lambda>_.
               let bundle = zip_archive (bundle_files (ots_sha256 lib) p receipt_json)
               in if 12 * 1024 * 1024 < length bundle then Inl (ValueError ''proof_bundle_too_large'') else Inr bundle)))"

definition safe_bundle_char :: "char \<Rightarrow> bool" where
  "safe_bundle_char c \<longleftrightarrow> is_alnum c \<or> c \<in> set ''._-''"

text \<open>\<open>re.sub(r"[^A-Za-z0-9._-]+", "_", s)\<close>: a run of other characters becomes one underscore.\<close>

fun replace_unsafe :: "bool \<Rightarrow> string \<Rightarrow> string" where
  "replace_unsafe in_run [] = []"
| "replace_unsafe in_run (c # cs) =
     (if safe_bundle_char c then c # replace_unsafe False cs
      else if in_run then replace_unsafe True cs else CHR ''_'' # replace_unsafe True cs)"

definition safe_bundle_filename :: "certificate_reference \<Rightarrow> string" where
  "safe_bundle_filename certificate =
     (let safe = take 96 (strip_chars (\<lambda>c. c \<in> set ''._-'') (replace_unsafe False certificate))
      in (if safe = [] then ''certificate'' else safe) @ ''-bitcoin-timestamp.zip'')"


section \<open>The archive holds its files\<close>

text \<open>A reader of the local entries, from the sizes in their headers.\<close>

function read_entries :: "bytes \<Rightarrow> (string \<times> bytes) list" where
  "read_entries bs =
     (if length bs < 30 \<or> take 4 bs \<noteq> [0x50, 0x4B, 0x03, 0x04] then []
      else let size = le_value (take 4 (drop 18 bs)); name_size = le_value (take 2 (drop 26 bs)); rest = drop 30 bs
        in (map (\<lambda>b. char_of (unat b)) (take name_size rest), take size (drop name_size rest)) #
           read_entries (drop (name_size + size) rest))"
  by pat_completeness auto
termination
  by (relation "measure length") auto

declare read_entries.simps [simp del]

definition storable :: "string \<times> bytes \<Rightarrow> bool" where
  "storable e \<longleftrightarrow> length (fst e) < 2 ^ 16 \<and> length (snd e) < 2 ^ 32"

lemma word_of_code [simp]: "char_of (unat (word_of_nat (code c) :: 8 word)) = c"
  using nat_of_char_less_256 [of c] by (simp add: unat_of_nat code_def take_bit_eq_mod)

lemma ascii_bytes_text [simp]: "map (\<lambda>b. char_of (unat b)) (ascii_bytes s) = s"
  by (simp add: ascii_bytes_def comp_def)

lemma length_ascii_bytes [simp]: "length (ascii_bytes s) = length s"
  by (simp add: ascii_bytes_def)

lemma read_local_entry:
  assumes "storable (name, content)"
  shows "read_entries (local_entry (name, content) @ r) = (name, content) # read_entries r"
proof -
  have sizes: "le_value (le_bytes 4 (length content)) = length content" "le_value (le_bytes 2 (length name)) = length name"
    using assms by (simp_all add: le_value_le_bytes storable_def)
  have "drop 18 (local_entry (name, content) @ r) = le_bytes 4 (length content) @ le_bytes 4 (length content) @
      le_bytes 2 (length name) @ le_bytes 2 0 @ ascii_bytes name @ content @ r"
    "drop 26 (local_entry (name, content) @ r) = le_bytes 2 (length name) @ le_bytes 2 0 @ ascii_bytes name @ content @ r"
    "drop 30 (local_entry (name, content) @ r) = ascii_bytes name @ content @ r"
    by (simp_all add: local_entry_def entry_fields_def)
  moreover have "\<not> length (local_entry (name, content) @ r) < 30" "take 4 (local_entry (name, content) @ r) = [0x50, 0x4B, 0x03, 0x04]"
    by (simp_all add: local_entry_def entry_fields_def)
  moreover have "drop (length name) (ascii_bytes name @ content @ r) = content @ r"
    "drop (length name + length content) (ascii_bytes name @ content @ r) = r" by simp_all
  ultimately show ?thesis using sizes by (subst read_entries.simps) (simp add: Let_def del: drop_append)
qed

lemma read_other: "take 4 bs = [0x50, 0x4B, a, b] \<Longrightarrow> a \<noteq> 3 \<Longrightarrow> read_entries bs = []"
  by (subst read_entries.simps) simp

lemma read_zip_archive:
  assumes "\<forall>e \<in> set es. storable e"
  shows "read_entries (zip_archive es) = es"
proof -
  have ends: "read_entries (central_directory k es' @ [0x50, 0x4B, 0x05, 0x06] @ r) = []" for k es' r
    by (cases es') (auto intro!: read_other simp: central_entry_def split: prod.split)
  have "read_entries (concat (map local_entry es) @ r) = es @ read_entries r" for r
    using assms by (induction es) (auto simp: read_local_entry)
  then show ?thesis unfolding zip_archive_def Let_def using ends by simp
qed

section \<open>The text of a receipt\<close>

text \<open>The characters of the strings of a value, and what may be in its text beside them.\<close>

fun chars_of :: "pyval \<Rightarrow> char set" where
  "chars_of (PStr s) = set s"
| "chars_of (PList vs) = (\<Union>v \<in> set vs. chars_of v)"
| "chars_of (PDict d) = (\<Union>(k, v) \<in> set d. set k \<union> chars_of v)"
| "chars_of _ = {}"

definition json_marks :: string where
  "json_marks = [CHR 0x22] @ ''{}[],: -nultrefas0123456789''"

lemma json_string_chars:
  assumes "P (CHR 0x22)" "\<forall>c \<in> set s. list_all P (json_escape c)"
  shows "list_all P (json_string s)"
  using assms by (auto simp: json_string_def list_all_iff)

lemma join_chars:
  "list_all P sep \<Longrightarrow> \<forall>x \<in> set xs. list_all P x \<Longrightarrow> list_all P (join_strings sep xs)"
  by (induction sep xs rule: join_strings.induct) simp_all

lemma digit_marks: "is_digit c \<Longrightarrow> c \<in> set ''0123456789''"
proof -
  assume "is_digit c"
  then have "48 \<le> code c \<and> code c \<le> 57" by (simp add: is_digit_def)
  then have "code c = 48 \<or> code c = 49 \<or> code c = 50 \<or> code c = 51 \<or> code c = 52 \<or> code c = 53 \<or> code c = 54 \<or>
      code c = 55 \<or> code c = 56 \<or> code c = 57" by presburger
  moreover have "c = char_of (code c)" by (simp add: code_def)
  moreover have "char_of (48 :: nat) = CHR ''0''" "char_of (49 :: nat) = CHR ''1''" "char_of (50 :: nat) = CHR ''2''"
    "char_of (51 :: nat) = CHR ''3''" "char_of (52 :: nat) = CHR ''4''" "char_of (53 :: nat) = CHR ''5''"
    "char_of (54 :: nat) = CHR ''6''" "char_of (55 :: nat) = CHR ''7''" "char_of (56 :: nat) = CHR ''8''"
    "char_of (57 :: nat) = CHR ''9''" by code_simp+
  ultimately show ?thesis by auto
qed

lemma dumps_chars:
  assumes "list_all P isep" "list_all P ksep" "list_all P json_marks"
  shows "plain v \<Longrightarrow> \<forall>c \<in> chars_of v. list_all P (json_escape c) \<Longrightarrow> list_all P (dumps fr isep ksep v)"
proof (induction v)
  case (PInt n)
  have "\<forall>c \<in> set (nat_str k). P c" for k
    using nat_str_digits [of k] digit_marks assms(3) by (auto simp: list_all_iff json_marks_def)
  then show ?case using assms(3) by (simp add: int_str_def list_all_iff json_marks_def)
next
  case (PList vs)
  then have "list_all P (join_strings isep (map (dumps fr isep ksep) vs))" by (intro join_chars assms) auto
  then show ?case using assms(3) by (simp add: json_marks_def)
next
  case (PDict d)
  have quote: "P (CHR 0x22)" using assms(3) by (simp add: json_marks_def)
  have "list_all P (json_string k @ ksep @ dumps fr isep ksep v)" if "(k, v) \<in> set d" for k v
  proof -
    have "list_all P (json_string k)" using PDict.prems(2) that by (intro json_string_chars quote) force
    moreover have "list_all P (dumps fr isep ksep v)" using PDict that by force
    ultimately show ?thesis using assms(2) by simp
  qed
  then have "list_all P (join_strings isep (map (\<lambda>(k, v). json_string k @ ksep @ dumps fr isep ksep v) d))"
    by (intro join_chars assms) auto
  then show ?case using assms(3) by (simp add: json_marks_def)
qed (use assms(3) in \<open>auto simp: json_marks_def intro!: json_string_chars\<close>)

lemma json_escape_ascii: "list_all (\<lambda>c. code c < 128) (json_escape c)"
proof -
  have "code c < 256" using nat_of_char_less_256 [of c] by (simp add: code_def)
  then have "code c div 16 < 16" by simp
  moreover have "code (hex_digit n) < 128" if "n < 16" for n using that by (simp add: hex_digit_def code_def)
  moreover have "code (CHR 0x5C) < 128" "code (CHR 0x22) < 128" "code (CHR ''n'') < 128" "code (CHR ''r'') < 128"
    "code (CHR ''t'') < 128" "code (CHR ''f'') < 128" "code (CHR ''b'') < 128" "code (CHR ''u'') < 128" "code (CHR ''0'') < 128"
    by (simp_all add: code_def)
  ultimately show ?thesis by (simp add: json_escape_def)
qed

lemma json_escape_no_at: "c \<noteq> CHR ''@'' \<Longrightarrow> list_all (\<lambda>c. c \<noteq> CHR ''@'') (json_escape c)"
proof -
  assume "c \<noteq> CHR ''@''"
  have "code c < 256" using nat_of_char_less_256 [of c] by (simp add: code_def)
  then have "code c div 16 < 16" by simp
  moreover have "hex_digit n \<noteq> CHR ''@''" if "n < 16" for n
    using hex_digit_lower_hex [OF that] by (auto simp: is_lower_hex_def is_digit_def code_def)
  ultimately show ?thesis using \<open>c \<noteq> CHR ''@''\<close> by (simp add: json_escape_def)
qed

lemma dumps_ascii:
  assumes "list_all (\<lambda>c. code c < 128) isep" "list_all (\<lambda>c. code c < 128) ksep" "plain v"
  shows "list_all (\<lambda>c. code c < 128) (dumps fr isep ksep v)"
proof -
  have "list_all (\<lambda>c. code c < 128) json_marks" by (simp add: json_marks_def code_def)
  then show ?thesis using dumps_chars [OF assms(1,2) _ assms(3)] json_escape_ascii by blast
qed

lemma contains_single: "contains s [c] \<longleftrightarrow> c \<in> set s"
  by (induction s) auto

lemma lower_at: "CHR ''@'' \<in> set (str_lower s) \<longleftrightarrow> CHR ''@'' \<in> set s"
proof -
  have "lower_char c = CHR ''@'' \<longleftrightarrow> c = CHR ''@''" for c
  proof (cases "lower_char c = c")
    case False
    then have "lower_char c = char_of (code c + 32)" "65 \<le> code c" "code c \<le> 222"
      by (auto simp: lower_char_def is_upper_def split: if_splits)
    then have "code (lower_char c) = code c + 32" "code c \<noteq> 64" by (simp_all add: code_def)
    moreover have "code (CHR ''@'') = 64" by (simp add: code_def)
    ultimately show ?thesis using \<open>65 \<le> code c\<close> by auto
  qed simp
  then show ?thesis unfolding str_lower_def set_map image_iff by metis
qed

lemma plain_sort [simp]: "plain (sort_dicts v) = plain v"
  by (induction v) (auto simp: case_prod_beta)

lemma code_ascii_word: "code c < 128 \<Longrightarrow> unat (word_of_nat (code c) :: 8 word) < 128"
  by (simp add: unat_of_nat take_bit_eq_mod)

lemma loads_receipt:
  assumes "plain (PDict d)"
  shows "loads_ascii (ascii_bytes (receipt_text '','' '':'' d @ [CHR 0x0A])) = Some (sort_dicts (PDict d))"
proof -
  have marks: "code (CHR '','') < 128" "code (CHR '':'') < 128" "code (CHR 0x0A) < 128" by (simp_all add: code_def)
  have ascii: "list_all (\<lambda>c. code c < 128) (receipt_text '','' '':'' d @ [CHR 0x0A])"
    using dumps_ascii [of "'',''" "'':''" "sort_dicts (PDict d)" "\<lambda>_. []"] assms marks
    by (simp add: receipt_text_def del: sort_dicts.simps dumps.simps)
  have "loads (receipt_text '','' '':'' d @ [CHR 0x0A]) = Some (sort_dicts (PDict d))"
  proof -
    have "blank [CHR 0x0A]" "blank []" by (simp_all add: blank_def code_def)
    then show ?thesis
      using loads_dumps [of "[]" "[]" "sort_dicts (PDict d)" "[CHR 0x0A]" "\<lambda>_. []"] assms
      by (simp add: receipt_text_def del: sort_dicts.simps dumps.simps)
  qed
  moreover have "list_all (\<lambda>b. unat b < 128) (ascii_bytes (receipt_text '','' '':'' d @ [CHR 0x0A]))"
    using ascii code_ascii_word by (auto simp: ascii_bytes_def list_all_iff)
  ultimately show ?thesis by (simp only: loads_ascii_def ascii_bytes_text if_True)
qed

lemma map_of_sorted_distinct: "distinct (map fst d) \<Longrightarrow> distinct (map fst (sort_key fst d))"
  by (simp add: distinct_map)

lemma map_of_sorted:
  assumes "distinct (map fst d)"
  shows "map_of (sort_key fst d) = map_of d"
proof -
  have "distinct (map fst (sort_key fst d))" by (rule map_of_sorted_distinct [OF assms])
  then show ?thesis using assms by (subst map_of_inject_set) simp_all
qed

lemma map_of_rev_distinct: "distinct (map fst d) \<Longrightarrow> map_of (rev d) = map_of d"
  by (subst map_of_inject_set) (simp_all add: rev_map [symmetric])

text \<open>Sorting the keys changes no entry.\<close>

definition sorted_items :: "(string \<times> pyval) list \<Rightarrow> (string \<times> pyval) list" where
  "sorted_items d = sort_key fst (map (\<lambda>(k, v). (k, sort_dicts v)) d)"

lemma sort_dicts_PDict: "sort_dicts (PDict d) = PDict (sorted_items d)"
  by (simp add: sorted_items_def)

lemma dict_get_sorted:
  assumes "distinct (map fst d)"
  shows "dict_get (sorted_items d) k = sort_dicts (dict_get d k)"
proof -
  let ?d = "map (\<lambda>(k, v). (k, sort_dicts v)) d"
  have keys: "map fst ?d = map fst d" by (simp add: comp_def case_prod_beta)
  have "distinct (map fst (sort_key fst ?d))"
    by (rule map_of_sorted_distinct) (simp only: keys assms)
  then have "map_of (rev (sort_key fst ?d)) = map_of (sort_key fst ?d)" by (rule map_of_rev_distinct)
  also have "\<dots> = map_of ?d" by (rule map_of_sorted) (simp only: keys assms)
  finally have "map_of (rev (sort_key fst ?d)) k = map_of ?d k" by simp
  also have "map_of ?d k = map_option sort_dicts (map_of d k)"
    by (induction d) auto
  finally show ?thesis
    using map_of_rev_distinct [OF assms] by (simp add: dict_get_def sorted_items_def split: option.split)
qed

lemma dict_keys_sorted [simp]: "dict_keys (sorted_items d) = dict_keys d"
  by (force simp: dict_keys_def sorted_items_def)

section \<open>The times of a receipt\<close>

lemma date_text_chars: "\<forall>c \<in> set (date_text t @ ''T'' @ clock_text t). c \<noteq> CHR ''+'' \<and> c \<noteq> CHR ''Z'' \<and> c \<noteq> CHR ''@''"
proof -
  have digits: "\<forall>c \<in> set (zero_padded w n). c \<noteq> CHR ''+'' \<and> c \<noteq> CHR ''Z'' \<and> c \<noteq> CHR ''@''" for w n
    using zero_padded_digits [of w n] by (auto simp: list_all_iff is_digit_def code_def dest!: bspec)
  obtain y m d where "date_of t = (y, m, d)" by (cases "date_of t") auto
  then show ?thesis using digits by (auto simp: date_text_def clock_text_def Let_def simp del: zero_padded.simps)
qed

lemma date_time_rfc3339:
  assumes "rfc3339 d = Inr s" "representable d"
  shows "date_time (PStr s) = Some (Aware (micros d - micros d mod 1000000))" "is_aware d"
proof -
  show aware: "is_aware d" using assms(1) by (simp add: rfc3339_def split: if_splits)
  define body where "body = date_text (micros d) @ ''T'' @ clock_text (micros d)"
  have iso: "isoformat_seconds d = body @ ''+00:00''" using aware by (simp add: isoformat_seconds_def body_def offset_text_def)
  have chars: "\<forall>c \<in> set body. c \<noteq> hd ''+00:00''" "\<forall>c \<in> set body. c \<noteq> hd ''Z''"
    using date_text_chars [of "micros d"] by (auto simp: body_def)
  have "s = body @ ''Z''"
    using assms(1) str_replace_skip [OF chars(1), of "''Z''" "''+00:00''"] str_replace_match [of "''+00:00''" "''Z''" "[]"]
    by (simp add: rfc3339_def aware iso)
  then have "str_replace ''Z'' ''+00:00'' s = isoformat_seconds d"
    using str_replace_skip [OF chars(2), of "''+00:00''" "''Z''"] str_replace_match [of "''Z''" "''+00:00''" "[]"] by (simp add: iso)
  then show "date_time (PStr s) = Some (Aware (micros d - micros d mod 1000000))"
    using fromisoformat_seconds [OF assms(2) aware] by (simp add: date_time_def)
qed

lemma date_time_rfc3339_iff:
  assumes "rfc3339 d = Inr s" "representable d"
  shows "date_time (PStr s) = Some (aware d) \<longleftrightarrow> whole_second d"
  using date_time_rfc3339 [OF assms] by (simp add: aware_def whole_second_def)


section \<open>The receipts of the service\<close>

definition receipt_items ::
  "stored_proof \<Rightarrow> certificate_reference \<Rightarrow> string \<Rightarrow> string \<Rightarrow> (int \<times> string \<times> string \<times> string \<times> string \<times> string) option
     \<Rightarrow> (string \<times> pyval) list" where
  "receipt_items p certificate version calendar_text m =
     receipt_base p certificate version calendar_text @
     (case m of None \<Rightarrow> [] | Some (h, b, t, policy, method_name, vt) \<Rightarrow> receipt_bitcoin h b t policy method_name vt)"

lemma dict_get_member: "distinct (map fst d) \<Longrightarrow> (k, v) \<in> set d \<Longrightarrow> dict_get d k = v"
  using map_of_rev_distinct [of d] by (simp add: dict_get_def)

lemma base_keys: "map fst (receipt_base p certificate version calendar_text) =
    [''schema_version'', ''order_reference'', ''certificate_reference'', ''manifest_sha256'', ''proof_sha256'', ''proof_bytes'',
     ''proof_state'', ''calendar_submitted_at'', ''service_version'']"
  by (simp add: receipt_base_def)

lemma bitcoin_keys: "map fst (receipt_bitcoin h b t policy method_name vt) = [''bitcoin'', ''verification_method'', ''verified_at'']"
  by (simp add: receipt_bitcoin_def)

lemma receipt_items_keys:
  "distinct (map fst (receipt_items p certificate version calendar_text m))"
  "dict_keys (receipt_items p certificate version calendar_text m) = (if m = None then required_keys else RECEIPT_KEYS)"
proof -
  have keys: "map fst (receipt_items p certificate version calendar_text m) =
      [''schema_version'', ''order_reference'', ''certificate_reference'', ''manifest_sha256'', ''proof_sha256'', ''proof_bytes'',
       ''proof_state'', ''calendar_submitted_at'', ''service_version''] @
      (if m = None then [] else [''bitcoin'', ''verification_method'', ''verified_at''])"
    by (cases m) (auto simp: receipt_items_def base_keys bitcoin_keys split: prod.split)
  show "distinct (map fst (receipt_items p certificate version calendar_text m))"
    unfolding keys by (cases m) simp_all
  show "dict_keys (receipt_items p certificate version calendar_text m) = (if m = None then required_keys else RECEIPT_KEYS)"
  proof -
    have "dict_keys (receipt_items p certificate version calendar_text m) = set (map fst (receipt_items p certificate version calendar_text m))"
      by (simp add: dict_keys_def)
    then show ?thesis
      unfolding keys required_keys_def RECEIPT_KEYS_def confirmation_keys_def
      by (cases "m = None") (simp_all only: simp_thms set_append list.set if_True if_False Un_empty_right)
  qed
qed

lemma receipt_items_plain: "plain (PDict (receipt_items p certificate version calendar_text m))"
  by (cases m) (auto simp: receipt_items_def receipt_base_def receipt_bitcoin_def)

lemma receipt_items_get:
  fixes p certificate version calendar_text m
  defines "get \<equiv> dict_get (sorted_items (receipt_items p certificate version calendar_text m))"
  shows "get ''schema_version'' = PStr ''1.0.0''" "get ''order_reference'' = PStr (sp_order_reference p)"
    "get ''certificate_reference'' = PStr certificate" "get ''manifest_sha256'' = PStr (digest_hex (sp_target_digest p))"
    "get ''proof_sha256'' = PStr (hex (sp_proof_sha256 p))" "get ''proof_bytes'' = PInt (int (length (sp_proof_bytes p)))"
    "get ''proof_state'' = PStr (proof_state_value (sp_proof_state p))" "get ''calendar_submitted_at'' = PStr calendar_text"
    "get ''service_version'' = PStr version"
proof -
  have member: "get k = sort_dicts w" if "(k, w) \<in> set (receipt_base p certificate version calendar_text)" for k w
    unfolding get_def dict_get_sorted [OF receipt_items_keys(1)]
    using that by (subst dict_get_member [OF receipt_items_keys(1)]) (auto simp: receipt_items_def)
  have str: "get k = PStr s" if "(k, PStr s) \<in> set (receipt_base p certificate version calendar_text)" for k s
    using member [OF that] by simp
  show "get ''schema_version'' = PStr ''1.0.0''" by (rule str) (simp add: receipt_base_def)
  show "get ''order_reference'' = PStr (sp_order_reference p)" by (rule str) (simp add: receipt_base_def)
  show "get ''certificate_reference'' = PStr certificate" by (rule str) (simp add: receipt_base_def)
  show "get ''manifest_sha256'' = PStr (digest_hex (sp_target_digest p))" by (rule str) (simp add: receipt_base_def)
  show "get ''proof_sha256'' = PStr (hex (sp_proof_sha256 p))" by (rule str) (simp add: receipt_base_def)
  show "get ''proof_bytes'' = PInt (int (length (sp_proof_bytes p)))"
    using member [of "''proof_bytes''" "PInt (int (length (sp_proof_bytes p)))"] by (simp add: receipt_base_def)
  show "get ''proof_state'' = PStr (proof_state_value (sp_proof_state p))" by (rule str) (simp add: receipt_base_def)
  show "get ''calendar_submitted_at'' = PStr calendar_text" by (rule str) (simp add: receipt_base_def)
  show "get ''service_version'' = PStr version" by (rule str) (simp add: receipt_base_def)
qed

lemma receipt_items_bitcoin:
  fixes p certificate version calendar_text m
  assumes "m = Some (h, b, t, policy, method_name, vt)"
  defines "get \<equiv> dict_get (sorted_items (receipt_items p certificate version calendar_text m))"
  shows "get ''bitcoin'' = PDict (sorted_items [(''block_height'', PInt h), (''block_hash'', PStr b), (''block_time'', PStr t),
      (''confirmation_policy'', PStr policy)])"
    "get ''verification_method'' = PStr method_name" "get ''verified_at'' = PStr vt"
proof -
  have member: "get k = sort_dicts w" if "(k, w) \<in> set (receipt_bitcoin h b t policy method_name vt)" for k w
    unfolding get_def dict_get_sorted [OF receipt_items_keys(1)]
    using that assms(1) by (subst dict_get_member [OF receipt_items_keys(1)]) (auto simp: receipt_items_def)
  have str: "get k = PStr s" if "(k, PStr s) \<in> set (receipt_bitcoin h b t policy method_name vt)" for k s
    using member [OF that] by simp
  show "get ''bitcoin'' = PDict (sorted_items [(''block_height'', PInt h), (''block_hash'', PStr b), (''block_time'', PStr t),
      (''confirmation_policy'', PStr policy)])"
    unfolding sort_dicts_PDict [symmetric] by (rule member) (simp add: receipt_bitcoin_def)
  show "get ''verification_method'' = PStr method_name" by (rule str) (simp add: receipt_bitcoin_def)
  show "get ''verified_at'' = PStr vt" by (rule str) (simp add: receipt_bitcoin_def)
qed

lemma bitcoin_items_get:
  fixes h b t policy
  defines "d \<equiv> sorted_items [(''block_height'', PInt h), (''block_hash'', PStr b), (''block_time'', PStr t), (''confirmation_policy'', PStr policy)]"
  shows "dict_get d ''block_height'' = PInt h" "dict_get d ''block_hash'' = PStr b" "dict_get d ''block_time'' = PStr t"
    "dict_get d ''confirmation_policy'' = PStr policy"
    "dict_keys d = {''block_height'', ''block_hash'', ''block_time'', ''confirmation_policy''}"
proof -
  let ?items = "[(''block_height'', PInt h), (''block_hash'', PStr b), (''block_time'', PStr t), (''confirmation_policy'', PStr policy)]"
  have "distinct (map fst ?items)" by simp
  from dict_get_sorted [OF this] show "dict_get d ''block_height'' = PInt h" "dict_get d ''block_hash'' = PStr b"
    "dict_get d ''block_time'' = PStr t" "dict_get d ''confirmation_policy'' = PStr policy"
    unfolding d_def by (simp_all add: dict_get_def)
  show "dict_keys d = {''block_height'', ''block_hash'', ''block_time'', ''confirmation_policy''}"
    unfolding d_def dict_keys_sorted by (simp add: dict_keys_def)
qed

lemma build_receipt_Inr:
  assumes "build_receipt p certificate version = Inr r"
  obtains calendar_text m where "rfc3339 (sp_calendar_submitted_at p) = Inr calendar_text"
    "r = ascii_bytes (receipt_text '','' '':'' (receipt_items p certificate version calendar_text m) @ [CHR 0x0A])"
proof -
  from assms obtain calendar_text receipt where t: "rfc3339 (sp_calendar_submitted_at p) = Inr calendar_text"
    and receipt: "(case sp_verification p of
            None \<Rightarrow> Inr (receipt_base p certificate version calendar_text)
          | Some v \<Rightarrow>
              (case (bv_block_height v, bv_block_hash v, bv_block_time v, bv_confirmation_policy v, bv_verified_at v) of
                 (Some height, Some bhash, Some time, Some policy, Some verified_at) \<Rightarrow>
                   if \<not> bv_verified v then Inl (ValueError ''verified_receipt_metadata_incomplete'')
                   else bind_res (rfc3339 time) (\<lambda>time_text.
                        bind_res (rfc3339 verified_at) (\<lambda>verified_text.
                          Inr (receipt_base p certificate version calendar_text @
                            receipt_bitcoin height bhash time_text policy (bv_method v) verified_text)))
               | _ \<Rightarrow> Inl (ValueError ''verified_receipt_metadata_incomplete''))) = Inr receipt"
    and r: "r = ascii_bytes (receipt_text '','' '':'' receipt @ [CHR 0x0A])"
    by (auto simp: build_receipt_def Let_def bind_res_Inr_iff split: if_splits)
  have "\<exists>m. receipt = receipt_items p certificate version calendar_text m"
  proof (cases "sp_verification p")
    case None
    then show ?thesis using receipt by (intro exI [of _ None]) (simp add: receipt_items_def)
  next
    case (Some v)
    then obtain h b time policy vt tt vtt where "receipt = receipt_base p certificate version calendar_text @
        receipt_bitcoin h b tt policy (bv_method v) vtt"
      using receipt by (auto simp: bind_res_Inr_iff split: option.splits if_splits)
    then show ?thesis by (intro exI [of _ "Some (h, b, tt, policy, bv_method v, vtt)"]) (simp add: receipt_items_def)
  qed
  then show thesis using that t r by blast
qed


section \<open>When a receipt of \<open>build_receipt\<close> is accepted\<close>

lemma built_receipt_rejected:
  assumes "build_receipt p certificate version = Inr r" "representable (sp_calendar_submitted_at p)"
    "\<not> whole_second (sp_calendar_submitted_at p)"
  shows "bundler_build lib p r context \<noteq> Inr b"
proof -
  from assms(1) obtain s m where s: "rfc3339 (sp_calendar_submitted_at p) = Inr s"
    and r: "r = ascii_bytes (receipt_text '','' '':'' (receipt_items p certificate version s m) @ [CHR 0x0A])"
    by (rule build_receipt_Inr)
  define typed where "typed = sorted_items (receipt_items p certificate version s m)"
  have loaded: "loads_ascii r = Some (PDict typed)"
    using loads_receipt [OF receipt_items_plain, of p certificate version s m] unfolding r typed_def sort_dicts_PDict .
  have "date_time (dict_get typed ''calendar_submitted_at'') \<noteq> Some (aware (sp_calendar_submitted_at p))"
    using date_time_rfc3339_iff [OF s assms(2)] assms(3) by (simp add: typed_def receipt_items_get)
  then have "validate_receipt (PDict typed) p context \<noteq> Inr x" for x
    by (auto simp: validate_receipt_def Let_def split: if_splits)
  then show ?thesis using loaded by (auto simp: bundler_build_def bind_res_Inr_iff split: if_splits)
qed

text \<open>What the texts of a receipt must be free of.\<close>

definition no_at :: "string \<Rightarrow> bool" where
  "no_at s \<longleftrightarrow> CHR ''@'' \<notin> set s"

lemma chars_of_sort [simp]: "chars_of (sort_dicts v) = chars_of v"
  by (induction v) force+

lemma receipt_text_no_at:
  assumes "CHR ''@'' \<notin> chars_of (PDict d)" "plain (PDict d)"
  shows "\<not> contains (str_lower (receipt_text '', '' '': '' d)) ''@''"
proof -
  have "list_all (\<lambda>c. c \<noteq> CHR ''@'') (receipt_text '', '' '': '' d)"
    unfolding receipt_text_def
  proof (rule dumps_chars)
    show "plain (sort_dicts (PDict d))" using assms(2) by (simp only: plain_sort)
    show "\<forall>c \<in> chars_of (sort_dicts (PDict d)). list_all (\<lambda>c. c \<noteq> CHR ''@'') (json_escape c)"
      using assms(1) json_escape_no_at unfolding chars_of_sort by metis
  qed (simp_all add: json_marks_def)
  then have "CHR ''@'' \<notin> set (receipt_text '', '' '': '' d)" by (simp add: list_all_iff) metis
  then show ?thesis by (simp only: contains_single lower_at) simp
qed


text \<open>A stored proof whose receipt can be written: the conditions of \<open>StoredProof\<close>, of the identifiers and of SHA-256, and
  no private data in the free texts.\<close>

definition verification_ready :: "bitcoin_verification \<Rightarrow> bool" where
  "verification_ready v \<longleftrightarrow> bv_verified v \<and>
     (\<exists>height bhash time policy verified_at. bv_block_height v = Some height \<and> 0 \<le> height \<and> bv_block_hash v = Some bhash \<and>
        LOWER_SHA256 bhash \<and> bv_block_time v = Some time \<and> is_aware time \<and> representable time \<and>
        bv_confirmation_policy v = Some policy \<and> 1 \<le> length policy \<and> length policy \<le> 128 \<and> no_at policy \<and>
        bv_verified_at v = Some verified_at \<and> is_aware verified_at \<and> representable verified_at \<and>
        1 \<le> length (bv_method v) \<and> length (bv_method v) \<le> 128 \<and> no_at (bv_method v))"

definition receipt_ready :: "stored_proof \<Rightarrow> certificate_reference \<Rightarrow> string \<Rightarrow> bool" where
  "receipt_ready p certificate version \<longleftrightarrow>
     ORDER_REFERENCE (sp_order_reference p) \<and> CERTIFICATE certificate \<and> 1 \<le> length version \<and> length version \<le> 64 \<and> no_at version \<and>
     length (sp_target_digest p) = 32 \<and> length (sp_proof_sha256 p) = 32 \<and> is_aware (sp_calendar_submitted_at p) \<and>
     representable (sp_calendar_submitted_at p) \<and>
     (case sp_verification p of
        None \<Rightarrow> sp_proof_state p = PS_CALENDAR_PENDING
      | Some v \<Rightarrow> sp_proof_state p = PS_BITCOIN_VERIFIED \<and> verification_ready v)"

text \<open>The metadata a receipt carries, with the texts of the two times.\<close>

definition receipt_metadata ::
  "stored_proof \<Rightarrow> string \<Rightarrow> string \<Rightarrow> (int \<times> string \<times> string \<times> string \<times> string \<times> string) option" where
  "receipt_metadata p time_text verified_text =
     map_option (\<lambda>v. (the (bv_block_height v), the (bv_block_hash v), time_text, the (bv_confirmation_policy v), bv_method v, verified_text))
       (sp_verification p)"

lemma hex_lower_sha: "length bs = 32 \<Longrightarrow> LOWER_SHA256 (hex bs)"
  by (simp add: LOWER_SHA256_def match_class_def hex_lower_hex)

lemma class_no_at: "list_all C s \<Longrightarrow> \<not> C (CHR ''@'') \<Longrightarrow> CHR ''@'' \<notin> set s"
  by (auto simp: list_all_iff)

lemma reference_no_at:
  "ORDER_REFERENCE s \<Longrightarrow> CHR ''@'' \<notin> set s" "CERTIFICATE s \<Longrightarrow> CHR ''@'' \<notin> set s" "LOWER_SHA256 s \<Longrightarrow> CHR ''@'' \<notin> set s"
proof -
  show "LOWER_SHA256 s \<Longrightarrow> CHR ''@'' \<notin> set s"
    by (rule class_no_at [of is_lower_hex]) (simp_all add: LOWER_SHA256_def match_class_def is_lower_hex_def is_digit_def code_def)
  show "CERTIFICATE s \<Longrightarrow> CHR ''@'' \<notin> set s"
    by (cases s) (auto simp: CERTIFICATE_def match_head_def list_all_iff is_alnum_def is_digit_def is_lower_def is_upper_def code_def)
  show "CHR ''@'' \<notin> set s" if "ORDER_REFERENCE s"
  proof -
    have "CHR ''@'' \<notin> set (drop 3 s)"
      using that by (intro class_no_at [of crockford_char])
        (auto simp: ORDER_REFERENCE_def match_class_def crockford_char_def is_digit_def is_upper_def code_def)
    moreover have "CHR ''@'' \<notin> set (take 3 s)" using that by (simp add: ORDER_REFERENCE_def)
    moreover have "set s = set (take 3 s) \<union> set (drop 3 s)" by (simp flip: set_append)
    ultimately show ?thesis by simp
  qed
qed

lemma receipt_items_no_at:
  assumes "receipt_ready p certificate version" "no_at calendar_text" "no_at time_text" "no_at verified_text"
  shows "CHR ''@'' \<notin> chars_of (PDict (sorted_items (receipt_items p certificate version calendar_text (receipt_metadata p time_text verified_text))))"
proof -
  have state: "CHR ''@'' \<notin> set (proof_state_value s)" for s by (cases s) simp_all
  have "CHR ''@'' \<notin> chars_of (PDict (receipt_items p certificate version calendar_text (receipt_metadata p time_text verified_text)))"
    using assms state reference_no_at(3) [OF hex_lower_sha, of "sp_target_digest p"] reference_no_at(3) [OF hex_lower_sha, of "sp_proof_sha256 p"]
    by (auto simp: receipt_ready_def verification_ready_def receipt_items_def receipt_base_def receipt_bitcoin_def receipt_metadata_def
        no_at_def digest_hex_def dest: reference_no_at split: option.splits)
  then show ?thesis unfolding sort_dicts_PDict [symmetric] chars_of_sort .
qed


lemma check_confirmation_items:
  assumes "verification_ready v" "sp_verification p = Some v"
    and "date_time (PStr time_text) = Some b" "date_time (PStr verified_text) = Some w"
  shows "check_confirmation (sorted_items (receipt_items p certificate version calendar_text (receipt_metadata p time_text verified_text))) p =
    (if bv_block_time v = Some b \<and> bv_verified_at v = Some w then Inr () else Inl (ValueError ''receipt_verification_metadata_mismatch''))"
proof -
  from assms(1) obtain height bhash time policy verified_at where v: "bv_block_height v = Some height" "0 \<le> height"
    "bv_block_hash v = Some bhash" "LOWER_SHA256 bhash" "bv_block_time v = Some time" "is_aware time"
    "bv_confirmation_policy v = Some policy" "1 \<le> length policy" "length policy \<le> 128" "bv_verified_at v = Some verified_at"
    "is_aware verified_at" "1 \<le> length (bv_method v)" "length (bv_method v) \<le> 128"
    unfolding verification_ready_def by blast
  have m: "receipt_metadata p time_text verified_text = Some (height, bhash, time_text, policy, bv_method v, verified_text)"
    by (simp add: receipt_metadata_def assms(2) v)
  have aware: "aware time = time" "aware verified_at = verified_at"
    using v by (cases time; cases verified_at; simp add: aware_def)+
  have keys: "confirmation_keys \<subseteq> dict_keys (sorted_items (receipt_items p certificate version calendar_text (Some (height, bhash, time_text, policy, bv_method v, verified_text))))"
    by (simp add: receipt_items_keys RECEIPT_KEYS_def)
  show ?thesis
    unfolding check_confirmation_def m
    by (simp only: receipt_items_bitcoin [OF refl] bitcoin_items_get pyval.case Let_def)
      (use v assms aware keys in \<open>simp add: eq_commute [of b] eq_commute [of w]\<close>)
qed

lemma validate_items:
  assumes "receipt_ready p certificate version" "no_at calendar_text" "no_at time_text" "no_at verified_text"
    and "date_time (PStr calendar_text) = Some c"
    and "sp_verification p \<noteq> None \<Longrightarrow> date_time (PStr time_text) = Some b \<and> date_time (PStr verified_text) = Some w"
  defines "typed \<equiv> sorted_items (receipt_items p certificate version calendar_text (receipt_metadata p time_text verified_text))"
  shows "validate_receipt (PDict typed) p \<lparr>bc_certificate_reference = certificate, bc_service_version = version\<rparr> =
    (if c \<noteq> sp_calendar_submitted_at p then Inl (ValueError ''receipt_calendar_time_mismatch'')
     else (case sp_verification p of
         None \<Rightarrow> Inr typed
       | Some v \<Rightarrow> if bv_block_time v = Some b \<and> bv_verified_at v = Some w then Inr typed
                   else Inl (ValueError ''receipt_verification_metadata_mismatch'')))"
proof -
  have ready: "ORDER_REFERENCE (sp_order_reference p)" "CERTIFICATE certificate" "1 \<le> length version" "length version \<le> 64"
    "LOWER_SHA256 (digest_hex (sp_target_digest p))" "LOWER_SHA256 (hex (sp_proof_sha256 p))"
    "is_aware (sp_calendar_submitted_at p)"
    using assms(1) hex_lower_sha by (auto simp: receipt_ready_def digest_hex_def)
  have aware: "aware (sp_calendar_submitted_at p) = sp_calendar_submitted_at p"
    using ready(7) by (cases "sp_calendar_submitted_at p") (simp_all add: aware_def)
  have keys: "dict_keys typed = (if sp_verification p = None then required_keys else RECEIPT_KEYS)"
    by (simp add: typed_def receipt_items_keys receipt_metadata_def)
  have disjoint: "confirmation_keys \<inter> required_keys = {}"
    by (auto simp: confirmation_keys_def required_keys_def)
  have plain: "plain (PDict typed)"
    unfolding typed_def sort_dicts_PDict [symmetric] plain_sort by (rule receipt_items_plain)
  have hidden: "\<not> contains (str_lower (receipt_text '', '' '': '' typed)) ''@''"
    by (rule receipt_text_no_at [OF _ plain]) (unfold typed_def, rule receipt_items_no_at [OF assms(1-4)])
  have state: "sp_proof_state p = (if sp_verification p = None then PS_CALENDAR_PENDING else PS_BITCOIN_VERIFIED)"
    using assms(1) by (auto simp: receipt_ready_def split: option.splits)
  have verified: "check_confirmation typed p =
      (if bv_block_time v = Some b \<and> bv_verified_at v = Some w then Inr () else Inl (ValueError ''receipt_verification_metadata_mismatch''))"
    if "sp_verification p = Some v" for v
    unfolding typed_def
    by (rule check_confirmation_items) (use that assms(1,6) in \<open>simp_all add: receipt_ready_def\<close>)
  note get = receipt_items_get [of p certificate version calendar_text "receipt_metadata p time_text verified_text", folded typed_def]
  show ?thesis
  proof (cases "sp_verification p")
    case None
    then show ?thesis
      using ready aware keys hidden disjoint state assms(5) by (simp add: validate_receipt_def get Let_def RECEIPT_KEYS_def)
  next
    case (Some v)
    then show ?thesis
      using ready aware keys hidden state assms(5) verified [OF Some] by (simp add: validate_receipt_def get Let_def RECEIPT_KEYS_def)
  qed
qed

text \<open>The times of a proof that its receipt carries.\<close>

definition receipt_times :: "stored_proof \<Rightarrow> datetime list" where
  "receipt_times p =
     sp_calendar_submitted_at p #
     (case sp_verification p of None \<Rightarrow> [] | Some v \<Rightarrow> [the (bv_block_time v), the (bv_verified_at v)])"

lemma rfc3339_no_at:
  assumes "rfc3339 d = Inr s"
  shows "no_at s"
proof -
  have aware: "is_aware d" using assms by (simp add: rfc3339_def split: if_splits)
  define body where "body = date_text (micros d) @ ''T'' @ clock_text (micros d)"
  have chars: "\<forall>c \<in> set body. c \<noteq> hd ''+00:00''" "no_at body"
    using date_text_chars [of "micros d"] by (auto simp: body_def no_at_def)
  have "s = body @ ''Z''"
    using assms aware str_replace_skip [OF chars(1), of "''Z''" "''+00:00''"] str_replace_match [of "''+00:00''" "''Z''" "[]"]
    by (simp add: rfc3339_def isoformat_seconds_def offset_text_def body_def)
  then show ?thesis using chars(2) by (simp add: no_at_def)
qed

lemma rfc3339_total: "is_aware d \<Longrightarrow> \<exists>s. rfc3339 d = Inr s"
  by (simp add: rfc3339_def)

lemma build_receipt_ready:
  assumes "receipt_ready p certificate version"
  obtains calendar_text time_text verified_text where
    "rfc3339 (sp_calendar_submitted_at p) = Inr calendar_text"
    "build_receipt p certificate version = Inr (ascii_bytes (receipt_text '','' '':''
       (receipt_items p certificate version calendar_text (receipt_metadata p time_text verified_text)) @ [CHR 0x0A]))"
    "no_at calendar_text" "no_at time_text" "no_at verified_text"
    "\<And>v. sp_verification p = Some v \<Longrightarrow>
       rfc3339 (the (bv_block_time v)) = Inr time_text \<and> rfc3339 (the (bv_verified_at v)) = Inr verified_text"
proof -
  from assms obtain calendar_text where c: "rfc3339 (sp_calendar_submitted_at p) = Inr calendar_text"
    using rfc3339_total by (auto simp: receipt_ready_def)
  have version: "1 \<le> length version" "length version \<le> 64" using assms by (simp_all add: receipt_ready_def)
  show thesis
  proof (cases "sp_verification p")
    case None
    then show ?thesis
      using c version rfc3339_no_at [OF c]
      by (intro that [of calendar_text "[]" "[]"])
        (simp_all add: build_receipt_def receipt_items_def receipt_metadata_def no_at_def)
  next
    case (Some v)
    then have "verification_ready v" using assms by (simp add: receipt_ready_def)
    then obtain height bhash time policy verified_at where v: "bv_verified v" "bv_block_height v = Some height"
      "bv_block_hash v = Some bhash" "bv_block_time v = Some time" "is_aware time"
      "bv_confirmation_policy v = Some policy" "bv_verified_at v = Some verified_at" "is_aware verified_at"
      unfolding verification_ready_def by blast
    obtain tt vt where t: "rfc3339 time = Inr tt" "rfc3339 verified_at = Inr vt" using rfc3339_total v by blast
    show ?thesis
      using c version v t Some rfc3339_no_at [OF c] rfc3339_no_at [OF t(1)] rfc3339_no_at [OF t(2)]
      by (intro that [of calendar_text tt vt])
        (simp_all add: build_receipt_def receipt_items_def receipt_metadata_def)
  qed
qed

lemma built_receipt:
  assumes "receipt_ready p certificate version"
  shows "\<exists>r receipt. build_receipt p certificate version = Inr r \<and> loads_ascii r = Some receipt \<and>
    ((\<exists>typed. validate_receipt receipt p \<lparr>bc_certificate_reference = certificate, bc_service_version = version\<rparr> = Inr typed)
       \<longleftrightarrow> list_all whole_second (receipt_times p))"
proof -
  obtain ct tt vt where c: "rfc3339 (sp_calendar_submitted_at p) = Inr ct"
    and built: "build_receipt p certificate version = Inr (ascii_bytes (receipt_text '','' '':''
       (receipt_items p certificate version ct (receipt_metadata p tt vt)) @ [CHR 0x0A]))"
    and no_at: "no_at ct" "no_at tt" "no_at vt"
    and v: "\<And>v. sp_verification p = Some v \<Longrightarrow> rfc3339 (the (bv_block_time v)) = Inr tt \<and> rfc3339 (the (bv_verified_at v)) = Inr vt"
    using build_receipt_ready [OF assms] by blast
  define typed where "typed = sorted_items (receipt_items p certificate version ct (receipt_metadata p tt vt))"
  define down where "down = (\<lambda>d. Aware (micros d - micros d mod 1000000))"
  have loaded: "loads_ascii (ascii_bytes (receipt_text '','' '':'' (receipt_items p certificate version ct (receipt_metadata p tt vt)) @ [CHR 0x0A]))
      = Some (PDict typed)"
    using loads_receipt [OF receipt_items_plain] unfolding typed_def sort_dicts_PDict .
  have aware: "is_aware d \<Longrightarrow> down d = d \<longleftrightarrow> whole_second d" for d
    by (cases d) (simp_all add: down_def whole_second_def)
  have ready: "representable (sp_calendar_submitted_at p)" "is_aware (sp_calendar_submitted_at p)"
    using assms by (simp_all add: receipt_ready_def)
  have verification: "\<exists>time verified_at. bv_block_time v = Some time \<and> bv_verified_at v = Some verified_at \<and> is_aware time \<and>
      representable time \<and> is_aware verified_at \<and> representable verified_at" if "sp_verification p = Some v" for v
    using assms that by (auto simp: receipt_ready_def verification_ready_def)
  have cal: "date_time (PStr ct) = Some (down (sp_calendar_submitted_at p))"
    using date_time_rfc3339(1) [OF c ready(1)] by (simp add: down_def)
  have validated: "validate_receipt (PDict typed) p \<lparr>bc_certificate_reference = certificate, bc_service_version = version\<rparr> =
    (if down (sp_calendar_submitted_at p) \<noteq> sp_calendar_submitted_at p then Inl (ValueError ''receipt_calendar_time_mismatch'')
     else (case sp_verification p of
         None \<Rightarrow> Inr typed
       | Some v \<Rightarrow> if bv_block_time v = Some (down (the (bv_block_time v))) \<and> bv_verified_at v = Some (down (the (bv_verified_at v))) then Inr typed
                   else Inl (ValueError ''receipt_verification_metadata_mismatch'')))"
  proof (cases "sp_verification p")
    case None
    then have "sp_verification p \<noteq> None \<Longrightarrow> date_time (PStr tt) = Some (Aware 0) \<and> date_time (PStr vt) = Some (Aware 0)" by simp
    from validate_items [OF assms no_at cal this, folded typed_def] show ?thesis by (simp add: None)
  next
    case (Some w)
    from verification [OF Some] have r: "representable (the (bv_block_time w))" "representable (the (bv_verified_at w))" by auto
    have "date_time (PStr tt) = Some (down (the (bv_block_time w)))" "date_time (PStr vt) = Some (down (the (bv_verified_at w)))"
      using v [OF Some] r date_time_rfc3339(1) by (auto simp: down_def)
    then have "sp_verification p \<noteq> None \<Longrightarrow>
        date_time (PStr tt) = Some (down (the (bv_block_time w))) \<and> date_time (PStr vt) = Some (down (the (bv_verified_at w)))" by simp
    from validate_items [OF assms no_at cal this, folded typed_def] show ?thesis by (simp add: Some)
  qed
  have "(\<exists>x. validate_receipt (PDict typed) p \<lparr>bc_certificate_reference = certificate, bc_service_version = version\<rparr> = Inr x)
      \<longleftrightarrow> list_all whole_second (receipt_times p)"
  proof (cases "sp_verification p")
    case None
    then show ?thesis using aware [OF ready(2)] by (simp add: validated receipt_times_def)
  next
    case (Some w)
    then obtain time verified_at where "bv_block_time w = Some time" "bv_verified_at w = Some verified_at" "is_aware time" "is_aware verified_at"
      using verification by blast
    then show ?thesis using aware [OF ready(2)] aware [of time] aware [of verified_at] Some
      by (simp add: validated receipt_times_def eq_commute [of time] eq_commute [of verified_at])
  qed
  then show ?thesis using built loaded by blast
qed

text \<open>C14. The receipt that \<open>build_receipt\<close> writes for a stored proof in good order is always readable JSON, and
  \<open>_validate_receipt\<close> accepts it exactly when every time that it carries is a whole number of seconds: \<open>_rfc3339\<close> prints
  seconds, and the validator compares with the stored time, microseconds included.\<close>

theorem built_receipt_accepted_iff:
  assumes "receipt_ready p certificate version"
  shows "\<exists>r receipt. build_receipt p certificate version = Inr r \<and> loads_ascii r = Some receipt \<and>
    ((\<exists>typed. validate_receipt receipt p \<lparr>bc_certificate_reference = certificate, bc_service_version = version\<rparr> = Inr typed)
       \<longleftrightarrow> list_all whole_second (receipt_times p))"
  by (rule built_receipt [OF assms])

section \<open>Delivery with the service's own receipts\<close>

text \<open>The receipt and the bundle that \<open>DeliveryHandler\<close> is composed with.\<close>

definition own_receipts :: "services \<Rightarrow> services" where
  "own_receipts sv = sv\<lparr>sv_receipt := build_receipt,
     sv_bundle := \<lambda>p receipt certificate version.
       bundler_build (sv_lib sv) p receipt \<lparr>bc_certificate_reference = certificate, bc_service_version = version\<rparr>\<rparr>"

text \<open>An action that raises and changes nothing.\<close>

definition raises_only :: "'a db_action \<Rightarrow> db \<Rightarrow> bool" where
  "raises_only a d \<longleftrightarrow> (\<exists>e. a d = (Inl e, d))"

lemma raises_only_raise: "raises_only (raise_act e) d"
  by (simp add: raises_only_def raise_act_def)

lemma raises_only_read: "(\<And>x. f d = Inr x \<Longrightarrow> raises_only (k x) d) \<Longrightarrow> raises_only (bind_act (read_act f) k) d"
  by (cases "f d") (simp_all add: raises_only_def bind_act_def read_act_def)

lemma raises_only_lift: "(\<And>x. r = Inr x \<Longrightarrow> raises_only (k x) d) \<Longrightarrow> raises_only (bind_act (lift_act r) k) d"
  by (cases r) (simp_all add: raises_only_def bind_act_def lift_act_def)

lemma raises_only_load:
  assumes "get_for_fulfillment order_id d = Inr (Some order)" "raises_only (k order) d"
  shows "raises_only (bind_act (load order_id) k) d"
  using assms by (simp add: raises_only_def bind_act_def load_def read_act_def return_act_def)

lemma raises_only_delivery:
  assumes order: "get_for_fulfillment order_id d = Inr (Some order)" "fo_calendar_submitted_at order = Some t"
    and t: "representable t" "\<not> whole_second t"
  shows "raises_only (delivery_handler (own_receipts sv) order_id) d"
proof -
  have build: "raises_only (bind_act (lift_act (sv_receipt (own_receipts sv) p certificate version)) (\<lambda>receipt.
      bind_act (lift_act (if A then Inl e else sv_bundle (own_receipts sv) p receipt certificate version)) (K receipt))) d"
    if "sp_calendar_submitted_at p = t" for p certificate version A e K
  proof (intro raises_only_lift)
    fix r b assume "sv_receipt (own_receipts sv) p certificate version = Inr r"
      "(if A then Inl e else sv_bundle (own_receipts sv) p r certificate version) = Inr b"
    then show "raises_only (K r b) d"
      using built_receipt_rejected [of p certificate version r] t that by (simp add: own_receipts_def split: if_splits)
  qed
  show ?thesis
    unfolding delivery_handler_def Let_def proofs_latest_act_def
    by (intro raises_only_load [OF order(1)])
      (auto simp: order(2) intro!: raises_only_raise raises_only_read build split: option.split)
qed

text \<open>C15. Delivery of an order whose proof was submitted at a time with a fraction of a second always fails, and commits
  nothing: the receipt that the service writes has whole seconds, and the service's own bundler refuses it. The calendars
  are stamped with the time of the clock, microseconds included.\<close>

theorem fractional_time_undeliverable:
  assumes "get_for_fulfillment order_id d = Inr (Some order)" "fo_calendar_submitted_at order = Some t"
    and "representable t" "\<not> whole_second t"
  shows "\<exists>e. delivery_handler (own_receipts sv) order_id d = (Inl e, d)"
  using raises_only_delivery [OF assms] by (simp add: raises_only_def)

section \<open>What a bundle holds\<close>

lemma length_zip_archive:
  "length (zip_archive es) = sum_list (map (\<lambda>e. 76 + 2 * length (fst e) + length (snd e)) es) + 22"
proof -
  have local_length: "length (local_entry e) = 30 + length (fst e) + length (snd e)" for e
    by (cases e) (simp add: local_entry_def entry_fields_def)
  have "length (central_directory offset es) = sum_list (map (\<lambda>e. 46 + length (fst e)) es)" for offset
    by (induction es arbitrary: offset) (auto simp: central_entry_def entry_fields_def)
  moreover have "length (concat (map local_entry es)) = sum_list (map (\<lambda>e. 30 + length (fst e) + length (snd e)) es)"
    by (simp add: length_concat comp_def local_length)
  ultimately show ?thesis
    by (simp add: zip_archive_def Let_def flip: sum_list_addf) (simp add: sum_list_addf)
qed

lemma zip_content_length:
  assumes "(name, content) \<in> set es"
  shows "length content \<le> length (zip_archive es)"
proof -
  have "76 + 2 * length name + length content \<le> sum_list (map (\<lambda>e. 76 + 2 * length (fst e) + length (snd e)) es)"
    by (rule member_le_sum_list) (use assms in \<open>force, simp\<close>)
  then show ?thesis by (simp add: length_zip_archive)
qed

lemma bundle_names: "(name, content) \<in> set (bundle_files sha p r) \<Longrightarrow> length name < 2 ^ 16"
  by (auto simp: bundle_files_def Let_def)

lemma read_bundle:
  assumes "length (zip_archive (bundle_files sha p r)) \<le> 12 * 1024 * 1024"
  shows "read_entries (zip_archive (bundle_files sha p r)) = bundle_files sha p r"
proof (rule read_zip_archive, intro ballI)
  fix e assume "e \<in> set (bundle_files sha p r)"
  then show "storable e"
    using zip_content_length [of "fst e" "snd e"] bundle_names [of "fst e" "snd e"] assms
    by (fastforce simp: storable_def)
qed

lemma checked_proof:
  assumes "validate_proof lib digest bs (Some expected) = Inr ()"
  shows "ots_sha256 lib bs = expected" "length expected = 32"
  using assms by (auto simp: validate_exact_proof_def deserialize_exact_proof_def bind_res_Inr_iff split: if_splits)

text \<open>What the validator has bound to the stored proof.\<close>

definition receipt_bound :: "(string \<times> pyval) list \<Rightarrow> stored_proof \<Rightarrow> bundle_context \<Rightarrow> bool" where
  "receipt_bound typed p context \<longleftrightarrow>
     required_keys \<subseteq> dict_keys typed \<and> dict_keys typed \<subseteq> RECEIPT_KEYS \<and>
     dict_get typed ''certificate_reference'' = PStr (bc_certificate_reference context) \<and>
     dict_get typed ''order_reference'' = PStr (sp_order_reference p) \<and>
     dict_get typed ''manifest_sha256'' = PStr (digest_hex (sp_target_digest p)) \<and>
     dict_get typed ''proof_sha256'' = PStr (hex (sp_proof_sha256 p)) \<and>
     dict_get typed ''proof_bytes'' = PInt (int (length (sp_proof_bytes p))) \<and>
     dict_get typed ''proof_state'' = PStr (proof_state_value (sp_proof_state p)) \<and>
     date_time (dict_get typed ''calendar_submitted_at'') = Some (aware (sp_calendar_submitted_at p)) \<and>
     (sp_proof_state p = PS_CALENDAR_PENDING \<longrightarrow> confirmation_keys \<inter> dict_keys typed = {}) \<and>
     (sp_proof_state p = PS_BITCOIN_VERIFIED \<longrightarrow> confirmation_keys \<subseteq> dict_keys typed \<and> sp_verification p \<noteq> None)"

lemma validate_receipt_bound:
  assumes "validate_receipt receipt p context = Inr typed"
  shows "receipt = PDict typed" "receipt_bound typed p context"
proof -
  show r: "receipt = PDict typed"
    using assms by (auto simp: validate_receipt_def Let_def bind_res_Inr_iff split: pyval.splits if_splits)
  have "confirmation_keys \<subseteq> dict_keys typed \<and> sp_verification p \<noteq> None" if "check_confirmation typed p = Inr x" for x
    using that by (auto simp: check_confirmation_def Let_def split: pyval.splits if_splits option.splits)
  then show "receipt_bound typed p context"
    using assms unfolding r validate_receipt_def receipt_bound_def Let_def
    by (simp add: bind_res_Inr_iff split: if_splits)
qed

text \<open>C16. A bundle that is built reads back, entry by entry, as the five files: the stored proof and the receipt, byte for
  byte, the two texts and the checksums of the four. It has at most 12 MiB, the proof has the stored hash, and the receipt is a JSON object with the
  certificate, order, digest, proof hash, size, state and submission time of the stored proof; the receipt of a pending
  proof claims no confirmation.\<close>

theorem bundle_contents:
  assumes "bundler_build lib p r context = Inr b"
  shows "read_entries b = bundle_files (ots_sha256 lib) p r \<and> length b \<le> 12 * 1024 * 1024 \<and>
    ots_sha256 lib (sp_proof_bytes p) = sp_proof_sha256 p \<and>
    (\<exists>typed. loads_ascii r = Some (PDict typed) \<and> receipt_bound typed p context)"
proof -
  from assms obtain receipt typed where checked: "validate_proof lib (sp_target_digest p) (sp_proof_bytes p) (Some (sp_proof_sha256 p)) = Inr ()"
    and loaded: "loads_ascii r = Some receipt" and valid: "validate_receipt receipt p context = Inr typed"
    and b: "b = zip_archive (bundle_files (ots_sha256 lib) p r)" and size: "length b \<le> 12 * 1024 * 1024"
    by (auto simp: bundler_build_def Let_def bind_res_Inr_iff split: if_splits option.splits)
  show ?thesis
    using read_bundle size checked_proof(1) [OF checked] loaded validate_receipt_bound [OF valid] unfolding b by blast
qed

section \<open>Samples\<close>

definition sample_stored :: "int \<Rightarrow> stored_proof" where
  "sample_stored t = \<lparr>sp_order_reference = ''ts_01ARZ3NDEKTSV4RRFFQ69G5FAV'', sp_version = 1, sp_target_digest = sample_zeros,
     sp_proof_bytes = [1], sp_proof_sha256 = replicate 32 0, sp_proof_state = PS_CALENDAR_PENDING,
     sp_calendar_submitted_at = Aware t, sp_verification = None\<rparr>"

lemma sample_representable: "representable (Aware 1)" "representable (Aware 2000000)"
  by code_simp+

lemma sample_receipt_ready: "receipt_ready (sample_stored 1) ''SR-1'' ''1''" "receipt_ready (sample_stored 2000000) ''SR-1'' ''1''"
  by (simp_all add: receipt_ready_def sample_stored_def sample_usd sample_representable sample_zeros_def no_at_def)

theorem built_receipt_accepted_iff_witness:
  "(\<exists>r receipt typed. build_receipt (sample_stored 2000000) ''SR-1'' ''1'' = Inr r \<and> loads_ascii r = Some receipt \<and>
     validate_receipt receipt (sample_stored 2000000) \<lparr>bc_certificate_reference = ''SR-1'', bc_service_version = ''1''\<rparr> = Inr typed) \<and>
   (\<exists>r receipt. build_receipt (sample_stored 1) ''SR-1'' ''1'' = Inr r \<and> loads_ascii r = Some receipt \<and>
     (\<nexists>typed. validate_receipt receipt (sample_stored 1) \<lparr>bc_certificate_reference = ''SR-1'', bc_service_version = ''1''\<rparr> = Inr typed))"
  using built_receipt_accepted_iff [OF sample_receipt_ready(1)] built_receipt_accepted_iff [OF sample_receipt_ready(2)]
  by (simp add: receipt_times_def sample_stored_def whole_second_def)

definition sample_deliverable :: db where
  "sample_deliverable = sample_store\<lparr>orders :=
     [sample_order\<lparr>o_fulfillment_state := BITCOIN_VERIFIED, o_calendar_submitted_at := Some (Aware 1)\<rparr>]\<rparr>"

theorem fractional_time_undeliverable_witness:
  "\<exists>order. get_for_fulfillment (uuid_str 7) sample_deliverable = Inr (Some order) \<and>
     fo_calendar_submitted_at order = Some (Aware 1) \<and>
     (\<forall>sv. \<exists>e. delivery_handler (own_receipts sv) (uuid_str 7) sample_deliverable = (Inl e, sample_deliverable))"
proof -
  define row where "row = sample_order\<lparr>o_fulfillment_state := BITCOIN_VERIFIED, o_calendar_submitted_at := Some (Aware 1)\<rparr>"
  obtain st where "order_state_of sample_order = Inr st" using sample_state by blast
  then obtain order where order: "fulfillment_order_of row = Inr order" "fo_calendar_submitted_at order = Some (Aware 1)"
    by (auto simp: fulfillment_order_of_def order_state_of_def row_def bind_res_Inr_iff aware_def)
  have "find_order 7 sample_deliverable = Some row"
    by (simp add: find_order_def sample_deliverable_def row_def sample_order_def)
  then have found: "get_for_fulfillment (uuid_str 7) sample_deliverable = Inr (Some order)"
    by (simp add: get_for_fulfillment_def order(1))
  have "\<not> whole_second (Aware 1)" by (simp add: whole_second_def)
  from fractional_time_undeliverable [OF found order(2) sample_representable(1) this] found order(2) show ?thesis by blast
qed


lemma sample_receipt_text: "length (receipt_text '','' '':''
    [(''schema_version'', PStr ''1.0.0''), (''order_reference'', PStr ''ts_01ARZ3NDEKTSV4RRFFQ69G5FAV''),
     (''certificate_reference'', PStr ''SR-1''), (''manifest_sha256'', PStr sample_hash), (''proof_sha256'', PStr sample_hash),
     (''proof_bytes'', PInt 1), (''proof_state'', PStr ''calendar_pending''),
     (''calendar_submitted_at'', PStr ''1970-01-01T00:00:02Z''), (''service_version'', PStr ''1'')]) < 900"
  by code_simp

lemma sample_receipt_length:
  obtains r where "build_receipt (sample_stored 2000000) ''SR-1'' ''1'' = Inr r" "r \<noteq> []" "length r < 1000"
proof -
  have "rfc3339 (Aware 2000000) = Inr ''1970-01-01T00:00:02Z''" by code_simp
  then show thesis
    using that sample_receipt_text by (simp add: ascii_bytes_def build_receipt_def receipt_base_def sample_stored_def sample_zeros_def digest_hex_def)
qed

lemma sample_readme: "length (readme True) < 1000"
  by (simp add: readme_def)

lemma sample_instructions: "length instructions < 1000"
  by (simp add: instructions_def)

lemma sample_bundle:
  obtains r b where "build_receipt (sample_stored 2000000) ''SR-1'' ''1'' = Inr r"
    "bundler_build (sample_library 3) (sample_stored 2000000) r \<lparr>bc_certificate_reference = ''SR-1'', bc_service_version = ''1''\<rparr> = Inr b"
proof -
  let ?p = "sample_stored 2000000" and ?ctx = "\<lparr>bc_certificate_reference = ''SR-1'', bc_service_version = ''1''\<rparr>"
  obtain r where r: "build_receipt ?p ''SR-1'' ''1'' = Inr r" "r \<noteq> []" "length r < 1000"
    by (rule sample_receipt_length)
  obtain receipt typed where valid: "loads_ascii r = Some receipt" "validate_receipt receipt ?p ?ctx = Inr typed"
    using built_receipt [OF sample_receipt_ready(2)] r(1) by (auto simp: receipt_times_def sample_stored_def whole_second_def)
  have parsed: "validate_proof (sample_library 3) sample_zeros [1] (Some (replicate 32 0)) = Inr ()"
    using sample_proof_parsed [of 3]
    by (simp add: validate_exact_proof_def deserialize_exact_proof_def sample_library_def bind_res_Inr_iff split: if_splits)
  have "length (zip_archive (bundle_files (\<lambda>_. replicate 32 0) ?p r)) \<le> 12 * 1024 * 1024"
    using r(3) sample_readme sample_instructions
    by (simp add: length_zip_archive bundle_files_def Let_def checksum_line_def sample_stored_def sample_hash_def)
  then show thesis
    using that [OF r(1)] r(2,3) valid parsed
    by (simp add: bundler_build_def) (simp add: sample_stored_def)
qed

theorem bundle_contents_witness:
  "\<exists>r b. bundler_build (sample_library 3) (sample_stored 2000000) r \<lparr>bc_certificate_reference = ''SR-1'', bc_service_version = ''1''\<rparr> = Inr b \<and>
     read_entries b = bundle_files (\<lambda>_. replicate 32 0) (sample_stored 2000000) r"
proof -
  obtain r b where b: "bundler_build (sample_library 3) (sample_stored 2000000) r
      \<lparr>bc_certificate_reference = ''SR-1'', bc_service_version = ''1''\<rparr> = Inr b"
    by (rule sample_bundle)
  from bundle_contents [OF this, unfolded sample_library_sha] b show ?thesis by blast
qed

end
