(* ===== verification/Py_Values.thy ===== *)
theory Py_Values
  imports Json Database
begin

text \<open>
  What the readers of foreign objects use of Python's built-in types: subscripts and truth values of a decoded object,
  \<open>str\<close> and \<open>int\<close> of it, splitting of header texts, and the comparison of two texts in constant time. Each
  is written out on Latin-1 texts; the text of a float is the parameter \<open>float_repr\<close>.
\<close>

section \<open>Texts\<close>

definition is_ascii :: "string \<Rightarrow> bool" where
  "is_ascii s \<longleftrightarrow> list_all (\<lambda>c. code c < 128) s"

text \<open>\<open>s.encode("ascii")\<close>; its error is a \<open>ValueError\<close>.\<close>

definition encode_ascii :: "string \<Rightarrow> exn + bytes" where
  "encode_ascii s = (if is_ascii s then Inr (ascii_bytes s) else Inl (ValueError ''ascii''))"

text \<open>\<open>hmac.compare_digest\<close> of two texts.\<close>

definition compare_digest :: "string \<Rightarrow> string \<Rightarrow> exn + bool" where
  "compare_digest s t = (if is_ascii s \<and> is_ascii t then Inr (s = t) else Inl TypeError)"

definition starts_with :: "string \<Rightarrow> string \<Rightarrow> bool" where
  "starts_with p s \<longleftrightarrow> take (length p) s = p"

text \<open>\<open>s.split(sep)\<close> and \<open>s.split(sep, 1)\<close> for a separator of one character.\<close>

fun split_on :: "char \<Rightarrow> string \<Rightarrow> string list" where
  "split_on sep [] = [[]]"
| "split_on sep (c # cs) =
     (if c = sep then [] # split_on sep cs
      else (case split_on sep cs of [] \<Rightarrow> [[c]] | w # ws \<Rightarrow> (c # w) # ws))"

definition split_once :: "char \<Rightarrow> string \<Rightarrow> (string \<times> string) option" where
  "split_once sep s =
     (case dropWhile (\<lambda>c. c \<noteq> sep) s of [] \<Rightarrow> None | _ # r \<Rightarrow> Some (takeWhile (\<lambda>c. c \<noteq> sep) s, r))"

text \<open>\<open>s.split()\<close>.\<close>

fun split_blanks :: "string \<Rightarrow> string \<Rightarrow> string list" where
  "split_blanks w [] = (if w = [] then [] else [w])"
| "split_blanks w (c # cs) =
     (if is_py_space c then (if w = [] then [] else [w]) @ split_blanks [] cs else split_blanks (w @ [c]) cs)"

definition words_of :: "string \<Rightarrow> string list" where
  "words_of s = split_blanks [] s"

section \<open>int\<close>

text \<open>The digits of an integer text: single underscores may stand between digits.\<close>

fun int_digits :: "bool \<Rightarrow> string \<Rightarrow> string option" where
  "int_digits after [] = (if after then Some [] else None)"
| "int_digits after (c # cs) =
     (if is_digit c then map_option (Cons c) (int_digits True cs)
      else if c = CHR ''_'' \<and> after then int_digits False cs else None)"

definition MAX_INT_DIGITS :: nat where "MAX_INT_DIGITS = 4300"

text \<open>\<open>int(s)\<close>; \<open>None\<close> is a \<open>ValueError\<close>.\<close>

definition int_of_text :: "string \<Rightarrow> int option" where
  "int_of_text s =
     (let t = strip_chars is_py_space s;
          body = (case t of c # cs \<Rightarrow> if c \<in> set ''+-'' then cs else t | [] \<Rightarrow> [])
      in (case int_digits False body of
            None \<Rightarrow> None
          | Some ds \<Rightarrow>
              if MAX_INT_DIGITS < length ds then None
              else Some (if take 1 t = ''-'' then - int (nat_of_str ds 0) else int (nat_of_str ds 0))))"

fun py_int :: "pyval \<Rightarrow> exn + int" where
  "py_int (PInt n) = Inr n"
| "py_int (PBool b) = Inr (if b then 1 else 0)"
| "py_int (PFloat q) = Inr (if 0 \<le> q then \<lfloor>q\<rfloor> else \<lceil>q\<rceil>)"
| "py_int PNaN = Inl (ValueError ''int'')"
| "py_int (PInfinity b) = Inl (OtherException ''OverflowError'')"
| "py_int (PStr s) = (case int_of_text s of None \<Rightarrow> Inl (ValueError ''int'') | Some n \<Rightarrow> Inr n)"
| "py_int _ = Inl TypeError"

section \<open>Objects\<close>

text \<open>The items of a dictionary in the order of their keys: a key that comes twice keeps its first place and has its last value.\<close>

definition dict_items :: "(string \<times> pyval) list \<Rightarrow> (string \<times> pyval) list" where
  "dict_items d = map (\<lambda>k. (k, dict_get d k)) (rev (remdups (rev (map fst d))))"

text \<open>\<open>value[key]\<close> for a text \<open>key\<close>.\<close>

fun subscript :: "pyval \<Rightarrow> string \<Rightarrow> exn + pyval" where
  "subscript (PDict d) key = (if key \<in> fst ` set d then Inr (dict_get d key) else Inl KeyError)"
| "subscript _ key = Inl TypeError"

fun py_true :: "pyval \<Rightarrow> bool" where
  "py_true PNone = False"
| "py_true (PBool b) = b"
| "py_true (PInt n) = (n \<noteq> 0)"
| "py_true (PFloat q) = (q \<noteq> 0)"
| "py_true PNaN = True"
| "py_true (PInfinity b) = True"
| "py_true (PStr s) = (s \<noteq> [])"
| "py_true (PList xs) = (xs \<noteq> [])"
| "py_true (PDict d) = (d \<noteq> [])"

text \<open>\<open>repr\<close> of a text: the quote is the one that the text does not use, if it uses only the other.\<close>

definition repr_char :: "char \<Rightarrow> char \<Rightarrow> string" where
  "repr_char q c =
     (if c = q \<or> c = CHR 0x5C then [CHR 0x5C, c]
      else if c = CHR 0x0A then [CHR 0x5C, CHR ''n'']
      else if c = CHR 0x0D then [CHR 0x5C, CHR ''r'']
      else if c = CHR 0x09 then [CHR 0x5C, CHR ''t'']
      else if code c < 32 \<or> (127 \<le> code c \<and> code c \<le> 160) \<or> code c = 173
      then [CHR 0x5C, CHR ''x'', hex_digit (code c div 16), hex_digit (code c mod 16)]
      else [c])"

definition py_repr_str :: "string \<Rightarrow> string" where
  "py_repr_str s =
     (let q = (if CHR 0x27 \<in> set s \<and> CHR 0x22 \<notin> set s then CHR 0x22 else CHR 0x27)
      in [q] @ concat (map (repr_char q) s) @ [q])"

fun py_repr :: "(rat \<Rightarrow> string) \<Rightarrow> pyval \<Rightarrow> string" where
  "py_repr float_repr PNone = ''None''"
| "py_repr float_repr (PBool b) = (if b then ''True'' else ''False'')"
| "py_repr float_repr (PInt n) = int_str n"
| "py_repr float_repr (PFloat q) = float_repr q"
| "py_repr float_repr PNaN = ''nan''"
| "py_repr float_repr (PInfinity negative) = (if negative then ''-inf'' else ''inf'')"
| "py_repr float_repr (PStr s) = py_repr_str s"
| "py_repr float_repr (PList xs) = ''['' @ join_strings '', '' (map (py_repr float_repr) xs) @ '']''"
| "py_repr float_repr (PDict d) =
     (let texts = map (\<lambda>e. (fst e, py_repr float_repr (snd e))) d
      in ''{'' @ join_strings '', '' (map (\<lambda>k. py_repr_str k @ '': '' @ the (map_of (rev texts) k)) (rev (remdups (rev (map fst d))))) @ ''}'')"

text \<open>\<open>str(value)\<close>.\<close>

definition py_str :: "(rat \<Rightarrow> string) \<Rightarrow> pyval \<Rightarrow> string" where
  "py_str float_repr v = (case v of PStr s \<Rightarrow> s | _ \<Rightarrow> py_repr float_repr v)"

lemma py_str_PStr [simp]: "py_str float_repr (PStr s) = s"
  by (simp add: py_str_def)

text \<open>Iteration over an object.\<close>

fun py_iter :: "pyval \<Rightarrow> exn + pyval list" where
  "py_iter (PList xs) = Inr xs"
| "py_iter (PStr s) = Inr (map (\<lambda>c. PStr [c]) s)"
| "py_iter (PDict d) = Inr (map (PStr \<circ> fst) (dict_items d))"
| "py_iter _ = Inl TypeError"

text \<open>\<open>json.loads\<close> of bytes. A text in ASCII is read by \<open>loads\<close>; the reader of the other encodings is the
  parameter \<open>other\<close>. \<open>None\<close> is a \<open>JSONDecodeError\<close> or a \<open>UnicodeDecodeError\<close>.\<close>

definition json_loads :: "(bytes \<Rightarrow> pyval option) \<Rightarrow> bytes \<Rightarrow> pyval option" where
  "json_loads other bs =
     (if list_all (\<lambda>b. 0 < unat b \<and> unat b < 128) bs then loads (map (\<lambda>b. char_of (unat b)) bs) else other bs)"

section \<open>Lemmas\<close>

lemma subscript_Inr: "subscript (PDict d) key = Inr v \<longleftrightarrow> key \<in> fst ` set d \<and> v = dict_get d key"
  by auto

lemma split_on_absent: "c \<notin> set s \<Longrightarrow> split_on c s = [s]"
  by (induction s) auto

lemma split_on_sep: "c \<notin> set s \<Longrightarrow> split_on c (s @ c # r) = s # split_on c r"
  by (induction s) auto

lemma split_once_sep: "c \<notin> set s \<Longrightarrow> split_once c (s @ c # r) = Some (s, r)"
proof -
  assume "c \<notin> set s"
  then have "\<forall>x \<in> set s. x \<noteq> c" by auto
  then have "dropWhile (\<lambda>x. x \<noteq> c) (s @ c # r) = c # r" "takeWhile (\<lambda>x. x \<noteq> c) (s @ c # r) = s"
    by (simp_all add: dropWhile_append takeWhile_append)
  then show ?thesis by (simp add: split_once_def)
qed

lemma int_digits_digits: "list_all is_digit s \<Longrightarrow> s \<noteq> [] \<or> after \<Longrightarrow> int_digits after s = Some s"
  by (induction s arbitrary: after) auto

lemma digit_not_space: "is_digit c \<Longrightarrow> \<not> is_py_space c"
  by (simp add: is_digit_def is_py_space_def)

lemma strip_chars_none: "list_all (\<lambda>c. \<not> C c) s \<Longrightarrow> strip_chars C s = s"
  by (rule strip_chars_absent) (simp add: list_all_iff)

text \<open>\<open>int\<close> reads what \<open>str\<close> wrote.\<close>

lemma int_of_text_int:
  assumes "nat \<bar>n\<bar> < 10 ^ MAX_INT_DIGITS"
  shows "int_of_text (int_str n) = Some n"
proof -
  have nz: "MAX_INT_DIGITS \<noteq> 0" by (simp add: MAX_INT_DIGITS_def)
  define ds where "ds = nat_str (nat \<bar>n\<bar>)"
  have short: "length ds \<le> MAX_INT_DIGITS" unfolding ds_def by (rule nat_str_length_le [OF assms nz])
  have digits: "list_all is_digit ds" unfolding ds_def by (rule nat_str_digits)
  have number: "nat_of_str ds 0 = nat \<bar>n\<bar>" unfolding ds_def by (rule nat_of_nat_str)
  obtain c cs where c: "ds = c # cs" "is_digit c" using digits nat_str_nonempty by (cases ds) (auto simp: ds_def)
  have sign: "c \<notin> set ''+-''" using c(2) by (auto simp: is_digit_def code_def)
  have read: "int_digits False ds = Some ds" using digits c by (intro int_digits_digits) auto
  have minus: "\<not> is_py_space (CHR ''-'')" by (simp add: is_py_space_def code_def)
  show ?thesis
  proof (cases "n < 0")
    case True
    then have written: "int_str n = CHR ''-'' # ds" by (simp add: int_str_def ds_def)
    have "strip_chars is_py_space (CHR ''-'' # ds) = CHR ''-'' # ds"
      using digits digit_not_space minus by (intro strip_chars_none) (auto simp: list_all_iff)
    then show ?thesis using True read short number by (simp add: written int_of_text_def)
  next
    case False
    then have written: "int_str n = ds" by (simp add: int_str_def ds_def)
    have "strip_chars is_py_space ds = ds"
      using digits digit_not_space by (intro strip_chars_none) (auto simp: list_all_iff)
    then show ?thesis using False read short number c sign by (simp add: written int_of_text_def)
  qed
qed

end
