(* ===== verification/Gateway.thy ===== *)
theory Gateway
  imports Py_Values Payments_Audit "HOL-Library.AList"
begin

text \<open>
  The payment provider: \<open>payments/gateway.py\<close>. The Stripe client is the record \<open>stripe_client\<close> of its answers; what the
  code makes of them is written out, as are the signatures of the provider that the tests run with. A decoded object is a
  \<open>pyval\<close>, and a \<open>Mapping\<close> is a \<open>PDict\<close>.
\<close>

section \<open>Reading objects\<close>

definition reference_id :: "(rat \<Rightarrow> string) \<Rightarrow> pyval \<Rightarrow> string option" where
  "reference_id float_repr value =
     (case value of
        PStr s \<Rightarrow> Some s
      | PDict d \<Rightarrow> if py_true (dict_get d ''id'') then Some (py_str float_repr (dict_get d ''id'')) else None
      | _ \<Rightarrow> None)"

definition required_string :: "(string \<times> pyval) list \<Rightarrow> string \<Rightarrow> exn + string" where
  "required_string value key =
     (case dict_get value key of
        PStr s \<Rightarrow> if s = [] then Inl (PaymentProviderError ''Stripe response is incomplete'') else Inr s
      | _ \<Rightarrow> Inl (PaymentProviderError ''Stripe response is incomplete''))"

definition stripe_mapping :: "pyval \<Rightarrow> exn + (string \<times> pyval) list" where
  "stripe_mapping value =
     (case value of PDict d \<Rightarrow> Inr d | _ \<Rightarrow> Inl (PaymentProviderError ''Stripe response has an invalid shape''))"

fun int_only :: "pyval \<Rightarrow> int option" where
  "int_only (PInt n) = Some n"
| "int_only _ = None"

definition event_shape_error :: exn where
  "event_shape_error = PaymentSignatureError ''invalid webhook event shape''"

text \<open>\<open>except (KeyError, TypeError)\<close>\<close>

definition as_event_shape :: "exn + 'a \<Rightarrow> exn + 'a" where
  "as_event_shape r = (case r of Inl e \<Rightarrow> if e = KeyError \<or> e = TypeError then Inl event_shape_error else Inl e | Inr x \<Rightarrow> Inr x)"

definition event_refund :: "(rat \<Rightarrow> string) \<Rightarrow> string \<Rightarrow> (string \<times> pyval) list \<Rightarrow> string option \<times> int option" where
  "event_refund float_repr event_type object_data =
     (if starts_with ''refund.'' event_type
      then (let status = dict_get object_data ''status''
            in (if status = PNone then None else Some (py_str float_repr status), int_only (dict_get object_data ''amount'')))
      else if event_type = ''charge.refunded''
      then (if dict_get object_data ''refunded'' = PBool True then Some ''succeeded'' else None,
            int_only (dict_get object_data ''amount_refunded''))
      else (None, None))"

definition provider_event_of :: "(rat \<Rightarrow> string) \<Rightarrow> (string \<times> pyval) list \<Rightarrow> exn + provider_event" where
  "provider_event_of float_repr event =
     bind_res (as_event_shape
       (bind_res (subscript (PDict event) ''id'') (\<lambda>event_id.
        bind_res (subscript (PDict event) ''type'') (\<lambda>event_type.
        bind_res (subscript (PDict event) ''livemode'') (\<lambda>livemode.
        bind_res (subscript (PDict event) ''data'') (\<lambda>data.
        bind_res (subscript data ''object'') (\<lambda>object_data.
          Inr (py_str float_repr event_id, py_str float_repr event_type, livemode, object_data)))))))) (\<lambda>(event_id, event_type, mode, object_data).
     case (mode, object_data) of
       (PBool livemode, PDict object_fields) \<Rightarrow>
         (let internal = (case dict_get object_fields ''metadata'' of
                PDict metadata \<Rightarrow> if py_true (dict_get metadata ''order_id'') then Some (py_str float_repr (dict_get metadata ''order_id'')) else None
              | _ \<Rightarrow> None);
              refund = event_refund float_repr event_type object_fields
          in Inr \<lparr>pe_event_id = event_id, pe_event_type = event_type, pe_livemode = livemode, pe_internal_order_id = internal,
               pe_session_id = (if starts_with ''checkout.session.'' event_type then Some (py_str float_repr (dict_get object_fields ''id'')) else None),
               pe_payment_intent_id = reference_id float_repr (dict_get object_fields ''payment_intent''),
               pe_refund_status = fst refund, pe_refunded_amount = snd refund\<rparr>)
     | _ \<Rightarrow> Inl event_shape_error)"

section \<open>_canonical_checkout\<close>

definition incomplete :: exn where
  "incomplete = PaymentProviderError ''canonical checkout is incomplete''"

text \<open>\<open>except (KeyError, TypeError, ValueError)\<close>\<close>

definition as_incomplete :: "exn + 'a \<Rightarrow> exn + 'a" where
  "as_incomplete r =
     (case r of Inl e \<Rightarrow> if e = KeyError \<or> e = TypeError \<or> is_ValueError e then Inl incomplete else Inl e | Inr x \<Rightarrow> Inr x)"

text \<open>The texts of the statuses of the refunds that are objects.\<close>

definition refund_statuses :: "(rat \<Rightarrow> string) \<Rightarrow> pyval list \<Rightarrow> string list" where
  "refund_statuses float_repr refunds =
     concat (map (\<lambda>r. case r of PDict d \<Rightarrow> [py_str float_repr (dict_get d ''status'')] | _ \<Rightarrow> []) refunds)"

text \<open>The refund status and the refunded amount of a charge.\<close>

definition charge_refund :: "(rat \<Rightarrow> string) \<Rightarrow> pyval \<Rightarrow> exn + string option \<times> int" where
  "charge_refund float_repr charge =
     (case charge of
        PDict c \<Rightarrow>
          (case int_only (dict_get c ''amount_refunded'') of
             Some n \<Rightarrow>
               if 0 < n
               then (let refund_data = (case dict_get c ''refunds'' of PDict r \<Rightarrow> dict_get r ''data'' | _ \<Rightarrow> PNone)
                     in bind_res (if py_true refund_data then py_iter refund_data else Inr []) (\<lambda>refunds.
                          let statuses = refund_statuses float_repr refunds
                          in Inr (Some (if statuses \<noteq> [] \<and> set statuses = {''succeeded''} then ''succeeded'' else ''pending''), n)))
               else Inr (None, n)
           | None \<Rightarrow> Inr (None, 0))
      | _ \<Rightarrow> Inr (None, 0))"

definition latest_charge :: "(string \<times> pyval) list \<Rightarrow> pyval" where
  "latest_charge session =
     (case dict_get session ''payment_intent'' of PDict p \<Rightarrow> dict_get p ''latest_charge'' | _ \<Rightarrow> PNone)"

text \<open>The single line item.\<close>

definition line_item :: "(string \<times> pyval) list \<Rightarrow> exn + (string \<times> pyval) list" where
  "line_item session =
     (case (case dict_get session ''line_items'' of PDict l \<Rightarrow> dict_get l ''data'' | _ \<Rightarrow> PNone) of
        PList [PDict item] \<Rightarrow> Inr item
      | _ \<Rightarrow> Inl (PaymentProviderError ''canonical checkout must contain exactly one line item''))"

definition canonical_checkout_of :: "(rat \<Rightarrow> string) \<Rightarrow> (string \<times> pyval) list \<Rightarrow> exn + canonical_checkout" where
  "canonical_checkout_of float_repr session =
     bind_res (line_item session) (\<lambda>item.
     case (dict_get session ''metadata'', reference_id float_repr (dict_get item ''price''), dict_get session ''livemode'') of
       (PDict metadata, Some price_id, PBool livemode) \<Rightarrow>
         as_incomplete
           (bind_res (charge_refund float_repr (latest_charge session)) (\<lambda>(refund_status, refunded).
            bind_res (subscript (PDict session) ''id'') (\<lambda>session_id.
            bind_res (subscript (PDict session) ''mode'') (\<lambda>mode.
            bind_res (subscript (PDict session) ''status'') (\<lambda>status.
            bind_res (subscript (PDict session) ''payment_status'') (\<lambda>payment_status.
            bind_res (bind_res (subscript (PDict session) ''amount_total'') py_int) (\<lambda>amount_total.
            bind_res (subscript (PDict session) ''currency'') (\<lambda>currency.
            bind_res (bind_res (subscript (PDict item) ''quantity'') py_int) (\<lambda>quantity.
              Inr \<lparr>cc_session_id = py_str float_repr session_id,
                cc_payment_intent_id = reference_id float_repr (dict_get session ''payment_intent''), cc_livemode = livemode,
                cc_mode = py_str float_repr mode, cc_status = py_str float_repr status,
                cc_payment_status = py_str float_repr payment_status,
                cc_metadata = map (\<lambda>(k, v). (k, py_str float_repr v)) (dict_items metadata), cc_price_id = price_id,
                cc_amount_total = amount_total, cc_currency = py_str float_repr currency, cc_quantity = quantity,
                cc_refund_status = refund_status, cc_refunded_amount_total = refunded\<rparr>)))))))))
     | _ \<Rightarrow> Inl incomplete)"

section \<open>StripePaymentProvider\<close>

text \<open>What a call of the Stripe client comes to: an object, a timeout, a \<open>StripeError\<close>, or another exception.\<close>

datatype stripe_answer = StripeObject pyval | StripeTimeout | StripeFailure | StripeRaised exn

record stripe_client =
  sc_create :: "pyval \<Rightarrow> string \<Rightarrow> stripe_answer"
  sc_price :: "string \<Rightarrow> stripe_answer"
  sc_session :: "string \<Rightarrow> pyval \<Rightarrow> stripe_answer"
  sc_payment_intent :: "string \<Rightarrow> stripe_answer"
  sc_construct_event :: "bytes \<Rightarrow> string \<Rightarrow> string \<Rightarrow> int \<Rightarrow> stripe_answer"

record stripe_provider =
  st_payment_mode :: payment_mode
  st_webhook_secret :: string
  st_client :: stripe_client

definition st_livemode :: "stripe_provider \<Rightarrow> bool" where
  "st_livemode sp \<longleftrightarrow> st_payment_mode sp = PM_STRIPE_LIVE"

definition StripePaymentProvider :: "string \<Rightarrow> stripe_provider \<Rightarrow> exn + stripe_provider" where
  "StripePaymentProvider secret_key sp =
     (let key_mode = (if st_payment_mode sp = PM_STRIPE_LIVE then ''live'' else ''test'') in
      if st_payment_mode sp \<notin> {PM_STRIPE_TEST, PM_STRIPE_LIVE}
      then Inl (ValueError ''Stripe provider requires an explicit Stripe payment mode'')
      else if \<not> (starts_with (''sk_'' @ key_mode @ ''_'') secret_key \<or> starts_with (''rk_'' @ key_mode @ ''_'') secret_key)
      then Inl (ValueError ''Stripe credential does not match the configured payment mode'')
      else if \<not> starts_with ''whsec_'' (st_webhook_secret sp)
      then Inl (ValueError ''Stripe provider requires a webhook signing secret'')
      else Inr sp)"

definition stripe_run :: "string \<Rightarrow> stripe_answer \<Rightarrow> exn + pyval" where
  "stripe_run failure answer =
     (case answer of
        StripeObject v \<Rightarrow> Inr v
      | StripeTimeout \<Rightarrow> Inl (PaymentProviderError ''Stripe request timed out'')
      | StripeFailure \<Rightarrow> Inl (PaymentProviderError failure)
      | StripeRaised e \<Rightarrow> Inl e)"

definition require_object_mode :: "stripe_provider \<Rightarrow> (string \<times> pyval) list \<Rightarrow> string \<Rightarrow> exn + unit" where
  "require_object_mode sp value operation =
     (if dict_get value ''livemode'' \<noteq> PBool (st_livemode sp)
      then Inl (PaymentProviderError (''Stripe '' @ operation @ '' returned an object from the wrong mode'')) else Inr ())"

definition STRIPE_INTEGRATION_IDENTIFIER :: string where
  "STRIPE_INTEGRATION_IDENTIFIER = ''spacerocks_timestamp_checkout_qjvkmzrx''"

definition checkout_parameters :: "hosted_checkout_request \<Rightarrow> pyval" where
  "checkout_parameters r =
     PDict [(''mode'', PStr ''payment''), (''automatic_tax'', PDict [(''enabled'', PBool False)]),
       (''integration_identifier'', PStr STRIPE_INTEGRATION_IDENTIFIER), (''customer_email'', PStr (hr_customer_email r)),
       (''line_items'', PList [PDict [(''price'', PStr (hr_price_id r)), (''quantity'', PInt 1)]]),
       (''success_url'', PStr (hr_success_url r)), (''cancel_url'', PStr (hr_cancel_url r)),
       (''metadata'', PDict [(''order_id'', PStr (hr_internal_order_id r))]),
       (''payment_intent_data'', PDict [(''metadata'', PDict [(''order_id'', PStr (hr_internal_order_id r))])])]"

definition stripe_create_checkout :: "stripe_provider \<Rightarrow> hosted_checkout_request \<Rightarrow> string \<Rightarrow> exn + hosted_checkout_result" where
  "stripe_create_checkout sp request idempotency_key =
     bind_res (stripe_run ''Stripe checkout creation failed'' (sc_create (st_client sp) (checkout_parameters request) idempotency_key)) (\<lambda>session.
     bind_res (stripe_mapping session) (\<lambda>session_data.
     bind_res (require_object_mode sp session_data ''checkout creation'') (\<lambda>_.
     bind_res (required_string session_data ''id'') (\<lambda>session_id.
     bind_res (required_string session_data ''url'') (\<lambda>checkout_url.
       Inr \<lparr>hc_session_id = session_id, hc_checkout_url = checkout_url\<rparr>)))))"

definition stripe_retrieve_price :: "stripe_provider \<Rightarrow> string \<Rightarrow> exn + provider_price" where
  "stripe_retrieve_price sp price_id =
     bind_res (stripe_run ''Stripe Price retrieval failed'' (sc_price (st_client sp) price_id)) (\<lambda>price.
     bind_res (stripe_mapping price) (\<lambda>price_data.
     bind_res (require_object_mode sp price_data ''Price retrieval'') (\<lambda>_.
     bind_res (required_string price_data ''id'') (\<lambda>found_id.
       (case int_only (dict_get price_data ''unit_amount'') of
          Some amount \<Rightarrow>
            if found_id \<noteq> price_id \<or> dict_get price_data ''active'' \<noteq> PBool True \<or> dict_get price_data ''type'' \<noteq> PStr ''one_time'' \<or>
               amount \<le> 0 \<or> 100000000 < amount \<or> dict_get price_data ''currency'' \<noteq> PStr ''usd''
            then Inl (PaymentProviderError ''Stripe Price is unavailable or invalid'')
            else Inr \<lparr>pr_price_id = price_id, pr_amount_minor = amount, pr_currency = ''usd''\<rparr>
        | None \<Rightarrow> Inl (PaymentProviderError ''Stripe Price is unavailable or invalid''))))))"

definition stripe_verify_event :: "(rat \<Rightarrow> string) \<Rightarrow> stripe_provider \<Rightarrow> bytes \<Rightarrow> string \<Rightarrow> int \<Rightarrow> exn + provider_event" where
  "stripe_verify_event float_repr sp raw_body signature tolerance =
     bind_res (case sc_construct_event (st_client sp) raw_body signature (st_webhook_secret sp) tolerance of
         StripeObject v \<Rightarrow> Inr v
       | StripeTimeout \<Rightarrow> Inl (OtherException ''TimeoutError'')
       | StripeFailure \<Rightarrow> Inl (PaymentSignatureError ''invalid webhook signature'')
       | StripeRaised e \<Rightarrow> Inl (if is_ValueError e then PaymentSignatureError ''invalid webhook signature'' else e)) (\<lambda>event.
     bind_res (case event of PDict d \<Rightarrow> Inr d | _ \<Rightarrow> Inl event_shape_error) (\<lambda>event_data.
     bind_res (provider_event_of float_repr event_data) (\<lambda>pe.
       if pe_livemode pe \<noteq> st_livemode sp
       then Inl (PaymentSignatureError ''webhook event mode does not match the configured payment mode'') else Inr pe)))"

definition stripe_retrieve_checkout :: "(rat \<Rightarrow> string) \<Rightarrow> stripe_provider \<Rightarrow> string \<Rightarrow> exn + canonical_checkout" where
  "stripe_retrieve_checkout float_repr sp session_id =
     bind_res (stripe_run ''Stripe checkout retrieval failed''
       (sc_session (st_client sp) session_id
          (PDict [(''expand'', PList [PStr ''line_items.data.price'', PStr ''payment_intent.latest_charge.refunds''])]))) (\<lambda>session.
     bind_res (stripe_mapping session) (\<lambda>session_data.
     bind_res (require_object_mode sp session_data ''checkout retrieval'') (\<lambda>_.
       canonical_checkout_of float_repr session_data)))"

definition stripe_resolve_internal_order_id :: "(rat \<Rightarrow> string) \<Rightarrow> stripe_provider \<Rightarrow> provider_event \<Rightarrow> exn + string option" where
  "stripe_resolve_internal_order_id float_repr sp event =
     (if pe_livemode event \<noteq> st_livemode sp
      then Inl (PaymentProviderError ''Stripe event mode does not match the configured payment mode'')
      else if pe_internal_order_id event \<noteq> None then Inr (pe_internal_order_id event)
      else (case pe_payment_intent_id event of
          None \<Rightarrow> Inr None
        | Some pid \<Rightarrow>
            bind_res (stripe_run ''Stripe PaymentIntent retrieval failed'' (sc_payment_intent (st_client sp) pid)) (\<lambda>intent.
            bind_res (stripe_mapping intent) (\<lambda>intent_data.
            bind_res (require_object_mode sp intent_data ''PaymentIntent retrieval'') (\<lambda>_.
              case dict_get intent_data ''metadata'' of
                PDict metadata \<Rightarrow>
                  if py_true (dict_get metadata ''order_id'') then Inr (Some (py_str float_repr (dict_get metadata ''order_id''))) else Inr None
              | _ \<Rightarrow> Inr None)))))"

text \<open>The provider that the services are given.\<close>

definition stripe_payment_provider :: "(rat \<Rightarrow> string) \<Rightarrow> stripe_provider \<Rightarrow> payment_provider" where
  "stripe_payment_provider float_repr sp =
     \<lparr>pp_payment_mode = st_payment_mode sp, pp_create_checkout = stripe_create_checkout sp,
      pp_retrieve_price = stripe_retrieve_price sp, pp_verify_event = stripe_verify_event float_repr sp,
      pp_resolve_internal_order_id = stripe_resolve_internal_order_id float_repr sp,
      pp_retrieve_checkout = stripe_retrieve_checkout float_repr sp\<rparr>"

section \<open>FixturePaymentProvider\<close>

text \<open>\<open>fx_hmac\<close> is HMAC-SHA-256, \<open>fx_sha\<close> SHA-256.\<close>

record fixture_provider =
  fx_hmac :: "bytes \<Rightarrow> bytes \<Rightarrow> bytes"
  fx_sha :: "bytes \<Rightarrow> bytes"
  fx_signing_secret :: bytes
  fx_checkouts :: "(string \<times> canonical_checkout) list"
  fx_prices :: "(string \<times> provider_price) list"

definition FixturePaymentProvider :: "bool \<Rightarrow> bool \<Rightarrow> fixture_provider \<Rightarrow> exn + fixture_provider" where
  "FixturePaymentProvider app_env_test pytest_loaded fx =
     (if \<not> app_env_test \<or> \<not> pytest_loaded then Inl (RuntimeError ''fixture_payment_forbidden_outside_test'')
      else if length (fx_signing_secret fx) < 32 then Inl (ValueError ''fixture signing secret must contain at least 32 bytes'')
      else Inr (fx\<lparr>fx_checkouts := [], fx_prices := []\<rparr>))"

definition fixture_retrieve_price :: "fixture_provider \<Rightarrow> string \<Rightarrow> exn + provider_price" where
  "fixture_retrieve_price fx price_id =
     (case map_of (fx_prices fx) price_id of
        None \<Rightarrow> Inl (PaymentProviderError ''fixture price is unavailable'') | Some p \<Rightarrow> Inr p)"

definition fixture_set_checkout :: "fixture_provider \<Rightarrow> canonical_checkout \<Rightarrow> fixture_provider" where
  "fixture_set_checkout fx c = fx\<lparr>fx_checkouts := AList.update (cc_session_id c) c (fx_checkouts fx)\<rparr>"

definition fixture_set_price :: "fixture_provider \<Rightarrow> string \<Rightarrow> int \<Rightarrow> string \<Rightarrow> fixture_provider" where
  "fixture_set_price fx price_id amount currency =
     fx\<lparr>fx_prices := AList.update price_id \<lparr>pr_price_id = price_id, pr_amount_minor = amount, pr_currency = currency\<rparr> (fx_prices fx)\<rparr>"

definition fixture_create_checkout ::
  "fixture_provider \<Rightarrow> hosted_checkout_request \<Rightarrow> string \<Rightarrow> exn + hosted_checkout_result \<times> fixture_provider" where
  "fixture_create_checkout fx request idempotency_key =
     bind_res (encode_ascii idempotency_key) (\<lambda>key.
       let session_id = ''cs_test_'' @ take 24 (hex (fx_sha fx key))
       in Inr (\<lparr>hc_session_id = session_id, hc_checkout_url = ''https://checkout.stripe.com/c/pay/'' @ session_id\<rparr>,
            fixture_set_checkout fx
              \<lparr>cc_session_id = session_id, cc_payment_intent_id = None, cc_livemode = False, cc_mode = ''payment'', cc_status = ''open'',
               cc_payment_status = ''unpaid'', cc_metadata = [(''order_id'', hr_internal_order_id request)], cc_price_id = hr_price_id request,
               cc_amount_total = hr_amount_minor request, cc_currency = hr_currency request, cc_quantity = 1, cc_refund_status = None,
               cc_refunded_amount_total = 0\<rparr>))"

definition fixture_signature :: "fixture_provider \<Rightarrow> bytes \<Rightarrow> int \<Rightarrow> string" where
  "fixture_signature fx raw_body timestamp = hex (fx_hmac fx (fx_signing_secret fx) (ascii_bytes (int_str timestamp @ ''.'') @ raw_body))"

definition fixture_sign :: "fixture_provider \<Rightarrow> bytes \<Rightarrow> int \<Rightarrow> string" where
  "fixture_sign fx raw_body timestamp = ''t='' @ int_str timestamp @ '',v1='' @ fixture_signature fx raw_body timestamp"

definition signature_error :: exn where
  "signature_error = PaymentSignatureError ''invalid webhook signature''"

text \<open>The fields \<open>t\<close> and \<open>v1\<close> of a signature header.\<close>

definition signature_fields :: "string \<Rightarrow> exn + int \<times> string" where
  "signature_fields signature =
     (let parts = map (split_once (CHR ''='')) (split_on (CHR '','') signature) in
      if None \<in> set parts then Inl signature_error
      else (let fields = map_of (rev (map the parts)) in
         case fields ''t'' of
           None \<Rightarrow> Inl signature_error
         | Some t \<Rightarrow>
             (case (int_of_text t, fields ''v1'') of
                (Some n, Some v) \<Rightarrow> Inr (n, v)
              | _ \<Rightarrow> Inl signature_error)))"

definition fixture_verify_event ::
  "(rat \<Rightarrow> string) \<Rightarrow> (bytes \<Rightarrow> pyval option) \<Rightarrow> int \<Rightarrow> fixture_provider \<Rightarrow> bytes \<Rightarrow> string \<Rightarrow> int \<Rightarrow> exn + provider_event" where
  "fixture_verify_event float_repr other now fx raw_body signature tolerance =
     bind_res (signature_fields signature) (\<lambda>(timestamp, supplied).
       if tolerance < \<bar>now - timestamp\<bar> then Inl signature_error
       else bind_res (compare_digest (fixture_signature fx raw_body timestamp) supplied) (\<lambda>equal.
         if \<not> equal then Inl signature_error
         else (case json_loads other raw_body of
             Some (PDict payload) \<Rightarrow>
               bind_res (provider_event_of float_repr payload) (\<lambda>event.
                 if pe_livemode event
                 then Inl (PaymentSignatureError ''webhook event mode does not match the configured payment mode'') else Inr event)
           | _ \<Rightarrow> Inl (PaymentSignatureError ''invalid webhook payload''))))"

definition fixture_retrieve_checkout :: "fixture_provider \<Rightarrow> string \<Rightarrow> exn + canonical_checkout" where
  "fixture_retrieve_checkout fx session_id =
     (case map_of (fx_checkouts fx) session_id of
        None \<Rightarrow> Inl (PaymentProviderError ''fixture checkout is missing'') | Some c \<Rightarrow> Inr c)"

definition fixture_resolve_internal_order_id :: "fixture_provider \<Rightarrow> provider_event \<Rightarrow> exn + string option" where
  "fixture_resolve_internal_order_id fx event =
     (if pe_internal_order_id event \<noteq> None then Inr (pe_internal_order_id event)
      else if pe_payment_intent_id event = None then Inr None
      else (case find (\<lambda>c. cc_payment_intent_id c = pe_payment_intent_id event) (map snd (fx_checkouts fx)) of
          None \<Rightarrow> Inr None
        | Some c \<Rightarrow> Inr (map_of (cc_metadata c) ''order_id'')))"

section \<open>Providers of one mode\<close>

text \<open>What the services expect of a provider: the events it verifies and the checkouts it retrieves have its own mode.\<close>

locale mode_provider =
  fixes pp :: payment_provider and live :: bool
  assumes event_mode: "pp_verify_event pp raw_body signature tolerance = Inr event \<Longrightarrow> pe_livemode event = live"
    and checkout_mode: "pp_retrieve_checkout pp session_id = Inr checkout \<Longrightarrow> cc_livemode checkout = live"
begin

lemma wrong_mode_inert:
  assumes "live \<noteq> (ps_payment_mode ps = PM_STRIPE_LIVE)"
  shows "\<exists>e. process_webhook ps pp sha new_id raw_body signature now inserted_at d = (Inl e, d)"
  using assms event_mode [of raw_body signature "ps_stripe_signature_tolerance_seconds ps"]
  by (cases "pp_verify_event pp raw_body signature (ps_stripe_signature_tolerance_seconds ps)")
    (auto simp: process_webhook_def bind_act_def lift_act_def raise_act_def)

end

lemma stripe_verify_event_mode: "stripe_verify_event float_repr sp raw_body signature tolerance = Inr event \<Longrightarrow> pe_livemode event = st_livemode sp"
  by (auto simp: stripe_verify_event_def bind_res_Inr_iff split: if_splits)

lemma as_incomplete_Inr: "as_incomplete r = Inr x \<longleftrightarrow> r = Inr x"
  by (auto simp: as_incomplete_def split: sum.splits if_splits)

lemma canonical_checkout_Inr:
  assumes "canonical_checkout_of float_repr session = Inr c"
  obtains item where "line_item session = Inr item" "dict_get session ''livemode'' = PBool (cc_livemode c)"
    "cc_session_id c = py_str float_repr (dict_get session ''id'')" "cc_mode c = py_str float_repr (dict_get session ''mode'')"
    "cc_status c = py_str float_repr (dict_get session ''status'')"
    "cc_payment_status c = py_str float_repr (dict_get session ''payment_status'')"
    "py_int (dict_get session ''amount_total'') = Inr (cc_amount_total c)"
    "cc_currency c = py_str float_repr (dict_get session ''currency'')" "py_int (dict_get item ''quantity'') = Inr (cc_quantity c)"
    "reference_id float_repr (dict_get item ''price'') = Some (cc_price_id c)"
    "charge_refund float_repr (latest_charge session) = Inr (cc_refund_status c, cc_refunded_amount_total c)"
proof -
  from assms obtain item where item: "line_item session = Inr item" by (auto simp: canonical_checkout_of_def bind_res_Inr_iff)
  from assms obtain metadata price_id livemode where shape: "dict_get session ''metadata'' = PDict metadata"
    "reference_id float_repr (dict_get item ''price'') = Some price_id" "dict_get session ''livemode'' = PBool livemode"
    by (auto simp: canonical_checkout_of_def item split: pyval.splits option.splits)
  show thesis
    using assms by (intro that [OF item])
      (auto simp: canonical_checkout_of_def item shape as_incomplete_Inr bind_res_Inr_iff subscript_Inr simp del: subscript.simps)
qed

lemma stripe_retrieve_checkout_Inr:
  assumes "stripe_retrieve_checkout float_repr sp session_id = Inr c"
  obtains session where "sc_session (st_client sp) session_id
      (PDict [(''expand'', PList [PStr ''line_items.data.price'', PStr ''payment_intent.latest_charge.refunds''])]) = StripeObject (PDict session)"
    "canonical_checkout_of float_repr session = Inr c" "dict_get session ''livemode'' = PBool (st_livemode sp)"
  using assms
  by (auto simp: stripe_retrieve_checkout_def bind_res_Inr_iff stripe_run_def stripe_mapping_def require_object_mode_def
      split: stripe_answer.splits pyval.splits if_splits)

interpretation stripe: mode_provider "stripe_payment_provider float_repr sp" "st_livemode sp" for float_repr sp
proof
  show "pe_livemode event = st_livemode sp"
    if "pp_verify_event (stripe_payment_provider float_repr sp) raw_body signature tolerance = Inr event"
    for raw_body signature tolerance event
    using that by (simp add: stripe_payment_provider_def stripe_verify_event_mode)
  show "cc_livemode checkout = st_livemode sp"
    if "pp_retrieve_checkout (stripe_payment_provider float_repr sp) session_id = Inr checkout" for session_id checkout
  proof -
    from that obtain session where "canonical_checkout_of float_repr session = Inr checkout"
      "dict_get session ''livemode'' = PBool (st_livemode sp)"
      by (auto simp: stripe_payment_provider_def elim: stripe_retrieve_checkout_Inr)
    then show ?thesis by (auto elim: canonical_checkout_Inr)
  qed
qed

section \<open>A settled payment is one that Stripe confirms\<close>

lemma process_webhook_cases:
  assumes "process_webhook ps pp sha new_id raw_body signature now inserted_at d = (r, d')"
  obtains (unchanged) "d' = d"
  | (settled) event canonical result where
      "webhook_tx ps new_id event canonical (sha raw_body) now inserted_at d = Inr (result, d')"
      "\<And>c. canonical = Some c \<Longrightarrow> \<exists>s. pp_retrieve_checkout pp s = Inr c"
proof (cases "d' = d")
  case True
  then show ?thesis by (rule unchanged)
next
  case False
  have tx: thesis if "catch_act (transaction (webhook_tx ps new_id event canonical (sha raw_body) now inserted_at)) (\<lambda>e.
        if e = IntegrityError
        then bind_act (read_act (\<lambda>d. Inr (find_stripe_event (pe_event_id event0) d))) (\<lambda>again.
               case again of Some duplicate \<Rightarrow> return_act (duplicate_result duplicate event (sha raw_body))
                 | None \<Rightarrow> raise_act e)
        else raise_act e) d = (r, d')" "\<And>c. canonical = Some c \<Longrightarrow> \<exists>s. pp_retrieve_checkout pp s = Inr c" for event event0 canonical
    using that(1) False
    by (cases "webhook_tx ps new_id event canonical (sha raw_body) now inserted_at d")
      (auto simp: catch_act_def transaction_def bind_act_def read_act_def return_act_def raise_act_def
        split: if_splits option.splits intro: settled that(2))
  show ?thesis
    using assms False
    by (auto simp: process_webhook_def bind_act_def lift_act_def read_act_def raise_act_def return_act_def bind_res_def
        split: if_splits option.splits sum.splits intro!: tx)
qed

text \<open>What a session of Stripe says of the order that it pays for.\<close>

definition session_pays :: "(rat \<Rightarrow> string) \<Rightarrow> payment_settings \<Rightarrow> order_row \<Rightarrow> (string \<times> pyval) list \<Rightarrow> bool" where
  "session_pays float_repr ps order session \<longleftrightarrow>
     dict_get session ''livemode'' = PBool (ps_payment_mode ps = PM_STRIPE_LIVE) \<and>
     py_str float_repr (dict_get session ''mode'') = ''payment'' \<and>
     py_str float_repr (dict_get session ''payment_status'') = ''paid'' \<and>
     o_checkout_session_id order = Some (py_str float_repr (dict_get session ''id'')) \<and>
     py_int (dict_get session ''amount_total'') = Inr (o_amount_minor order) \<and>
     py_str float_repr (dict_get session ''currency'') = o_currency order \<and>
     (\<exists>item. line_item session = Inr item \<and> py_int (dict_get item ''quantity'') = Inr 1 \<and>
        reference_id float_repr (dict_get item ''price'') = Some (expected_price_id ps))"

lemma canonical_session_pays:
  assumes "canonical_checkout_of float_repr session = Inr c" "base_binding ps order event c" "cc_payment_status c = ''paid''"
  shows "session_pays float_repr ps order session"
proof -
  from assms(1) obtain item where "line_item session = Inr item" "dict_get session ''livemode'' = PBool (cc_livemode c)"
    "cc_session_id c = py_str float_repr (dict_get session ''id'')" "cc_mode c = py_str float_repr (dict_get session ''mode'')"
    "cc_payment_status c = py_str float_repr (dict_get session ''payment_status'')"
    "py_int (dict_get session ''amount_total'') = Inr (cc_amount_total c)"
    "cc_currency c = py_str float_repr (dict_get session ''currency'')" "py_int (dict_get item ''quantity'') = Inr (cc_quantity c)"
    "reference_id float_repr (dict_get item ''price'') = Some (cc_price_id c)"
    by (rule canonical_checkout_Inr)
  moreover have "cc_livemode c = (ps_payment_mode ps = PM_STRIPE_LIVE)" "cc_mode c = ''payment''"
    "Some (cc_session_id c) = o_checkout_session_id order" "cc_price_id c = expected_price_id ps"
    "cc_amount_total c = o_amount_minor order" "cc_currency c = o_currency order" "cc_quantity c = 1"
    using assms(2) unfolding base_binding_def Let_def by blast+
  ultimately show ?thesis using assms(3) by (simp add: session_pays_def)
qed

text \<open>C17. An order becomes paid only on Stripe's word: when processing a webhook made an order paid, then the session that
  the Stripe client returned for the order's checkout is of the configured mode, is paid, has the order's amount and
  currency, and has one line item, once the configured price. The webhook's own text is not enough.\<close>

theorem paid_only_by_stripe:
  assumes "process_webhook ps (stripe_payment_provider float_repr sp) sha new_id raw_body signature now inserted_at d = (r, d')"
    and "find_order oid d = Some order" "find_order oid d' = Some order'" "store_inv sha d"
    and "o_payment_state order \<noteq> PAID" "o_payment_state order' = PAID"
    and "o_fulfillment_key order = ''stamp:'' @ uuid_str oid"
  shows "\<exists>s expand session. sc_session (st_client sp) s expand = StripeObject (PDict session) \<and> session_pays float_repr ps order session"
  using assms(1)
proof (cases rule: process_webhook_cases)
  case unchanged
  then show ?thesis using assms(2,3,5,6) by simp
next
  case (settled event canonical result)
  from paid_event_queues [OF settled(1) assms(2-7)] obtain checkout where checkout: "canonical = Some checkout"
    "base_binding ps order event checkout" "cc_payment_status checkout = ''paid''" by blast
  then obtain s where "stripe_retrieve_checkout float_repr sp s = Inr checkout"
    using settled(2) by (auto simp: stripe_payment_provider_def)
  then obtain session where "sc_session (st_client sp) s
      (PDict [(''expand'', PList [PStr ''line_items.data.price'', PStr ''payment_intent.latest_charge.refunds''])]) = StripeObject (PDict session)"
    "canonical_checkout_of float_repr session = Inr checkout"
    by (rule stripe_retrieve_checkout_Inr)
  then show ?thesis using canonical_session_pays checkout(2,3) by blast
qed

section \<open>A full refund is one whose every part succeeded\<close>

lemma charge_refund_succeeded:
  assumes "charge_refund float_repr charge = Inr (Some ''succeeded'', n)"
  obtains c r refunds where "charge = PDict c" "dict_get c ''amount_refunded'' = PInt n" "0 < n" "dict_get c ''refunds'' = PDict r"
    "py_iter (dict_get r ''data'') = Inr refunds" "set (refund_statuses float_repr refunds) = {''succeeded''}"
proof -
  from assms obtain c where c: "charge = PDict c" by (auto simp: charge_refund_def split: pyval.splits)
  obtain m where m: "int_only (dict_get c ''amount_refunded'') = Some m" "0 < m"
    using assms by (auto simp: charge_refund_def c split: option.splits if_splits)
  define data where "data = (case dict_get c ''refunds'' of PDict r \<Rightarrow> dict_get r ''data'' | _ \<Rightarrow> PNone)"
  have "bind_res (if py_true data then py_iter data else Inr []) (\<lambda>refunds.
      let statuses = refund_statuses float_repr refunds
      in Inr (Some (if statuses \<noteq> [] \<and> set statuses = {''succeeded''} then ''succeeded'' else ''pending''), m)) = Inr (Some ''succeeded'', n)"
    using assms m unfolding charge_refund_def c data_def Let_def [of "case_pyval _ _ _ _ _ _ _ _ _ _"] by simp
  then obtain refunds where refunds: "(if py_true data then py_iter data else Inr []) = Inr refunds" "m = n"
    and statuses: "refund_statuses float_repr refunds \<noteq> []" "set (refund_statuses float_repr refunds) = {''succeeded''}"
    unfolding bind_res_Inr_iff Let_def by (auto split: if_splits)
  have amount: "dict_get c ''amount_refunded'' = PInt n" using m refunds(2) by (cases "dict_get c ''amount_refunded''") simp_all
  have "py_true data" using refunds(1) statuses(1) by (cases "py_true data") (simp_all add: refund_statuses_def)
  then have iter: "py_iter data = Inr refunds" using refunds(1) by simp
  obtain r where r: "dict_get c ''refunds'' = PDict r"
    using \<open>py_true data\<close> by (cases "dict_get c ''refunds''") (simp_all add: data_def)
  show thesis
    by (rule that [OF c amount _ r _ statuses(2)]) (use m refunds(2) iter r in \<open>simp_all add: data_def\<close>)
qed

text \<open>A refund that the service takes for a full one is one that Stripe confirms: the latest charge of the session has
  the whole amount refunded, and its list of refunds is not empty and every refund object in it has succeeded.\<close>

theorem full_refund_confirmed:
  assumes "canonical_checkout_of float_repr session = Inr c" "authoritative_full_refund event c"
  shows "\<exists>charge refunds data. latest_charge session = PDict charge \<and>
    py_int (dict_get session ''amount_total'') = Inr (cc_amount_total c) \<and> dict_get charge ''amount_refunded'' = PInt (cc_amount_total c) \<and>
    dict_get charge ''refunds'' = PDict refunds \<and> py_iter (dict_get refunds ''data'') = Inr data \<and>
    refund_statuses float_repr data \<noteq> [] \<and> list_all (\<lambda>s. s = ''succeeded'') (refund_statuses float_repr data)"
proof -
  from assms(1) obtain amount: "py_int (dict_get session ''amount_total'') = Inr (cc_amount_total c)"
    and refund: "charge_refund float_repr (latest_charge session) = Inr (cc_refund_status c, cc_refunded_amount_total c)"
    by (rule canonical_checkout_Inr)
  have full: "cc_refund_status c = Some ''succeeded''" "cc_refunded_amount_total c = cc_amount_total c"
    using assms(2) by (simp_all add: authoritative_full_refund_def)
  obtain charge refunds data where charge: "latest_charge session = PDict charge" "dict_get charge ''amount_refunded'' = PInt (cc_amount_total c)"
    "dict_get charge ''refunds'' = PDict refunds" "py_iter (dict_get refunds ''data'') = Inr data"
    and statuses: "set (refund_statuses float_repr data) = {''succeeded''}"
    by (rule charge_refund_succeeded [OF refund [unfolded full]])
  have "refund_statuses float_repr data \<noteq> []" using statuses by (rule contrapos_pn) simp
  moreover have "list_all (\<lambda>s. s = ''succeeded'') (refund_statuses float_repr data)"
    unfolding list_all_iff statuses by blast
  ultimately show ?thesis using amount charge by blast
qed

section \<open>The fixture's signatures\<close>

lemma hex_chars: "c \<in> set (hex bs) \<Longrightarrow> is_lower_hex c"
  using hex_lower_hex [of bs] by (simp add: list_all_iff)

lemma signature_fields_sign:
  assumes "nat \<bar>t\<bar> < 10 ^ MAX_INT_DIGITS"
  shows "signature_fields (fixture_sign fx raw_body t) = Inr (t, fixture_signature fx raw_body t)"
proof -
  define v where "v = fixture_signature fx raw_body t"
  have v: "CHR '','' \<notin> set v" using hex_chars by (fastforce simp: v_def fixture_signature_def is_lower_hex_def is_digit_def code_def)
  have number: "set (int_str t) \<subseteq> {c. is_digit c \<or> c = CHR ''-''}"
    using nat_str_digits by (auto simp: int_str_def list_all_iff)
  have t: "CHR '','' \<notin> set (''t='' @ int_str t)" using number by (auto simp: is_digit_def code_def)
  have "split_on (CHR '','') (fixture_sign fx raw_body t) = [''t='' @ int_str t, ''v1='' @ v]"
    using split_on_sep [OF t, of "''v1='' @ v"] split_on_absent [of "CHR '',''" "''v1='' @ v"] v
    by (simp add: fixture_sign_def v_def)
  moreover have "split_once (CHR ''='') (''t='' @ int_str t) = Some (''t'', int_str t)"
    "split_once (CHR ''='') (''v1='' @ v) = Some (''v1'', v)"
    using split_once_sep [of "CHR ''=''" "''t''" "int_str t"] split_once_sep [of "CHR ''=''" "''v1''" v] by simp_all
  ultimately show ?thesis using int_of_text_int [OF assms] by (simp add: signature_fields_def v_def)
qed

text \<open>Within the tolerance, the fixture accepts what it has signed: the result is what the payload says, an event of
  the test mode, and every other payload is refused; outside of it, nothing is accepted.\<close>

theorem fixture_verifies_signed:
  assumes "nat \<bar>t\<bar> < 10 ^ MAX_INT_DIGITS"
  shows "fixture_verify_event float_repr other now fx raw_body (fixture_sign fx raw_body t) tolerance =
    (if tolerance < \<bar>now - t\<bar> then Inl signature_error
     else (case json_loads other raw_body of
         Some (PDict payload) \<Rightarrow>
           bind_res (provider_event_of float_repr payload) (\<lambda>event.
             if pe_livemode event then Inl (PaymentSignatureError ''webhook event mode does not match the configured payment mode'')
             else Inr event)
       | _ \<Rightarrow> Inl (PaymentSignatureError ''invalid webhook payload'')))"
proof -
  have "is_ascii (fixture_signature fx raw_body t)"
    using hex_chars by (fastforce simp: is_ascii_def list_all_iff fixture_signature_def is_lower_hex_def is_digit_def)
  then show ?thesis
    by (simp add: fixture_verify_event_def signature_fields_sign [OF assms] compare_digest_def)
qed

section \<open>Samples\<close>

definition sample_session :: "(string \<times> pyval) list" where
  "sample_session =
     [(''id'', PStr ''cs_test_1''), (''livemode'', PBool False), (''mode'', PStr ''payment''), (''status'', PStr ''complete''),
      (''payment_status'', PStr ''paid''), (''payment_intent'', PDict [(''id'', PStr ''pi_1''), (''latest_charge'', PNone)]),
      (''metadata'', PDict [(''order_id'', PStr (uuid_str 7))]), (''amount_total'', PInt 500), (''currency'', PStr ''usd''),
      (''line_items'', PDict [(''data'', PList [PDict [(''price'', PDict [(''id'', PStr ''price_1'')]), (''quantity'', PInt 1)]])])]"

definition sample_payload :: "(string \<times> pyval) list" where
  "sample_payload =
     [(''id'', PStr ''evt_1''), (''type'', PStr ''checkout.session.completed''), (''livemode'', PBool False),
      (''data'', PDict [(''object'', PDict [(''id'', PStr ''cs_test_1''), (''payment_intent'', PStr ''pi_1''),
         (''metadata'', PDict [(''order_id'', PStr (uuid_str 7))])])])]"

definition sample_stripe :: stripe_provider where
  "sample_stripe = \<lparr>st_payment_mode = PM_STRIPE_TEST, st_webhook_secret = ''whsec_x'',
     st_client = \<lparr>sc_create = \<lambda>_ _. StripeTimeout, sc_price = \<lambda>_. StripeTimeout, sc_session = \<lambda>_ _. StripeObject (PDict sample_session),
       sc_payment_intent = \<lambda>_. StripeTimeout, sc_construct_event = \<lambda>_ _ _ _. StripeObject (PDict sample_payload)\<rparr>\<rparr>"

lemma sample_canonical: "canonical_checkout_of float_repr sample_session = Inr paid_checkout"
  by (simp add: canonical_checkout_of_def sample_session_def line_item_def dict_get_def reference_id_def latest_charge_def charge_refund_def
      as_incomplete_def paid_checkout_def dict_items_def)

lemma sample_event_read: "provider_event_of float_repr sample_payload = Inr paid_event"
  by (simp add: provider_event_of_def sample_payload_def dict_get_def as_event_shape_def event_refund_def reference_id_def starts_with_def
      paid_event_def)

lemma sample_stripe_calls:
  "stripe_verify_event float_repr sample_stripe raw_body signature tolerance = Inr paid_event"
  "stripe_retrieve_checkout float_repr sample_stripe s = Inr paid_checkout"
  by (simp_all add: stripe_verify_event_def stripe_retrieve_checkout_def sample_stripe_def st_livemode_def stripe_run_def stripe_mapping_def
      require_object_mode_def sample_canonical sample_event_read)
    (simp_all add: paid_event_def sample_session_def dict_get_def)

lemma sample_stripe_webhook:
  obtains d' where "process_webhook sample_settings (stripe_payment_provider float_repr sample_stripe) (\<lambda>_. replicate 32 2) sample_ids [] []
      (Aware 1) (Aware 1) open_db = (Inr \<lparr>wh_duplicate = False, wh_accepted = True\<rparr>, d')" "find_order 7 d' = Some paid_order"
proof -
  obtain d' where run: "webhook_tx sample_settings sample_ids paid_event (Some paid_checkout) (replicate 32 2) (Aware 1) (Aware 1) open_db =
      Inr (\<lparr>wh_duplicate = False, wh_accepted = True\<rparr>, d')" "find_order 7 d' = Some paid_order" using sample_paid by blast
  have mode: "ps_payment_mode sample_settings = PM_STRIPE_TEST" "pe_livemode paid_event = False" "pe_internal_order_id paid_event \<noteq> None"
    "st_payment_mode sample_stripe = PM_STRIPE_TEST"
    by (simp_all add: sample_settings_def paid_event_def sample_stripe_def)
  have found: "find_stripe_event (pe_event_id paid_event) open_db = None"
    by (simp add: find_stripe_event_def open_db_def empty_db_def)
  have order: "find_order_for_event (pe_internal_order_id paid_event) (pe_payment_intent_id paid_event) open_db = Some open_order"
    by (simp add: find_order_for_event_def paid_event_def or_default_def find_order_def open_db_def open_order_def sample_order_def)
  have session: "o_checkout_session_id open_order = Some ''cs_test_1''" by (simp add: open_order_def sample_order_def)
  have "process_webhook sample_settings (stripe_payment_provider float_repr sample_stripe) (\<lambda>_. replicate 32 2) sample_ids [] []
      (Aware 1) (Aware 1) open_db = (Inr \<lparr>wh_duplicate = False, wh_accepted = True\<rparr>, d')"
    using mode found order session run(1)
    by (simp add: process_webhook_def stripe_payment_provider_def sample_stripe_calls bind_act_def lift_act_def read_act_def catch_act_def
        transaction_def del: not_None_eq)
  then show thesis using that run(2) by blast
qed

theorem paid_only_by_stripe_witness:
  "\<exists>s expand session. sc_session (st_client sample_stripe) s expand = StripeObject (PDict session) \<and>
     session_pays (\<lambda>_. []) sample_settings open_order session"
proof -
  obtain d' where run: "process_webhook sample_settings (stripe_payment_provider (\<lambda>_. []) sample_stripe) (\<lambda>_. replicate 32 2) sample_ids [] []
      (Aware 1) (Aware 1) open_db = (Inr \<lparr>wh_duplicate = False, wh_accepted = True\<rparr>, d')" "find_order 7 d' = Some paid_order"
    by (rule sample_stripe_webhook)
  have "find_order 7 open_db = Some open_order" by (simp add: find_order_def open_db_def open_order_def sample_order_def)
  moreover have "o_payment_state open_order \<noteq> PAID" "o_payment_state paid_order = PAID" by (simp_all add: open_order_def paid_order_def)
  moreover have "o_fulfillment_key open_order = ''stamp:'' @ uuid_str 7" by (simp add: open_order_def sample_order_def)
  ultimately show ?thesis using paid_only_by_stripe [OF run(1) _ run(2) open_db_inv] by blast
qed

definition refunded_session :: "(string \<times> pyval) list" where
  "refunded_session = (''payment_intent'', PDict [(''id'', PStr ''pi_1''), (''latest_charge'', PDict [(''amount_refunded'', PInt 500),
       (''refunds'', PDict [(''data'', PList [PDict [(''status'', PStr ''succeeded'')]])])])]) #
     filter (\<lambda>e. fst e \<noteq> ''payment_intent'') sample_session"

definition refund_event :: provider_event where
  "refund_event = paid_event\<lparr>pe_event_type := ''charge.refunded'', pe_refund_status := Some ''succeeded'', pe_refunded_amount := Some 500\<rparr>"

theorem full_refund_confirmed_witness:
  "\<exists>charge. latest_charge refunded_session = PDict charge \<and> dict_get charge ''amount_refunded'' = PInt 500 \<and>
     authoritative_full_refund refund_event (paid_checkout\<lparr>cc_refund_status := Some ''succeeded'', cc_refunded_amount_total := 500\<rparr>)"
proof -
  have read: "canonical_checkout_of (\<lambda>_. []) refunded_session =
      Inr (paid_checkout\<lparr>cc_refund_status := Some ''succeeded'', cc_refunded_amount_total := 500\<rparr>)"
    by (simp add: canonical_checkout_of_def sample_session_def refunded_session_def line_item_def dict_get_def reference_id_def latest_charge_def
        charge_refund_def as_incomplete_def paid_checkout_def dict_items_def refund_statuses_def)
  have full: "authoritative_full_refund refund_event (paid_checkout\<lparr>cc_refund_status := Some ''succeeded'', cc_refunded_amount_total := 500\<rparr>)"
    by (simp add: authoritative_full_refund_def refund_event_def paid_event_def paid_checkout_def)
  from full_refund_confirmed [OF read full] full show ?thesis by (auto simp: paid_checkout_def)
qed

definition sample_fixture :: fixture_provider where
  "sample_fixture = \<lparr>fx_hmac = \<lambda>_ _. replicate 32 0, fx_sha = \<lambda>_. replicate 32 0, fx_signing_secret = replicate 32 7, fx_checkouts = [],
     fx_prices = []\<rparr>"

theorem fixture_verifies_signed_witness:
  "fixture_verify_event (\<lambda>_. []) (\<lambda>_. Some (PDict sample_payload)) 100 sample_fixture [200] (fixture_sign sample_fixture [200] 90) 300 =
     Inr paid_event"
proof -
  have "(90::nat) < 10 ^ 2" by simp
  also have "\<dots> \<le> 10 ^ MAX_INT_DIGITS" by (rule power_increasing) (simp_all add: MAX_INT_DIGITS_def)
  finally have "nat \<bar>90\<bar> < 10 ^ MAX_INT_DIGITS" by simp
  from fixture_verifies_signed [OF this, of "\<lambda>_. []" "\<lambda>_. Some (PDict sample_payload)" 100 sample_fixture "[200]" 300]
  show ?thesis by (simp add: json_loads_def sample_event_read) (simp add: paid_event_def)
qed

end
