(* ===== verification/Webhooks.thy ===== *)
theory Webhooks
  imports Py_Values Credentials Notices
begin

text \<open>
  The mail provider's two sides: the request that \<open>notifications/resend.py\<close> sends with the texts of
  \<open>notifications/templates.py\<close>, and the signed webhooks of \<open>notifications/webhooks.py\<close>. HMAC-SHA-256 and SHA-256
  are the fields \<open>rs_hmac\<close> and \<open>rs_sha\<close> of the service; \<open>other\<close> reads JSON texts that are not ASCII.
\<close>

section \<open>Templates and the request\<close>

record rendered_email =
  re_subject :: string
  re_text :: string

abbreviation newlines :: string where
  "newlines \<equiv> [CHR 0x0A, CHR 0x0A]"

fun render_notification :: "notification_kind \<Rightarrow> order_reference \<Rightarrow> rendered_email" where
  "render_notification INITIAL_CONFIRMATION ref =
     \<lparr>re_subject = ''Your timestamp has its first Bitcoin confirmation'',
      re_text = ''Your timestamp proof has reached its first Bitcoin confirmation.'' @ newlines @
        ''Order reference: '' @ ref @ newlines @ ''Keep your proof bundle in a safe place.''\<rparr>"
| "render_notification FINAL_CONFIRMATION ref =
     \<lparr>re_subject = ''Your timestamp has six Bitcoin confirmations'',
      re_text = ''Your timestamp proof has reached six Bitcoin confirmations.'' @ newlines @
        ''Order reference: '' @ ref @ newlines @ ''This is the final confirmation notice.''\<rparr>"

record email_sender =
  es_api_key :: string
  es_sender :: string
  es_timeout_seconds :: rat

definition ResendEmailSender :: "email_sender \<Rightarrow> exn + email_sender" where
  "ResendEmailSender es =
     (let key = es_api_key es; sender = es_sender es in
      if \<not> starts_with ''re_'' key \<or> 512 < length key \<or> CHR 0x0D \<in> set key \<or> CHR 0x0A \<in> set key
      then Inl (ValueError ''resend_api_key_invalid'')
      else if \<not> (3 \<le> length sender \<and> length sender \<le> 254) \<or> CHR ''@'' \<notin> set sender \<or> CHR 0x0D \<in> set sender \<or> CHR 0x0A \<in> set sender
      then Inl (ValueError ''resend_sender_invalid'')
      else if \<not> (1 / 10 \<le> es_timeout_seconds es \<and> es_timeout_seconds es \<le> 30) then Inl (ValueError ''resend_timeout_invalid'')
      else Inr es)"

definition resend_headers :: "email_sender \<Rightarrow> claimed_notification \<Rightarrow> (string \<times> string) list" where
  "resend_headers es m =
     [(''Authorization'', ''Bearer '' @ es_api_key es), (''Idempotency-Key'', cn_idempotency_key m), (''Accept'', ''application/json'')]"

definition resend_request :: "email_sender \<Rightarrow> claimed_notification \<Rightarrow> pyval" where
  "resend_request es m =
     (let rendered = render_notification (cn_kind m) (cn_order_reference m)
      in PDict [(''from'', PStr (es_sender es)), (''to'', PList [PStr (cn_recipient m)]),
           (''subject'', PStr (re_subject rendered)), (''text'', PStr (re_text rendered))])"

text \<open>\<open>ResendEmailSender.send\<close>, given the HTTP client.\<close>

definition email_send :: "((string \<times> string) list \<Rightarrow> pyval \<Rightarrow> http_reply) \<Rightarrow> email_sender \<Rightarrow> claimed_notification \<Rightarrow> exn + provider_acceptance" where
  "email_send client es m = resend_send (\<lambda>m. client (resend_headers es m) (resend_request es m)) m"

section \<open>base64\<close>

text \<open>The standard alphabet has \<open>+\<close> and \<open>/\<close> in the places of \<open>-\<close> and \<open>_\<close>.\<close>

definition standard_char :: "char \<Rightarrow> char" where
  "standard_char c = (if c = CHR ''-'' then CHR ''+'' else if c = CHR ''_'' then CHR ''/'' else c)"

definition b64encode :: "bytes \<Rightarrow> string" where
  "b64encode bs = (let s = map standard_char (b64url bs) in s @ replicate ((4 - length s mod 4) mod 4) (CHR ''=''))"

definition standard_value :: "char \<Rightarrow> nat option" where
  "standard_value c =
     (if c = CHR ''+'' then Some 62 else if c = CHR ''/'' then Some 63
      else if c = CHR ''-'' \<or> c = CHR ''_'' then None else b64_value c)"

text \<open>\<open>base64.b64decode(s, validate=True)\<close>; \<open>None\<close> is a \<open>ValueError\<close>. Padding may follow whole groups of four.\<close>

definition b64decode :: "string \<Rightarrow> bytes option" where
  "b64decode s =
     (let data = takeWhile (\<lambda>c. c \<noteq> CHR ''='') s; padding = dropWhile (\<lambda>c. c \<noteq> CHR ''='') s; values = map standard_value data
      in if None \<in> set values \<or> \<not> list_all (\<lambda>c. c = CHR ''='') padding \<or> (data = [] \<and> padding \<noteq> []) \<or>
            \<not> (length data mod 4 = 0 \<or> length data mod 4 + length padding = 4 \<and> length data mod 4 \<noteq> 1)
         then None else b64_decode (map the values))"

section \<open>ResendWebhookService\<close>

definition SAFE_EVENT_ID :: "string \<Rightarrow> bool" where
  "SAFE_EVENT_ID s \<longleftrightarrow> match_class (\<lambda>c. is_alnum c \<or> c \<in> set ''_=-'') 1 128 s"

definition SAFE_EVENT_TYPE :: "string \<Rightarrow> bool" where
  "SAFE_EVENT_TYPE s \<longleftrightarrow> starts_with ''email.'' s \<and> match_class (\<lambda>c. is_lower c \<or> c = CHR ''_'') 1 64 (drop 6 s)"

definition MAX_WEBHOOK_BYTES :: nat where
  "MAX_WEBHOOK_BYTES = 256 * 1024"

record resend_service =
  rs_hmac :: "bytes \<Rightarrow> bytes \<Rightarrow> bytes"
  rs_sha :: "bytes \<Rightarrow> bytes"
  rs_secret :: bytes
  rs_tolerance_seconds :: int

definition ResendWebhookService :: "(bytes \<Rightarrow> bytes \<Rightarrow> bytes) \<Rightarrow> (bytes \<Rightarrow> bytes) \<Rightarrow> string \<Rightarrow> int \<Rightarrow> exn + resend_service" where
  "ResendWebhookService hmac sha signing_secret tolerance_seconds =
     (if \<not> starts_with ''whsec_'' signing_secret then Inl (ValueError ''resend_webhook_secret_invalid'')
      else (case b64decode (drop 6 signing_secret) of
          None \<Rightarrow> Inl (ValueError ''resend_webhook_secret_invalid'')
        | Some secret \<Rightarrow>
            if length secret < 16 \<or> \<not> (1 \<le> tolerance_seconds \<and> tolerance_seconds \<le> 900)
            then Inl (ValueError ''resend_webhook_configuration_invalid'')
            else Inr \<lparr>rs_hmac = hmac, rs_sha = sha, rs_secret = secret, rs_tolerance_seconds = tolerance_seconds\<rparr>))"

definition v1_signatures :: "string \<Rightarrow> string list" where
  "v1_signatures header =
     concat (map (\<lambda>item. case split_once (CHR '','') item of
         Some (version, signature) \<Rightarrow> if version = ''v1'' \<and> signature \<noteq> [] then [signature] else []
       | None \<Rightarrow> []) (words_of header))"

definition payload_error :: exn where
  "payload_error = ResendWebhookSignatureError ''invalid_resend_webhook_payload''"

definition parse_event :: "(bytes \<Rightarrow> pyval option) \<Rightarrow> bytes \<Rightarrow> string \<Rightarrow> exn + verified_resend_event" where
  "parse_event other raw_body svix_id =
     (case json_loads other raw_body of
        None \<Rightarrow> Inl payload_error
      | Some payload \<Rightarrow>
          (case (subscript payload ''type'', subscript payload ''created_at'',
                 bind_res (subscript payload ''data'') (\<lambda>data. subscript data ''email_id'')) of
             (Inr event_type, Inr created_at, Inr email_id) \<Rightarrow>
               (case (event_type, email_id, created_at) of
                  (PStr t, PStr mid, PStr c) \<Rightarrow>
                    if \<not> SAFE_EVENT_TYPE t \<or> \<not> SAFE_PROVIDER_ID mid then Inl payload_error
                    else (case fromisoformat (str_replace ''Z'' ''+00:00'' c) of
                        Some (Aware instant) \<Rightarrow>
                          if representable (Aware instant)
                          then Inr \<lparr>vr_svix_event_id = svix_id, vr_event_type = t, vr_provider_message_id = mid,
                            vr_event_created_at = Aware instant\<rparr>
                          else Inl (OtherException ''OverflowError'')
                      | _ \<Rightarrow> Inl payload_error)
                | _ \<Rightarrow> Inl payload_error)
           | _ \<Rightarrow> Inl payload_error))"

definition webhook_error :: exn where
  "webhook_error = ResendWebhookSignatureError ''invalid_resend_webhook''"

text \<open>\<open>any(hmac.compare_digest(expected, value) for value in supplied)\<close>\<close>

fun any_equal :: "string \<Rightarrow> string list \<Rightarrow> exn + bool" where
  "any_equal expected [] = Inr False"
| "any_equal expected (v # vs) = bind_res (compare_digest expected v) (\<lambda>equal. if equal then Inr True else any_equal expected vs)"

definition resend_signature :: "resend_service \<Rightarrow> string \<Rightarrow> string \<Rightarrow> bytes \<Rightarrow> string" where
  "resend_signature svc svix_id svix_timestamp raw_body =
     b64encode (rs_hmac svc (rs_secret svc) (ascii_bytes (svix_id @ ''.'' @ svix_timestamp @ ''.'') @ raw_body))"

text \<open>The checks before the store is called, and their result: the event.\<close>

definition verify_webhook ::
  "(bytes \<Rightarrow> pyval option) \<Rightarrow> resend_service \<Rightarrow> bytes \<Rightarrow> string \<Rightarrow> string \<Rightarrow> string \<Rightarrow> datetime \<Rightarrow> exn + verified_resend_event" where
  "verify_webhook other svc raw_body svix_id svix_timestamp svix_signature now =
     (if raw_body = [] \<or> MAX_WEBHOOK_BYTES < length raw_body \<or> \<not> SAFE_EVENT_ID svix_id then Inl webhook_error
      else if \<not> is_aware now then Inl (ValueError ''resend_webhook_time_invalid'')
      else (case int_of_text svix_timestamp of
          None \<Rightarrow> Inl webhook_error
        | Some signed_at \<Rightarrow>
            if rs_tolerance_seconds svc < \<bar>timestamp_seconds now - signed_at\<bar> then Inl webhook_error
            else bind_res (encode_ascii (svix_id @ ''.'' @ svix_timestamp @ ''.'')) (\<lambda>_.
              let supplied = v1_signatures svix_signature in
              bind_res (if supplied = [] then Inr False else any_equal (resend_signature svc svix_id svix_timestamp raw_body) supplied) (\<lambda>equal.
                if \<not> equal then Inl webhook_error else parse_event other raw_body svix_id))))"

definition resend_process ::
  "(bytes \<Rightarrow> pyval option) \<Rightarrow> resend_service \<Rightarrow> bytes \<Rightarrow> string \<Rightarrow> string \<Rightarrow> string \<Rightarrow> datetime \<Rightarrow> webhook_process_result db_action" where
  "resend_process other svc raw_body svix_id svix_timestamp svix_signature now =
     bind_act (lift_act (verify_webhook other svc raw_body svix_id svix_timestamp svix_signature now)) (\<lambda>event.
       transaction (process_tx (rs_sha svc) event (rs_sha svc raw_body) now))"

section \<open>notifications/routes.py\<close>

text \<open>The route: the headers may be absent; \<open>None\<close> of the service is a deployment without it.\<close>

definition resend_webhook ::
  "(bytes \<Rightarrow> pyval option) \<Rightarrow> resend_service option \<Rightarrow> bytes \<Rightarrow> string option \<Rightarrow> string option \<Rightarrow> string option \<Rightarrow> datetime
     \<Rightarrow> pyval db_action" where
  "resend_webhook other service raw_body svix_id svix_timestamp svix_signature now =
     (case (service, svix_id, svix_timestamp, svix_signature) of
        (Some svc, Some i, Some t, Some s) \<Rightarrow>
          catch_act
            (bind_act (resend_process other svc raw_body i t s now) (\<lambda>result.
               return_act (PDict [(''received'', PBool True), (''duplicate'', PBool (wr_duplicate result))])))
            (\<lambda>e. if is_ValueError e then raise_act (HTTPException 400 ''invalid webhook'') else raise_act e)
      | _ \<Rightarrow> raise_act (HTTPException 400 ''invalid webhook''))"

section \<open>base64 reads what it wrote\<close>

lemma standard_value_char: "b64_char c \<Longrightarrow> standard_value (standard_char c) = b64_value c"
  by (auto simp: standard_value_def standard_char_def b64_value_def b64_char_def char_class_defs)

lemma standard_char_ok:
  assumes "b64_char c"
  shows "standard_char c \<noteq> CHR ''=''" "standard_char c \<noteq> CHR '',''" "\<not> is_py_space (standard_char c)" "code (standard_char c) < 128"
    "b64_value c \<noteq> None"
  using assms by (auto simp: standard_char_def b64_char_def b64_value_def char_class_defs is_py_space_def)

lemma b64url_mod: "length (b64url bs) mod 4 \<noteq> 1"
  by (induction bs rule: b64url.induct) simp_all

text \<open>The padding completes the last group of four.\<close>

lemma b64decode_b64encode: "b64decode (b64encode bs) = Some bs"
proof -
  define data where "data = map standard_char (b64url bs)"
  define n where "n = length data mod 4"
  have chars: "\<forall>c \<in> set (b64url bs). b64_char c" using b64url_chars [of bs] by (simp add: list_all_iff)
  have no_pad: "\<forall>c \<in> set data. c \<noteq> CHR ''=''" using chars standard_char_ok(1) by (auto simp: data_def)
  have split: "takeWhile (\<lambda>c. c \<noteq> CHR ''='') (data @ replicate k (CHR ''='')) = data"
    "dropWhile (\<lambda>c. c \<noteq> CHR ''='') (data @ replicate k (CHR ''='')) = replicate k (CHR ''='')" for k
    using no_pad by (simp_all add: takeWhile_append dropWhile_append takeWhile_replicate dropWhile_replicate)
  have "n < 4" "n \<noteq> 1" using b64url_mod [of bs] by (simp_all add: n_def data_def)
  then have lengths: "n = 0 \<and> (4 - n) mod 4 = 0 \<or> n + (4 - n) mod 4 = 4 \<and> n \<noteq> 1" by (cases "n = 0") simp_all
  have same: "map standard_value data = map b64_value (b64url bs)"
    using chars standard_value_char by (simp add: data_def)
  have "\<forall>c \<in> set (b64url bs). b64_value c \<noteq> None" using chars standard_char_ok(5) by blast
  then have "\<forall>v \<in> set (map b64_value (b64url bs)). v \<noteq> None" by simp
  then have "None \<notin> set (map b64_value (b64url bs))" by blast
  moreover have "map the (map b64_value (b64url bs)) = map (\<lambda>c. the (b64_value c)) (b64url bs)" by simp
  moreover have "\<not> (data = [] \<and> replicate ((4 - n) mod 4) (CHR ''='') \<noteq> [])" by (auto simp: n_def)
  ultimately show ?thesis
    using lengths b64_decode_encode [of bs]
    unfolding b64decode_def b64encode_def Let_def data_def [symmetric] n_def [symmetric] split same
    by (auto simp: list_all_iff comp_def)
qed

lemma b64encode_chars:
  assumes "c \<in> set (b64encode bs)"
  shows "c \<noteq> CHR '',''" "\<not> is_py_space c" "code c < 128"
proof -
  consider x where "x \<in> set (b64url bs)" "c = standard_char x" | "c = CHR ''=''"
    using assms by (auto simp: b64encode_def Let_def split: if_splits)
  then show "c \<noteq> CHR '',''" "\<not> is_py_space c" "code c < 128"
    using b64url_chars [of bs]
    by (cases; use standard_char_ok in \<open>simp add: list_all_iff is_py_space_def code_def\<close>)+
qed

section \<open>Signatures\<close>

lemma split_blanks_word: "\<forall>c \<in> set s. \<not> is_py_space c \<Longrightarrow> split_blanks w s = (if w @ s = [] then [] else [w @ s])"
  by (induction s arbitrary: w) auto

lemma v1_signature:
  assumes "s \<noteq> []" "\<forall>c \<in> set s. \<not> is_py_space c"
  shows "v1_signatures (''v1,'' @ s) = [s]"
proof -
  have "\<not> is_py_space (CHR ''v'')" "\<not> is_py_space (CHR ''1'')" "\<not> is_py_space (CHR '','')"
    by (simp_all add: is_py_space_def code_def)
  then have "words_of (''v1,'' @ s) = [''v1,'' @ s]"
    using split_blanks_word [of "''v1,'' @ s" "[]"] assms(2) by (simp add: words_of_def)
  moreover have "split_once (CHR '','') (''v1,'' @ s) = Some (''v1'', s)"
    using split_once_sep [of "CHR '',''" "''v1''" s] by simp
  ultimately show ?thesis using assms(1) by (simp add: v1_signatures_def)
qed

lemma any_equal_Inr: "any_equal expected vs = Inr True \<Longrightarrow> expected \<in> set vs"
  by (induction vs) (auto simp: bind_res_Inr_iff compare_digest_def split: if_splits)

text \<open>What makes a request one of the provider's: a signature of the id, the time and the body under the secret, and a time that
  is close enough.\<close>

definition webhook_signed :: "resend_service \<Rightarrow> bytes \<Rightarrow> string \<Rightarrow> string \<Rightarrow> string \<Rightarrow> datetime \<Rightarrow> bool" where
  "webhook_signed svc raw_body svix_id svix_timestamp header now \<longleftrightarrow>
     (\<exists>signed_at. int_of_text svix_timestamp = Some signed_at \<and> \<bar>timestamp_seconds now - signed_at\<bar> \<le> rs_tolerance_seconds svc) \<and>
     resend_signature svc svix_id svix_timestamp raw_body \<in> set (v1_signatures header)"

lemma verify_webhook_Inr:
  assumes "verify_webhook other svc raw_body svix_id svix_timestamp header now = Inr event"
  shows "webhook_signed svc raw_body svix_id svix_timestamp header now" "parse_event other raw_body svix_id = Inr event"
  using assms any_equal_Inr [of "resend_signature svc svix_id svix_timestamp raw_body" "v1_signatures header"]
  by (auto simp: verify_webhook_def webhook_signed_def Let_def bind_res_Inr_iff split: option.splits if_splits)

lemma resend_webhook_cases:
  assumes "resend_webhook other service raw_body svix_id svix_timestamp header now d = (r, d')"
  obtains (refused) e where "r = Inl e" "d' = d"
  | (processed) svc i t s event result where "service = Some svc" "svix_id = Some i" "svix_timestamp = Some t" "header = Some s"
      "verify_webhook other svc raw_body i t s now = Inr event"
      "process_tx (rs_sha svc) event (rs_sha svc raw_body) now d = Inr (result, d')"
proof (cases "\<exists>svc i t s. service = Some svc \<and> svix_id = Some i \<and> svix_timestamp = Some t \<and> header = Some s")
  case True
  then obtain svc i t s where given: "service = Some svc" "svix_id = Some i" "svix_timestamp = Some t" "header = Some s" by blast
  show ?thesis
  proof (cases "verify_webhook other svc raw_body i t s now")
    case (Inl e)
    then have "d' = d" "\<exists>e. r = Inl e" using assms
      by (auto simp: given resend_webhook_def resend_process_def catch_act_def bind_act_def lift_act_def raise_act_def
          split: if_splits)
    then show ?thesis using refused by blast
  next
    case (Inr event)
    show ?thesis
    proof (cases "process_tx (rs_sha svc) event (rs_sha svc raw_body) now d")
      case (Inl e)
      then have "d' = d" "\<exists>e. r = Inl e" using assms Inr
        by (auto simp: given resend_webhook_def resend_process_def catch_act_def bind_act_def lift_act_def raise_act_def
            transaction_def split: if_splits)
      then show ?thesis using refused by blast
    next
      case (Inr result)
      then show ?thesis using assms \<open>verify_webhook other svc raw_body i t s now = Inr event\<close>
        by (cases result, intro processed [OF given]) (auto simp: given resend_webhook_def resend_process_def catch_act_def bind_act_def lift_act_def
            return_act_def transaction_def)
    qed
  qed
next
  case False
  then have "d' = d" "\<exists>e. r = Inl e" using assms by (auto simp: resend_webhook_def raise_act_def split: option.splits)
  then show ?thesis using refused by blast
qed

text \<open>C18. A request to the mail provider's webhook that is answered, or that changes anything, was signed with the shared
  secret over its id, its time and its body, and its time is within the tolerance; it then runs one transaction of the store
  on the event that its body holds. Every other request is refused and changes nothing.\<close>

theorem only_signed_webhooks:
  assumes "resend_webhook other service raw_body svix_id svix_timestamp header now d = (r, d')" "d' \<noteq> d \<or> (\<exists>v. r = Inr v)"
  shows "\<exists>svc i t s event result. service = Some svc \<and> svix_id = Some i \<and> svix_timestamp = Some t \<and> header = Some s \<and>
    webhook_signed svc raw_body i t s now \<and> parse_event other raw_body i = Inr event \<and>
    process_tx (rs_sha svc) event (rs_sha svc raw_body) now d = Inr (result, d')"
  using assms(1)
proof (cases rule: resend_webhook_cases)
  case (refused e)
  then show ?thesis using assms(2) by simp
next
  case (processed svc i t s event result)
  then show ?thesis using verify_webhook_Inr [OF processed(5)] by blast
qed

lemma int_str_ascii: "is_ascii (int_str n)"
proof -
  have "is_ascii (nat_str m)" for m
    using nat_str_digits [of m] by (auto simp: is_ascii_def list_all_iff is_digit_def dest!: bspec)
  then show ?thesis by (simp add: int_str_def is_ascii_def code_def)
qed

lemma signature_accepted:
  assumes "raw_body \<noteq> []" "length raw_body \<le> MAX_WEBHOOK_BYTES" "SAFE_EVENT_ID svix_id" "is_aware now"
    and "nat \<bar>signed_at\<bar> < 10 ^ MAX_INT_DIGITS" "\<bar>timestamp_seconds now - signed_at\<bar> \<le> rs_tolerance_seconds svc"
    and "\<And>k m. rs_hmac svc k m \<noteq> []"
  shows "verify_webhook other svc raw_body svix_id (int_str signed_at)
      (''v1,'' @ resend_signature svc svix_id (int_str signed_at) raw_body) now = parse_event other raw_body svix_id"
proof -
  define signature where "signature = resend_signature svc svix_id (int_str signed_at) raw_body"
  have "b64url bs = [] \<Longrightarrow> bs = []" for bs by (cases bs rule: b64url.cases) simp_all
  then have nonempty: "signature \<noteq> []" using assms(7) by (auto simp: signature_def resend_signature_def b64encode_def Let_def)
  have chars: "\<forall>c \<in> set signature. \<not> is_py_space c \<and> code c < 128"
    using b64encode_chars by (simp add: signature_def resend_signature_def)
  have "is_ascii signature" using chars by (simp add: is_ascii_def list_all_iff)
  then have equal: "any_equal signature [signature] = Inr True" by (simp add: compare_digest_def bind_res_def)
  have "is_ascii svix_id"
    using assms(3) by (auto simp: is_ascii_def SAFE_EVENT_ID_def match_class_def list_all_iff char_class_defs dest!: bspec)
  moreover have "is_ascii (int_str signed_at)" by (rule int_str_ascii)
  ultimately have "is_ascii (svix_id @ ''.'' @ int_str signed_at @ ''.'')" by (simp add: is_ascii_def code_def)
  then show ?thesis
    using assms(1-4,6) int_of_text_int [OF assms(5)] v1_signature [OF nonempty] chars equal
    by (simp add: verify_webhook_def encode_ascii_def signature_def [symmetric])
qed

text \<open>The other direction: a request whose header carries the signature is not refused for it, and what happens depends
  only on the event in its body.\<close>

theorem signed_webhook_verified:
  assumes "raw_body \<noteq> []" "length raw_body \<le> MAX_WEBHOOK_BYTES" "SAFE_EVENT_ID svix_id" "is_aware now"
    and "nat \<bar>signed_at\<bar> < 10 ^ MAX_INT_DIGITS" "\<bar>timestamp_seconds now - signed_at\<bar> \<le> rs_tolerance_seconds svc"
    and "\<And>k m. rs_hmac svc k m \<noteq> []"
  shows "verify_webhook other svc raw_body svix_id (int_str signed_at)
      (''v1,'' @ resend_signature svc svix_id (int_str signed_at) raw_body) now = parse_event other raw_body svix_id"
  by (rule signature_accepted [OF assms])

text \<open>C19. A request that nobody signed can bring about an internal error: when its first signature has a character that is
  not ASCII, the comparison raises a \<open>TypeError\<close>, which the route does not take for a refusal.\<close>

theorem non_ascii_signature_crashes:
  assumes "raw_body \<noteq> []" "length raw_body \<le> MAX_WEBHOOK_BYTES" "SAFE_EVENT_ID svix_id" "is_aware now"
    and "int_of_text svix_timestamp = Some signed_at" "is_ascii (svix_id @ ''.'' @ svix_timestamp @ ''.'')"
    and "\<bar>timestamp_seconds now - signed_at\<bar> \<le> rs_tolerance_seconds svc"
    and "v1_signatures header = v # vs" "\<not> is_ascii v"
  shows "resend_webhook other (Some svc) raw_body (Some svix_id) (Some svix_timestamp) (Some header) now d = (Inl TypeError, d)"
proof -
  have "any_equal expected (v # vs) = Inl TypeError" for expected using assms(9) by (simp add: compare_digest_def bind_res_def)
  then have "verify_webhook other svc raw_body svix_id svix_timestamp header now = Inl TypeError"
    using assms by (simp add: verify_webhook_def encode_ascii_def)
  then show ?thesis
    by (simp add: resend_webhook_def resend_process_def catch_act_def bind_act_def lift_act_def raise_act_def)
qed

section \<open>Samples\<close>

definition sample_hooks :: resend_service where
  "sample_hooks = \<lparr>rs_hmac = \<lambda>_ _. replicate 32 0, rs_sha = sample_sha, rs_secret = replicate 16 7, rs_tolerance_seconds = 300\<rparr>"

definition sample_hook_payload :: "bytes \<Rightarrow> pyval option" where
  "sample_hook_payload bs = Some (PDict [(''type'', PStr ''email.delivered''), (''created_at'', PStr ''1970-01-01T00:00:00.000009Z''),
     (''data'', PDict [(''email_id'', PStr ''pm1'')])])"

lemma sample_parse_event: "parse_event sample_hook_payload [200] ''evt1'' = Inr
    \<lparr>vr_svix_event_id = ''evt1'', vr_event_type = ''email.delivered'', vr_provider_message_id = ''pm1'', vr_event_created_at = Aware 9\<rparr>"
proof -
  have "fromisoformat (str_replace ''Z'' ''+00:00'' ''1970-01-01T00:00:00.000009Z'') = Some (Aware 9)" "representable (Aware 9)"
    "SAFE_EVENT_TYPE ''email.delivered''" "SAFE_PROVIDER_ID ''pm1''"
    by code_simp+
  then show ?thesis
    by (simp add: parse_event_def json_loads_def sample_hook_payload_def dict_get_def bind_res_def)
qed

lemma sample_small: "nat \<bar>90\<bar> < 10 ^ MAX_INT_DIGITS"
proof -
  have "(90::nat) < 10 ^ 2" by simp
  also have "\<dots> \<le> 10 ^ MAX_INT_DIGITS" by (rule power_increasing) (simp_all add: MAX_INT_DIGITS_def)
  finally show ?thesis by simp
qed

definition sample_header :: string where
  "sample_header = ''v1,'' @ resend_signature sample_hooks ''evt1'' (int_str 90) [200]"

lemma sample_hook_conditions: "([200] :: bytes) \<noteq> []" "length ([200] :: bytes) \<le> MAX_WEBHOOK_BYTES" "SAFE_EVENT_ID ''evt1''"
    "is_aware (Aware 9)" "\<bar>timestamp_seconds (Aware 9) - 90\<bar> \<le> rs_tolerance_seconds sample_hooks"
    "\<And>k m. rs_hmac sample_hooks k m \<noteq> []"
  by (simp_all add: MAX_WEBHOOK_BYTES_def SAFE_EVENT_ID_def match_class_def is_alnum_def is_lower_def is_digit_def is_upper_def code_def
      timestamp_seconds_def sample_hooks_def)

theorem signed_webhook_verified_witness:
  "verify_webhook sample_hook_payload sample_hooks [200] ''evt1'' (int_str 90) sample_header (Aware 9) = Inr
    \<lparr>vr_svix_event_id = ''evt1'', vr_event_type = ''email.delivered'', vr_provider_message_id = ''pm1'', vr_event_created_at = Aware 9\<rparr>"
  using signed_webhook_verified [OF sample_hook_conditions(1-4) sample_small sample_hook_conditions(5,6)]
  by (simp only: sample_parse_event sample_header_def)

theorem only_signed_webhooks_witness:
  "\<exists>v d'. resend_webhook sample_hook_payload (Some sample_hooks) [200] (Some ''evt1'') (Some (int_str 90)) (Some sample_header) (Aware 9)
      sample_accepted = (Inr v, d') \<and> webhook_signed sample_hooks [200] ''evt1'' (int_str 90) sample_header (Aware 9)"
proof -
  have "verify_webhook sample_hook_payload sample_hooks [200] ''evt1'' (int_str 90) sample_header (Aware 9) = Inr sample_resend_event"
    using signature_accepted [OF sample_hook_conditions(1-4) sample_small sample_hook_conditions(5,6)]
    by (simp only: sample_parse_event sample_header_def sample_resend_event_def)
  moreover obtain result d' where "process_tx sample_sha sample_resend_event (replicate 32 0) (Aware 9) sample_accepted = Inr (result, d')"
    using sample_delivery by blast
  moreover have "rs_sha sample_hooks = sample_sha" "sample_sha [200] = replicate 32 0"
    by (simp_all add: sample_hooks_def sample_sha_def)
  ultimately have run: "resend_webhook sample_hook_payload (Some sample_hooks) [200] (Some ''evt1'') (Some (int_str 90)) (Some sample_header)
      (Aware 9) sample_accepted = (Inr (PDict [(''received'', PBool True), (''duplicate'', PBool (wr_duplicate result))]), d')"
    by (simp add: resend_webhook_def resend_process_def catch_act_def bind_act_def lift_act_def transaction_def return_act_def)
  from only_signed_webhooks [OF run] run show ?thesis by auto
qed

theorem non_ascii_signature_crashes_witness:
  "resend_webhook sample_hook_payload (Some sample_hooks) [200] (Some ''evt1'') (Some (int_str 90)) (Some (''v1,'' @ [CHR 0xE9])) (Aware 9)
     sample_accepted = (Inl TypeError, sample_accepted)"
proof (rule non_ascii_signature_crashes [OF sample_hook_conditions(1-4) int_of_text_int [OF sample_small] _ sample_hook_conditions(5)])
  show "is_ascii (''evt1'' @ ''.'' @ int_str 90 @ ''.'')"
    using int_str_ascii [of 90] by (simp add: is_ascii_def code_def)
  show "v1_signatures (''v1,'' @ [CHR 0xE9]) = [CHR 0xE9] # []"
    by (rule v1_signature) (simp_all add: is_py_space_def code_def)
  show "\<not> is_ascii [CHR 0xE9]" by (simp add: is_ascii_def code_def)
qed

end
