(* ===== verification/Calendars.thy ===== *)
theory Calendars
  imports Py_Values Payments Fulfillment Bitcoin "HOL-Library.Monad_Syntax"
begin

text \<open>
  The OpenTimestamps calendars: \<open>timestamping/calendars.py\<close>, the doubles of \<open>timestamping/fixture.py\<close> and the
  contract of \<open>ports/timestamping.py\<close> (the locale \<open>exact_timestamper\<close>).

  The network is the record \<open>calendar_net\<close>: what the resolver, the parser of addresses (\<open>ipaddress\<close>, with its
  tables of reserved networks) and the HTTP client give. The requests of one call are distinct, so an answer is a function of the
  request. The \<open>opentimestamps\<close> package is the record \<open>calendar_library\<close>: the reader of a calendar's response, the
  serializer, and \<open>Timestamp.merge\<close>, which gives the exception it raised, if any, and the timestamp it left. A
  timestamp is a tree; an object inside it is its position, the indices of the operations that lead to it.
\<close>

section \<open>The URL of a calendar\<close>

definition invalid_calendar_url :: exn where
  "invalid_calendar_url = ValueError ''calendar_allowlist_requires_operator_https_urls''"

definition rstrip_slash :: "string \<Rightarrow> string" where
  "rstrip_slash s = rev (dropWhile (\<lambda>c. c = CHR ''/'') (rev s))"

text \<open>
  \<open>urlsplit\<close> with a host in brackets: only the form of a future address can pass, since the host of an IPv6 address
  has a colon and is refused below with the same exception.
\<close>

definition after_at_sign :: "string \<Rightarrow> string" where
  "after_at_sign netloc = rev (takeWhile (\<lambda>c. c \<noteq> CHR ''@'') (rev netloc))"

definition future_address :: "string \<Rightarrow> bool" where
  "future_address host \<longleftrightarrow> take 1 host = ''v'' \<and>
     (let (version, rest) = split_at (CHR ''.'') (tl host)
      in version \<noteq> [] \<and> list_all (\<lambda>c. hex_value c \<noteq> None) version \<and> CHR ''.'' \<in> set host \<and> rest \<noteq> [])"

definition brackets_ok :: "string \<Rightarrow> bool" where
  "brackets_ok netloc \<longleftrightarrow>
     (CHR ''['' \<in> set netloc) = (CHR '']'' \<in> set netloc) \<and>
     (CHR ''['' \<in> set netloc \<longrightarrow>
        (let info = after_at_sign netloc;
             (before, bracketed) = split_at (CHR ''['') info;
             (host, port) = split_at (CHR '']'') bracketed
         in CHR ''['' \<in> set info \<and> before = [] \<and> (port = [] \<or> hd port = CHR '':'') \<and> future_address host))"

definition calendar_urlsplit :: "string \<Rightarrow> exn + split_url" where
  "calendar_urlsplit value =
     (let (scheme, rest) = split_scheme value;
          (netloc, rest) = split_netloc rest;
          (rest, fragment) = split_at (CHR ''#'') rest;
          (path, query) = split_at (CHR ''?'') rest
      in if brackets_ok netloc
         then Inr \<lparr>su_scheme = scheme, su_netloc = netloc, su_path = path, su_query = query, su_fragment = fragment\<rparr>
         else Inl (ValueError ''Invalid IPv6 URL''))"

text \<open>\<open>_hostinfo\<close>, \<open>hostname\<close> and \<open>port\<close> of the split URL.\<close>

definition host_info :: "string \<Rightarrow> string \<times> string" where
  "host_info netloc =
     (let info = after_at_sign netloc in
      if CHR ''['' \<in> set info
      then (let (host, rest) = split_at (CHR '']'') (snd (split_at (CHR ''['') info)) in (host, snd (split_at (CHR '':'') rest)))
      else split_at (CHR '':'') info)"

definition port_of :: "string \<Rightarrow> exn + int option" where
  "port_of netloc =
     (let port = snd (host_info netloc) in
      if port = [] then Inr None
      else if \<not> list_all is_digit port \<or> MAX_INT_DIGITS < length port \<or> 65535 < nat_of_str port 0 then Inl (ValueError ''port'')
      else Inr (Some (int (nat_of_str port 0))))"

definition label_ok :: "string \<Rightarrow> bool" where
  "label_ok label \<longleftrightarrow> 1 \<le> length label \<and> length label \<le> 63 \<and> is_alnum (hd label) \<and> is_alnum (last label) \<and>
     list_all (\<lambda>c. is_alnum c \<or> c = CHR ''-'') label"

definition hostname_valid :: "string \<Rightarrow> bool" where
  "hostname_valid hostname \<longleftrightarrow>
     (let labels = split_on (CHR ''.'') hostname
      in length hostname \<le> 253 \<and> 2 \<le> length labels \<and> list_all label_ok labels)"

text \<open>\<open>ipaddress.ip_address\<close> reads a host without colons: four decimal octets without leading zeros.\<close>

definition octet_ok :: "string \<Rightarrow> bool" where
  "octet_ok octet \<longleftrightarrow> octet \<noteq> [] \<and> list_all is_digit octet \<and> length octet \<le> 3 \<and>
     (octet = ''0'' \<or> hd octet \<noteq> CHR ''0'') \<and> nat_of_str octet 0 \<le> 255"

definition literal_ip :: "string \<Rightarrow> bool" where
  "literal_ip hostname \<longleftrightarrow>
     (let octets = split_on (CHR ''.'') hostname in length octets = 4 \<and> list_all octet_ok octets)"

definition validated_calendar_url :: "string \<Rightarrow> exn + string \<times> string" where
  "validated_calendar_url raw_url =
     (if raw_url = [] \<or> raw_url \<noteq> strip_chars is_py_space raw_url \<or> \<not> is_ascii raw_url \<or> CHR 0x5C \<in> set raw_url \<or>
         list_ex (\<lambda>c. code c < 32 \<or> code c = 127) raw_url
      then Inl invalid_calendar_url
      else case calendar_urlsplit raw_url of
          Inl e \<Rightarrow> Inl invalid_calendar_url
        | Inr parsed \<Rightarrow>
            (case port_of (su_netloc parsed) of
               Inl e \<Rightarrow> Inl invalid_calendar_url
             | Inr port \<Rightarrow>
                 (let hostname = str_lower (fst (host_info (su_netloc parsed))) in
                  if su_scheme parsed \<noteq> ''https'' \<or> \<not> hostname_valid hostname \<or> literal_ip hostname \<or>
                     CHR ''@'' \<in> set (su_netloc parsed) \<or> su_query parsed \<noteq> [] \<or> su_fragment parsed \<noteq> [] \<or>
                     (port \<noteq> None \<and> port \<noteq> Some 443) \<or>
                     (su_path parsed \<noteq> [] \<and> \<not> starts_with ''/'' (su_path parsed))
                  then Inl invalid_calendar_url
                  else Inr (''https://'' @ hostname @ rstrip_slash (su_path parsed) @ ''/'', hostname))))"

section \<open>The configuration\<close>

definition CALENDAR_RESPONSE_LIMIT :: nat where "CALENDAR_RESPONSE_LIMIT = 10000"
definition MAX_CALENDAR_URLS :: nat where "MAX_CALENDAR_URLS = 8"
definition MAX_UPGRADE_REQUESTS :: nat where "MAX_UPGRADE_REQUESTS = 8"

record calendar_configuration =
  cc_allowlist :: "string list"
  cc_enabled :: bool
  cc_timeout_seconds :: rat

text \<open>\<open>0.1 <= timeout <= 30.0\<close>: the float \<open>0.1\<close> is not the tenth.\<close>

definition timeout_ok :: "rat \<Rightarrow> bool" where
  "timeout_ok t \<longleftrightarrow> 3602879701896397 / 36028797018963968 \<le> t \<and> t \<le> 30"

fun normalize_urls :: "string list \<Rightarrow> string list \<Rightarrow> string list \<Rightarrow> exn + string list \<times> string list" where
  "normalize_urls normalized hosts [] = Inr (normalized, hosts)"
| "normalize_urls normalized hosts (raw_url # raw_urls) =
     bind_res (validated_calendar_url raw_url) (\<lambda>(base_url, hostname).
       if base_url \<in> set normalized then Inl (ValueError ''duplicate_calendar_url'')
       else normalize_urls (normalized @ [base_url]) (List.insert hostname hosts) raw_urls)"

definition validated_urls :: "calendar_configuration \<Rightarrow> exn + string list" where
  "validated_urls c =
     (if \<not> cc_enabled c then Inl (ValueError ''real_calendars_disabled'')
      else if \<not> timeout_ok (cc_timeout_seconds c) then Inl (ValueError ''calendar_timeout_out_of_bounds'')
      else bind_res (normalize_urls [] [] (cc_allowlist c)) (\<lambda>(normalized, hosts).
        if length normalized < 2 \<or> length hosts < 2
        then Inl (ValueError ''at_least_two_independent_calendar_hosts_required'')
        else if MAX_CALENDAR_URLS < length normalized then Inl (ValueError ''calendar_allowlist_too_large'')
        else Inr normalized))"

text \<open>The constructors: of the transport, and of the timestamper that gets the URLs.\<close>

definition HardenedCalendarTransport :: "rat \<Rightarrow> exn + unit" where
  "HardenedCalendarTransport timeout_seconds =
     (if timeout_ok timeout_seconds then Inr () else Inl (ValueError ''calendar_timeout_out_of_bounds''))"

definition MultiCalendarTimestamper :: "calendar_configuration \<Rightarrow> exn + string list" where
  "MultiCalendarTimestamper config =
     bind_res (validated_urls config) (\<lambda>urls. bind_res (HardenedCalendarTransport (cc_timeout_seconds config)) (\<lambda>_. Inr urls))"

section \<open>The transport\<close>

record ip_address =
  ia_version :: int
  ia_compressed :: string
  ia_is_global :: bool
  ia_is_multicast :: bool
  ia_is_private :: bool
  ia_is_loopback :: bool
  ia_is_link_local :: bool
  ia_is_reserved :: bool
  ia_is_unspecified :: bool
  ia_is_site_local :: bool

record calendar_request =
  rq_method :: string
  rq_url :: string
  rq_headers :: "(string \<times> string) list"
  rq_content :: bytes
  rq_sni_hostname :: string

record calendar_response =
  cr_status :: int
  cr_content_encoding :: "string option"
  cr_chunks :: "(exn + bytes) list"

text \<open>
  An answer \<open>OtherException ''Deadline''\<close> is the request being stopped by \<open>asyncio.timeout\<close>: no handler inside the
  block catches it, and it becomes a \<open>TimeoutError\<close> at its end.
\<close>

record calendar_net =
  cn_resolve :: "string \<Rightarrow> int \<Rightarrow> exn + string list"
  cn_ip_address :: "string \<Rightarrow> ip_address option"
  cn_send :: "calendar_request \<Rightarrow> exn + calendar_response"

definition is_globally_routable_unicast :: "ip_address \<Rightarrow> bool" where
  "is_globally_routable_unicast a \<longleftrightarrow> ia_is_global a \<and> \<not> ia_is_multicast a \<and> \<not> ia_is_private a \<and> \<not> ia_is_loopback a \<and>
     \<not> ia_is_link_local a \<and> \<not> ia_is_reserved a \<and> \<not> ia_is_unspecified a \<and> \<not> (ia_version a = 6 \<and> ia_is_site_local a)"

fun vet_addresses :: "(string \<Rightarrow> ip_address option) \<Rightarrow> string list \<Rightarrow> string list \<Rightarrow> exn + string list" where
  "vet_addresses parse normalized [] = Inr normalized"
| "vet_addresses parse normalized (raw_address # raw_addresses) =
     (case parse raw_address of
        None \<Rightarrow> Inl (CalendarUnavailable ''calendar_dns_address_invalid'')
      | Some address \<Rightarrow>
          if \<not> is_globally_routable_unicast address then Inl (CalendarUnavailable ''calendar_dns_address_not_public'')
          else vet_addresses parse
            (if ia_compressed address \<in> set normalized then normalized else normalized @ [ia_compressed address]) raw_addresses)"

definition vetted_public_addresses :: "(string \<Rightarrow> ip_address option) \<Rightarrow> string list \<Rightarrow> exn + string list" where
  "vetted_public_addresses parse addresses =
     (if addresses = [] then Inl (CalendarUnavailable ''calendar_dns_empty'') else vet_addresses parse [] addresses)"

definition prepare_request :: "calendar_net \<Rightarrow> string \<Rightarrow> string \<Rightarrow> string \<Rightarrow> bytes \<Rightarrow> exn + calendar_request" where
  "prepare_request net method_name base_url last_part content =
     bind_res (validated_calendar_url base_url) (\<lambda>(normalized, hostname).
     bind_res (case cn_resolve net hostname 443 of
         Inl e \<Rightarrow> Inl (if e \<in> {OtherException ''OSError'', OtherException ''TimeoutError''}
                     then CalendarUnavailable ''calendar_dns_unavailable'' else e)
       | Inr addresses \<Rightarrow> Inr addresses) (\<lambda>addresses.
     bind_res (vetted_public_addresses (cn_ip_address net) addresses) (\<lambda>vetted.
     case cn_ip_address net (hd vetted) of
       None \<Rightarrow> Inl (ValueError ''address'')
     | Some pinned \<Rightarrow>
         (let authority = (if ia_version pinned = 6 then ''['' @ ia_compressed pinned @ '']'' else ia_compressed pinned)
          in bind_res (calendar_urlsplit normalized) (\<lambda>parsed.
               Inr \<lparr>rq_method = method_name, rq_url = ''https://'' @ authority @ su_path parsed @ last_part,
                    rq_headers = [(''Host'', hostname), (''Accept'', ''application/vnd.opentimestamps.v1''),
                      (''Accept-Encoding'', ''identity''), (''Content-Type'', ''application/x-www-form-urlencoded'')],
                    rq_content = content, rq_sni_hostname = hostname\<rparr>)))))"

definition transport_error :: "exn \<Rightarrow> exn" where
  "transport_error e =
     (if e \<in> {OtherException ''HTTPError'', OtherException ''OSError'', OtherException ''TimeoutError''}
      then CalendarUnavailable ''calendar_request_unavailable'' else e)"

fun take_calendar_chunks :: "bytes \<Rightarrow> (exn + bytes) list \<Rightarrow> exn + bytes" where
  "take_calendar_chunks body [] = Inr body"
| "take_calendar_chunks body (Inl e # chunks) = Inl (transport_error e)"
| "take_calendar_chunks body (Inr chunk # chunks) =
     (if int CALENDAR_RESPONSE_LIMIT - int (length body) < int (length chunk)
      then Inl (CalendarUnavailable ''calendar_response_invalid'')
      else take_calendar_chunks (body @ chunk) chunks)"

definition read_response :: "bool \<Rightarrow> exn + calendar_response \<Rightarrow> exn + bytes option" where
  "read_response allow_not_found received =
     (case received of
        Inl e \<Rightarrow> Inl (transport_error e)
      | Inr response \<Rightarrow>
          if allow_not_found \<and> cr_status response = 404 then Inr None
          else if cr_status response \<noteq> 200 then Inl (CalendarUnavailable ''calendar_http_response_invalid'')
          else if (case cr_content_encoding response of None \<Rightarrow> False
              | Some s \<Rightarrow> str_lower (strip_chars is_py_space s) \<noteq> ''identity'')
          then Inl (CalendarUnavailable ''calendar_response_encoding_invalid'')
          else bind_res (take_calendar_chunks [] (cr_chunks response)) (\<lambda>body.
            if body = [] then Inl (CalendarUnavailable ''calendar_response_invalid'') else Inr (Some body)))"

definition calendar_request :: "calendar_net \<Rightarrow> string \<Rightarrow> string \<Rightarrow> string \<Rightarrow> bytes \<Rightarrow> bool \<Rightarrow> exn + bytes option" where
  "calendar_request net method_name base_url last_part content allow_not_found =
     bind_res (prepare_request net method_name base_url last_part content) (\<lambda>request.
       read_response allow_not_found (cn_send net request))"

definition within_deadline :: "exn + 'a \<Rightarrow> exn + 'a" where
  "within_deadline r =
     (case r of
        Inl e \<Rightarrow> Inl (if e \<in> {OtherException ''TimeoutError'', OtherException ''Deadline''}
                     then CalendarUnavailable ''calendar_request_unavailable'' else e)
      | Inr x \<Rightarrow> Inr x)"

definition transport_submit :: "calendar_net \<Rightarrow> string \<Rightarrow> bytes \<Rightarrow> exn + bytes" where
  "transport_submit net base_url digest =
     (if length digest \<noteq> 32 then Inl (CalendarUnavailable ''calendar_digest_invalid'')
      else bind_res (within_deadline (calendar_request net ''POST'' base_url ''digest'' digest False)) (\<lambda>response.
        case response of None \<Rightarrow> Inl (CalendarUnavailable ''calendar_response_invalid'') | Some body \<Rightarrow> Inr body))"

definition transport_upgrade :: "calendar_net \<Rightarrow> string \<Rightarrow> bytes \<Rightarrow> exn + bytes option" where
  "transport_upgrade net base_url commitment =
     (if length commitment \<noteq> 32 then Inl (CalendarUnavailable ''calendar_commitment_invalid'')
      else within_deadline (calendar_request net ''GET'' base_url (''timestamp/'' @ hex commitment) [] True))"

section \<open>The walk over a timestamp\<close>

type_synonym position = "nat list"

definition children_of :: "position \<times> timestamp \<Rightarrow> (position \<times> timestamp) list" where
  "children_of node =
     map (\<lambda>i. (fst node @ [i], snd (ts_ops (snd node) ! i))) [0..<length (ts_ops (snd node))]"

text \<open>
  \<open>_walk\<close>: the head of the list is the end of \<open>pending\<close>. The loop has no bound of its own: \<open>None\<close> is a loop that
  never ends.
\<close>

partial_function (option) walk_loop :: "(position \<times> timestamp) list \<Rightarrow> (position \<times> timestamp) list option" where
  "walk_loop pending =
     (case pending of
        [] \<Rightarrow> Some []
      | node # rest \<Rightarrow> do { nodes \<leftarrow> walk_loop (rev (children_of node) @ rest); Some (node # nodes) })"

definition walk :: "timestamp \<Rightarrow> (position \<times> timestamp) list option" where
  "walk root_node = walk_loop [([], root_node)]"

section \<open>The multi-calendar timestamper\<close>

record calendar_library =
  cl_lib :: ots_library
  cl_parse_timestamp :: "bytes \<Rightarrow> bytes \<Rightarrow> timestamp option"
  cl_serialize :: "detached_file \<Rightarrow> bytes"
  cl_merge :: "timestamp \<Rightarrow> timestamp \<Rightarrow> exn option \<times> timestamp"

abbreviation read_exact :: "ots_library \<Rightarrow> manifest_digest \<Rightarrow> bytes \<Rightarrow> exn + parsed_proof" where
  "read_exact lib digest proof_bytes \<equiv>
     deserialize_exact_proof (ots_sha256 lib) (ots_apply lib) (ots_parse lib) digest proof_bytes None"

definition timestamp_from_bytes :: "calendar_library \<Rightarrow> bytes \<Rightarrow> bytes \<Rightarrow> exn + timestamp" where
  "timestamp_from_bytes cl msg response =
     (if response = [] \<or> CALENDAR_RESPONSE_LIMIT < length response
      then Inl (CalendarUnavailable ''calendar_response_invalid'')
      else case cl_parse_timestamp cl msg response of
          None \<Rightarrow> Inl (CalendarUnavailable ''calendar_response_invalid'')
        | Some t \<Rightarrow>
            (case validate_timestamp_tree (ots_apply (cl_lib cl)) t of
               Inl e \<Rightarrow> Inl (CalendarUnavailable ''calendar_response_invalid'')
             | Inr _ \<Rightarrow> Inr t))"

fun calendar_failure :: "exn \<Rightarrow> bool" where
  "calendar_failure (CalendarUnavailable _) = True"
| "calendar_failure e = is_ValueError e"

text \<open>The loop over the responses of \<open>stamp_exact_digest\<close>: the timestamp merged so far and the count.\<close>

fun merge_responses ::
  "calendar_library \<Rightarrow> bytes \<Rightarrow> (exn + bytes) list \<Rightarrow> timestamp \<Rightarrow> nat \<Rightarrow> exn + timestamp \<times> nat" where
  "merge_responses cl target [] t merged = Inr (t, merged)"
| "merge_responses cl target (Inl e # responses) t merged = merge_responses cl target responses t merged"
| "merge_responses cl target (Inr response # responses) t merged =
     (case timestamp_from_bytes cl target response of
        Inl e \<Rightarrow> if calendar_failure e then merge_responses cl target responses t merged else Inl e
      | Inr remote \<Rightarrow>
          (case cl_merge cl t remote of
             (None, t') \<Rightarrow> merge_responses cl target responses t' (merged + 1)
           | (Some e, t') \<Rightarrow> if calendar_failure e then merge_responses cl target responses t' merged else Inl e))"

definition stamp_exact_digest ::
  "calendar_library \<Rightarrow> string list \<Rightarrow> (string \<Rightarrow> bytes \<Rightarrow> exn + bytes) \<Rightarrow> datetime \<Rightarrow> manifest_digest \<Rightarrow> exn + pending_proof" where
  "stamp_exact_digest cl urls submit now digest =
     (let target = ots_target digest;
          responses = map (\<lambda>url. submit url target) urls;
          detached = new_detached_exact_digest digest
      in bind_res (merge_responses cl target responses (df_timestamp detached) 0) (\<lambda>(t, merged).
           if merged = 0 then Inl (CalendarUnavailable ''all_calendars_unavailable'')
           else bind_res (serialize_detached (ots_apply (cl_lib cl)) (cl_serialize cl) (detached\<lparr>df_timestamp := t\<rparr>)) (\<lambda>proof_bytes.
                bind_res (read_exact (cl_lib cl) digest proof_bytes) (\<lambda>_.
                Inr \<lparr>pe_proof_bytes = proof_bytes, pe_calendar_submitted_at = now\<rparr>))))"

text \<open>
  The dictionary \<open>pending_by_key\<close>: a key that comes again keeps its place and gets the later node. The attestations
  of a node are a set in the code and a list here: the model has one of its orders.
\<close>

type_synonym pending_nodes = "((bytes \<times> string) \<times> position \<times> timestamp) list"

definition put_pending :: "bytes \<times> string \<Rightarrow> position \<times> timestamp \<Rightarrow> pending_nodes \<Rightarrow> pending_nodes" where
  "put_pending key node entries =
     (if key \<in> fst ` set entries then map (\<lambda>e. if fst e = key then (key, node) else e) entries else entries @ [(key, node)])"

fun put_attestations :: "string list \<Rightarrow> position \<times> timestamp \<Rightarrow> attestation list \<Rightarrow> pending_nodes \<Rightarrow> pending_nodes" where
  "put_attestations urls node [] entries = entries"
| "put_attestations urls node (PendingAttestation uri # as) entries =
     (let url = rstrip_slash uri @ ''/''
      in put_attestations urls node as
           (if url \<in> set urls then put_pending (ts_msg (snd node), url) node entries else entries))"
| "put_attestations urls node (a # as) entries = put_attestations urls node as entries"

definition pending_by_key :: "string list \<Rightarrow> (position \<times> timestamp) list \<Rightarrow> pending_nodes" where
  "pending_by_key urls nodes = fold (\<lambda>node. put_attestations urls node (ts_attestations (snd node))) nodes []"

definition upgrade_requests :: "string list \<Rightarrow> (position \<times> timestamp) list \<Rightarrow> exn + pending_nodes" where
  "upgrade_requests urls nodes =
     (let pending = pending_by_key urls nodes
      in if MAX_UPGRADE_REQUESTS < length pending then Inl (CalendarUnavailable ''calendar_upgrade_fanout_exceeded'') else Inr pending)"

text \<open>The object at a position, and the tree after the object there changed.\<close>

fun node_at :: "position \<Rightarrow> timestamp \<Rightarrow> timestamp option" where
  "node_at [] t = Some t"
| "node_at (i # p) t = (if i < length (ts_ops t) then node_at p (snd (ts_ops t ! i)) else None)"

fun put_node :: "position \<Rightarrow> timestamp \<Rightarrow> timestamp \<Rightarrow> timestamp" where
  "put_node [] n t = n"
| "put_node (i # p) n (Timestamp msg atts ops) =
     Timestamp msg atts (if i < length ops then ops[i := (fst (ops ! i), put_node p n (snd (ops ! i)))] else ops)"

fun merge_upgrades ::
  "calendar_library \<Rightarrow> ((position \<times> timestamp) \<times> (exn + bytes option)) list \<Rightarrow> timestamp \<Rightarrow> bool \<Rightarrow> exn + timestamp \<times> bool" where
  "merge_upgrades cl [] t changed = Inr (t, changed)"
| "merge_upgrades cl ((node, Inr (Some response)) # answers) t changed =
     bind_res (timestamp_from_bytes cl (ts_msg (snd node)) response) (\<lambda>remote.
       case cl_merge cl (case node_at (fst node) t of None \<Rightarrow> snd node | Some n \<Rightarrow> n) remote of
         (Some e, _) \<Rightarrow> Inl e
       | (None, n) \<Rightarrow> merge_upgrades cl answers (put_node (fst node) n t) True)"
| "merge_upgrades cl ((node, _) # answers) t changed = merge_upgrades cl answers t changed"

definition upgrade_nodes ::
  "calendar_library \<Rightarrow> string list \<Rightarrow> (string \<Rightarrow> bytes \<Rightarrow> exn + bytes option) \<Rightarrow> manifest_digest \<Rightarrow> bytes \<Rightarrow> detached_file
     \<Rightarrow> (position \<times> timestamp) list \<Rightarrow> exn + bytes" where
  "upgrade_nodes cl urls upgrade digest proof_bytes detached nodes =
     bind_res (upgrade_requests urls nodes) (\<lambda>pending.
       if pending = [] then Inr proof_bytes
       else let answers = map (\<lambda>((msg, url), node). (node, upgrade url msg)) pending
            in bind_res (merge_upgrades cl answers (df_timestamp detached) False) (\<lambda>(t, changed).
               bind_res (if changed
                   then serialize_detached (ots_apply (cl_lib cl)) (cl_serialize cl) (detached\<lparr>df_timestamp := t\<rparr>)
                   else Inr proof_bytes) (\<lambda>upgraded.
               bind_res (read_exact (cl_lib cl) digest upgraded) (\<lambda>_. Inr upgraded))))"

text \<open>\<open>None\<close>: the call does not return.\<close>

definition upgrade_exact_digest ::
  "calendar_library \<Rightarrow> string list \<Rightarrow> (string \<Rightarrow> bytes \<Rightarrow> exn + bytes option) \<Rightarrow> manifest_digest \<Rightarrow> bytes \<Rightarrow> (exn + bytes) option" where
  "upgrade_exact_digest cl urls upgrade digest proof_bytes =
     (case read_exact (cl_lib cl) digest proof_bytes of
        Inl e \<Rightarrow> Some (Inl e)
      | Inr parsed \<Rightarrow> do {
          nodes \<leftarrow> walk (df_timestamp (pp_detached parsed));
          Some (upgrade_nodes cl urls upgrade digest proof_bytes (pp_detached parsed) nodes)
        })"

section \<open>timestamping/fixture.py\<close>

definition require_test_process :: "string \<Rightarrow> bool \<Rightarrow> exn + unit" where
  "require_test_process app_env pytest_loaded =
     (if str_lower app_env \<noteq> ''test'' \<or> \<not> pytest_loaded then Inl (RuntimeError ''fixture_adapter_forbidden_outside_test'') else Inr ())"

definition disabled_stamp :: "manifest_digest \<Rightarrow> exn + pending_proof" where
  "disabled_stamp digest = Inl (RuntimeError ''timestamping_disabled'')"

definition disabled_upgrade :: "manifest_digest \<Rightarrow> bytes \<Rightarrow> exn + bytes" where
  "disabled_upgrade digest proof_bytes = Inl (RuntimeError ''timestamping_disabled'')"

definition add_attestation :: "attestation \<Rightarrow> timestamp \<Rightarrow> timestamp" where
  "add_attestation a t = Timestamp (ts_msg t) (if a \<in> set (ts_attestations t) then ts_attestations t else ts_attestations t @ [a]) (ts_ops t)"

definition fixture_stamp :: "calendar_library \<Rightarrow> datetime \<Rightarrow> manifest_digest \<Rightarrow> exn + pending_proof" where
  "fixture_stamp cl now digest =
     (let detached = new_detached_exact_digest digest;
          t = add_attestation (PendingAttestation ''https://fixture-b.invalid/'')
                (add_attestation (PendingAttestation ''https://fixture-a.invalid/'') (df_timestamp detached))
      in bind_res (serialize_detached (ots_apply (cl_lib cl)) (cl_serialize cl) (detached\<lparr>df_timestamp := t\<rparr>)) (\<lambda>proof_bytes.
         Inr \<lparr>pe_proof_bytes = proof_bytes, pe_calendar_submitted_at = now\<rparr>))"

definition fixture_upgrade :: "calendar_library \<Rightarrow> bool \<Rightarrow> manifest_digest \<Rightarrow> bytes \<Rightarrow> exn + bytes" where
  "fixture_upgrade cl confirm digest proof_bytes =
     bind_res (read_exact (cl_lib cl) digest proof_bytes) (\<lambda>parsed.
       let detached = pp_detached parsed;
           t = (if confirm then add_attestation (BitcoinBlockHeaderAttestation 900000) (df_timestamp detached) else df_timestamp detached)
       in bind_res (serialize_detached (ots_apply (cl_lib cl)) (cl_serialize cl) (detached\<lparr>df_timestamp := t\<rparr>)) (\<lambda>upgraded.
          bind_res (read_exact (cl_lib cl) digest upgraded) (\<lambda>_. Inr upgraded)))"


section \<open>The walk ends at every node\<close>

lemma sum_children: "sum_list (map (\<lambda>c. node_count (snd c)) (children_of node)) = sum_list (map (\<lambda>(op, child). node_count child) (ts_ops (snd node)))"
proof -
  have "map (\<lambda>c. node_count (snd c)) (children_of node) = map (\<lambda>i. (\<lambda>(op, child). node_count child) (ts_ops (snd node) ! i)) [0..<length (ts_ops (snd node))]"
    by (simp add: children_of_def case_prod_beta)
  also have "\<dots> = map (\<lambda>(op, child). node_count child) (ts_ops (snd node))"
    by (rule nth_equalityI) simp_all
  finally show ?thesis by simp
qed

lemma children_smaller: "c \<in> set (children_of node) \<Longrightarrow> node_count (snd c) < node_count (snd node)"
proof -
  assume "c \<in> set (children_of node)"
  then have "node_count (snd c) \<in> set (map (\<lambda>c. node_count (snd c)) (children_of node))" by simp
  then have "node_count (snd c) \<le> sum_list (map (\<lambda>c. node_count (snd c)) (children_of node))" by (rule member_le_sum_list) simp_all
  then show ?thesis by (simp add: sum_children node_count_children [of "snd node"])
qed

text \<open>The reference: a node, then its subtrees from the last operation to the first.\<close>

function nodes_of :: "position \<times> timestamp \<Rightarrow> (position \<times> timestamp) list" where
  "nodes_of node = node # concat (map nodes_of (rev (children_of node)))"
  by pat_completeness auto
termination
proof (relation "measure (\<lambda>node. node_count (snd node))")
  fix node c
  assume "c \<in> set (rev (children_of node))"
  then show "(c, node) \<in> measure (\<lambda>node. node_count (snd node))" using children_smaller [of c node] by simp
qed simp

declare nodes_of.simps [simp del]

lemma walk_loop_nodes: "walk_loop pending = Some (concat (map nodes_of pending))"
proof (induction "sum_list (map (\<lambda>n. node_count (snd n)) pending)" arbitrary: pending rule: less_induct)
  case less
  show ?case
  proof (cases pending)
    case Nil
    then show ?thesis by (subst walk_loop.simps) simp
  next
    case (Cons node rest)
    have "sum_list (map (\<lambda>n. node_count (snd n)) (rev (children_of node) @ rest)) < sum_list (map (\<lambda>n. node_count (snd n)) pending)"
      by (simp add: Cons rev_map [symmetric] sum_children node_count_children [of "snd node"])
    then have "walk_loop (rev (children_of node) @ rest) = Some (concat (map nodes_of (rev (children_of node) @ rest)))"
      by (rule less)
    then show ?thesis by (subst walk_loop.simps) (simp add: Cons nodes_of.simps [of node])
  qed
qed

lemma walk_nodes: "walk t = Some (nodes_of ([], t))"
  by (simp add: walk_def walk_loop_nodes)

lemma children_iff: "(q, n) \<in> set (children_of (p, t)) \<longleftrightarrow> (\<exists>i < length (ts_ops t). q = p @ [i] \<and> n = snd (ts_ops t ! i))"
  by (auto simp: children_of_def)

lemma bex_children: "(\<exists>c \<in> set (children_of (p, t)). P c) \<longleftrightarrow> (\<exists>i < length (ts_ops t). P (p @ [i], snd (ts_ops t ! i)))"
  by (auto simp: children_of_def)

lemma nodes_of_iff: "(q, n) \<in> set (nodes_of node) \<longleftrightarrow> (\<exists>r. q = fst node @ r \<and> node_at r (snd node) = Some n)"
proof (induction node arbitrary: q n rule: nodes_of.induct)
  case (1 node)
  obtain p t where node: "node = (p, t)" by (cases node)
  have IH: "(q, n) \<in> set (nodes_of c) \<longleftrightarrow> (\<exists>r. q = fst c @ r \<and> node_at r (snd c) = Some n)"
    if "c \<in> set (children_of node)" for c using 1 [of c q n] that by simp
  have "(q, n) \<in> set (nodes_of node) \<longleftrightarrow> (q, n) = node \<or> (\<exists>c \<in> set (children_of node). (q, n) \<in> set (nodes_of c))"
    by (subst nodes_of.simps) auto
  also have "\<dots> \<longleftrightarrow> (q, n) = node \<or> (\<exists>c \<in> set (children_of node). \<exists>r. q = fst c @ r \<and> node_at r (snd c) = Some n)"
    using IH by auto
  also have "\<dots> \<longleftrightarrow> (q, n) = node \<or> (\<exists>i < length (ts_ops t). \<exists>r. q = p @ i # r \<and> node_at r (snd (ts_ops t ! i)) = Some n)"
    unfolding node bex_children by simp
  also have "\<dots> \<longleftrightarrow> (\<exists>r. q = p @ r \<and> node_at r t = Some n)"
    (is "?l \<longleftrightarrow> ?r")
  proof
    assume ?l
    then show ?r
    proof
      assume "(q, n) = node"
      then show ?r using node by (intro exI [of _ "[]"]) simp
    next
      assume "\<exists>i < length (ts_ops t). \<exists>r. q = p @ i # r \<and> node_at r (snd (ts_ops t ! i)) = Some n"
      then obtain i r where "i < length (ts_ops t)" "q = p @ i # r" "node_at r (snd (ts_ops t ! i)) = Some n" by auto
      then show ?r by (intro exI [of _ "i # r"]) simp
    qed
  next
    assume ?r
    then obtain r where r: "q = p @ r" "node_at r t = Some n" by auto
    then show ?l using node by (cases r) (auto split: if_splits)
  qed
  finally show ?case by (simp add: node)
qed

lemma length_nodes_of: "length (nodes_of node) = node_count (snd node)"
proof (induction node rule: nodes_of.induct)
  case (1 node)
  have IH: "length (nodes_of c) = node_count (snd c)" if "c \<in> set (children_of node)" for c using 1 [of c] that by simp
  have "sum_list (map (\<lambda>c. length (nodes_of c)) (children_of node)) = sum_list (map (\<lambda>c. node_count (snd c)) (children_of node))"
    by (rule arg_cong [where f = sum_list], rule map_cong [OF refl]) (rule IH)
  then have "length (nodes_of node) = Suc (sum_list (map (\<lambda>c. node_count (snd c)) (children_of node)))"
    by (subst nodes_of.simps) (simp add: length_concat o_def rev_map [symmetric])
  then show ?case by (simp add: sum_children node_count_children [of "snd node"])
qed

lemma distinct_positions_of:
  assumes "\<And>c. c \<in> set ns \<Longrightarrow> length (fst c) = k" "distinct (map fst ns)" "\<And>c. c \<in> set ns \<Longrightarrow> distinct (map fst (nodes_of c))"
  shows "distinct (map fst (concat (map nodes_of ns)))"
  using assms
proof (induction ns)
  case (Cons a ns)
  have IH: "distinct (map fst (concat (map nodes_of ns)))" using Cons by simp
  have "set (map fst (nodes_of a)) \<inter> set (map fst (concat (map nodes_of ns))) = {}"
  proof (rule ccontr)
    assume "\<not> ?thesis"
    then obtain q n m b where b: "b \<in> set ns" "(q, n) \<in> set (nodes_of a)" "(q, m) \<in> set (nodes_of b)" by force
    then obtain r s where "q = fst a @ r" "q = fst b @ s" using nodes_of_iff by metis
    moreover have "length (fst a) = length (fst b)" using Cons.prems(1) b(1) by simp
    ultimately have "fst a = fst b" by simp
    then show False using Cons.prems(2) b(1) by force
  qed
  then show ?case using IH Cons.prems(3) [of a] by simp
qed simp

lemma distinct_nodes_of: "distinct (map fst (nodes_of node))"
proof (induction node rule: nodes_of.induct)
  case (1 node)
  obtain p t where node: "node = (p, t)" by (cases node)
  have "map fst (children_of node) = map (\<lambda>i. p @ [i]) [0..<length (ts_ops t)]"
    by (simp add: node children_of_def)
  then have one: "distinct (map fst (children_of node))" by (simp add: distinct_map inj_on_def)
  have two: "length (fst c) = Suc (length p)" if "c \<in> set (rev (children_of node))" for c
    using that by (auto simp: node children_of_def)
  have three: "distinct (map fst (nodes_of c))" if "c \<in> set (rev (children_of node))" for c using 1 that by simp
  have "distinct (map fst (concat (map nodes_of (rev (children_of node)))))"
    using two one three by (intro distinct_positions_of [where k = "Suc (length p)"]) (simp_all add: rev_map [symmetric])
  moreover have "p \<notin> fst ` set (concat (map nodes_of (rev (children_of node))))"
  proof
    assume "p \<in> fst ` set (concat (map nodes_of (rev (children_of node))))"
    then obtain n c where c: "c \<in> set (rev (children_of node))" "(p, n) \<in> set (nodes_of c)" by force
    then obtain r where "p = fst c @ r" using nodes_of_iff by metis
    then have "length (fst c) \<le> length p" by simp
    then show False using two [OF c(1)] by simp
  qed
  ultimately show ?case by (subst nodes_of.simps) (simp add: node)
qed

text \<open>C21. The loop of \<open>_walk\<close> always ends, and it yields every object of the timestamp once: each of the
  positions of the tree, and no other.\<close>

theorem walk_visits_every_node:
  "\<exists>nodes. walk t = Some nodes \<and> length nodes = node_count t \<and> distinct (map fst nodes) \<and>
     (\<forall>p n. (p, n) \<in> set nodes \<longleftrightarrow> node_at p t = Some n)"
  by (simp add: walk_nodes length_nodes_of distinct_nodes_of nodes_of_iff)


section \<open>The normal form of a URL\<close>

lemma split_on_chars: "x \<in> set s \<Longrightarrow> x = c \<or> (\<exists>w \<in> set (split_on c s). x \<in> set w)"
proof (induction s)
  case (Cons a s)
  show ?case
  proof (cases "split_on c s")
    case Nil
    then show ?thesis using Cons by (auto split: if_splits)
  next
    case (Cons w ws)
    then show ?thesis using Cons.prems Cons.IH by (auto split: if_splits)
  qed
qed simp

lemma hostname_chars: "hostname_valid h \<Longrightarrow> x \<in> set h \<Longrightarrow> is_alnum x \<or> x = CHR ''-'' \<or> x = CHR ''.''"
  using split_on_chars [of x h "CHR ''.''"]
  by (auto simp: hostname_valid_def label_ok_def list_all_iff Let_def)

lemma hostname_nonempty: "hostname_valid h \<Longrightarrow> h \<noteq> []"
  by (auto simp: hostname_valid_def)

lemma lower_char_idem: "lower_char (lower_char c) = lower_char c"
proof -
  have small: "code c < 256" by (simp add: code_def)
  show ?thesis
  proof (cases "is_upper c \<or> (192 \<le> code c \<and> code c \<le> 222 \<and> code c \<noteq> 215)")
    case True
    define d where "d = lower_char c"
    have "code d = code c + 32" using True small by (auto simp: d_def lower_char_def is_upper_def code_def)
    then have "\<not> (is_upper d \<or> (192 \<le> code d \<and> code d \<le> 222 \<and> code d \<noteq> 215))" using True by (auto simp: is_upper_def)
    then have "lower_char d = d" unfolding lower_char_def by (rule if_not_P)
    then show ?thesis by (simp add: d_def)
  next
    case False
    then have "lower_char c = c" unfolding lower_char_def by (rule if_not_P)
    then show ?thesis by simp
  qed
qed

lemma str_lower_idem: "str_lower (str_lower s) = str_lower s"
  by (simp add: str_lower_def lower_char_idem)

lemma strip_ends: "s \<noteq> [] \<Longrightarrow> \<not> C (hd s) \<Longrightarrow> \<not> C (last s) \<Longrightarrow> strip_chars C s = s"
proof -
  have self: "dropWhile C xs = xs" if "xs \<noteq> []" "\<not> C (hd xs)" for xs using that by (cases xs) simp_all
  assume "s \<noteq> []" "\<not> C (hd s)" "\<not> C (last s)"
  then show ?thesis using self [of s] self [of "rev s"] by (simp add: strip_chars_def hd_rev)
qed

lemma rstrip_slash_append: "rstrip_slash (s @ ''/'') = rstrip_slash s"
  by (simp add: rstrip_slash_def)

lemma rstrip_slash_idem: "rstrip_slash (rstrip_slash s) = rstrip_slash s"
  by (simp add: rstrip_slash_def)

lemma rstrip_slash_prefix: "\<exists>r. s = rstrip_slash s @ r"
proof -
  have "rev s = takeWhile (\<lambda>c. c = CHR ''/'') (rev s) @ dropWhile (\<lambda>c. c = CHR ''/'') (rev s)" by simp
  then have "s = rev (dropWhile (\<lambda>c. c = CHR ''/'') (rev s)) @ rev (takeWhile (\<lambda>c. c = CHR ''/'') (rev s))"
    by (metis rev_append rev_rev_ident)
  then show ?thesis unfolding rstrip_slash_def by blast
qed

text \<open>What \<open>urlsplit\<close> gives for \<open>https://\<close>, a host name and a path.\<close>

lemma host_alone:
  assumes "\<And>x. x \<in> set h \<Longrightarrow> is_alnum x \<or> x = CHR ''-'' \<or> x = CHR ''.''"
  shows "CHR ''@'' \<notin> set h" "brackets_ok h" "host_info h = (h, [])" "port_of h = Inr None"
    "\<forall>x \<in> set h. x \<notin> set ''/?#''"
proof -
  have no: "x \<notin> set h" if "\<not> (is_alnum x \<or> x = CHR ''-'' \<or> x = CHR ''.'')" for x using assms that by blast
  show at_sign: "CHR ''@'' \<notin> set h" by (rule no) (simp add: char_class_defs)
  have brackets: "CHR ''['' \<notin> set h" "CHR '']'' \<notin> set h" by (rule no, simp add: char_class_defs)+
  have colon: "CHR '':'' \<notin> set h" by (rule no) (simp add: char_class_defs)
  have marks: "CHR ''/'' \<notin> set h" "CHR ''?'' \<notin> set h" "CHR ''#'' \<notin> set h" by (rule no, simp add: char_class_defs)+
  then show "\<forall>x \<in> set h. x \<notin> set ''/?#''" by auto
  show "brackets_ok h" using brackets by (simp add: brackets_ok_def)
  have all: "takeWhile (\<lambda>c. c \<noteq> CHR ''@'') (rev h) = rev h" unfolding takeWhile_eq_all_conv using at_sign by auto
  have "after_at_sign h = h" unfolding after_at_sign_def all by simp
  then show info: "host_info h = (h, [])" using brackets split_at_none [OF colon] by (simp add: host_info_def)
  show "port_of h = Inr None" by (simp add: port_of_def info)
qed

lemma calendar_urlsplit_normal:
  assumes h: "\<And>x. x \<in> set h \<Longrightarrow> is_alnum x \<or> x = CHR ''-'' \<or> x = CHR ''.''"
    and path: "path = CHR ''/'' # rest" "CHR ''?'' \<notin> set path" "CHR ''#'' \<notin> set path"
  shows "calendar_urlsplit (''https://'' @ h @ path) =
    Inr \<lparr>su_scheme = ''https'', su_netloc = h, su_path = path, su_query = [], su_fragment = []\<rparr>"
proof -
  have scheme: "split_scheme (''https://'' @ h @ path) = (''https'', ''//'' @ h @ path)"
    by (simp add: split_scheme_def Let_def char_class_defs str_lower_def lower_char_def)
  have "takeWhile (\<lambda>c. c \<notin> set ''/?#'') (h @ path) = h" "dropWhile (\<lambda>c. c \<notin> set ''/?#'') (h @ path) = path"
    using host_alone(5) [OF h] path(1) by (simp_all add: takeWhile_append dropWhile_append)
  then have netloc: "split_netloc (''//'' @ h @ path) = (h, path)" by (simp add: split_netloc_def)
  show ?thesis
    unfolding calendar_urlsplit_def scheme netloc Let_def prod.case split_at_none [OF path(3)] split_at_none [OF path(2)]
    using host_alone(2) [OF h] by simp
qed

lemma split_netloc_path: "split_netloc rest = (netloc, path) \<Longrightarrow> set path \<subseteq> set rest"
  by (auto simp: split_netloc_def dest: set_dropWhileD in_set_dropD split: if_splits)

lemma split_scheme_rest: "split_scheme s = (scheme, rest) \<Longrightarrow> set rest \<subseteq> set s"
proof -
  assume a: "split_scheme s = (scheme, rest)"
  have "set (tl (dropWhile (\<lambda>c. c \<noteq> CHR '':'') s)) \<subseteq> set s"
    by (metis drop_Suc set_drop_subset set_dropWhileD subset_iff drop0)
  with a show ?thesis by (auto simp: split_scheme_def Let_def split: if_splits)
qed

lemma calendar_urlsplit_path:
  assumes "calendar_urlsplit value = Inr parsed"
  shows "set (su_path parsed) \<subseteq> set value \<and> CHR ''?'' \<notin> set (su_path parsed) \<and> CHR ''#'' \<notin> set (su_path parsed)"
proof -
  obtain scheme rest where 1: "split_scheme value = (scheme, rest)" by (cases "split_scheme value")
  obtain netloc rest' where 2: "split_netloc rest = (netloc, rest')" by (cases "split_netloc rest")
  obtain before fragment where 3: "split_at (CHR ''#'') rest' = (before, fragment)" by (cases "split_at (CHR ''#'') rest'")
  obtain path query where 4: "split_at (CHR ''?'') before = (path, query)" by (cases "split_at (CHR ''?'') before")
  have "su_path parsed = path" using assms by (auto simp: calendar_urlsplit_def 1 2 3 4 split: if_splits)
  moreover have "set path \<subseteq> set before" "CHR ''?'' \<notin> set path" using split_atD [OF 4] by auto
  moreover have "set before \<subseteq> set rest'" "CHR ''#'' \<notin> set before" using split_atD [OF 3] by auto
  ultimately show ?thesis using split_netloc_path [OF 2] split_scheme_rest [OF 1] by auto
qed

lemma validated_calendar_urlD:
  assumes "validated_calendar_url raw = Inr (u, h)"
  obtains path where "u = ''https://'' @ h @ path" "hostname_valid h" "\<not> literal_ip h" "str_lower h = h"
    "path = rstrip_slash path @ ''/''" "hd path = CHR ''/''" "set path \<subseteq> set raw" "CHR ''?'' \<notin> set path" "CHR ''#'' \<notin> set path"
    "is_ascii raw" "CHR 0x5C \<notin> set raw" "\<not> list_ex (\<lambda>c. code c < 32 \<or> code c = 127) raw"
proof -
  have base: "raw \<noteq> []" "is_ascii raw" "CHR 0x5C \<notin> set raw" "\<not> list_ex (\<lambda>c. code c < 32 \<or> code c = 127) raw"
    using assms by (auto simp: validated_calendar_url_def split: if_splits)
  obtain parsed where parsed: "calendar_urlsplit raw = Inr parsed"
    using assms by (cases "calendar_urlsplit raw") (auto simp: validated_calendar_url_def split: if_splits)
  obtain port where port: "port_of (su_netloc parsed) = Inr port"
    using assms parsed by (cases "port_of (su_netloc parsed)") (auto simp: validated_calendar_url_def split: if_splits)
  define P where "P = su_path parsed"
  define path where "path = rstrip_slash P @ ''/''"
  have facts: "u = ''https://'' @ h @ path" "hostname_valid h" "\<not> literal_ip h" "h = str_lower (fst (host_info (su_netloc parsed)))"
    "P = [] \<or> starts_with ''/'' P"
    using assms parsed port by (auto simp: validated_calendar_url_def path_def P_def Let_def split: if_splits)
  have split_path: "set P \<subseteq> set raw" "CHR ''?'' \<notin> set P" "CHR ''#'' \<notin> set P"
    using calendar_urlsplit_path [OF parsed] by (auto simp: P_def)
  obtain r where r: "P = rstrip_slash P @ r" using rstrip_slash_prefix by blast
  then have sub: "set (rstrip_slash P) \<subseteq> set P" by (metis Un_upper1 set_append)
  have slash: "CHR ''/'' \<in> set raw"
  proof -
    obtain scheme rest where 1: "split_scheme raw = (scheme, rest)" by (cases "split_scheme raw")
    have "host_info [] = ([], [])" by (simp add: host_info_def after_at_sign_def split_at_def)
    moreover have "fst (host_info (su_netloc parsed)) \<noteq> []" using facts(2,4) hostname_nonempty by (auto simp: str_lower_def)
    ultimately have "su_netloc parsed \<noteq> []" by auto
    moreover have "su_netloc parsed = fst (split_netloc rest)"
      using parsed by (auto simp: calendar_urlsplit_def 1 case_prod_beta Let_def split: if_splits)
    ultimately have "take 2 rest = ''//''" by (auto simp: split_netloc_def split: if_splits)
    then have "CHR ''/'' \<in> set rest" by (metis in_set_takeD list.set_intros(1))
    then show ?thesis using split_scheme_rest [OF 1] by auto
  qed
  show thesis
  proof (rule that [of path])
    show "str_lower h = h" by (simp add: facts(4) str_lower_idem)
    show "path = rstrip_slash path @ ''/''"
      using rstrip_slash_append [of "rstrip_slash P"] by (simp add: path_def rstrip_slash_idem)
    show "hd path = CHR ''/''"
    proof (cases "rstrip_slash P")
      case (Cons c cs)
      then have "P \<noteq> []" "hd P = c" using r by (metis append_Cons list.distinct(1), metis append_Cons list.sel(1))
      then have "c = CHR ''/''" using facts(5) by (cases P) (auto simp: starts_with_def)
      then show ?thesis by (simp add: path_def Cons)
    qed (simp add: path_def)
    show "set path \<subseteq> set raw" using sub split_path(1) slash by (auto simp: path_def)
    show "CHR ''?'' \<notin> set path" "CHR ''#'' \<notin> set path" using sub split_path(2,3) by (auto simp: path_def)
  qed (use facts base in simp_all)
qed

lemma validated_url_split:
  assumes "validated_calendar_url raw = Inr (u, h)"
  shows "\<exists>path. u = ''https://'' @ h @ path \<and> hd path = CHR ''/'' \<and> last path = CHR ''/'' \<and>
    calendar_urlsplit u = Inr \<lparr>su_scheme = ''https'', su_netloc = h, su_path = path, su_query = [], su_fragment = []\<rparr>"
proof (rule validated_calendar_urlD [OF assms])
  fix path
  assume u: "u = ''https://'' @ h @ path" and h: "hostname_valid h" and path: "path = rstrip_slash path @ ''/''" "hd path = CHR ''/''"
    "CHR ''?'' \<notin> set path" "CHR ''#'' \<notin> set path"
  obtain rest where "path = CHR ''/'' # rest" using path(1,2) by (metis append_is_Nil_conv list.collapse not_Cons_self2)
  then show ?thesis
    using calendar_urlsplit_normal [OF hostname_chars [OF h] _ path(3,4)] u path(1,2) by (metis last_snoc)
qed

text \<open>A calendar URL that the allowlist accepts is brought to a normal form: \<open>https://\<close>, a lower-case domain name
  that is not an address, and a path that begins and ends with a slash; and the normal form is accepted as it is, so the
  check of \<open>_request\<close> does not refuse a configured URL.\<close>

theorem calendar_url_normal_form:
  assumes "validated_calendar_url raw = Inr (u, h)"
  shows "validated_calendar_url u = Inr (u, h) \<and> hostname_valid h \<and> \<not> literal_ip h \<and> str_lower h = h \<and>
    (\<exists>path. u = ''https://'' @ h @ path \<and> hd path = CHR ''/'' \<and> last path = CHR ''/'')"
proof (rule validated_calendar_urlD [OF assms])
  fix path
  assume u: "u = ''https://'' @ h @ path" and h: "hostname_valid h" "\<not> literal_ip h" "str_lower h = h"
    and path: "path = rstrip_slash path @ ''/''" "hd path = CHR ''/''" "set path \<subseteq> set raw" "CHR ''?'' \<notin> set path" "CHR ''#'' \<notin> set path"
    and raw: "is_ascii raw" "CHR 0x5C \<notin> set raw" "\<not> list_ex (\<lambda>c. code c < 32 \<or> code c = 127) raw"
  have chars: "\<And>x. x \<in> set h \<Longrightarrow> is_alnum x \<or> x = CHR ''-'' \<or> x = CHR ''.''" using hostname_chars [OF h(1)] .
  have codes: "32 \<le> code x \<and> code x < 127 \<and> x \<noteq> CHR 0x5C" if "x \<in> set u" for x
  proof -
    have "x \<in> set ''https://'' \<or> x \<in> set h \<or> x \<in> set path" using that u by auto
    then show ?thesis
    proof (elim disjE)
      assume "x \<in> set h"
      then show ?thesis using chars [of x] by (auto simp: char_class_defs code_def)
    next
      assume "x \<in> set path"
      then show ?thesis using path(3) raw by (force simp: is_ascii_def list_all_iff list_ex_iff)
    qed (auto simp: code_def)
  qed
  obtain split_path where parsed: "u = ''https://'' @ h @ split_path"
    "calendar_urlsplit u = Inr \<lparr>su_scheme = ''https'', su_netloc = h, su_path = split_path, su_query = [], su_fragment = []\<rparr>"
    using validated_url_split [OF assms] by auto
  then have split: "calendar_urlsplit u = Inr \<lparr>su_scheme = ''https'', su_netloc = h, su_path = path, su_query = [], su_fragment = []\<rparr>"
    using u by simp
  have last_path: "last u = CHR ''/''" using u path(1) by (metis last_append last_snoc append_is_Nil_conv not_Cons_self2)
  have strip: "strip_chars is_py_space u = u"
    by (rule strip_ends) (use u last_path in \<open>simp_all add: is_py_space_def code_def\<close>)
  have "u \<noteq> []" using u by simp
  moreover have "is_ascii u" unfolding is_ascii_def list_all_iff using codes by fastforce
  moreover have "CHR 0x5C \<notin> set u" using codes by blast
  moreover have "\<not> list_ex (\<lambda>c. code c < 32 \<or> code c = 127) u" unfolding list_ex_iff using codes by fastforce
  ultimately have clean: "u \<noteq> []" "is_ascii u" "CHR 0x5C \<notin> set u" "\<not> list_ex (\<lambda>c. code c < 32 \<or> code c = 127) u" by blast+
  have begins: "starts_with ''/'' path" using path(1,2) by (cases path) (auto simp: starts_with_def)
  note alone = host_alone [OF chars]
  have normal: "''https://'' @ h @ rstrip_slash path @ ''/'' = u" unfolding path(1) [symmetric] u ..
  have "validated_calendar_url u = Inr (u, h)"
    unfolding validated_calendar_url_def split strip
    using clean h begins alone normal by (simp add: alone(3,4))
  moreover have "last path = CHR ''/''" using path(1) by (metis last_snoc)
  ultimately show ?thesis using h u path(2) by auto
qed


section \<open>One request\<close>

lemma vet_addresses_Inr:
  "vet_addresses parse normalized raws = Inr vetted \<Longrightarrow>
     (\<forall>a \<in> set raws. \<exists>i. parse a = Some i \<and> is_globally_routable_unicast i) \<and>
     (\<exists>more. vetted = normalized @ more) \<and> (\<forall>a \<in> set raws. ia_compressed (the (parse a)) \<in> set vetted)"
proof (induction raws arbitrary: normalized)
  case (Cons a raws)
  obtain i where i: "parse a = Some i" "is_globally_routable_unicast i"
    using Cons.prems by (auto split: option.splits if_splits)
  define next_list where "next_list = (if ia_compressed i \<in> set normalized then normalized else normalized @ [ia_compressed i])"
  have step: "vet_addresses parse next_list raws = Inr vetted" using Cons.prems i by (simp add: next_list_def)
  have more: "\<exists>m. next_list = normalized @ m" "ia_compressed i \<in> set next_list" by (simp_all add: next_list_def)
  show ?case using Cons.IH [OF step] i more by auto
qed simp

lemma vetted_head:
  assumes "vetted_public_addresses parse addresses = Inr vetted"
  shows "addresses \<noteq> [] \<and> (\<forall>a \<in> set addresses. \<exists>i. parse a = Some i \<and> is_globally_routable_unicast i) \<and>
    hd vetted = ia_compressed (the (parse (hd addresses)))"
proof -
  have ne: "addresses \<noteq> []" and all: "vet_addresses parse [] addresses = Inr vetted"
    using assms by (auto simp: vetted_public_addresses_def split: if_splits)
  obtain a raws where a: "addresses = a # raws" using ne by (cases addresses) auto
  obtain i where i: "parse a = Some i" "is_globally_routable_unicast i"
    using all by (auto simp: a split: option.splits if_splits)
  then have "vet_addresses parse [ia_compressed i] raws = Inr vetted" using all by (simp add: a)
  then have "hd vetted = ia_compressed i" using vet_addresses_Inr by fastforce
  then show ?thesis using vet_addresses_Inr [OF all] i by (simp add: a)
qed

lemma take_calendar_chunks_bound:
  "take_calendar_chunks body chunks = Inr all \<Longrightarrow> length body \<le> CALENDAR_RESPONSE_LIMIT \<Longrightarrow> length all \<le> CALENDAR_RESPONSE_LIMIT"
proof (induction body chunks rule: take_calendar_chunks.induct)
  case (3 body chunk chunks)
  then show ?case by (auto split: if_splits)
qed auto

lemma read_response_bound:
  "read_response allow received = Inr (Some body) \<Longrightarrow> 1 \<le> length body \<and> length body \<le> CALENDAR_RESPONSE_LIMIT"
  using take_calendar_chunks_bound [of "[]"]
  by (auto simp: read_response_def bind_res_Inr_iff Suc_le_eq split: sum.splits if_splits option.splits)

definition authority :: "ip_address \<Rightarrow> string" where
  "authority ip = (if ia_version ip = 6 then ''['' @ ia_compressed ip @ '']'' else ia_compressed ip)"

text \<open>C23. A request goes to one address that the resolver gave for the host of the configured URL, and only if every
  address it gave is a public one; the host name is kept for the certificate and the \<open>Host\<close> header; the answer has at
  most 10,000 bytes and is not empty. \<open>canonical\<close> is what the documentation of \<open>ipaddress\<close> says of
  \<open>compressed\<close>: it denotes the address itself.\<close>

theorem calendar_request_pinned:
  assumes canonical: "\<forall>a ip. cn_ip_address net a = Some ip \<longrightarrow> cn_ip_address net (ia_compressed ip) = Some ip"
    and answered: "calendar_request net method_name base_url last_part content allow_not_found = Inr answer"
  shows "\<exists>u host addresses ip path request. validated_calendar_url base_url = Inr (u, host) \<and> u = ''https://'' @ host @ path \<and>
    cn_resolve net host 443 = Inr addresses \<and> addresses \<noteq> [] \<and>
    (\<forall>a \<in> set addresses. \<exists>i. cn_ip_address net a = Some i \<and> is_globally_routable_unicast i) \<and>
    cn_ip_address net (hd addresses) = Some ip \<and>
    rq_url request = ''https://'' @ authority ip @ path @ last_part \<and> rq_sni_hostname request = host \<and>
    (''Host'', host) \<in> set (rq_headers request) \<and> rq_content request = content \<and>
    read_response allow_not_found (cn_send net request) = Inr answer \<and>
    (\<forall>body. answer = Some body \<longrightarrow> 1 \<le> length body \<and> length body \<le> 10000)"
proof -
  obtain request where request: "prepare_request net method_name base_url last_part content = Inr request"
    "read_response allow_not_found (cn_send net request) = Inr answer"
    using answered by (auto simp: calendar_request_def bind_res_Inr_iff)
  obtain u host where url: "validated_calendar_url base_url = Inr (u, host)"
    using request(1) by (auto simp: prepare_request_def bind_res_Inr_iff)
  obtain path where path: "u = ''https://'' @ host @ path"
    "calendar_urlsplit u = Inr \<lparr>su_scheme = ''https'', su_netloc = host, su_path = path, su_query = [], su_fragment = []\<rparr>"
    using validated_url_split [OF url] by auto
  obtain addresses where addresses: "cn_resolve net host 443 = Inr addresses"
    using request(1) by (auto simp: prepare_request_def bind_res_Inr_iff url split: sum.splits)
  obtain vetted where vetted: "vetted_public_addresses (cn_ip_address net) addresses = Inr vetted"
    using request(1) by (auto simp: prepare_request_def bind_res_Inr_iff url addresses)
  note head = vetted_head [OF vetted]
  then obtain ip where ip: "cn_ip_address net (hd addresses) = Some ip" by (metis list.set_sel(1))
  then have pinned: "cn_ip_address net (hd vetted) = Some ip" using head canonical by simp
  have "rq_url request = ''https://'' @ authority ip @ path @ last_part" "rq_sni_hostname request = host"
    "(''Host'', host) \<in> set (rq_headers request)" "rq_content request = content"
    using request(1) unfolding prepare_request_def url addresses bind_res_simps prod.case sum.case vetted pinned option.case path(2) Let_def authority_def
    by auto
  moreover have "\<forall>body. answer = Some body \<longrightarrow> 1 \<le> length body \<and> length body \<le> 10000"
    using request(2) read_response_bound [of allow_not_found "cn_send net request"] by (auto simp: CALENDAR_RESPONSE_LIMIT_def)
  ultimately show ?thesis using url path(1) addresses head ip request(2)
    by (intro exI [of _ u] exI [of _ host] exI [of _ addresses] exI [of _ ip] exI [of _ path] exI [of _ request]) simp
qed

section \<open>The requests of an upgrade\<close>

text \<open>The keys the dictionary has to have: the pending attestations of the nodes with a configured URL.\<close>

definition calendar_url :: "string \<Rightarrow> string" where
  "calendar_url uri = rstrip_slash uri @ ''/''"

definition wanted_keys :: "string list \<Rightarrow> (position \<times> timestamp) list \<Rightarrow> (bytes \<times> string) set" where
  "wanted_keys urls nodes =
     {(ts_msg n, calendar_url uri) | p n uri. (p, n) \<in> set nodes \<and> PendingAttestation uri \<in> set (ts_attestations n) \<and>
        calendar_url uri \<in> set urls}"

definition entries_ok :: "(position \<times> timestamp) set \<Rightarrow> pending_nodes \<Rightarrow> bool" where
  "entries_ok nodes entries \<longleftrightarrow> distinct (map fst entries) \<and>
     (\<forall>(key, node) \<in> set entries. node \<in> nodes \<and> fst key = ts_msg (snd node))"

lemma replaced_keys: "map fst (map (\<lambda>e. if fst e = key then (key, node) else e) entries) = map fst entries"
  by (induction entries) auto

lemma put_pending_keys: "fst ` set (put_pending key node entries) = insert key (fst ` set entries)"
proof (cases "key \<in> fst ` set entries")
  case True
  then have "put_pending key node entries = map (\<lambda>e. if fst e = key then (key, node) else e) entries"
    by (simp add: put_pending_def)
  then have "fst ` set (put_pending key node entries) = fst ` set entries"
    using arg_cong [OF replaced_keys [of key node entries], of set] by (simp only: set_map)
  then show ?thesis using True by auto
next
  case False
  then show ?thesis by (simp add: put_pending_def)
qed

lemma put_pending_ok:
  assumes "entries_ok nodes entries" "node \<in> nodes" "fst key = ts_msg (snd node)"
  shows "entries_ok nodes (put_pending key node entries)"
proof (cases "key \<in> fst ` set entries")
  case True
  then have put: "put_pending key node entries = map (\<lambda>e. if fst e = key then (key, node) else e) entries"
    by (simp add: put_pending_def)
  have "distinct (map fst (put_pending key node entries))" unfolding put replaced_keys using assms(1) by (simp add: entries_ok_def)
  moreover have "\<forall>(k, n) \<in> set (put_pending key node entries). n \<in> nodes \<and> fst k = ts_msg (snd n)"
    using assms by (auto simp: put entries_ok_def)
  ultimately show ?thesis by (simp add: entries_ok_def)
next
  case False
  then show ?thesis using assms by (auto simp: entries_ok_def put_pending_def)
qed

definition asked :: "string list \<Rightarrow> timestamp \<Rightarrow> attestation list \<Rightarrow> (bytes \<times> string) set" where
  "asked urls n as = {(ts_msg n, calendar_url uri) | uri. PendingAttestation uri \<in> set as \<and> calendar_url uri \<in> set urls}"

lemma asked_simps:
  "asked urls n [] = {}"
  "asked urls n (PendingAttestation uri # as) =
     (if calendar_url uri \<in> set urls then insert (ts_msg n, calendar_url uri) (asked urls n as) else asked urls n as)"
  "asked urls n (BitcoinBlockHeaderAttestation h # as) = asked urls n as"
  "asked urls n (UnknownAttestation # as) = asked urls n as"
  by (auto simp: asked_def)

lemma put_attestations_facts:
  "entries_ok nodes entries \<Longrightarrow> node \<in> nodes \<Longrightarrow>
     entries_ok nodes (put_attestations urls node as entries) \<and>
     fst ` set (put_attestations urls node as entries) = fst ` set entries \<union> asked urls (snd node) as"
proof (induction as arbitrary: entries)
  case Nil
  then show ?case by (simp add: asked_simps)
next
  case (Cons a as)
  show ?case
  proof (cases a)
    case (PendingAttestation uri)
    define entries' where "entries' = (if calendar_url uri \<in> set urls
      then put_pending (ts_msg (snd node), calendar_url uri) node entries else entries)"
    have step: "put_attestations urls node (PendingAttestation uri # as) entries = put_attestations urls node as entries'"
      by (simp add: entries'_def calendar_url_def Let_def)
    have ok: "entries_ok nodes entries'" using put_pending_ok Cons.prems by (simp add: entries'_def)
    have keys: "fst ` set entries' = (if calendar_url uri \<in> set urls
        then insert (ts_msg (snd node), calendar_url uri) (fst ` set entries) else fst ` set entries)"
      by (simp add: entries'_def put_pending_keys)
    show ?thesis unfolding PendingAttestation step asked_simps
      using Cons.IH [OF ok Cons.prems(2)] keys by simp
  qed (use Cons in \<open>simp_all add: asked_simps\<close>)
qed

lemma pending_by_key_facts:
  "entries_ok (set nodes) (pending_by_key urls nodes) \<and> fst ` set (pending_by_key urls nodes) = wanted_keys urls nodes"
proof -
  have "entries_ok all (fold (\<lambda>node. put_attestations urls node (ts_attestations (snd node))) ns entries) \<and>
      fst ` set (fold (\<lambda>node. put_attestations urls node (ts_attestations (snd node))) ns entries) =
      fst ` set entries \<union> wanted_keys urls ns"
    if "entries_ok all entries" "set ns \<subseteq> all" for all ns entries
    using that
  proof (induction ns arbitrary: entries)
    case Nil
    then show ?case by (simp add: wanted_keys_def)
  next
    case (Cons node ns)
    obtain p n where node: "node = (p, n)" by (cases node)
    note one = put_attestations_facts [OF Cons.prems(1), of node urls "ts_attestations (snd node)"]
    have "wanted_keys urls (node # ns) = asked urls (snd node) (ts_attestations (snd node)) \<union> wanted_keys urls ns"
      by (auto simp: wanted_keys_def asked_def node)
    then show ?case
      using Cons.IH [of "put_attestations urls node (ts_attestations (snd node)) entries"] one Cons.prems(2) by (simp add: Un_assoc)
  qed
  from this [of "set nodes" "[]" nodes] show ?thesis by (simp add: pending_by_key_def entries_ok_def)
qed

text \<open>C22. An upgrade sends at most eight requests, no two for the same commitment and URL, only to configured URLs, and
  exactly the ones the proof calls for: one for each commitment of a node of the tree with a pending attestation of a
  configured calendar.\<close>

theorem upgrade_requests_exact:
  assumes "walk t = Some nodes" "upgrade_requests urls nodes = Inr pending"
  shows "length pending \<le> 8 \<and> distinct (map fst pending) \<and>
    set (map fst pending) = {(ts_msg n, calendar_url uri) | p n uri. node_at p t = Some n \<and>
      PendingAttestation uri \<in> set (ts_attestations n) \<and> calendar_url uri \<in> set urls} \<and>
    (\<forall>entry \<in> set pending. node_at (fst (snd entry)) t = Some (snd (snd entry)) \<and> fst (fst entry) = ts_msg (snd (snd entry)))"
proof -
  have nodes: "nodes = nodes_of ([], t)" using assms(1) by (simp add: walk_nodes)
  have member: "(p, n) \<in> set nodes \<longleftrightarrow> node_at p t = Some n" for p n by (simp add: nodes nodes_of_iff)
  have pending: "pending = pending_by_key urls nodes" "length pending \<le> 8"
    using assms(2) by (auto simp: upgrade_requests_def MAX_UPGRADE_REQUESTS_def Let_def split: if_splits)
  show ?thesis
    using pending_by_key_facts [of nodes urls] pending member by (auto simp: entries_ok_def wanted_keys_def)
qed


section \<open>What the timestamper returns\<close>

text \<open>
  The contract of \<open>Timestamper\<close>: what it returns is a proof of the digest, and an upgrade returns. The client is the
  fulfillment, whose first proof version is then never refused.
\<close>

locale exact_timestamper =
  fixes lib :: ots_library
    and stamp :: "manifest_digest \<Rightarrow> exn + pending_proof"
    and upgrade :: "manifest_digest \<Rightarrow> bytes \<Rightarrow> (exn + bytes) option"
  assumes stamped: "stamp digest = Inr pending \<Longrightarrow> validate_proof lib digest (pe_proof_bytes pending) None = Inr ()"
    and upgraded: "upgrade digest bs = Some (Inr bs') \<Longrightarrow> validate_proof lib digest bs' None = Inr ()"
    and returns: "upgrade digest bs \<noteq> None"
begin

lemma upgrade_answers:
  "\<exists>result. upgrade digest bs = Some result \<and> (\<forall>bs'. result = Inr bs' \<longrightarrow> validate_proof lib digest bs' None = Inr ())"
  using upgraded [of digest bs] returns [of digest bs] by auto

lemma stamped_size:
  assumes "stamp digest = Inr pending"
  shows "1 \<le> length (pe_proof_bytes pending) \<and> length (pe_proof_bytes pending) \<le> MAX_PROOF_BYTES"
  using stamped [OF assms]
  by (auto simp: validate_exact_proof_def deserialize_exact_proof_def Suc_le_eq split: if_splits)

lemma first_version_accepted:
  assumes "stamp digest = Inr pending" "is_aware (pe_calendar_submitted_at pending)"
  shows "\<exists>p. make_stored_proof lib ref 1 digest (pe_proof_bytes pending) PS_CALENDAR_PENDING
    (pe_calendar_submitted_at pending) None = Inr p \<and> sp_proof_bytes p = pe_proof_bytes pending"
  using stamped [OF assms(1)] stamped_size [OF assms(1)] assms(2) by (simp add: make_stored_proof_def StoredProof_def)

end

lemma validate_proof_read: "validate_proof lib digest bs None = Inr () \<longleftrightarrow> (\<exists>parsed. read_exact lib digest bs = Inr parsed)"
  by (auto simp: validate_exact_proof_def bind_res_Inr_iff)

lemma stamp_validates:
  assumes "stamp_exact_digest cl urls submit now digest = Inr pending"
  shows "validate_proof (cl_lib cl) digest (pe_proof_bytes pending) None = Inr () \<and> pe_calendar_submitted_at pending = now"
  using assms unfolding validate_proof_read stamp_exact_digest_def Let_def
  by (auto simp: bind_res_Inr_iff split: if_splits)

lemma upgrade_nodes_validates:
  assumes "read_exact (cl_lib cl) digest bs = Inr parsed" "upgrade_nodes cl urls upgrade digest bs detached nodes = Inr bs'"
  shows "\<exists>parsed'. read_exact (cl_lib cl) digest bs' = Inr parsed'"
proof -
  obtain pending where pending: "upgrade_requests urls nodes = Inr pending"
    using assms(2) by (auto simp: upgrade_nodes_def bind_res_Inr_iff)
  show ?thesis
  proof (cases "pending = []")
    case True
    then show ?thesis using assms pending by (auto simp: upgrade_nodes_def)
  next
    case False
    then show ?thesis using assms(2) pending by (auto simp: upgrade_nodes_def bind_res_Inr_iff Let_def)
  qed
qed

lemma upgrade_exact_digest_returns:
  "upgrade_exact_digest cl urls upgrade digest bs =
     Some (case read_exact (cl_lib cl) digest bs of Inl e \<Rightarrow> Inl e
       | Inr parsed \<Rightarrow> upgrade_nodes cl urls upgrade digest bs (pp_detached parsed)
           (nodes_of ([], df_timestamp (pp_detached parsed))))"
  by (auto simp: upgrade_exact_digest_def walk_nodes split: sum.splits)

interpretation multi: exact_timestamper "cl_lib cl" "stamp_exact_digest cl urls submit now" "upgrade_exact_digest cl urls upgrade"
  for cl urls submit now upgrade
proof
  show "validate_proof (cl_lib cl) digest (pe_proof_bytes pending) None = Inr ()"
    if "stamp_exact_digest cl urls submit now digest = Inr pending" for digest pending
    using stamp_validates [OF that] by simp
  show "validate_proof (cl_lib cl) digest bs' None = Inr ()"
    if up: "upgrade_exact_digest cl urls upgrade digest bs = Some (Inr bs')" for digest bs bs'
  proof -
    obtain parsed where parsed: "read_exact (cl_lib cl) digest bs = Inr parsed"
      using up by (auto simp: upgrade_exact_digest_returns split: sum.splits)
    have "upgrade_nodes cl urls upgrade digest bs (pp_detached parsed) (nodes_of ([], df_timestamp (pp_detached parsed))) = Inr bs'"
      using up by (simp add: upgrade_exact_digest_returns parsed)
    then show ?thesis unfolding validate_proof_read by (rule upgrade_nodes_validates [OF parsed])
  qed
  show "upgrade_exact_digest cl urls upgrade digest bs \<noteq> None" for digest bs
    by (simp add: upgrade_exact_digest_returns)
qed

interpretation disabled: exact_timestamper lib disabled_stamp "\<lambda>digest bs. Some (disabled_upgrade digest bs)" for lib
  by unfold_locales (simp_all add: disabled_stamp_def disabled_upgrade_def)

text \<open>C20. Whatever the calendars answer, an upgrade returns; if it returns bytes, they are a proof of the digest that
  passes the exact validation, so the answer of a calendar cannot spoil the stored proof.\<close>

theorem upgrade_returns_exact_proof:
  "\<exists>result. upgrade_exact_digest cl urls upgrade digest bs = Some result \<and>
     (\<forall>bs'. result = Inr bs' \<longrightarrow> validate_proof (cl_lib cl) digest bs' None = Inr ())"
  by (rule multi.upgrade_answers)

text \<open>A stamp is a proof of the digest that the fulfillment can store: the first version made of it is never refused.\<close>

theorem stamp_is_storable:
  assumes "stamp_exact_digest cl urls submit now digest = Inr pending" "is_aware now"
  shows "\<exists>p. make_stored_proof (cl_lib cl) ref 1 digest (pe_proof_bytes pending) PS_CALENDAR_PENDING
    (pe_calendar_submitted_at pending) None = Inr p \<and> sp_proof_bytes p = pe_proof_bytes pending"
proof (rule multi.first_version_accepted [OF assms(1)])
  show "is_aware (pe_calendar_submitted_at pending)" using stamp_validates [OF assms(1)] assms(2) by simp
qed

text \<open>The timestamper among the services of the fulfillment: an upgrade returns, so the option is \<open>Some\<close>.\<close>

definition public_calendars :: "calendar_library \<Rightarrow> string list \<Rightarrow> calendar_net \<Rightarrow> datetime \<Rightarrow> services \<Rightarrow> services" where
  "public_calendars cl urls net now sv = sv\<lparr>sv_stamp := stamp_exact_digest cl urls (transport_submit net) now,
     sv_upgrade := \<lambda>digest bs. the (upgrade_exact_digest cl urls (transport_upgrade net) digest bs)\<rparr>"

section \<open>Calendars that fail\<close>

definition usable :: "calendar_library \<Rightarrow> bytes \<Rightarrow> exn + bytes \<Rightarrow> bool" where
  "usable cl target response =
     (case response of Inl e \<Rightarrow> False
      | Inr bs \<Rightarrow> (case timestamp_from_bytes cl target bs of Inl e \<Rightarrow> False | Inr t \<Rightarrow> True))"

lemma timestamp_from_bytes_Inl: "timestamp_from_bytes cl target bs = Inl e \<Longrightarrow> calendar_failure e"
  by (auto simp: timestamp_from_bytes_def split: if_splits option.splits sum.splits)

lemma merge_usable: "merge_responses cl target (filter (usable cl target) responses) t merged = merge_responses cl target responses t merged"
proof (induction responses arbitrary: t merged)
  case (Cons r responses)
  show ?case
  proof (cases r)
    case (Inl e)
    then show ?thesis using Cons by (simp add: usable_def)
  next
    case (Inr bs)
    then show ?thesis
      using Cons timestamp_from_bytes_Inl [of cl target bs]
      by (cases "timestamp_from_bytes cl target bs") (auto simp: usable_def split: option.splits prod.splits)
  qed
qed simp

text \<open>C24. A stamp is the one that the calendars with a usable response alone would have given: a calendar that fails, or
  whose response is not a timestamp of the digest, does not change it.\<close>

theorem failed_calendars_ignored:
  "stamp_exact_digest cl urls submit now digest =
     stamp_exact_digest cl (filter (\<lambda>url. usable cl (ots_target digest) (submit url (ots_target digest))) urls) submit now digest"
proof -
  have filtered: "filter (usable cl target) (map (\<lambda>url. submit url target) urls) = map (\<lambda>url. submit url target)
      (filter (\<lambda>url. usable cl target (submit url target)) urls)" for target
    by (simp add: filter_map comp_def)
  show ?thesis unfolding stamp_exact_digest_def Let_def filtered [symmetric] merge_usable ..
qed

lemma nothing_merged: "\<forall>answer \<in> set answers. \<exists>e. snd answer = Inl e \<Longrightarrow> merge_upgrades cl answers t changed = Inr (t, changed)"
proof (induction answers)
  case (Cons a answers)
  then obtain node e where "a = (node, Inl e)" by (cases a) auto
  then show ?case using Cons by simp
qed simp

text \<open>C25. A proof whose pending attestations stand on messages that are not of 32 bytes is never upgraded: the transport
  refuses the commitment before it asks a calendar, the refusal counts as a failed calendar, and the upgrade returns the proof as it
  was, whatever the network. An operation that appends or prepends bytes gives such a message.\<close>

theorem long_commitment_never_upgraded:
  assumes parsed: "read_exact (cl_lib cl) digest bs = Inr parsed"
    and long: "\<And>p n uri. node_at p (df_timestamp (pp_detached parsed)) = Some n \<Longrightarrow>
      PendingAttestation uri \<in> set (ts_attestations n) \<Longrightarrow> length (ts_msg n) \<noteq> 32"
    and few: "upgrade_requests urls (nodes_of ([], df_timestamp (pp_detached parsed))) = Inr pending"
  shows "upgrade_exact_digest cl urls (transport_upgrade net) digest bs = Some (Inr bs)"
proof -
  define t where "t = df_timestamp (pp_detached parsed)"
  define nodes where "nodes = nodes_of ([], t)"
  define answers where "answers = map (\<lambda>((msg, url), node). (node, transport_upgrade net url msg)) pending"
  have entries: "fst ` set pending = wanted_keys urls nodes"
    using few pending_by_key_facts [of nodes urls] by (auto simp: upgrade_requests_def nodes_def t_def Let_def split: if_splits)
  have refused: "length (fst (fst entry)) \<noteq> 32" if "entry \<in> set pending" for entry
  proof -
    have "fst entry \<in> wanted_keys urls nodes" using that entries by auto
    then obtain p n uri where "fst (fst entry) = ts_msg n" "(p, n) \<in> set nodes" "PendingAttestation uri \<in> set (ts_attestations n)"
      by (auto simp: wanted_keys_def)
    then show ?thesis using long [of p n uri] by (simp add: nodes_def nodes_of_iff t_def)
  qed
  have "\<exists>e. snd answer = Inl e" if "answer \<in> set answers" for answer
  proof -
    obtain msg url node where a: "((msg, url), node) \<in> set pending" "answer = (node, transport_upgrade net url msg)"
      using \<open>answer \<in> set answers\<close> by (auto simp: answers_def)
    then have "length msg \<noteq> 32" using refused [OF a(1)] by simp
    then show ?thesis by (simp add: a(2) transport_upgrade_def)
  qed
  then have "\<forall>answer \<in> set answers. \<exists>e. snd answer = Inl e" by blast
  then have merged: "merge_upgrades cl answers t False = Inr (t, False)" by (rule nothing_merged)
  show ?thesis
    using few merged
    by (simp add: upgrade_exact_digest_returns parsed upgrade_nodes_def nodes_def [symmetric] t_def [symmetric] answers_def [symmetric] Let_def)
qed


section \<open>Concrete runs\<close>

definition sample_url :: string where "sample_url = ''https://calendar-a.example/x/''"

lemma sample_url_valid: "validated_calendar_url ''https://Calendar-A.example/x//'' = Inr (sample_url, ''calendar-a.example'')"
  "validated_calendar_url sample_url = Inr (sample_url, ''calendar-a.example'')"
  by code_simp+

theorem calendar_url_normal_form_witness:
  "validated_calendar_url sample_url = Inr (sample_url, ''calendar-a.example'') \<and> \<not> literal_ip ''calendar-a.example''"
  using calendar_url_normal_form [OF sample_url_valid(1)] by simp

definition sample_address :: ip_address where
  "sample_address = \<lparr>ia_version = 4, ia_compressed = ''93.184.216.34'', ia_is_global = True, ia_is_multicast = False,
     ia_is_private = False, ia_is_loopback = False, ia_is_link_local = False, ia_is_reserved = False,
     ia_is_unspecified = False, ia_is_site_local = False\<rparr>"

definition sample_calendar_net :: calendar_net where
  "sample_calendar_net = \<lparr>cn_resolve = \<lambda>host port. Inr [''93.184.216.34''],
     cn_ip_address = \<lambda>a. if a = ''93.184.216.34'' then Some sample_address else None,
     cn_send = \<lambda>request. Inr \<lparr>cr_status = 200, cr_content_encoding = None, cr_chunks = [Inr [1], Inr [2]]\<rparr>\<rparr>"

lemma sample_url_split:
  "calendar_urlsplit sample_url = Inr \<lparr>su_scheme = ''https'', su_netloc = ''calendar-a.example'', su_path = ''/x/'', su_query = [], su_fragment = []\<rparr>"
  by code_simp

lemma sample_calendar_request:
  "calendar_request sample_calendar_net ''POST'' sample_url ''digest'' [7] False = Inr (Some [1, 2])"
  by (simp add: calendar_request_def prepare_request_def sample_url_valid sample_url_split sample_calendar_net_def vetted_public_addresses_def
      is_globally_routable_unicast_def sample_address_def read_response_def CALENDAR_RESPONSE_LIMIT_def)

theorem calendar_request_pinned_witness:
  "\<exists>request. rq_url request = ''https://93.184.216.34/x/digest'' \<and> rq_sni_hostname request = ''calendar-a.example'' \<and>
     rq_content request = [7] \<and> read_response False (cn_send sample_calendar_net request) = Inr (Some [1, 2])"
proof -
  have canonical: "\<forall>a ip. cn_ip_address sample_calendar_net a = Some ip \<longrightarrow>
      cn_ip_address sample_calendar_net (ia_compressed ip) = Some ip"
    by (auto simp: sample_calendar_net_def sample_address_def split: if_splits)
  obtain u host addresses ip path request where facts: "validated_calendar_url sample_url = Inr (u, host)" "u = ''https://'' @ host @ path"
    "cn_resolve sample_calendar_net host 443 = Inr addresses" "cn_ip_address sample_calendar_net (hd addresses) = Some ip"
    "rq_url request = ''https://'' @ authority ip @ path @ ''digest''" "rq_sni_hostname request = host" "rq_content request = [7]"
    "read_response False (cn_send sample_calendar_net request) = Inr (Some [1, 2])"
    using calendar_request_pinned [where net = sample_calendar_net, OF canonical sample_calendar_request] by blast
  have "u = sample_url" and host: "host = ''calendar-a.example''" using facts(1) by (simp_all add: sample_url_valid(2))
  then have "path = ''/x/''" using facts(2) by (simp add: sample_url_def)
  moreover have "ip = sample_address" using facts(3,4) by (auto simp: sample_calendar_net_def)
  ultimately have "rq_url request = ''https://93.184.216.34/x/digest'' \<and> rq_sni_hostname request = ''calendar-a.example''"
    using facts(5,6) host by (simp add: authority_def sample_address_def)
  then show ?thesis using facts(7,8) by blast
qed

text \<open>A proof whose pending attestation stands on the digest, and one where it stands on a longer message.\<close>

definition sample_node :: timestamp where
  "sample_node = Timestamp (replicate 32 0) [PendingAttestation ''https://calendar-a.example/x''] []"

definition sample_long_node :: timestamp where
  "sample_long_node = Timestamp (replicate 32 0) []
     [(OpAppend [7], Timestamp (replicate 32 0 @ [7]) [PendingAttestation ''https://calendar-a.example/x''] [])]"

fun sample_apply :: "ots_op \<Rightarrow> bytes \<Rightarrow> bytes" where
  "sample_apply (OpAppend arg) msg = msg @ arg"
| "sample_apply (OpPrepend arg) msg = arg @ msg"
| "sample_apply op msg = msg"

definition sample_calendar_library :: "timestamp \<Rightarrow> calendar_library" where
  "sample_calendar_library t = \<lparr>cl_lib = \<lparr>ots_sha256 = \<lambda>_. replicate 32 0, ots_apply = sample_apply,
       ots_parse = \<lambda>_. Some \<lparr>df_file_hash_op = OpSHA256, df_file_digest = replicate 32 0, df_timestamp = t\<rparr>\<rparr>,
     cl_parse_timestamp = \<lambda>msg response. Some (Timestamp msg [BitcoinBlockHeaderAttestation 3] []),
     cl_serialize = \<lambda>detached. [1, 2],
     cl_merge = \<lambda>t remote. (None, Timestamp (ts_msg t) (ts_attestations t @ ts_attestations remote) (ts_ops t))\<rparr>"

lemma sample_walk: "walk sample_node = Some [([], sample_node)]"
  by (simp add: walk_nodes nodes_of.simps children_of_def sample_node_def)

lemma sample_requests:
  "upgrade_requests [sample_url] [([], sample_node)] = Inr [((replicate 32 0, sample_url), ([], sample_node))]"
  by code_simp

theorem upgrade_requests_exact_witness:
  "node_at [] sample_node = Some sample_node \<and>
   {(ts_msg n, calendar_url uri) | p n uri. node_at p sample_node = Some n \<and>
      PendingAttestation uri \<in> set (ts_attestations n) \<and> calendar_url uri \<in> set [sample_url]} = {(replicate 32 0, sample_url)}"
proof
  have "set (map fst [((replicate 32 0, sample_url), ([] :: nat list, sample_node))]) = {(ts_msg n, calendar_url uri) | p n uri. node_at p sample_node = Some n \<and>
      PendingAttestation uri \<in> set (ts_attestations n) \<and> calendar_url uri \<in> set [sample_url]}" (is "_ = ?keys")
    using upgrade_requests_exact [OF sample_walk sample_requests] by blast
  then show "?keys = {(replicate 32 0, sample_url)}" by simp
qed simp

lemmas sample_read_defs = deserialize_exact_proof_def sample_calendar_library_def sample_node_def sample_long_node_def sample_zeros_def
  MAX_PROOF_BYTES_def validate_timestamp_tree_def ots_target_def MAX_ATTESTATIONS_def MAX_TIMESTAMP_NODES_def MAX_OPERATIONS_def
  MAX_PENDING_ATTESTATIONS_def MAX_OPERATION_ARGUMENT_BYTES_def

lemma sample_read: "bs = [5] \<or> bs = [1, 2] \<Longrightarrow> read_exact (cl_lib (sample_calendar_library sample_node)) sample_zeros bs = Inr
    \<lparr>pp_detached = \<lparr>df_file_hash_op = OpSHA256, df_file_digest = replicate 32 0, df_timestamp = sample_node\<rparr>,
     pp_node_count = 1, pp_operation_count = 0, pp_attestation_count = 1, pp_pending_attestation_count = 1\<rparr>"
  by (auto simp: sample_read_defs)

lemma sample_merge:
  "merge_upgrades (sample_calendar_library sample_node) [(([], sample_node), Inr (Some [9]))] sample_node False =
     Inr (Timestamp (replicate 32 0) [PendingAttestation ''https://calendar-a.example/x'', BitcoinBlockHeaderAttestation 3] [], True)"
  by (simp add: timestamp_from_bytes_def CALENDAR_RESPONSE_LIMIT_def sample_read_defs)

lemma sample_upgrade:
  "upgrade_exact_digest (sample_calendar_library sample_node) [sample_url] (\<lambda>url msg. Inr (Some [9])) sample_zeros [5] = Some (Inr [1, 2])"
proof -
  define changed where "changed = Timestamp (replicate 32 0)
    [PendingAttestation ''https://calendar-a.example/x'', BitcoinBlockHeaderAttestation 3] []"
  have "serialize_detached (ots_apply (cl_lib (sample_calendar_library sample_node))) (cl_serialize (sample_calendar_library sample_node))
      \<lparr>df_file_hash_op = OpSHA256, df_file_digest = replicate 32 0, df_timestamp = changed\<rparr> = Inr [1, 2]"
    by (simp add: serialize_detached_def changed_def sample_read_defs)
  then show ?thesis
    using sample_merge
    by (simp add: upgrade_exact_digest_def sample_read sample_walk upgrade_nodes_def sample_requests changed_def [symmetric]
        del: merge_upgrades.simps)
qed

theorem upgrade_returns_exact_proof_witness:
  "upgrade_exact_digest (sample_calendar_library sample_node) [sample_url] (\<lambda>url msg. Inr (Some [9])) sample_zeros [5] = Some (Inr [1, 2]) \<and>
   validate_proof (cl_lib (sample_calendar_library sample_node)) sample_zeros [1, 2] None = Inr ()"
  using upgrade_returns_exact_proof [of "sample_calendar_library sample_node" "[sample_url]" "\<lambda>url msg. Inr (Some [9])" sample_zeros "[5]"]
  by (simp add: sample_upgrade)

lemma sample_stamp:
  "stamp_exact_digest (sample_calendar_library sample_node) [sample_url, ''https://calendar-b.example/'']
     (\<lambda>url target. if url = sample_url then Inr [9] else Inl (CalendarUnavailable ''calendar_dns_unavailable'')) (Aware 7) sample_zeros =
   Inr \<lparr>pe_proof_bytes = [1, 2], pe_calendar_submitted_at = Aware 7\<rparr>"
  by (simp add: stamp_exact_digest_def new_detached_exact_digest_def timestamp_from_bytes_def serialize_detached_def
      CALENDAR_RESPONSE_LIMIT_def sample_url_def sample_read_defs)

theorem stamp_is_storable_witness:
  "\<exists>p. make_stored_proof (cl_lib (sample_calendar_library sample_node)) ''ts_01ARZ3NDEKTSV4RRFFQ69G5FAV'' 1 sample_zeros [1, 2]
     PS_CALENDAR_PENDING (Aware 7) None = Inr p \<and> sp_proof_bytes p = [1, 2]"
  using stamp_is_storable [OF sample_stamp] by simp

lemma sample_long_read: "read_exact (cl_lib (sample_calendar_library sample_long_node)) sample_zeros [5] = Inr
    \<lparr>pp_detached = \<lparr>df_file_hash_op = OpSHA256, df_file_digest = replicate 32 0, df_timestamp = sample_long_node\<rparr>,
     pp_node_count = 2, pp_operation_count = 1, pp_attestation_count = 1, pp_pending_attestation_count = 1\<rparr>"
  by (simp add: sample_read_defs)

lemma sample_long_nodes: "nodes_of ([], sample_long_node) =
   [([], sample_long_node), ([0], Timestamp (replicate 32 0 @ [7]) [PendingAttestation ''https://calendar-a.example/x''] [])]"
  by (simp add: nodes_of.simps children_of_def sample_long_node_def)

theorem long_commitment_never_upgraded_witness:
  "upgrade_exact_digest (sample_calendar_library sample_long_node) [sample_url] (transport_upgrade sample_calendar_net) sample_zeros [5] =
     Some (Inr [5]) \<and>
   upgrade_requests [sample_url] (nodes_of ([], sample_long_node)) =
     Inr [((replicate 32 0 @ [7], sample_url), ([0], Timestamp (replicate 32 0 @ [7]) [PendingAttestation ''https://calendar-a.example/x''] []))]"
    (is "?upgraded \<and> ?asked")
proof
  show asked: ?asked unfolding sample_long_nodes by code_simp
  have long: "length (ts_msg n) \<noteq> 32" if "node_at p sample_long_node = Some n" "PendingAttestation uri \<in> set (ts_attestations n)" for p n uri
  proof -
    have "(p, n) \<in> set (nodes_of ([], sample_long_node))" using that(1) by (simp add: nodes_of_iff)
    then have "n = sample_long_node \<or> ts_msg n = replicate 32 0 @ [7]" by (auto simp: sample_long_nodes)
    moreover have "ts_attestations sample_long_node = []" by (simp add: sample_long_node_def)
    ultimately show ?thesis using that(2) by auto
  qed
  show ?upgraded
  proof (rule long_commitment_never_upgraded [OF sample_long_read])
    fix p n uri
    assume "node_at p (df_timestamp (pp_detached \<lparr>pp_detached = \<lparr>df_file_hash_op = OpSHA256, df_file_digest = replicate 32 0,
        df_timestamp = sample_long_node\<rparr>, pp_node_count = 2, pp_operation_count = 1, pp_attestation_count = 1,
        pp_pending_attestation_count = 1\<rparr>)) = Some n" "PendingAttestation uri \<in> set (ts_attestations n)"
    then show "length (ts_msg n) \<noteq> 32" unfolding parsed_proof.simps detached_file.simps by (rule long)
  qed (use asked in \<open>simp only: parsed_proof.simps detached_file.simps\<close>)
qed

end
