(* ===== verification/Api.thy ===== *)
theory Api
  imports Runs Receipts Py_Values
begin

text \<open>
  The HTTP interface: the routes of \<open>api/routes.py\<close> with the checks of \<open>api/schemas.py\<close>, and the middleware of
  \<open>security/http.py\<close>. A route is an action on the database; \<open>HTTPException\<close> carries the status and the detail of an error
  response, and any other exception is an internal error. The parsing of a request into its fields is FastAPI's; what the models of
  \<open>schemas.py\<close> demand of the fields is written out. The normalisation of an e-mail address and the canonical JSON of a
  request body are parameters.
\<close>

section \<open>The services of the application\<close>

record app_services =
  ap_store :: "order_store option"
  ap_checkout :: "(payment_settings \<times> payment_provider) option"
  ap_webhook :: "(payment_settings \<times> payment_provider) option"
  ap_proof_store :: bool
  ap_proof_bundler :: "ots_library option"
  ap_task_dispatch :: "task_creator option"
  ap_product_version :: string
  ap_sha :: "bytes \<Rightarrow> bytes"

definition the_store :: "app_services \<Rightarrow> exn + order_store" where
  "the_store ap = (case ap_store ap of None \<Rightarrow> Inl (HTTPException 503 ''service unavailable'') | Some store \<Rightarrow> Inr store)"

definition unauthorized :: exn where
  "unauthorized = HTTPException 401 ''not authorized''"

definition bearer_token :: "string option \<Rightarrow> exn + string" where
  "bearer_token authorization =
     (case authorization of
        None \<Rightarrow> Inl unauthorized
      | Some header \<Rightarrow>
          if \<not> starts_with ''Bearer '' header \<or> length (filter (\<lambda>c. c = CHR '' '') header) \<noteq> 1 then Inl unauthorized
          else Inr (drop 7 header))"

text \<open>\<open>store.authenticate\<close> followed by the refusal of \<open>None\<close>.\<close>

definition authenticated :: "order_store \<Rightarrow> string \<Rightarrow> datetime \<Rightarrow> db \<Rightarrow> exn + order_row" where
  "authenticated store raw_token now d =
     bind_res (authenticate store raw_token now d) (\<lambda>found.
       case found of None \<Rightarrow> Inl unauthorized | Some (order, token) \<Rightarrow> Inr order)"

text \<open>\<open>except ValueError\<close> with an HTTP error.\<close>

definition value_error_as :: "exn \<Rightarrow> exn + 'a \<Rightarrow> exn + 'a" where
  "value_error_as http r = (case r of Inl e \<Rightarrow> Inl (if is_ValueError e then http else e) | Inr x \<Rightarrow> Inr x)"

section \<open>GET /v1/checkout/price and POST /v1/checkout\<close>

definition checkout_price :: "app_services \<Rightarrow> exn + int \<times> string" where
  "checkout_price ap =
     (case ap_checkout ap of
        None \<Rightarrow> Inl (HTTPException 503 ''checkout unavailable'')
      | Some (ps, pp) \<Rightarrow>
          (case get_checkout_price ps pp of
             Inl (CheckoutUnavailable _) \<Rightarrow> Inl (HTTPException 503 ''checkout unavailable'')
           | Inl (PaymentProviderError _) \<Rightarrow> Inl (HTTPException 503 ''checkout unavailable'')
           | Inl e \<Rightarrow> Inl e
           | Inr price \<Rightarrow>
               if \<not> (1 \<le> pr_amount_minor price \<and> pr_amount_minor price \<le> 100000000) \<or> pr_currency price \<noteq> ''usd''
               then Inl (ValueError ''CheckoutPriceResponse'')
               else Inr (pr_amount_minor price, pr_currency price)))"

record checkout_request =
  cq_certificate_reference :: string
  cq_manifest_sha256 :: string
  cq_email :: string
  cq_managed_timestamp :: bool
  cq_terms_version :: string
  cq_privacy_version :: string
  cq_accepted_at :: datetime

definition POLICY_VERSION :: "string \<Rightarrow> bool" where
  "POLICY_VERSION s = match_class (\<lambda>c. is_alnum c \<or> c \<in> set ''._-'') 1 32 s"

text \<open>The models \<open>CheckoutRequest\<close> and \<open>ConsentRequest\<close>; \<open>None\<close> is a validation error, answered with status 422.\<close>

definition CheckoutRequest :: "(string \<Rightarrow> string option) \<Rightarrow> checkout_request \<Rightarrow> checkout_request option" where
  "CheckoutRequest normalize_email q =
     (if \<not> CERTIFICATE (cq_certificate_reference q) \<or> \<not> LOWER_SHA256 (cq_manifest_sha256 q) \<or>
         \<not> (3 \<le> length (cq_email q) \<and> length (cq_email q) \<le> 254) \<or> \<not> cq_managed_timestamp q \<or>
         \<not> POLICY_VERSION (cq_terms_version q) \<or> \<not> POLICY_VERSION (cq_privacy_version q) \<or> \<not> is_aware (cq_accepted_at q)
      then None
      else (case normalize_email (cq_email q) of None \<Rightarrow> None | Some email \<Rightarrow> Some (q\<lparr>cq_email := email\<rparr>)))"

fun checkout_http :: "exn \<Rightarrow> exn" where
  "checkout_http (IdempotencyConflict _) = HTTPException 409 ''idempotency conflict''"
| "checkout_http (CheckoutInProgress _) = HTTPException 425 ''checkout processing''"
| "checkout_http (CheckoutUnavailable _) = HTTPException 503 ''checkout unavailable''"
| "checkout_http (PaymentProviderError _) = HTTPException 503 ''checkout unavailable''"
| "checkout_http e = (if is_ValueError e then HTTPException 400 ''invalid request'' else e)"

definition create_checkout ::
  "app_services \<Rightarrow> (checkout_request \<Rightarrow> exn + bytes) \<Rightarrow> (nat \<Rightarrow> uuid) \<Rightarrow> bytes \<Rightarrow> checkout_request \<Rightarrow> string option \<Rightarrow> datetime \<Rightarrow> int
     \<Rightarrow> bytes \<Rightarrow> datetime \<Rightarrow> checkout_output db_action" where
  "create_checkout ap canonical new_id token payload idempotency_key now ms random_bytes later =
     (case (ap_checkout ap, ap_store ap) of
        (Some (ps, pp), Some store) \<Rightarrow>
          (case idempotency_key of
             None \<Rightarrow> raise_act (HTTPException 400 ''invalid request'')
           | Some key \<Rightarrow>
               bind_act (catch_act
                 (bind_act (lift_act (bind_idempotency_request (ap_sha ap) canonical key ''POST'' ''/v1/checkout'' payload)) (\<lambda>binding.
                  bind_act (lift_act (digest_from_hex (cq_manifest_sha256 payload))) (\<lambda>digest.
                    checkout_create ps store pp new_id token
                      \<lparr>ci_certificate_reference = cq_certificate_reference payload, ci_manifest_digest = digest,
                       ci_email = cq_email payload, ci_terms_version = cq_terms_version payload,
                       ci_privacy_version = cq_privacy_version payload, ci_accepted_at = cq_accepted_at payload\<rparr>
                      binding now ms random_bytes later)))
                 (\<lambda>e. raise_act (checkout_http e))) (\<lambda>out.
               if ou_payment_state out \<noteq> CHECKOUT_OPEN \<or> ou_fulfillment_state out \<noteq> AWAITING_PAYMENT
               then raise_act (ValueError ''CheckoutResponse'') else return_act out))
      | _ \<Rightarrow> raise_act (HTTPException 503 ''checkout unavailable''))"

section \<open>POST /v1/webhooks/stripe\<close>

fun webhook_http :: "exn \<Rightarrow> exn" where
  "webhook_http (PaymentProviderError _) = HTTPException 400 ''invalid webhook''"
| "webhook_http e = (if is_ValueError e then HTTPException 400 ''invalid webhook'' else e)"

definition stripe_webhook ::
  "app_services \<Rightarrow> (nat \<Rightarrow> uuid) \<Rightarrow> bytes \<Rightarrow> string option \<Rightarrow> datetime \<Rightarrow> datetime \<Rightarrow> bool db_action" where
  "stripe_webhook ap new_id raw_body stripe_signature now later =
     (case (ap_webhook ap, stripe_signature) of
        (Some (ps, pp), Some signature) \<Rightarrow>
          bind_act (catch_act (process_webhook ps pp (ap_sha ap) new_id raw_body signature now later)
            (\<lambda>e. raise_act (webhook_http e))) (\<lambda>result.
          if \<not> wh_accepted result then raise_act (HTTPException 400 ''invalid webhook'')
          else (case ap_task_dispatch ap of
              None \<Rightarrow> return_act (wh_duplicate result)
            | Some create \<Rightarrow>
                bind_act (catch_act (reconcile create 100 None later)
                  (\<lambda>e. case e of TaskDispatchUnavailable _ \<Rightarrow> raise_act (HTTPException 503 ''webhook temporarily unavailable'')
                     | _ \<Rightarrow> raise_act e)) (\<lambda>_. return_act (wh_duplicate result))))
      | _ \<Rightarrow> raise_act (HTTPException 400 ''invalid webhook''))"

section \<open>GET /v1/orders/status\<close>

record order_status =
  sr_order_reference :: string
  sr_certificate_reference :: string
  sr_manifest_sha256 :: string
  sr_payment_state :: payment_state
  sr_fulfillment_state :: fulfillment_state
  sr_created_at :: datetime
  sr_updated_at :: datetime
  sr_calendar_submitted_at :: "datetime option"
  sr_bitcoin_verified_at :: "datetime option"
  sr_proof_available :: bool
  sr_message_code :: string

definition valid_bundle :: "(bytes \<Rightarrow> bytes) \<Rightarrow> bundle_row \<Rightarrow> bool" where
  "valid_bundle sha record \<longleftrightarrow>
     1 \<le> pb_bundle_byte_length record \<and> pb_bundle_byte_length record \<le> 12 * 1024 * 1024 \<and>
     pb_bundle_byte_length record = int (length (pb_bundle_bytes record)) \<and> sha (pb_bundle_bytes record) = pb_bundle_sha256 record"

definition find_sender :: "order_row \<Rightarrow> int \<Rightarrow> db \<Rightarrow> outbox_row option" where
  "find_sender order version d =
     find (\<lambda>r. om_order_id r = o_id order \<and>
       om_message_key r = ''bitcoin-confirmed-initial-v'' @ int_str version @ ''-'' @ o_order_reference order) (outbox d)"

definition valid_delivery_sender :: "outbox_row option \<Rightarrow> uuid \<Rightarrow> int \<Rightarrow> db \<Rightarrow> bool" where
  "valid_delivery_sender sender order_id proof_version d =
     (case sender of
        None \<Rightarrow> False
      | Some r \<Rightarrow>
          if om_kind r \<noteq> ''bitcoin-confirmed-initial'' \<or> om_state r \<noteq> OB_DELIVERED \<or> om_order_id r \<noteq> order_id \<or>
             om_proof_version r \<noteq> Some proof_version \<or>
             (case om_confirmation_count r of None \<Rightarrow> True | Some n \<Rightarrow> n < 1) \<or> om_confirmation_observation_id r = None \<or>
             om_provider_message_id r = None \<or> om_accepted_at r = None \<or> om_delivered_at r = None
          then False
          else (case find (\<lambda>ob. om_confirmation_observation_id r = Some (ob_id ob)) (confirmation_observations d) of
              None \<Rightarrow> False
            | Some observation \<Rightarrow>
                ob_order_id observation = order_id \<and> ob_proof_version observation = proof_version \<and>
                om_confirmation_count r = Some (ob_observed_confirmations observation) \<and>
                list_ex (\<lambda>e. om_provider_message_id r = Some (rw_provider_message_id e) \<and> rw_event_type e = ''email.delivered'')
                  (resend_webhook_events d)))"

fun message_code :: "fulfillment_state \<Rightarrow> string" where
  "message_code AWAITING_PAYMENT = ''payment_pending''"
| "message_code QUEUED = ''timestamp_queued''"
| "message_code STAMPING = ''timestamp_stamping''"
| "message_code CALENDAR_PENDING = ''bitcoin_confirmation_pending''"
| "message_code BITCOIN_VERIFIED = ''bitcoin_verified''"
| "message_code DELIVERED = ''proof_delivered''"
| "message_code MANUAL_REVIEW = ''manual_review''"

definition status_unavailable :: exn where
  "status_unavailable = HTTPException 503 ''status unavailable''"

text \<open>The part of an order with a proof: the submission time, the verification time, and whether a bundle can be had.\<close>

definition proof_status :: "app_services \<Rightarrow> order_row \<Rightarrow> db \<Rightarrow> exn + datetime option \<times> datetime option \<times> bool" where
  "proof_status ap order d =
     (if o_fulfillment_state order \<notin> {CALENDAR_PENDING, BITCOIN_VERIFIED, DELIVERED} then Inr (None, None, False)
      else if \<not> ap_proof_store ap then Inl status_unavailable
      else bind_res (value_error_as status_unavailable (latest_for_order (ap_sha ap) order d)) (\<lambda>latest.
        case latest of
          None \<Rightarrow> Inl status_unavailable
        | Some proof \<Rightarrow>
            if o_fulfillment_state order = CALENDAR_PENDING then
              (if sp_proof_state proof \<noteq> PS_CALENDAR_PENDING \<or> ap_proof_bundler ap = None then Inl status_unavailable
               else Inr (Some (sp_calendar_submitted_at proof), None, True))
            else
              (case sp_verification proof of
                 None \<Rightarrow> Inl status_unavailable
               | Some verification \<Rightarrow>
                   if sp_proof_state proof \<noteq> PS_BITCOIN_VERIFIED then Inl status_unavailable
                   else let available = (case find_bundle (o_id order) (sp_version proof) d of
                          None \<Rightarrow> False | Some record \<Rightarrow> valid_bundle (ap_sha ap) record)
                     in if o_fulfillment_state order = DELIVERED \<and>
                           (\<not> available \<or>
                            \<not> valid_delivery_sender (find_sender order (sp_version proof) d) (o_id order) (sp_version proof) d)
                        then Inl status_unavailable
                        else Inr (Some (sp_calendar_submitted_at proof), bv_verified_at verification, available))))"

definition order_status_of :: "app_services \<Rightarrow> string option \<Rightarrow> datetime \<Rightarrow> db \<Rightarrow> exn + order_status" where
  "order_status_of ap authorization now d =
     bind_res (the_store ap) (\<lambda>store.
     bind_res (bearer_token authorization) (\<lambda>raw_token.
     bind_res (authenticated store raw_token now d) (\<lambda>order.
     bind_res (proof_status ap order d) (\<lambda>(submitted_at, verified_at, available).
       Inr \<lparr>sr_order_reference = o_order_reference order, sr_certificate_reference = o_certificate_reference order,
            sr_manifest_sha256 = hex (o_manifest_digest order), sr_payment_state = o_payment_state order,
            sr_fulfillment_state = o_fulfillment_state order, sr_created_at = aware (o_created_at order),
            sr_updated_at = aware (o_updated_at order), sr_calendar_submitted_at = map_option aware submitted_at,
            sr_bitcoin_verified_at = map_option aware verified_at, sr_proof_available = available,
            sr_message_code = message_code (o_fulfillment_state order)\<rparr>))))"

definition order_status :: "app_services \<Rightarrow> string option \<Rightarrow> datetime \<Rightarrow> order_status db_action" where
  "order_status ap authorization now = read_act (order_status_of ap authorization now)"

section \<open>POST /v1/orders/rotate-token\<close>

definition rotate_token :: "app_services \<Rightarrow> bytes \<Rightarrow> string option \<Rightarrow> datetime \<Rightarrow> string db_action" where
  "rotate_token ap random authorization now =
     bind_act (lift_act (the_store ap)) (\<lambda>store.
     bind_act (lift_act (bearer_token authorization)) (\<lambda>raw_token.
       transaction (\<lambda>d. case authenticated store raw_token now d of
           Inl e \<Rightarrow> Inl e
         | Inr order \<Rightarrow> issue_token store random order now True d)))"

section \<open>GET /v1/orders/proof\<close>

definition proof_conflict :: exn where
  "proof_conflict = HTTPException 409 ''proof unavailable''"

definition proof_pending :: exn where
  "proof_pending = HTTPException 425 ''proof pending''"

text \<open>\<open>_receipt\<close>, as its items.\<close>

definition api_receipt :: "order_row \<Rightarrow> stored_proof \<Rightarrow> string \<Rightarrow> exn + (string \<times> pyval) list" where
  "api_receipt order p service_version =
     (if sp_target_digest p \<noteq> o_manifest_digest order then Inl proof_conflict
      else let receipt = [(''schema_version'', PStr ''1.0.0''),
             (''order_reference'', PStr (o_order_reference order)),
             (''certificate_reference'', PStr (o_certificate_reference order)),
             (''manifest_sha256'', PStr (hex (o_manifest_digest order))),
             (''proof_sha256'', PStr (hex (sp_proof_sha256 p))),
             (''proof_bytes'', PInt (int (length (sp_proof_bytes p)))),
             (''proof_state'', PStr (proof_state_value (sp_proof_state p))),
             (''calendar_submitted_at'', PStr (isoformat (sp_calendar_submitted_at p))),
             (''service_version'', PStr service_version)]
        in if sp_proof_state p = PS_BITCOIN_VERIFIED then
             (case sp_verification p of
                None \<Rightarrow> Inl proof_conflict
              | Some v \<Rightarrow>
                  (case (bv_block_height v, bv_block_hash v, bv_block_time v, bv_confirmation_policy v, bv_verified_at v) of
                     (Some height, Some bhash, Some time, Some policy, Some verified_at) \<Rightarrow>
                       Inr (receipt @
                         [(''bitcoin'', PDict [(''block_height'', PInt height), (''block_hash'', PStr bhash),
                             (''block_time'', PStr (isoformat time)), (''confirmation_policy'', PStr policy)]),
                          (''verification_method'', PStr (bv_method v)), (''verified_at'', PStr (isoformat verified_at))])
                   | _ \<Rightarrow> Inl proof_conflict))
           else Inr receipt)"

definition receipt_json :: "(string \<times> pyval) list \<Rightarrow> bytes" where
  "receipt_json receipt = ascii_bytes (receipt_text '','' '':'' receipt)"

text \<open>\<open>ProofMetadata\<close>, by the row it is read from, and \<open>SqlProofStore.latest_metadata\<close>.\<close>

definition latest_metadata :: "uuid \<Rightarrow> db \<Rightarrow> exn + proof_row option" where
  "latest_metadata order_id d =
     (case latest_proof order_id d of
        None \<Rightarrow> Inr None
      | Some row \<Rightarrow> bind_res (validate_metadata row) (\<lambda>_. Inr (Some row)))"

definition same_metadata :: "proof_row \<Rightarrow> proof_row \<Rightarrow> bool" where
  "same_metadata a b \<longleftrightarrow> pv_order_id a = pv_order_id b \<and> pv_version a = pv_version b \<and> pv_target_digest a = pv_target_digest b \<and>
     pv_proof_sha256 a = pv_proof_sha256 b \<and> pv_proof_byte_length a = pv_proof_byte_length b \<and>
     length (pv_proof_bytes a) = length (pv_proof_bytes b) \<and> pv_proof_state a = pv_proof_state b \<and>
     pv_calendar_submitted_at a = pv_calendar_submitted_at b"

definition pending_selection_is_current :: "order_row \<Rightarrow> proof_row \<Rightarrow> order_row \<Rightarrow> bool" where
  "pending_selection_is_current order selected first \<longleftrightarrow>
     o_id order = o_id first \<and> o_order_reference order = o_order_reference first \<and>
     o_certificate_reference order = o_certificate_reference first \<and> o_manifest_digest order = o_manifest_digest first \<and>
     o_fulfillment_state order = CALENDAR_PENDING \<and> pv_target_digest selected = o_manifest_digest first \<and>
     pv_proof_state selected = PS_CALENDAR_PENDING"

text \<open>\<open>_bundle_response\<close>: the content and the name of the file.\<close>

definition bundle_response :: "bytes \<Rightarrow> string \<Rightarrow> bytes \<times> string" where
  "bundle_response bundle order_reference = (bundle, order_reference @ ''-timestamp.zip'')"

text \<open>The first transaction: the stored bundle of a verified order, or what is needed to build one.\<close>

definition select_proof_tx ::
  "app_services \<Rightarrow> order_store \<Rightarrow> uuid \<Rightarrow> string \<Rightarrow> datetime \<Rightarrow> ((bytes \<times> string) + order_row \<times> stored_proof \<times> proof_row) db_tx" where
  "select_proof_tx ap store new_id raw_token now d =
     bind_res (authenticated store raw_token now d) (\<lambda>found.
     case find_order (o_id found) d of
       None \<Rightarrow> Inl unauthorized
     | Some order \<Rightarrow>
         if o_fulfillment_state order = MANUAL_REVIEW then Inl proof_conflict
         else if o_fulfillment_state order \<notin> {CALENDAR_PENDING, BITCOIN_VERIFIED, DELIVERED} then Inl proof_pending
         else bind_res (value_error_as proof_conflict (latest_for_order (ap_sha ap) order d)) (\<lambda>latest.
           case latest of
             None \<Rightarrow> Inl proof_pending
           | Some stored \<Rightarrow>
               if o_fulfillment_state order \<in> {BITCOIN_VERIFIED, DELIVERED} then
                 (if sp_proof_state stored \<noteq> PS_BITCOIN_VERIFIED \<or> sp_verification stored = None then Inl proof_conflict
                  else (case find_bundle (o_id order) (sp_version stored) d of
                      None \<Rightarrow> Inl proof_conflict
                    | Some record \<Rightarrow>
                        if \<not> valid_bundle (ap_sha ap) record then Inl proof_conflict
                        else bind_tx (record_download_event new_id (o_id order) (sp_version stored) (pb_bundle_sha256 record)
                               ''persisted_verified'' now) (\<lambda>_.
                             return_tx (Inl (bundle_response (pb_bundle_bytes record) (o_order_reference order)))) d))
               else if sp_proof_state stored \<noteq> PS_CALENDAR_PENDING then Inl proof_conflict
               else bind_res (latest_metadata (o_id order) d) (\<lambda>selected.
                 case selected of
                   None \<Rightarrow> Inl proof_pending
                 | Some row \<Rightarrow> Inr (Inr (order, stored, row), d))))"

text \<open>The second transaction: the order and the proof are still the selected ones, and the download is recorded.\<close>

definition confirm_proof_tx ::
  "app_services \<Rightarrow> order_store \<Rightarrow> uuid \<Rightarrow> string \<Rightarrow> order_row \<Rightarrow> stored_proof \<Rightarrow> proof_row \<Rightarrow> bytes \<Rightarrow> datetime \<Rightarrow> (bytes \<times> string) db_tx" where
  "confirm_proof_tx ap store new_id raw_token first stored selected bundle now d =
     bind_res (authenticated store raw_token now d) (\<lambda>found.
     case find_order (o_id found) d of
       None \<Rightarrow> Inl proof_conflict
     | Some order \<Rightarrow>
         if \<not> pending_selection_is_current order selected first then Inl proof_conflict
         else bind_res (value_error_as proof_conflict (latest_metadata (o_id order) d)) (\<lambda>current.
           case current of
             None \<Rightarrow> Inl proof_conflict
           | Some row \<Rightarrow>
               if \<not> same_metadata row selected then Inl proof_conflict
               else bind_tx (record_download_event new_id (o_id order) (sp_version stored) (ap_sha ap bundle)
                      ''generated_pending'' now) (\<lambda>_.
                    return_tx (bundle_response bundle (o_order_reference first))) d))"

text \<open>\<open>proof_bundle\<close>. The clocks of the two transactions are \<open>now\<close> and \<open>later\<close>.\<close>

definition proof_bundle ::
  "app_services \<Rightarrow> (nat \<Rightarrow> uuid) \<Rightarrow> string option \<Rightarrow> datetime \<Rightarrow> datetime \<Rightarrow> (bytes \<times> string) db_action" where
  "proof_bundle ap new_id authorization now later =
     bind_act (lift_act (the_store ap)) (\<lambda>store.
     bind_act (lift_act (bearer_token authorization)) (\<lambda>raw_token.
       if \<not> ap_proof_store ap then raise_act (HTTPException 503 ''proof unavailable'')
       else bind_act (transaction (select_proof_tx ap store (new_id 0) raw_token now)) (\<lambda>selection.
         case selection of
           Inl response \<Rightarrow> return_act response
         | Inr (order, stored, selected) \<Rightarrow>
             (case ap_proof_bundler ap of
                None \<Rightarrow> raise_act proof_conflict
              | Some lib \<Rightarrow>
                  bind_act (lift_act (api_receipt order stored (ap_product_version ap))) (\<lambda>receipt.
                  bind_act (lift_act (bind_res (CertificateReference (o_certificate_reference order)) (\<lambda>certificate.
                    ProofBundleContext \<lparr>bc_certificate_reference = certificate, bc_service_version = ap_product_version ap\<rparr>))) (\<lambda>c.
                  bind_act (lift_act (bundler_build lib stored (receipt_json receipt) c)) (\<lambda>bundle.
                    transaction (confirm_proof_tx ap store (new_id 1) raw_token order stored selected bundle later))))))))"


section \<open>security/http.py\<close>

definition body_limit :: "string \<Rightarrow> string \<Rightarrow> nat option" where
  "body_limit method_name path =
     (if method_name \<noteq> ''POST'' then None
      else if path = ''/v1/checkout'' then Some (4 * 1024)
      else if path = ''/v1/webhooks/stripe'' \<or> path = ''/v1/webhooks/resend'' then Some (256 * 1024)
      else None)"

definition media_type :: "string option \<Rightarrow> string" where
  "media_type content_type =
     str_lower (strip_chars is_py_space (fst (split_at (CHR '';'') (case content_type of None \<Rightarrow> [] | Some s \<Rightarrow> s))))"

text \<open>The checks of \<open>HttpSecurityMiddleware\<close> before the application sees the request, and the limit on its body.\<close>

definition admit_request :: "string \<Rightarrow> string \<Rightarrow> string option \<Rightarrow> string option \<Rightarrow> exn + nat option" where
  "admit_request method_name path content_type content_length =
     (case body_limit method_name path of
        None \<Rightarrow> Inr None
      | Some limit \<Rightarrow>
          if media_type content_type \<noteq> ''application/json'' then Inl (HTTPException 415 ''unsupported media type'')
          else (case int_of_text (case content_length of None \<Rightarrow> ''0'' | Some s \<Rightarrow> s) of
              None \<Rightarrow> Inl (HTTPException 400 ''invalid request'')
            | Some n \<Rightarrow> if int limit < n then Inl (HTTPException 413 ''request body too large'') else Inr (Some limit)))"

text \<open>\<open>limited_receive\<close> on the chunks of a body: what the application gets, and whether \<open>BodyLimitExceeded\<close> ends it.\<close>

fun limited_receive :: "nat option \<Rightarrow> nat \<Rightarrow> bytes list \<Rightarrow> bytes list \<times> bool" where
  "limited_receive limit received [] = ([], False)"
| "limited_receive limit received (chunk # chunks) =
     (case limit of
        None \<Rightarrow> (case limited_receive limit received chunks of (rest, exceeded) \<Rightarrow> (chunk # rest, exceeded))
      | Some n \<Rightarrow>
          let received = received + length chunk in
          if n < received then ([], True)
          else (case limited_receive limit received chunks of (rest, exceeded) \<Rightarrow> (chunk # rest, exceeded)))"

definition SECURITY_HEADERS :: "(string \<times> string) list" where
  "SECURITY_HEADERS =
     [(''cache-control'', ''no-store''),
      (''content-security-policy'', ''default-src '' @ [CHR 0x27] @ ''none'' @ [CHR 0x27] @
         ''; frame-ancestors '' @ [CHR 0x27] @ ''none'' @ [CHR 0x27]),
      (''permissions-policy'', ''camera=(), microphone=(), geolocation=()''),
      (''referrer-policy'', ''no-referrer''),
      (''strict-transport-security'', ''max-age=31536000; includeSubDomains''),
      (''cross-origin-resource-policy'', ''same-origin''),
      (''x-content-type-options'', ''nosniff''),
      (''x-frame-options'', ''DENY'')]"

text \<open>\<open>secure_send\<close>: the headers of a response that starts.\<close>

definition secure_headers :: "string \<Rightarrow> (string \<times> string) list \<Rightarrow> (string \<times> string) list" where
  "secure_headers path headers =
     (let existing = map (\<lambda>(key, value). str_lower key) headers;
          all = headers @ filter (\<lambda>(key, value). key \<notin> set existing) SECURITY_HEADERS
      in if path = ''/v1/meteorites/metbull''
         then map (\<lambda>(key, value). (key, if str_lower key = ''cross-origin-resource-policy'' then ''cross-origin'' else value)) all
         else all)"

record rate_limits =
  rl_checkout :: int
  rl_checkout_price :: int
  rl_webhook :: int
  rl_resend_webhook :: int
  rl_status :: int
  rl_proof :: int
  rl_rotation :: int
  rl_metbull :: int

definition rate_policy :: "rate_limits \<Rightarrow> string \<Rightarrow> string \<Rightarrow> (string \<times> int) option" where
  "rate_policy rl method_name path = map_of
     [((''POST'', ''/v1/checkout''), (''checkout'', rl_checkout rl)),
      ((''GET'', ''/v1/checkout/price''), (''checkout_price'', rl_checkout_price rl)),
      ((''POST'', ''/v1/webhooks/stripe''), (''webhook'', rl_webhook rl)),
      ((''POST'', ''/v1/webhooks/resend''), (''resend_webhook'', rl_resend_webhook rl)),
      ((''GET'', ''/v1/orders/status''), (''status'', rl_status rl)),
      ((''GET'', ''/v1/orders/proof''), (''proof'', rl_proof rl)),
      ((''POST'', ''/v1/orders/rotate-token''), (''rotation'', rl_rotation rl)),
      ((''GET'', ''/v1/meteorites/metbull''), (''metbull'', rl_metbull rl))] (method_name, path)"

text \<open>\<open>_client_address\<close>. \<open>parse_ip\<close> is \<open>str(ip_address(_))\<close>, \<open>None\<close> its \<open>ValueError\<close>.\<close>

definition client_address :: "(string \<Rightarrow> string option) \<Rightarrow> string option \<Rightarrow> string option \<Rightarrow> string list \<Rightarrow> string" where
  "client_address parse_ip client forwarded_for trusted_proxies =
     (let direct = (case client of None \<Rightarrow> ''unknown'' | Some host \<Rightarrow> host) in
      if direct \<notin> set trusted_proxies then direct
      else (case parse_ip (strip_chars is_py_space (fst (split_at (CHR '','') (case forwarded_for of None \<Rightarrow> [] | Some s \<Rightarrow> s)))) of
          None \<Rightarrow> direct
        | Some address \<Rightarrow> address))"

text \<open>\<open>RateLimitMiddleware.dispatch\<close> around the rest of the application.\<close>

definition rate_limited ::
  "(bytes \<Rightarrow> bytes \<Rightarrow> bytes) \<Rightarrow> bytes \<Rightarrow> rate_limits \<Rightarrow> string \<Rightarrow> string \<Rightarrow> string \<Rightarrow> datetime \<Rightarrow> 'a db_action \<Rightarrow> 'a db_action" where
  "rate_limited hmac secret rl method_name path address now call_next =
     (case rate_policy rl method_name path of
        None \<Rightarrow> call_next
      | Some (endpoint, limit) \<Rightarrow>
          bind_act (transaction (hit hmac secret endpoint address now limit)) (\<lambda>ok.
            if \<not> ok then raise_act (HTTPException 429 ''rate limit exceeded'') else call_next))"

definition safe_path :: "string \<Rightarrow> string" where
  "safe_path path =
     (if path \<in> set [''/v1/checkout'', ''/v1/checkout/price'', ''/v1/webhooks/stripe'', ''/v1/webhooks/resend'', ''/v1/orders/status'',
           ''/v1/orders/proof'', ''/v1/orders/rotate-token'', ''/v1/meteorites/metbull'', ''/health/live'', ''/health/ready'',
           ''/docs'', ''/openapi.json'']
      then path else ''unmatched'')"


section \<open>Who is answered\<close>

lemma bearer_token_Inr: "bearer_token authorization = Inr raw \<Longrightarrow> authorization = Some (''Bearer '' @ raw) \<and> CHR '' '' \<notin> set raw"
proof -
  assume token: "bearer_token authorization = Inr raw"
  then obtain header where header: "authorization = Some header" "starts_with ''Bearer '' header" "raw = drop 7 header"
    "length (filter (\<lambda>c. c = CHR '' '') header) = 1"
    by (auto simp: bearer_token_def split: option.splits if_splits)
  then have "take 7 header = ''Bearer ''" by (simp add: starts_with_def numeral_eq_Suc)
  then have all: "header = ''Bearer '' @ raw" using header(3) by (metis append_take_drop_id)
  then have "length (filter (\<lambda>c. c = CHR '' '') raw) = 0" using header(4) by simp
  then show ?thesis using header(1) all by (auto simp: filter_empty_conv)
qed

lemma authenticated_row:
  assumes "authenticated store raw now d = Inr order"
  shows "find_order (o_id order) d = Some order" "\<exists>token. authenticate store raw now d = Inr (Some (order, token))"
proof -
  obtain token where token: "authenticate store raw now d = Inr (Some (order, token))"
    using assms by (auto simp: authenticated_def bind_res_Inr_iff split: option.splits)
  then show "\<exists>token. authenticate store raw now d = Inr (Some (order, token))" by blast
  have "find_order (tk_order_id token) d = Some order" using authenticate_SomeD(5) [OF token] .
  moreover from this have "o_id order = tk_order_id token" by (auto simp: find_order_def dest: find_SomeD)
  ultimately show "find_order (o_id order) d = Some order" by simp
qed

lemma the_store_Inr: "the_store ap = Inr store \<longleftrightarrow> ap_store ap = Some store"
  by (auto simp: the_store_def split: option.splits)

lemma value_error_as_Inr [simp]: "value_error_as http r = Inr x \<longleftrightarrow> r = Inr x"
  by (cases r) (simp_all add: value_error_as_def)

section \<open>What a status says\<close>

text \<open>What is recorded of a delivered proof: its bundle with the hash of its bytes, the initial message about it with the
  confirmations of an observation of this proof, and the mail provider's event for this very message.\<close>

definition bundle_recorded :: "(bytes \<Rightarrow> bytes) \<Rightarrow> uuid \<Rightarrow> int \<Rightarrow> db \<Rightarrow> bool" where
  "bundle_recorded sha i version d \<longleftrightarrow>
     (\<exists>b \<in> set (proof_bundles d). pb_order_id b = i \<and> pb_proof_version b = version \<and> pb_bundle_bytes b \<noteq> [] \<and>
       length (pb_bundle_bytes b) \<le> 12 * 1024 * 1024 \<and> sha (pb_bundle_bytes b) = pb_bundle_sha256 b)"

definition delivery_recorded :: "uuid \<Rightarrow> int \<Rightarrow> db \<Rightarrow> bool" where
  "delivery_recorded i version d \<longleftrightarrow>
     (\<exists>m \<in> set (outbox d). \<exists>ob \<in> set (confirmation_observations d). \<exists>e \<in> set (resend_webhook_events d).
       om_order_id m = i \<and> om_kind m = ''bitcoin-confirmed-initial'' \<and> om_state m = OB_DELIVERED \<and> om_proof_version m = Some version \<and>
       om_accepted_at m \<noteq> None \<and> om_delivered_at m \<noteq> None \<and>
       om_confirmation_observation_id m = Some (ob_id ob) \<and> ob_order_id ob = i \<and> ob_proof_version ob = version \<and>
       om_confirmation_count m = Some (ob_observed_confirmations ob) \<and> 1 \<le> ob_observed_confirmations ob \<and>
       om_provider_message_id m = Some (rw_provider_message_id e) \<and> rw_event_type e = ''email.delivered'')"

lemma valid_delivery_recorded:
  assumes "valid_delivery_sender (find_sender order version d) i version d"
  shows "delivery_recorded i version d"
proof -
  obtain m where m: "find_sender order version d = Some m" using assms by (auto simp: valid_delivery_sender_def split: option.splits)
  then have member: "m \<in> set (outbox d)" by (auto simp: find_sender_def dest: find_SomeD)
  note step = assms [unfolded valid_delivery_sender_def m option.case]
  have front: "om_kind m = ''bitcoin-confirmed-initial''" "om_state m = OB_DELIVERED" "om_order_id m = i"
    "om_proof_version m = Some version" "om_accepted_at m \<noteq> None" "om_delivered_at m \<noteq> None"
    "\<exists>n. om_confirmation_count m = Some n \<and> 1 \<le> n"
    using step by (auto split: if_splits option.splits)
  obtain ob where ob: "find (\<lambda>ob. om_confirmation_observation_id m = Some (ob_id ob)) (confirmation_observations d) = Some ob"
    and rest: "ob_order_id ob = i" "ob_proof_version ob = version" "om_confirmation_count m = Some (ob_observed_confirmations ob)"
    "list_ex (\<lambda>e. om_provider_message_id m = Some (rw_provider_message_id e) \<and> rw_event_type e = ''email.delivered'') (resend_webhook_events d)"
    using step by (auto split: if_splits option.splits)
  obtain e where "e \<in> set (resend_webhook_events d)" "om_provider_message_id m = Some (rw_provider_message_id e)"
    "rw_event_type e = ''email.delivered''"
    using rest(4) by (auto simp: list_ex_iff)
  then show ?thesis
    unfolding delivery_recorded_def
    using member front rest find_SomeD [OF ob] by (intro bexI [of _ m] bexI [of _ ob] bexI [of _ e] conjI) auto
qed

lemma valid_bundle_recorded:
  assumes "find_bundle i version d = Some b" "valid_bundle sha b"
  shows "bundle_recorded sha i version d"
  using find_SomeD [OF assms(1) [unfolded find_bundle_def]] assms(2) unfolding bundle_recorded_def valid_bundle_def
  by (intro bexI [of _ b]) auto

lemma proof_status_cases:
  assumes "proof_status ap order d = Inr (submitted_at, verified_at, available)"
  obtains (none) "verified_at = None" "o_fulfillment_state order \<notin> {BITCOIN_VERIFIED, DELIVERED}"
      "available \<Longrightarrow> o_fulfillment_state order = CALENDAR_PENDING"
  | (verified) p v where "o_fulfillment_state order \<in> {BITCOIN_VERIFIED, DELIVERED}"
      "latest_for_order (ap_sha ap) order d = Inr (Some p)" "sp_proof_state p = PS_BITCOIN_VERIFIED" "sp_verification p = Some v"
      "bv_verified_at v = verified_at" "available \<Longrightarrow> bundle_recorded (ap_sha ap) (o_id order) (sp_version p) d"
      "o_fulfillment_state order = DELIVERED \<Longrightarrow> available \<and> delivery_recorded (o_id order) (sp_version p) d"
proof (cases "o_fulfillment_state order \<in> {BITCOIN_VERIFIED, DELIVERED}")
  case True
  have "\<exists>p. latest_for_order (ap_sha ap) order d = Inr (Some p)"
  proof (cases "latest_for_order (ap_sha ap) order d")
    case (Inl e)
    then show ?thesis using assms True by (auto simp: proof_status_def value_error_as_def split: if_splits)
  next
    case (Inr latest)
    then show ?thesis using assms True by (cases latest) (auto simp: proof_status_def value_error_as_def split: if_splits)
  qed
  then obtain p where p: "latest_for_order (ap_sha ap) order d = Inr (Some p)" by blast
  note status = assms [unfolded proof_status_def p value_error_as_def sum.case bind_res_simps option.case]
  obtain v where v: "sp_verification p = Some v"
    using status True by (cases "sp_verification p") (auto split: if_splits)
  have available: "available = (case find_bundle (o_id order) (sp_version p) d of None \<Rightarrow> False | Some b \<Rightarrow> valid_bundle (ap_sha ap) b)"
    using status True by (auto simp: v Let_def split: if_splits)
  have "o_fulfillment_state order = DELIVERED \<Longrightarrow>
      available \<and> valid_delivery_sender (find_sender order (sp_version p) d) (o_id order) (sp_version p) d"
    using status True by (auto simp: v Let_def available split: if_splits)
  then show ?thesis
    using status True available valid_bundle_recorded [of "o_id order" "sp_version p" d]
    by (intro verified [OF True p _ v])
      (auto simp: v Let_def dest: valid_delivery_recorded split: if_splits option.splits)
next
  case False
  then show ?thesis
    using assms by (intro none) (auto simp: proof_status_def bind_res_Inr_iff split: if_splits option.splits)
qed

text \<open>C28. The status endpoint answers only the bearer of a token of the order, and it does not claim more than what is recorded.
  An order in a verified state has a verified latest proof, whose verification time is the one that is shown, and no other order
  shows one. A proof is shown as available for a pending order, or when the bundle of this very proof is stored with the hash of
  its bytes. An order that is shown as delivered has that bundle, a delivered initial message about this proof with the
  confirmations of a recorded observation of it, and the mail provider's delivery event for that message.\<close>

theorem status_claims_recorded:
  assumes "order_status_of ap authorization now d = Inr s"
  shows "\<exists>store raw order token. ap_store ap = Some store \<and> authorization = Some (''Bearer '' @ raw) \<and>
    authenticate store raw now d = Inr (Some (order, token)) \<and>
    sr_order_reference s = o_order_reference order \<and> sr_payment_state s = o_payment_state order \<and>
    sr_fulfillment_state s = o_fulfillment_state order \<and> sr_manifest_sha256 s = hex (o_manifest_digest order) \<and>
    (if sr_fulfillment_state s \<in> {BITCOIN_VERIFIED, DELIVERED} then
       (\<exists>proof v. latest_for_order (ap_sha ap) order d = Inr (Some proof) \<and> sp_proof_state proof = PS_BITCOIN_VERIFIED \<and>
          sp_verification proof = Some v \<and> sr_bitcoin_verified_at s = map_option aware (bv_verified_at v) \<and>
          (sr_proof_available s \<longrightarrow> bundle_recorded (ap_sha ap) (o_id order) (sp_version proof) d) \<and>
          (sr_fulfillment_state s = DELIVERED \<longrightarrow>
             bundle_recorded (ap_sha ap) (o_id order) (sp_version proof) d \<and> delivery_recorded (o_id order) (sp_version proof) d))
     else sr_bitcoin_verified_at s = None \<and> (sr_proof_available s \<longrightarrow> sr_fulfillment_state s = CALENDAR_PENDING))"
proof -
  obtain store raw order submitted_at verified_at available where parts: "the_store ap = Inr store"
    "bearer_token authorization = Inr raw" "authenticated store raw now d = Inr order"
    "proof_status ap order d = Inr (submitted_at, verified_at, available)"
    "s = \<lparr>sr_order_reference = o_order_reference order, sr_certificate_reference = o_certificate_reference order,
          sr_manifest_sha256 = hex (o_manifest_digest order), sr_payment_state = o_payment_state order,
          sr_fulfillment_state = o_fulfillment_state order, sr_created_at = aware (o_created_at order),
          sr_updated_at = aware (o_updated_at order), sr_calendar_submitted_at = map_option aware submitted_at,
          sr_bitcoin_verified_at = map_option aware verified_at, sr_proof_available = available,
          sr_message_code = message_code (o_fulfillment_state order)\<rparr>"
    using assms by (auto simp: order_status_of_def bind_res_Inr_iff)
  obtain token where token: "authenticate store raw now d = Inr (Some (order, token))"
    using authenticated_row(2) [OF parts(3)] by blast
  have store: "ap_store ap = Some store" "authorization = Some (''Bearer '' @ raw)"
    using parts(1) bearer_token_Inr [OF parts(2)] by (simp_all add: the_store_Inr)
  from parts(4) show ?thesis
  proof (cases rule: proof_status_cases)
    case none
    then show ?thesis
      using store token by (intro exI [of _ store] exI [of _ raw] exI [of _ order] exI [of _ token]) (simp add: parts(5))
  next
    case (verified p v)
    then have "\<exists>proof v. latest_for_order (ap_sha ap) order d = Inr (Some proof) \<and> sp_proof_state proof = PS_BITCOIN_VERIFIED \<and>
        sp_verification proof = Some v \<and> map_option aware verified_at = map_option aware (bv_verified_at v) \<and>
        (available \<longrightarrow> bundle_recorded (ap_sha ap) (o_id order) (sp_version proof) d) \<and>
        (o_fulfillment_state order = DELIVERED \<longrightarrow>
           bundle_recorded (ap_sha ap) (o_id order) (sp_version proof) d \<and> delivery_recorded (o_id order) (sp_version proof) d)"
      by blast
    then show ?thesis
      using store token verified(1)
      by (intro exI [of _ store] exI [of _ raw] exI [of _ order] exI [of _ token]) (simp add: parts(5))
  qed
qed

section \<open>Downloads\<close>

lemma record_download_Inr:
  assumes "record_download_event new_id order_id v artifact kind now d = Inr (u, d')"
  shows "\<exists>ev. d' = d\<lparr>state_events := state_events d @ [ev]\<rparr> \<and> ev_order_id ev = order_id \<and> ev_source ev = ''customer_download'' \<and>
    ev_evidence ev = DownloadEvidence v (hex artifact) kind"
proof -
  obtain order where order: "find_order order_id d = Some order" "o_id order = order_id"
    using assms by (auto simp: record_download_event_def find_order_def dest: find_SomeD split: if_splits option.splits)
  define ev where "ev = \<lparr>ev_order_id = o_id order, ev_sequence = next_sequence (o_id order) d,
              ev_event_key = ''download:'' @ uuid_str new_id, ev_source = ''customer_download'',
              ev_previous_payment_state = Some (o_payment_state order), ev_payment_state = o_payment_state order,
              ev_previous_fulfillment_state = Some (o_fulfillment_state order),
              ev_fulfillment_state = o_fulfillment_state order,
              ev_evidence = DownloadEvidence v (hex artifact) kind, ev_created_at = now\<rparr>"
  have "insert_state_event ev d = Inr (u, d')"
    using assms order(1) by (simp add: record_download_event_def ev_def split: if_splits)
  then have "d' = d\<lparr>state_events := state_events d @ [ev]\<rparr>" by (auto simp: insert_state_event_def split: if_splits)
  moreover have "ev_order_id ev = order_id" "ev_source ev = ''customer_download''" "ev_evidence ev = DownloadEvidence v (hex artifact) kind"
    by (simp_all add: ev_def order(2))
  ultimately show ?thesis by blast
qed

lemma select_proof_cases:
  assumes "select_proof_tx ap store new_id raw now d = Inr (selection, d')"
  obtains (stored) order p row where "authenticated store raw now d = Inr order"
      "o_fulfillment_state order \<in> {BITCOIN_VERIFIED, DELIVERED}"
      "find_bundle (o_id order) (sp_version p) d = Some row" "valid_bundle (ap_sha ap) row"
      "latest_for_order (ap_sha ap) order d = Inr (Some p)"
      "record_download_event new_id (o_id order) (sp_version p) (pb_bundle_sha256 row) ''persisted_verified'' now d = Inr ((), d')"
      "selection = Inl (pb_bundle_bytes row, o_order_reference order @ ''-timestamp.zip'')"
  | (pending) order p row where "authenticated store raw now d = Inr order" "o_fulfillment_state order = CALENDAR_PENDING"
      "latest_for_order (ap_sha ap) order d = Inr (Some p)" "sp_proof_state p = PS_CALENDAR_PENDING"
      "selection = Inr (order, p, row)" "d' = d"
proof -
  obtain order where found: "authenticated store raw now d = Inr order"
    using assms by (auto simp: select_proof_tx_def bind_res_Inr_iff)
  have row: "find_order (o_id order) d = Some order" using authenticated_row(1) [OF found] .
  note step1 = assms [unfolded select_proof_tx_def found bind_res_simps row option.case]
  have state: "o_fulfillment_state order \<in> {CALENDAR_PENDING, BITCOIN_VERIFIED, DELIVERED}" using step1 by (auto split: if_splits)
  then have "o_fulfillment_state order \<noteq> MANUAL_REVIEW" by auto
  then have step2: "bind_res (value_error_as proof_conflict (latest_for_order (ap_sha ap) order d)) (\<lambda>latest.
           case latest of
             None \<Rightarrow> Inl proof_pending
           | Some stored \<Rightarrow>
               if o_fulfillment_state order \<in> {BITCOIN_VERIFIED, DELIVERED} then
                 (if sp_proof_state stored \<noteq> PS_BITCOIN_VERIFIED \<or> sp_verification stored = None then Inl proof_conflict
                  else (case find_bundle (o_id order) (sp_version stored) d of
                      None \<Rightarrow> Inl proof_conflict
                    | Some record \<Rightarrow>
                        if \<not> valid_bundle (ap_sha ap) record then Inl proof_conflict
                        else bind_tx (record_download_event new_id (o_id order) (sp_version stored) (pb_bundle_sha256 record)
                               ''persisted_verified'' now) (\<lambda>_.
                             return_tx (Inl (bundle_response (pb_bundle_bytes record) (o_order_reference order)))) d))
               else if sp_proof_state stored \<noteq> PS_CALENDAR_PENDING then Inl proof_conflict
               else bind_res (latest_metadata (o_id order) d) (\<lambda>selected.
                 case selected of
                   None \<Rightarrow> Inl proof_pending
                 | Some row \<Rightarrow> Inr (Inr (order, stored, row), d))) = Inr (selection, d')"
    using step1 state by (simp only: if_False not_not simp_thms if_True)
  have "\<exists>p. latest_for_order (ap_sha ap) order d = Inr (Some p)"
  proof (cases "latest_for_order (ap_sha ap) order d")
    case (Inl e)
    then show ?thesis using step2 by (simp add: value_error_as_def)
  next
    case (Inr latest)
    then show ?thesis using step2 by (cases latest) (simp_all add: value_error_as_def)
  qed
  then obtain p where p: "latest_for_order (ap_sha ap) order d = Inr (Some p)" by blast
  note step3 = step2 [unfolded p value_error_as_def sum.case bind_res_simps option.case]
  show thesis
  proof (cases "o_fulfillment_state order = CALENDAR_PENDING")
    case True
    have calendar: "sp_proof_state p = PS_CALENDAR_PENDING" using step3 True by (simp split: if_splits)
    obtain r where r: "latest_metadata (o_id order) d = Inr (Some r)"
    proof (cases "latest_metadata (o_id order) d")
      case (Inl e)
      then show ?thesis using step3 True calendar by simp
    next
      case (Inr latest)
      then show ?thesis using step3 True calendar that by (cases latest) simp_all
    qed
    show ?thesis using step3 True calendar r by (intro pending [OF found True p calendar, of r]) simp_all
  next
    case False
    then have verified: "o_fulfillment_state order \<in> {BITCOIN_VERIFIED, DELIVERED}" using state by auto
    note step4 = step3 [unfolded if_P [OF verified]]
    have good: "sp_proof_state p = PS_BITCOIN_VERIFIED" "sp_verification p \<noteq> None" using step4 by (auto split: if_splits)
    obtain b where b: "find_bundle (o_id order) (sp_version p) d = Some b"
      using step4 good by (cases "find_bundle (o_id order) (sp_version p) d") simp_all
    have valid: "valid_bundle (ap_sha ap) b" using step4 good b by (simp split: if_splits)
    have "bind_tx (record_download_event new_id (o_id order) (sp_version p) (pb_bundle_sha256 b) ''persisted_verified'' now)
        (\<lambda>_. return_tx (Inl (bundle_response (pb_bundle_bytes b) (o_order_reference order)))) d = Inr (selection, d')"
      using step4 good b valid by simp
    then show ?thesis
      by (intro stored [OF found verified b valid p]) (auto simp: bind_tx_Inr return_tx_Inr bundle_response_def)
  qed
qed

lemma confirm_proof_Inr:
  assumes "confirm_proof_tx ap store new_id raw first stored selected bundle now d = Inr (response, d')"
  shows "\<exists>order. authenticated store raw now d = Inr order \<and> pending_selection_is_current order selected first \<and>
    record_download_event new_id (o_id order) (sp_version stored) (ap_sha ap bundle) ''generated_pending'' now d = Inr ((), d') \<and>
    response = (bundle, o_order_reference first @ ''-timestamp.zip'')"
proof -
  obtain order where found: "authenticated store raw now d = Inr order"
    using assms by (auto simp: confirm_proof_tx_def bind_res_Inr_iff)
  have row: "find_order (o_id order) d = Some order" using authenticated_row(1) [OF found] .
  show ?thesis
    using assms found
    by (auto simp: confirm_proof_tx_def bind_res_Inr_iff bind_tx_Inr return_tx_Inr bundle_response_def row split: option.splits if_splits)
qed


lemma proof_bundle_cases:
  assumes "proof_bundle ap new_id authorization now later d = (result, d')"
  obtains (refused) e where "result = Inl e" "d' = d"
    | (stored) store raw selection where "ap_store ap = Some store" "authorization = Some (''Bearer '' @ raw)"
        "select_proof_tx ap store (new_id 0) raw now d = Inr (Inl selection, d')" "result = Inr selection"
    | (built) store raw order p selected d1 lib receipt c payload response where "ap_store ap = Some store"
        "authorization = Some (''Bearer '' @ raw)" "select_proof_tx ap store (new_id 0) raw now d = Inr (Inr (order, p, selected), d1)"
        "ap_proof_bundler ap = Some lib" "bundler_build lib p (receipt_json receipt) c = Inr payload"
        "confirm_proof_tx ap store (new_id 1) raw order p selected payload later d1 = Inr (response, d')" "result = Inr response"
proof (cases "the_store ap")
  case (Inl e)
  then show ?thesis using assms by (intro refused) (auto simp: proof_bundle_def bind_act_def lift_act_def)
next
  case store: (Inr store)
  show ?thesis
  proof (cases "bearer_token authorization")
    case (Inl e)
    then show ?thesis using assms store by (intro refused) (auto simp: proof_bundle_def bind_act_def lift_act_def)
  next
    case raw: (Inr raw)
    have front: "ap_store ap = Some store" "authorization = Some (''Bearer '' @ raw)"
      using store bearer_token_Inr [OF raw] by (simp_all add: the_store_Inr)
    show ?thesis
    proof (cases "\<exists>selection d1. ap_proof_store ap \<and> select_proof_tx ap store (new_id 0) raw now d = Inr (selection, d1)")
      case False
      then show ?thesis
        using assms store raw
        by (intro refused [of "projl result"])
          (cases "select_proof_tx ap store (new_id 0) raw now d";
           auto simp: proof_bundle_def bind_act_def lift_act_def raise_act_def transaction_def split: if_splits)+
    next
      case True
      then obtain selection d1 where chosen: "ap_proof_store ap" "select_proof_tx ap store (new_id 0) raw now d = Inr (selection, d1)"
        by blast
      show ?thesis
      proof (cases selection)
        case (Inl response)
        then show ?thesis
          using assms store raw chosen front
          by (intro stored [OF front, of response]) (auto simp: proof_bundle_def bind_act_def lift_act_def transaction_def return_act_def)
      next
        case (Inr rest)
        then obtain order p selected where rest: "selection = Inr (order, p, selected)" by (cases rest) auto
        have same: "d1 = d" using chosen(2) unfolding rest by (rule select_proof_cases) auto
        note run = assms [unfolded proof_bundle_def bind_act_def lift_act_def store raw transaction_def, simplified]
        show ?thesis
        proof (cases "\<exists>lib receipt c payload response. ap_proof_bundler ap = Some lib \<and>
            api_receipt order p (ap_product_version ap) = Inr receipt \<and>
            bind_res (CertificateReference (o_certificate_reference order)) (\<lambda>certificate.
              ProofBundleContext \<lparr>bc_certificate_reference = certificate, bc_service_version = ap_product_version ap\<rparr>) = Inr c \<and>
            bundler_build lib p (receipt_json receipt) c = Inr payload \<and>
            confirm_proof_tx ap store (new_id 1) raw order p selected payload later d1 = Inr response")
          case True
          then obtain lib receipt c payload response d2 where parts: "ap_proof_bundler ap = Some lib"
            "api_receipt order p (ap_product_version ap) = Inr receipt"
            "bind_res (CertificateReference (o_certificate_reference order)) (\<lambda>certificate.
              ProofBundleContext \<lparr>bc_certificate_reference = certificate, bc_service_version = ap_product_version ap\<rparr>) = Inr c"
            "bundler_build lib p (receipt_json receipt) c = Inr payload"
            "confirm_proof_tx ap store (new_id 1) raw order p selected payload later d1 = Inr (response, d2)"
            by (metis surj_pair)
          have "result = Inr response" "d' = d2"
            using run chosen parts by (simp_all add: rest)
          then show ?thesis using built [OF front chosen(2) [unfolded rest] parts(1,4)] parts(5) by simp
        next
          case False
          have "(\<exists>e. result = Inl e) \<and> d' = d"
          proof (rule ccontr)
            assume wrong: "\<not> ?thesis"
            show False
              using run chosen same wrong False
              by (auto simp: rest raise_act_def split: option.splits sum.splits)
          qed
          then show ?thesis using refused by blast
        qed
      qed
    qed
  qed
qed

text \<open>C27. A download that fails leaves the database as it was. One that succeeds was asked for with a token of the order, adds exactly
  one event to the audit log, with the SHA-256 of the very bytes that are sent, and sends either the stored bundle of a
  verified order or a bundle built from the latest proof of a pending one.\<close>

theorem download_audited:
  assumes "proof_bundle ap new_id authorization now later d = (result, d')"
  shows "case result of
      Inl e \<Rightarrow> d' = d
    | Inr (content, name) \<Rightarrow>
        \<exists>store raw order p ev kind. ap_store ap = Some store \<and> authorization = Some (''Bearer '' @ raw) \<and>
          authenticated store raw now d = Inr order \<and> latest_for_order (ap_sha ap) order d = Inr (Some p) \<and>
          name = o_order_reference order @ ''-timestamp.zip'' \<and> d' = d\<lparr>state_events := state_events d @ [ev]\<rparr> \<and>
          ev_order_id ev = o_id order \<and> ev_evidence ev = DownloadEvidence (sp_version p) (hex (ap_sha ap content)) kind \<and>
          (kind = ''persisted_verified'' \<and> o_fulfillment_state order \<in> {BITCOIN_VERIFIED, DELIVERED} \<and>
             map_option pb_bundle_bytes (find_bundle (o_id order) (sp_version p) d) = Some content \<or>
           kind = ''generated_pending'' \<and> o_fulfillment_state order = CALENDAR_PENDING \<and> sp_proof_state p = PS_CALENDAR_PENDING \<and>
             (\<exists>lib receipt c. ap_proof_bundler ap = Some lib \<and> bundler_build lib p (receipt_json receipt) c = Inr content))"
  using assms
proof (cases rule: proof_bundle_cases)
  case refused
  then show ?thesis by simp
next
  case (stored store raw selection)
  from stored(3) show ?thesis
  proof (rule select_proof_cases)
    fix order p row
    assume found: "authenticated store raw now d = Inr order" "o_fulfillment_state order \<in> {BITCOIN_VERIFIED, DELIVERED}"
      "find_bundle (o_id order) (sp_version p) d = Some row" "valid_bundle (ap_sha ap) row"
      "latest_for_order (ap_sha ap) order d = Inr (Some p)"
      and event: "record_download_event (new_id 0) (o_id order) (sp_version p) (pb_bundle_sha256 row) ''persisted_verified'' now d = Inr ((), d')"
      and sent: "Inl selection = Inl (pb_bundle_bytes row, o_order_reference order @ ''-timestamp.zip'')"
    have "ap_sha ap (pb_bundle_bytes row) = pb_bundle_sha256 row" using found(4) by (simp add: valid_bundle_def)
    then show ?thesis using record_download_Inr [OF event] stored found sent by auto
  qed simp
next
  case (built store raw order p selected d1 lib receipt c payload response)
  from built(3) show ?thesis
  proof (rule select_proof_cases)
    fix order' p' row
    assume found: "authenticated store raw now d = Inr order'" "o_fulfillment_state order' = CALENDAR_PENDING"
      "latest_for_order (ap_sha ap) order' d = Inr (Some p')" "sp_proof_state p' = PS_CALENDAR_PENDING"
      and same: "Inr (order, p, selected) = Inr (order', p', row)" "d1 = d"
    obtain now_order where event: "pending_selection_is_current now_order selected order"
      "record_download_event (new_id 1) (o_id now_order) (sp_version p) (ap_sha ap payload) ''generated_pending'' later d1 = Inr ((), d')"
      "response = (payload, o_order_reference order @ ''-timestamp.zip'')"
      using confirm_proof_Inr [OF built(6)] by blast
    have "o_id now_order = o_id order" using event(1) by (simp add: pending_selection_is_current_def)
    then show ?thesis using record_download_Inr [OF event(2)] built found same event(3) by auto
  qed simp
qed

section \<open>The endpoints run transactions of the machine\<close>

lemma keeps_create_checkout:
  "keeps (runs sha unguarded) (create_checkout ap canonical new_id token payload key now ms random_bytes later)"
  unfolding create_checkout_def
  by (intro keeps_prod keeps_option keeps_if running.keeps_raise running.keeps_bind running.keeps_catch running.keeps_lift
      keeps_checkout running.keeps_return)

lemma keeps_stripe_webhook: "keeps (runs sha unguarded) (stripe_webhook ap new_id raw_body signature now later)"
proof -
  have handled: "keeps (runs sha unguarded) (case e of TaskDispatchUnavailable _ \<Rightarrow> raise_act (HTTPException 503 ''webhook temporarily unavailable'')
      | _ \<Rightarrow> (raise_act e :: reconcile_result db_action))" for e
    by (cases e) (simp_all add: running.keeps_raise)
  show ?thesis
    unfolding stripe_webhook_def
    by (intro keeps_prod keeps_option keeps_if running.keeps_raise running.keeps_bind running.keeps_catch keeps_process_webhook
        any.keeps_reconcile running.keeps_return handled)
qed

lemma keeps_rotate_token: "keeps (runs sha unguarded) (rotate_token ap random authorization now)"
  unfolding rotate_token_def
  by (intro running.keeps_bind running.keeps_lift any.keeps_customer) (auto split: sum.splits intro: customer_step.rotate)

lemma select_proof_runs:
  assumes "select_proof_tx ap store new_id raw now d = Inr (selection, d')"
  shows "runs sha unguarded d d'"
  using assms
proof (rule select_proof_cases)
  fix order p row
  assume "record_download_event new_id (o_id order) (sp_version p) (pb_bundle_sha256 row) ''persisted_verified'' now d = Inr ((), d')"
  then show ?thesis by (intro any.runs_step sys_step.customer customer_step.download)
qed (simp add: running.R_refl)

lemma keeps_proof_bundle: "keeps (runs sha unguarded) (proof_bundle ap new_id authorization now later)"
proof -
  have confirm: "keeps (runs sha unguarded) (transaction (confirm_proof_tx ap store i raw order stored selected content later))"
    for store i raw order stored selected content
    by (rule any.keeps_customer) (auto dest!: confirm_proof_Inr intro: customer_step.download)
  have select: "keeps (runs sha unguarded) (transaction (select_proof_tx ap store i raw now))" for store i raw
    by (rule running.keeps_transaction) (rule select_proof_runs)
  show ?thesis
    unfolding proof_bundle_def
    by (intro running.keeps_bind running.keeps_lift keeps_if running.keeps_raise select keeps_sum running.keeps_return keeps_prod
        keeps_option confirm)
qed

lemma keeps_rate_limited:
  assumes "keeps (runs sha unguarded) call_next"
  shows "keeps (runs sha unguarded) (rate_limited hmac secret rl method_name path address now call_next)"
  unfolding rate_limited_def
  by (intro keeps_option assms keeps_prod running.keeps_bind keeps_if running.keeps_raise any.keeps_customer customer_step.rate)

text \<open>The endpoints behind their rate limits change the database only by transactions of the machine of \<open>System\<close>, whatever the
  request, the clock, the random values and the payment provider.\<close>

lemmas keeps_endpoints = keeps_create_checkout keeps_stripe_webhook keeps_rotate_token keeps_proof_bundle

section \<open>Rotation\<close>

lemma find_revoked:
  assumes "find P rows = Some row" "\<And>r. P r \<Longrightarrow> P (f r)" "\<And>r. P (f r) \<Longrightarrow> P r"
  shows "find P (upd_row Q f rows) = Some (if Q row then f row else row)"
  using assms find_upd_row [of P f Q rows] by (metis (no_types, lifting) option.simps(9))

lemma authenticate_revoked:
  assumes "find (\<lambda>t. tk_pepper_version t = ht_version h \<and> tk_token_hash t = ht_digest h) (order_tokens d) = Some token"
    and "hash_token (os_token_hasher os) raw = Inr h" "tk_revoked_at token \<noteq> None" "ht_version h < 2 ^ 64"
  shows "authenticate os raw t d = Inr None"
proof -
  have token: "tk_pepper_version token = ht_version h" "tk_token_hash token = ht_digest h"
    using find_SomeD [OF assms(1)] by simp_all
  have "HashedToken (ht_version h) (ht_digest h) = Inr h"
    using hash_token_Inr [OF assms(2)] by (simp add: HashedToken_def)
  moreover have "verify_token (os_token_hasher os) raw h = Inr True"
    using assms(2,4) by (simp add: verify_token_def)
  ultimately show ?thesis
    using assms token by (simp add: authenticate_def authenticate_status_token_def dt_le_def)
qed

lemma authenticate_find:
  assumes "authenticate os raw now d = Inr (Some (order, token))"
  shows "\<exists>h. hash_token (os_token_hasher os) raw = Inr h \<and> ht_version h < 2 ^ 64 \<and>
    find (\<lambda>t. tk_pepper_version t = ht_version h \<and> tk_token_hash t = ht_digest h) (order_tokens d) = Some token"
proof -
  obtain h where h: "hash_token (os_token_hasher os) raw = Inr h"
    using authenticate_SomeD(1) [OF assms] by blast
  note step = assms [unfolded authenticate_def h sum.case]
  obtain t where t: "find (\<lambda>t. tk_pepper_version t = ht_version h \<and> tk_token_hash t = ht_digest h) (order_tokens d) = Some t"
    using step by (cases "find (\<lambda>t. tk_pepper_version t = ht_version h \<and> tk_token_hash t = ht_digest h) (order_tokens d)") auto
  note step2 = step [unfolded t option.case]
  have "t = token"
  proof (cases "HashedToken (tk_pepper_version t) (tk_token_hash t)")
    case (Inr th)
    note step3 = step2 [unfolded Inr bind_res_simps]
    show ?thesis
    proof (cases "authenticate_status_token raw
        \<lparr>stk_token_hash = th, stk_revoked_at = tk_revoked_at t, stk_expires_at = Some (aware (tk_expires_at t))\<rparr>
        (os_token_hasher os) (Some (aware now))")
      case (Inr ok)
      from step3 [unfolded Inr bind_res_simps] show ?thesis by (cases ok) auto
    qed (use step3 in simp)
  qed (use step2 in simp)
  moreover have "ht_version h < 2 ^ 64"
  proof (rule ccontr)
    assume large: "\<not> ?thesis"
    have "verify_token (os_token_hasher os) raw e = Inl (OtherException ''OverflowError'')" for e
      using large h by (simp add: verify_token_def)
    then show False using step2 by (auto simp: bind_res_Inr_iff authenticate_status_token_def)
  qed
  ultimately show ?thesis using h t by blast
qed

lemma rotate_token_Inr:
  assumes "rotate_token ap random authorization now d = (Inr new, d')"
  obtains store raw order where "ap_store ap = Some store" "authorization = Some (''Bearer '' @ raw)"
    "authenticated store raw now d = Inr order" "issue_token store random order now True d = Inr (new, d')"
proof -
  obtain store where store: "the_store ap = Inr store"
    using assms by (cases "the_store ap") (auto simp: rotate_token_def bind_act_eq act_simps)
  obtain raw where raw: "bearer_token authorization = Inr raw"
    using assms store by (cases "bearer_token authorization") (auto simp: rotate_token_def bind_act_eq act_simps)
  obtain order where order: "authenticated store raw now d = Inr order"
    using assms store raw
    by (cases "authenticated store raw now d") (auto simp: rotate_token_def bind_act_eq act_simps transaction_def)
  have "issue_token store random order now True d = Inr (new, d')"
    using assms store raw order
    by (simp add: rotate_token_def bind_act_eq act_simps transaction_def split: sum.splits prod.splits)
  then show thesis
    using that store order bearer_token_Inr [OF raw] by (simp add: the_store_Inr)
qed

text \<open>C29. After a rotation, which only the bearer of a token of the order can ask for, every token that authenticated the order
  before it, the bearer's included, is refused at every time, and the new token belongs to the same order.\<close>

theorem rotation_revokes_tokens:
  assumes "rotate_token ap random authorization now d = (Inr new, d')"
  shows "\<exists>store raw order. ap_store ap = Some store \<and> authorization = Some (''Bearer '' @ raw) \<and>
    authenticated store raw now d = Inr order \<and>
    (\<forall>old t found token t'. authenticate store old t d = Inr (Some (found, token)) \<and> o_id found = o_id order \<longrightarrow>
      authenticate store old t' d' = Inr None) \<and>
    (\<exists>row. order_tokens d' = order_tokens (revoke_tokens (o_id order) now d) @ [row] \<and> tk_order_id row = o_id order \<and>
      (\<exists>h. hash_token (os_token_hasher store) new = Inr h \<and> tk_token_hash row = ht_digest h))"
proof -
  obtain store raw order where parts: "ap_store ap = Some store" "authorization = Some (''Bearer '' @ raw)"
    "authenticated store raw now d = Inr order" and issue: "issue_token store random order now True d = Inr (new, d')"
    using assms by (rule rotate_token_Inr)
  obtain hashed row where row: "hash_token (os_token_hasher store) new = Inr hashed" "tk_order_id row = o_id order"
    "tk_token_hash row = ht_digest hashed" and d': "d' = d\<lparr>order_tokens := order_tokens (revoke_tokens (o_id order) now d) @ [row]\<rparr>"
    using issue by (rule issue_token_parts) simp
  have "authenticate store old t' d' = Inr None"
    if auth: "authenticate store old t d = Inr (Some (found, token))" and same: "o_id found = o_id order" for old t found token t'
  proof -
    obtain h where h: "hash_token (os_token_hasher store) old = Inr h" "ht_version h < 2 ^ 64"
      "find (\<lambda>t. tk_pepper_version t = ht_version h \<and> tk_token_hash t = ht_digest h) (order_tokens d) = Some token"
      using authenticate_find [OF auth] by blast
    have token: "tk_order_id token = o_id order" "tk_revoked_at token = None"
      using authenticate_SomeD [OF auth] same by (auto simp: find_order_def dest: find_SomeD)
    have "find (\<lambda>t. tk_pepper_version t = ht_version h \<and> tk_token_hash t = ht_digest h) (order_tokens d') =
        Some (token\<lparr>tk_revoked_at := Some now\<rparr>)"
    proof -
      have revoked: "order_tokens (revoke_tokens (o_id order) now d) =
          upd_row (\<lambda>t. tk_order_id t = o_id order \<and> tk_revoked_at t = None) (\<lambda>t. t\<lparr>tk_revoked_at := Some now\<rparr>) (order_tokens d)"
        by (simp add: revoke_tokens_def)
      have "find (\<lambda>t. tk_pepper_version t = ht_version h \<and> tk_token_hash t = ht_digest h)
          (order_tokens (revoke_tokens (o_id order) now d)) =
          Some (if tk_order_id token = o_id order \<and> tk_revoked_at token = None then token\<lparr>tk_revoked_at := Some now\<rparr> else token)"
        unfolding revoked
        by (rule find_revoked [OF h(3)]) simp_all
      then show ?thesis using token by (simp add: d' find_append)
    qed
    from authenticate_revoked [OF this h(1) _ h(2)] show ?thesis by simp
  qed
  then show ?thesis
    using parts row d' by (intro exI [of _ store] exI [of _ raw] exI [of _ order]) auto
qed

section \<open>A request touches only the order of its token\<close>

text \<open>The outcome of a request on an order, from the database \<open>d\<close>: a refused one has changed at most the rate counters; an answered
  one bears a token that authenticates an order in \<open>d\<close>, and beyond the counters only tokens and audit events of that very order
  are different.\<close>

definition confined :: "app_services \<Rightarrow> string option \<Rightarrow> datetime \<Rightarrow> db \<Rightarrow> (exn + 'a) \<times> db \<Rightarrow> bool" where
  "confined ap authorization now d out \<longleftrightarrow>
     (case out of
        (Inl e, d') \<Rightarrow> d' = d\<lparr>rate_counters := rate_counters d'\<rparr>
      | (Inr answer, d') \<Rightarrow>
          \<exists>store raw order. ap_store ap = Some store \<and> authorization = Some (''Bearer '' @ raw) \<and>
            authenticated store raw now d = Inr order \<and>
            d' = d\<lparr>rate_counters := rate_counters d', order_tokens := order_tokens d', state_events := state_events d'\<rparr> \<and>
            filter (\<lambda>t. tk_order_id t \<noteq> o_id order) (order_tokens d') = filter (\<lambda>t. tk_order_id t \<noteq> o_id order) (order_tokens d) \<and>
            filter (\<lambda>e. ev_order_id e \<noteq> o_id order) (state_events d') = filter (\<lambda>e. ev_order_id e \<noteq> o_id order) (state_events d))"

lemma authenticated_counters [simp]: "authenticated store raw now (d\<lparr>rate_counters := cs\<rparr>) = authenticated store raw now d"
proof -
  have same: "find_order i (d\<lparr>rate_counters := cs\<rparr>) = find_order i d" "order_tokens (d\<lparr>rate_counters := cs\<rparr>) = order_tokens d" for i
    by (simp_all add: find_order_def)
  show ?thesis unfolding authenticated_def authenticate_def same ..
qed

lemma hit_counters: "hit hmac secret endpoint address now limit d = Inr (ok, d') \<Longrightarrow> d' = d\<lparr>rate_counters := rate_counters d'\<rparr>"
  by (auto simp: hit_def bind_tx_Inr return_tx_Inr bump_counter_def split: option.splits if_splits)

text \<open>What holds of an endpoint on every database holds of it behind its rate limit.\<close>

lemma confined_counters:
  assumes "confined ap authorization now (d\<lparr>rate_counters := cs\<rparr>) out"
  shows "confined ap authorization now d out"
proof (cases out)
  case (Pair result d')
  show ?thesis
  proof (cases result)
    case (Inl e)
    then show ?thesis using assms Pair by (simp add: confined_def)
  next
    case (Inr answer)
    then show ?thesis using assms Pair unfolding confined_def by (simp only: prod.case sum.case authenticated_counters) simp
  qed
qed

lemma confined_rate_limited:
  assumes "\<And>d. confined ap authorization now d (call_next d)"
  shows "confined ap authorization now d (rate_limited hmac secret rl method_name path address at_time call_next d)"
proof (cases "rate_policy rl method_name path")
  case None
  then show ?thesis using assms by (simp add: rate_limited_def)
next
  case (Some policy)
  then obtain endpoint limit where policy: "rate_policy rl method_name path = Some (endpoint, limit)" by (cases policy) auto
  show ?thesis
  proof (cases "hit hmac secret endpoint address at_time limit d")
    case (Inl e)
    then show ?thesis by (simp add: rate_limited_def policy bind_act_def transaction_def confined_def)
  next
    case (Inr r)
    then obtain ok d1 where hit: "hit hmac secret endpoint address at_time limit d = Inr (ok, d1)" by (cases r) auto
    from hit_counters [OF hit] have d1: "d\<lparr>rate_counters := rate_counters d1\<rparr> = d1" by simp
    show ?thesis
    proof (cases ok)
      case True
      have "confined ap authorization now d1 (call_next d1)" by (rule assms)
      then have "confined ap authorization now d (call_next d1)"
        using confined_counters [of ap authorization now "rate_counters d1" d] by (simp only: d1)
      then show ?thesis using hit True by (simp add: rate_limited_def policy bind_act_def transaction_def)
    next
      case False
      then show ?thesis
        using hit hit_counters [OF hit] by (simp add: rate_limited_def policy bind_act_def transaction_def raise_act_def confined_def)
    qed
  qed
qed

lemma confined_status: "confined ap authorization now d (order_status ap authorization now d)"
proof (cases "order_status_of ap authorization now d")
  case (Inr s)
  then obtain store raw order where parts: "the_store ap = Inr store" "bearer_token authorization = Inr raw"
    "authenticated store raw now d = Inr order"
    by (auto simp: order_status_of_def bind_res_Inr_iff)
  then show ?thesis
    using Inr bearer_token_Inr [OF parts(2)] by (auto simp: order_status_def read_act_def confined_def the_store_Inr)
qed (simp add: order_status_def read_act_def confined_def)

lemma revoke_others: "filter (\<lambda>t. tk_order_id t \<noteq> i) (order_tokens (revoke_tokens i now d)) = filter (\<lambda>t. tk_order_id t \<noteq> i) (order_tokens d)"
proof -
  have "filter (\<lambda>t. tk_order_id t \<noteq> i) (upd_row (\<lambda>t. tk_order_id t = i \<and> tk_revoked_at t = None) (\<lambda>t. t\<lparr>tk_revoked_at := Some now\<rparr>) ts) =
      filter (\<lambda>t. tk_order_id t \<noteq> i) ts" for ts
    by (induction ts) (simp_all add: upd_row_def)
  then show ?thesis by (simp add: revoke_tokens_def)
qed

lemma rotate_refused: "rotate_token ap random authorization now d = (Inl e, d') \<Longrightarrow> d' = d"
  by (auto simp: rotate_token_def bind_act_eq act_simps transaction_def split: sum.splits prod.splits)

lemma confined_rotation: "confined ap authorization now d (rotate_token ap random authorization now d)"
proof (cases "rotate_token ap random authorization now d")
  case (Pair result d')
  show ?thesis
  proof (cases result)
    case (Inl e)
    then show ?thesis using Pair rotate_refused [of ap random authorization now d e d'] by (simp add: confined_def)
  next
    case (Inr new)
    have run: "rotate_token ap random authorization now d = (Inr new, d')" using Pair Inr by simp
    obtain store raw order where parts: "ap_store ap = Some store" "authorization = Some (''Bearer '' @ raw)"
      "authenticated store raw now d = Inr order" and issue: "issue_token store random order now True d = Inr (new, d')"
      using run by (rule rotate_token_Inr)
    obtain row where "tk_order_id row = o_id order" and d': "d' = d\<lparr>order_tokens := order_tokens (revoke_tokens (o_id order) now d) @ [row]\<rparr>"
      using issue by (rule issue_token_parts) simp
    then show ?thesis
      unfolding run confined_def prod.case sum.case
      using parts by (intro exI [of _ store] exI [of _ raw] exI [of _ order]) (simp add: revoke_others)
  qed
qed

lemma confined_download: "confined ap authorization now d (proof_bundle ap new_id authorization now later d)"
proof (cases "proof_bundle ap new_id authorization now later d")
  case (Pair result d')
  from Pair show ?thesis
  proof (cases rule: proof_bundle_cases)
    case (refused e)
    then show ?thesis using Pair by (simp add: confined_def)
  next
    case (stored store raw selection)
    from stored(3) show ?thesis
    proof (rule select_proof_cases)
      fix order p row
      assume found: "authenticated store raw now d = Inr order"
        and event: "record_download_event (new_id 0) (o_id order) (sp_version p) (pb_bundle_sha256 row) ''persisted_verified'' now d = Inr ((), d')"
      obtain ev where ev: "d' = d\<lparr>state_events := state_events d @ [ev]\<rparr>" "ev_order_id ev = o_id order"
        using record_download_Inr [OF event] by blast
      show ?thesis
        unfolding Pair confined_def prod.case stored(4) sum.case
        by (intro exI [of _ store] exI [of _ raw] exI [of _ order] conjI stored(1,2) found) (simp_all add: ev)
    qed simp
  next
    case (built store raw order p selected d1 lib receipt c payload response)
    from built(3) show ?thesis
    proof (rule select_proof_cases)
      fix order' p' row
      assume found: "authenticated store raw now d = Inr order'" and same: "Inr (order, p, selected) = Inr (order', p', row)" "d1 = d"
      obtain now_order where event: "pending_selection_is_current now_order selected order"
        "record_download_event (new_id 1) (o_id now_order) (sp_version p) (ap_sha ap payload) ''generated_pending'' later d1 = Inr ((), d')"
        using confirm_proof_Inr [OF built(6)] by blast
      have own: "o_id now_order = o_id order" "order = order'" using event(1) same by (simp_all add: pending_selection_is_current_def)
      obtain ev where ev: "d' = d\<lparr>state_events := state_events d @ [ev]\<rparr>" "ev_order_id ev = o_id order'"
        using record_download_Inr [OF event(2)] own same(2) by auto
      show ?thesis
        unfolding Pair confined_def prod.case built(7) sum.case
        by (intro exI [of _ store] exI [of _ raw] exI [of _ order'] conjI built(1,2) found) (simp_all add: ev)
    qed simp
  qed
qed

text \<open>C26. A request for an order touches only the order of its token. Behind the rate limit, the status, the rotation and the download
  are refused without any effect but on the rate counters unless the request bears a token that authenticates an order; and then
  no table but the tokens and the audit events is changed, and of these only the rows of that order.\<close>

theorem requests_confined:
  "confined ap authorization now d (rate_limited hmac secret rl method_name path address at_time (order_status ap authorization now) d) \<and>
   confined ap authorization now d (rate_limited hmac secret rl method_name path address at_time
     (rotate_token ap random authorization now) d) \<and>
   confined ap authorization now d (rate_limited hmac secret rl method_name path address at_time
     (proof_bundle ap new_id authorization now later) d)"
  by (intro conjI confined_rate_limited confined_status confined_rotation confined_download)

section \<open>Limits of a request body\<close>

lemma limited_receive_from:
  "received \<le> n \<Longrightarrow> limited_receive (Some n) received chunks = (delivered, exceeded) \<Longrightarrow>
     received + length (concat delivered) \<le> n \<and> (exceeded \<longleftrightarrow> n < received + length (concat chunks)) \<and>
     (\<exists>rest. chunks = delivered @ rest \<and> (\<not> exceeded \<longrightarrow> rest = []))"
proof (induction chunks arbitrary: received delivered)
  case (Cons chunk chunks)
  show ?case
  proof (cases "n < received + length chunk")
    case True
    then show ?thesis using Cons.prems by (auto simp: Let_def)
  next
    case False
    then obtain tail where "limited_receive (Some n) (received + length chunk) chunks = (tail, exceeded)" "delivered = chunk # tail"
      using Cons.prems by (auto simp: Let_def split: prod.splits)
    with Cons.IH [OF _ this(1)] False show ?thesis by auto
  qed
qed simp

text \<open>C31. The application never gets more bytes than the limit of the endpoint; a body within the limit is delivered whole, and a
  longer one always ends in \<open>BodyLimitExceeded\<close> with a prefix of its chunks delivered, however it is cut into chunks.\<close>

theorem body_limit_exact:
  "case limited_receive (Some n) 0 chunks of (delivered, exceeded) \<Rightarrow>
     length (concat delivered) \<le> n \<and> exceeded = (n < length (concat chunks)) \<and>
     (\<exists>rest. chunks = delivered @ rest) \<and> (exceeded \<or> delivered = chunks)"
proof -
  obtain delivered exceeded where run: "limited_receive (Some n) 0 chunks = (delivered, exceeded)" by fastforce
  from limited_receive_from [OF _ this] show ?thesis by (auto simp: run)
qed

section \<open>The receipt of a download\<close>

lemma isoformat_chars: "\<forall>c \<in> set (date_text t @ ''T'' @ clock_text t @ fraction_text t). c \<noteq> CHR ''Z'' \<and> c \<noteq> CHR ''@''"
proof -
  have "\<forall>c \<in> set (zero_padded w n). c \<noteq> CHR ''Z'' \<and> c \<noteq> CHR ''@''" for w n
    using zero_padded_digits [of w n] by (auto simp: list_all_iff is_digit_def code_def dest!: bspec)
  then have "\<forall>c \<in> set (fraction_text t). c \<noteq> CHR ''Z'' \<and> c \<noteq> CHR ''@''"
    by (auto simp: fraction_text_def simp del: zero_padded.simps)
  moreover have "\<forall>c \<in> set (date_text t @ ''T'' @ clock_text t). c \<noteq> CHR ''Z'' \<and> c \<noteq> CHR ''@''"
    using date_text_chars [of t] by blast
  ultimately show ?thesis by (simp add: ball_Un)
qed

lemma isoformat_text:
  assumes "is_aware d"
  shows "no_at (isoformat d)" "representable d \<Longrightarrow> date_time (PStr (isoformat d)) = Some d"
proof -
  define body where "body = date_text (micros d) @ ''T'' @ clock_text (micros d) @ fraction_text (micros d)"
  have iso: "isoformat d = body @ ''+00:00''" using assms by (simp add: isoformat_def body_def offset_text_def)
  have chars: "\<forall>c \<in> set body. c \<noteq> CHR ''Z'' \<and> c \<noteq> CHR ''@''" unfolding body_def by (rule isoformat_chars)
  then show "no_at (isoformat d)" by (auto simp: iso no_at_def)
  have "\<forall>c \<in> set (isoformat d). c \<noteq> hd ''Z''" using chars by (auto simp: iso)
  from str_replace_skip [OF this, of "''+00:00''" "[]"] have same: "str_replace ''Z'' ''+00:00'' (isoformat d) = isoformat d" by simp
  show "date_time (PStr (isoformat d)) = Some d" if "representable d"
    using fromisoformat_isoformat [OF that assms] assms same by (cases d) (simp_all add: date_time_def)
qed

lemma loads_receipt_json:
  assumes "plain (PDict r)"
  shows "loads_ascii (receipt_json r) = Some (PDict (sorted_items r))"
proof -
  have marks: "code (CHR '','') < 128" "code (CHR '':'') < 128" by (simp_all add: code_def)
  have ascii: "list_all (\<lambda>c. code c < 128) (receipt_text '','' '':'' r)"
    using dumps_ascii [of "'',''" "'':''" "sort_dicts (PDict r)" "\<lambda>_. []"] assms marks
    by (simp add: receipt_text_def del: sort_dicts.simps dumps.simps)
  have "loads (receipt_text '','' '':'' r) = Some (sort_dicts (PDict r))"
    using loads_dumps [of "[]" "[]" "sort_dicts (PDict r)" "[]" "\<lambda>_. []"] assms
    by (simp add: receipt_text_def blank_def del: sort_dicts.simps dumps.simps)
  moreover have "list_all (\<lambda>b. unat b < 128) (receipt_json r)"
    using ascii code_ascii_word by (auto simp: receipt_json_def ascii_bytes_def list_all_iff)
  ultimately show ?thesis by (simp only: loads_ascii_def receipt_json_def ascii_bytes_text if_True sort_dicts_PDict)
qed

lemma api_receipt_items:
  assumes "receipt_ready p (o_certificate_reference order) version"
    and "sp_order_reference p = o_order_reference order" "sp_target_digest p = o_manifest_digest order"
  obtains tt vt where "api_receipt order p version = Inr (receipt_items p (o_certificate_reference order) version
      (isoformat (sp_calendar_submitted_at p)) (receipt_metadata p tt vt))" "no_at tt" "no_at vt"
    "\<And>v. sp_verification p = Some v \<Longrightarrow> (\<exists>b w. bv_block_time v = Some b \<and> bv_verified_at v = Some w \<and>
       date_time (PStr tt) = Some b \<and> date_time (PStr vt) = Some w)"
proof (cases "sp_verification p")
  case None
  then show ?thesis
    using assms by (intro that [of "[]" "[]"])
      (simp_all add: api_receipt_def receipt_items_def receipt_metadata_def receipt_base_def digest_hex_def no_at_def receipt_ready_def)
next
  case (Some v)
  then have state: "sp_proof_state p = PS_BITCOIN_VERIFIED" and "verification_ready v" using assms(1) by (simp_all add: receipt_ready_def)
  then obtain height bhash time policy verified_at where v: "bv_block_height v = Some height"
    "bv_block_hash v = Some bhash" "bv_block_time v = Some time" "is_aware time" "representable time"
    "bv_confirmation_policy v = Some policy" "bv_verified_at v = Some verified_at" "is_aware verified_at" "representable verified_at"
    unfolding verification_ready_def by blast
  show ?thesis
    using assms(2,3) Some state v isoformat_text [OF v(4)] isoformat_text [OF v(8)]
    by (intro that [of "isoformat time" "isoformat verified_at"])
      (simp_all add: api_receipt_def receipt_items_def receipt_metadata_def receipt_base_def receipt_bitcoin_def digest_hex_def)
qed

lemma api_receipt_valid:
  assumes "receipt_ready p (o_certificate_reference order) version"
    and "sp_order_reference p = o_order_reference order" "sp_target_digest p = o_manifest_digest order"
  shows "\<exists>receipt typed. api_receipt order p version = Inr receipt \<and> loads_ascii (receipt_json receipt) = Some (PDict typed) \<and>
    validate_receipt (PDict typed) p \<lparr>bc_certificate_reference = o_certificate_reference order, bc_service_version = version\<rparr> = Inr typed"
proof -
  obtain tt vt where r: "api_receipt order p version = Inr (receipt_items p (o_certificate_reference order) version
      (isoformat (sp_calendar_submitted_at p)) (receipt_metadata p tt vt))" and no_at: "no_at tt" "no_at vt"
    and times: "\<And>v. sp_verification p = Some v \<Longrightarrow> (\<exists>b w. bv_block_time v = Some b \<and> bv_verified_at v = Some w \<and>
       date_time (PStr tt) = Some b \<and> date_time (PStr vt) = Some w)"
    using api_receipt_items [OF assms] by blast
  have calendar: "is_aware (sp_calendar_submitted_at p)" "representable (sp_calendar_submitted_at p)"
    using assms(1) by (simp_all add: receipt_ready_def)
  obtain b w where bw: "sp_verification p \<noteq> None \<Longrightarrow> date_time (PStr tt) = Some b \<and> date_time (PStr vt) = Some w"
    "\<And>v. sp_verification p = Some v \<Longrightarrow> bv_block_time v = Some b \<and> bv_verified_at v = Some w"
  proof (cases "sp_verification p")
    case (Some v)
    then show ?thesis using times [OF Some] that by auto
  qed (simp add: that)
  define typed where "typed = sorted_items (receipt_items p (o_certificate_reference order) version
      (isoformat (sp_calendar_submitted_at p)) (receipt_metadata p tt vt))"
  have "validate_receipt (PDict typed) p \<lparr>bc_certificate_reference = o_certificate_reference order, bc_service_version = version\<rparr> = Inr typed"
    using validate_items [OF assms(1) isoformat_text(1) [OF calendar(1)] no_at isoformat_text(2) [OF calendar], of b w, folded typed_def]
      bw by (cases "sp_verification p") auto
  then show ?thesis
    using r loads_receipt_json [OF receipt_items_plain] unfolding typed_def by blast
qed

text \<open>C30. The receipt that the API writes for a proof of the order in good order is always accepted by \<open>_validate_receipt\<close>, with any
  microseconds in its times: the API prints them with \<open>isoformat\<close>, where the service's own receipts cut them off.\<close>

theorem api_receipt_accepted:
  assumes "receipt_ready p (o_certificate_reference order) version"
    and "sp_order_reference p = o_order_reference order" "sp_target_digest p = o_manifest_digest order"
  shows "\<exists>receipt typed. api_receipt order p version = Inr receipt \<and> loads_ascii (receipt_json receipt) = Some (PDict typed) \<and>
    validate_receipt (PDict typed) p \<lparr>bc_certificate_reference = o_certificate_reference order, bc_service_version = version\<rparr> = Inr typed"
  by (rule api_receipt_valid [OF assms])

section \<open>A session of the API\<close>

definition sample_app :: app_services where
  "sample_app = \<lparr>ap_store = Some sample_token_store, ap_checkout = None, ap_webhook = None, ap_proof_store = True,
     ap_proof_bundler = Some (sample_library 3), ap_task_dispatch = None, ap_product_version = ''1'', ap_sha = sample_sha\<rparr>"

definition sample_pending_order :: order_row where
  "sample_pending_order = sample_order\<lparr>o_fulfillment_state := CALENDAR_PENDING, o_manifest_digest := sample_zeros\<rparr>"

definition sample_pending_row :: proof_row where
  "sample_pending_row = sample_proof_row\<lparr>pv_target_digest := sample_zeros, pv_proof_bytes := [1],
     pv_proof_sha256 := replicate 32 0, pv_calendar_submitted_at := Aware 1\<rparr>"

definition sample_pending :: db where
  "sample_pending = empty_db\<lparr>orders := [sample_pending_order], proof_versions := [sample_pending_row]\<rparr>"

lemma token_no_space:
  assumes "token_version raw = Some v"
  shows "filter (\<lambda>c. c = CHR '' '') raw = []"
proof -
  obtain c rest where raw: "raw = c # rest" using assms by (cases raw) (simp_all add: token_version_def)
  have parts: "c = CHR ''v''" "take 1 (dropWhile is_digit rest) = ''.''" "list_all b64_char (drop 1 (dropWhile is_digit rest))"
    using assms by (auto simp: token_version_def raw Let_def match_class_def split: if_splits)
  have "list_all is_digit (takeWhile is_digit rest)" by (induction rest) simp_all
  moreover have "\<not> is_digit (CHR '' '')" "\<not> b64_char (CHR '' '')" by (code_simp, code_simp)
  moreover have "rest = takeWhile is_digit rest @ take 1 (dropWhile is_digit rest) @ drop 1 (dropWhile is_digit rest)"
    by (metis append_take_drop_id takeWhile_dropWhile_id)
  then have "set rest = set (takeWhile is_digit rest) \<union> set (take 1 (dropWhile is_digit rest)) \<union> set (drop 1 (dropWhile is_digit rest))"
    by (metis set_append sup_assoc)
  ultimately have "CHR '' '' \<notin> set rest" using parts(2,3) by (auto simp: list_all_iff)
  then show ?thesis using parts(1) by (auto simp: raw filter_empty_conv)
qed

lemma bearer_token_of:
  assumes "token_version raw = Some v"
  shows "bearer_token (Some (''Bearer '' @ raw)) = Inr raw"
  using token_no_space [OF assms] by (simp add: bearer_token_def starts_with_def)

text \<open>An order without tokens gets one, with which it is authenticated.\<close>

lemma sample_session:
  assumes "find_order (o_id order) d = Some order" "order_tokens d = []"
  obtains raw row where "issue_token sample_token_store (replicate 32 0) order (Aware 0) True d = Inr (raw, d\<lparr>order_tokens := [row]\<rparr>)"
    "authenticated sample_token_store raw (Aware 5) (d\<lparr>order_tokens := [row]\<rparr>) = Inr order"
    "bearer_token (Some (''Bearer '' @ raw)) = Inr raw"
proof -
  obtain raw d' where issue: "issue_token sample_token_store (replicate 32 0) order (Aware 0) True d = Inr (raw, d')"
    using sample_issue_any [of order d "Aware 0" True] assms by auto
  obtain hashed row where gen: "generate_bearer_token (os_active_pepper_version sample_token_store) (replicate 32 0) = Inr raw"
    and hash: "hash_token (os_token_hasher sample_token_store) raw = Inr hashed"
    and row: "tk_order_id row = o_id order" "tk_pepper_version row = ht_version hashed" "tk_token_hash row = ht_digest hashed"
      "tk_revoked_at row = None" "tk_expires_at row = dt_add (Aware 0) (os_token_ttl sample_token_store)"
    and d': "d' = d\<lparr>order_tokens := order_tokens (if True then revoke_tokens (o_id order) (Aware 0) d else d) @ [row]\<rparr>"
    by (rule issue_token_parts [OF issue])
  have small: "token_version raw = Some 1" "ht_version hashed = 1"
    using token_version_generated [OF gen] hash_token_Inr(1) [OF hash] by (simp_all add: sample_token_store_def)
  have after: "d' = d\<lparr>order_tokens := [row]\<rparr>" using d' assms(2) by (simp add: revoke_tokens_def)
  have "authenticate sample_token_store raw (Aware 5) (d\<lparr>order_tokens := [row]\<rparr>) = Inr (Some (order, row))"
    using row small assms(1)
    by (intro authenticate_found [OF hash]) (simp_all add: sample_token_store_def duration_defs find_order_def)
  then show thesis
    using that issue after bearer_token_of [OF small(1)] by (simp add: authenticated_def)
qed

lemma sample_pending_found:
  "find_order 7 sample_pending = Some sample_pending_order" "o_id sample_pending_order = 7" "order_tokens sample_pending = []"
  by (simp_all add: sample_pending_def sample_pending_order_def sample_order_def find_order_def empty_db_def)

lemma sample_pending_stored: "latest_for_order sample_sha sample_pending_order (sample_pending\<lparr>order_tokens := ts\<rparr>) = Inr (Some (sample_stored 1))"
  by (simp add: latest_for_order_def latest_proof_def sample_pending_def sample_pending_order_def sample_order_def sample_pending_row_def
      sample_proof_row_def empty_db_def validate_metadata_def find_verification_def stored_proof_of_def OrderReference_def sample_usd
      digest_from_bytes_def ManifestDigest_def StoredProof_def sample_stored_def sample_zeros_def sample_sha_def aware_def MAX_PROOF_BYTES_def)

text \<open>A delivered order.\<close>

definition sample_delivered_order :: order_row where
  "sample_delivered_order = sample_order\<lparr>o_fulfillment_state := DELIVERED\<rparr>"

definition sample_delivered_message :: outbox_row where
  "sample_delivered_message = sample_message\<lparr>om_state := OB_DELIVERED, om_provider_message_id := Some ''m1'',
     om_accepted_at := Some (Aware 9), om_delivered_at := Some (Aware 10)\<rparr>"

definition sample_delivered :: db where
  "sample_delivered = sample_ready\<lparr>orders := [sample_delivered_order], order_tokens := [], outbox := [sample_delivered_message],
     resend_webhook_events := [\<lparr>rw_svix_event_id = ''e1'', rw_event_type = ''email.delivered'', rw_provider_message_id = ''m1'',
       rw_payload_sha256 = replicate 32 0, rw_event_created_at = Aware 10, rw_processed_at = Aware 11, rw_created_at = Aware 11\<rparr>]\<rparr>"

lemma sample_delivered_found:
  "find_order 7 sample_delivered = Some sample_delivered_order" "o_id sample_delivered_order = 7"
  "order_tokens sample_delivered = []" "o_fulfillment_state sample_delivered_order = DELIVERED"
  "find_order 7 (sample_delivered\<lparr>order_tokens := ts\<rparr>) = Some sample_delivered_order"
  by (simp_all add: sample_delivered_def sample_delivered_order_def sample_order_def find_order_def)

definition sample_delivered_proof :: stored_proof where
  "sample_delivered_proof = \<lparr>sp_order_reference = ''ts_01ARZ3NDEKTSV4RRFFQ69G5FAV'', sp_version = 1,
     sp_target_digest = replicate 32 1, sp_proof_bytes = [9], sp_proof_sha256 = replicate 32 0, sp_proof_state = PS_BITCOIN_VERIFIED,
     sp_calendar_submitted_at = Aware 3, sp_verification = Some \<lparr>bv_verified = True, bv_method = ''rpc'',
       bv_verified_at = Some (Aware 5), bv_block_height = Some 10, bv_block_hash = Some (replicate 64 (CHR ''a'')),
       bv_block_time = Some (Aware 4), bv_confirmation_policy = Some ''p'', bv_confirmations = Some 2\<rparr>\<rparr>"

lemma sample_delivered_latest:
  "latest_for_order sample_sha sample_delivered_order (sample_delivered\<lparr>order_tokens := ts\<rparr>) = Inr (Some sample_delivered_proof)"
proof -
  have block: "valid_block_hash (replicate 64 (CHR ''a''))" by code_simp
  have rows: "proof_versions sample_delivered = [sample_proof_row]" "proof_verifications sample_delivered = [sample_verification]"
    "confirmation_observations sample_delivered = [sample_observation]"
    by (simp_all add: sample_delivered_def sample_ready_def sample_proven_def)
  have proof_row: "latest_proof 7 (sample_delivered\<lparr>order_tokens := ts\<rparr>) = Some sample_proof_row"
    by (simp add: latest_proof_def rows) (simp add: sample_proof_row_def)
  have verification: "find_verification 7 1 (sample_delivered\<lparr>order_tokens := ts\<rparr>) = Some sample_verification"
    by (simp add: find_verification_def rows) (simp add: sample_verification_def)
  have observation: "latest_observation 7 1 (sample_delivered\<lparr>order_tokens := ts\<rparr>) = Some sample_observation"
    by (simp add: latest_observation_def rows) (simp add: sample_observation_def)
  have version: "pv_version sample_proof_row = 1" "o_order_reference sample_delivered_order = ''ts_01ARZ3NDEKTSV4RRFFQ69G5FAV''"
    "validate_metadata sample_proof_row = Inr ()"
    by (simp_all add: sample_proof_row_def sample_delivered_order_def sample_order_def validate_metadata_def MAX_PROOF_BYTES_def
        sample_sha_def)
  have "stored_proof_of sample_sha sample_proof_row ''ts_01ARZ3NDEKTSV4RRFFQ69G5FAV'' (Some sample_verification) (Some 2) True =
      Inr sample_delivered_proof"
    by (simp add: stored_proof_of_def sample_proof_row_def sample_verification_def verification_of_row_def BitcoinVerification_def
        metadata_present_def StoredProof_def validate_verification_def block OrderReference_def sample_usd digest_from_bytes_def
        ManifestDigest_def MAX_PROOF_BYTES_def sample_sha_def sample_delivered_proof_def aware_def)
  then show ?thesis
    by (simp add: latest_for_order_def sample_delivered_found(2,4) proof_row verification observation version)
      (simp add: sample_observation_def)
qed

lemma sample_delivered_sender: "find_sender sample_delivered_order 1 (sample_delivered\<lparr>order_tokens := ts\<rparr>) = Some sample_delivered_message"
proof -
  have "message_key_of INITIAL_CONFIRMATION 1 (o_order_reference sample_order) =
      ''bitcoin-confirmed-initial-v'' @ int_str 1 @ ''-'' @ o_order_reference sample_order"
    by (simp add: sample_order_def) code_simp
  then show ?thesis
    by (simp add: find_sender_def sample_delivered_def sample_delivered_message_def sample_message_def sample_delivered_order_def)
      (simp add: sample_order_def)
qed

lemma sample_delivered_status: "proof_status sample_app sample_delivered_order (sample_delivered\<lparr>order_tokens := ts\<rparr>) =
    Inr (Some (Aware 3), Some (Aware 5), True)"
proof -
  have stored: "find_bundle 7 1 (sample_delivered\<lparr>order_tokens := ts\<rparr>) = Some sample_bundle"
    by (simp add: find_bundle_def sample_delivered_def sample_ready_def sample_bundle_def)
  have good: "valid_bundle sample_sha sample_bundle" by (simp add: valid_bundle_def sample_bundle_def)
  have sender: "valid_delivery_sender (Some sample_delivered_message) 7 1 (sample_delivered\<lparr>order_tokens := ts\<rparr>)"
    by (simp add: valid_delivery_sender_def sample_delivered_message_def sample_message_def sample_delivered_def sample_ready_def
        sample_observation_def)
  have fields: "sp_version sample_delivered_proof = 1" "sp_proof_state sample_delivered_proof = PS_BITCOIN_VERIFIED"
    "sp_calendar_submitted_at sample_delivered_proof = Aware 3"
    "\<exists>v. sp_verification sample_delivered_proof = Some v \<and> bv_verified_at v = Some (Aware 5)"
    by (simp_all add: sample_delivered_proof_def)
  then obtain v where "sp_verification sample_delivered_proof = Some v" "bv_verified_at v = Some (Aware 5)" by blast
  then show ?thesis
    using stored good sender fields
    by (simp add: proof_status_def sample_app_def sample_delivered_found(2,4) sample_delivered_latest sample_delivered_sender
        value_error_as_def)
qed

theorem status_claims_recorded_witness:
  "\<exists>raw row s. order_status_of sample_app (Some (''Bearer '' @ raw)) (Aware 5) (sample_delivered\<lparr>order_tokens := [row]\<rparr>) = Inr s \<and>
     sr_fulfillment_state s = DELIVERED \<and> sr_bitcoin_verified_at s = Some (Aware 5) \<and>
     delivery_recorded 7 1 (sample_delivered\<lparr>order_tokens := [row]\<rparr>)"
proof -
  obtain raw row where session: "authenticated sample_token_store raw (Aware 5) (sample_delivered\<lparr>order_tokens := [row]\<rparr>) = Inr sample_delivered_order"
    "bearer_token (Some (''Bearer '' @ raw)) = Inr raw"
    using sample_session [of sample_delivered_order sample_delivered] sample_delivered_found(1-3) by (metis (no_types))
  let ?d = "sample_delivered\<lparr>order_tokens := [row]\<rparr>"
  have services: "ap_store sample_app = Some sample_token_store" "ap_sha sample_app = sample_sha" by (simp_all add: sample_app_def)
  have "\<exists>s. order_status_of sample_app (Some (''Bearer '' @ raw)) (Aware 5) ?d = Inr s \<and>
      sr_fulfillment_state s = DELIVERED \<and> sr_bitcoin_verified_at s = Some (Aware 5)"
    using session by (simp add: order_status_of_def the_store_def services sample_delivered_status sample_delivered_found(4) aware_def)
  then obtain s where s: "order_status_of sample_app (Some (''Bearer '' @ raw)) (Aware 5) ?d = Inr s"
    "sr_fulfillment_state s = DELIVERED" "sr_bitcoin_verified_at s = Some (Aware 5)" by blast
  from status_claims_recorded [OF s(1)] obtain store raw' order token p where claim: "ap_store sample_app = Some store"
    "Some (''Bearer '' @ raw) = Some (''Bearer '' @ raw')" "authenticate store raw' (Aware 5) ?d = Inr (Some (order, token))"
    "latest_for_order sample_sha order ?d = Inr (Some p)" "delivery_recorded (o_id order) (sp_version p) ?d"
    unfolding s(2) services by auto
  have "store = sample_token_store" "raw' = raw" using claim(1,2) by (simp_all add: services)
  then have "order = sample_delivered_order" using session(1) claim(3) by (simp add: authenticated_def)
  moreover from this have "p = sample_delivered_proof" using claim(4) sample_delivered_latest [of "[row]"] by simp
  ultimately have "delivery_recorded 7 1 ?d"
    using claim(5) sample_delivered_found(2) by (simp add: sample_delivered_proof_def)
  then show ?thesis using s by blast
qed

text \<open>A store whose hashes tell two tokens apart.\<close>

definition sample_raw :: "8 word \<Rightarrow> string" where
  "sample_raw b = projr (generate_bearer_token 1 (replicate 32 b))"

definition sample_two_store :: order_store where
  "sample_two_store = sample_token_store\<lparr>os_token_hasher := \<lparr>
     th_hmac = \<lambda>pepper message. if message = TOKEN_CONTEXT @ ascii_bytes (sample_raw 0) then replicate 32 7 else replicate 32 8,
     th_peppers = [(1, replicate 32 9)]\<rparr>\<rparr>"

definition sample_first_token :: token_row where
  "sample_first_token = \<lparr>tk_order_id = 7, tk_version = 1, tk_pepper_version = 1, tk_token_hash = replicate 32 7,
     tk_revoked_at = None, tk_expires_at = Aware (hours 24), tk_created_at = Aware 0\<rparr>"

lemma sample_raws: "generate_bearer_token 1 (replicate 32 b) = Inr (sample_raw b)" "token_version (sample_raw b) = Some 1"
proof -
  show gen: "generate_bearer_token 1 (replicate 32 b) = Inr (sample_raw b)"
    by (simp add: sample_raw_def generate_bearer_token_def)
  show "token_version (sample_raw b) = Some 1" by (rule token_version_generated [OF gen]) simp
qed

lemma sample_raws_differ: "ascii_bytes (sample_raw 1) \<noteq> ascii_bytes (sample_raw 0)"
  by code_simp

lemma sample_hashes:
  "hash_token (os_token_hasher sample_two_store) (sample_raw 0) = Inr \<lparr>ht_version = 1, ht_digest = replicate 32 7\<rparr>"
  "hash_token (os_token_hasher sample_two_store) (sample_raw 1) = Inr \<lparr>ht_version = 1, ht_digest = replicate 32 8\<rparr>"
  using sample_raws(2) sample_raws_differ
  by (simp_all add: hash_token_def sample_two_store_def HashedToken_def)

theorem rotation_revokes_tokens_witness:
  "\<exists>new d'. rotate_token (sample_app\<lparr>ap_store := Some sample_two_store\<rparr>) (replicate 32 1) (Some (''Bearer '' @ sample_raw 0)) (Aware 5)
       (sample_pending\<lparr>order_tokens := [sample_first_token]\<rparr>) = (Inr new, d') \<and>
     authenticate sample_two_store (sample_raw 0) (Aware 6) (sample_pending\<lparr>order_tokens := [sample_first_token]\<rparr>) =
       Inr (Some (sample_pending_order, sample_first_token)) \<and>
     authenticate sample_two_store (sample_raw 0) (Aware 6) d' = Inr None"
proof -
  let ?d = "sample_pending\<lparr>order_tokens := [sample_first_token]\<rparr>" and ?app = "sample_app\<lparr>ap_store := Some sample_two_store\<rparr>"
  have first: "authenticate sample_two_store (sample_raw 0) t ?d = Inr (Some (sample_pending_order, sample_first_token))"
    if "micros t < hours 24" for t
    using that sample_pending_found
    by (intro authenticate_found [OF sample_hashes(1)]) (simp_all add: sample_first_token_def find_order_def)
  then have ok: "authenticated sample_two_store (sample_raw 0) (Aware 5) ?d = Inr sample_pending_order"
    by (simp add: authenticated_def duration_defs)
  have "\<exists>d'. issue_token sample_two_store (replicate 32 1) sample_pending_order (Aware 5) True ?d = Inr (sample_raw 1, d')"
    using sample_pending_found sample_raws(1) [of 1] sample_hashes(2)
    by (simp add: issue_token_def Let_def sample_two_store_def sample_token_store_def insert_token_def bind_tx_def return_tx_def
        revoke_tokens_def find_order_def unique_among_def sample_first_token_def max_of_def)
  then obtain d' where "issue_token sample_two_store (replicate 32 1) sample_pending_order (Aware 5) True ?d = Inr (sample_raw 1, d')" by blast
  then have rotated: "rotate_token ?app (replicate 32 1) (Some (''Bearer '' @ sample_raw 0)) (Aware 5) ?d = (Inr (sample_raw 1), d')"
    using ok bearer_token_of [OF sample_raws(2)] by (simp add: rotate_token_def bind_act_eq the_store_def transaction_def)
  from rotation_revokes_tokens [OF this] obtain store raw order where claim: "ap_store ?app = Some store"
    "Some (''Bearer '' @ sample_raw 0) = Some (''Bearer '' @ raw)" "authenticated store raw (Aware 5) ?d = Inr order"
    "\<forall>old t found token t'. authenticate store old t ?d = Inr (Some (found, token)) \<and> o_id found = o_id order \<longrightarrow>
      authenticate store old t' d' = Inr None"
    by (elim exE conjE) (rule that)
  have "store = sample_two_store" "raw = sample_raw 0" using claim(1,2) by simp_all
  then have "order = sample_pending_order" "authenticate sample_two_store (sample_raw 0) (Aware 6) d' = Inr None"
    using ok claim(3,4) first [of "Aware 6"] by (auto simp: duration_defs)
  then show ?thesis using rotated first [of "Aware 6"] by (simp add: duration_defs)
qed

theorem api_receipt_accepted_witness:
  "\<exists>receipt typed. api_receipt sample_pending_order (sample_stored 1) ''1'' = Inr receipt \<and>
     loads_ascii (receipt_json receipt) = Some (PDict typed) \<and>
     validate_receipt (PDict typed) (sample_stored 1) \<lparr>bc_certificate_reference = ''SR-1'', bc_service_version = ''1''\<rparr> = Inr typed"
  using api_receipt_accepted [of "sample_stored 1" sample_pending_order "''1''"] sample_receipt_ready(1)
  by (simp add: sample_pending_order_def sample_order_def sample_stored_def)

definition sample_receipt_items :: "(string \<times> pyval) list" where
  "sample_receipt_items =
    [(''schema_version'', PStr ''1.0.0''), (''order_reference'', PStr ''ts_01ARZ3NDEKTSV4RRFFQ69G5FAV''),
     (''certificate_reference'', PStr ''SR-1''), (''manifest_sha256'', PStr sample_hash), (''proof_sha256'', PStr sample_hash),
     (''proof_bytes'', PInt 1), (''proof_state'', PStr ''calendar_pending''),
     (''calendar_submitted_at'', PStr (isoformat (Aware 1))), (''service_version'', PStr ''1'')]"

lemma sample_receipt_time: "isoformat (Aware 1) = ''1970-01-01T00:00:00.000001+00:00''"
  by code_simp

lemma sample_receipt_items_length: "length (receipt_text '','' '':'' sample_receipt_items) < 900"
  unfolding sample_receipt_items_def sample_receipt_time by code_simp

lemma nothing_loads: "loads_ascii [] = None"
  by code_simp

lemma sample_api_receipt:
  obtains receipt typed where "api_receipt sample_pending_order (sample_stored 1) ''1'' = Inr receipt"
    "receipt_json receipt \<noteq> []" "length (receipt_json receipt) < 900" "loads_ascii (receipt_json receipt) = Some (PDict typed)"
    "validate_receipt (PDict typed) (sample_stored 1) \<lparr>bc_certificate_reference = ''SR-1'', bc_service_version = ''1''\<rparr> = Inr typed"
proof -
  have items: "api_receipt sample_pending_order (sample_stored 1) ''1'' = Inr sample_receipt_items"
    by (simp add: api_receipt_def sample_pending_order_def sample_order_def sample_stored_def sample_zeros_def sample_receipt_items_def)
  obtain typed where "loads_ascii (receipt_json sample_receipt_items) = Some (PDict typed)"
    "validate_receipt (PDict typed) (sample_stored 1) \<lparr>bc_certificate_reference = ''SR-1'', bc_service_version = ''1''\<rparr> = Inr typed"
    using api_receipt_valid [of "sample_stored 1" sample_pending_order "''1''"] sample_receipt_ready(1) items
    by (auto simp: sample_pending_order_def sample_order_def sample_stored_def)
  moreover from this have "receipt_json sample_receipt_items \<noteq> []" by (auto simp: nothing_loads)
  ultimately show thesis using that items sample_receipt_items_length by (simp add: receipt_json_def ascii_bytes_def)
qed

lemma sample_download_built:
  obtains receipt content where "api_receipt sample_pending_order (sample_stored 1) ''1'' = Inr receipt"
    "bundler_build (sample_library 3) (sample_stored 1) (receipt_json receipt)
       \<lparr>bc_certificate_reference = ''SR-1'', bc_service_version = ''1''\<rparr> = Inr content"
proof -
  obtain receipt typed where receipt: "api_receipt sample_pending_order (sample_stored 1) ''1'' = Inr receipt"
    "receipt_json receipt \<noteq> []" "length (receipt_json receipt) < 900" "loads_ascii (receipt_json receipt) = Some (PDict typed)"
    "validate_receipt (PDict typed) (sample_stored 1) \<lparr>bc_certificate_reference = ''SR-1'', bc_service_version = ''1''\<rparr> = Inr typed"
    by (rule sample_api_receipt)
  have parsed: "validate_proof (sample_library 3) sample_zeros [1] (Some (replicate 32 0)) = Inr ()"
    using sample_proof_parsed [of 3]
    by (simp add: validate_exact_proof_def deserialize_exact_proof_def sample_library_def bind_res_Inr_iff split: if_splits)
  have "length (zip_archive (bundle_files (\<lambda>_. replicate 32 0) (sample_stored 1) (receipt_json receipt))) \<le> 12 * 1024 * 1024"
    using receipt(3) sample_readme sample_instructions
    by (simp add: length_zip_archive bundle_files_def Let_def checksum_line_def sample_stored_def sample_hash_def)
  then have "bundler_build (sample_library 3) (sample_stored 1) (receipt_json receipt)
       \<lparr>bc_certificate_reference = ''SR-1'', bc_service_version = ''1''\<rparr> =
      Inr (zip_archive (bundle_files (\<lambda>_. replicate 32 0) (sample_stored 1) (receipt_json receipt)))"
    using receipt(2-5) parsed by (simp add: bundler_build_def) (simp add: sample_stored_def)
  with receipt(1) show thesis by (rule that)
qed

theorem download_audited_witness:
  "\<exists>raw row content name d' ev. proof_bundle sample_app (\<lambda>_. 9) (Some (''Bearer '' @ raw)) (Aware 5) (Aware 5)
       (sample_pending\<lparr>order_tokens := [row]\<rparr>) = (Inr (content, name), d') \<and> state_events d' = [ev] \<and>
     ev_evidence ev = DownloadEvidence 1 (hex (sample_sha content)) ''generated_pending''"
proof -
  obtain raw row where session: "authenticated sample_token_store raw (Aware 5) (sample_pending\<lparr>order_tokens := [row]\<rparr>) = Inr sample_pending_order"
    "bearer_token (Some (''Bearer '' @ raw)) = Inr raw"
    using sample_session [of sample_pending_order sample_pending] sample_pending_found by (metis (no_types))
  let ?d = "sample_pending\<lparr>order_tokens := [row]\<rparr>"
  have found: "find_order 7 ?d = Some sample_pending_order" "o_id sample_pending_order = 7"
    "o_fulfillment_state sample_pending_order = CALENDAR_PENDING" "o_certificate_reference sample_pending_order = ''SR-1''"
    using sample_pending_found by (simp_all add: find_order_def sample_pending_order_def sample_order_def)
  have latest: "latest_metadata 7 ?d = Inr (Some sample_pending_row)"
    by (simp add: latest_metadata_def latest_proof_def sample_pending_def sample_pending_row_def sample_proof_row_def empty_db_def
        validate_metadata_def sample_zeros_def MAX_PROOF_BYTES_def)
  have selected: "select_proof_tx sample_app sample_token_store 9 raw (Aware 5) ?d =
      Inr (Inr (sample_pending_order, sample_stored 1, sample_pending_row), ?d)"
    using session(1) found latest sample_pending_stored [of "[row]"]
    by (simp add: select_proof_tx_def sample_app_def value_error_as_def) (simp add: sample_stored_def)
  obtain receipt content where built: "api_receipt sample_pending_order (sample_stored 1) ''1'' = Inr receipt"
    "bundler_build (sample_library 3) (sample_stored 1) (receipt_json receipt)
       \<lparr>bc_certificate_reference = ''SR-1'', bc_service_version = ''1''\<rparr> = Inr content"
    by (rule sample_download_built)
  have current: "pending_selection_is_current sample_pending_order sample_pending_row sample_pending_order"
    by (simp add: pending_selection_is_current_def sample_pending_order_def sample_pending_row_def sample_proof_row_def)
  obtain d' where recorded: "record_download_event 9 7 1 (sample_sha content) ''generated_pending'' (Aware 5) ?d = Inr ((), d')"
    using found by (simp add: record_download_event_def sample_sha_def insert_state_event_def unique_among_def sample_pending_def empty_db_def)
  have version: "sp_version (sample_stored 1) = 1" by (simp add: sample_stored_def)
  have confirmed: "confirm_proof_tx sample_app sample_token_store 9 raw sample_pending_order (sample_stored 1) sample_pending_row content (Aware 5) ?d =
      Inr ((content, o_order_reference sample_pending_order @ ''-timestamp.zip''), d')"
    using session(1) found latest current recorded version
    by (simp add: confirm_proof_tx_def value_error_as_def same_metadata_def bundle_response_def bind_tx_def return_tx_def sample_app_def)
  have certificate: "bind_res (CertificateReference ''SR-1'') (\<lambda>certificate.
      ProofBundleContext \<lparr>bc_certificate_reference = certificate, bc_service_version = ''1''\<rparr>) =
      Inr \<lparr>bc_certificate_reference = ''SR-1'', bc_service_version = ''1''\<rparr>"
    by (simp add: CertificateReference_def sample_usd ProofBundleContext_def)
  have services: "ap_store sample_app = Some sample_token_store" "ap_proof_store sample_app"
    "ap_proof_bundler sample_app = Some (sample_library 3)" "ap_product_version sample_app = ''1''" "ap_sha sample_app = sample_sha"
    by (simp_all add: sample_app_def)
  have run: "proof_bundle sample_app (\<lambda>_. 9) (Some (''Bearer '' @ raw)) (Aware 5) (Aware 5) ?d =
      (Inr (content, o_order_reference sample_pending_order @ ''-timestamp.zip''), d')"
    using session(2) selected built confirmed certificate
    by (simp add: proof_bundle_def bind_act_eq the_store_def services transaction_def found)
  from download_audited [OF this] obtain p ev kind where "latest_for_order sample_sha sample_pending_order ?d = Inr (Some p)"
    "d' = ?d\<lparr>state_events := state_events ?d @ [ev]\<rparr>" "ev_evidence ev = DownloadEvidence (sp_version p) (hex (sample_sha content)) kind"
    "kind = ''generated_pending'' \<or> o_fulfillment_state sample_pending_order \<in> {BITCOIN_VERIFIED, DELIVERED}"
    unfolding sum.case prod.case services
    using session(1) by (elim exE conjE) (auto simp: authenticated_def)
  then have "state_events d' = [ev]" "ev_evidence ev = DownloadEvidence 1 (hex (sample_sha content)) ''generated_pending''"
    using found(3) sample_pending_stored [of "[row]"] version by (auto simp: sample_pending_def empty_db_def)
  with run show ?thesis by blast
qed

end
