(* ===== verification/Metbull.thy ===== *)
theory Metbull
  imports Py_Values Iso_Dates Json Credentials
begin

text \<open>
  The meteorite catalogue: the reader of its snapshot (\<open>metbull/client.py\<close>, \<open>metbull/snapshot.py\<close>) and the endpoint that
  answers from it (\<open>api/routes.py\<close>, \<open>api/schemas.py\<close>).

  The snapshot is a SQLite file with a JSON file beside it. A database is the value that the queries of the program see, and
  \<open>sql_bytes\<close> are its bytes in the file; the other file is the size and the value of its JSON text. A database that SQLite cannot
  read is \<open>None\<close>.
\<close>

section \<open>metbull/client.py\<close>

definition METBULL_OFFICIAL_URL :: "int \<Rightarrow> string" where
  "METBULL_OFFICIAL_URL n = ''https://www.lpi.usra.edu/meteor/metbull.cfm?code='' @ int_str n"

definition CANONICAL_CODE :: "string \<Rightarrow> bool" where
  "CANONICAL_CODE s = match_head (\<lambda>c. is_digit c \<and> c \<noteq> CHR ''0'') is_digit 8 s"

record catalogue_record =
  mr_code :: int
  mr_official_url :: string
  mr_canonical_name :: string
  mr_record_status :: string
  mr_official_name :: bool
  mr_recommended_classification :: string
  mr_fall_or_find :: string
  mr_year_found :: "int option"
  mr_country :: "string option"
  mr_latitude :: "string option"
  mr_longitude :: "string option"

definition validated_code :: "int \<Rightarrow> exn + int" where
  "validated_code n = (if CANONICAL_CODE (int_str n) then Inr n else Inl (ValueError ''metbull_code_invalid''))"

section \<open>The values of a snapshot\<close>

datatype sql_value = SqlNull | SqlInteger int | SqlReal rat | SqlText string | SqlBlob bytes

record catalogue_row =
  cr_code :: int
  cr_canonical_name :: sql_value
  cr_record_status :: sql_value
  cr_recommended_classification :: sql_value
  cr_fall_or_find :: sql_value
  cr_year_found :: sql_value
  cr_country :: sql_value
  cr_latitude :: sql_value
  cr_longitude :: sql_value

record snapshot_db =
  sd_application_id :: int
  sd_user_version :: int
  sd_objects :: "(string \<times> string) list"
  sd_columns :: "(string \<times> string \<times> int \<times> int) list"
  sd_integrity :: "string list"
  sd_metadata :: "(string \<times> string) list"
  sd_records :: "catalogue_row list"

record snapshot_files =
  sf_database :: "snapshot_db option"
  sf_metadata :: "(nat \<times> pyval option) option"

section \<open>The fields of a record\<close>

definition record_invalid :: exn where
  "record_invalid = MetbullUnavailable ''metbull_snapshot_record_invalid''"

definition bounded :: "string \<Rightarrow> nat \<Rightarrow> bool" where
  "bounded s maximum \<longleftrightarrow> 1 \<le> length s \<and> length s \<le> maximum \<and> \<not> list_ex (\<lambda>c. code c < 32) s"

definition bounded_text :: "sql_value \<Rightarrow> nat \<Rightarrow> exn + string" where
  "bounded_text v maximum = (case v of SqlText s \<Rightarrow> if bounded s maximum then Inr s else Inl record_invalid | _ \<Rightarrow> Inl record_invalid)"

definition validated_year :: "sql_value \<Rightarrow> exn + int option" where
  "validated_year v =
     (case v of SqlNull \<Rightarrow> Inr None
      | SqlInteger n \<Rightarrow> if 1 \<le> n \<and> n \<le> 9999 then Inr (Some n) else Inl record_invalid
      | _ \<Rightarrow> Inl record_invalid)"

definition validated_country :: "sql_value \<Rightarrow> exn + string option" where
  "validated_country v = (case v of SqlNull \<Rightarrow> Inr None | _ \<Rightarrow> bind_res (bounded_text v 64) (\<lambda>s. Inr (Some s)))"

text \<open>The pattern of a coordinate and its value as a \<open>Decimal\<close>.\<close>

definition unsigned_part :: "string \<Rightarrow> string" where
  "unsigned_part s = (if take 1 s = ''-'' then tl s else s)"

definition DECIMAL :: "string \<Rightarrow> bool" where
  "DECIMAL s \<longleftrightarrow>
     (let whole = takeWhile is_digit (unsigned_part s); rest = dropWhile is_digit (unsigned_part s)
      in (whole = ''0'' \<or> whole \<noteq> [] \<and> hd whole \<noteq> CHR ''0'') \<and>
         (rest = [] \<or> hd rest = CHR ''.'' \<and> tl rest \<noteq> [] \<and> list_all is_digit (tl rest)))"

definition decimal_of :: "string \<Rightarrow> rat" where
  "decimal_of s =
     (let whole = takeWhile is_digit (unsigned_part s); fraction = drop 1 (dropWhile is_digit (unsigned_part s));
          magnitude = of_nat (decimal_value whole) + of_nat (decimal_value fraction) / 10 ^ length fraction
      in if take 1 s = ''-'' then - magnitude else magnitude)"

definition in_range :: "rat \<Rightarrow> string \<Rightarrow> bool" where
  "in_range bound s \<longleftrightarrow> - bound \<le> decimal_of s \<and> decimal_of s \<le> bound"

definition coordinate :: "string \<Rightarrow> rat \<Rightarrow> exn + string" where
  "coordinate s bound =
     (if 32 < length s \<or> \<not> DECIMAL s then Inl record_invalid
      else if \<not> in_range bound s then Inl record_invalid else Inr s)"

definition validated_coordinates :: "sql_value \<Rightarrow> sql_value \<Rightarrow> exn + string option \<times> string option" where
  "validated_coordinates latitude longitude =
     (case (latitude, longitude) of
        (SqlNull, SqlNull) \<Rightarrow> Inr (None, None)
      | (SqlText lat, SqlText lon) \<Rightarrow>
          bind_res (coordinate lat 90) (\<lambda>lat. bind_res (coordinate lon 180) (\<lambda>lon. Inr (Some lat, Some lon)))
      | _ \<Rightarrow> Inl record_invalid)"

section \<open>lookup\<close>

definition lookup_row :: "int \<Rightarrow> catalogue_row \<Rightarrow> exn + catalogue_record" where
  "lookup_row n row =
     (case cr_record_status row of
        SqlText status \<Rightarrow>
          if status \<notin> {''Official'', ''Relict''} then Inl (MetbullNotOfficial ''metbull_name_not_official'')
          else bind_res (bounded_text (cr_canonical_name row) 128) (\<lambda>name.
               bind_res (bounded_text (cr_recommended_classification row) 128) (\<lambda>classification.
               case cr_fall_or_find row of
                 SqlText fall_or_find \<Rightarrow>
                   if fall_or_find \<notin> {''Fall'', ''Find''} then Inl record_invalid
                   else bind_res (validated_year (cr_year_found row)) (\<lambda>year.
                        bind_res (validated_coordinates (cr_latitude row) (cr_longitude row)) (\<lambda>(latitude, longitude).
                        bind_res (validated_country (cr_country row)) (\<lambda>country.
                          Inr \<lparr>mr_code = n, mr_official_url = METBULL_OFFICIAL_URL n, mr_canonical_name = name,
                               mr_record_status = status, mr_official_name = True,
                               mr_recommended_classification = classification, mr_fall_or_find = fall_or_find,
                               mr_year_found = year, mr_country = country, mr_latitude = latitude, mr_longitude = longitude\<rparr>)))
               | _ \<Rightarrow> Inl record_invalid))
      | _ \<Rightarrow> Inl record_invalid)"

definition metbull_lookup :: "snapshot_db option \<Rightarrow> int \<Rightarrow> exn + catalogue_record" where
  "metbull_lookup file n =
     bind_res (validated_code n) (\<lambda>n.
     case file of
       None \<Rightarrow> Inl (MetbullUnavailable ''metbull_snapshot_unavailable'')
     | Some s \<Rightarrow>
         (case find (\<lambda>row. cr_code row = n) (sd_records s) of
            None \<Rightarrow> Inl (MetbullNotFound ''metbull_record_not_found'')
          | Some row \<Rightarrow> lookup_row n row))"

section \<open>The snapshot is checked when it is opened\<close>

definition SOURCE_URL :: string where
  "SOURCE_URL = ''https://www.lpi.usra.edu/meteor/metbull.cfm?sea=%25&sfor=names&stype=contains&csv=1''"

definition APPLICATION_ID :: int where "APPLICATION_ID = 0x4D42554C"
definition SCHEMA_VERSION :: int where "SCHEMA_VERSION = 2"
definition MINIMUM_ROWS :: int where "MINIMUM_ROWS = 80000"

definition METADATA_KEYS :: "string set" where
  "METADATA_KEYS = {''schema_version'', ''source'', ''retrieved_at_utc'', ''source_sha256'', ''database_sha256'', ''row_count'',
     ''official_database_updated_utc''}"

definition SOURCE_KEYS :: "string set" where
  "SOURCE_KEYS = {''name'', ''publisher'', ''url''}"

definition INTERNAL_METADATA_KEYS :: "string set" where
  "INTERNAL_METADATA_KEYS = {''schema_version'', ''source_url'', ''source_sha256'', ''row_count''}"

definition metadata_invalid :: exn where
  "metadata_invalid = MetbullUnavailable ''metbull_snapshot_metadata_invalid''"

text \<open>\<open>YYYY-MM-DDTHH:MM:SSZ\<close>: the pattern, and what \<open>strptime\<close> then demands of the numbers.\<close>

fun fits :: "string \<Rightarrow> string \<Rightarrow> bool" where
  "fits [] [] \<longleftrightarrow> True"
| "fits (t # ts) (c # cs) \<longleftrightarrow> (if t = CHR ''0'' then is_digit c else c = t) \<and> fits ts cs"
| "fits _ _ \<longleftrightarrow> False"

definition UTC_TIMESTAMP :: "string \<Rightarrow> bool" where
  "UTC_TIMESTAMP s = fits ''0000-00-00T00:00:00Z'' s"

definition strptime_ok :: "string \<Rightarrow> bool" where
  "strptime_ok s \<longleftrightarrow>
     (let y = decimal_value (take 4 s); m = decimal_value (take 2 (drop 5 s)); d = decimal_value (take 2 (drop 8 s))
      in 1 \<le> y \<and> 1 \<le> m \<and> m \<le> 12 \<and> 1 \<le> d \<and> int d \<le> days_in_month (is_leap (int y)) m \<and>
         decimal_value (take 2 (drop 11 s)) < 24 \<and> decimal_value (take 2 (drop 14 s)) < 60 \<and>
         decimal_value (take 2 (drop 17 s)) < 60)"

definition validate_utc_timestamp :: "pyval \<Rightarrow> bool \<Rightarrow> exn + unit" where
  "validate_utc_timestamp v nullable =
     (if v = PNone \<and> nullable then Inr ()
      else case v of
          PStr s \<Rightarrow>
            if \<not> UTC_TIMESTAMP s then Inl metadata_invalid
            else if \<not> strptime_ok s then Inl (ValueError ''time data does not match format'') else Inr ()
        | _ \<Rightarrow> Inl metadata_invalid)"

fun lower_sha_value :: "pyval \<Rightarrow> bool" where
  "lower_sha_value (PStr s) = LOWER_SHA256 s"
| "lower_sha_value _ = False"

definition load_metadata :: "(snapshot_db \<Rightarrow> bytes) \<Rightarrow> (bytes \<Rightarrow> bytes) \<Rightarrow> snapshot_files \<Rightarrow> exn + (string \<times> pyval) list" where
  "load_metadata sql_bytes sha f =
     (case (sf_metadata f, sf_database f) of
        (Some (text_length, content), Some database) \<Rightarrow>
          if 64 * 1024 < text_length then Inl metadata_invalid
          else (case content of
              None \<Rightarrow> Inl (ValueError ''JSONDecodeError'')
            | Some (PDict metadata) \<Rightarrow>
                if dict_keys metadata \<noteq> METADATA_KEYS then Inl metadata_invalid
                else (case dict_get metadata ''source'' of
                    PDict source \<Rightarrow>
                      if dict_keys source \<noteq> SOURCE_KEYS \<or>
                         dict_get source ''name'' \<noteq> PStr ''Meteoritical Bulletin Database'' \<or>
                         dict_get source ''publisher'' \<noteq> PStr ''Lunar and Planetary Institute'' \<or>
                         dict_get source ''url'' \<noteq> PStr SOURCE_URL
                      then Inl metadata_invalid
                      else if \<not> equals_int (dict_get metadata ''schema_version'') SCHEMA_VERSION then Inl metadata_invalid
                      else (case dict_get metadata ''row_count'' of
                          PInt n \<Rightarrow>
                            if n < MINIMUM_ROWS then Inl metadata_invalid
                            else if \<not> lower_sha_value (dict_get metadata ''source_sha256'') \<or>
                                    \<not> lower_sha_value (dict_get metadata ''database_sha256'') then Inl metadata_invalid
                            else bind_res (validate_utc_timestamp (dict_get metadata ''retrieved_at_utc'') False) (\<lambda>_.
                                 bind_res (validate_utc_timestamp (dict_get metadata ''official_database_updated_utc'') True) (\<lambda>_.
                                 if PStr (hex (sha (sql_bytes database))) \<noteq> dict_get metadata ''database_sha256''
                                 then Inl (MetbullUnavailable ''metbull_snapshot_hash_mismatch'')
                                 else Inr metadata))
                        | _ \<Rightarrow> Inl metadata_invalid)
                  | _ \<Rightarrow> Inl metadata_invalid)
            | Some _ \<Rightarrow> Inl metadata_invalid)
      | _ \<Rightarrow> Inl (MetbullUnavailable ''metbull_snapshot_missing''))"

definition snapshot_objects :: "(string \<times> string) list" where
  "snapshot_objects = [(''records'', ''table''), (''records_country_idx'', ''index''), (''snapshot_metadata'', ''table'')]"

definition expected_columns :: "(string \<times> string \<times> int \<times> int) list" where
  "expected_columns = [(''code'', ''INTEGER'', 0, 1), (''canonical_name'', ''TEXT'', 1, 0), (''record_status'', ''TEXT'', 1, 0),
     (''recommended_classification'', ''TEXT'', 1, 0), (''fall_or_find'', ''TEXT'', 1, 0), (''year_found'', ''INTEGER'', 0, 0),
     (''country'', ''TEXT'', 0, 0), (''latitude'', ''TEXT'', 0, 0), (''longitude'', ''TEXT'', 0, 0)]"

definition is_sentinel :: "catalogue_row \<Rightarrow> bool" where
  "is_sentinel row \<longleftrightarrow> cr_canonical_name row = SqlText ''Northwest Africa 18652'' \<and> cr_record_status row = SqlText ''Relict'' \<and>
     cr_recommended_classification row = SqlText ''Relict iron'' \<and> cr_fall_or_find row = SqlText ''Find'' \<and>
     cr_year_found row = SqlInteger 2018 \<and> cr_country row = SqlText ''Western Sahara'' \<and> cr_latitude row = SqlNull \<and>
     cr_longitude row = SqlNull"

definition sentinel_ok :: "snapshot_db \<Rightarrow> bool" where
  "sentinel_ok s = (case find (\<lambda>row. cr_code row = 87447) (sd_records s) of None \<Rightarrow> False | Some row \<Rightarrow> is_sentinel row)"

text \<open>The dictionary of the internal metadata: a key that comes twice has the last value.\<close>

definition validate_database :: "(rat \<Rightarrow> string) \<Rightarrow> (string \<times> pyval) list \<Rightarrow> snapshot_db \<Rightarrow> exn + unit" where
  "validate_database float_repr metadata s =
     (let internal = map_of (rev (sd_metadata s)) in
      if sd_application_id s \<noteq> APPLICATION_ID then Inl (MetbullUnavailable ''metbull_snapshot_schema_invalid'')
      else if sd_user_version s \<noteq> SCHEMA_VERSION then Inl (MetbullUnavailable ''metbull_snapshot_schema_invalid'')
      else if sd_objects s \<noteq> snapshot_objects then Inl (MetbullUnavailable ''metbull_snapshot_schema_invalid'')
      else if sd_columns s \<noteq> expected_columns then Inl (MetbullUnavailable ''metbull_snapshot_schema_invalid'')
      else if sd_integrity s \<noteq> [''ok''] then Inl (MetbullUnavailable ''metbull_snapshot_integrity_invalid'')
      else if fst ` set (sd_metadata s) \<noteq> INTERNAL_METADATA_KEYS then Inl metadata_invalid
      else if internal ''schema_version'' \<noteq> Some (py_str float_repr (dict_get metadata ''schema_version'')) \<or>
              internal ''source_url'' \<noteq> Some SOURCE_URL \<or>
              map_option PStr (internal ''source_sha256'') \<noteq> Some (dict_get metadata ''source_sha256'') \<or>
              internal ''row_count'' \<noteq> Some (py_str float_repr (dict_get metadata ''row_count''))
      then Inl metadata_invalid
      else if PInt (int (length (sd_records s))) \<noteq> dict_get metadata ''row_count''
      then Inl (MetbullUnavailable ''metbull_snapshot_row_count_invalid'')
      else if \<not> sentinel_ok s then Inl (MetbullUnavailable ''metbull_snapshot_sentinel_invalid'')
      else Inr ())"

text \<open>\<open>MeteoriticalBulletinSnapshot\<close>, with the database that it serves.\<close>

definition MeteoriticalBulletinSnapshot ::
  "(snapshot_db \<Rightarrow> bytes) \<Rightarrow> (bytes \<Rightarrow> bytes) \<Rightarrow> (rat \<Rightarrow> string) \<Rightarrow> snapshot_files \<Rightarrow> exn + snapshot_db" where
  "MeteoriticalBulletinSnapshot sql_bytes sha float_repr f =
     (case bind_res (load_metadata sql_bytes sha f) (\<lambda>metadata.
        case sf_database f of
          None \<Rightarrow> Inl (OtherException ''OperationalError'')
        | Some s \<Rightarrow> bind_res (validate_database float_repr metadata s) (\<lambda>_. Inr s)) of
        Inr s \<Rightarrow> Inr s
      | Inl (MetbullUnavailable m) \<Rightarrow> Inl (MetbullUnavailable m)
      | Inl e \<Rightarrow> Inl (MetbullUnavailable ''metbull_snapshot_invalid''))"

section \<open>GET /v1/meteorites/metbull\<close>

definition coordinate_response_ok :: "string option \<Rightarrow> bool" where
  "coordinate_response_ok v = (case v of None \<Rightarrow> True | Some s \<Rightarrow> DECIMAL s \<and> length s \<le> 32)"

definition MetbullRecordResponse :: "catalogue_record \<Rightarrow> bool" where
  "MetbullRecordResponse r \<longleftrightarrow>
     1 \<le> mr_code r \<and> mr_code r \<le> 999999999 \<and>
     (let prefix = ''https://www.lpi.usra.edu/meteor/metbull.cfm?code=''
      in take (length prefix) (mr_official_url r) = prefix \<and> CANONICAL_CODE (drop (length prefix) (mr_official_url r))) \<and>
     1 \<le> length (mr_canonical_name r) \<and> length (mr_canonical_name r) \<le> 128 \<and>
     1 \<le> length (mr_record_status r) \<and> length (mr_record_status r) \<le> 64 \<and>
     mr_official_name r \<and>
     1 \<le> length (mr_recommended_classification r) \<and> length (mr_recommended_classification r) \<le> 128 \<and>
     mr_fall_or_find r \<in> {''Fall'', ''Find''} \<and>
     (case mr_year_found r of None \<Rightarrow> True | Some y \<Rightarrow> 1 \<le> y \<and> y \<le> 9999) \<and>
     (case mr_country r of None \<Rightarrow> True | Some s \<Rightarrow> 1 \<le> length s \<and> length s \<le> 128) \<and>
     coordinate_response_ok (mr_latitude r) \<and> coordinate_response_ok (mr_longitude r) \<and>
     mr_official_url r = METBULL_OFFICIAL_URL (mr_code r)"

fun metbull_http :: "exn \<Rightarrow> exn" where
  "metbull_http (MetbullNotFound _) = HTTPException 404 ''meteorite record not found''"
| "metbull_http (MetbullNotOfficial _) = HTTPException 409 ''meteorite name is not official''"
| "metbull_http (MetbullUnavailable _) = HTTPException 503 ''meteorite lookup unavailable''"
| "metbull_http e = (if is_ValueError e then HTTPException 503 ''meteorite lookup unavailable'' else e)"

text \<open>\<open>metbull_record\<close>, from the parameters of the query. FastAPI takes the last parameter of the name \<open>code\<close>.\<close>

definition metbull_record :: "bool \<Rightarrow> snapshot_db option option \<Rightarrow> (string \<times> string) list \<Rightarrow> exn + catalogue_record" where
  "metbull_record metbull_lookup_enabled lookup query =
     (case map_of (rev query) ''code'' of
        None \<Rightarrow> Inl (HTTPException 422 ''invalid request'')
      | Some text \<Rightarrow>
          if \<not> CANONICAL_CODE text then Inl (HTTPException 422 ''invalid request'')
          else if query \<noteq> [(''code'', text)] then Inl (HTTPException 422 ''invalid request'')
          else (case lookup of
              None \<Rightarrow> Inl (HTTPException 503 ''meteorite lookup unavailable'')
            | Some file \<Rightarrow>
                if \<not> metbull_lookup_enabled then Inl (HTTPException 503 ''meteorite lookup unavailable'')
                else (case bind_res (metbull_lookup file (int (decimal_value text))) (\<lambda>r.
                    if MetbullRecordResponse r then Inr r else Inl (ValueError ''MetbullRecordResponse'')) of
                    Inl e \<Rightarrow> Inl (metbull_http e)
                  | Inr r \<Rightarrow> Inr r)))"

section \<open>Codes\<close>

lemma CANONICAL_CODE_iff: "CANONICAL_CODE s \<longleftrightarrow> s \<noteq> [] \<and> hd s \<noteq> CHR ''0'' \<and> list_all is_digit s \<and> length s \<le> 9"
  by (cases s) (auto simp: CANONICAL_CODE_def match_head_def)

lemma is_digit_char: "is_digit c \<Longrightarrow> digit_char (code c - 48) = c"
  by (auto simp: is_digit_def digit_char_def code_def)

text \<open>A canonical code is the decimal text of its number.\<close>

lemma nat_str_decimal_value:
  "list_all is_digit s \<Longrightarrow> s \<noteq> [] \<Longrightarrow> hd s \<noteq> CHR ''0'' \<Longrightarrow> nat_str (decimal_value s) = s \<and> 0 < decimal_value s"
proof (induction s rule: rev_induct)
  case (snoc c s)
  have digit: "48 \<le> code c" "code c \<le> 57" "digit_char (code c - 48) = c"
    using snoc.prems by (simp_all add: is_digit_def is_digit_char [unfolded is_digit_def])
  show ?case
  proof (cases "s = []")
    case True
    have "digit_char 0 = CHR ''0''" by code_simp
    then have "code c \<noteq> 48" using snoc.prems(3) True digit(3) by auto
    then show ?thesis using True digit by (subst nat_str.simps) (auto simp: decimal_value_def)
  next
    case False
    then have ih: "nat_str (decimal_value s) = s" "0 < decimal_value s" using snoc by simp_all
    define k where "k = code c - 48"
    then have k: "code c - 48 = k" "k < 10" using digit(1,2) by simp_all
    have "(10 * decimal_value s + k) div 10 = decimal_value s" "(10 * decimal_value s + k) mod 10 = k" using k(2) by simp_all
    then show ?thesis
      using ih digit(3) k(1) by (subst nat_str.simps) (simp add: decimal_value_snoc)
  qed
qed simp

lemma CANONICAL_CODE_int_str: "CANONICAL_CODE (int_str n) \<longleftrightarrow> 1 \<le> n \<and> n \<le> 999999999"
proof (cases "1 \<le> n")
  case True
  then have shown: "int_str n = nat_str (nat n)" by (simp add: int_str_def)
  have "length (nat_str (nat n)) \<le> 9 \<longleftrightarrow> nat n < 10 ^ 9"
    using nat_str_length_le [of "nat n" 9] nat_str_length_ge [of 9 "nat n"] by linarith
  then show ?thesis
    using True nat_str_head [of "nat n"] by (auto simp: CANONICAL_CODE_iff shown nat_str_digits)
next
  case False
  have "\<not> is_digit (CHR ''-'')" by code_simp
  moreover have "nat_str 0 = ''0''" by code_simp
  ultimately show ?thesis using False by (auto simp: CANONICAL_CODE_iff int_str_def)
qed

lemma canonical_code_number:
  assumes "CANONICAL_CODE text"
  shows "int_str (int (decimal_value text)) = text" "validated_code (int (decimal_value text)) = Inr (int (decimal_value text))"
proof -
  show same: "int_str (int (decimal_value text)) = text"
    using nat_str_decimal_value [of "text"] assms by (simp add: CANONICAL_CODE_iff int_str_def)
  show "validated_code (int (decimal_value text)) = Inr (int (decimal_value text))"
    using assms by (simp add: validated_code_def same)
qed

section \<open>An answer passes the schema of the response\<close>

lemma bounded_text_Inr: "bounded_text v n = Inr s \<longleftrightarrow> v = SqlText s \<and> bounded s n"
  by (cases v) (auto simp: bounded_text_def)

lemma coordinate_Inr: "coordinate s b = Inr t \<longleftrightarrow> t = s \<and> length s \<le> 32 \<and> DECIMAL s \<and> in_range b s"
  by (auto simp: coordinate_def)

lemma validated_coordinates_ok:
  assumes "validated_coordinates a b = Inr (lat, lon)"
  shows "coordinate_response_ok lat \<and> coordinate_response_ok lon"
proof (cases "a = SqlNull \<and> b = SqlNull")
  case True
  then show ?thesis using assms by (simp add: validated_coordinates_def coordinate_response_ok_def)
next
  case False
  then obtain x y where "a = SqlText x" "b = SqlText y"
    using assms by (cases a; cases b) (simp_all add: validated_coordinates_def)
  then show ?thesis
    using assms by (auto simp: validated_coordinates_def bind_res_Inr_iff coordinate_Inr coordinate_response_ok_def)
qed

lemma validated_country_ok: "validated_country v = Inr c \<Longrightarrow> (case c of None \<Rightarrow> True | Some s \<Rightarrow> 1 \<le> length s \<and> length s \<le> 128)"
  by (cases v) (auto simp: validated_country_def bind_res_Inr_iff bounded_text_Inr bounded_def)

lemma validated_year_ok: "validated_year v = Inr y \<Longrightarrow> (case y of None \<Rightarrow> True | Some n \<Rightarrow> 1 \<le> n \<and> n \<le> 9999)"
  by (cases v) (auto simp: validated_year_def split: if_splits)

lemma lookup_row_Inr:
  assumes "lookup_row n row = Inr r"
  obtains status name classification fall year lat lon country where "cr_record_status row = SqlText status"
    "status \<in> {''Official'', ''Relict''}" "bounded_text (cr_canonical_name row) 128 = Inr name"
    "bounded_text (cr_recommended_classification row) 128 = Inr classification" "cr_fall_or_find row = SqlText fall"
    "fall \<in> {''Fall'', ''Find''}" "validated_year (cr_year_found row) = Inr year"
    "validated_coordinates (cr_latitude row) (cr_longitude row) = Inr (lat, lon)" "validated_country (cr_country row) = Inr country"
    "r = \<lparr>mr_code = n, mr_official_url = METBULL_OFFICIAL_URL n, mr_canonical_name = name, mr_record_status = status,
       mr_official_name = True, mr_recommended_classification = classification, mr_fall_or_find = fall,
       mr_year_found = year, mr_country = country, mr_latitude = lat, mr_longitude = lon\<rparr>"
proof -
  obtain status where status: "cr_record_status row = SqlText status" "status \<in> {''Official'', ''Relict''}"
    using assms by (cases "cr_record_status row") (auto simp: lookup_row_def split: if_splits)
  have body: "bind_res (bounded_text (cr_canonical_name row) 128) (\<lambda>name.
       bind_res (bounded_text (cr_recommended_classification row) 128) (\<lambda>classification.
       case cr_fall_or_find row of
         SqlText fall_or_find \<Rightarrow>
           if fall_or_find \<notin> {''Fall'', ''Find''} then Inl record_invalid
           else bind_res (validated_year (cr_year_found row)) (\<lambda>year.
                bind_res (validated_coordinates (cr_latitude row) (cr_longitude row)) (\<lambda>(latitude, longitude).
                bind_res (validated_country (cr_country row)) (\<lambda>country.
                  Inr \<lparr>mr_code = n, mr_official_url = METBULL_OFFICIAL_URL n, mr_canonical_name = name,
                       mr_record_status = status, mr_official_name = True,
                       mr_recommended_classification = classification, mr_fall_or_find = fall_or_find,
                       mr_year_found = year, mr_country = country, mr_latitude = latitude, mr_longitude = longitude\<rparr>)))
       | _ \<Rightarrow> Inl record_invalid)) = Inr r"
  proof -
    have "\<not> status \<notin> {''Official'', ''Relict''}" using status(2) by blast
    with assms show ?thesis by (simp only: lookup_row_def status(1) sql_value.case if_False simp_thms)
  qed
  obtain name classification where texts: "bounded_text (cr_canonical_name row) 128 = Inr name"
    "bounded_text (cr_recommended_classification row) 128 = Inr classification"
    using body by (auto simp: bind_res_Inr_iff)
  note body2 = body [unfolded texts bind_res_simps]
  obtain fall where fall: "cr_fall_or_find row = SqlText fall" "fall \<in> {''Fall'', ''Find''}"
    using body2 by (cases "cr_fall_or_find row") (auto split: if_splits)
  then have body3: "bind_res (validated_year (cr_year_found row)) (\<lambda>year.
      bind_res (validated_coordinates (cr_latitude row) (cr_longitude row)) (\<lambda>(latitude, longitude).
      bind_res (validated_country (cr_country row)) (\<lambda>country.
        Inr \<lparr>mr_code = n, mr_official_url = METBULL_OFFICIAL_URL n, mr_canonical_name = name,
             mr_record_status = status, mr_official_name = True,
             mr_recommended_classification = classification, mr_fall_or_find = fall,
             mr_year_found = year, mr_country = country, mr_latitude = latitude, mr_longitude = longitude\<rparr>))) = Inr r"
    using body2 by auto
  then obtain year lat lon country where "validated_year (cr_year_found row) = Inr year"
    "validated_coordinates (cr_latitude row) (cr_longitude row) = Inr (lat, lon)" "validated_country (cr_country row) = Inr country"
    "r = \<lparr>mr_code = n, mr_official_url = METBULL_OFFICIAL_URL n, mr_canonical_name = name, mr_record_status = status,
       mr_official_name = True, mr_recommended_classification = classification, mr_fall_or_find = fall,
       mr_year_found = year, mr_country = country, mr_latitude = lat, mr_longitude = lon\<rparr>"
    by (auto simp: bind_res_Inr_iff)
  then show thesis using that status texts fall by blast
qed

lemma lookup_row_valid:
  assumes "lookup_row n row = Inr r" "1 \<le> n" "n \<le> 999999999"
  shows "MetbullRecordResponse r"
  using assms(1)
proof (rule lookup_row_Inr)
  fix status name classification fall year lat lon country
  assume parts: "status \<in> {''Official'', ''Relict''}" "bounded_text (cr_canonical_name row) 128 = Inr name"
    "bounded_text (cr_recommended_classification row) 128 = Inr classification"
    "fall \<in> {''Fall'', ''Find''}" "validated_year (cr_year_found row) = Inr year"
    "validated_coordinates (cr_latitude row) (cr_longitude row) = Inr (lat, lon)" "validated_country (cr_country row) = Inr country"
    and r: "r = \<lparr>mr_code = n, mr_official_url = METBULL_OFFICIAL_URL n, mr_canonical_name = name, mr_record_status = status,
       mr_official_name = True, mr_recommended_classification = classification, mr_fall_or_find = fall,
       mr_year_found = year, mr_country = country, mr_latitude = lat, mr_longitude = lon\<rparr>"
  have "CANONICAL_CODE (int_str n)" using assms(2,3) by (simp add: CANONICAL_CODE_int_str)
  then show ?thesis
    using parts assms(2,3) validated_coordinates_ok [OF parts(6)] validated_country_ok [OF parts(7)] validated_year_ok [OF parts(5)]
    by (auto simp: r MetbullRecordResponse_def METBULL_OFFICIAL_URL_def Let_def bounded_text_Inr bounded_def)
qed

text \<open>The endpoint answers every canonical code from the row of the snapshot. What the reader of the snapshot returns always passes the
  schema of the response, so that no readable record is withheld.\<close>

lemma metbull_answer:
  assumes "CANONICAL_CODE text"
  shows "metbull_record True (Some (Some s)) [(''code'', text)] =
    (case find (\<lambda>row. cr_code row = int (decimal_value text)) (sd_records s) of
       None \<Rightarrow> Inl (HTTPException 404 ''meteorite record not found'')
     | Some row \<Rightarrow> (case lookup_row (int (decimal_value text)) row of Inl e \<Rightarrow> Inl (metbull_http e) | Inr r \<Rightarrow> Inr r))"
proof -
  have range: "1 \<le> int (decimal_value text)" "int (decimal_value text) \<le> 999999999"
    using assms canonical_code_number(1) [OF assms] CANONICAL_CODE_int_str by metis+
  show ?thesis
  proof (cases "find (\<lambda>row. cr_code row = int (decimal_value text)) (sd_records s)")
    case None
    then show ?thesis by (simp add: metbull_record_def assms metbull_lookup_def canonical_code_number(2) [OF assms])
  next
    case (Some row)
    show ?thesis
    proof (cases "lookup_row (int (decimal_value text)) row")
      case (Inl e)
      then show ?thesis using Some by (simp add: metbull_record_def assms metbull_lookup_def canonical_code_number(2) [OF assms])
    next
      case (Inr r)
      then show ?thesis
        using Some lookup_row_valid [OF Inr range]
        by (simp add: metbull_record_def assms metbull_lookup_def canonical_code_number(2) [OF assms])
    qed
  qed
qed

end
