(* ===== verification/Metbull_Update.thy ===== *)
theory Metbull_Update
  imports Metbull Receipts
begin

text \<open>
  The program that makes the snapshot of the catalogue (\<open>scripts/update_metbull_snapshot.py\<close>), and the proof that the
  service serves exactly what it wrote.

  The CSV reader of Python's library is written out as its state machine. The text of the other file is modelled by its length
  and the value that \<open>json.loads\<close> gives back. Temporary files, permissions and synchronisation with the disk are left out.
\<close>

section \<open>csv.reader with strict=True\<close>

datatype csv_state = START_RECORD | START_FIELD | IN_FIELD | IN_QUOTED_FIELD | QUOTE_IN_QUOTED_FIELD | EAT_CRNL

record csv_parser =
  cs_state :: csv_state
  cs_field :: string
  cs_fields :: "string list"

definition csv_field_limit :: nat where "csv_field_limit = 131072"

definition csv_add :: "csv_state \<Rightarrow> char \<Rightarrow> csv_parser \<Rightarrow> csv_parser option" where
  "csv_add next_state c p =
     (if csv_field_limit \<le> length (cs_field p) then None
      else Some (p\<lparr>cs_field := cs_field p @ [c], cs_state := next_state\<rparr>))"

definition csv_save :: "csv_state \<Rightarrow> csv_parser \<Rightarrow> csv_parser option" where
  "csv_save next_state p = Some \<lparr>cs_state = next_state, cs_field = [], cs_fields = cs_fields p @ [cs_field p]\<rparr>"

definition QUOTE :: char where "QUOTE = CHR 0x22"
definition DELIMITER :: char where "DELIMITER = CHR '',''"

definition line_end :: "char option \<Rightarrow> bool" where
  "line_end c \<longleftrightarrow> c \<in> {None, Some (CHR 0x0A), Some (CHR 0x0D)}"

definition after_end :: "char option \<Rightarrow> csv_state" where
  "after_end c = (if c = None then START_RECORD else EAT_CRNL)"

text \<open>One character of a line, \<open>None\<close> for its end. The result is \<open>None\<close> for a \<open>csv.Error\<close>.\<close>

definition csv_start_field :: "csv_parser \<Rightarrow> char option \<Rightarrow> csv_parser option" where
  "csv_start_field p c =
     (if line_end c then csv_save (after_end c) p
      else if c = Some QUOTE then Some (p\<lparr>cs_state := IN_QUOTED_FIELD\<rparr>)
      else if c = Some DELIMITER then csv_save START_FIELD p
      else csv_add IN_FIELD (the c) p)"

definition csv_char :: "csv_parser \<Rightarrow> char option \<Rightarrow> csv_parser option" where
  "csv_char p c =
     (case cs_state p of
        START_RECORD \<Rightarrow> if c = None then Some p else if line_end c then Some (p\<lparr>cs_state := EAT_CRNL\<rparr>) else csv_start_field p c
      | START_FIELD \<Rightarrow> csv_start_field p c
      | IN_FIELD \<Rightarrow>
          if line_end c then csv_save (after_end c) p
          else if c = Some DELIMITER then csv_save START_FIELD p
          else csv_add IN_FIELD (the c) p
      | IN_QUOTED_FIELD \<Rightarrow>
          if c = None then Some p
          else if c = Some QUOTE then Some (p\<lparr>cs_state := QUOTE_IN_QUOTED_FIELD\<rparr>)
          else csv_add IN_QUOTED_FIELD (the c) p
      | QUOTE_IN_QUOTED_FIELD \<Rightarrow>
          if c = Some QUOTE then csv_add IN_QUOTED_FIELD QUOTE p
          else if c = Some DELIMITER then csv_save START_FIELD p
          else if line_end c then csv_save (after_end c) p
          else None
      | EAT_CRNL \<Rightarrow>
          if c = None then Some (p\<lparr>cs_state := START_RECORD\<rparr>) else if line_end c then Some p else None)"

fun csv_line :: "csv_parser \<Rightarrow> string \<Rightarrow> csv_parser option" where
  "csv_line p [] = csv_char p None"
| "csv_line p (c # cs) = Option.bind (csv_char p (Some c)) (\<lambda>q. csv_line q cs)"

datatype csv_item = CsvRow "string list" | CsvStop | CsvError

text \<open>\<open>next(reader)\<close> over the lines that are left.\<close>

fun csv_next :: "csv_parser \<Rightarrow> string list \<Rightarrow> csv_item \<times> string list" where
  "csv_next p [] = (if cs_field p \<noteq> [] \<or> cs_state p = IN_QUOTED_FIELD then CsvError else CsvStop, [])"
| "csv_next p (l # ls) =
     (case csv_line p l of
        None \<Rightarrow> (CsvError, ls)
      | Some q \<Rightarrow> if cs_state q = START_RECORD then (CsvRow (cs_fields q), ls) else csv_next q ls)"

definition csv_reset :: csv_parser where
  "csv_reset = \<lparr>cs_state = START_RECORD, cs_field = [], cs_fields = []\<rparr>"

lemma csv_next_shorter: "csv_next p ls = (CsvRow r, rest) \<Longrightarrow> length rest < length ls"
  by (induction ls arbitrary: p) (fastforce split: if_splits option.splits)+

text \<open>The rows of a text, up to its end or its first error.\<close>

function csv_items :: "string list \<Rightarrow> csv_item list" where
  "csv_items ls =
     (case csv_next csv_reset ls of
        (CsvRow r, rest) \<Rightarrow> CsvRow r # csv_items rest
      | (item, rest) \<Rightarrow> [item])"
  by pat_completeness auto

termination
  by (relation "measure length") (auto dest: csv_next_shorter [OF sym])

declare csv_items.simps [simp del]

text \<open>The lines of \<open>StringIO(text, newline="")\<close>.\<close>

fun take_line :: "string \<Rightarrow> string \<times> string" where
  "take_line [] = ([], [])"
| "take_line (c # cs) =
     (if c = CHR 0x0A then ([c], cs)
      else if c = CHR 0x0D then (if take 1 cs = [CHR 0x0A] then ([c, CHR 0x0A], drop 1 cs) else ([c], cs))
      else case take_line cs of (line, rest) \<Rightarrow> (c # line, rest))"

lemma take_line_shorter: "length (snd (take_line cs)) \<le> length cs"
  by (induction cs rule: take_line.induct) (auto split: prod.splits)

function text_lines :: "string \<Rightarrow> string list" where
  "text_lines [] = []"
| "text_lines (c # cs) = fst (take_line (c # cs)) # text_lines (snd (take_line (c # cs)))"
  by pat_completeness auto

termination
proof (relation "measure length", simp_all only: in_measure wf_measure)
  fix c cs
  show "length (snd (take_line (c # cs))) < length (c # cs)"
    using take_line_shorter [of cs] by (auto split: prod.split)
qed

section \<open>The rows\<close>

definition EXPECTED_HEADER :: "string list" where
  "EXPECTED_HEADER = [''Code'', ''Name'', ''Abbrev'', ''Status'', ''Fall'', ''Year'', ''Place'', ''Type'', ''Mass'', ''MetBull'',
     ''Antarctic'', ''Lat'', ''Long'', ''Comment'']"

definition MAX_DOWNLOAD_BYTES :: nat where "MAX_DOWNLOAD_BYTES = 32 * 1024 * 1024"
definition MINIMUM_ROW_COUNT :: int where "MINIMUM_ROW_COUNT = 80000"

definition ALLOWED_STATUSES :: "string list" where
  "ALLOWED_STATUSES = [''Official'', ''Relict'', ''Provisional'', ''Pseudo'', ''Crater'', ''Doubtful'', ''Discredited'',
     ''Undocumented'', ''Artifact'']"

definition FALL_MARKERS :: "string list" where
  "FALL_MARKERS = [[], ''Y'', ''Yc'', ''Yp'', ''Np'', ''Nd'']"

definition FALL_VALUES :: "string list" where
  "FALL_VALUES = [''Y'', ''Yc'', ''Yp'']"

text \<open>The names of the countries, as the source lists them.\<close>

definition COUNTRY_NAMES :: "string list" where
  "COUNTRY_NAMES = [''Afghanistan'', ''Algeria'', ''Angola'', ''Argentina'', ''Armenia'', ''Australia'', ''Austria'',
     ''Azerbaijan'', ''Bangladesh'', ''Belarus'', ''Belgium'', ''Bolivia'', ''Bosnia and Herzegovina'', ''Botswana'',
     ''Brazil'', ''Bulgaria'', ''Burkina Faso'', ''Cambodia'', ''Cameroon'', ''Canada'', ''Central African Republic'',
     ''Chad'', ''Chile'', ''China'', ''Colombia'', ''Costa Rica'', ''Croatia'', ''Cuba'', ''Czech Republic'', ''Denmark'',
     ''Ecuador'', ''Egypt'', ''Estonia'', ''Ethiopia'', ''Finland'', ''France'', ''Germany'', ''Ghana'', ''Greece'',
     ''Greenland'', ''Guatemala'', ''Honduras'', ''Hungary'', ''India'', ''Indonesia'', ''Iran'', ''Iraq'', ''Ireland'',
     ''Isle of Man'', ''Israel'', ''Italy'', ''Jamaica'', ''Japan'', ''Jordan'', ''Kazakhstan'', ''Kenya'', ''Laos'',
     ''Latvia'', ''Lebanon'', ''Lesotho'', ''Libya'', ''Lithuania'', ''Madagascar'', ''Malawi'', ''Mali'', ''Mauritania'',
     ''Mauritius'', ''Mexico'', ''Mongolia'', ''Morocco'', ''Namibia'', ''Netherlands'', ''New Zealand'', ''Nicaragua'',
     ''Niger'', ''Nigeria'', ''North Korea'', ''Norway'', ''Oman'', ''Pakistan'', ''Papua New Guinea'', ''Paraguay'', ''Peru'',
     ''Philippines'', ''Poland'', ''Portugal'', ''Qatar'', ''Romania'', ''Russia'', ''Rwanda'', ''Saudi Arabia'', ''Slovakia'',
     ''Slovenia'', ''Somalia'', ''South Africa'', ''South Korea'', ''South Sudan'', ''Spain'', ''Sri Lanka'', ''Sudan'',
     ''Sweden'', ''Switzerland'', ''Syria'', ''Tajikistan'', ''Tanzania'', ''Thailand'', ''Tunisia'', ''Turkey'',
     ''Turkmenistan'', ''Uganda'', ''Ukraine'', ''United Arab Emirates'', ''United Kingdom'', ''United States'', ''Uruguay'',
     ''Uzbekistan'', ''Venezuela'', ''Vietnam'', ''Western Sahara'', ''Yemen'', ''Zambia'', ''Zimbabwe'']"

definition COUNTRY_ALIASES :: "(string \<times> string) list" where
  "COUNTRY_ALIASES = [(''Burma'', ''Myanmar''), (''Congo - Dem. Rep.'', ''Democratic Republic of the Congo''),
     (''Ivory Coast'', ''Cote d'' @ [CHR 0x27] @ ''Ivoire''), (''Swaziland'', ''Eswatini''), (''USA'', ''United States'')]"

definition update_error :: "string \<Rightarrow> exn" where
  "update_error m = RuntimeError m"

definition row_error :: "int \<Rightarrow> string \<Rightarrow> exn" where
  "row_error row_number m = update_error (''CSV row '' @ int_str row_number @ m)"

record snapshot_row =
  ur_code :: int
  ur_canonical_name :: string
  ur_record_status :: string
  ur_recommended_classification :: string
  ur_fall_or_find :: string
  ur_year_found :: "int option"
  ur_country :: "string option"
  ur_latitude :: "string option"
  ur_longitude :: "string option"

definition check_text :: "string \<Rightarrow> nat \<Rightarrow> int \<Rightarrow> string \<Rightarrow> exn + unit" where
  "check_text s maximum row_number field =
     (if \<not> bounded s maximum then Inl (row_error row_number ('' has an invalid '' @ field)) else Inr ())"

definition year_or_none :: "string \<Rightarrow> int option" where
  "year_or_none s =
     (if \<not> match_class is_digit 1 4 s then None
      else let year = int (decimal_value s) in if 1 \<le> year \<and> year \<le> 9999 then Some year else None)"

text \<open>\<open>place.rpartition(", ")\<close>: what follows the last separator, or the whole text.\<close>

fun after_last :: "string \<Rightarrow> string \<Rightarrow> string \<Rightarrow> string" where
  "after_last sep best [] = best"
| "after_last sep best (c # cs) =
     after_last sep (if take (length sep) (c # cs) = sep then drop (length sep) (c # cs) else best) cs"

definition country_or_none :: "string \<Rightarrow> string option" where
  "country_or_none place =
     (let candidate = after_last '', '' place place
      in if candidate \<in> set COUNTRY_NAMES then Some candidate else map_of COUNTRY_ALIASES candidate)"

definition update_coordinate :: "string \<Rightarrow> rat \<Rightarrow> int \<Rightarrow> exn + string option" where
  "update_coordinate s bound row_number =
     (if 32 < length s \<or> \<not> DECIMAL s then Inl (row_error row_number '' has invalid coordinates'')
      else Inr (if in_range bound s then Some s else None))"

definition coordinates_or_none :: "string \<Rightarrow> string \<Rightarrow> int \<Rightarrow> exn + string option \<times> string option" where
  "coordinates_or_none latitude longitude row_number =
     (if latitude = [] \<and> longitude = [] then Inr (None, None)
      else if latitude = [] \<or> longitude = [] then Inl (row_error row_number '' has incomplete coordinates'')
      else bind_res (update_coordinate latitude 90 row_number) (\<lambda>lat.
           bind_res (update_coordinate longitude 180 row_number) (\<lambda>lon.
             if lat = None \<or> lon = None then Inr (None, None) else Inr (lat, lon))))"

text \<open>A row has 14 fields where this is called.\<close>

definition validated_row :: "string list \<Rightarrow> int \<Rightarrow> exn + snapshot_row" where
  "validated_row row row_number =
     (let raw_code = row ! 0; name = row ! 1; status = row ! 3; fall = row ! 4; year = row ! 5; place = row ! 6;
          classification = row ! 7; latitude = row ! 11; longitude = row ! 12
      in if \<not> CANONICAL_CODE raw_code then Inl (row_error row_number '' has a noncanonical code'')
         else bind_res (check_text name 128 row_number ''Name'') (\<lambda>_.
              bind_res (check_text classification 128 row_number ''Type'') (\<lambda>_.
              if status \<notin> set ALLOWED_STATUSES then Inl (row_error row_number '' has an unknown Status'')
              else if fall \<notin> set FALL_MARKERS then Inl (row_error row_number '' has an unknown Fall marker'')
              else bind_res (coordinates_or_none latitude longitude row_number) (\<lambda>(lat, lon).
                Inr \<lparr>ur_code = int (decimal_value raw_code), ur_canonical_name = name, ur_record_status = status,
                     ur_recommended_classification = classification,
                     ur_fall_or_find = (if fall \<in> set FALL_VALUES then ''Fall'' else ''Find''),
                     ur_year_found = year_or_none year, ur_country = country_or_none place,
                     ur_latitude = lat, ur_longitude = lon\<rparr>))))"

text \<open>The loop over the rows after the header, with the records so far. The message for a \<open>csv.Error\<close> leaves out the number of
  the line.\<close>

fun collect_rows :: "int \<Rightarrow> snapshot_row list \<Rightarrow> csv_item list \<Rightarrow> exn + snapshot_row list" where
  "collect_rows row_number records [] = Inr records"
| "collect_rows row_number records (CsvStop # items) = Inr records"
| "collect_rows row_number records (CsvError # items) = Inl (update_error ''CSV parsing failed'')"
| "collect_rows row_number records (CsvRow row # items) =
     (if length row \<noteq> length EXPECTED_HEADER then Inl (row_error row_number '' does not contain 14 columns'')
      else bind_res (validated_row row row_number) (\<lambda>record.
        if ur_code record \<in> ur_code ` set records
        then Inl (row_error row_number ('' repeats canonical code '' @ int_str (ur_code record)))
        else collect_rows (row_number + 1) (records @ [record]) items))"

definition expected_sentinel :: snapshot_row where
  "expected_sentinel = \<lparr>ur_code = 87447, ur_canonical_name = ''Northwest Africa 18652'', ur_record_status = ''Relict'',
     ur_recommended_classification = ''Relict iron'', ur_fall_or_find = ''Find'', ur_year_found = Some 2018,
     ur_country = Some ''Western Sahara'', ur_latitude = None, ur_longitude = None\<rparr>"

text \<open>\<open>decode\<close> is \<open>bytes.decode("utf-8-sig")\<close>, for texts in Latin-1.\<close>

definition validated_rows :: "(bytes \<Rightarrow> string option) \<Rightarrow> bytes \<Rightarrow> int \<Rightarrow> exn + snapshot_row list" where
  "validated_rows decode csv_bytes minimum_row_count =
     (if \<not> (1 \<le> length csv_bytes \<and> length csv_bytes \<le> MAX_DOWNLOAD_BYTES) then Inl (update_error ''CSV size is outside bounds'')
      else case decode csv_bytes of
          None \<Rightarrow> Inl (update_error ''CSV is not valid UTF-8'')
        | Some csv_text \<Rightarrow>
            if CHR 0x00 \<in> set csv_text then Inl (update_error ''CSV contains a NUL byte'')
            else (case csv_items (text_lines csv_text) of
                CsvRow header # items \<Rightarrow>
                  if header \<noteq> EXPECTED_HEADER
                  then Inl (update_error ''CSV header does not match the official 14-column schema'')
                  else bind_res (collect_rows 2 [] items) (\<lambda>records.
                    if int (length records) < minimum_row_count
                    then Inl (update_error (''CSV contains fewer than '' @ int_str minimum_row_count @ '' records''))
                    else if find (\<lambda>r. ur_code r = 87447) records \<noteq> Some expected_sentinel
                    then Inl (update_error ''CSV sentinel 87447 is missing or invalid'')
                    else Inr (sort_key ur_code records))
              | _ \<Rightarrow> Inl (update_error ''CSV header is missing'')))"

section \<open>The database\<close>

definition sql_text :: "string option \<Rightarrow> sql_value" where
  "sql_text v = (case v of None \<Rightarrow> SqlNull | Some s \<Rightarrow> SqlText s)"

definition sql_row :: "snapshot_row \<Rightarrow> catalogue_row" where
  "sql_row r = \<lparr>cr_code = ur_code r, cr_canonical_name = SqlText (ur_canonical_name r), cr_record_status = SqlText (ur_record_status r),
     cr_recommended_classification = SqlText (ur_recommended_classification r), cr_fall_or_find = SqlText (ur_fall_or_find r),
     cr_year_found = (case ur_year_found r of None \<Rightarrow> SqlNull | Some n \<Rightarrow> SqlInteger n), cr_country = sql_text (ur_country r),
     cr_latitude = sql_text (ur_latitude r), cr_longitude = sql_text (ur_longitude r)\<rparr>"

text \<open>The check constraints of the table \<open>records\<close>; \<open>length\<close> of a text without NUL is its number of characters.\<close>

definition records_check :: "snapshot_row \<Rightarrow> bool" where
  "records_check r \<longleftrightarrow>
     1 \<le> ur_code r \<and> ur_code r \<le> 999999999 \<and>
     1 \<le> length (ur_canonical_name r) \<and> length (ur_canonical_name r) \<le> 128 \<and>
     ur_record_status r \<in> set ALLOWED_STATUSES \<and>
     1 \<le> length (ur_recommended_classification r) \<and> length (ur_recommended_classification r) \<le> 128 \<and>
     ur_fall_or_find r \<in> {''Fall'', ''Find''} \<and>
     (case ur_year_found r of None \<Rightarrow> True | Some n \<Rightarrow> 1 \<le> n \<and> n \<le> 9999) \<and>
     (case ur_country r of None \<Rightarrow> True | Some s \<Rightarrow> 1 \<le> length s \<and> length s \<le> 64) \<and>
     (ur_latitude r = None) = (ur_longitude r = None)"

definition write_database :: "snapshot_row list \<Rightarrow> (string \<times> string) list \<Rightarrow> exn + snapshot_db" where
  "write_database rows metadata =
     (if \<not> list_all records_check rows \<or> \<not> distinct (map ur_code rows) \<or> \<not> distinct (map fst metadata) then Inl IntegrityError
      else Inr \<lparr>sd_application_id = APPLICATION_ID, sd_user_version = SCHEMA_VERSION, sd_objects = snapshot_objects,
                sd_columns = expected_columns, sd_integrity = [''ok''], sd_metadata = sort_key fst metadata,
                sd_records = map sql_row rows\<rparr>)"

definition validate_built_database :: "snapshot_db \<Rightarrow> int \<Rightarrow> exn + unit" where
  "validate_built_database s row_count =
     (if sd_integrity s \<noteq> [''ok''] then Inl (update_error ''generated snapshot failed SQLite integrity validation'')
      else if int (length (sd_records s)) \<noteq> row_count then Inl (update_error ''generated snapshot row count is invalid'')
      else if \<not> sentinel_ok s then Inl (update_error ''generated snapshot sentinel is invalid'')
      else Inr ())"

section \<open>The metadata\<close>

text \<open>\<open>strftime("%Y-%m-%dT%H:%M:%SZ")\<close>: the year is not padded.\<close>

definition utc_timestamp :: "datetime \<Rightarrow> exn + string" where
  "utc_timestamp d =
     (if \<not> is_aware d then Inl (update_error ''retrieval timestamp must be timezone-aware'')
      else case date_of (micros d) of (y, m, day) \<Rightarrow>
        Inr (int_str y @ ''-'' @ zero_padded 2 m @ ''-'' @ zero_padded 2 (nat day) @ ''T'' @ clock_text (micros d) @ ''Z''))"

definition validate_optional_utc_timestamp :: "string option \<Rightarrow> exn + unit" where
  "validate_optional_utc_timestamp v =
     (case v of None \<Rightarrow> Inr ()
      | Some s \<Rightarrow> if \<not> UTC_TIMESTAMP s \<or> \<not> strptime_ok s
                  then Inl (update_error ''official database update timestamp is invalid'') else Inr ())"

text \<open>\<open>parsedate_to_datetime\<close> is a parameter: \<open>None\<close> when it raises.\<close>

definition http_date :: "(string \<Rightarrow> datetime option) \<Rightarrow> string option \<Rightarrow> exn + string option" where
  "http_date parsedate v =
     (case v of None \<Rightarrow> Inr None
      | Some s \<Rightarrow>
          (case parsedate s of
             None \<Rightarrow> Inl (update_error ''invalid Last-Modified header'')
           | Some parsed \<Rightarrow> bind_res (utc_timestamp (aware parsed)) (\<lambda>t. Inr (Some t))))"

text \<open>\<open>json.dump(metadata, indent=2)\<close>.\<close>

definition newline :: "nat \<Rightarrow> string" where
  "newline depth = CHR 0x0A # replicate depth (CHR '' '')"

fun dumps_indent :: "nat \<Rightarrow> pyval \<Rightarrow> string" where
  "dumps_indent depth (PDict d) =
     (if d = [] then ''{}''
      else ''{'' @ newline (depth + 2) @
        join_strings ('','' @ newline (depth + 2)) (map (\<lambda>(k, v). json_string k @ '': '' @ dumps_indent (depth + 2) v) d) @
        newline depth @ ''}'')"
| "dumps_indent depth v = dumps (\<lambda>_. []) '', '' '': '' v"

definition metadata_text :: "(string \<times> pyval) list \<Rightarrow> string" where
  "metadata_text metadata = dumps_indent 0 (sort_dicts (PDict metadata)) @ [CHR 0x0A]"

section \<open>build\_snapshot\<close>

text \<open>\<open>same_directory\<close>: both files go to one existing directory.\<close>

definition build_snapshot ::
  "(snapshot_db \<Rightarrow> bytes) \<Rightarrow> (bytes \<Rightarrow> bytes) \<Rightarrow> (bytes \<Rightarrow> string option) \<Rightarrow> bool \<Rightarrow> bytes \<Rightarrow> datetime \<Rightarrow> string option \<Rightarrow> int
     \<Rightarrow> exn + (string \<times> pyval) list \<times> snapshot_files" where
  "build_snapshot sql_bytes sha decode same_directory csv_bytes retrieved_at official_database_updated_utc minimum_row_count =
     (if \<not> same_directory then Inl (update_error ''snapshot destination directory is missing or inconsistent'')
      else bind_res (validated_rows decode csv_bytes minimum_row_count) (\<lambda>rows.
           bind_res (utc_timestamp retrieved_at) (\<lambda>retrieved_at_utc.
           bind_res (validate_optional_utc_timestamp official_database_updated_utc) (\<lambda>_.
           let source_sha256 = hex (sha csv_bytes);
               internal_metadata = [(''schema_version'', int_str SCHEMA_VERSION), (''source_url'', SOURCE_URL),
                 (''source_sha256'', source_sha256), (''row_count'', int_str (int (length rows)))]
           in bind_res (write_database rows internal_metadata) (\<lambda>database.
              bind_res (validate_built_database database (int (length rows))) (\<lambda>_.
              let metadata = [(''schema_version'', PInt SCHEMA_VERSION),
                    (''source'', PDict [(''name'', PStr ''Meteoritical Bulletin Database''),
                       (''publisher'', PStr ''Lunar and Planetary Institute''), (''url'', PStr SOURCE_URL)]),
                    (''retrieved_at_utc'', PStr retrieved_at_utc), (''source_sha256'', PStr source_sha256),
                    (''database_sha256'', PStr (hex (sha (sql_bytes database)))), (''row_count'', PInt (int (length rows))),
                    (''official_database_updated_utc'',
                       case official_database_updated_utc of None \<Rightarrow> PNone | Some s \<Rightarrow> PStr s)]
              in Inr (metadata, \<lparr>sf_database = Some database,
                   sf_metadata = Some (length (metadata_text metadata), Some (sort_dicts (PDict metadata)))\<rparr>)))))))"

section \<open>download\_official\_csv\<close>

record csv_response =
  hr_status :: int
  hr_url :: string
  hr_content_type :: string
  hr_content_encoding :: "string option"
  hr_content_length :: "string option"
  hr_body :: bytes
  hr_last_modified :: "string option"

text \<open>From the answer to the request, \<open>None\<close> when the connection fails.\<close>

definition download_official_csv :: "(string \<Rightarrow> datetime option) \<Rightarrow> csv_response option \<Rightarrow> exn + bytes \<times> string option" where
  "download_official_csv parsedate answer =
     (case answer of
        None \<Rightarrow> Inl (update_error ''official CSV download failed'')
      | Some response \<Rightarrow>
          if hr_status response \<noteq> 200 \<or> hr_url response \<noteq> SOURCE_URL
          then Inl (update_error ''official CSV returned an unexpected response'')
          else if str_lower (hr_content_type response) \<noteq> ''text/csv''
          then Inl (update_error ''official CSV returned an unexpected content type'')
          else if (case hr_content_encoding response of
                     None \<Rightarrow> False | Some e \<Rightarrow> str_lower (strip_chars is_py_space e) \<noteq> ''identity'')
          then Inl (update_error ''encoded responses are forbidden'')
          else bind_res (case hr_content_length response of
                   None \<Rightarrow> Inr None
                 | Some declared \<Rightarrow>
                     (case int_of_text declared of
                        None \<Rightarrow> Inl (update_error ''invalid Content-Length'')
                      | Some n \<Rightarrow>
                          if \<not> (1 \<le> n \<and> n \<le> int MAX_DOWNLOAD_BYTES)
                          then Inl (update_error ''official CSV exceeds the download limit'') else Inr (Some n))) (\<lambda>content_length.
               let body = take (MAX_DOWNLOAD_BYTES + 1) (hr_body response)
               in if body = [] \<or> MAX_DOWNLOAD_BYTES < length body
                  then Inl (update_error ''official CSV is empty or exceeds the download limit'')
                  else if content_length \<noteq> None \<and> content_length \<noteq> Some (int (length body))
                  then Inl (update_error ''official CSV length does not match Content-Length'')
                  else bind_res (http_date parsedate (hr_last_modified response)) (\<lambda>updated. Inr (body, updated))))"

text \<open>\<open>main\<close>.\<close>

definition update_snapshot ::
  "(snapshot_db \<Rightarrow> bytes) \<Rightarrow> (bytes \<Rightarrow> bytes) \<Rightarrow> (bytes \<Rightarrow> string option) \<Rightarrow> (string \<Rightarrow> datetime option) \<Rightarrow> csv_response option
     \<Rightarrow> datetime \<Rightarrow> exn + (string \<times> pyval) list \<times> snapshot_files" where
  "update_snapshot sql_bytes sha decode parsedate answer now =
     bind_res (download_official_csv parsedate answer) (\<lambda>(csv_bytes, official_updated).
       build_snapshot sql_bytes sha decode True csv_bytes now official_updated MINIMUM_ROW_COUNT)"

section \<open>The rows that pass\<close>

definition coordinate_ok :: "rat \<Rightarrow> string \<Rightarrow> bool" where
  "coordinate_ok bound s \<longleftrightarrow> length s \<le> 32 \<and> DECIMAL s \<and> in_range bound s"

definition row_ok :: "snapshot_row \<Rightarrow> bool" where
  "row_ok r \<longleftrightarrow>
     1 \<le> ur_code r \<and> ur_code r \<le> 999999999 \<and> bounded (ur_canonical_name r) 128 \<and>
     bounded (ur_recommended_classification r) 128 \<and> ur_record_status r \<in> set ALLOWED_STATUSES \<and>
     ur_fall_or_find r \<in> {''Fall'', ''Find''} \<and> (\<forall>n. ur_year_found r = Some n \<longrightarrow> 1 \<le> n \<and> n \<le> 9999) \<and>
     (\<forall>s. ur_country r = Some s \<longrightarrow> bounded s 64) \<and>
     (ur_latitude r = None \<and> ur_longitude r = None \<or>
      (\<exists>lat lon. ur_latitude r = Some lat \<and> ur_longitude r = Some lon \<and> coordinate_ok 90 lat \<and> coordinate_ok 180 lon))"

lemma countries_bounded: "list_all (\<lambda>s. bounded s 64) COUNTRY_NAMES" "list_all (\<lambda>(a, s). bounded s 64) COUNTRY_ALIASES"
  by (simp_all add: COUNTRY_NAMES_def COUNTRY_ALIASES_def bounded_def code_def)

lemma country_bounded: "country_or_none place = Some s \<Longrightarrow> bounded s 64"
  using countries_bounded by (auto simp: country_or_none_def Let_def list_all_iff split: if_splits dest!: map_of_SomeD)

lemma update_coordinate_Inr:
  "update_coordinate s b n = Inr v \<Longrightarrow> v = None \<or> v = Some s \<and> coordinate_ok b s"
  by (auto simp: update_coordinate_def coordinate_ok_def split: if_splits)

lemma coordinates_or_none_ok:
  assumes "coordinates_or_none latitude longitude n = Inr (lat, lon)"
  shows "lat = None \<and> lon = None \<or> (\<exists>a b. lat = Some a \<and> lon = Some b \<and> coordinate_ok 90 a \<and> coordinate_ok 180 b)"
  using assms
  by (auto simp: coordinates_or_none_def bind_res_Inr_iff split: if_splits dest!: update_coordinate_Inr)

lemma canonical_code_range:
  assumes "CANONICAL_CODE s"
  shows "1 \<le> int (decimal_value s)" "int (decimal_value s) \<le> 999999999"
  using assms canonical_code_number(1) [OF assms] CANONICAL_CODE_int_str by metis+

lemma validated_row_ok:
  assumes "validated_row row n = Inr r"
  shows "row_ok r"
proof -
  have front: "CANONICAL_CODE (row ! 0)" "bounded (row ! 1) 128" "bounded (row ! 7) 128" "row ! 3 \<in> set ALLOWED_STATUSES"
    using assms by (auto simp: validated_row_def Let_def bind_res_Inr_iff check_text_def split: if_splits)
  obtain lat lon where coordinates: "coordinates_or_none (row ! 11) (row ! 12) n = Inr (lat, lon)"
    and r: "r = \<lparr>ur_code = int (decimal_value (row ! 0)), ur_canonical_name = row ! 1, ur_record_status = row ! 3,
       ur_recommended_classification = row ! 7, ur_fall_or_find = (if row ! 4 \<in> set FALL_VALUES then ''Fall'' else ''Find''),
       ur_year_found = year_or_none (row ! 5), ur_country = country_or_none (row ! 6), ur_latitude = lat, ur_longitude = lon\<rparr>"
    using assms by (auto simp: validated_row_def Let_def bind_res_Inr_iff simp del: One_nat_def split: if_splits prod.splits)
  have "\<forall>y. year_or_none (row ! 5) = Some y \<longrightarrow> 1 \<le> y \<and> y \<le> 9999"
    by (auto simp: year_or_none_def Let_def split: if_splits)
  then show ?thesis
    using front canonical_code_range [OF front(1)] coordinates_or_none_ok [OF coordinates] country_bounded
    by (auto simp: row_ok_def r)
qed

lemma collect_rows_ok:
  assumes "collect_rows n records items = Inr rows" "list_all row_ok records" "distinct (map ur_code records)"
  shows "list_all row_ok rows \<and> distinct (map ur_code rows)"
  using assms
proof (induction n records items rule: collect_rows.induct)
  case (4 n records row items)
  obtain r where r: "validated_row row n = Inr r" "ur_code r \<notin> ur_code ` set records"
    "collect_rows (n + 1) (records @ [r]) items = Inr rows" "length row = length EXPECTED_HEADER"
    using "4.prems"(1) by (auto simp: bind_res_Inr_iff split: if_splits)
  show ?case
  proof (rule "4.IH" [OF _ _ r(3)])
    show "\<not> length row \<noteq> length EXPECTED_HEADER" using r(4) by simp
    show "ur_code r \<notin> ur_code ` set records" by (rule r(2))
    show "list_all row_ok (records @ [r])" using "4.prems"(2) validated_row_ok [OF r(1)] by simp
    show "distinct (map ur_code (records @ [r]))" using "4.prems"(3) r(2) by (auto simp: image_iff)
  qed
qed simp_all

lemma validated_rows_ok:
  assumes "validated_rows decode csv_bytes minimum = Inr rows"
  shows "list_all row_ok rows" "distinct (map ur_code rows)" "find (\<lambda>r. ur_code r = 87447) rows = Some expected_sentinel"
proof -
  obtain csv_text where csv_text: "decode csv_bytes = Some csv_text"
    using assms by (cases "decode csv_bytes") (simp_all add: validated_rows_def split: if_splits)
  note step = assms [unfolded validated_rows_def csv_text option.case]
  obtain header items where items: "csv_items (text_lines csv_text) = CsvRow header # items"
    using step by (cases "csv_items (text_lines csv_text)" rule: list.exhaust) (auto split: if_splits csv_item.splits)
  obtain records where records: "collect_rows 2 [] items = Inr records" "find (\<lambda>r. ur_code r = 87447) records = Some expected_sentinel"
    "rows = sort_key ur_code records"
    using step by (auto simp: items bind_res_Inr_iff split: if_splits)
  have ok: "list_all row_ok records" "distinct (map ur_code records)"
    using collect_rows_ok [OF records(1)] by simp_all
  then show "list_all row_ok rows" by (simp add: records(3) list_all_iff)
  show distinct: "distinct (map ur_code rows)"
    using ok(2) by (simp add: records(3) distinct_map)
  show "find (\<lambda>r. ur_code r = 87447) rows = Some expected_sentinel"
  proof -
    have "expected_sentinel \<in> set rows" "ur_code expected_sentinel = 87447"
      using find_SomeD [OF records(2)] by (simp_all add: records(3))
    moreover have "r = expected_sentinel" if "r \<in> set rows" "ur_code r = 87447" for r
      using that distinct calculation by (metis distinct_map inj_onD)
    ultimately show ?thesis by (metis (mono_tags, lifting) find_None find_SomeD option.exhaust)
  qed
qed

section \<open>What the service serves of a row\<close>

definition served_record :: "snapshot_row \<Rightarrow> catalogue_record" where
  "served_record r = \<lparr>mr_code = ur_code r, mr_official_url = METBULL_OFFICIAL_URL (ur_code r),
     mr_canonical_name = ur_canonical_name r, mr_record_status = ur_record_status r, mr_official_name = True,
     mr_recommended_classification = ur_recommended_classification r, mr_fall_or_find = ur_fall_or_find r,
     mr_year_found = ur_year_found r, mr_country = ur_country r, mr_latitude = ur_latitude r, mr_longitude = ur_longitude r\<rparr>"

lemma lookup_sql_row:
  assumes "row_ok r"
  shows "lookup_row (ur_code r) (sql_row r) =
    (if ur_record_status r \<in> {''Official'', ''Relict''} then Inr (served_record r)
     else Inl (MetbullNotOfficial ''metbull_name_not_official''))"
proof -
  have texts: "bounded_text (SqlText (ur_canonical_name r)) 128 = Inr (ur_canonical_name r)"
    "bounded_text (SqlText (ur_recommended_classification r)) 128 = Inr (ur_recommended_classification r)"
    using assms by (simp_all add: row_ok_def bounded_text_def)
  have year: "validated_year (case ur_year_found r of None \<Rightarrow> SqlNull | Some n \<Rightarrow> SqlInteger n) = Inr (ur_year_found r)"
    using assms by (cases "ur_year_found r") (simp_all add: row_ok_def validated_year_def)
  have country: "validated_country (sql_text (ur_country r)) = Inr (ur_country r)"
    using assms by (cases "ur_country r") (simp_all add: row_ok_def validated_country_def sql_text_def bounded_text_def)
  have "ur_latitude r = None \<and> ur_longitude r = None \<or>
      (\<exists>lat lon. ur_latitude r = Some lat \<and> ur_longitude r = Some lon \<and> coordinate_ok 90 lat \<and> coordinate_ok 180 lon)"
    using assms by (simp add: row_ok_def)
  then have coordinates: "validated_coordinates (sql_text (ur_latitude r)) (sql_text (ur_longitude r)) = Inr (ur_latitude r, ur_longitude r)"
    by (auto simp: validated_coordinates_def sql_text_def coordinate_def coordinate_ok_def)
  have fall: "ur_fall_or_find r \<in> {''Fall'', ''Find''}" using assms by (simp add: row_ok_def)
  show ?thesis
    unfolding lookup_row_def sql_row_def catalogue_row.select_convs sql_value.case texts year country coordinates bind_res_simps prod.case
    using fall by (simp add: served_record_def)
qed

lemma records_check_ok: "row_ok r \<Longrightarrow> records_check r"
  by (auto simp: row_ok_def records_check_def bounded_def split: option.splits)

lemma find_sql_row: "find (\<lambda>row. cr_code row = n) (map sql_row rows) = map_option sql_row (find (\<lambda>r. ur_code r = n) rows)"
  by (induction rows) (simp_all add: sql_row_def)

lemma sentinel_sql: "is_sentinel (sql_row expected_sentinel)"
  by (simp add: is_sentinel_def sql_row_def expected_sentinel_def sql_text_def)

section \<open>The timestamps of the metadata\<close>

lemma fits_append: "length t = length a \<Longrightarrow> fits (t @ u) (a @ b) \<longleftrightarrow> fits t a \<and> fits u b"
  by (induction t a rule: list_induct2) simp_all

lemma fits_digits: "fits (replicate k (CHR ''0'')) s \<longleftrightarrow> length s = k \<and> list_all is_digit s"
proof (induction k arbitrary: s)
  case (Suc k)
  then show ?case by (cases s) auto
next
  case 0
  then show ?case by (cases s) auto
qed

lemma fits_timestamp:
  assumes "length y = 4" "list_all is_digit y" "length m = 2" "list_all is_digit m" "length d = 2" "list_all is_digit d"
    and "length h = 2" "list_all is_digit h" "length mi = 2" "list_all is_digit mi" "length s = 2" "list_all is_digit s"
  shows "UTC_TIMESTAMP (y @ ''-'' @ m @ ''-'' @ d @ ''T'' @ h @ '':'' @ mi @ '':'' @ s @ ''Z'')"
proof -
  have template: "''0000-00-00T00:00:00Z'' = replicate 4 (CHR ''0'') @ ''-'' @ replicate 2 (CHR ''0'') @ ''-'' @ replicate 2 (CHR ''0'') @
      ''T'' @ replicate 2 (CHR ''0'') @ '':'' @ replicate 2 (CHR ''0'') @ '':'' @ replicate 2 (CHR ''0'') @ ''Z''"
    by (simp add: numeral_eq_Suc)
  have step: "fits (replicate k (CHR ''0'') @ u) (a @ b) \<longleftrightarrow> fits u b" if "length a = k" "list_all is_digit a" for k a u b
    using that fits_append [of "replicate k (CHR ''0'')" a u b] fits_digits [of k a] by simp
  show ?thesis
    unfolding UTC_TIMESTAMP_def template
    using assms by (simp only: step append_Cons append_Nil fits.simps simp_thms if_False char.inject)
qed

lemma days_in_month_le: "1 \<le> m \<Longrightarrow> m \<le> 12 \<Longrightarrow> days_in_month leap m \<le> 31"
proof -
  assume m: "1 \<le> m" "m \<le> 12"
  then have "m = 1 \<or> m = 2 \<or> m = 3 \<or> m = 4 \<or> m = 5 \<or> m = 6 \<or> m = 7 \<or> m = 8 \<or> m = 9 \<or> m = 10 \<or> m = 11 \<or> m = 12"
    by arith
  then show ?thesis by (auto simp: days_in_month_def month_lengths_def nth_Cons')
qed

lemma utc_timestamp_valid:
  assumes "utc_timestamp d = Inr s" "1000 \<le> fst (date_of (micros d))" "fst (date_of (micros d)) \<le> 9999"
  shows "UTC_TIMESTAMP s" "strptime_ok s"
proof -
  obtain y m day where date: "date_of (micros d) = (y, m, day)" by (cases "date_of (micros d)") auto
  define secs where "secs = nat (micros d mod DAY_MICROS div 1000000)"
  have secs: "secs < 86400"
    using pos_mod_bound [of DAY_MICROS "micros d"] by (simp add: secs_def DAY_MICROS_def nat_less_iff)
  have s: "s = int_str y @ ''-'' @ zero_padded 2 m @ ''-'' @ zero_padded 2 (nat day) @ ''T'' @ zero_padded 2 (secs div 3600) @ '':'' @
      zero_padded 2 (secs div 60 mod 60) @ '':'' @ zero_padded 2 (secs mod 60) @ ''Z''"
    using assms(1) by (simp add: utc_timestamp_def date clock_text_def secs_def Let_def del: zero_padded.simps split: if_splits)
  have y: "1000 \<le> y" "y \<le> 9999" using assms(2,3) by (simp_all add: date)
  then have year: "int_str y = nat_str (nat y)" by (simp add: int_str_def)
  have "length (nat_str (nat y)) \<le> 4" by (rule nat_str_length_le) (use y in auto)
  moreover have "3 < length (nat_str (nat y))" by (rule nat_str_length_ge) (use y in auto)
  ultimately have four: "length (nat_str (nat y)) = 4" by linarith
  have year: "int_str y = nat_str (nat y)" "length (int_str y) = 4" "list_all is_digit (int_str y)"
    by (simp_all add: year four nat_str_digits)
  show "UTC_TIMESTAMP s"
    unfolding s by (rule fits_timestamp) (simp_all add: year(2,3) zero_padded_digits del: zero_padded.simps)
  have ymd: "1 \<le> m" "m \<le> 12" "1 \<le> day" "day \<le> days_in_month (is_leap y) m"
    using ord2ymd_sound [of "EPOCH_ORDINAL + micros d div DAY_MICROS"] date by (auto simp: date_of_def)
  have numbers: "decimal_value (int_str y) = nat y" "decimal_value (zero_padded 2 m) = m"
    "decimal_value (zero_padded 2 (nat day)) = nat day" "decimal_value (zero_padded 2 (secs div 3600)) = secs div 3600"
    "decimal_value (zero_padded 2 (secs div 60 mod 60)) = secs div 60 mod 60" "decimal_value (zero_padded 2 (secs mod 60)) = secs mod 60"
    using ymd secs days_in_month_le [OF ymd(1,2), of "is_leap y"]
    by (simp_all add: year(1) decimal_value_zero_padded del: zero_padded.simps)
  have "1 \<le> nat y" "1 \<le> nat day" "secs div 3600 < 24" using y ymd secs by linarith+
  then show "strptime_ok s"
    unfolding s using y ymd secs
    by (simp add: strptime_ok_def year(2) numbers del: zero_padded.simps)
qed

section \<open>The size of the metadata\<close>

lemma length_json_string: "length (json_string s) \<le> 6 * length s + 2"
proof -
  have "length (json_escape c) \<le> 6" for c by (simp add: json_escape_def)
  then have "length (concat (map json_escape s)) \<le> 6 * length s"
    by (induction s) (simp_all add: add_le_mono)
  then show ?thesis by (simp add: json_string_def)
qed

lemma length_join: "length (join_strings sep xs) \<le> (\<Sum>x\<leftarrow>xs. length x + length sep)"
  by (induction sep xs rule: join_strings.induct) simp_all

lemma length_newline [simp]: "length (newline n) = n + 1"
  by (simp add: newline_def)

text \<open>The sum over the entries does not depend on their order.\<close>

lemma sum_sorted: "(\<Sum>x\<leftarrow>sort_key k xs. f x) = (\<Sum>x\<leftarrow>xs. f x)" for f :: "'a \<Rightarrow> nat"
proof -
  have "(\<Sum>y\<leftarrow>insort_key k x ys. f y) = f x + (\<Sum>y\<leftarrow>ys. f y)" for x ys by (induction ys) simp_all
  then show ?thesis by (induction xs) simp_all
qed

lemma length_dumps_indent:
  "length (dumps_indent depth (sort_dicts (PDict d))) \<le>
     2 * depth + 8 + (\<Sum>(k, v)\<leftarrow>d. length (json_string k) + length (dumps_indent (depth + 2) (sort_dicts v)) + depth + 6)"
proof (cases "d = []")
  case False
  let ?d = "map (\<lambda>(k, v). (k, sort_dicts v)) d"
  let ?item = "\<lambda>(k, v). json_string k @ '': '' @ dumps_indent (depth + 2) v"
  have "length (join_strings ('','' @ newline (depth + 2)) (map ?item (sort_key fst ?d))) \<le>
      (\<Sum>x\<leftarrow>sort_key fst ?d. length (?item x) + (depth + 4))"
    using length_join [of "'','' @ newline (depth + 2)" "map ?item (sort_key fst ?d)"]
    by (simp only: map_map comp_def length_append length_newline list.size add.assoc) (simp add: eval_nat_numeral)
  also have "\<dots> = (\<Sum>x\<leftarrow>?d. length (?item x) + (depth + 4))" by (rule sum_sorted)
  also have "\<dots> = (\<Sum>(k, v)\<leftarrow>d. length (json_string k) + length (dumps_indent (depth + 2) (sort_dicts v)) + depth + 6)"
    by (induction d) (simp_all add: case_prod_beta)
  finally show ?thesis using False by simp
qed simp

definition snapshot_metadata :: "string \<Rightarrow> string \<Rightarrow> string \<Rightarrow> int \<Rightarrow> string option \<Rightarrow> (string \<times> pyval) list" where
  "snapshot_metadata retrieved_at_utc source_sha256 database_sha256 row_count official =
     [(''schema_version'', PInt SCHEMA_VERSION),
      (''source'', PDict [(''name'', PStr ''Meteoritical Bulletin Database''),
         (''publisher'', PStr ''Lunar and Planetary Institute''), (''url'', PStr SOURCE_URL)]),
      (''retrieved_at_utc'', PStr retrieved_at_utc), (''source_sha256'', PStr source_sha256),
      (''database_sha256'', PStr database_sha256), (''row_count'', PInt row_count),
      (''official_database_updated_utc'', case official of None \<Rightarrow> PNone | Some s \<Rightarrow> PStr s)]"

lemma dumps_optional:
  assumes "\<And>s. official = Some s \<Longrightarrow> length s = 20"
  shows "length (dumps_indent 2 (sort_dicts (case official of None \<Rightarrow> PNone | Some s \<Rightarrow> PStr s))) \<le> 122"
proof (cases official)
  case (Some s)
  then show ?thesis using assms [OF Some] length_json_string [of s] by simp
qed simp

lemma dumps_source: "length (dumps_indent 2 (sort_dicts (PDict [(''name'', PStr ''Meteoritical Bulletin Database''),
    (''publisher'', PStr ''Lunar and Planetary Institute''), (''url'', PStr SOURCE_URL)]))) \<le> 2000"
  using length_dumps_indent [of 2 "[(''name'', PStr ''Meteoritical Bulletin Database''),
    (''publisher'', PStr ''Lunar and Planetary Institute''), (''url'', PStr SOURCE_URL)]"]
    length_json_string [of "''name''"] length_json_string [of "''publisher''"] length_json_string [of "''url''"]
    length_json_string [of "''Meteoritical Bulletin Database''"] length_json_string [of "''Lunar and Planetary Institute''"]
    length_json_string [of SOURCE_URL]
  by (simp add: SOURCE_URL_def del: sort_dicts.simps(2))

lemma snapshot_metadata_small:
  assumes "length retrieved = 20" "length source = 64" "length database = 64" "0 \<le> n" "n \<le> 999999999"
    and "\<And>s. official = Some s \<Longrightarrow> length s = 20"
  shows "length (metadata_text (snapshot_metadata retrieved source database n official)) \<le> 64 * 1024"
proof -
  have counts: "length (int_str n) \<le> 9"
    using assms(4,5) nat_str_length_le [of "nat n" 9] by (simp add: int_str_def)
  have version: "length (int_str SCHEMA_VERSION) \<le> 1" by (simp add: SCHEMA_VERSION_def int_str_def nat_str.simps)
  let ?official = "case official of None \<Rightarrow> PNone | Some s \<Rightarrow> PStr s"
  let ?source = "PDict [(''name'', PStr ''Meteoritical Bulletin Database''), (''publisher'', PStr ''Lunar and Planetary Institute''),
    (''url'', PStr SOURCE_URL)]"
  have ints: "dumps_indent 2 (sort_dicts (PInt i)) = int_str i" "dumps_indent 2 (sort_dicts (PStr s)) = json_string s" for i s
    by simp_all
  have "length (dumps_indent 0 (sort_dicts (PDict (snapshot_metadata retrieved source database n official)))) \<le>
      8 + (length (json_string ''schema_version'') + length (int_str SCHEMA_VERSION) + 6 +
       (length (json_string ''source'') + length (dumps_indent 2 (sort_dicts ?source)) + 6 +
       (length (json_string ''retrieved_at_utc'') + length (json_string retrieved) + 6 +
       (length (json_string ''source_sha256'') + length (json_string source) + 6 +
       (length (json_string ''database_sha256'') + length (json_string database) + 6 +
       (length (json_string ''row_count'') + length (int_str n) + 6 +
       (length (json_string ''official_database_updated_utc'') + length (dumps_indent 2 (sort_dicts ?official)) + 6)))))))"
    using length_dumps_indent [of 0 "snapshot_metadata retrieved source database n official"]
    by (simp only: snapshot_metadata_def list.map sum_list.Cons sum_list.Nil prod.case ints add_0 add_0_right mult_0_right)
  also have "\<dots> \<le> 65535"
  proof -
    have "length (json_string t) \<le> 392" if "length t \<le> 65" for t using that length_json_string [of t] by linarith
    then have "length (json_string ''schema_version'') \<le> 392" "length (json_string ''source'') \<le> 392"
      "length (json_string ''retrieved_at_utc'') \<le> 392" "length (json_string retrieved) \<le> 392"
      "length (json_string ''source_sha256'') \<le> 392" "length (json_string source) \<le> 392"
      "length (json_string ''database_sha256'') \<le> 392" "length (json_string database) \<le> 392"
      "length (json_string ''row_count'') \<le> 392" "length (json_string ''official_database_updated_utc'') \<le> 392"
      using assms(1-3) by simp_all
    then show ?thesis using counts version dumps_optional [of official, OF assms(6)] dumps_source by linarith
  qed
  finally show ?thesis by (simp add: metadata_text_def del: sort_dicts.simps)
qed

section \<open>The snapshot that was built is the snapshot that is served\<close>

lemma build_snapshot_parts:
  assumes "build_snapshot sql_bytes sha decode same_directory csv_bytes now official minimum = Inr (metadata, files)"
  obtains rows s retrieved where "validated_rows decode csv_bytes minimum = Inr rows" "utc_timestamp now = Inr retrieved"
    "validate_optional_utc_timestamp official = Inr ()"
    "write_database rows [(''schema_version'', int_str SCHEMA_VERSION), (''source_url'', SOURCE_URL),
       (''source_sha256'', hex (sha csv_bytes)), (''row_count'', int_str (int (length rows)))] = Inr s"
    "metadata = snapshot_metadata retrieved (hex (sha csv_bytes)) (hex (sha (sql_bytes s))) (int (length rows)) official"
    "files = \<lparr>sf_database = Some s, sf_metadata = Some (length (metadata_text metadata), Some (PDict (sorted_items metadata)))\<rparr>"
  using assms
  by (auto simp: build_snapshot_def snapshot_metadata_def sort_dicts_PDict bind_res_Inr_iff Let_def simp del: sort_dicts.simps
      split: if_splits)

lemma rows_fit:
  assumes "list_all row_ok rows" "distinct (map ur_code rows)"
  shows "int (length rows) \<le> 999999999"
proof -
  have "set (map ur_code rows) \<subseteq> {1..999999999}" using assms(1) by (auto simp: list_all_iff row_ok_def)
  then have "card (set (map ur_code rows)) \<le> card {1..999999999::int}" by (intro card_mono) simp_all
  then show ?thesis using distinct_card [OF assms(2)] by simp
qed

lemma hash_lower_sha: "length bs = 32 \<Longrightarrow> lower_sha_value (PStr (hex bs))"
  using hex_lower_hex [of bs] length_hex [of bs] by (simp add: LOWER_SHA256_def match_class_def)

lemma metadata_entries:
  defines "m \<equiv> \<lambda>r s h n u. snapshot_metadata r s h n u"
  shows "distinct (map fst (m r s h n u))" "dict_keys (m r s h n u) = METADATA_KEYS"
    "dict_get (m r s h n u) ''schema_version'' = PInt SCHEMA_VERSION" "dict_get (m r s h n u) ''retrieved_at_utc'' = PStr r"
    "dict_get (m r s h n u) ''source_sha256'' = PStr s" "dict_get (m r s h n u) ''database_sha256'' = PStr h"
    "dict_get (m r s h n u) ''row_count'' = PInt n"
    "dict_get (m r s h n u) ''official_database_updated_utc'' = (case u of None \<Rightarrow> PNone | Some s \<Rightarrow> PStr s)"
    "dict_get (m r s h n u) ''source'' = PDict [(''name'', PStr ''Meteoritical Bulletin Database''),
         (''publisher'', PStr ''Lunar and Planetary Institute''), (''url'', PStr SOURCE_URL)]"
  by (auto simp: m_def snapshot_metadata_def dict_keys_def METADATA_KEYS_def dict_get_def)

lemma sorted_source: "sort_dicts (PDict [(''name'', PStr ''Meteoritical Bulletin Database''),
    (''publisher'', PStr ''Lunar and Planetary Institute''), (''url'', PStr SOURCE_URL)]) =
  PDict [(''name'', PStr ''Meteoritical Bulletin Database''),
    (''publisher'', PStr ''Lunar and Planetary Institute''), (''url'', PStr SOURCE_URL)]"
  by code_simp

lemma official_time_ok:
  assumes "validate_optional_utc_timestamp official = Inr ()"
  shows "validate_utc_timestamp (sort_dicts (case official of None \<Rightarrow> PNone | Some s \<Rightarrow> PStr s)) True = Inr ()"
    "official = Some s \<Longrightarrow> length s = 20"
proof -
  have fits_length: "fits t s \<Longrightarrow> length s = length t" for t s by (induction t s rule: fits.induct) (auto split: if_splits)
  show "validate_utc_timestamp (sort_dicts (case official of None \<Rightarrow> PNone | Some s \<Rightarrow> PStr s)) True = Inr ()"
    using assms by (cases official) (auto simp: validate_optional_utc_timestamp_def validate_utc_timestamp_def split: if_splits)
  show "official = Some s \<Longrightarrow> length s = 20"
    using assms fits_length [of "''0000-00-00T00:00:00Z''" s]
    by (auto simp: validate_optional_utc_timestamp_def UTC_TIMESTAMP_def split: if_splits)
qed

lemma load_built_metadata:
  assumes "length retrieved = 20" "UTC_TIMESTAMP retrieved" "strptime_ok retrieved" "validate_optional_utc_timestamp official = Inr ()"
    and "0 \<le> n" "n \<le> 999999999" "\<And>b. length (sha b) = 32"
    and metadata: "metadata = snapshot_metadata retrieved (hex (sha csv_bytes)) (hex (sha (sql_bytes s))) n official"
    and files: "files = \<lparr>sf_database = Some s, sf_metadata = Some (length (metadata_text metadata), Some (PDict (sorted_items metadata)))\<rparr>"
  shows "load_metadata sql_bytes sha files = (if n < MINIMUM_ROWS then Inl metadata_invalid else Inr (sorted_items metadata))"
proof -
  have size: "\<not> 64 * 1024 < length (metadata_text metadata)"
    using snapshot_metadata_small [of retrieved "hex (sha csv_bytes)" "hex (sha (sql_bytes s))" n official]
      assms(1,5-7) official_time_ok(2) [OF assms(4)] by (simp add: metadata not_less)
  note entries = metadata_entries [of retrieved "hex (sha csv_bytes)" "hex (sha (sql_bytes s))" n official, folded metadata]
  note get = dict_get_sorted [OF entries(1)]
  have keys: "dict_keys (sorted_items metadata) = METADATA_KEYS" by (simp add: entries(2))
  have source: "dict_get (sorted_items metadata) ''source'' = PDict [(''name'', PStr ''Meteoritical Bulletin Database''),
         (''publisher'', PStr ''Lunar and Planetary Institute''), (''url'', PStr SOURCE_URL)]"
    by (simp only: get entries(9) sorted_source)
  have fields: "dict_get (sorted_items metadata) ''schema_version'' = PInt SCHEMA_VERSION"
    "dict_get (sorted_items metadata) ''retrieved_at_utc'' = PStr retrieved"
    "dict_get (sorted_items metadata) ''source_sha256'' = PStr (hex (sha csv_bytes))"
    "dict_get (sorted_items metadata) ''database_sha256'' = PStr (hex (sha (sql_bytes s)))"
    "dict_get (sorted_items metadata) ''row_count'' = PInt n"
    by (simp_all only: get entries sort_dicts.simps)
  have times: "validate_utc_timestamp (dict_get (sorted_items metadata) ''official_database_updated_utc'') True = Inr ()"
    "validate_utc_timestamp (PStr retrieved) False = Inr ()"
    using official_time_ok(1) [OF assms(4)] assms(2,3) by (simp_all only: get entries(8)) (simp add: validate_utc_timestamp_def)
  have hashes: "lower_sha_value (PStr (hex (sha b)))" for b by (rule hash_lower_sha) (rule assms(7))
  have published: "\<not> (dict_keys [(''name'', PStr ''Meteoritical Bulletin Database''),
         (''publisher'', PStr ''Lunar and Planetary Institute''), (''url'', PStr SOURCE_URL)] \<noteq> SOURCE_KEYS)"
    by (auto simp: dict_keys_def SOURCE_KEYS_def)
  show ?thesis
    unfolding load_metadata_def files snapshot_files.select_convs option.case prod.case if_not_P [OF size] pyval.case keys source fields times
    using hashes published by (simp add: dict_get_def)
qed

lemma validate_built:
  assumes rows: "list_all row_ok rows" "find (\<lambda>r. ur_code r = 87447) rows = Some expected_sentinel"
    and metadata: "metadata = snapshot_metadata retrieved (hex (sha csv_bytes)) database_sha256 (int (length rows)) official"
    and written: "write_database rows [(''schema_version'', int_str SCHEMA_VERSION), (''source_url'', SOURCE_URL),
       (''source_sha256'', hex (sha csv_bytes)), (''row_count'', int_str (int (length rows)))] = Inr s"
  shows "validate_database float_repr (sorted_items metadata) s = Inr ()" "sd_records s = map sql_row rows"
proof -
  let ?internal = "[(''schema_version'', int_str SCHEMA_VERSION), (''source_url'', SOURCE_URL),
       (''source_sha256'', hex (sha csv_bytes)), (''row_count'', int_str (int (length rows)))]"
  have s: "s = \<lparr>sd_application_id = APPLICATION_ID, sd_user_version = SCHEMA_VERSION, sd_objects = snapshot_objects,
                sd_columns = expected_columns, sd_integrity = [''ok''], sd_metadata = sort_key fst ?internal,
                sd_records = map sql_row rows\<rparr>"
    using written by (simp add: write_database_def split: if_splits)
  then show records: "sd_records s = map sql_row rows" by simp
  note entries = metadata_entries [of retrieved "hex (sha csv_bytes)" database_sha256 "int (length rows)" official, folded metadata]
  note get = dict_get_sorted [OF entries(1)]
  have distinct: "distinct (map fst ?internal)" by simp
  have "map_of (rev (sort_key fst ?internal)) = map_of (sort_key fst ?internal)"
    by (intro map_of_rev_distinct map_of_sorted_distinct distinct)
  also have "\<dots> = map_of ?internal" by (rule map_of_sorted [OF distinct])
  finally have internal: "map_of (rev (sd_metadata s)) = map_of ?internal" by (simp add: s)
  have keys: "fst ` set (sd_metadata s) = INTERNAL_METADATA_KEYS" by (auto simp: s INTERNAL_METADATA_KEYS_def)
  have sentinel: "sentinel_ok s"
    using rows(2) sentinel_sql by (simp add: sentinel_ok_def records find_sql_row)
  have fields: "dict_get (sorted_items metadata) ''schema_version'' = PInt SCHEMA_VERSION"
    "dict_get (sorted_items metadata) ''source_sha256'' = PStr (hex (sha csv_bytes))"
    "dict_get (sorted_items metadata) ''row_count'' = PInt (int (length rows))"
    by (simp_all only: get entries sort_dicts.simps)
  show "validate_database float_repr (sorted_items metadata) s = Inr ()"
    unfolding validate_database_def Let_def internal keys fields
    using sentinel by (simp add: s py_str_def)
qed


lemma built_answer:
  assumes rows: "list_all row_ok rows" and code: "CANONICAL_CODE text" and records: "sd_records s = map sql_row rows"
  shows "metbull_record True (Some (Some s)) [(''code'', text)] =
      (case find (\<lambda>r. ur_code r = int (decimal_value text)) rows of
         None \<Rightarrow> Inl (HTTPException 404 ''meteorite record not found'')
       | Some r \<Rightarrow> if ur_record_status r \<in> {''Official'', ''Relict''} then Inr (served_record r)
                   else Inl (HTTPException 409 ''meteorite name is not official''))"
proof (cases "find (\<lambda>r. ur_code r = int (decimal_value text)) rows")
  case None
  then show ?thesis by (simp add: metbull_answer [OF code] records find_sql_row)
next
  case (Some r)
  then have r: "r \<in> set rows" "ur_code r = int (decimal_value text)" by (auto dest: find_SomeD)
  then have "row_ok r" using rows by (auto simp: list_all_iff)
  from lookup_sql_row [OF this] show ?thesis
    by (simp add: metbull_answer [OF code] records find_sql_row Some r(2))
qed

text \<open>C39. The catalogue that the updater makes is the catalogue that the service serves. When the updater has written its two files, the
  service opens them exactly when they hold the 80000 records it demands, whichever smaller number the updater was content with; and
  it answers every canonical code with the row of the CSV: 404 when the CSV has none, 409 when its status is neither Official nor
  Relict, and otherwise the record with the values of the row.\<close>

theorem built_snapshot_served:
  assumes built: "build_snapshot sql_bytes sha decode same_directory csv_bytes now official minimum = Inr (metadata, files)"
    and hash: "\<And>b. length (sha b) = 32"
    and year: "1000 \<le> fst (date_of (micros now))" "fst (date_of (micros now)) \<le> 9999"
  shows "\<exists>rows s. validated_rows decode csv_bytes minimum = Inr rows \<and> sf_database files = Some s \<and>
    MeteoriticalBulletinSnapshot sql_bytes sha float_repr files =
      (if 80000 \<le> length rows then Inr s else Inl (MetbullUnavailable ''metbull_snapshot_metadata_invalid'')) \<and>
    (\<forall>text. CANONICAL_CODE text \<longrightarrow> metbull_record True (Some (Some s)) [(''code'', text)] =
      (case find (\<lambda>r. ur_code r = int (decimal_value text)) rows of
         None \<Rightarrow> Inl (HTTPException 404 ''meteorite record not found'')
       | Some r \<Rightarrow> if ur_record_status r \<in> {''Official'', ''Relict''} then Inr (served_record r)
                   else Inl (HTTPException 409 ''meteorite name is not official'')))"
proof -
  obtain rows s retrieved where rows: "validated_rows decode csv_bytes minimum = Inr rows" and time: "utc_timestamp now = Inr retrieved"
    and official: "validate_optional_utc_timestamp official = Inr ()"
    and written: "write_database rows [(''schema_version'', int_str SCHEMA_VERSION), (''source_url'', SOURCE_URL),
       (''source_sha256'', hex (sha csv_bytes)), (''row_count'', int_str (int (length rows)))] = Inr s"
    and metadata: "metadata = snapshot_metadata retrieved (hex (sha csv_bytes)) (hex (sha (sql_bytes s))) (int (length rows)) official"
    and files: "files = \<lparr>sf_database = Some s, sf_metadata = Some (length (metadata_text metadata), Some (PDict (sorted_items metadata)))\<rparr>"
    using built by (rule build_snapshot_parts)
  note ok = validated_rows_ok [OF rows]
  note stamp = utc_timestamp_valid [OF time year]
  have "length retrieved = 20"
    using official_time_ok(2) [of "Some retrieved" retrieved] stamp by (simp add: validate_optional_utc_timestamp_def)
  from load_built_metadata [where sha = sha and sql_bytes = sql_bytes and csv_bytes = csv_bytes and s = s, OF this stamp official _ rows_fit [OF ok(1,2)] hash metadata files]
  have load: "load_metadata sql_bytes sha files =
      (if int (length rows) < MINIMUM_ROWS then Inl metadata_invalid else Inr (sorted_items metadata))" by simp
  note valid = validate_built [where sha = sha and csv_bytes = csv_bytes and rows = rows and s = s, OF ok(1,3) metadata written]
  have database: "sf_database files = Some s" by (simp add: files)
  have "MeteoriticalBulletinSnapshot sql_bytes sha float_repr files =
      (if 80000 \<le> length rows then Inr s else Inl (MetbullUnavailable ''metbull_snapshot_metadata_invalid''))"
    using valid(1) by (simp add: MeteoriticalBulletinSnapshot_def load database MINIMUM_ROWS_def metadata_invalid_def)
  then show ?thesis using rows database built_answer [OF ok(1) _ valid(2)] by blast
qed

section \<open>A small catalogue\<close>

definition sample_csv :: string where
  "sample_csv = ''Code,Name,Abbrev,Status,Fall,Year,Place,Type,Mass,MetBull,Antarctic,Lat,Long,Comment'' @ [CHR 0x0D, CHR 0x0A] @
     ''87447,'' @ [CHR 0x22] @ ''Northwest Africa 18652'' @ [CHR 0x22] @ '',,Relict,,2018,Western Sahara,Relict iron,,,,,,'' @ [CHR 0x0A] @
     ''5,Aachen,,Official,Y,1880,'' @ [CHR 0x22] @ ''Aachen, Germany'' @ [CHR 0x22] @ '',L5,,,,50.775,6.083,'' @ [CHR 0x0A]"

definition sample_rows :: "snapshot_row list" where
  "sample_rows = [\<lparr>ur_code = 5, ur_canonical_name = ''Aachen'', ur_record_status = ''Official'', ur_recommended_classification = ''L5'',
     ur_fall_or_find = ''Fall'', ur_year_found = Some 1880, ur_country = Some ''Germany'', ur_latitude = Some ''50.775'',
     ur_longitude = Some ''6.083''\<rparr>, expected_sentinel]"

lemma sample_lines: "text_lines sample_csv =
   [''Code,Name,Abbrev,Status,Fall,Year,Place,Type,Mass,MetBull,Antarctic,Lat,Long,Comment'' @ [CHR 0x0D, CHR 0x0A],
    ''87447,'' @ [CHR 0x22] @ ''Northwest Africa 18652'' @ [CHR 0x22] @ '',,Relict,,2018,Western Sahara,Relict iron,,,,,,'' @ [CHR 0x0A],
    ''5,Aachen,,Official,Y,1880,'' @ [CHR 0x22] @ ''Aachen, Germany'' @ [CHR 0x22] @ '',L5,,,,50.775,6.083,'' @ [CHR 0x0A]]"
  by code_simp

lemmas csv_steps = csv_char_def csv_start_field_def csv_add_def csv_save_def csv_reset_def line_end_def after_end_def QUOTE_def
  DELIMITER_def csv_field_limit_def

lemma sample_line1: "csv_line csv_reset (''Code,Name,Abbrev,Status,Fall,Year,Place,Type,Mass,MetBull,Antarctic,Lat,Long,Comment'' @ [CHR 0x0D, CHR 0x0A]) =
   Some \<lparr>cs_state = START_RECORD, cs_field = [], cs_fields = EXPECTED_HEADER\<rparr>"
  by (simp add: csv_steps EXPECTED_HEADER_def)

lemma sample_line2: "csv_line csv_reset (''87447,'' @ [CHR 0x22] @ ''Northwest Africa 18652'' @ [CHR 0x22] @
      '',,Relict,,2018,Western Sahara,Relict iron,,,,,,'' @ [CHR 0x0A]) =
   Some \<lparr>cs_state = START_RECORD, cs_field = [], cs_fields = [''87447'', ''Northwest Africa 18652'', [], ''Relict'', [], ''2018'',
     ''Western Sahara'', ''Relict iron'', [], [], [], [], [], []]\<rparr>"
  by (simp add: csv_steps)

lemma sample_line3: "csv_line csv_reset (''5,Aachen,,Official,Y,1880,'' @ [CHR 0x22] @ ''Aachen, Germany'' @ [CHR 0x22] @
      '',L5,,,,50.775,6.083,'' @ [CHR 0x0A]) =
   Some \<lparr>cs_state = START_RECORD, cs_field = [], cs_fields = [''5'', ''Aachen'', [], ''Official'', ''Y'', ''1880'', ''Aachen, Germany'',
     ''L5'', [], [], [], ''50.775'', ''6.083'', []]\<rparr>"
  by (simp add: csv_steps)

lemma sample_row1: "validated_row [''87447'', ''Northwest Africa 18652'', [], ''Relict'', [], ''2018'',
     ''Western Sahara'', ''Relict iron'', [], [], [], [], [], []] 2 = Inr expected_sentinel"
  by (simp add: validated_row_def expected_sentinel_def CANONICAL_CODE_iff check_text_def bounded_def ALLOWED_STATUSES_def FALL_MARKERS_def
      FALL_VALUES_def coordinates_or_none_def year_or_none_def match_class_def country_or_none_def COUNTRY_NAMES_def decimal_value_def code_def
      is_digit_def)

lemma sample_coordinates: "coordinates_or_none ''50.775'' ''6.083'' 3 = Inr (Some ''50.775'', Some ''6.083'')"
  by (simp add: coordinates_or_none_def update_coordinate_def DECIMAL_def unsigned_part_def in_range_def decimal_of_def decimal_value_def
      Let_def is_digit_def code_def)

lemma sample_row2: "validated_row [''5'', ''Aachen'', [], ''Official'', ''Y'', ''1880'', ''Aachen, Germany'',
     ''L5'', [], [], [], ''50.775'', ''6.083'', []] 3 = Inr (hd sample_rows)"
  by (simp add: validated_row_def sample_rows_def CANONICAL_CODE_iff check_text_def bounded_def ALLOWED_STATUSES_def FALL_MARKERS_def
      FALL_VALUES_def sample_coordinates year_or_none_def match_class_def country_or_none_def COUNTRY_NAMES_def decimal_value_def code_def
      is_digit_def Let_def)

definition latin_decode :: "bytes \<Rightarrow> string option" where
  "latin_decode bs = Some (map (\<lambda>b. char_of (unat b)) bs)"

lemma csv_items_row: "csv_line csv_reset l = Some \<lparr>cs_state = START_RECORD, cs_field = [], cs_fields = r\<rparr> \<Longrightarrow>
    csv_items (l # ls) = CsvRow r # csv_items ls"
  by (subst csv_items.simps) simp

lemma csv_items_end: "csv_items [] = [CsvStop]"
  by (subst csv_items.simps) (simp add: csv_reset_def)

lemma sample_items: "csv_items (text_lines sample_csv) =
   [CsvRow EXPECTED_HEADER, CsvRow [''87447'', ''Northwest Africa 18652'', [], ''Relict'', [], ''2018'', ''Western Sahara'', ''Relict iron'',
      [], [], [], [], [], []],
    CsvRow [''5'', ''Aachen'', [], ''Official'', ''Y'', ''1880'', ''Aachen, Germany'', ''L5'', [], [], [], ''50.775'', ''6.083'', []], CsvStop]"
  by (simp only: sample_lines csv_items_row [OF sample_line1] csv_items_row [OF sample_line2] csv_items_row [OF sample_line3] csv_items_end)

lemma sample_checked: "validated_rows latin_decode (ascii_bytes sample_csv) 1 = Inr sample_rows"
proof -
  have "length sample_csv \<le> MAX_DOWNLOAD_BYTES" "1 \<le> length sample_csv" "CHR 0x00 \<notin> set sample_csv"
    by (simp_all add: sample_csv_def MAX_DOWNLOAD_BYTES_def)
  moreover have "latin_decode (ascii_bytes sample_csv) = Some sample_csv"
    by (simp add: latin_decode_def ascii_bytes_text sample_csv_def)
  moreover have "collect_rows 2 [] (tl (csv_items (text_lines sample_csv))) = Inr [expected_sentinel, hd sample_rows]"
    by (simp add: sample_items EXPECTED_HEADER_def sample_row1 sample_row2) (simp add: sample_rows_def expected_sentinel_def)
  ultimately show ?thesis
    by (simp add: validated_rows_def sample_items ascii_bytes_def) (simp add: sample_rows_def expected_sentinel_def)
qed

text \<open>A file with two records, written with a minimum of one: the service demands 80000 and does not open it, but the records are those
  of the CSV.\<close>

theorem built_snapshot_served_witness:
  "\<exists>m files s. build_snapshot (\<lambda>_. []) (\<lambda>_. replicate 32 0) latin_decode True (ascii_bytes sample_csv) (Aware 0) None 1 = Inr (m, files) \<and>
     MeteoriticalBulletinSnapshot (\<lambda>_. []) (\<lambda>_. replicate 32 0) (\<lambda>_. []) files = Inl (MetbullUnavailable ''metbull_snapshot_metadata_invalid'') \<and>
     sf_database files = Some s \<and>
     metbull_record True (Some (Some s)) [(''code'', ''5'')] = Inr (served_record (hd sample_rows)) \<and>
     metbull_record True (Some (Some s)) [(''code'', ''6'')] = Inl (HTTPException 404 ''meteorite record not found'')"
proof -
  let ?sha = "\<lambda>_. replicate 32 0 :: bytes" and ?sql = "\<lambda>_. [] :: bytes" and ?csv = "ascii_bytes sample_csv"
  have checks: "list_all records_check sample_rows" "distinct (map ur_code sample_rows)"
    by (simp_all add: sample_rows_def expected_sentinel_def records_check_def ALLOWED_STATUSES_def)
  have sentinel: "sentinel_ok s" if "sd_records s = map sql_row sample_rows" for s
  proof -
    have "find (\<lambda>r. ur_code r = 87447) sample_rows = Some expected_sentinel"
      by (simp add: sample_rows_def expected_sentinel_def)
    then show ?thesis using sentinel_sql by (simp add: sentinel_ok_def that find_sql_row)
  qed
  obtain time where time: "utc_timestamp (Aware 0) = Inr time" by (cases "date_of 0") (auto simp: utc_timestamp_def)
  have "\<exists>m files. build_snapshot ?sql ?sha latin_decode True ?csv (Aware 0) None 1 = Inr (m, files)"
    by (simp add: build_snapshot_def sample_checked time validate_optional_utc_timestamp_def write_database_def checks
        validate_built_database_def sentinel Let_def)
  then obtain m files where built: "build_snapshot ?sql ?sha latin_decode True ?csv (Aware 0) None 1 = Inr (m, files)" by blast
  have year: "fst (date_of (micros (Aware 0))) = 1970" by code_simp
  have "1000 \<le> fst (date_of (micros (Aware 0)))" "fst (date_of (micros (Aware 0))) \<le> 9999" unfolding year by simp_all
  from built_snapshot_served [where float_repr = "\<lambda>_. []", OF built _ this] obtain rows s where
    served: "validated_rows latin_decode ?csv 1 = Inr rows" "sf_database files = Some s"
      "MeteoriticalBulletinSnapshot ?sql ?sha (\<lambda>_. []) files =
        (if 80000 \<le> length rows then Inr s else Inl (MetbullUnavailable ''metbull_snapshot_metadata_invalid''))"
    and answers: "\<forall>code. CANONICAL_CODE code \<longrightarrow> metbull_record True (Some (Some s)) [(''code'', code)] =
      (case find (\<lambda>r. ur_code r = int (decimal_value code)) rows of
         None \<Rightarrow> Inl (HTTPException 404 ''meteorite record not found'')
       | Some r \<Rightarrow> if ur_record_status r \<in> {''Official'', ''Relict''} then Inr (served_record r)
                   else Inl (HTTPException 409 ''meteorite name is not official''))"
    by (elim exE conjE meta_impE) simp_all
  have rows: "rows = sample_rows" using served(1) by (simp add: sample_checked)
  have codes: "CANONICAL_CODE ''5''" "CANONICAL_CODE ''6''" "decimal_value ''5'' = 5" "decimal_value ''6'' = 6"
    by (simp_all add: CANONICAL_CODE_iff is_digit_def code_def decimal_value_def)
  have "metbull_record True (Some (Some s)) [(''code'', ''5'')] = Inr (served_record (hd sample_rows))"
    "metbull_record True (Some (Some s)) [(''code'', ''6'')] = Inl (HTTPException 404 ''meteorite record not found'')"
    using answers [rule_format, OF codes(1)] answers [rule_format, OF codes(2)] by (simp_all add: rows codes sample_rows_def expected_sentinel_def)
  with built served rows show ?thesis by (auto simp: sample_rows_def)
qed

end
