(* ===== verification/Spec2Isabelle.thy ===== *)
theory Spec2Isabelle
  imports Runs Esplora Receipts Gateway Webhooks Calendars Api Metbull_Update
begin

text \<open>
  \<^bold>\<open>The Spacerocks timestamp service.\<close> A customer pays for the timestamping of the digest of a meteorite
  certificate. The service (\<open>src/timestamp-service/app\<close>) takes the payment, submits the digest to the
  OpenTimestamps calendars, waits until the proof is anchored in a Bitcoin block, and mails the customer at the first and
  at the sixth confirmation. This development models the program from the source, as functions on a database of tables, and
  proves what makes it correct.

  \<^bold>\<open>The parts and how they interact.\<close> The HTTP layer calls checkout (\<open>payments/service.py\<close>), which reserves
  an order under the client's idempotency key, asks the payment provider for a hosted page and issues a status token. The
  provider's webhook settles the order, and in the same transaction queues it, creates its stamping job and writes the
  audit event. Jobs are leased by workers (\<open>db/repositories.py\<close>, \<open>worker/runner.py\<close>), either by polling or by tasks
  of a queue (\<open>tasks/dispatch.py\<close>, \<open>tasks/http.py\<close>). A worker runs the handler of the job
  (\<open>fulfillment/handlers.py\<close>): stamp, upgrade, deliver, monitor confirmations; a handler reads, calls an external
  service and commits transactions of the adapters (\<open>db/fulfillment_adapters.py\<close>), and it enqueues the next job. The
  outbox (\<open>db/notification_adapters.py\<close>) is leased by the mail dispatcher; the mail provider's webhook completes a
  delivery and moves the order to its last state. Operators (\<open>worker/operator.py\<close>) replay jobs and request
  reverification.

  \<^bold>\<open>How the model is built.\<close> \<open>Database.db\<close> is a record of tables; a row is a record with the columns of
  \<open>db/models.py\<close>, and the insert and update definitions check the unique, foreign-key and check constraints and the
  listener on orders. A transaction is a function \<open>db \<Rightarrow> exn + 'a \<times> db\<close>: an exception rolls back. An action is a function
  \<open>db \<Rightarrow> (exn + 'a) \<times> db\<close>: what was committed before an exception stays. Exceptions are the datatype
  \<open>Prelude.exn\<close> with the messages of the source. Times are microseconds, aware or naive; identifiers are 128-bit words,
  bytes 8-bit words, strings lists of Latin-1 characters. Clocks, random bytes and \<open>uuid4\<close> are arguments. Third-party
  code is an argument as well: SHA-256 and HMAC, the OpenTimestamps parser and operations (record \<open>ots_library\<close>), the
  calendars (record \<open>services\<close>, where the verifier, the receipt and the bundle stand beside them; their models are in
  theories of their own), the Stripe client (record \<open>stripe_client\<close>), the mail provider's HTTP client, the task queue and the
  bytes of a SQLite file. Where a property needs something of such code, its statement names it: 32 random bytes in
  \<open>Credentials.issued_token_authenticates\<close>, the length of SHA-256 in \<open>Metbull_Update.built_snapshot_served\<close>, the
  compressed form of an address in \<open>Calendars.calendar_request_pinned\<close>.

  \<^bold>\<open>Theories.\<close>
  \<^item> \<open>Prelude\<close>: exceptions, results, transactions and actions with the contract \<open>preorder_on_states\<close> (what the parts of
    an action keep, the action keeps), datetimes, row updates, queries, strings and base-2 arithmetic.
  \<^item> \<open>Domain\<close>: \<open>domain/*.py\<close>. The order state machine, identifiers, digests. An order has no work state before a
    settled payment; histories are bounded by the acyclic tables.
  \<^item> \<open>Proof_Store\<close>: \<open>ports/proof.py\<close>, \<open>ports/bitcoin.py\<close>, \<open>timestamping/detached.py\<close>, \<open>proofs/store.py\<close>. The
    contract \<open>proof_store\<close> of an append-only store; the stack loop over a timestamp equals its recursive specification.
  \<^item> \<open>Database\<close>: \<open>db/models.py\<close>. Rows and constraints.
  \<^item> \<open>Jobs\<close>, \<open>Leases\<close>: \<open>jobs/*.py\<close>, \<open>tasks/dispatch.py\<close>, the claim store of \<open>db/repositories.py\<close>. The job
    invariant over every sequence of transactions; fencing of stale leases by the contract \<open>fenced_leases\<close>; which job a
    claim takes; retries; task names, payloads and backoff.
  \<^item> \<open>Evidence\<close>, \<open>Audit_Log\<close>, \<open>Evidence_Audit\<close>: \<open>db/fulfillment_adapters.py\<close>. The abstract machine \<open>audit_step\<close>
    of an append-only audit log and evidence store; every transaction refines it; the SQL proof store satisfies
    \<open>proof_store\<close>, and the repository reads back what it appended, with its verification only once the order shows it;
    transitions are idempotent; bundles round-trip.
  \<^item> \<open>Outbox\<close>, \<open>Delivery\<close>, \<open>Delivery_Audit\<close>, \<open>Notices\<close>: \<open>db/notification_adapters.py\<close>,
    \<open>notifications/*.py\<close>. The machine \<open>outbox_move\<close> of a message, refined by every transaction; fencing, again by
    \<open>fenced_leases\<close>; a claimed message has all that the sender needs; webhooks are idempotent.
  \<^item> \<open>Credentials\<close>, \<open>Payments\<close>, \<open>Payments_Audit\<close>: \<open>security/*.py\<close>, \<open>auth/status_token.py\<close>,
    \<open>db/cleanup.py\<close>, \<open>payments/service.py\<close>. Tokens, idempotency keys, rate limits, order references, checkout URLs; no
    second order while a key is recorded (the cleanup deletes it after its time, and then the key is new), one credential per
    lease, one application per event, a paid order is queued.
  \<^item> \<open>Fulfillment\<close>, \<open>Worker\<close>: \<open>fulfillment/*.py\<close>, \<open>worker/*.py\<close>, \<open>tasks/http.py\<close>. The handlers and the loop.
  \<^item> \<open>Bitcoin\<close>, \<open>Esplora\<close>: \<open>bitcoin/*.py\<close>. The verifiers that the handlers are given, against the contract
    \<open>sound_verifier\<close>: a verified result names a block that commits to the proof, and the store accepts it; the Esplora
    verifier needs two servers that agree, and the accepted headers are those with a proof of work.
  \<^item> \<open>Iso_Dates\<close>, \<open>Json\<close>: what the program uses of Python's \<open>datetime\<close> and \<open>json\<close>: the calendar,
    printing and parsing dates, and a parser that reads back what the printer wrote.
  \<^item> \<open>Receipts\<close>: \<open>proofs/*.py\<close>. The receipt, its validation and the archive, byte for byte. A bundle reads back
    as its files; a receipt of the service is accepted exactly when its times are whole seconds, so that an order whose
    submission time has a fraction of a second is never delivered.
  \<^item> \<open>Py_Values\<close>, \<open>Gateway\<close>: what readers of foreign objects use of Python's built-in types, and
    \<open>payments/gateway.py\<close>. A provider has the contract \<open>mode_provider\<close>; an order becomes paid, or refunded, only
    on the word of the session that the Stripe client returns.
  \<^item> \<open>Webhooks\<close>: \<open>notifications/webhooks.py\<close>, \<open>templates.py\<close>, the request of \<open>resend.py\<close> and the
    route. Only requests signed under the shared secret have an effect, and signed ones are accepted.
  \<^item> \<open>Calendars\<close>: \<open>timestamping/calendars.py\<close>, \<open>fixture.py\<close>. The URLs and their normal form, the transport that pins
    a public address, the timestamper against the contract \<open>exact_timestamper\<close>: an upgrade returns, whatever the
    calendars answer, and what it returns is a proof of the digest. The loop without a bound over a timestamp ends.
  \<^item> \<open>Api\<close>: \<open>api/routes.py\<close>, \<open>api/schemas.py\<close>, \<open>security/http.py\<close>. The endpoints and the limits in front of them:
    what a request without a token can change (rate counters), what one with a token can change (tokens and audit events of its own
    order), what a status may claim, which downloads are recorded, what a rotation revokes, and how much of a body gets through.
  \<^item> \<open>Metbull\<close>, \<open>Metbull_Update\<close>: \<open>metbull/*.py\<close>, \<open>scripts/update_metbull_snapshot.py\<close>. The meteorite
    catalogue, apart from the orders: the checks of the snapshot and of each record, the program that makes the snapshot from a
    CSV with Python's reader of CSV as its state machine, and the proof that the service serves the rows of the CSV.
  \<^item> \<open>System\<close>, \<open>Runs\<close> and this theory: the whole service as the machine \<open>sys_step\<close>, one step per committed transaction,
    with the invariant \<open>sys_inv\<close>; and the proof that every service is a run of that machine under a stable guard
    (contract \<open>stable_guard\<close>).

  \<^bold>\<open>Bounds and fuel.\<close> No definition uses fuel. The loop \<open>Calendars.walk_loop\<close> is a partial function into an option; a
  theorem says that it always returns. The loop over a timestamp tree terminates by the measure of its stack; the
  heartbeat loop recurses over the times its timer fires before the handler ends, so a lease that is held for any length of time is
  covered by a long enough list.

  \<^bold>\<open>Not modelled.\<close> The dispatch of FastAPI and the errors of pydantic (the endpoints take the values of the request and
  check what their schemas demand), the configuration from the environment and the construction of the services, logging,
  the health routes, the migrations, the command lines around the operator commands, the web frontend, and the third-party
  libraries above. The schema is modelled without column widths. Serialization
  failures of the database and the cancellation of a whole worker process are covered only in that a transaction is atomic and
  may not happen. The two transactions of a download run without another between them. Strings are Latin-1, and the JSON reader
  takes no \<open>\u\<close> escape beyond it; it has no limit on nesting and reads no UTF-16. Times at the ends of the calendar do not
  overflow, and the operations of a timestamp do not raise. The check of the configured Esplora URLs and of the addresses behind
  them is left out (that of the calendars is modelled). \<open>purge_synthetic\<close>, a command of the test environment that deletes
  jobs and messages, is defined in \<open>Worker\<close> and is not a step of the machine. Floating-point values of the backoff are rationals.
\<close>

section \<open>Samples\<close>

lemma sample_sys_inv: "sys_inv sha sample_store"
proof -
  have "job_tables sample_store = job_tables sample_db" by (simp add: sample_store_def job_tables_def)
  then have "job_safe sample_db sample_store" by (rule job_safe_tables)
  then have "jobs_inv sample_store" using sample_jobs_inv by (simp add: job_safe_def)
  moreover have "outbox_tables sample_store = outbox_tables empty_db"
    by (simp add: sample_store_def sample_db_def outbox_tables_def)
  then have "outbox_inv sample_store" using outboxed_inv [OF outboxed_frame] outbox_inv_empty by blast
  moreover have "settle_ok sample_store"
    by (simp add: settle_ok_def order_settle_ok_def is_settled_def settled_id_def settled_payments_def job_orders_def
        proof_orders_def sample_store_def sample_db_def sample_order_def sample_job_def new_job_def empty_db_def)
  ultimately show ?thesis using sample_store_inv by (simp add: sys_inv_def)
qed

definition sample_services :: services where
  "sample_services = \<lparr>sv_lib = \<lparr>ots_sha256 = sample_sha, ots_apply = \<lambda>_ b. b, ots_parse = \<lambda>_. None\<rparr>,
     sv_stamp = \<lambda>_. Inl (CalendarUnavailable ''down''), sv_upgrade = \<lambda>_ b. Inr b,
     sv_verify = \<lambda>_ _. Inl (BitcoinVerifierUnavailable ''down''), sv_receipt = \<lambda>_ _ _. Inr [], sv_bundle = \<lambda>_ _ _ _. Inr [],
     sv_float_micros = micros, sv_version = ''1'', sv_outbox = \<lparr>os_idempotency_horizon = hours 1, os_max_attempts = 5\<rparr>,
     sv_now = \<lambda>n. Aware (int n), sv_new_id = \<lambda>n. 100 + word_of_nat n\<rparr>"

definition sample_worker :: worker where
  "sample_worker = \<lparr>wk_id = ''w1'', wk_services = sample_services, wk_create = None, wk_settings = default_worker_settings,
     wk_backoff = BackoffPolicy, wk_now = \<lambda>n. Aware (int n), wk_jitter = 0\<rparr>"

lemma cancelled_nothing: "cancelled_runs sha (\<lambda>_. return_act ())"
  by (simp add: cancelled_runs_def running.keeps_return)

section \<open>The system\<close>

text \<open>C1. Started on an empty database, whatever the clients, providers, workers and operators do and in whatever order
  their transactions commit: every component keeps its invariant, every job and every proof is of an order whose payment
  was settled, and from any point on nothing recorded is lost: orders keep their snapshot and move only along the
  transitions, and the audit log, the proofs, verifications, bundles, observations and messages are only added to.\<close>

theorem system_invariant_reachable:
  assumes "(sys_step sha)\<^sup>*\<^sup>* empty_db d" "(sys_step sha)\<^sup>*\<^sup>* d d'"
  shows "sys_inv sha d' \<and> store_le d d' \<and> outbox_le d d'"
  using sys_steps_safe [OF assms(2)] sys_steps_safe [OF assms(1) sys_inv_empty] by blast

theorem system_invariant_reachable_witness:
  "\<exists>d'. (sys_step sample_sha)\<^sup>*\<^sup>* empty_db d' \<and> orders d' \<noteq> [] \<and> sys_inv sample_sha d' \<and> store_le empty_db d'"
proof -
  obtain plan d' where tx: "reserve_tx sample_settings sample_token_store sample_ids (replicate 32 0) sample_request (sample_binding 1)
      (Aware 0) 0 (replicate 10 3) empty_db = Inr (Inl plan, d')" using sample_reserve by blast
  then have run: "(sys_step sample_sha)\<^sup>*\<^sup>* empty_db d'"
    by (intro r_into_rtranclp sys_step.customer customer_step.reserve)
  have "orders d' \<noteq> []"
    using tx by (rule reserve_cases) (simp_all add: find_idempotency_def empty_db_def)
  then show ?thesis using system_invariant_reachable [OF rtranclp.rtrancl_refl run] run by blast
qed

text \<open>C2. An order whose payment is not settled is left alone: in every reachable database it is still awaiting payment, and
  there is no job, no proof, no verification and no observation for it.\<close>

theorem unpaid_order_untouched:
  assumes "(sys_step sha)\<^sup>*\<^sup>* empty_db d" "order \<in> set (orders d)" "o_payment_state order \<notin> settled_payments"
  shows "o_fulfillment_state order = AWAITING_PAYMENT \<and> o_id order \<notin> j_order_id ` set (durable_jobs d) \<and>
    o_id order \<notin> pv_order_id ` set (proof_versions d) \<and> o_id order \<notin> ve_order_id ` set (proof_verifications d) \<and>
    o_id order \<notin> ob_order_id ` set (confirmation_observations d)"
proof -
  have inv: "sys_inv sha d" using sys_steps_safe [OF assms(1) sys_inv_empty] by simp
  have own: "order' = order" if "order' \<in> set (orders d)" "o_id order' = o_id order" for order'
    using that assms(2) sys_invD(1) [OF inv] by (auto simp: store_inv_def orders_ok_def distinct_map inj_on_def)
  then have unsettled: "\<not> settled_id (o_id order) d" using assms(3) by (auto simp: settled_id_def is_settled_def)
  have ok: "settle_ok d" and ver: "verifications_ok d" using inv by (simp_all add: sys_inv_def store_inv_def)
  have await: "o_fulfillment_state order = AWAITING_PAYMENT"
    using ok assms(2,3) by (auto simp: settle_ok_def order_settle_ok_def is_settled_def)
  have work: "o_id order \<notin> j_order_id ` set (durable_jobs d)" and proofs: "o_id order \<notin> pv_order_id ` set (proof_versions d)"
    using ok unsettled unfolding settle_ok_def job_orders_def proof_orders_def by blast+
  have verif: "o_id order \<notin> ve_order_id ` set (proof_verifications d)"
  proof
    assume "o_id order \<in> ve_order_id ` set (proof_verifications d)"
    then obtain v where v: "v \<in> set (proof_verifications d)" "ve_order_id v = o_id order" by auto
    then obtain p where "find_proof (o_id order) (ve_proof_version v) d = Some p"
      using ver by (auto simp: verifications_ok_def)
    then have "p \<in> set (proof_versions d)" "pv_order_id p = o_id order"
      by (auto simp: find_proof_def dest: find_SomeD)
    then show False using proofs by force
  qed
  moreover have "o_id order \<notin> ob_order_id ` set (confirmation_observations d)"
    using verif ver unfolding verifications_ok_def by force
  ultimately show ?thesis using await work proofs by blast
qed

theorem unpaid_order_untouched_witness:
  "\<exists>d order. (sys_step sample_sha)\<^sup>*\<^sup>* empty_db d \<and> order \<in> set (orders d) \<and> o_payment_state order = CHECKOUT_OPEN \<and>
     o_fulfillment_state order = AWAITING_PAYMENT \<and> o_id order \<notin> j_order_id ` set (durable_jobs d)"
proof -
  obtain plan d where tx: "reserve_tx sample_settings sample_token_store sample_ids (replicate 32 0) sample_request (sample_binding 1)
      (Aware 0) 0 (replicate 10 3) empty_db = Inr (Inl plan, d)" using sample_reserve by blast
  then have run: "(sys_step sample_sha)\<^sup>*\<^sup>* empty_db d"
    by (intro r_into_rtranclp sys_step.customer customer_step.reserve)
  obtain order where order: "order \<in> set (orders d)" "o_payment_state order = CHECKOUT_OPEN"
    using tx by (rule reserve_cases) (auto simp: find_idempotency_def empty_db_def reserved_order_def)
  then show ?thesis
    using unpaid_order_untouched [OF run order(1)] run by (auto simp: settled_payments_def)
qed

text \<open>C3. The worker changes the database only by transactions of the machine, whatever the calendars, the Bitcoin verifier,
  the clock and the random values return, whatever exception ends the handler and wherever a lost lease cancels it: what
  it leaves behind is a state that interleaved transactions reach, and every handler works on a settled order.\<close>

theorem worker_runs_transactions:
  assumes "sys_inv (sv_sha (wk_services w)) d" "cancelled_runs (sv_sha (wk_services w)) committed"
  shows "(sys_step (sv_sha (wk_services w)))\<^sup>*\<^sup>* d (snd (run_once w now ticks committed d)) \<and>
    (sys_step (sv_sha (wk_services w)))\<^sup>*\<^sup>* d (snd (run_task decode queue create w now ticks committed later r d))"
  using keeps_run_once [OF assms(2)] keeps_run_task [OF assms(2)] assms(1)
  by (simp add: keeps_def runs_def unguarded_def)

theorem worker_runs_transactions_witness:
  "(sys_step sample_sha)\<^sup>*\<^sup>* sample_store (snd (run_once sample_worker (Aware 0) [Aware 1] (\<lambda>_. return_act ()) sample_store))"
  using worker_runs_transactions [of sample_worker sample_store "\<lambda>_. return_act ()" "Aware 0" "[Aware 1]"]
    sample_sys_inv cancelled_nothing
  by (simp add: sample_worker_def sample_services_def)

text \<open>C4. Checkout, the payment webhook, the mail dispatcher and the operator commands change the database only by
  transactions of the machine, whatever the providers return.\<close>

theorem services_run_transactions:
  assumes "sys_inv sha d" "sv_sha sv = sha"
  shows "(sys_step sha)\<^sup>*\<^sup>* d (snd (checkout_create ps os pp new_id token request binding now ms random_bytes later d)) \<and>
    (sys_step sha)\<^sup>*\<^sup>* d (snd (process_webhook ps pp sha' new_id raw_body signature now later d)) \<and>
    (sys_step sha)\<^sup>*\<^sup>* d (snd (dispatch_once sha send lease_for message_token worker_id now d)) \<and>
    (sys_step sha)\<^sup>*\<^sup>* d (snd (operator_reverify sv create order_id request_id d)) \<and>
    (sys_step sha)\<^sup>*\<^sup>* d (snd (operator_upgrade sv create order_id d)) \<and>
    (sys_step sha)\<^sup>*\<^sup>* d (snd (operator_replay sv create job_id d)) \<and>
    (sys_step sha)\<^sup>*\<^sup>* d (snd (operator_reconcile create limit now d)) \<and>
    (sys_step sha)\<^sup>*\<^sup>* d (snd (operator_recover_stale create limit grace now later d))"
  using keeps_checkout keeps_process_webhook keeps_dispatch_once keeps_operator(1-3) [where sv = sv] keeps_operator(4,5) assms
  by (simp add: keeps_def runs_def unguarded_def)

theorem services_run_transactions_witness:
  "(sys_step sample_sha)\<^sup>*\<^sup>* sample_store (snd (operator_replay sample_services None (uuid_str 21) sample_store))"
  using services_run_transactions [OF sample_sys_inv, of sample_services sample_sha]
  by (simp add: sample_services_def)

end
